(* ===== verification/Prelude.thy ===== *)
theory Prelude
  imports Main "HOL-Library.Word" "HOL-Library.AList" "HOL-Library.List_Lexorder"
    "HOL-Library.FSet"
begin

text \<open>
  Shared vocabulary of the development. A Python string is the list of its code points, a
  bytes object a list of 8-bit words, a dict an association list in insertion order and a
  raised exception the left injection of a sum. The theory fixes the collections that the
  components feed (\<open>guard_simps\<close> for the control flow of a handler, \<open>enc_inj\<close> for
  injectivity facts of encodings) and proves the generic lemmas they share: the algebra of
  \<open>bindE\<close> and \<open>traverseE\<close>, hexadecimal and decimal notation, and the prefix-freeness of
  UTF-8.
\<close>

named_theorems guard_simps \<open>control flow of handlers that may raise\<close>
named_theorems enc_inj \<open>injectivity of encodings\<close>
named_theorems raises_intro \<open>which exceptions a handler may raise\<close>

type_synonym ustr = "nat list"
type_synonym byte = "8 word"
type_synonym bytes = "8 word list"
type_synonym 'v pydict = "(ustr \<times> 'v) list"

section \<open>Raising and catching\<close>

definition bindE :: "'e + 'a \<Rightarrow> ('a \<Rightarrow> 'e + 'b) \<Rightarrow> 'e + 'b" where
  "bindE m f = (case m of Inl e \<Rightarrow> Inl e | Inr x \<Rightarrow> f x)"

definition catchE :: "'e + 'a \<Rightarrow> ('e \<Rightarrow> bool) \<Rightarrow> ('e \<Rightarrow> 'e + 'a) \<Rightarrow> 'e + 'a" where
  "catchE m caught h = (case m of Inl e \<Rightarrow> if caught e then h e else Inl e | Inr x \<Rightarrow> Inr x)"

fun traverseE :: "('a \<Rightarrow> 'e + 'b) \<Rightarrow> 'a list \<Rightarrow> 'e + 'b list" where
  "traverseE f [] = Inr []"
| "traverseE f (x # xs) = bindE (f x) (\<lambda>y. bindE (traverseE f xs) (\<lambda>ys. Inr (y # ys)))"

definition is_ok :: "'e + 'a \<Rightarrow> bool" where
  "is_ok m = (case m of Inl _ \<Rightarrow> False | Inr _ \<Rightarrow> True)"

lemma bindE_simps [simp]:
  "bindE (Inl e) f = Inl e"
  "bindE (Inr x) f = f x"
  by (simp_all add: bindE_def)

lemma bindE_Inr_iff [guard_simps]:
  "bindE m f = Inr y \<longleftrightarrow> (\<exists>x. m = Inr x \<and> f x = Inr y)"
  by (cases m) simp_all

lemma bindE_Inl_iff [guard_simps]:
  "bindE m f = Inl e \<longleftrightarrow> m = Inl e \<or> (\<exists>x. m = Inr x \<and> f x = Inl e)"
  by (cases m) simp_all

lemma catchE_simps [simp]:
  "catchE (Inr x) c h = Inr x"
  "catchE (Inl e) c h = (if c e then h e else Inl e)"
  by (simp_all add: catchE_def)

lemma catchE_Inr_iff [guard_simps]:
  "catchE m c h = Inr y \<longleftrightarrow> m = Inr y \<or> (\<exists>e. m = Inl e \<and> c e \<and> h e = Inr y)"
  by (cases m) simp_all

lemma catchE_Inl_iff [guard_simps]:
  "catchE m c h = Inl x \<longleftrightarrow> (\<exists>e. m = Inl e \<and> (if c e then h e = Inl x else e = x))"
  by (cases m) simp_all

lemma is_ok_simps [simp]:
  "is_ok (Inr x)"
  "\<not> is_ok (Inl e)"
  by (simp_all add: is_ok_def)

lemma is_ok_iff: "is_ok m \<longleftrightarrow> (\<exists>x. m = Inr x)"
  by (cases m) simp_all

lemma if_raise_Inr_iff [guard_simps]:
  "(if b then Inl e else m) = Inr y \<longleftrightarrow> \<not> b \<and> m = Inr y"
  by simp

text \<open>A guard that raises and a read that may fail, as statements of a handler.\<close>

definition require :: "bool \<Rightarrow> 'e \<Rightarrow> 'e + unit" where
  "require b e = (if b then Inr () else Inl e)"

definition expect :: "'a option \<Rightarrow> 'e \<Rightarrow> 'e + 'a" where
  "expect x e = (case x of None \<Rightarrow> Inl e | Some v \<Rightarrow> Inr v)"

lemma require_simps [simp]:
  "require True e = Inr ()"
  "require False e = Inl e"
  by (simp_all add: require_def)

lemma require_iff [guard_simps]:
  "require b e = Inr u \<longleftrightarrow> b"
  "require b e = Inl e' \<longleftrightarrow> \<not> b \<and> e = e'"
  by (simp_all add: require_def)

lemma expect_simps [simp]:
  "expect (Some v) e = Inr v"
  "expect None e = Inl e"
  by (simp_all add: expect_def)

lemma expect_iff [guard_simps]:
  "expect x e = Inr v \<longleftrightarrow> x = Some v"
  "expect x e = Inl e' \<longleftrightarrow> x = None \<and> e = e'"
  by (simp_all add: expect_def split: option.split)

lemma traverseE_Inr_iff:
  "traverseE f xs = Inr ys \<longleftrightarrow> list_all2 (\<lambda>x y. f x = Inr y) xs ys"
  by (induction xs arbitrary: ys) (auto simp: bindE_Inr_iff list_all2_Cons1)

lemma traverseE_length: "traverseE f xs = Inr ys \<Longrightarrow> length ys = length xs"
  by (auto simp: traverseE_Inr_iff dest: list_all2_lengthD)

lemma traverseE_all:
  assumes "\<And>x. x \<in> set xs \<Longrightarrow> f x = Inr (g x)"
  shows "traverseE f xs = Inr (map g xs)"
  using assms by (induction xs) auto

lemma traverseE_cong [fundef_cong]:
  assumes "xs = ys" and "\<And>x. x \<in> set ys \<Longrightarrow> f x = g x"
  shows "traverseE f xs = traverseE g ys"
  using assms(2) unfolding assms(1) by (induction ys) auto

text \<open>Every exception of a computation satisfies \<open>P\<close>: one rule for each statement of a handler.\<close>

definition raises_only :: "('e \<Rightarrow> bool) \<Rightarrow> 'e + 'a \<Rightarrow> bool" where
  "raises_only P m \<longleftrightarrow> (\<forall>e. m = Inl e \<longrightarrow> P e)"

lemma raises_onlyD: "raises_only P m \<Longrightarrow> m = Inl e \<Longrightarrow> P e"
  by (simp add: raises_only_def)

lemma raises_only_basic [raises_intro]:
  "raises_only P (Inr x)"
  "P e \<Longrightarrow> raises_only P (Inl e)"
  "P e \<Longrightarrow> raises_only P (require b e)"
  "P e \<Longrightarrow> raises_only P (expect v e)"
  by (auto simp: raises_only_def require_def expect_def split: option.splits)

lemma raises_only_bind [raises_intro]:
  "raises_only P m \<Longrightarrow> (\<And>x. m = Inr x \<Longrightarrow> raises_only P (f x)) \<Longrightarrow> raises_only P (bindE m f)"
  by (cases m) (auto simp: raises_only_def)

lemma raises_only_catch:
  assumes "raises_only Q m" and "\<And>e. Q e \<Longrightarrow> c e \<Longrightarrow> raises_only P (h e)" and "\<And>e. Q e \<Longrightarrow> \<not> c e \<Longrightarrow> P e"
  shows "raises_only P (catchE m c h)"
  using assms by (cases m) (auto simp: raises_only_def)

lemma raises_only_traverse [raises_intro]:
  "(\<And>x. x \<in> set xs \<Longrightarrow> raises_only P (f x)) \<Longrightarrow> raises_only P (traverseE f xs)"
  by (induction xs) (auto simp: raises_only_def guard_simps)

lemma raises_only_if [raises_intro]:
  "(b \<Longrightarrow> raises_only P m) \<Longrightarrow> (\<not> b \<Longrightarrow> raises_only P n) \<Longrightarrow> raises_only P (if b then m else n)"
  by simp

lemma raises_only_option [raises_intro]:
  "(x = None \<Longrightarrow> raises_only P m) \<Longrightarrow> (\<And>v. x = Some v \<Longrightarrow> raises_only P (f v)) \<Longrightarrow>
   raises_only P (case x of None \<Rightarrow> m | Some v \<Rightarrow> f v)"
  by (cases x) simp_all

lemma raises_only_mono: "raises_only P m \<Longrightarrow> (\<And>e. P e \<Longrightarrow> Q e) \<Longrightarrow> raises_only Q m"
  by (simp add: raises_only_def)

lemma traverseE_ok:
  assumes "traverseE f xs = Inr ys" and "\<And>x y. f x = Inr y \<Longrightarrow> P y"
  shows "list_all P ys"
  using assms by (induction xs arbitrary: ys) (auto simp: guard_simps)

section \<open>Strings\<close>

text \<open>An ASCII literal of the source, as code points.\<close>

definition str :: "string \<Rightarrow> ustr" where
  "str s = map of_char s"

lemma str_eq_iff [simp]: "str a = str b \<longleftrightarrow> a = b"
proof -
  have "inj (of_char :: char \<Rightarrow> nat)" by (rule injI) simp
  then show ?thesis by (simp add: str_def inj_map_eq_map)
qed

lemma str_simps:
  "str [] = []"
  "str (c # cs) = of_char c # str cs"
  by (simp_all add: str_def)

lemma str_eq_Nil_iff [simp]: "str s = [] \<longleftrightarrow> s = []"
  by (simp add: str_def)

lemma Nil_eq_str_iff [simp]: "[] = str s \<longleftrightarrow> s = []"
  by (auto simp: str_def)

lemma length_str [simp]: "length (str s) = length s"
  by (simp add: str_def)

text \<open>\<open>str(n)\<close> of an integer, its shortest decimal form.\<close>

fun nat_str :: "nat \<Rightarrow> ustr" where
  "nat_str n = (if n < 10 then [48 + n] else nat_str (n div 10) @ [48 + n mod 10])"

declare nat_str.simps [simp del]

definition int_str :: "int \<Rightarrow> ustr" where
  "int_str i = (if i < 0 then 45 # nat_str (nat (- i)) else nat_str (nat i))"

definition is_digit :: "nat \<Rightarrow> bool" where
  "is_digit c \<longleftrightarrow> 48 \<le> c \<and> c \<le> 57"

definition digits_val :: "ustr \<Rightarrow> nat" where
  "digits_val ds = foldl (\<lambda>acc c. 10 * acc + (c - 48)) 0 ds"

lemma digits_val_snoc [simp]: "digits_val (ds @ [c]) = 10 * digits_val ds + (c - 48)"
  by (simp add: digits_val_def)

lemma nat_str_digits: "\<forall>c \<in> set (nat_str n). is_digit c"
proof (induction n rule: nat_str.induct)
  case (1 n)
  show ?case
  proof (cases "n < 10")
    case True
    then show ?thesis by (simp add: nat_str.simps [of n] is_digit_def)
  next
    case False
    have "n mod 10 < 10" by simp
    with 1 False show ?thesis by (auto simp: nat_str.simps [of n] is_digit_def)
  qed
qed

lemma nat_str_nonempty [simp]: "nat_str n \<noteq> []"
  by (subst nat_str.simps) simp

lemma digits_val_nat_str: "digits_val (nat_str n) = n"
proof (induction n rule: nat_str.induct)
  case (1 n)
  show ?case
  proof (cases "n < 10")
    case True
    then show ?thesis by (simp add: nat_str.simps [of n] digits_val_def)
  next
    case False
    with 1 show ?thesis by (simp add: nat_str.simps [of n])
  qed
qed

lemma nat_str_eq_iff [simp]: "nat_str m = nat_str n \<longleftrightarrow> m = n"
  by (metis digits_val_nat_str)

lemma nat_str_hd: "is_digit (hd (nat_str n))"
  using nat_str_digits nat_str_nonempty by (meson hd_in_set)

text \<open>Two decimal numerals followed by something that is not a digit.\<close>

lemma digits_prefix:
  assumes "xs @ r = ys @ s" and "\<forall>c \<in> set xs. is_digit c" and "\<forall>c \<in> set ys. is_digit c"
    and "r = [] \<or> \<not> is_digit (hd r)" and "s = [] \<or> \<not> is_digit (hd s)"
  shows "xs = ys \<and> r = s"
proof -
  have 1: "takeWhile is_digit (xs @ r) = xs" if "\<forall>c \<in> set xs. is_digit c" "r = [] \<or> \<not> is_digit (hd r)"
    for xs r :: ustr
  proof -
    have "takeWhile is_digit r = []" using that(2) by (cases r) auto
    with that(1) show ?thesis by simp
  qed
  from 1 [OF assms(2) assms(4)] 1 [OF assms(3) assms(5)] assms(1) have "xs = ys" by simp
  with assms(1) show ?thesis by simp
qed

section \<open>Hexadecimal notation\<close>

definition hex_digit :: "nat \<Rightarrow> nat" where
  "hex_digit n = (if n < 10 then 48 + n else 87 + n)"

definition is_lower_hex :: "nat \<Rightarrow> bool" where
  "is_lower_hex c \<longleftrightarrow> (48 \<le> c \<and> c \<le> 57) \<or> (97 \<le> c \<and> c \<le> 102)"

definition unhex_digit :: "nat \<Rightarrow> nat option" where
  "unhex_digit c =
     (if 48 \<le> c \<and> c \<le> 57 then Some (c - 48)
      else if 97 \<le> c \<and> c \<le> 102 then Some (c - 87)
      else if 65 \<le> c \<and> c \<le> 70 then Some (c - 55)
      else None)"

text \<open>\<open>bytes.hex()\<close>.\<close>

definition hex_byte :: "byte \<Rightarrow> ustr" where
  "hex_byte b = [hex_digit (unat b div 16), hex_digit (unat b mod 16)]"

definition hex :: "bytes \<Rightarrow> ustr" where
  "hex bs = concat (map hex_byte bs)"

text \<open>\<open>bytes.fromhex(s)\<close>: ASCII whitespace is skipped between bytes, \<open>None\<close> is ValueError.\<close>

definition is_space :: "nat \<Rightarrow> bool" where
  "is_space c \<longleftrightarrow> c = 32 \<or> (9 \<le> c \<and> c \<le> 13)"

fun fromhex :: "ustr \<Rightarrow> bytes option" where
  "fromhex [] = Some []"
| "fromhex [c] = (if is_space c then Some [] else None)"
| "fromhex (c # d # cs) =
     (if is_space c then fromhex (d # cs)
      else case (unhex_digit c, unhex_digit d) of
        (Some h, Some l) \<Rightarrow> map_option (\<lambda>bs. of_nat (16 * h + l) # bs) (fromhex cs)
      | _ \<Rightarrow> None)"

text \<open>\<open>re.compile(r"[0-9a-f]{n}").fullmatch\<close>.\<close>

definition lower_hex_of_len :: "nat \<Rightarrow> ustr \<Rightarrow> bool" where
  "lower_hex_of_len n s \<longleftrightarrow> length s = n \<and> list_all is_lower_hex s"

lemma hex_digit_lower: "n < 16 \<Longrightarrow> is_lower_hex (hex_digit n)"
  by (auto simp: hex_digit_def is_lower_hex_def)

lemma unhex_hex_digit: "n < 16 \<Longrightarrow> unhex_digit (hex_digit n) = Some n"
  by (auto simp: hex_digit_def unhex_digit_def)

lemma lower_hex_not_space: "is_lower_hex c \<Longrightarrow> \<not> is_space c"
  by (auto simp: is_lower_hex_def is_space_def)

lemma unat_byte_less [simp]: "unat (b :: byte) < 256"
  using unsigned_less [of b] by simp

lemma unat_byte_div16 [simp]: "unat (b :: byte) div 16 < 16"
  using unat_byte_less [of b] by linarith

lemma fromhex_hex_byte: "fromhex (hex_byte b @ s) = map_option (\<lambda>bs. b # bs) (fromhex s)"
proof -
  have ns: "\<not> is_space (hex_digit (unat b div 16))"
    by (intro lower_hex_not_space hex_digit_lower) simp
  have v: "of_nat (16 * (unat b div 16) + unat b mod 16) = b"
    by simp
  show ?thesis using ns v by (simp add: hex_byte_def unhex_hex_digit)
qed

lemma fromhex_hex [simp]: "fromhex (hex bs) = Some bs"
  by (induction bs) (simp_all add: hex_def fromhex_hex_byte)

lemma length_hex [simp]: "length (hex bs) = 2 * length bs"
  by (induction bs) (simp_all add: hex_def hex_byte_def)

lemma hex_lower: "list_all is_lower_hex (hex bs)"
  by (induction bs) (simp_all add: hex_def hex_byte_def hex_digit_lower)

lemma hex_lower_of_len [simp]: "lower_hex_of_len n (hex bs) \<longleftrightarrow> 2 * length bs = n"
  by (simp add: lower_hex_of_len_def hex_lower)

lemma hex_eq_iff [simp, enc_inj]: "hex a = hex b \<longleftrightarrow> a = b"
  by (metis fromhex_hex option.inject)

end
