(* ===== verification/Text_Encoding.thy ===== *)
theory Text_Encoding
  imports Prelude
begin

text \<open>
  The text encodings of the Python standard library that the runtime signs, hashes and sorts
  with: \<open>str.encode("utf-8")\<close> and \<open>str.encode("utf-16-be")\<close>. A lone surrogate, which a
  JSON document may contain, has no encoding: \<open>None\<close> stands for the UnicodeEncodeError. The
  main result is that UTF-8 is prefix free, hence injective.
\<close>

definition is_surrogate :: "nat \<Rightarrow> bool" where
  "is_surrogate c \<longleftrightarrow> 55296 \<le> c \<and> c \<le> 57343"

definition utf8_units :: "nat \<Rightarrow> nat list" where
  "utf8_units c =
     (if c < 128 then [c]
      else if c < 2048 then [192 + c div 64, 128 + c mod 64]
      else if c < 65536 then [224 + c div 4096, 128 + c div 64 mod 64, 128 + c mod 64]
      else [240 + c div 262144, 128 + c div 4096 mod 64, 128 + c div 64 mod 64, 128 + c mod 64])"

definition encodable :: "nat \<Rightarrow> bool" where
  "encodable c \<longleftrightarrow> c < 1114112 \<and> \<not> is_surrogate c"

definition utf8 :: "ustr \<Rightarrow> bytes option" where
  "utf8 s = (if list_all encodable s then Some (map of_nat (concat (map utf8_units s))) else None)"

definition utf16_units :: "nat \<Rightarrow> nat list" where
  "utf16_units c =
     (if c < 65536 then [c div 256, c mod 256]
      else let d = c - 65536; hi = 55296 + d div 1024; lo = 56320 + d mod 1024
           in [hi div 256, hi mod 256, lo div 256, lo mod 256])"

text \<open>The bytes are kept as numbers: they only serve as sort keys.\<close>

definition utf16be :: "ustr \<Rightarrow> nat list option" where
  "utf16be s = (if list_all encodable s then Some (concat (map utf16_units s)) else None)"

section \<open>UTF-8 is prefix free\<close>

lemma utf8_units_byte: "c < 1114112 \<Longrightarrow> x \<in> set (utf8_units c) \<Longrightarrow> x < 256"
  by (auto simp: utf8_units_def split: if_splits)

lemma utf8_units_nonempty [simp]: "utf8_units c \<noteq> []"
  by (simp add: utf8_units_def)

lemma div_mod_64_inj:
  assumes "a div 64 = b div 64" and "a mod 64 = b mod (64 :: nat)"
  shows "a = b"
  using assms by (metis div_mult_mod_eq)

lemma div_4096: "(c :: nat) div 4096 = c div 64 div 64"
  by (simp add: div_mult2_eq [symmetric])

lemma div_262144: "(c :: nat) div 262144 = c div 64 div 64 div 64"
  by (simp add: div_mult2_eq [symmetric])

lemma utf8_lead:
  "hd (utf8_units c) < 128 \<longleftrightarrow> c < 128"
  "hd (utf8_units c) < 224 \<longleftrightarrow> c < 2048"
  "hd (utf8_units c) < 240 \<longleftrightarrow> c < 65536"
  by (auto simp: utf8_units_def)

text \<open>The lead byte fixes the length, and a multi-byte form determines its code point.\<close>

lemma utf8_lead_inj:
  assumes "hd (utf8_units c) = hd (utf8_units d)"
  shows "(c < 128 \<longleftrightarrow> d < 128) \<and> (c < 2048 \<longleftrightarrow> d < 2048) \<and> (c < 65536 \<longleftrightarrow> d < 65536)"
  using utf8_lead [of c] utf8_lead [of d] assms by simp

lemma utf8_units_decode:
  assumes "utf8_units c = utf8_units d"
  shows "c = d"
proof -
  from assms have cls: "(c < 128 \<longleftrightarrow> d < 128) \<and> (c < 2048 \<longleftrightarrow> d < 2048) \<and> (c < 65536 \<longleftrightarrow> d < 65536)"
    by (intro utf8_lead_inj) simp
  consider "c < 128" | "128 \<le> c" "c < 2048" | "2048 \<le> c" "c < 65536" | "65536 \<le> c" by linarith
  then show ?thesis
  proof cases
    case 1
    with assms cls show ?thesis by (simp add: utf8_units_def)
  next
    case 2
    with assms cls have "c div 64 = d div 64" and "c mod 64 = d mod 64" by (simp_all add: utf8_units_def)
    then show ?thesis by (rule div_mod_64_inj)
  next
    case 3
    with assms cls have "c div 64 div 64 = d div 64 div 64" and "c div 64 mod 64 = d div 64 mod 64"
      and "c mod 64 = d mod 64" by (simp_all add: utf8_units_def div_4096)
    then show ?thesis by (blast intro: div_mod_64_inj)
  next
    case 4
    with assms cls have "c div 64 div 64 div 64 = d div 64 div 64 div 64"
      and "c div 64 div 64 mod 64 = d div 64 div 64 mod 64"
      and "c div 64 mod 64 = d div 64 mod 64" and "c mod 64 = d mod 64"
      by (simp_all add: utf8_units_def div_4096 div_262144)
    then show ?thesis by (blast intro: div_mod_64_inj)
  qed
qed

lemma utf8_units_length:
  "length (utf8_units c) = (if c < 128 then 1 else if c < 2048 then 2 else if c < 65536 then 3 else 4)"
  by (simp add: utf8_units_def)

lemma utf8_units_prefix:
  assumes "utf8_units c @ r = utf8_units d @ s"
  shows "c = d \<and> r = s"
proof -
  have "hd (utf8_units c) = hd (utf8_units d)"
    using arg_cong [OF assms, of hd] by simp
  from utf8_lead_inj [OF this] have "length (utf8_units c) = length (utf8_units d)"
    unfolding utf8_units_length by simp
  with assms show ?thesis by (auto dest: utf8_units_decode)
qed

lemma utf8_units_inj:
  assumes "concat (map utf8_units s) = concat (map utf8_units t)"
    and "list_all encodable s" and "list_all encodable t"
  shows "s = t"
  using assms
proof (induction s arbitrary: t)
  case Nil
  then show ?case by (cases t) auto
next
  case (Cons c s)
  then obtain d u where t: "t = d # u" by (cases t) auto
  with Cons.prems have "utf8_units c @ concat (map utf8_units s) = utf8_units d @ concat (map utf8_units u)"
    by simp
  then have "c = d" and "concat (map utf8_units s) = concat (map utf8_units u)"
    using utf8_units_prefix by blast+
  with Cons t show ?case by simp
qed

lemma map_of_nat_byte_inj:
  assumes "map (of_nat :: nat \<Rightarrow> byte) xs = map of_nat ys"
    and "\<forall>x \<in> set xs. x < 256" and "\<forall>y \<in> set ys. y < 256"
  shows "xs = ys"
proof (rule map_inj_on [OF assms(1)])
  show "inj_on (of_nat :: nat \<Rightarrow> byte) (set xs \<union> set ys)"
  proof (rule inj_onI)
    fix x y
    assume "x \<in> set xs \<union> set ys" and "y \<in> set xs \<union> set ys" and eq: "(of_nat x :: byte) = of_nat y"
    with assms(2,3) have "x < 256" and "y < 256" by auto
    moreover from eq have "unat (of_nat x :: byte) = unat (of_nat y :: byte)" by simp
    ultimately show "x = y" by (simp add: unat_of_nat)
  qed
qed

lemma utf8_units_bytes:
  assumes "list_all encodable s"
  shows "\<forall>x \<in> set (concat (map utf8_units s)). x < 256"
  using assms by (auto simp: list_all_iff encodable_def dest: utf8_units_byte)

theorem utf8_inj [enc_inj]:
  assumes "utf8 s = Some b" and "utf8 t = Some b"
  shows "s = t"
proof -
  from assms have s: "list_all encodable s" and t: "list_all encodable t"
    and eq: "map (of_nat :: nat \<Rightarrow> byte) (concat (map utf8_units s)) = map of_nat (concat (map utf8_units t))"
    by (auto simp: utf8_def split: if_splits)
  from map_of_nat_byte_inj [OF eq utf8_units_bytes [OF s] utf8_units_bytes [OF t]]
  show ?thesis using s t by (rule utf8_units_inj)
qed

section \<open>UTF-16 keys are distinct\<close>

lemma utf16_lead:
  assumes "encodable c"
  shows "216 \<le> hd (utf16_units c) \<and> hd (utf16_units c) \<le> 219 \<longleftrightarrow> 65536 \<le> c"
proof (cases "c < 65536")
  case True
  with assms show ?thesis by (auto simp: encodable_def is_surrogate_def utf16_units_def)
next
  case False
  with assms have "(c - 65536) div 1024 < 1024" by (auto simp: encodable_def)
  with False show ?thesis by (auto simp: utf16_units_def Let_def)
qed

lemma utf16_units_decode:
  assumes "utf16_units c = utf16_units d" and "c < 65536 \<longleftrightarrow> d < 65536"
  shows "c = d"
proof (cases "c < 65536")
  case True
  with assms have "c div 256 = d div 256" and "c mod 256 = d mod 256" by (simp_all add: utf16_units_def)
  then show ?thesis by (metis div_mult_mod_eq)
next
  case False
  define x y where "x = c - 65536" and "y = d - 65536"
  from False assms have hi: "(55296 + x div 1024) div 256 = (55296 + y div 1024) div 256"
      "(55296 + x div 1024) mod 256 = (55296 + y div 1024) mod 256"
    and lo: "(56320 + x mod 1024) div 256 = (56320 + y mod 1024) div 256"
      "(56320 + x mod 1024) mod 256 = (56320 + y mod 1024) mod 256"
    by (simp_all add: utf16_units_def Let_def x_def y_def)
  from hi have "55296 + x div 1024 = 55296 + y div 1024" by (metis div_mult_mod_eq)
  moreover from lo have "56320 + x mod 1024 = 56320 + y mod 1024" by (metis div_mult_mod_eq)
  ultimately have "x div 1024 = y div 1024" and "x mod 1024 = y mod 1024" by simp_all
  then have "x = y" by (metis div_mult_mod_eq)
  with False assms show ?thesis by (simp add: x_def y_def)
qed

lemma utf16_units_prefix:
  assumes "utf16_units c @ r = utf16_units d @ s" and "encodable c" and "encodable d"
  shows "c = d \<and> r = s"
proof -
  have ne: "utf16_units x \<noteq> []" for x by (simp add: utf16_units_def Let_def)
  have "hd (utf16_units c) = hd (utf16_units d)"
    using arg_cong [OF assms(1), of hd] ne by simp
  with utf16_lead [OF assms(2)] utf16_lead [OF assms(3)] have cls: "c < 65536 \<longleftrightarrow> d < 65536" by auto
  then have "length (utf16_units c) = length (utf16_units d)" by (simp add: utf16_units_def Let_def)
  with assms(1) have "utf16_units c = utf16_units d" and "r = s" by simp_all
  with utf16_units_decode cls show ?thesis by blast
qed

lemma utf16be_inj [enc_inj]:
  assumes "utf16be s = Some k" and "utf16be t = Some k"
  shows "s = t"
proof -
  have ne: "utf16_units x \<noteq> []" for x by (simp add: utf16_units_def Let_def)
  have "concat (map utf16_units s) = concat (map utf16_units t)" "list_all encodable s" "list_all encodable t"
    using assms by (simp_all add: utf16be_def split: if_splits)
  then show ?thesis
  proof (induction s arbitrary: t)
    case Nil
    then show ?case using ne by (cases t) auto
  next
    case (Cons c s)
    then obtain d u where t: "t = d # u" using ne by (cases t) auto
    with Cons.prems have "c = d \<and> concat (map utf16_units s) = concat (map utf16_units u)"
      by (intro utf16_units_prefix) simp_all
    with Cons t show ?case by simp
  qed
qed

section \<open>ASCII text\<close>

lemma utf8_units_ascii: "list_all (\<lambda>c. c < 128) s \<Longrightarrow> concat (map utf8_units s) = s"
  by (induction s) (auto simp: utf8_units_def)

lemma utf8_ascii: "list_all (\<lambda>c. c < 128) s \<Longrightarrow> utf8 s = Some (map of_nat s)"
  unfolding utf8_def
  by (simp add: utf8_units_ascii) (auto simp: list_all_iff encodable_def is_surrogate_def)

lemma utf8_append:
  "utf8 (s @ t) = (case (utf8 s, utf8 t) of (Some a, Some b) \<Rightarrow> Some (a @ b) | _ \<Rightarrow> None)"
  by (simp add: utf8_def)

lemma lower_hex_ascii: "list_all is_lower_hex s \<Longrightarrow> list_all (\<lambda>c. c < 128) s"
  by (auto simp: list_all_iff is_lower_hex_def)

lemma digits_ascii: "\<forall>c \<in> set s. is_digit c \<Longrightarrow> list_all (\<lambda>c. c < 128) s"
  by (auto simp: list_all_iff is_digit_def)

end
