(* ===== verification/Hashes.thy ===== *)
theory Hashes
  imports Text_Encoding
begin

text \<open>
  SHA-256 and HMAC-SHA-256, the two primitives of the Python standard library
  (\<open>hashlib.sha256\<close>, \<open>hmac.new(key, msg, sha256)\<close>) the runtime computes digests, record links,
  challenges and transcripts with. The definitions transcribe FIPS 180-4 and RFC 2104 and are
  executable. The other components need two facts of them only: the digest has 32 bytes, so its
  hexadecimal form is 64 lowercase digits, and whoever equates the digests of two different
  inputs has exhibited a collision (\<open>sha256_collision\<close>).
\<close>

unbundle bit_operations_syntax

type_synonym w32 = "32 word"

section \<open>SHA-256\<close>

text \<open>The round constants and the initial state, in decimal.\<close>

definition sha256_K :: "w32 list" where
  "sha256_K =
    [1116352408, 1899447441, 3049323471, 3921009573, 961987163, 1508970993,
     2453635748, 2870763221, 3624381080, 310598401, 607225278, 1426881987,
     1925078388, 2162078206, 2614888103, 3248222580, 3835390401, 4022224774,
     264347078, 604807628, 770255983, 1249150122, 1555081692, 1996064986,
     2554220882, 2821834349, 2952996808, 3210313671, 3336571891, 3584528711,
     113926993, 338241895, 666307205, 773529912, 1294757372, 1396182291,
     1695183700, 1986661051, 2177026350, 2456956037, 2730485921, 2820302411,
     3259730800, 3345764771, 3516065817, 3600352804, 4094571909, 275423344,
     430227734, 506948616, 659060556, 883997877, 958139571, 1322822218,
     1537002063, 1747873779, 1955562222, 2024104815, 2227730452, 2361852424,
     2428436474, 2756734187, 3204031479, 3329325298]"

definition sha256_H0 :: "w32 list" where
  "sha256_H0 =
    [1779033703, 3144134277, 1013904242, 2773480762, 1359893119, 2600822924,
     528734635, 1541459225]"

definition w32_bytes :: "w32 \<Rightarrow> bytes" where
  "w32_bytes w = [ucast (drop_bit 24 w), ucast (drop_bit 16 w), ucast (drop_bit 8 w), ucast w]"

fun be_words :: "bytes \<Rightarrow> w32 list" where
  "be_words (a # b # c # d # bs) =
     (push_bit 24 (ucast a) OR push_bit 16 (ucast b) OR push_bit 8 (ucast c) OR ucast d) # be_words bs"
| "be_words _ = []"

definition sha256_pad :: "bytes \<Rightarrow> bytes" where
  "sha256_pad m =
     (let bits = 8 * of_nat (length m) :: 64 word; z = (119 - length m mod 64) mod 64
      in m @ [0x80] @ replicate z 0
         @ w32_bytes (ucast (drop_bit 32 bits)) @ w32_bytes (ucast bits))"

definition sha256_next_word :: "w32 list \<Rightarrow> w32" where
  "sha256_next_word ws =
     (let t = length ws; x = ws ! (t - 15); y = ws ! (t - 2);
          s0 = word_rotr 7 x XOR word_rotr 18 x XOR drop_bit 3 x;
          s1 = word_rotr 17 y XOR word_rotr 19 y XOR drop_bit 10 y
      in s1 + ws ! (t - 7) + s0 + ws ! (t - 16))"

definition sha256_schedule :: "w32 list \<Rightarrow> w32 list" where
  "sha256_schedule ws = ((\<lambda>v. v @ [sha256_next_word v]) ^^ 48) ws"

fun sha256_round :: "w32 list \<Rightarrow> w32 \<times> w32 \<Rightarrow> w32 list" where
  "sha256_round [a, b, c, d, e, f, g, h] (k, w) =
     (let S1 = word_rotr 6 e XOR word_rotr 11 e XOR word_rotr 25 e;
          ch = (e AND f) XOR (NOT e AND g);
          t1 = h + S1 + ch + k + w;
          S0 = word_rotr 2 a XOR word_rotr 13 a XOR word_rotr 22 a;
          maj = (a AND b) XOR (a AND c) XOR (b AND c)
      in [t1 + (S0 + maj), a, b, c, d + t1, e, f, g])"
| "sha256_round st _ = st"

definition sha256_block :: "w32 list \<Rightarrow> bytes \<Rightarrow> w32 list" where
  "sha256_block H blk =
     map2 (+) H (foldl sha256_round H (zip sha256_K (sha256_schedule (be_words blk))))"

function sha256_blocks :: "w32 list \<Rightarrow> bytes \<Rightarrow> w32 list" where
  "sha256_blocks H bs =
     (if bs = [] then H else sha256_blocks (sha256_block H (take 64 bs)) (drop 64 bs))"
  by pat_completeness auto
termination
  by (relation "measure (\<lambda>(H, bs). length bs)") auto

declare sha256_blocks.simps [simp del]

definition sha256 :: "bytes \<Rightarrow> bytes" where
  "sha256 m = concat (map w32_bytes (sha256_blocks sha256_H0 (sha256_pad m)))"

text \<open>\<open>hexdigest()\<close>.\<close>

definition sha256_hex :: "bytes \<Rightarrow> ustr" where
  "sha256_hex m = hex (sha256 m)"

section \<open>HMAC-SHA-256\<close>

definition hmac_key :: "bytes \<Rightarrow> bytes" where
  "hmac_key k = (let k0 = (if length k > 64 then sha256 k else k) in k0 @ replicate (64 - length k0) 0)"

definition hmac_sha256 :: "bytes \<Rightarrow> bytes \<Rightarrow> bytes" where
  "hmac_sha256 k m =
     sha256 (map (\<lambda>b. b XOR 0x5c) (hmac_key k) @ sha256 (map (\<lambda>b. b XOR 0x36) (hmac_key k) @ m))"

definition hmac_sha256_hex :: "bytes \<Rightarrow> bytes \<Rightarrow> ustr" where
  "hmac_sha256_hex k m = hex (hmac_sha256 k m)"

section \<open>Lengths\<close>

lemma sha256_round_length: "length st = 8 \<Longrightarrow> length (sha256_round st kw) = 8"
  by (induction st kw rule: sha256_round.induct) (simp_all add: Let_def)

lemma foldl_sha256_round_length:
  "length st = 8 \<Longrightarrow> length (foldl sha256_round st kws) = 8"
  by (induction kws arbitrary: st) (simp_all add: sha256_round_length)

lemma sha256_block_length: "length H = 8 \<Longrightarrow> length (sha256_block H blk) = 8"
  by (simp add: sha256_block_def foldl_sha256_round_length)

lemma sha256_blocks_length: "length H = 8 \<Longrightarrow> length (sha256_blocks H bs) = 8"
proof (induction H bs rule: sha256_blocks.induct)
  case (1 H bs)
  then show ?case by (simp add: sha256_blocks.simps [of H bs] sha256_block_length)
qed

lemma length_concat_w32_bytes: "length (concat (map w32_bytes ws)) = 4 * length ws"
  by (induction ws) (simp_all add: w32_bytes_def)

lemma length_sha256 [simp]: "length (sha256 m) = 32"
  by (simp add: sha256_def length_concat_w32_bytes sha256_blocks_length sha256_H0_def)

lemma length_hmac_sha256 [simp]: "length (hmac_sha256 k m) = 32"
  by (simp add: hmac_sha256_def)

lemma sha256_hex_lower [simp]: "lower_hex_of_len 64 (sha256_hex m)"
  by (simp add: sha256_hex_def)

lemma hmac_sha256_hex_lower [simp]: "lower_hex_of_len 64 (hmac_sha256_hex k m)"
  by (simp add: hmac_sha256_hex_def)

lemma sha256_hex_eq_iff [simp]: "sha256_hex a = sha256_hex b \<longleftrightarrow> sha256 a = sha256 b"
  by (simp add: sha256_hex_def)

text \<open>A padded message fills whole blocks.\<close>

lemma sha256_pad_blocks: "length (sha256_pad m) mod 64 = 0"
proof -
  define q where "q = length m div 64"
  define r where "r = length m mod 64"
  have n: "length m = 64 * q + r" and r: "r < 64" by (simp_all add: q_def r_def)
  have z: "(119 - r) mod 64 = (if r < 56 then 55 - r else 119 - r)"
    using r by (simp add: mod_if)
  have "(64 * q + r + 1 + (119 - r) mod 64 + 8) mod 64 = 0"
    unfolding z using r by (auto simp: mod_eq_0_iff_dvd intro: dvdI [of _ _ "Suc q"] dvdI [of _ _ "Suc (Suc q)"])
  then show ?thesis by (simp add: sha256_pad_def Let_def w32_bytes_def n r add.assoc)
qed

section \<open>Collisions\<close>

definition sha256_collision :: "bytes \<Rightarrow> bytes \<Rightarrow> bool" where
  "sha256_collision a b \<longleftrightarrow> a \<noteq> b \<and> sha256 a = sha256 b"

lemma sha256_eqD: "sha256 a = sha256 b \<Longrightarrow> a = b \<or> sha256_collision a b"
  by (auto simp: sha256_collision_def)

end
