(* ===== verification/Errors.thy ===== *)
theory Errors
  imports Prelude
begin

text \<open>
  The error registry of \<open>ca2a_runtime/errors.py\<close>. Every class of the registry is a constructor
  of \<open>err_class\<close>; \<open>err_code\<close> and \<open>http_status\<close> are its class attributes. A raised exception is
  a class with its message and, for \<open>ScopeNotPermitted\<close> and \<open>AttestationFailed\<close>, the provenance
  record of the refusal, or an exception of the interpreter itself. The optional
  \<open>detail\<close> text is not modelled. The record type of \<open>ca2a_runtime/provenance.py\<close> is declared
  here because the exceptions carry it; its operations are in the theory of provenance.
\<close>

record delegation_record =
  rec_id :: ustr
  rec_credential_id :: ustr
  rec_subject :: ustr
  rec_scope :: "ustr fset"
  rec_parent_hash :: "ustr option"
  rec_decision :: ustr
  rec_requested :: "ustr option"
  rec_effective :: "ustr fset option"
  rec_reason :: "ustr option"
  rec_caller_attestation :: ustr

datatype err_class =
    CA2AError
  | ConfigError
  | InvalidCredential
  | UntrustedDelegationRoot
  | ScopeEscalation
  | BrokenDelegationLink
  | DelegationDepthExceeded
  | CredentialReplay
  | CredentialNotYetValid
  | CredentialExpired
  | CredentialRevoked
  | RevocationStatusUnknown
  | InvalidRevocation
  | HolderProofInvalid
  | AttestationUnsupported
  | AttestationFailed
  | SealedChannelError
  | ProvenanceLinkBroken
  | TraceDigestUnsupported
  | ScopeNotPermitted
  | TransportError
  | TraceRecordInvalid
  | ResponseAuthenticationFailed

fun err_code :: "err_class \<Rightarrow> string" where
  "err_code CA2AError = ''CA2A_ERROR''"
| "err_code ConfigError = ''CONFIG_ERROR''"
| "err_code InvalidCredential = ''INVALID_CREDENTIAL''"
| "err_code UntrustedDelegationRoot = ''UNTRUSTED_DELEGATION_ROOT''"
| "err_code ScopeEscalation = ''SCOPE_ESCALATION''"
| "err_code BrokenDelegationLink = ''BROKEN_DELEGATION_LINK''"
| "err_code DelegationDepthExceeded = ''DELEGATION_DEPTH_EXCEEDED''"
| "err_code CredentialReplay = ''CREDENTIAL_REPLAY''"
| "err_code CredentialNotYetValid = ''CREDENTIAL_NOT_YET_VALID''"
| "err_code CredentialExpired = ''CREDENTIAL_EXPIRED''"
| "err_code CredentialRevoked = ''CREDENTIAL_REVOKED''"
| "err_code RevocationStatusUnknown = ''REVOCATION_STATUS_UNKNOWN''"
| "err_code InvalidRevocation = ''INVALID_REVOCATION''"
| "err_code HolderProofInvalid = ''HOLDER_PROOF_INVALID''"
| "err_code AttestationUnsupported = ''ATTESTATION_UNSUPPORTED''"
| "err_code AttestationFailed = ''ATTESTATION_FAILED''"
| "err_code SealedChannelError = ''SEALED_CHANNEL_ERROR''"
| "err_code ProvenanceLinkBroken = ''PROVENANCE_LINK_BROKEN''"
| "err_code TraceDigestUnsupported = ''TRACE_DIGEST_UNSUPPORTED''"
| "err_code ScopeNotPermitted = ''SCOPE_NOT_PERMITTED''"
| "err_code TransportError = ''TRANSPORT_ERROR''"
| "err_code TraceRecordInvalid = ''TRACE_RECORD_INVALID''"
| "err_code ResponseAuthenticationFailed = ''RESPONSE_AUTHENTICATION_FAILED''"

fun http_status :: "err_class \<Rightarrow> int" where
  "http_status CA2AError = 500"
| "http_status ConfigError = 500"
| "http_status InvalidCredential = 400"
| "http_status UntrustedDelegationRoot = 403"
| "http_status ScopeEscalation = 403"
| "http_status BrokenDelegationLink = 409"
| "http_status DelegationDepthExceeded = 403"
| "http_status CredentialReplay = 409"
| "http_status CredentialNotYetValid = 403"
| "http_status CredentialExpired = 403"
| "http_status CredentialRevoked = 403"
| "http_status RevocationStatusUnknown = 503"
| "http_status InvalidRevocation = 400"
| "http_status HolderProofInvalid = 401"
| "http_status AttestationUnsupported = 500"
| "http_status AttestationFailed = 412"
| "http_status SealedChannelError = 500"
| "http_status ProvenanceLinkBroken = 409"
| "http_status TraceDigestUnsupported = 501"
| "http_status ScopeNotPermitted = 403"
| "http_status TransportError = 400"
| "http_status TraceRecordInvalid = 422"
| "http_status ResponseAuthenticationFailed = 400"

text \<open>The one subclass below the base class: \<open>ResponseAuthenticationFailed(TransportError)\<close>.\<close>

definition is_transport_error :: "err_class \<Rightarrow> bool" where
  "is_transport_error c \<longleftrightarrow> c = TransportError \<or> c = ResponseAuthenticationFailed"

datatype py_exn =
    ValueError
  | UnicodeEncodeError
  | TypeError
  | KeyError
  | AttributeError
  | RecursionError
  | OSError
  | InvalidSignature
  | InvalidTag
  | OverflowError
  | IndexError
  | HTTPException

datatype exn =
    Ca2a err_class ustr "delegation_record option"
  | PyExn py_exn

type_synonym 'a res = "exn + 'a"

abbreviation raise :: "err_class \<Rightarrow> string \<Rightarrow> 'a res" where
  "raise c msg \<equiv> Inl (Ca2a c (str msg) None)"

fun exn_class :: "exn \<Rightarrow> err_class option" where
  "exn_class (Ca2a c _ _) = Some c"
| "exn_class (PyExn _) = None"

fun exn_record :: "exn \<Rightarrow> delegation_record option" where
  "exn_record (Ca2a _ _ r) = r"
| "exn_record (PyExn _) = None"

text \<open>\<open>str(exc)\<close>; the text of an interpreter exception is not modelled.\<close>

fun exn_msg :: "exn \<Rightarrow> ustr" where
  "exn_msg (Ca2a _ m _) = m"
| "exn_msg (PyExn _) = []"

text \<open>The \<open>except\<close> clauses of the source: UnicodeEncodeError is a ValueError.\<close>

definition is_ca2a :: "exn \<Rightarrow> bool" where
  "is_ca2a e \<longleftrightarrow> exn_class e \<noteq> None"

definition is_class :: "err_class \<Rightarrow> exn \<Rightarrow> bool" where
  "is_class c e \<longleftrightarrow> exn_class e = Some c"

definition is_value_error :: "exn \<Rightarrow> bool" where
  "is_value_error e \<longleftrightarrow> e = PyExn ValueError \<or> e = PyExn UnicodeEncodeError"

definition is_lookup_error :: "exn \<Rightarrow> bool" where
  "is_lookup_error e \<longleftrightarrow> e = PyExn KeyError \<or> e = PyExn TypeError \<or> e = PyExn AttributeError"

text \<open>\<open>except (InvalidSignature, ValueError)\<close> and \<open>except (InvalidTag, ValueError)\<close>.\<close>

definition is_signature_error :: "exn \<Rightarrow> bool" where
  "is_signature_error e \<longleftrightarrow> e = PyExn InvalidSignature \<or> is_value_error e"

definition is_tag_error :: "exn \<Rightarrow> bool" where
  "is_tag_error e \<longleftrightarrow> e = PyExn InvalidTag \<or> is_value_error e"

lemmas exn_kinds [simp] = is_signature_error_def is_tag_error_def is_ca2a_def is_class_def is_value_error_def is_lookup_error_def

text \<open>An exception of one of the given classes that carries no record.\<close>

definition refusal_of :: "err_class set \<Rightarrow> exn \<Rightarrow> bool" where
  "refusal_of cs e \<longleftrightarrow> (\<exists>c \<in> cs. \<exists>m. e = Ca2a c m None)"

lemma refusal_of_simps [simp]:
  "refusal_of cs (Ca2a c m r) \<longleftrightarrow> c \<in> cs \<and> r = None"
  "\<not> refusal_of cs (PyExn x)"
  by (auto simp: refusal_of_def)

lemma refusal_of_mono: "refusal_of cs e \<Longrightarrow> cs \<subseteq> ds \<Longrightarrow> refusal_of ds e"
  by (auto simp: refusal_of_def)

text \<open>Each class has its own wire code, so a code identifies the class that was raised.\<close>

lemma err_code_inj: "inj err_code"
proof (rule injI)
  fix a b
  show "err_code a = err_code b \<Longrightarrow> a = b" by (cases a; cases b; simp)
qed

lemma http_status_client_or_server: "400 \<le> http_status c \<and> http_status c \<le> 599"
  by (cases c) simp_all

end
