(* ===== verification/Json.thy ===== *)
theory Json
  imports Complex_Main Errors
begin

text \<open>
  The Python values the runtime reads from and writes to JSON documents. An object is the list
  of its items in insertion order; \<open>JFloat None\<close> is one of the floats without an exact value
  (NaN and the infinities) and \<open>JOther\<close> a value of a type JSON has no notation for, given by
  its type name. Object keys are strings, as every JSON parser produces them.
  \<open>dict_wf\<close> is the invariant of a dict: a key occurs once.
\<close>

datatype json =
    JNull
  | JBool bool
  | JInt int
  | JFloat "rat option"
  | JStr ustr
  | JList "json list"
  | JObj "(ustr \<times> json) list"
  | JOther ustr

type_synonym jdict = "json pydict"

section \<open>Dictionary operations\<close>

definition dict_get :: "jdict \<Rightarrow> ustr \<Rightarrow> json option" where
  "dict_get d k = map_of d k"

definition dict_keys :: "jdict \<Rightarrow> ustr set" where
  "dict_keys d = fst ` set d"

definition dict_set :: "ustr \<Rightarrow> json \<Rightarrow> jdict \<Rightarrow> jdict" where
  "dict_set k v d = AList.update k v d"

definition dict_pop :: "ustr \<Rightarrow> jdict \<Rightarrow> jdict" where
  "dict_pop k d = AList.delete k d"

fun dict_update :: "jdict \<Rightarrow> jdict \<Rightarrow> jdict" where
  "dict_update d [] = d"
| "dict_update d ((k, v) # kvs) = dict_update (dict_set k v d) kvs"

text \<open>\<open>d.get(k)\<close>: a missing key reads as None.\<close>

definition dict_get_none :: "jdict \<Rightarrow> ustr \<Rightarrow> json" where
  "dict_get_none d k = (case dict_get d k of None \<Rightarrow> JNull | Some v \<Rightarrow> v)"

text \<open>\<open>d.get(k, default)\<close>.\<close>

definition dict_get_or :: "jdict \<Rightarrow> string \<Rightarrow> json \<Rightarrow> json" where
  "dict_get_or d k v = (case dict_get d (str k) of None \<Rightarrow> v | Some w \<Rightarrow> w)"

text \<open>\<open>isinstance(v, int)\<close> also holds of a bool, which counts as 0 or 1.\<close>

definition as_int_or_bool :: "json \<Rightarrow> int option" where
  "as_int_or_bool v = (case v of JInt i \<Rightarrow> Some i | JBool b \<Rightarrow> Some (if b then 1 else 0) | _ \<Rightarrow> None)"

text \<open>\<open>d[k]\<close>.\<close>

definition dict_item :: "jdict \<Rightarrow> ustr \<Rightarrow> json res" where
  "dict_item d k = expect (dict_get d k) (PyExn KeyError)"

lemma dict_item_Inr_iff [guard_simps]: "dict_item d k = Inr v \<longleftrightarrow> dict_get d k = Some v"
  by (simp add: dict_item_def guard_simps)

definition has_key :: "jdict \<Rightarrow> ustr \<Rightarrow> bool" where
  "has_key d k \<longleftrightarrow> dict_get d k \<noteq> None"

abbreviation dict_wf :: "jdict \<Rightarrow> bool" where
  "dict_wf d \<equiv> distinct (map fst d)"

lemma dict_get_simps [simp]:
  "dict_get [] k = None"
  "dict_get ((k', v) # d) k = (if k' = k then Some v else dict_get d k)"
  by (simp_all add: dict_get_def)

lemma dict_get_append: "dict_get (d @ e) k = (case dict_get d k of None \<Rightarrow> dict_get e k | Some v \<Rightarrow> Some v)"
  unfolding dict_get_def by (simp add: map_add_def)

lemma dict_get_set [simp]: "dict_get (dict_set k v d) k' = (if k = k' then Some v else dict_get d k')"
  by (simp add: dict_get_def dict_set_def update_conv')

lemma dict_get_pop [simp]: "dict_get (dict_pop k d) k' = (if k = k' then None else dict_get d k')"
  by (simp add: dict_get_def dict_pop_def delete_conv')

lemma dict_keys_iff: "k \<in> dict_keys d \<longleftrightarrow> dict_get d k \<noteq> None"
  by (simp add: dict_keys_def dict_get_def map_of_eq_None_iff)

lemma dict_keys_simps [simp]:
  "dict_keys [] = {}"
  "dict_keys ((k, v) # d) = insert k (dict_keys d)"
  by (simp_all add: dict_keys_def)

lemma dict_keys_append [simp]: "dict_keys (d @ e) = dict_keys d \<union> dict_keys e"
  by (auto simp: dict_keys_def)

lemma dict_get_update:
  "dict_get (dict_update d e) k = (case dict_get (rev e) k of None \<Rightarrow> dict_get d k | Some v \<Rightarrow> Some v)"
  by (induction d e rule: dict_update.induct) (auto simp: dict_get_append split: option.splits)

lemma dict_wf_set: "dict_wf d \<Longrightarrow> dict_wf (dict_set k v d)"
  unfolding dict_set_def by (rule distinct_update)

lemma dict_wf_pop: "dict_wf d \<Longrightarrow> dict_wf (dict_pop k d)"
  unfolding dict_pop_def by (rule distinct_delete)

section \<open>Type tests\<close>

fun as_str :: "json \<Rightarrow> ustr option" where
  "as_str (JStr s) = Some s"
| "as_str _ = None"

text \<open>\<open>isinstance(v, int) and not isinstance(v, bool)\<close>.\<close>

fun as_int :: "json \<Rightarrow> int option" where
  "as_int (JInt i) = Some i"
| "as_int _ = None"

fun as_obj :: "json \<Rightarrow> jdict option" where
  "as_obj (JObj d) = Some d"
| "as_obj _ = None"

fun as_list :: "json \<Rightarrow> json list option" where
  "as_list (JList vs) = Some vs"
| "as_list _ = None"

lemma as_str_Some_iff [simp]: "as_str v = Some s \<longleftrightarrow> v = JStr s"
  by (cases v) auto

lemma as_int_Some_iff [simp]: "as_int v = Some i \<longleftrightarrow> v = JInt i"
  by (cases v) auto

lemma as_obj_Some_iff [simp]: "as_obj v = Some d \<longleftrightarrow> v = JObj d"
  by (cases v) auto

lemma as_list_Some_iff [simp]: "as_list v = Some d \<longleftrightarrow> v = JList d"
  by (cases v) auto

lemma map_JStr_eq_iff [simp]: "map JStr a = map JStr b \<longleftrightarrow> a = b"
proof -
  have "inj JStr" by (rule injI) simp
  then show ?thesis by (rule inj_map_eq_map)
qed

text \<open>A non-negative integer that is not a bool, and a string or null.\<close>

definition nonneg_int :: "json \<Rightarrow> int option" where
  "nonneg_int v = (case as_int v of None \<Rightarrow> None | Some i \<Rightarrow> if i < 0 then None else Some i)"

lemma nonneg_int_Some_iff [simp]: "nonneg_int v = Some i \<longleftrightarrow> v = JInt i \<and> 0 \<le> i"
  by (cases v) (auto simp: nonneg_int_def)

lemma nonneg_int_JInt [simp]: "0 \<le> i \<Longrightarrow> nonneg_int (JInt i) = Some i"
  by simp

definition opt_str :: "ustr option \<Rightarrow> json" where
  "opt_str s = (case s of None \<Rightarrow> JNull | Some t \<Rightarrow> JStr t)"

lemma opt_str_simps [simp]:
  "opt_str None = JNull"
  "opt_str (Some s) = JStr s"
  by (simp_all add: opt_str_def)

lemma opt_str_eq_iff [simp]: "opt_str a = opt_str b \<longleftrightarrow> a = b"
  by (cases a; cases b) simp_all

text \<open>\<open>bool(v)\<close>.\<close>

fun truthy :: "json \<Rightarrow> bool" where
  "truthy JNull = False"
| "truthy (JBool b) = b"
| "truthy (JInt i) = (i \<noteq> 0)"
| "truthy (JFloat q) = (q \<noteq> Some 0)"
| "truthy (JStr s) = (s \<noteq> [])"
| "truthy (JList vs) = (vs \<noteq> [])"
| "truthy (JObj d) = (d \<noteq> [])"
| "truthy (JOther t) = True"

end
