(* ===== verification/Canonical.thy ===== *)
theory Canonical
  imports Text_Encoding Json "HOL-Library.Multiset"
begin

text \<open>
  RFC 8785 canonicalization, \<open>ca2a_runtime/canonical.py\<close>: \<open>escape_string\<close>, \<open>serialize\<close> and
  \<open>canonicalize\<close>. Keys are sorted by their UTF-16 code units, integers are bounded to the range
  a double represents exactly and floats are refused. The theory proves the two halves of
  canonicity. \<open>canonicalize_perm\<close>: the order in which a dict was filled does not show in the bytes.
  \<open>canonicalize_norm\<close>: equal bytes come from values with equal normal forms, so one signature
  never stands for two documents. The proof goes through \<open>render\<close>, the printer of a value in
  normal form, and its unique decodability.
\<close>

section \<open>The serializer\<close>

definition MAX_SAFE_INTEGER :: int where
  "MAX_SAFE_INTEGER = 9007199254740991"

definition SHORT_ESCAPES :: "nat \<rightharpoonup> nat" where
  "SHORT_ESCAPES = [8 \<mapsto> 98, 9 \<mapsto> 116, 10 \<mapsto> 110, 12 \<mapsto> 102, 13 \<mapsto> 114, 34 \<mapsto> 34, 92 \<mapsto> 92]"

definition hex4 :: "nat \<Rightarrow> ustr" where
  "hex4 c = [hex_digit (c div 4096 mod 16), hex_digit (c div 256 mod 16),
             hex_digit (c div 16 mod 16), hex_digit (c mod 16)]"

definition escape_char :: "nat \<Rightarrow> ustr" where
  "escape_char c =
     (case SHORT_ESCAPES c of
        Some e \<Rightarrow> [92, e]
      | None \<Rightarrow> if c < 32 then [92, 117] @ hex4 c else [c])"

definition escape_string :: "ustr \<Rightarrow> ustr" where
  "escape_string s = [34] @ concat (map escape_char s) @ [34]"

fun join :: "ustr \<Rightarrow> ustr list \<Rightarrow> ustr" where
  "join sep [] = []"
| "join sep [x] = x"
| "join sep (x # y # xs) = x @ sep @ join sep (y # xs)"

text \<open>\<open>sorted(value.items(), key=lambda kv: kv[0].encode("utf-16-be"))\<close>.\<close>

definition sort_items :: "(ustr \<times> 'v) list \<Rightarrow> (ustr \<times> 'v) list res" where
  "sort_items kvs =
     (if list_all (\<lambda>kv. utf16be (fst kv) \<noteq> None) kvs
      then Inr (sort_key (\<lambda>kv. the (utf16be (fst kv))) kvs)
      else Inl (PyExn UnicodeEncodeError))"

function (sequential) serialize :: "json \<Rightarrow> ustr res" where
  "serialize JNull = Inr (str ''null'')"
| "serialize (JBool True) = Inr (str ''true'')"
| "serialize (JBool False) = Inr (str ''false'')"
| "serialize (JStr s) = Inr (escape_string s)"
| "serialize (JInt i) =
     (if \<not> (- MAX_SAFE_INTEGER \<le> i \<and> i \<le> MAX_SAFE_INTEGER) then Inl (PyExn ValueError)
      else Inr (int_str i))"
| "serialize (JFloat _) = Inl (PyExn TypeError)"
| "serialize (JList vs) =
     bindE (traverseE serialize vs) (\<lambda>parts. Inr ([91] @ join [44] parts @ [93]))"
| "serialize (JObj kvs) =
     bindE (sort_items (map (\<lambda>kv. (fst kv, serialize (snd kv))) kvs)) (\<lambda>items.
     bindE (traverseE (\<lambda>kr. bindE (snd kr) (\<lambda>s. Inr (escape_string (fst kr) @ [58] @ s))) items) (\<lambda>parts.
     Inr ([123] @ join [44] parts @ [125])))"
| "serialize (JOther _) = Inl (PyExn TypeError)"
  by pat_completeness auto
termination
proof (relation "measure size")
  fix kvs :: jdict and kv
  assume "kv \<in> set kvs"
  then show "(snd kv, JObj kvs) \<in> measure size"
    by (induction kvs) (auto simp: less_Suc_eq)
qed (auto simp: less_Suc_eq_le size_list_estimation')

definition canonicalize :: "json \<Rightarrow> bytes res" where
  "canonicalize v =
     bindE (serialize v) (\<lambda>s. case utf8 s of Some b \<Rightarrow> Inr b | None \<Rightarrow> Inl (PyExn UnicodeEncodeError))"

section \<open>Normal forms\<close>

abbreviation item_key :: "ustr \<times> 'v \<Rightarrow> nat list" where
  "item_key kv \<equiv> the (utf16be (fst kv))"

text \<open>The value with every dict in key order: what the bytes of a value determine.\<close>

function (sequential) jnorm :: "json \<Rightarrow> json" where
  "jnorm (JList vs) = JList (map jnorm vs)"
| "jnorm (JObj kvs) = JObj (sort_key item_key (map (\<lambda>kv. (fst kv, jnorm (snd kv))) kvs))"
| "jnorm v = v"
  by pat_completeness auto
termination
proof (relation "measure size")
  fix kvs :: jdict and kv
  assume "kv \<in> set kvs"
  then show "(snd kv, JObj kvs) \<in> measure size"
    by (induction kvs) (auto simp: less_Suc_eq)
qed (auto simp: less_Suc_eq_le size_list_estimation')

fun render :: "json \<Rightarrow> ustr" where
  "render JNull = str ''null''"
| "render (JBool b) = (if b then str ''true'' else str ''false'')"
| "render (JStr s) = escape_string s"
| "render (JInt i) = int_str i"
| "render (JList vs) = [91] @ join [44] (map render vs) @ [93]"
| "render (JObj kvs) =
     [123] @ join [44] (map (\<lambda>(k, v). escape_string k @ [58] @ render v) kvs) @ [125]"
| "render _ = []"

fun plain :: "json \<Rightarrow> bool" where
  "plain (JFloat _) = False"
| "plain (JOther _) = False"
| "plain (JList vs) = list_all plain vs"
| "plain (JObj kvs) = list_all (\<lambda>(k, v). plain v) kvs"
| "plain _ = True"

lemma insort_key_map: "insort_key g (f x) (map f xs) = map f (insort_key (\<lambda>y. g (f y)) x xs)"
  by (induction xs) simp_all

lemma sort_key_map: "sort_key g (map f xs) = map f (sort_key (\<lambda>y. g (f y)) xs)"
  by (induction xs) (simp_all add: insort_key_map)

lemma sort_items_map:
  "sort_items (map (\<lambda>kv. (fst kv, f (snd kv))) kvs) =
     (if list_all (\<lambda>kv. utf16be (fst kv) \<noteq> None) kvs
      then Inr (map (\<lambda>kv. (fst kv, f (snd kv))) (sort_key item_key kvs))
      else Inl (PyExn UnicodeEncodeError))"
  by (simp add: sort_items_def sort_key_map list.pred_map comp_def)

lemma jnorm_JObj: "jnorm (JObj kvs) = JObj (map (\<lambda>kv. (fst kv, jnorm (snd kv))) (sort_key item_key kvs))"
  by (simp add: sort_key_map)

text \<open>A serialization that succeeds prints the normal form.\<close>

lemma serialize_render:
  "serialize v = Inr s \<Longrightarrow> s = render (jnorm v) \<and> plain (jnorm v)"
proof (induction v arbitrary: s rule: serialize.induct)
  case (7 vs)
  from "7.prems" obtain parts where p: "list_all2 (\<lambda>v s. serialize v = Inr s) vs parts"
    and s: "s = [91] @ join [44] parts @ [93]"
    by (auto simp: bindE_Inr_iff traverseE_Inr_iff)
  from p "7.IH" have "parts = map (\<lambda>v. render (jnorm v)) vs \<and> list_all plain (map jnorm vs)"
    by (induction vs parts rule: list_all2_induct) auto
  then show ?case by (simp add: s comp_def)
next
  case (8 kvs)
  define ks where "ks = sort_key item_key kvs"
  from "8.prems" obtain parts where
    p: "list_all2 (\<lambda>kv s. bindE (serialize (snd kv)) (\<lambda>s. Inr (escape_string (fst kv) @ [58] @ s)) = Inr s) ks parts"
    and s: "s = [123] @ join [44] parts @ [125]"
    by (auto simp: ks_def sort_items_map bindE_Inr_iff traverseE_Inr_iff list_all2_map1 split: if_splits)
  have "set ks = set kvs" by (simp add: ks_def)
  with "8.IH" have ih: "\<And>kv s. kv \<in> set ks \<Longrightarrow> serialize (snd kv) = Inr s \<Longrightarrow>
      s = render (jnorm (snd kv)) \<and> plain (jnorm (snd kv))" by auto
  from p ih have "parts = map (\<lambda>kv. escape_string (fst kv) @ [58] @ render (jnorm (snd kv))) ks
      \<and> list_all (\<lambda>kv. plain (jnorm (snd kv))) ks"
    by (induction ks parts rule: list_all2_induct) (fastforce simp: bindE_Inr_iff)+
  then show ?case
    by (simp add: s jnorm_JObj ks_def comp_def list.pred_map case_prod_unfold del: jnorm.simps)
qed (auto split: if_splits)

section \<open>Unique decodability\<close>

lemma hex_digit_inj: "m < 16 \<Longrightarrow> n < 16 \<Longrightarrow> hex_digit m = hex_digit n \<Longrightarrow> m = n"
  by (metis option.inject unhex_hex_digit)

lemma hex4_inj_small:
  assumes "hex4 c = hex4 d" and "c < 32" and "d < 32"
  shows "c = d"
proof -
  from assms have "hex_digit (c div 16) = hex_digit (d div 16)" and "hex_digit (c mod 16) = hex_digit (d mod 16)"
    by (simp_all add: hex4_def)
  with assms have "c div 16 = d div 16" and "c mod 16 = d mod 16"
    by (auto intro!: hex_digit_inj)
  then show ?thesis by (metis div_mult_mod_eq)
qed

lemma SHORT_ESCAPES_cases:
  "SHORT_ESCAPES c = Some e \<longleftrightarrow>
     (c, e) \<in> {(8, 98), (9, 116), (10, 110), (12, 102), (13, 114), (34, 34), (92, 92)}"
  by (auto simp: SHORT_ESCAPES_def split: if_splits)

lemma SHORT_ESCAPES_inj:
  "SHORT_ESCAPES c = Some e \<Longrightarrow> SHORT_ESCAPES d = Some e \<Longrightarrow> c = d"
  by (auto simp: SHORT_ESCAPES_cases)

lemma SHORT_ESCAPES_not_u: "SHORT_ESCAPES c \<noteq> Some 117"
  by (simp add: SHORT_ESCAPES_cases)

lemma SHORT_ESCAPES_None:
  "SHORT_ESCAPES c = None \<Longrightarrow> c \<noteq> 34 \<and> c \<noteq> 92"
  by (auto simp: SHORT_ESCAPES_def split: if_splits)

lemma escape_char_start: "escape_char c \<noteq> [] \<and> hd (escape_char c) \<noteq> 34"
  using SHORT_ESCAPES_None [of c] by (auto simp: escape_char_def split: option.splits)

lemma escape_char_prefix:
  assumes "escape_char c @ u = escape_char d @ v"
  shows "c = d \<and> u = v"
proof (cases "SHORT_ESCAPES c"; cases "SHORT_ESCAPES d")
  fix e e'
  assume "SHORT_ESCAPES c = Some e" and "SHORT_ESCAPES d = Some e'"
  with assms show ?thesis by (auto simp: escape_char_def dest: SHORT_ESCAPES_inj)
next
  fix e
  assume "SHORT_ESCAPES c = None" and "SHORT_ESCAPES d = Some e"
  with assms show ?thesis
    using SHORT_ESCAPES_not_u [of d] SHORT_ESCAPES_None [of c]
    by (auto simp: escape_char_def split: if_splits)
next
  fix e
  assume "SHORT_ESCAPES c = Some e" and "SHORT_ESCAPES d = None"
  with assms show ?thesis
    using SHORT_ESCAPES_not_u [of c] SHORT_ESCAPES_None [of d]
    by (auto simp: escape_char_def split: if_splits)
next
  assume n: "SHORT_ESCAPES c = None" "SHORT_ESCAPES d = None"
  have len: "length (hex4 c) = length (hex4 d)" by (simp add: hex4_def)
  show ?thesis
    using assms n SHORT_ESCAPES_None [of c] SHORT_ESCAPES_None [of d] len hex4_inj_small [of c d]
    by (auto simp: escape_char_def split: if_splits)
qed

lemma escape_body_prefix:
  "concat (map escape_char s) @ 34 # u = concat (map escape_char t) @ 34 # v \<Longrightarrow> s = t \<and> u = v"
proof (induction s arbitrary: t)
  case Nil
  show ?case
  proof (cases t)
    case (Cons d t')
    with Nil have "hd (escape_char d @ concat (map escape_char t') @ 34 # v) = 34"
      by (metis append.assoc append_Nil concat.simps(2) list.sel(1) list.simps(8,9) concat.simps(1))
    with escape_char_start [of d] show ?thesis by simp
  qed (use Nil in simp)
next
  case (Cons c s)
  show ?case
  proof (cases t)
    case Nil
    with Cons.prems show ?thesis using escape_char_start [of c] by (auto simp: append_eq_Cons_conv)
  next
    case (Cons d t')
    with Cons.prems have "c = d \<and> concat (map escape_char s) @ 34 # u = concat (map escape_char t') @ 34 # v"
      using escape_char_prefix [of c _ d] by simp
    with Cons Cons.IH [of t'] show ?thesis by simp
  qed
qed

lemma escape_string_prefix: "escape_string s @ u = escape_string t @ v \<Longrightarrow> s = t \<and> u = v"
  using escape_body_prefix [of s u t v] by (simp add: escape_string_def)

text \<open>What may follow a printed value: the end, a comma, a closing bracket or white space.\<close>

definition delim :: "ustr \<Rightarrow> bool" where
  "delim r \<longleftrightarrow> r = [] \<or> hd r \<in> {9, 10, 13, 32, 44, 93, 125}"

lemma delim_simps [simp]:
  "delim []"
  "delim (c # r) \<longleftrightarrow> c = 44 \<or> c = 93 \<or> c = 125 \<or> c \<in> {9, 10, 13, 32}"
  by (auto simp: delim_def)

lemma delim_not_digit: "delim r \<Longrightarrow> r = [] \<or> \<not> is_digit (hd r)"
  by (auto simp: delim_def is_digit_def)

lemma int_str_start: "int_str i \<noteq> [] \<and> (hd (int_str i) = 45 \<or> is_digit (hd (int_str i)))"
  by (simp add: int_str_def nat_str_hd)

lemma int_str_prefix:
  assumes "int_str i @ u = int_str j @ v" and "delim u" and "delim v"
  shows "i = j \<and> u = v"
proof -
  have nd: "nat_str m @ u = nat_str n @ v \<Longrightarrow> m = n \<and> u = v" for m n
    using digits_prefix [of "nat_str m" u "nat_str n" v] assms(2,3) nat_str_digits delim_not_digit
    by simp
  have sign: "nat_str m @ x \<noteq> 45 # y" for m x y
    using nat_str_hd [of m] by (auto simp: append_eq_Cons_conv is_digit_def)
  show ?thesis
  proof (cases "i < 0"; cases "j < 0")
    assume "i < 0" "j < 0"
    with assms(1) nd [of "nat (- i)" "nat (- j)"] show ?thesis
      by (simp add: int_str_def) linarith
  next
    assume "\<not> i < 0" "\<not> j < 0"
    with assms(1) nd [of "nat i" "nat j"] show ?thesis
      by (simp add: int_str_def) linarith
  next
    assume "i < 0" "\<not> j < 0"
    with assms(1) sign [of "nat j" v "nat_str (nat (- i)) @ u"] show ?thesis by (simp add: int_str_def)
  next
    assume "\<not> i < 0" "j < 0"
    with assms(1) sign [of "nat i" u "nat_str (nat (- j)) @ v"] show ?thesis by (simp add: int_str_def)
  qed
qed

lemma join_Cons: "join sep (x # xs) = x @ (if xs = [] then [] else sep @ join sep xs)"
  by (cases xs) simp_all

lemma join_prefix:
  assumes "join [44] (map f xs) @ c # u = join [44] (map f ys) @ c # v"
    and "c = 93 \<or> c = 125"
    and "\<And>x y u v. x \<in> set xs \<Longrightarrow> y \<in> set ys \<Longrightarrow> delim u \<Longrightarrow> delim v \<Longrightarrow>
           f x @ u = f y @ v \<Longrightarrow> x = y \<and> u = v"
    and "\<And>x. x \<in> set xs \<union> set ys \<Longrightarrow> f x \<noteq> [] \<and> hd (f x) \<notin> {44, 93, 125}"
  shows "xs = ys \<and> u = v"
  using assms
proof (induction xs arbitrary: ys)
  case Nil
  show ?case
  proof (cases ys)
    case (Cons y ys')
    with Nil.prems(1,2) Nil.prems(4) [of y] show ?thesis
      by (cases "f y") (auto simp: join_Cons)
  qed (use Nil in simp)
next
  case (Cons x xs)
  show ?case
  proof (cases ys)
    case Nil
    with Cons.prems(1,2) Cons.prems(4) [of x] show ?thesis
      by (cases "f x") (auto simp: join_Cons)
  next
    case ys: (Cons y ys')
    let ?tail = "\<lambda>zs w. (if zs = [] then [] else [44] @ join [44] (map f zs)) @ c # w"
    have "f x @ ?tail xs u = f y @ ?tail ys' v"
      using Cons.prems(1) by (auto simp: ys join_Cons)
    moreover have "delim (?tail xs u)" "delim (?tail ys' v)"
      using Cons.prems(2) by auto
    ultimately have xy: "x = y" and tl: "?tail xs u = ?tail ys' v"
      using Cons.prems(3) [of x y "?tail xs u" "?tail ys' v"] ys by simp_all
    from tl Cons.prems(2) have emp: "xs = [] \<longleftrightarrow> ys' = []"
      by (cases "xs = []"; cases "ys' = []") auto
    show ?thesis
    proof (cases "xs = []")
      case True
      with emp tl xy ys show ?thesis by simp
    next
      case False
      with emp tl have "join [44] (map f xs) @ c # u = join [44] (map f ys') @ c # v" by simp
      then have "xs = ys' \<and> u = v"
        by (rule Cons.IH) (use Cons.prems ys in auto)
      with xy ys show ?thesis by simp
    qed
  qed
qed


text \<open>The first character of a printed value tells its constructor.\<close>

datatype shape = SNull | STrue | SFalse | SStr | SNum | SList | SObj | SNone

fun shape_of :: "json \<Rightarrow> shape" where
  "shape_of JNull = SNull"
| "shape_of (JBool b) = (if b then STrue else SFalse)"
| "shape_of (JStr _) = SStr"
| "shape_of (JInt _) = SNum"
| "shape_of (JList _) = SList"
| "shape_of (JObj _) = SObj"
| "shape_of _ = SNone"

definition shape_at :: "nat \<Rightarrow> shape" where
  "shape_at c =
     (if c = 110 then SNull else if c = 116 then STrue else if c = 102 then SFalse
      else if c = 34 then SStr else if c = 91 then SList else if c = 123 then SObj else SNum)"

lemma render_start:
  "plain v \<Longrightarrow> render v \<noteq> [] \<and> hd (render v) \<notin> {44, 93, 125} \<and> shape_at (hd (render v)) = shape_of v"
  using int_str_start [of "case v of JInt i \<Rightarrow> i | _ \<Rightarrow> 0"]
  by (cases v) (auto simp: str_simps escape_string_def shape_at_def is_digit_def)

lemma render_shape:
  assumes "plain a" and "plain b" and "render a @ u = render b @ v"
  shows "shape_of a = shape_of b"
proof -
  from assms have "hd (render a) = hd (render b)"
    using render_start [of a] render_start [of b] by (metis hd_append2)
  with render_start [OF assms(1)] render_start [OF assms(2)] show ?thesis by simp
qed

lemma shape_of_eqD:
  assumes "shape_of b = shape_of a" and "plain b"
  shows "(a = JNull \<longrightarrow> b = JNull) \<and> (\<forall>x. a = JBool x \<longrightarrow> b = JBool x) \<and>
         (\<forall>s. a = JStr s \<longrightarrow> (\<exists>t. b = JStr t)) \<and> (\<forall>i. a = JInt i \<longrightarrow> (\<exists>j. b = JInt j)) \<and>
         (\<forall>vs. a = JList vs \<longrightarrow> (\<exists>ws. b = JList ws)) \<and> (\<forall>d. a = JObj d \<longrightarrow> (\<exists>e. b = JObj e))"
  using assms by (cases b) (auto split: if_splits)

lemma render_prefix:
  "plain a \<Longrightarrow> plain b \<Longrightarrow> delim u \<Longrightarrow> delim v \<Longrightarrow> render a @ u = render b @ v \<Longrightarrow> a = b \<and> u = v"
proof (induction a arbitrary: b u v)
  case JNull
  with render_shape [OF JNull(1,2,5)] shape_of_eqD [of b JNull] show ?case by auto
next
  case (JBool x)
  with render_shape [OF JBool(1,2,5)] shape_of_eqD [of b "JBool x"] show ?case by auto
next
  case (JStr s)
  then obtain t where "b = JStr t"
    using render_shape [OF JStr(1,2,5)] shape_of_eqD [of b "JStr s"] by auto
  with JStr(5) escape_string_prefix [of s u t v] show ?case by simp
next
  case (JInt i)
  then obtain j where "b = JInt j"
    using render_shape [OF JInt(1,2,5)] shape_of_eqD [of b "JInt i"] by auto
  with JInt(3-5) int_str_prefix [of i u j v] show ?case by simp
next
  case (JList vs)
  then obtain ws where b: "b = JList ws"
    using render_shape [OF JList.prems(1,2,5)] shape_of_eqD [of b "JList vs"] by auto
  have "vs = ws \<and> u = v"
  proof (rule join_prefix)
    show "join [44] (map render vs) @ 93 # u = join [44] (map render ws) @ 93 # v"
      using JList.prems(5) b by simp
  next
    fix x y u v
    assume "x \<in> set vs" "y \<in> set ws" "delim u" "delim v" "render x @ u = render y @ v"
    then show "x = y \<and> u = v"
      using JList.IH [of x y u v] JList.prems(1,2) b by (simp add: list_all_iff)
  next
    fix x
    assume "x \<in> set vs \<union> set ws"
    then have "plain x" using JList.prems(1,2) b by (auto simp: list_all_iff)
    then show "render x \<noteq> [] \<and> hd (render x) \<notin> {44, 93, 125}" using render_start by blast
  qed simp
  with b show ?case by simp
next
  case (JObj d)
  then obtain e where b: "b = JObj e"
    using render_shape [OF JObj.prems(1,2,5)] shape_of_eqD [of b "JObj d"] by auto
  let ?item = "\<lambda>(k, v). escape_string k @ [58] @ render v"
  have "d = e \<and> u = v"
  proof (rule join_prefix)
    show "join [44] (map ?item d) @ 125 # u = join [44] (map ?item e) @ 125 # v"
      using JObj.prems(5) b by simp
  next
    fix x y :: "ustr \<times> json" and u v
    assume x: "x \<in> set d" and y: "y \<in> set e" and dl: "delim u" "delim v"
      and eq: "?item x @ u = ?item y @ v"
    from eq have "fst x = fst y \<and> render (snd x) @ u = render (snd y) @ v"
      using escape_string_prefix [of "fst x" "58 # render (snd x) @ u" "fst y" "58 # render (snd y) @ v"]
      by (simp add: case_prod_unfold)
    moreover from x y JObj.prems(1,2) b have "plain (snd x)" "plain (snd y)"
      by (auto simp: list_all_iff)
    ultimately show "x = y \<and> u = v"
      using JObj.IH [of x "snd x" "snd y" u v] x dl by (auto simp: prod_eq_iff prod_set_simps snds.simps)
  qed (auto simp: escape_string_def)
  with b show ?case by simp
qed simp_all

section \<open>Canonicity\<close>

lemma canonicalize_Inr_iff:
  "canonicalize v = Inr b \<longleftrightarrow> (\<exists>s. serialize v = Inr s \<and> utf8 s = Some b)"
  by (cases "serialize v") (simp_all add: canonicalize_def split: option.split)

lemma canonicalize_norm:
  assumes "canonicalize a = Inr bs" and "canonicalize b = Inr bs"
  shows "jnorm a = jnorm b"
proof -
  from assms obtain s t where s: "serialize a = Inr s" "utf8 s = Some bs"
    and t: "serialize b = Inr t" "utf8 t = Some bs"
    unfolding canonicalize_Inr_iff by blast
  then have "s = t" by (blast dest: utf8_inj)
  with serialize_render [OF s(1)] serialize_render [OF t(1)]
  have "render (jnorm a) @ [] = render (jnorm b) @ []" and "plain (jnorm a)" and "plain (jnorm b)" by simp_all
  then show ?thesis using render_prefix [of "jnorm a" "jnorm b" "[]" "[]"] by simp
qed

text \<open>Objects with equal normal forms agree under every key, up to normal forms.\<close>

lemma jnorm_obj_get:
  assumes "jnorm (JObj d) = jnorm (JObj e)" and "dict_wf d" and "dict_wf e"
  shows "map_option jnorm (dict_get d k) = map_option jnorm (dict_get e k)"
proof -
  let ?n = "\<lambda>d. map (\<lambda>(k, v). (k, jnorm v)) d"
  have n: "map (\<lambda>kv. (fst kv, jnorm (snd kv))) d = ?n d" for d
    by (simp add: case_prod_unfold)
  have f: "map fst (?n d) = map fst d" for d by (induction d) auto
  from assms(1) have "sort_key item_key (?n d) = sort_key item_key (?n e)" by (simp add: n)
  then have "set (?n d) = set (?n e)" by (metis set_sort)
  with assms(2,3) have "map_of (?n d) = map_of (?n e)"
    by (subst map_of_inject_set) (simp_all only: f)
  from fun_cong [OF this, of k] show ?thesis by (simp add: dict_get_def map_of_map)
qed

lemma item_key_inj:
  assumes "dict_wf d" and "list_all (\<lambda>kv. utf16be (fst kv) \<noteq> None) d"
  shows "inj_on item_key (set d)"
proof (rule inj_onI)
  fix x y
  assume xy: "x \<in> set d" "y \<in> set d" and eq: "item_key x = item_key y"
  from xy assms(2) have "utf16be (fst x) \<noteq> None" "utf16be (fst y) \<noteq> None" by (auto simp: list_all_iff)
  with eq have "fst x = fst y" by (metis option.collapse utf16be_inj)
  with assms(1) xy show "x = y" by (metis eq_key_imp_eq_value prod.collapse)
qed

lemma serialize_perm:
  assumes "mset d = mset e" and "dict_wf d"
  shows "serialize (JObj d) = serialize (JObj e)"
proof -
  from assms(1) have st: "set d = set e" by (rule mset_eq_setD)
  show ?thesis
  proof (cases "list_all (\<lambda>kv. utf16be (fst kv) \<noteq> None) d")
    case True
    have "mset d = mset (sort_key item_key e)" using assms(1) by simp
    then have "sort_key item_key d = sort_key item_key e"
      by (rule sort_key_inj_key_eq) (simp_all add: item_key_inj [OF assms(2) True])
    with True st show ?thesis by (auto simp: sort_items_map list_all_iff)
  next
    case False
    with st show ?thesis by (auto simp: sort_items_map list_all_iff)
  qed
qed

lemma canonicalize_perm:
  "mset d = mset e \<Longrightarrow> dict_wf d \<Longrightarrow> canonicalize (JObj d) = canonicalize (JObj e)"
  by (simp only: canonicalize_def serialize_perm)

text \<open>What canonicalization accepts.\<close>

fun json_ok :: "json \<Rightarrow> bool" where
  "json_ok (JInt i) \<longleftrightarrow> - MAX_SAFE_INTEGER \<le> i \<and> i \<le> MAX_SAFE_INTEGER"
| "json_ok (JStr s) \<longleftrightarrow> list_all encodable s"
| "json_ok (JList vs) \<longleftrightarrow> list_all json_ok vs"
| "json_ok (JObj d) \<longleftrightarrow> list_all (\<lambda>(k, v). list_all encodable k \<and> json_ok v) d"
| "json_ok (JFloat _) \<longleftrightarrow> False"
| "json_ok (JOther _) \<longleftrightarrow> False"
| "json_ok _ \<longleftrightarrow> True"

lemma encodable_ascii: "c < 128 \<Longrightarrow> encodable c"
  by (simp add: encodable_def is_surrogate_def)

lemma encodable_of_char [simp]: "encodable (of_char c)"
proof -
  have "(of_char c :: nat) < 256" by (rule nat_of_char_less_256)
  then show ?thesis unfolding encodable_def is_surrogate_def by linarith
qed

lemma encodable_str [simp]: "list_all encodable (str s)"
  by (simp add: str_def list_all_iff)

lemma encodable_escape:
  assumes "encodable c"
  shows "list_all encodable (escape_char c)"
proof -
  have h: "encodable (hex_digit n)" if "n < 16" for n
    using that by (intro encodable_ascii) (auto simp: hex_digit_def)
  have e: "encodable 92 \<and> encodable 117" by (simp add: encodable_ascii)
  show ?thesis
  proof (cases "SHORT_ESCAPES c")
    case None
    with assms h e show ?thesis by (simp add: escape_char_def hex4_def)
  next
    case (Some x)
    then have "x < 128" by (auto simp: SHORT_ESCAPES_cases)
    with Some e show ?thesis by (simp add: escape_char_def encodable_ascii)
  qed
qed

lemma encodable_escape_string: "list_all encodable s \<Longrightarrow> list_all encodable (escape_string s)"
proof (induction s)
  case Nil
  show ?case by (simp add: escape_string_def encodable_ascii)
next
  case (Cons c s)
  with encodable_escape [of c] show ?case by (simp add: escape_string_def)
qed

lemma encodable_int_str: "list_all encodable (int_str i)"
proof -
  have "list_all encodable (nat_str n)" for n
    using nat_str_digits [of n] by (auto simp: list_all_iff is_digit_def intro!: encodable_ascii)
  then show ?thesis by (simp add: int_str_def encodable_ascii)
qed

lemma encodable_join:
  "list_all encodable sep \<Longrightarrow> list_all (list_all encodable) xs \<Longrightarrow> list_all encodable (join sep xs)"
  by (induction sep xs rule: join.induct) auto

lemma serialize_ok:
  "json_ok v \<Longrightarrow> \<exists>s. serialize v = Inr s \<and> list_all encodable s"
proof (induction v rule: serialize.induct)
  case (7 vs)
  then have "\<forall>v \<in> set vs. \<exists>s. serialize v = Inr s \<and> list_all encodable s"
    by (auto simp: list_all_iff)
  then obtain f where f: "\<forall>v \<in> set vs. serialize v = Inr (f v) \<and> list_all encodable (f v)" by metis
  then have "traverseE serialize vs = Inr (map f vs)" by (intro traverseE_all) simp
  moreover from f have "list_all encodable (join [44] (map f vs))"
    by (intro encodable_join) (simp_all add: encodable_ascii list_all_iff)
  ultimately show ?case by (simp add: encodable_ascii)
next
  case (8 kvs)
  then have k: "\<forall>kv \<in> set kvs. list_all encodable (fst kv)"
    and "\<forall>kv \<in> set kvs. \<exists>s. serialize (snd kv) = Inr s \<and> list_all encodable s"
    by (auto simp: list_all_iff)
  then obtain f where f: "\<forall>kv \<in> set kvs. serialize (snd kv) = Inr (f kv) \<and> list_all encodable (f kv)" by metis
  define ks where "ks = sort_key item_key kvs"
  have st: "set ks = set kvs" by (simp add: ks_def)
  define item where "item = (\<lambda>kv. escape_string (fst kv) @ [58] @ f kv)"
  have "list_all (\<lambda>kv. utf16be (fst kv) \<noteq> None) kvs" using k by (simp add: list_all_iff utf16be_def)
  then have s: "sort_items (map (\<lambda>kv. (fst kv, serialize (snd kv))) kvs) =
      Inr (map (\<lambda>kv. (fst kv, serialize (snd kv))) ks)"
    by (simp only: sort_items_map ks_def if_True)
  have "traverseE (\<lambda>kr. bindE (snd kr) (\<lambda>s. Inr (escape_string (fst kr) @ [58] @ s)))
      (map (\<lambda>kv. (fst kv, Inr (f kv) :: ustr res)) ks) = Inr (map item ks)"
    by (induction ks) (simp_all add: item_def)
  moreover have "map (\<lambda>kv. (fst kv, serialize (snd kv))) ks = map (\<lambda>kv. (fst kv, Inr (f kv))) ks"
    using f st by simp
  ultimately have "serialize (JObj kvs) = Inr ([123] @ join [44] (map item ks) @ [125])"
    by (simp only: serialize.simps s bindE_simps)
  moreover have "list_all encodable (join [44] (map item ks))"
    using f k st
    by (intro encodable_join) (auto simp: encodable_ascii list_all_iff item_def encodable_escape_string [unfolded list_all_iff])
  ultimately show ?case by (simp add: encodable_ascii)
qed (simp_all add: encodable_escape_string encodable_int_str)

lemma canonicalize_ok:
  assumes "json_ok v"
  shows "\<exists>b. canonicalize v = Inr b"
  using serialize_ok [OF assms] by (auto simp: canonicalize_Inr_iff utf8_def)

text \<open>Canonical objects with the same bytes have the same keys.\<close>

lemma canonicalize_keys:
  assumes "canonicalize (JObj d) = Inr b" and "canonicalize (JObj e) = Inr b"
  shows "dict_keys d = dict_keys e"
proof -
  let ?n = "\<lambda>d. map (\<lambda>kv. (fst kv, jnorm (snd kv))) d"
  from canonicalize_norm [OF assms] have "set (sort_key item_key (?n d)) = set (sort_key item_key (?n e))" by simp
  then have "set (?n d) = set (?n e)" unfolding set_sort .
  then have "fst ` set (?n d) = fst ` set (?n e)" by simp
  then show ?thesis by (simp add: dict_keys_def image_image)
qed

lemma canonicalize_get:
  assumes "canonicalize (JObj d) = Inr b" and "canonicalize (JObj e) = Inr b" and "dict_wf d" and "dict_wf e"
  shows "map_option jnorm (dict_get d k) = map_option jnorm (dict_get e k)"
  using jnorm_obj_get [OF canonicalize_norm [OF assms(1,2)] assms(3,4)] .

section \<open>Properties\<close>

lemma canonicalize_eqI:
  assumes "json_ok v" and "json_ok w" and "jnorm v = jnorm w"
  shows "canonicalize v = canonicalize w"
proof -
  obtain s t where "serialize v = Inr s" "serialize w = Inr t"
    using serialize_ok [OF assms(1)] serialize_ok [OF assms(2)] by blast
  with serialize_render [of v s] serialize_render [of w t] assms(3) show ?thesis
    by (simp add: canonicalize_def)
qed

text \<open>
  C38: Canonicalization is canonical. For two documents the serializer accepts, the bytes are equal
  exactly when the documents are equal up to the order in which their dicts were filled, so a
  signature over the bytes stands for one document and no conforming peer disagrees about it.
\<close>

theorem canonicalize_canonical:
  assumes "json_ok v" and "json_ok w"
  shows "canonicalize v = canonicalize w \<longleftrightarrow> jnorm v = jnorm w"
proof
  assume eq: "canonicalize v = canonicalize w"
  obtain b where "canonicalize v = Inr b" using canonicalize_ok [OF assms(1)] by blast
  moreover from this eq have "canonicalize w = Inr b" by simp
  ultimately show "jnorm v = jnorm w" by (rule canonicalize_norm)
qed (rule canonicalize_eqI [OF assms])

theorem canonicalize_canonical_witness:
  "canonicalize (JObj [(str ''depth'', JInt 1), (str ''scope'', JList [JStr (str ''read'')])]) =
     canonicalize (JObj [(str ''scope'', JList [JStr (str ''read'')]), (str ''depth'', JInt 2)]) \<longleftrightarrow> False"
proof -
  let ?v = "JObj [(str ''depth'', JInt 1), (str ''scope'', JList [JStr (str ''read'')])]"
  let ?w = "JObj [(str ''scope'', JList [JStr (str ''read'')]), (str ''depth'', JInt 2)]"
  have "json_ok ?v" "json_ok ?w" by (simp_all add: MAX_SAFE_INTEGER_def)
  moreover have "jnorm ?v \<noteq> jnorm ?w"
  proof
    assume "jnorm ?v = jnorm ?w"
    from jnorm_obj_get [OF this, of "str ''depth''"] show False by simp
  qed
  ultimately show ?thesis using canonicalize_canonical [of ?v ?w] by blast
qed

text \<open>
  The order in which the fields of a dict were inserted does not show in its canonical bytes,
  error cases included.
\<close>

theorem canonicalize_order_free:
  assumes "mset d = mset e" and "distinct (map fst d)"
  shows "canonicalize (JObj d) = canonicalize (JObj e)"
  using assms by (rule canonicalize_perm)

theorem canonicalize_order_free_witness:
  "canonicalize (JObj [(str ''b'', JInt 1), (str ''a'', JNull)]) =
     canonicalize (JObj [(str ''a'', JNull), (str ''b'', JInt 1)])"
  by (rule canonicalize_order_free) simp_all

end
