(* ===== verification/Extern.thy ===== *)
theory Extern
  imports Hashes Canonical
begin

text \<open>
  The code outside the repository that the runtime calls, as one record of functions: Ed25519,
  X25519, HKDF-SHA-256 and ChaCha20-Poly1305 of the \<open>cryptography\<close> package, the
  interpreter's \<open>repr\<close> and \<open>float()\<close>, the two tables of the Unicode database that \<open>int()\<close> consults
  for non-ASCII characters, and the verdict of the Cedar engine (\<open>cedarpy.is_authorized\<close>). A private key is the bytes of its secret, a public key its raw bytes.
  What the package documents is stated as separate laws (\<open>ed25519_correct\<close>,
  \<open>x25519_correct\<close>, \<open>aead_correct\<close>), used as hypotheses where a theorem
  needs them. \<open>sample_lib\<close> is a concrete record that satisfies all of them.
  The hash functions are the standard library's and are defined, not assumed.
\<close>

record lib =
  py_repr :: "json \<Rightarrow> ustr"
  uni_decimal :: "nat \<Rightarrow> nat option"
  uni_space :: "nat \<Rightarrow> bool"
  py_float :: "ustr \<Rightarrow> rat option"
  ed_public :: "bytes \<Rightarrow> bytes"
  ed_sign :: "bytes \<Rightarrow> bytes \<Rightarrow> bytes"
  ed_key_ok :: "bytes \<Rightarrow> bool"
  ed_verify :: "bytes \<Rightarrow> bytes \<Rightarrow> bytes \<Rightarrow> bool"
  x_public :: "bytes \<Rightarrow> bytes"
  x_key_ok :: "bytes \<Rightarrow> bool"
  x_exchange :: "bytes \<Rightarrow> bytes \<Rightarrow> bytes option"
  hkdf :: "bytes option \<Rightarrow> bytes \<Rightarrow> bytes \<Rightarrow> bytes"
  aead_encrypt :: "bytes \<Rightarrow> bytes \<Rightarrow> bytes \<Rightarrow> bytes \<Rightarrow> bytes"
  aead_decrypt :: "bytes \<Rightarrow> bytes \<Rightarrow> bytes \<Rightarrow> bytes \<Rightarrow> bytes option"
  cedar_allows :: "json \<Rightarrow> ustr \<Rightarrow> bool"

text \<open>\<open>str(v)\<close>: a string is its own text, anything else its \<open>repr\<close>.\<close>

fun py_str :: "lib \<Rightarrow> json \<Rightarrow> ustr" where
  "py_str L (JStr s) = s"
| "py_str L v = py_repr L v"

text \<open>A signature verifies under the public half of the key that made it.\<close>

definition ed25519_correct :: "lib \<Rightarrow> bool" where
  "ed25519_correct L \<longleftrightarrow>
     (\<forall>k m. ed_key_ok L (ed_public L k) \<and> length (ed_public L k) = 32 \<and>
            length (ed_sign L k m) = 64 \<and> ed_verify L (ed_public L k) (ed_sign L k m) m)"

text \<open>Both ends of an exchange compute the same secret.\<close>

definition x25519_correct :: "lib \<Rightarrow> bool" where
  "x25519_correct L \<longleftrightarrow>
     (\<forall>a b. x_key_ok L (x_public L a) \<and> length (x_public L a) = 32 \<and>
            x_exchange L a (x_public L b) = x_exchange L b (x_public L a))"

definition aead_correct :: "lib \<Rightarrow> bool" where
  "aead_correct L \<longleftrightarrow>
     (\<forall>k n p a. aead_decrypt L k n (aead_encrypt L k n p a) a = Some p)"

text \<open>
  \<open>Ed25519PublicKey.from_public_bytes(bytes.fromhex(key)).verify(bytes.fromhex(sig), canonicalize(body))\<close>,
  the check that credentials, revocations and holder proofs share.
\<close>

definition ed25519_check :: "lib \<Rightarrow> ustr \<Rightarrow> ustr \<Rightarrow> jdict \<Rightarrow> unit res" where
  "ed25519_check L key sig body =
     bindE (expect (fromhex key) (PyExn ValueError)) (\<lambda>pk.
     bindE (require (ed_key_ok L pk) (PyExn ValueError)) (\<lambda>_.
     bindE (expect (fromhex sig) (PyExn ValueError)) (\<lambda>sg.
     bindE (canonicalize (JObj body)) (\<lambda>m.
     require (ed_verify L pk sg m) (PyExn InvalidSignature)))))"

definition signature_ok :: "lib \<Rightarrow> ustr \<Rightarrow> ustr \<Rightarrow> jdict \<Rightarrow> bool" where
  "signature_ok L key sig body \<longleftrightarrow> ed25519_check L key sig body = Inr ()"

lemma signature_ok_iff:
  "signature_ok L key sig body \<longleftrightarrow>
     (\<exists>pk sg m. fromhex key = Some pk \<and> ed_key_ok L pk \<and> fromhex sig = Some sg \<and>
        canonicalize (JObj body) = Inr m \<and> ed_verify L pk sg m)"
  by (auto simp: signature_ok_def ed25519_check_def guard_simps)

lemma signature_ok_sign:
  assumes "ed25519_correct L" and "canonicalize (JObj body) = Inr m"
  shows "signature_ok L (hex (ed_public L k)) (hex (ed_sign L k m)) body"
  using assms by (simp add: signature_ok_iff ed25519_correct_def)

text \<open>A body of the signed kinds has no value that canonicalization refuses by type.\<close>

lemma serialize_exn:
  "plain v \<Longrightarrow> serialize v = Inl e \<Longrightarrow> is_value_error e"
proof (induction v arbitrary: e rule: serialize.induct)
  case (7 vs)
  from "7.prems"(2) have "traverseE serialize vs = Inl e" by (simp add: bindE_Inl_iff)
  with "7.IH" "7.prems"(1) show ?case
  proof (induction vs)
    case (Cons v vs)
    then show ?case by (cases "serialize v") (auto simp: bindE_Inl_iff)
  qed simp
next
  case (8 kvs)
  define ks where "ks = sort_key item_key kvs"
  have st: "set ks = set kvs" by (simp add: ks_def)
  show ?case
  proof (cases "list_all (\<lambda>kv. utf16be (fst kv) \<noteq> None) kvs")
    case True
    with "8.prems"(2) have "traverseE (\<lambda>kr. bindE (snd kr) (\<lambda>s. Inr (escape_string (fst kr) @ [58] @ s)))
        (map (\<lambda>kv. (fst kv, serialize (snd kv))) ks) = Inl e"
      by (simp only: serialize.simps sort_items_map if_True bindE_simps ks_def bindE_Inl_iff) auto
    then obtain kv where "kv \<in> set ks" "serialize (snd kv) = Inl e"
      by (induction ks) (auto simp: bindE_Inl_iff)
    moreover from this(1) st "8.prems"(1) have "kv \<in> set kvs" "plain (snd kv)"
      by (auto simp: list_all_iff)
    ultimately show ?thesis using "8.IH" by blast
  next
    case False
    with "8.prems"(2) show ?thesis by (auto simp: sort_items_map)
  qed
qed (auto split: if_splits)

lemma canonicalize_exn: "plain v \<Longrightarrow> canonicalize v = Inl e \<Longrightarrow> is_value_error e"
  by (cases "serialize v") (auto simp: canonicalize_def split: option.splits dest: serialize_exn)

lemma ed25519_check_exn:
  "plain (JObj body) \<Longrightarrow> ed25519_check L key sig body = Inl e \<Longrightarrow> is_signature_error e"
  using canonicalize_exn [of "JObj body"]
  by (auto simp: ed25519_check_def guard_simps simp del: plain.simps)

section \<open>A concrete library\<close>

definition pad32 :: "bytes \<Rightarrow> bytes" where
  "pad32 k = take 32 (k @ replicate 32 0)"

lemma length_pad32 [simp]: "length (pad32 k) = 32"
  by (simp add: pad32_def)

definition sample_lib :: lib where
  "sample_lib = \<lparr>
     py_repr = (\<lambda>v. str ''value''),
     uni_decimal = (\<lambda>c. if 1632 \<le> c \<and> c \<le> 1641 then Some (c - 1632) else None),
     uni_space = (\<lambda>c. c = 160),
     py_float = (\<lambda>t. Some 0),
     ed_public = (\<lambda>k. pad32 k),
     ed_sign = (\<lambda>k m. pad32 k @ replicate 32 (sum_list m)),
     ed_key_ok = (\<lambda>pk. length pk = 32),
     ed_verify = (\<lambda>pk sg m. sg = pk @ replicate 32 (sum_list m)),
     x_public = (\<lambda>k. pad32 k),
     x_key_ok = (\<lambda>pk. length pk = 32),
     x_exchange = (\<lambda>k pk. if length pk = 32 then Some (map2 (+) (pad32 k) pk) else None),
     hkdf = (\<lambda>salt info ikm. pad32 ikm),
     aead_encrypt = (\<lambda>k n p a. p @ [sum_list k + sum_list n + sum_list a]),
     aead_decrypt = (\<lambda>k n c a.
       if c \<noteq> [] \<and> last c = sum_list k + sum_list n + sum_list a then Some (butlast c) else None),
     cedar_allows = (\<lambda>request policies. policies \<noteq> []) \<rparr>"

lemma sample_ed25519: "ed25519_correct sample_lib"
  by (simp add: ed25519_correct_def sample_lib_def)

lemma sample_x25519: "x25519_correct sample_lib"
proof -
  have "map2 (+) x y = map2 (+) y x" for x y :: bytes
    by (simp add: list_eq_iff_nth_eq add.commute)
  then show ?thesis by (simp add: x25519_correct_def sample_lib_def)
qed

lemma sample_aead: "aead_correct sample_lib"
  by (simp add: aead_correct_def sample_lib_def)

lemmas sample_laws = sample_ed25519 sample_x25519 sample_aead

end
