(* ===== verification/Sealed_Channel.thy ===== *)
theory Sealed_Channel
  imports Extern
begin

text \<open>
  The sealed peer channel, \<open>ca2a_runtime/channel/sealed.py\<close>: a version byte, an ephemeral X25519
  key, a nonce and a ChaCha20-Poly1305 ciphertext. The ephemeral private key and the nonce are
  arguments of \<open>seal\<close>. A sealed payload opens under the private half of the key it was sealed to.
\<close>

definition ascii_bytes :: "string \<Rightarrow> bytes" where
  "ascii_bytes s = map of_nat (str s)"

definition SEALED_VERSION :: byte where
  "SEALED_VERSION = 1"

definition HKDF_INFO :: bytes where
  "HKDF_INFO = ascii_bytes ''ca2a/sealed-channel/v1''"

definition EPH_LEN :: nat where
  "EPH_LEN = 32"

definition NONCE_LEN :: nat where
  "NONCE_LEN = 12"

definition HEADER_LEN :: nat where
  "HEADER_LEN = 1 + EPH_LEN + NONCE_LEN"

definition derive_key :: "lib \<Rightarrow> bytes \<Rightarrow> bytes \<Rightarrow> bytes \<Rightarrow> bytes" where
  "derive_key L shared eph_pub peer_pub = hkdf L None HKDF_INFO (eph_pub @ peer_pub @ shared)"

text \<open>\<open>X25519PublicKey.from_public_bytes(bytes.fromhex(s))\<close>.\<close>

definition x_public_of_hex :: "lib \<Rightarrow> ustr \<Rightarrow> bytes res" where
  "x_public_of_hex L s =
     bindE (expect (fromhex s) (PyExn ValueError)) (\<lambda>pk.
     bindE (require (x_key_ok L pk) (PyExn ValueError)) (\<lambda>_. Inr pk))"

definition sealed_channel_init :: "lib \<Rightarrow> ustr \<Rightarrow> bytes res" where
  "sealed_channel_init L peer_public_key =
     catchE (x_public_of_hex L peer_public_key) is_value_error (\<lambda>_.
       raise SealedChannelError ''invalid peer public key'')"

definition seal :: "lib \<Rightarrow> bytes \<Rightarrow> bytes \<Rightarrow> bytes \<Rightarrow> bytes \<Rightarrow> bytes \<Rightarrow> bytes res" where
  "seal L peer_pub eph_priv nonce payload aad =
     (let eph_pub = x_public L eph_priv in
      bindE (expect (x_exchange L eph_priv peer_pub)
               (Ca2a SealedChannelError (str ''invalid peer public key'') None)) (\<lambda>shared.
      let key = derive_key L shared eph_pub peer_pub in
      Inr ([SEALED_VERSION] @ eph_pub @ nonce @ aead_encrypt L key nonce payload aad)))"

definition open_sealed :: "lib \<Rightarrow> bytes \<Rightarrow> bytes \<Rightarrow> bytes \<Rightarrow> bytes res" where
  "open_sealed L blob private_key aad =
     (if length blob < HEADER_LEN \<or> hd blob \<noteq> SEALED_VERSION
      then raise SealedChannelError ''malformed or unsupported sealed payload''
      else
        let eph_pub = take EPH_LEN (drop 1 blob);
            nonce = take NONCE_LEN (drop (1 + EPH_LEN) blob);
            ct = drop HEADER_LEN blob
        in catchE
             (bindE (require (x_key_ok L eph_pub) (PyExn ValueError)) (\<lambda>_.
              bindE (expect (x_exchange L private_key eph_pub) (PyExn ValueError)) (\<lambda>shared.
              expect (aead_decrypt L (derive_key L shared eph_pub (x_public L private_key)) nonce ct aad)
                (PyExn InvalidTag))))
             is_tag_error (\<lambda>_. raise SealedChannelError ''sealed payload failed to open''))"

definition seal_to_key :: "lib \<Rightarrow> ustr \<Rightarrow> bytes \<Rightarrow> bytes \<Rightarrow> bytes \<Rightarrow> bytes \<Rightarrow> bytes res" where
  "seal_to_key L peer_public_key eph_priv nonce payload aad =
     bindE (sealed_channel_init L peer_public_key) (\<lambda>peer_pub. seal L peer_pub eph_priv nonce payload aad)"

section \<open>Lemmas\<close>

lemma x_public_of_hex_own [simp]:
  "x25519_correct L \<Longrightarrow> x_public_of_hex L (hex (x_public L k)) = Inr (x_public L k)"
  by (simp add: x_public_of_hex_def x25519_correct_def)

lemma open_sealed_exn: "open_sealed L blob k aad = Inl e \<Longrightarrow> exn_class e = Some SealedChannelError \<and> exn_record e = None"
  by (auto simp: open_sealed_def Let_def guard_simps split: if_splits)

lemma open_seal:
  assumes "x25519_correct L" and "aead_correct L" and "length nonce = NONCE_LEN"
    and "seal_to_key L (hex (x_public L k)) e nonce payload aad = Inr blob"
  shows "open_sealed L blob k aad = Inr payload"
proof -
  have len: "length (x_public L e) = 32" and ok: "x_key_ok L (x_public L e)"
    and ex: "x_exchange L k (x_public L e) = x_exchange L e (x_public L k)"
    using assms(1) by (simp_all add: x25519_correct_def)
  from assms(1,4) obtain shared where s: "x_exchange L e (x_public L k) = Some shared"
    and blob: "blob = [SEALED_VERSION] @ x_public L e @ nonce @
        aead_encrypt L (derive_key L shared (x_public L e) (x_public L k)) nonce payload aad"
    by (auto simp: seal_to_key_def sealed_channel_init_def seal_def Let_def guard_simps)
  have "take EPH_LEN (drop 1 blob) = x_public L e" "take NONCE_LEN (drop (1 + EPH_LEN) blob) = nonce"
    "drop HEADER_LEN blob = aead_encrypt L (derive_key L shared (x_public L e) (x_public L k)) nonce payload aad"
    "\<not> length blob < HEADER_LEN" "hd blob = SEALED_VERSION"
    using len assms(3) by (simp_all add: blob EPH_LEN_def HEADER_LEN_def NONCE_LEN_def)
  then show ?thesis
    using ok ex s assms(2) by (simp add: open_sealed_def aead_correct_def)
qed

section \<open>Properties\<close>

text \<open>
  A payload sealed to a peer's channel key opens, under the private half of that key and the
  same associated data, to exactly the payload.
\<close>

theorem sealed_roundtrip:
  assumes "x25519_correct L" and "aead_correct L" and "length nonce = NONCE_LEN"
    and "seal_to_key L (hex (x_public L k)) e nonce payload aad = Inr blob"
  shows "open_sealed L blob k aad = Inr payload"
  using assms by (rule open_seal)

theorem sealed_roundtrip_witness:
  "\<exists>blob. seal_to_key sample_lib (hex (x_public sample_lib [5])) [9] (replicate 12 0) [1, 2, 3] [] = Inr blob \<and>
          open_sealed sample_lib blob [5] [] = Inr [1, 2, 3]"
proof -
  have "x_exchange sample_lib [9] (x_public sample_lib [5]) \<noteq> None" by (simp add: sample_lib_def)
  then obtain blob where b: "seal_to_key sample_lib (hex (x_public sample_lib [5])) [9] (replicate 12 0) [1, 2, 3] [] = Inr blob"
    by (auto simp: seal_to_key_def sealed_channel_init_def sample_x25519 seal_def Let_def)
  moreover have "length (replicate 12 (0 :: byte)) = NONCE_LEN" by (simp add: NONCE_LEN_def)
  ultimately show ?thesis using sealed_roundtrip [OF sample_x25519 sample_aead] by blast
qed

end
