(* ===== verification/Tee.thy ===== *)
theory Tee
  imports Sealed_Channel
begin

text \<open>
  The attestation report and its binding: \<open>ca2a_runtime/tee/base.py\<close>, \<open>binding.py\<close> and
  \<open>software.py\<close>. A report commits a digest over a domain prefix and the length-prefixed channel
  key and nonce. The prefixes separate the platforms and the two roles of an offer; the theory
  proves that the bytes under the digest determine prefix, key and nonce.
\<close>

record attestation_report =
  ar_platform :: ustr
  ar_measurement :: ustr
  ar_public_key :: ustr
  ar_nonce :: ustr
  ar_raw_evidence :: "bytes option"
  ar_quote_signature :: "bytes option"
  ar_key_pem :: "bytes option"
  ar_key_chain_pem :: "bytes option"
  ar_role :: ustr

abbreviation attestation_failed :: "string \<Rightarrow> exn" where
  "attestation_failed m \<equiv> Ca2a AttestationFailed (str m) None"

definition ROLE_CALLEE :: ustr where
  "ROLE_CALLEE = str ''callee''"

definition ROLE_CALLER :: ustr where
  "ROLE_CALLER = str ''caller''"

definition ROLES :: "ustr set" where
  "ROLES = {ROLE_CALLEE, ROLE_CALLER}"

definition TPM_PREFIX :: bytes where
  "TPM_PREFIX = ascii_bytes ''ca2a-tpm-v1|''"

definition SNP_PREFIX :: bytes where
  "SNP_PREFIX = ascii_bytes ''ca2a-snp-v1|''"

definition TDX_PREFIX :: bytes where
  "TDX_PREFIX = ascii_bytes ''ca2a-tdx-v1|''"

definition TPM_CALLER_PREFIX :: bytes where
  "TPM_CALLER_PREFIX = ascii_bytes ''ca2a-tpm-caller-v2|''"

definition SNP_CALLER_PREFIX :: bytes where
  "SNP_CALLER_PREFIX = ascii_bytes ''ca2a-snp-caller-v2|''"

definition TDX_CALLER_PREFIX :: bytes where
  "TDX_CALLER_PREFIX = ascii_bytes ''ca2a-tdx-caller-v2|''"

definition PREFIXES :: "((bytes \<times> ustr) \<times> bytes) list" where
  "PREFIXES =
     [((TPM_PREFIX, ROLE_CALLEE), TPM_PREFIX), ((TPM_PREFIX, ROLE_CALLER), TPM_CALLER_PREFIX),
      ((SNP_PREFIX, ROLE_CALLEE), SNP_PREFIX), ((SNP_PREFIX, ROLE_CALLER), SNP_CALLER_PREFIX),
      ((TDX_PREFIX, ROLE_CALLEE), TDX_PREFIX), ((TDX_PREFIX, ROLE_CALLER), TDX_CALLER_PREFIX)]"

definition role_prefix :: "bytes \<Rightarrow> ustr \<Rightarrow> bytes res" where
  "role_prefix platform_prefix role =
     expect (map_of PREFIXES (platform_prefix, role))
       (Ca2a AttestationFailed (str ''attestation report names an unknown offer role'') None)"

text \<open>\<open>n.to_bytes(4, "big")\<close>.\<close>

definition be32 :: "nat \<Rightarrow> bytes" where
  "be32 n = [of_nat (n div 16777216), of_nat (n div 65536 mod 256), of_nat (n div 256 mod 256), of_nat (n mod 256)]"

definition length_prefixed :: "bytes \<Rightarrow> bytes res" where
  "length_prefixed b = (if length b < 4294967296 then Inr (be32 (length b) @ b) else Inl (PyExn OverflowError))"

definition encode :: "ustr \<Rightarrow> bytes res" where
  "encode s = expect (utf8 s) (PyExn UnicodeEncodeError)"

definition binding_input :: "bytes \<Rightarrow> ustr \<Rightarrow> ustr \<Rightarrow> bytes res" where
  "binding_input prefix public_key nonce =
     bindE (encode public_key) (\<lambda>k.
     bindE (encode nonce) (\<lambda>n.
     bindE (length_prefixed k) (\<lambda>kp.
     bindE (length_prefixed n) (\<lambda>np. Inr (prefix @ kp @ np)))))"

definition derive_binding :: "bytes \<Rightarrow> ustr \<Rightarrow> ustr \<Rightarrow> bytes res" where
  "derive_binding prefix public_key nonce =
     bindE (binding_input prefix public_key nonce) (\<lambda>b. Inr (sha256 b))"

definition pad_report_data :: "bytes \<Rightarrow> nat \<Rightarrow> bytes res" where
  "pad_report_data digest n =
     (if length digest > n then Inl (PyExn ValueError) else Inr (digest @ replicate (n - length digest) 0))"

definition SOFTWARE_ONLY :: ustr where
  "SOFTWARE_ONLY = str ''software-only''"

definition SOFTWARE_MEASUREMENT :: ustr where
  "SOFTWARE_MEASUREMENT = str ''software-only-no-hardware-guarantee''"

definition software_detect :: bool where
  "software_detect = False"

definition software_attest :: "ustr \<Rightarrow> ustr \<Rightarrow> ustr \<Rightarrow> attestation_report res" where
  "software_attest public_key nonce role = Inr
     \<lparr>ar_platform = SOFTWARE_ONLY, ar_measurement = SOFTWARE_MEASUREMENT, ar_public_key = public_key,
      ar_nonce = nonce, ar_raw_evidence = None, ar_quote_signature = None, ar_key_pem = None,
      ar_key_chain_pem = None, ar_role = role\<rparr>"

section \<open>The provider interface\<close>

text \<open>What \<open>BaseProvider.attest\<close> promises of the report it returns.\<close>

locale attestation_provider =
  fixes attest :: "ustr \<Rightarrow> ustr \<Rightarrow> ustr \<Rightarrow> attestation_report res" and platform :: ustr
  assumes attest_binds: "attest k n r = Inr rep \<Longrightarrow>
    ar_public_key rep = k \<and> ar_nonce rep = n \<and> ar_role rep = r \<and> ar_platform rep = platform"
begin

lemma attest_inj: "attest k n r = Inr rep \<Longrightarrow> attest k' n' r' = Inr rep \<Longrightarrow> k = k' \<and> n = n' \<and> r = r'"
  using attest_binds by blast

end

interpretation software: attestation_provider software_attest SOFTWARE_ONLY
  by unfold_locales (auto simp: software_attest_def)

section \<open>The binding determines its inputs\<close>

lemma be32_length [simp]: "length (be32 n) = 4"
  by (simp add: be32_def)

lemma of_nat_byte_eq: "m < 256 \<Longrightarrow> n < 256 \<Longrightarrow> (of_nat m :: byte) = of_nat n \<longleftrightarrow> m = n"
  using map_of_nat_byte_inj [of "[m]" "[n]"] by auto

lemma be32_inj:
  assumes "be32 m = be32 n" and "m < 4294967296" and "n < 4294967296"
  shows "m = n"
proof -
  have a: "m div 16777216 = n div 16777216"
    using assms by (simp add: be32_def of_nat_byte_eq less_mult_imp_div_less)
  have b: "m div 65536 mod 256 = n div 65536 mod 256" "m div 256 mod 256 = n div 256 mod 256" "m mod 256 = n mod 256"
    using assms(1) by (simp_all add: be32_def of_nat_byte_eq)
  have d: "x div 16777216 = x div 65536 div 256" "x div 65536 = x div 256 div 256" for x :: nat
    by (simp_all flip: div_mult2_eq)
  have join: "x = y" if "x div 256 = y div 256" "x mod 256 = y mod 256" for x y :: nat
    using that by (metis div_mult_mod_eq)
  from a b(1) have "m div 65536 = n div 65536" unfolding d(1) by (rule join)
  then have "m div 256 = n div 256" using b(2) unfolding d(2) by (rule join)
  then show ?thesis using b(3) by (rule join)
qed

lemma length_prefixed_append:
  assumes "length_prefixed a = Inr x" and "length_prefixed b = Inr y" and "x @ u = y @ v"
  shows "a = b \<and> u = v"
proof -
  from assms have la: "length a < 4294967296" and lb: "length b < 4294967296"
    and x: "x = be32 (length a) @ a" and y: "y = be32 (length b) @ b"
    by (auto simp: length_prefixed_def split: if_splits)
  from assms(3) x y have be: "be32 (length a) = be32 (length b)" and rest: "a @ u = b @ v" by auto
  from be32_inj [OF be la lb] rest show ?thesis by simp
qed

definition binding_prefixes :: "bytes list" where
  "binding_prefixes = map snd PREFIXES"

lemmas prefix_defs = TPM_PREFIX_def SNP_PREFIX_def TDX_PREFIX_def TPM_CALLER_PREFIX_def
  SNP_CALLER_PREFIX_def TDX_CALLER_PREFIX_def ascii_bytes_def

lemma binding_prefix_free:
  assumes "p \<in> set binding_prefixes" and "q \<in> set binding_prefixes" and "p @ u = q @ v"
  shows "p = q"
  using assms unfolding binding_prefixes_def PREFIXES_def
  by (simp add: prefix_defs str_simps) (elim disjE; simp)

lemma role_prefix_in: "role_prefix pp r = Inr p \<Longrightarrow> p \<in> set binding_prefixes"
  unfolding role_prefix_def expect_iff binding_prefixes_def set_map by (metis image_eqI map_of_SomeD snd_conv)

lemma binding_input_inj:
  assumes "binding_input p k n = Inr b" and "binding_input q l m = Inr b"
    and "p \<in> set binding_prefixes" and "q \<in> set binding_prefixes"
  shows "p = q \<and> k = l \<and> n = m"
proof -
  from assms(1) obtain bk bn xk xn where p: "utf8 k = Some bk" "utf8 n = Some bn" "length_prefixed bk = Inr xk"
      "length_prefixed bn = Inr xn" "b = p @ xk @ xn"
    by (auto simp: binding_input_def encode_def guard_simps)
  from assms(2) obtain cl cm yl ym where q: "utf8 l = Some cl" "utf8 m = Some cm" "length_prefixed cl = Inr yl"
      "length_prefixed cm = Inr ym" "b = q @ yl @ ym"
    by (auto simp: binding_input_def encode_def guard_simps)
  from p(5) q(5) have pq: "p = q" using binding_prefix_free [OF assms(3,4), of "xk @ xn" "yl @ ym"] by simp
  with p(5) q(5) have "xk @ xn = yl @ ym" by simp
  from length_prefixed_append [OF p(3) q(3) this] have "bk = cl" and t: "xn @ [] = ym @ []" by simp_all
  moreover from length_prefixed_append [OF p(4) q(4) t] have "bn = cm" by simp
  ultimately show ?thesis using pq p q by (blast dest: utf8_inj)
qed

lemma role_prefix_inj:
  assumes "role_prefix pp r = Inr p" and "role_prefix pp' r' = Inr p"
  shows "pp = pp' \<and> r = r'"
proof -
  have "distinct (map snd PREFIXES)"
    by (simp add: PREFIXES_def prefix_defs str_simps)
  moreover from assms have "((pp, r), p) \<in> set PREFIXES" "((pp', r'), p) \<in> set PREFIXES"
    by (auto simp: role_prefix_def expect_iff dest: map_of_SomeD)
  ultimately have "(pp, r) = (pp', r')"
    by (metis (no_types, lifting) distinct_map inj_on_def snd_conv fst_conv)
  then show ?thesis by simp
qed

lemma pad_report_data_Inr:
  "pad_report_data d n = Inr x \<longleftrightarrow> length d \<le> n \<and> x = d @ replicate (n - length d) 0"
  by (auto simp: pad_report_data_def)

lemma pad_report_data_inj:
  assumes "pad_report_data d n = Inr x" and "pad_report_data e n = Inr x" and "length d = length e"
  shows "d = e"
  using assms by (auto simp: pad_report_data_Inr)

lemma binding_input_ok:
  assumes "list_all (\<lambda>c. c < 128) k" and "list_all (\<lambda>c. c < 128) n"
    and "length k < 4294967296" and "length n < 4294967296"
  shows "\<exists>b. binding_input p k n = Inr b"
  using assms by (simp add: binding_input_def encode_def utf8_ascii length_prefixed_def)

section \<open>Properties\<close>

text \<open>
  The binding digest commits prefix, channel key and nonce: two digests are equal exactly when
  all three are, or the two digested byte strings are a SHA-256 collision. The length prefixes make
  this hold for every key and nonce text, delimiters included.
\<close>

theorem binding_commits:
  assumes "binding_input p k n = Inr a" and "binding_input q l m = Inr b"
    and "p \<in> set binding_prefixes" and "q \<in> set binding_prefixes"
  shows "derive_binding p k n = derive_binding q l m \<longleftrightarrow> (p, k, n) = (q, l, m) \<or> sha256_collision a b"
proof -
  have d: "derive_binding p k n = Inr (sha256 a)" "derive_binding q l m = Inr (sha256 b)"
    using assms(1,2) by (simp_all add: derive_binding_def)
  have "a = b \<longleftrightarrow> (p, k, n) = (q, l, m)"
  proof
    assume "a = b"
    then show "(p, k, n) = (q, l, m)" using binding_input_inj [OF assms(1) _ assms(3,4)] assms(2) by blast
  next
    assume "(p, k, n) = (q, l, m)"
    with assms(1,2) show "a = b" by simp
  qed
  then show ?thesis unfolding d by (auto simp only: sum.inject sha256_collision_def)
qed

theorem binding_commits_witness:
  "\<exists>a b. binding_input TPM_PREFIX (str ''a|b'') (str ''c'') = Inr a \<and> binding_input TPM_PREFIX (str ''a'') (str ''b|c'') = Inr b \<and>
     (derive_binding TPM_PREFIX (str ''a|b'') (str ''c'') = derive_binding TPM_PREFIX (str ''a'') (str ''b|c'') \<longleftrightarrow>
      sha256_collision a b)"
proof -
  have ascii: "list_all (\<lambda>c. c < 128) (str ''a|b'')" "list_all (\<lambda>c. c < 128) (str ''b|c'')"
      "list_all (\<lambda>c. c < 128) (str ''a'')" "list_all (\<lambda>c. c < 128) (str ''c'')"
    by (simp_all add: str_simps)
  obtain a where a: "binding_input TPM_PREFIX (str ''a|b'') (str ''c'') = Inr a"
    using binding_input_ok [OF ascii(1) ascii(4)] by auto
  obtain b where b: "binding_input TPM_PREFIX (str ''a'') (str ''b|c'') = Inr b"
    using binding_input_ok [OF ascii(3) ascii(2)] by auto
  have p: "TPM_PREFIX \<in> set binding_prefixes" by (simp add: binding_prefixes_def PREFIXES_def)
  from binding_commits [OF a b p p] a b show ?thesis by simp
qed

text \<open>
  The roles of an offer are separated on every platform: a binding prefix belongs to one
  platform and one role, so a callee offer and a caller offer never commit the same bytes.
\<close>

theorem roles_separated:
  assumes "role_prefix pp r = Inr p" and "role_prefix pp' r' = Inr q" and "r \<noteq> r' \<or> pp \<noteq> pp'"
    and "binding_input p k n = Inr a" and "binding_input q l m = Inr b"
  shows "a \<noteq> b"
proof
  assume "a = b"
  then have "p = q"
    using binding_input_inj [OF assms(4) _ role_prefix_in [OF assms(1)] role_prefix_in [OF assms(2)]] assms(5) by blast
  with role_prefix_inj [OF assms(1)] assms(2,3) show False by blast
qed

theorem roles_separated_witness:
  "role_prefix TPM_PREFIX ROLE_CALLEE = Inr TPM_PREFIX \<and> role_prefix TPM_PREFIX ROLE_CALLER = Inr TPM_CALLER_PREFIX \<and>
   (\<exists>a b. binding_input TPM_PREFIX [] [] = Inr a \<and> binding_input TPM_CALLER_PREFIX [] [] = Inr b \<and> a \<noteq> b)"
proof -
  have r: "role_prefix TPM_PREFIX ROLE_CALLEE = Inr TPM_PREFIX" "role_prefix TPM_PREFIX ROLE_CALLER = Inr TPM_CALLER_PREFIX"
    by (simp_all add: role_prefix_def PREFIXES_def ROLE_CALLER_def ROLE_CALLEE_def)
  obtain a b where ab: "binding_input TPM_PREFIX [] [] = Inr a" "binding_input TPM_CALLER_PREFIX [] [] = Inr b"
    by (simp add: binding_input_def encode_def utf8_def length_prefixed_def)
  have "ROLE_CALLEE \<noteq> ROLE_CALLER \<or> TPM_PREFIX \<noteq> TPM_PREFIX" by (simp add: ROLE_CALLER_def ROLE_CALLEE_def)
  from roles_separated [OF r this ab] r ab show ?thesis by blast
qed

end
