(* ===== verification/Challenge.thy ===== *)
theory Challenge
  imports Extern
begin

text \<open>
  Stateless challenges, \<open>ca2a_runtime/challenge.py\<close>: a challenge is
  \<open>v1.<expiry>.<random>.<mac>\<close> with an HMAC-SHA-256 under the peer's secret. The clock and the
  random bytes are arguments. \<open>py_int\<close> models \<open>int(text)\<close>, with its surrounding
  whitespace, sign, underscores, decimal digits of other scripts and its limit on digits.
\<close>

section \<open>Standard library: split and int\<close>

fun split_on :: "nat \<Rightarrow> ustr \<Rightarrow> ustr list" where
  "split_on c [] = [[]]"
| "split_on c (x # xs) =
     (if x = c then [] # split_on c xs
      else (case split_on c xs of [] \<Rightarrow> [[x]] | y # ys \<Rightarrow> (x # y) # ys))"

definition INT_MAX_STR_DIGITS :: nat where
  "INT_MAX_STR_DIGITS = 4300"

text \<open>Spaces and digits of other scripts become their ASCII forms; anything else is refused.\<close>

definition to_ascii :: "lib \<Rightarrow> nat \<Rightarrow> nat option" where
  "to_ascii L c =
     (if c < 127 then Some c
      else if uni_space L c then Some 32
      else map_option (\<lambda>d. 48 + d) (uni_decimal L c))"

fun all_ascii :: "lib \<Rightarrow> ustr \<Rightarrow> ustr option" where
  "all_ascii L [] = Some []"
| "all_ascii L (c # cs) =
     (case (to_ascii L c, all_ascii L cs) of (Some d, Some ds) \<Rightarrow> Some (d # ds) | _ \<Rightarrow> None)"

definition strip_spaces :: "ustr \<Rightarrow> ustr" where
  "strip_spaces s = rev (dropWhile is_space (rev (dropWhile is_space s)))"

definition digit_run :: "ustr \<Rightarrow> bool" where
  "digit_run s \<longleftrightarrow>
     s \<noteq> [] \<and> list_all (\<lambda>c. is_digit c \<or> c = 95) s \<and> hd s \<noteq> 95 \<and> last s \<noteq> 95 \<and>
     successively (\<lambda>a b. \<not> (a = 95 \<and> b = 95)) s"

definition parse_nat :: "ustr \<Rightarrow> nat option" where
  "parse_nat s =
     (let ds = filter (\<lambda>c. c \<noteq> 95) s
      in if digit_run s \<and> length ds \<le> INT_MAX_STR_DIGITS then Some (digits_val ds) else None)"

definition parse_signed :: "ustr \<Rightarrow> int option" where
  "parse_signed s =
     (case s of
        [] \<Rightarrow> None
      | c # cs \<Rightarrow>
          if c = 45 then map_option (\<lambda>n. - int n) (parse_nat cs)
          else if c = 43 then map_option int (parse_nat cs)
          else map_option int (parse_nat s))"

definition py_int :: "lib \<Rightarrow> ustr \<Rightarrow> int option" where
  "py_int L s = (case all_ascii L s of None \<Rightarrow> None | Some t \<Rightarrow> parse_signed (strip_spaces t))"

section \<open>Challenges\<close>

definition DEFAULT_TTL_SECONDS :: int where
  "DEFAULT_TTL_SECONDS = 60"

definition challenge_prefix :: ustr where
  "challenge_prefix = str ''v1''"

definition challenge_text :: "int \<Rightarrow> ustr \<Rightarrow> ustr" where
  "challenge_text expiry rand = challenge_prefix @ [46] @ int_str expiry @ [46] @ rand"

definition mac :: "bytes \<Rightarrow> int \<Rightarrow> ustr \<Rightarrow> ustr res" where
  "mac secret expiry rand =
     (case utf8 (challenge_text expiry rand) of
        None \<Rightarrow> Inl (PyExn UnicodeEncodeError)
      | Some b \<Rightarrow> Inr (hmac_sha256_hex secret b))"

text \<open>\<open>clock\<close> is \<open>int(time.time())\<close> and \<open>rnd\<close> the 16 bytes of \<open>secrets.token_hex\<close>.\<close>

definition issue_challenge :: "bytes \<Rightarrow> int \<Rightarrow> int \<Rightarrow> bytes \<Rightarrow> ustr res" where
  "issue_challenge secret ttl_seconds clock rnd =
     (if ttl_seconds \<le> 0 then Inl (PyExn ValueError)
      else let expiry = clock + ttl_seconds; rand = hex rnd
           in bindE (mac secret expiry rand) (\<lambda>m. Inr (challenge_text expiry rand @ [46] @ m)))"

definition verify_challenge :: "lib \<Rightarrow> bytes \<Rightarrow> ustr \<Rightarrow> int \<Rightarrow> unit res" where
  "verify_challenge L secret challenge now =
     (case split_on 46 challenge of
        [prefix, expiry_str, rand, m] \<Rightarrow>
          if prefix \<noteq> challenge_prefix then raise AttestationFailed ''challenge is malformed''
          else if \<not> lower_hex_of_len 64 m then raise AttestationFailed ''challenge is malformed''
          else (case py_int L expiry_str of
                  None \<Rightarrow> raise AttestationFailed ''challenge expiry is not an integer''
                | Some expiry \<Rightarrow>
                    bindE (mac secret expiry rand) (\<lambda>expected.
                    if m \<noteq> expected then raise AttestationFailed ''challenge was not issued by this peer''
                    else if now \<ge> expiry then raise AttestationFailed ''challenge has expired''
                    else Inr ()))
      | _ \<Rightarrow> raise AttestationFailed ''challenge is malformed'')"

section \<open>Splitting and numbers\<close>

lemma split_on_nonempty [simp]: "split_on c s \<noteq> []"
  by (cases s) (auto split: list.splits)

lemma split_on_none: "c \<notin> set a \<Longrightarrow> split_on c a = [a]"
  by (induction a) auto

lemma split_on_sep: "c \<notin> set a \<Longrightarrow> split_on c (a @ c # b) = a # split_on c b"
  by (induction a) auto

lemma join_split: "join [c] (split_on c s) = s"
proof (induction s)
  case (Cons x xs)
  obtain y ys where s: "split_on c xs = y # ys" by (cases "split_on c xs") auto
  with Cons show ?case by (cases ys) auto
qed simp

lemma digits_no_dot: "\<forall>c \<in> set s. is_digit c \<Longrightarrow> 46 \<notin> set s"
  by (auto simp: is_digit_def)

lemma lower_hex_no_dot: "list_all is_lower_hex s \<Longrightarrow> 46 \<notin> set s"
  by (auto simp: list_all_iff is_lower_hex_def)

lemma int_str_no_dot: "46 \<notin> set (int_str i)"
  using digits_no_dot [OF nat_str_digits] by (simp add: int_str_def)

lemma all_ascii_id: "list_all (\<lambda>c. c < 127) s \<Longrightarrow> all_ascii L s = Some s"
  by (induction s) (simp_all add: to_ascii_def)

lemma strip_spaces_id:
  assumes "s \<noteq> []" and "\<not> is_space (hd s)" and "\<not> is_space (last s)"
  shows "strip_spaces s = s"
proof -
  have "dropWhile is_space s = s" using assms by (cases s) auto
  moreover have "dropWhile is_space (rev s) = rev s"
    using assms by (cases s rule: rev_cases) auto
  ultimately show ?thesis by (simp add: strip_spaces_def)
qed

lemma digit_not_special: "is_digit c \<Longrightarrow> \<not> is_space c \<and> c \<noteq> 95 \<and> c \<noteq> 45 \<and> c \<noteq> 43 \<and> c < 127"
  by (auto simp: is_digit_def is_space_def)

lemma parse_nat_digits:
  assumes "\<forall>c \<in> set s. is_digit c" and "s \<noteq> []" and "length s \<le> INT_MAX_STR_DIGITS"
  shows "parse_nat s = Some (digits_val s)"
proof -
  have n: "\<forall>c \<in> set s. c \<noteq> 95" using assms(1) digit_not_special by blast
  then have f: "filter (\<lambda>c. c \<noteq> 95) s = s" by simp
  have "successively (\<lambda>a b. \<not> (a = 95 \<and> b = 95)) s"
    using n by (induction s) (auto simp: successively_Cons)
  with assms n have "digit_run s" by (auto simp: digit_run_def list_all_iff)
  with assms(3) f show ?thesis by (simp add: parse_nat_def)
qed

lemma nat_str_length:
  assumes "n < 10 ^ k" and "0 < k"
  shows "length (nat_str n) \<le> k"
  using assms
proof (induction k arbitrary: n)
  case (Suc k)
  show ?case
  proof (cases "n < 10")
    case True
    then show ?thesis by (simp add: nat_str.simps [of n])
  next
    case False
    with Suc.prems have "0 < k" by (cases k) auto
    moreover from Suc.prems have "n div 10 < 10 ^ k" by (simp add: less_mult_imp_div_less mult.commute)
    ultimately have "length (nat_str (n div 10)) \<le> k" by (rule Suc.IH [rotated])
    with False show ?thesis by (simp add: nat_str.simps [of n])
  qed
qed simp

lemma py_int_int_str:
  assumes "\<bar>i\<bar> < 10 ^ INT_MAX_STR_DIGITS"
  shows "py_int L (int_str i) = Some i"
proof -
  define n where "n = nat \<bar>i\<bar>"
  have "int n < int (10 ^ INT_MAX_STR_DIGITS)" using assms by (simp add: n_def)
  then have "n < 10 ^ INT_MAX_STR_DIGITS" unfolding of_nat_less_iff .
  moreover have "0 < INT_MAX_STR_DIGITS" by (simp add: INT_MAX_STR_DIGITS_def)
  ultimately have len: "length (nat_str n) \<le> INT_MAX_STR_DIGITS" by (rule nat_str_length)
  have p: "parse_nat (nat_str n) = Some n"
    using parse_nat_digits [OF nat_str_digits nat_str_nonempty len] by (simp add: digits_val_nat_str)
  have d: "\<forall>c \<in> set (nat_str n). is_digit c" by (rule nat_str_digits)
  have hd: "is_digit (hd (nat_str n))" "is_digit (last (nat_str n))" using d by simp_all
  have eq: "int_str i = (if i < 0 then 45 # nat_str n else nat_str n)" by (simp add: int_str_def n_def)
  have "list_all (\<lambda>c. c < 127) (int_str i)"
    using d digit_not_special by (auto simp: eq list_all_iff)
  moreover have "strip_spaces (int_str i) = int_str i"
    using hd digit_not_special by (intro strip_spaces_id) (auto simp: eq is_space_def)
  moreover have "parse_signed (int_str i) = Some i"
  proof (cases "i < 0")
    case True
    then show ?thesis using p by (simp add: eq parse_signed_def) (simp add: n_def)
  next
    case False
    obtain c cs where c: "nat_str n = c # cs" by (cases "nat_str n") auto
    with hd(1) digit_not_special [of c] False p show ?thesis
      by (simp add: eq parse_signed_def) (simp add: n_def)
  qed
  ultimately show ?thesis by (simp add: py_int_def all_ascii_id)
qed

section \<open>Behaviour\<close>

lemma mac_Inr_iff:
  "mac secret e r = Inr m \<longleftrightarrow> (\<exists>b. utf8 (challenge_text e r) = Some b \<and> m = hmac_sha256_hex secret b)"
  by (auto simp: mac_def split: option.splits)

lemma mac_lower: "mac secret e r = Inr m \<Longrightarrow> lower_hex_of_len 64 m"
  by (auto simp: mac_Inr_iff)

lemma challenge_text_ascii: "list_all (\<lambda>c. c < 128) r \<Longrightarrow> \<exists>b. utf8 (challenge_text e r) = Some b"
proof -
  assume "list_all (\<lambda>c. c < 128) r"
  moreover have "list_all (\<lambda>c. c < 128) (int_str e)"
    using digits_ascii [OF nat_str_digits] by (simp add: int_str_def)
  ultimately have "list_all (\<lambda>c. c < 128) (challenge_text e r)"
    by (simp add: challenge_text_def challenge_prefix_def str_simps)
  then show ?thesis by (auto dest: utf8_ascii)
qed

text \<open>What acceptance means.\<close>

definition challenge_ours :: "bytes \<Rightarrow> int \<Rightarrow> ustr \<Rightarrow> ustr \<Rightarrow> bool" where
  "challenge_ours secret expiry rand m \<longleftrightarrow> mac secret expiry rand = Inr m"

lemma verify_challenge_Inr_iff:
  "verify_challenge L secret ch now = Inr u \<longleftrightarrow>
     (\<exists>e r m expiry. split_on 46 ch = [challenge_prefix, e, r, m] \<and> py_int L e = Some expiry \<and>
        challenge_ours secret expiry r m \<and> now < expiry)"
  by (auto simp: verify_challenge_def challenge_ours_def bindE_Inr_iff dest: mac_lower
      split: list.splits option.splits if_splits)

lemma verify_challenge_exn:
  "verify_challenge L secret ch now = Inl e \<Longrightarrow>
     (exn_class e = Some AttestationFailed \<or> e = PyExn UnicodeEncodeError) \<and> exn_record e = None"
  by (auto simp: verify_challenge_def mac_def bindE_Inl_iff split: list.splits option.splits if_splits)

lemma issue_challenge_split:
  assumes "issue_challenge secret ttl clock rnd = Inr ch"
  shows "\<exists>m. split_on 46 ch = [challenge_prefix, int_str (clock + ttl), hex rnd, m] \<and>
             challenge_ours secret (clock + ttl) (hex rnd) m \<and> 0 < ttl"
proof -
  from assms obtain m where m: "mac secret (clock + ttl) (hex rnd) = Inr m" and t: "0 < ttl"
    and ch: "ch = challenge_text (clock + ttl) (hex rnd) @ [46] @ m"
    by (auto simp: issue_challenge_def Let_def bindE_Inr_iff split: if_splits)
  have "46 \<notin> set challenge_prefix" by (simp add: challenge_prefix_def str_simps)
  moreover have "46 \<notin> set (hex rnd)" by (rule lower_hex_no_dot [OF hex_lower])
  moreover have "46 \<notin> set m" using mac_lower [OF m] by (simp add: lower_hex_of_len_def lower_hex_no_dot)
  ultimately have "split_on 46 ch = [challenge_prefix, int_str (clock + ttl), hex rnd, m]"
    by (simp add: ch challenge_text_def split_on_sep split_on_none int_str_no_dot)
  with m t show ?thesis by (auto simp: challenge_ours_def)
qed

lemma issue_challenge_ok: "0 < ttl \<Longrightarrow> \<exists>ch. issue_challenge secret ttl clock rnd = Inr ch"
  using challenge_text_ascii [OF lower_hex_ascii [OF hex_lower [of rnd]], of "clock + ttl"]
  by (auto simp: issue_challenge_def mac_def Let_def)

lemma issued_verifies_iff:
  assumes "issue_challenge secret ttl clock rnd = Inr ch" and "\<bar>clock + ttl\<bar> < 10 ^ INT_MAX_STR_DIGITS"
  shows "verify_challenge L secret ch now = Inr () \<longleftrightarrow> now < clock + ttl"
  using issue_challenge_split [OF assms(1)] py_int_int_str [OF assms(2), of L]
  by (auto simp: verify_challenge_Inr_iff)

section \<open>A sample challenge\<close>

definition sample_challenge :: ustr where
  "sample_challenge = (case issue_challenge [1] 60 100 (replicate 16 7) of Inr ch \<Rightarrow> ch | Inl _ \<Rightarrow> [])"

lemma sample_challenge_issued: "issue_challenge [1] 60 100 (replicate 16 7) = Inr sample_challenge"
proof -
  have "(0 :: int) < 60" by simp
  from issue_challenge_ok [OF this] show ?thesis unfolding sample_challenge_def by (metis sum.simps(6))
qed

lemma sample_expiry_readable: "\<bar>100 + 60 :: int\<bar> < 10 ^ INT_MAX_STR_DIGITS"
proof -
  have "(10 :: int) ^ 3 \<le> 10 ^ INT_MAX_STR_DIGITS"
    by (rule power_increasing) (simp_all add: INT_MAX_STR_DIGITS_def)
  moreover have "\<bar>100 + 60 :: int\<bar> < 10 ^ 3" by simp
  ultimately show ?thesis by (rule less_le_trans [rotated])
qed

lemma sample_challenge_verifies: "verify_challenge L [1] sample_challenge 120 = Inr ()"
  using issue_challenge_split [OF sample_challenge_issued] py_int_int_str [OF sample_expiry_readable, of L]
  by (auto simp: verify_challenge_Inr_iff)

section \<open>Properties\<close>

text \<open>
  A challenge this peer issued verifies under its secret from the moment of issue until, and
  not at or after, its expiry, for every clock whose value \<open>int()\<close> can read.
\<close>

theorem challenge_window:
  assumes "issue_challenge secret ttl clock rnd = Inr ch" and "\<bar>clock + ttl\<bar> < 10 ^ INT_MAX_STR_DIGITS"
  shows "verify_challenge L secret ch now = Inr () \<longleftrightarrow> now < clock + ttl"
  using assms by (rule issued_verifies_iff)

theorem challenge_window_witness:
  "verify_challenge sample_lib [1] sample_challenge 159 = Inr () \<and>
   verify_challenge sample_lib [1] sample_challenge 160 \<noteq> Inr ()"
  using challenge_window [OF sample_challenge_issued sample_expiry_readable] by simp

text \<open>
  An accepted challenge carries this peer's MAC over the expiry and random part it names, and
  has not expired: the expiry that is acted on is an authenticated one.
\<close>

theorem challenge_authenticated:
  assumes "verify_challenge L secret ch now = Inr ()"
  shows "\<exists>e r expiry b. ch = join [46] [challenge_prefix, e, r, hmac_sha256_hex secret b] \<and>
           py_int L e = Some expiry \<and> now < expiry \<and> utf8 (challenge_text expiry r) = Some b"
proof -
  from assms obtain e r m expiry where s: "split_on 46 ch = [challenge_prefix, e, r, m]"
    and e: "py_int L e = Some expiry" "now < expiry" and m: "challenge_ours secret expiry r m"
    unfolding verify_challenge_Inr_iff by blast
  from join_split [of 46 ch] s have "ch = join [46] [challenge_prefix, e, r, m]" by simp
  with e m show ?thesis by (auto simp: challenge_ours_def mac_Inr_iff)
qed

theorem challenge_authenticated_witness:
  "\<exists>e r expiry b. sample_challenge = join [46] [challenge_prefix, e, r, hmac_sha256_hex [1] b] \<and>
     py_int sample_lib e = Some expiry \<and> 120 < expiry \<and> utf8 (challenge_text expiry r) = Some b"
  by (rule challenge_authenticated [OF sample_challenge_verifies])

text \<open>
  The one way verification leaves its \<open>AttestationFailed\<close> contract: a challenge in the right
  shape whose random part cannot be encoded, such as a lone surrogate, raises
  UnicodeEncodeError from \<open>_mac\<close>. Every other refusal is an \<open>AttestationFailed\<close>.
\<close>

theorem challenge_refusals:
  assumes "verify_challenge L secret ch now = Inl e"
  shows "exn_class e = Some AttestationFailed \<or>
    e = PyExn UnicodeEncodeError \<and>
      (\<exists>x r m. split_on 46 ch = [challenge_prefix, x, r, m] \<and> lower_hex_of_len 64 m \<and> \<not> list_all encodable r)"
proof -
  have utf: "utf8 (challenge_text n r) = None \<Longrightarrow> \<not> list_all encodable r" for n r
    using encodable_int_str [of n]
    by (auto simp: utf8_def challenge_text_def challenge_prefix_def encodable_ascii split: if_splits)
  show ?thesis using assms utf
    by (auto simp: verify_challenge_def mac_def bindE_Inl_iff
        split: list.splits option.splits if_splits)
qed

theorem challenge_refusals_witness:
  "verify_challenge sample_lib [1] (str ''v1.5.'' @ [55296, 46] @ sha256_hex []) 3 = Inl (PyExn UnicodeEncodeError)"
proof -
  let ?ch = "str ''v1.5.'' @ [55296, 46] @ sha256_hex []"
  have "46 \<notin> set (sha256_hex [])"
    using lower_hex_no_dot [OF hex_lower, of "sha256 []"] by (simp add: sha256_hex_def)
  then have s: "split_on 46 (str ''v1.5.'' @ 55296 # 46 # sha256_hex []) = [challenge_prefix, [53], [55296], sha256_hex []]"
    by (simp add: str_simps split_on_none challenge_prefix_def)
  have "py_int sample_lib [53] = Some 5"
    by (simp add: py_int_def to_ascii_def strip_spaces_def is_space_def parse_signed_def parse_nat_def digit_run_def
        is_digit_def digits_val_def INT_MAX_STR_DIGITS_def)
  moreover have "utf8 (challenge_text 5 [55296]) = None"
    by (simp add: utf8_def challenge_text_def encodable_def is_surrogate_def)
  ultimately have "verify_challenge sample_lib [1] ?ch 3 = Inl (PyExn UnicodeEncodeError)"
    by (simp add: verify_challenge_def s mac_def del: split_on.simps)
  with challenge_refusals [OF this] show ?thesis by simp
qed

end
