(* ===== verification/Documents.thy ===== *)
theory Documents
  imports Extern
begin

text \<open>
  The contract of a signed or hashed document: its body is a dict of plain values, and the part of
  the object that matters (\<open>core\<close>) can be read back from the body. From it follow, once for every
  kind of document, that equal canonical bytes and equal digests mean equal content and that a
  signature check can only fail in the ways the callers catch.
\<close>

definition str_list :: "ustr fset \<Rightarrow> json" where
  "str_list s = JList (map JStr (sorted_list_of_fset s))"

lemma jnorm_str_list [simp]: "jnorm (str_list s) = str_list s"
  by (simp add: str_list_def)

lemma str_list_eq_iff [simp]: "str_list s = str_list t \<longleftrightarrow> s = t"
proof
  assume "str_list s = str_list t"
  then have "map JStr (sorted_list_of_fset s) = map JStr (sorted_list_of_fset t)"
    by (simp add: str_list_def)
  then have "sorted_list_of_fset s = sorted_list_of_fset t" by simp
  then show "s = t" by (metis sorted_list_of_fset_simps(2))
qed simp

lemma plain_str_list [simp]: "plain (str_list s)"
  by (simp add: str_list_def list_all_iff)

lemma json_ok_str_list [simp]: "json_ok (str_list s) \<longleftrightarrow> (\<forall>x \<in> fset s. list_all encodable x)"
  by (auto simp: str_list_def list_all_iff)

lemma jnorm_opt_str [simp]: "jnorm (opt_str s) = opt_str s"
  by (cases s) simp_all

lemma plain_opt_str [simp]: "plain (opt_str s)"
  by (cases s) simp_all

lemma json_ok_opt_str [simp]: "json_ok (opt_str s) \<longleftrightarrow> (\<forall>x. s = Some x \<longrightarrow> list_all encodable x)"
  by (cases s) simp_all

lemma encodable_hex [simp]: "list_all encodable (hex b)"
  using lower_hex_ascii [OF hex_lower [of b]] by (auto simp: list_all_iff intro: encodable_ascii)

lemma encodable_lower_hex: "lower_hex_of_len n s \<Longrightarrow> list_all encodable s"
  using lower_hex_ascii [of s] by (auto simp: lower_hex_of_len_def list_all_iff intro: encodable_ascii)

lemma fset_of_list_empty_iff [simp]: "fset_of_list xs = {||} \<longleftrightarrow> xs = []"
  by (cases xs) simp_all

lemma distinct_sorted_list_of_fset [simp]: "distinct (sorted_list_of_fset s)"
  by (simp add: sorted_list_of_fset.rep_eq)

lemma sorted_list_of_fset_empty_iff [simp]: "sorted_list_of_fset s = [] \<longleftrightarrow> s = {||}"
  by (metis fset_of_list_empty_iff sorted_list_of_fset_simps(2))

locale canonical_document =
  fixes body :: "'a \<Rightarrow> jdict" and core :: "'a \<Rightarrow> 'b"
  assumes body_wf: "dict_wf (body x)"
    and body_plain: "plain (JObj (body x))"
    and body_core: "(\<And>k. map_option jnorm (dict_get (body x) k) = map_option jnorm (dict_get (body y) k))
                    \<Longrightarrow> core x = core y"
begin

lemma same_bytes:
  assumes "canonicalize (JObj (body x)) = Inr b" and "canonicalize (JObj (body y)) = Inr b"
  shows "core x = core y"
  using canonicalize_get [OF assms body_wf body_wf] by (rule body_core)

lemma same_digest:
  assumes "canonicalize (JObj (body x)) = Inr a" and "canonicalize (JObj (body y)) = Inr b"
    and "sha256_hex a = sha256_hex b"
  shows "core x = core y \<or> sha256_collision a b"
  using assms same_bytes [of x b y] sha256_eqD [of a b] by auto

lemma check_exn: "ed25519_check L key sig (body x) = Inl e \<Longrightarrow> is_signature_error e"
  using body_plain by (rule ed25519_check_exn)

lemma catch_signature:
  "catchE (ed25519_check L key sig (body x)) is_signature_error (\<lambda>_. Inl err) =
     (if signature_ok L key sig (body x) then Inr () else Inl err)"
proof (cases "ed25519_check L key sig (body x)")
  case (Inl e)
  with check_exn [OF Inl] show ?thesis by (auto simp: signature_ok_def)
next
  case (Inr u)
  then show ?thesis by (simp add: signature_ok_def)
qed

end

end
