(* ===== verification/Credential.thy ===== *)
theory Credential
  imports Documents
begin

text \<open>
  The delegation credential of \<open>ca2a_runtime/delegation/credential.py\<close>: the dataclass and the
  checks of its constructor, the signed body, signing, signature verification and the strict
  parser of the wire form, with the encoder of \<open>transport/a2a_adapter.py\<close> that is its inverse.
  The field types of the dataclass are the types of the record, so the \<open>isinstance\<close> guards of
  \<open>__post_init__\<close> hold by typing and its range checks are what is modelled.
\<close>

record delegation_credential =
  cred_id :: ustr
  cred_issuer :: ustr
  cred_subject :: ustr
  cred_scope :: "ustr fset"
  cred_depth :: int
  cred_parent_id :: "ustr option"
  cred_signature :: ustr
  cred_not_before :: "int option"
  cred_not_after :: "int option"

section \<open>Operations\<close>

definition window_inverted :: "int option \<Rightarrow> int option \<Rightarrow> bool" where
  "window_inverted nb na = (case (nb, na) of (Some b, Some a) \<Rightarrow> b > a | _ \<Rightarrow> False)"

definition cred_post_init :: "delegation_credential \<Rightarrow> delegation_credential res" where
  "cred_post_init c =
     (if \<exists>b \<in> set_option (cred_not_before c). b < 0
      then raise InvalidCredential ''not_before must be a non-negative integer when present''
      else if \<exists>b \<in> set_option (cred_not_after c). b < 0
      then raise InvalidCredential ''not_after must be a non-negative integer when present''
      else if window_inverted (cred_not_before c) (cred_not_after c)
      then raise InvalidCredential ''validity window is inverted''
      else Inr c)"

definition opt_item :: "string \<Rightarrow> int option \<Rightarrow> jdict" where
  "opt_item k v = (case v of None \<Rightarrow> [] | Some i \<Rightarrow> [(str k, JInt i)])"

definition cred_body :: "delegation_credential \<Rightarrow> jdict" where
  "cred_body c =
     [(str ''credential_id'', JStr (cred_id c)),
      (str ''issuer'', JStr (cred_issuer c)),
      (str ''subject'', JStr (cred_subject c)),
      (str ''scope'', str_list (cred_scope c)),
      (str ''depth'', JInt (cred_depth c)),
      (str ''parent_id'', opt_str (cred_parent_id c))]
     @ opt_item ''not_before'' (cred_not_before c)
     @ opt_item ''not_after'' (cred_not_after c)"

definition cred_sign :: "lib \<Rightarrow> bytes \<Rightarrow> delegation_credential \<Rightarrow> delegation_credential res" where
  "cred_sign L private_key c =
     (if hex (ed_public L private_key) \<noteq> cred_issuer c
      then raise InvalidCredential ''signing key does not match credential issuer''
      else bindE (canonicalize (JObj (cred_body c))) (\<lambda>m.
           cred_post_init (c\<lparr>cred_signature := hex (ed_sign L private_key m)\<rparr>)))"

definition cred_verify_signature :: "lib \<Rightarrow> delegation_credential \<Rightarrow> unit res" where
  "cred_verify_signature L c =
     (if cred_signature c = [] then raise InvalidCredential ''credential is unsigned''
      else catchE (ed25519_check L (cred_issuer c) (cred_signature c) (cred_body c)) is_signature_error
             (\<lambda>_. raise InvalidCredential ''credential signature failed to verify''))"

definition REQUIRED_CREDENTIAL_FIELDS :: "ustr set" where
  "REQUIRED_CREDENTIAL_FIELDS =
     {str ''credential_id'', str ''issuer'', str ''subject'', str ''scope'', str ''depth'',
      str ''parent_id'', str ''signature''}"

definition OPTIONAL_CREDENTIAL_FIELDS :: "ustr set" where
  "OPTIONAL_CREDENTIAL_FIELDS = {str ''not_before'', str ''not_after''}"

definition nonempty_str :: "json \<Rightarrow> ustr option" where
  "nonempty_str v = (case as_str v of None \<Rightarrow> None | Some s \<Rightarrow> if s = [] then None else Some s)"

definition hex_str :: "nat \<Rightarrow> json \<Rightarrow> ustr option" where
  "hex_str n v = (case as_str v of None \<Rightarrow> None | Some s \<Rightarrow> if lower_hex_of_len n s then Some s else None)"

text \<open>A list of strings, and the guard on \<open>scope\<close>: non-empty, of unique non-empty strings.\<close>

fun all_strs :: "json list \<Rightarrow> ustr list option" where
  "all_strs [] = Some []"
| "all_strs (v # vs) =
     (case (nonempty_str v, all_strs vs) of (Some s, Some ss) \<Rightarrow> Some (s # ss) | _ \<Rightarrow> None)"

definition scope_strs :: "json \<Rightarrow> ustr list option" where
  "scope_strs v =
     (case as_list v of None \<Rightarrow> None
      | Some vs \<Rightarrow> (case all_strs vs of None \<Rightarrow> None
          | Some ss \<Rightarrow> if ss \<noteq> [] \<and> distinct ss then Some ss else None))"

definition opt_parent :: "json \<Rightarrow> ustr option option" where
  "opt_parent v = (if v = JNull then Some None else map_option Some (nonempty_str v))"

text \<open>A bound of the validity window: absent, or present as a non-negative integer.\<close>

definition opt_bound :: "jdict \<Rightarrow> ustr \<Rightarrow> int option option" where
  "opt_bound data k =
     (case dict_get data k of None \<Rightarrow> Some None | Some v \<Rightarrow> map_option Some (nonneg_int v))"

abbreviation invalid_credential :: "string \<Rightarrow> exn" where
  "invalid_credential m \<equiv> Ca2a InvalidCredential (str m) None"

definition cred_from_dict :: "json \<Rightarrow> delegation_credential res" where
  "cred_from_dict v =
     bindE (expect (as_obj v) (invalid_credential ''credential must be a JSON object'')) (\<lambda>data.
     bindE (require (dict_keys data \<subseteq> REQUIRED_CREDENTIAL_FIELDS \<union> OPTIONAL_CREDENTIAL_FIELDS
              \<and> REQUIRED_CREDENTIAL_FIELDS \<subseteq> dict_keys data)
              (invalid_credential ''malformed credential fields'')) (\<lambda>_.
     bindE (dict_item data (str ''credential_id'')) (\<lambda>credential_id.
     bindE (dict_item data (str ''issuer'')) (\<lambda>issuer.
     bindE (dict_item data (str ''subject'')) (\<lambda>subject.
     bindE (dict_item data (str ''scope'')) (\<lambda>scope.
     bindE (dict_item data (str ''depth'')) (\<lambda>depth.
     bindE (dict_item data (str ''parent_id'')) (\<lambda>parent_id.
     bindE (dict_item data (str ''signature'')) (\<lambda>signature.
     bindE (expect (nonempty_str credential_id)
              (invalid_credential ''credential_id must be a non-empty string'')) (\<lambda>credential_id.
     bindE (expect (hex_str 64 issuer)
              (invalid_credential ''issuer must be a lowercase 32-byte Ed25519 key in hex'')) (\<lambda>issuer.
     bindE (expect (hex_str 64 subject)
              (invalid_credential ''subject must be a lowercase 32-byte Ed25519 key in hex'')) (\<lambda>subject.
     bindE (expect (scope_strs scope)
              (invalid_credential ''scope must be a non-empty array of unique non-empty strings'')) (\<lambda>scope.
     bindE (expect (nonneg_int depth)
              (invalid_credential ''depth must be a non-negative integer'')) (\<lambda>depth.
     bindE (expect (opt_parent parent_id)
              (invalid_credential ''parent_id must be a non-empty string or null'')) (\<lambda>parent_id.
     bindE (expect (hex_str 128 signature)
              (invalid_credential ''signature must be a lowercase 64-byte Ed25519 signature in hex'')) (\<lambda>signature.
     bindE (expect (opt_bound data (str ''not_before''))
              (invalid_credential ''not_before must be a non-negative integer when present'')) (\<lambda>not_before.
     bindE (expect (opt_bound data (str ''not_after''))
              (invalid_credential ''not_after must be a non-negative integer when present'')) (\<lambda>not_after.
     bindE (require (\<not> window_inverted not_before not_after)
              (invalid_credential ''validity window is inverted'')) (\<lambda>_.
     cred_post_init \<lparr>cred_id = credential_id, cred_issuer = issuer, cred_subject = subject,
       cred_scope = fset_of_list scope, cred_depth = depth, cred_parent_id = parent_id,
       cred_signature = signature, cred_not_before = not_before, cred_not_after = not_after\<rparr>)))))))))))))))))))"

definition cred_to_dict :: "delegation_credential \<Rightarrow> jdict" where
  "cred_to_dict c = dict_set (str ''signature'') (JStr (cred_signature c)) (cred_body c)"

section \<open>The constructor\<close>

definition cred_wf :: "delegation_credential \<Rightarrow> bool" where
  "cred_wf c \<longleftrightarrow>
     (\<forall>b \<in> set_option (cred_not_before c). 0 \<le> b) \<and> (\<forall>b \<in> set_option (cred_not_after c). 0 \<le> b) \<and>
     \<not> window_inverted (cred_not_before c) (cred_not_after c)"

lemma cred_post_init_iff [guard_simps]: "cred_post_init c = Inr d \<longleftrightarrow> d = c \<and> cred_wf c"
  by (auto simp: cred_post_init_def cred_wf_def)

text \<open>What the parser accepts, field by field.\<close>

definition cred_wire_ok :: "delegation_credential \<Rightarrow> bool" where
  "cred_wire_ok c \<longleftrightarrow>
     cred_id c \<noteq> [] \<and> lower_hex_of_len 64 (cred_issuer c) \<and> lower_hex_of_len 64 (cred_subject c) \<and>
     cred_scope c \<noteq> {||} \<and> [] |\<notin>| cred_scope c \<and> 0 \<le> cred_depth c \<and> cred_parent_id c \<noteq> Some [] \<and>
     lower_hex_of_len 128 (cred_signature c) \<and> cred_wf c"

section \<open>The signed body\<close>

lemma cred_body_get:
  "dict_get (cred_body c) (str ''credential_id'') = Some (JStr (cred_id c))"
  "dict_get (cred_body c) (str ''issuer'') = Some (JStr (cred_issuer c))"
  "dict_get (cred_body c) (str ''subject'') = Some (JStr (cred_subject c))"
  "dict_get (cred_body c) (str ''scope'') = Some (str_list (cred_scope c))"
  "dict_get (cred_body c) (str ''depth'') = Some (JInt (cred_depth c))"
  "dict_get (cred_body c) (str ''parent_id'') = Some (opt_str (cred_parent_id c))"
  "dict_get (cred_body c) (str ''not_before'') = map_option JInt (cred_not_before c)"
  "dict_get (cred_body c) (str ''not_after'') = map_option JInt (cred_not_after c)"
  "dict_get (cred_body c) (str ''signature'') = None"
  by (auto simp: cred_body_def opt_item_def split: option.splits)

lemma cred_body_keys:
  "dict_keys (cred_body c) =
     {str ''credential_id'', str ''issuer'', str ''subject'', str ''scope'', str ''depth'', str ''parent_id''}
     \<union> (if cred_not_before c = None then {} else {str ''not_before''})
     \<union> (if cred_not_after c = None then {} else {str ''not_after''})"
  by (auto simp: cred_body_def opt_item_def split: option.splits)

definition cred_core :: "delegation_credential \<Rightarrow> delegation_credential" where
  "cred_core c = c\<lparr>cred_signature := []\<rparr>"

lemma cred_body_core [simp]: "cred_body (cred_core c) = cred_body c"
  by (simp add: cred_body_def cred_core_def)

interpretation cred_doc: canonical_document cred_body cred_core
proof
  fix x y :: delegation_credential
  show "dict_wf (cred_body x)" by (simp add: cred_body_def opt_item_def split: option.splits)
  show "plain (JObj (cred_body x))" by (simp add: cred_body_def opt_item_def split: option.splits)
  assume eq: "\<And>k. map_option jnorm (dict_get (cred_body x) k) = map_option jnorm (dict_get (cred_body y) k)"
  have opt: "map_option jnorm (map_option JInt a) = map_option jnorm (map_option JInt b) \<Longrightarrow> a = b" for a b
    by (cases a; cases b) simp_all
  show "cred_core x = cred_core y"
    using eq [of "str ''credential_id''"] eq [of "str ''issuer''"] eq [of "str ''subject''"]
      eq [of "str ''scope''"] eq [of "str ''depth''"] eq [of "str ''parent_id''"]
      opt [OF eq [of "str ''not_before''", unfolded cred_body_get]]
      opt [OF eq [of "str ''not_after''", unfolded cred_body_get]]
    by (simp add: cred_body_get cred_core_def)
qed

text \<open>The fields that canonicalization accepts.\<close>

definition cred_encodable :: "delegation_credential \<Rightarrow> bool" where
  "cred_encodable c \<longleftrightarrow>
     list_all encodable (cred_id c) \<and> list_all encodable (cred_issuer c) \<and>
     list_all encodable (cred_subject c) \<and> (\<forall>s \<in> fset (cred_scope c). list_all encodable s) \<and>
     (\<forall>p. cred_parent_id c = Some p \<longrightarrow> list_all encodable p) \<and>
     \<bar>cred_depth c\<bar> \<le> MAX_SAFE_INTEGER \<and>
     (\<forall>b \<in> set_option (cred_not_before c) \<union> set_option (cred_not_after c). \<bar>b\<bar> \<le> MAX_SAFE_INTEGER)"

lemma cred_body_ok: "cred_encodable c \<Longrightarrow> json_ok (JObj (cred_body c))"
  by (auto simp: cred_encodable_def cred_body_def opt_item_def abs_le_iff split: option.splits)

section \<open>Signatures\<close>

lemma cred_verify_signature_iff:
  "cred_verify_signature L c = Inr u \<longleftrightarrow>
     cred_signature c \<noteq> [] \<and> signature_ok L (cred_issuer c) (cred_signature c) (cred_body c)"
  by (simp add: cred_verify_signature_def cred_doc.catch_signature)

text \<open>Every failed check is an \<open>InvalidCredential\<close>: no exception of a library escapes.\<close>

lemma cred_verify_signature_exn:
  "cred_verify_signature L c = Inl e \<Longrightarrow> exn_class e = Some InvalidCredential"
  by (auto simp: cred_verify_signature_def cred_doc.catch_signature split: if_splits)

lemma cred_sign_Inr_iff:
  "cred_sign L k c = Inr d \<longleftrightarrow>
     cred_issuer c = hex (ed_public L k) \<and> cred_wf c \<and>
     (\<exists>m. canonicalize (JObj (cred_body c)) = Inr m \<and> d = c\<lparr>cred_signature := hex (ed_sign L k m)\<rparr>)"
  by (auto simp: cred_sign_def guard_simps cred_wf_def)

lemma cred_sign_verifies:
  assumes "ed25519_correct L" and "cred_sign L k c = Inr d"
  shows "cred_verify_signature L d = Inr () \<and> cred_core d = cred_core c \<and> cred_wf d"
proof -
  from assms(2) obtain m where iss: "cred_issuer c = hex (ed_public L k)" and wf: "cred_wf c"
    and m: "canonicalize (JObj (cred_body c)) = Inr m" and d: "d = c\<lparr>cred_signature := hex (ed_sign L k m)\<rparr>"
    unfolding cred_sign_Inr_iff by blast
  have b: "cred_body d = cred_body c" by (simp add: d cred_body_def)
  have "length (ed_sign L k m) = 64" using assms(1) by (simp add: ed25519_correct_def)
  then have "hex (ed_sign L k m) \<noteq> []" by (metis length_hex list.size(3) mult_is_0 zero_neq_numeral)
  moreover from signature_ok_sign [OF assms(1) m] have "signature_ok L (cred_issuer d) (cred_signature d) (cred_body d)"
    unfolding b by (simp add: d iss)
  ultimately show ?thesis using wf
    by (simp add: cred_verify_signature_iff d cred_core_def cred_wf_def)
qed

section \<open>The wire form\<close>

lemma nonempty_str_Some_iff [simp]: "nonempty_str v = Some s \<longleftrightarrow> v = JStr s \<and> s \<noteq> []"
  by (cases v) (auto simp: nonempty_str_def)

lemma hex_str_Some_iff [simp]: "hex_str n v = Some s \<longleftrightarrow> v = JStr s \<and> lower_hex_of_len n s"
  by (cases v) (auto simp: hex_str_def)

lemma all_strs_Some_iff: "all_strs vs = Some ss \<longleftrightarrow> vs = map JStr ss \<and> [] \<notin> set ss"
proof (induction vs arbitrary: ss)
  case (Cons v vs)
  show ?case
  proof (cases ss)
    case (Cons s ss')
    with Cons.IH [of ss'] show ?thesis
      by (cases "nonempty_str v"; cases "all_strs vs") (auto simp: nonempty_str_def split: option.splits if_splits)
  qed (simp split: option.splits)
qed auto

lemma scope_strs_Some_iff [simp]:
  "scope_strs v = Some ss \<longleftrightarrow> v = JList (map JStr ss) \<and> ss \<noteq> [] \<and> [] \<notin> set ss \<and> distinct ss"
proof (cases v)
  case (JList vs)
  then have "scope_strs v = Some ss \<longleftrightarrow> all_strs vs = Some ss \<and> ss \<noteq> [] \<and> distinct ss"
    by (auto simp: scope_strs_def split: option.splits if_splits)
  with JList show ?thesis unfolding all_strs_Some_iff by auto
qed (simp_all add: scope_strs_def)

lemma opt_parent_Some_iff [simp]: "opt_parent v = Some p \<longleftrightarrow> v = opt_str p \<and> p \<noteq> Some []"
  by (cases v; cases p) (auto simp: opt_parent_def)

lemma opt_bound_Some_iff [simp]:
  "opt_bound data k = Some b \<longleftrightarrow> dict_get data k = map_option JInt b \<and> (\<forall>i \<in> set_option b. 0 \<le> i)"
  by (cases b) (auto simp: opt_bound_def split: option.splits)

definition cred_fields_ok :: "jdict \<Rightarrow> bool" where
  "cred_fields_ok data \<longleftrightarrow>
     dict_keys data \<subseteq> REQUIRED_CREDENTIAL_FIELDS \<union> OPTIONAL_CREDENTIAL_FIELDS \<and>
     REQUIRED_CREDENTIAL_FIELDS \<subseteq> dict_keys data"

text \<open>The parser accepts exactly the documents whose fields are those of a well-formed credential.\<close>

lemma cred_from_dict_iff:
  "cred_from_dict v = Inr c \<longleftrightarrow>
     (\<exists>data ss. v = JObj data \<and> cred_fields_ok data \<and> cred_wire_ok c \<and>
        dict_get data (str ''credential_id'') = Some (JStr (cred_id c)) \<and>
        dict_get data (str ''issuer'') = Some (JStr (cred_issuer c)) \<and>
        dict_get data (str ''subject'') = Some (JStr (cred_subject c)) \<and>
        dict_get data (str ''scope'') = Some (JList (map JStr ss)) \<and> distinct ss \<and>
        cred_scope c = fset_of_list ss \<and>
        dict_get data (str ''depth'') = Some (JInt (cred_depth c)) \<and>
        dict_get data (str ''parent_id'') = Some (opt_str (cred_parent_id c)) \<and>
        dict_get data (str ''signature'') = Some (JStr (cred_signature c)) \<and>
        dict_get data (str ''not_before'') = map_option JInt (cred_not_before c) \<and>
        dict_get data (str ''not_after'') = map_option JInt (cred_not_after c))"
    (is "?L \<longleftrightarrow> ?R")
proof
  assume ?L
  then show ?R
    unfolding cred_from_dict_def guard_simps
    by (auto simp: cred_fields_ok_def cred_wire_ok_def fset_of_list_elem)
next
  assume ?R
  then obtain data ss where v: "v = JObj data" and "cred_fields_ok data" "cred_wire_ok c" "distinct ss"
    and sc: "cred_scope c = fset_of_list ss" and sc': "dict_get data (str ''scope'') = Some (JList (map JStr ss))"
    and "dict_get data (str ''credential_id'') = Some (JStr (cred_id c))"
        "dict_get data (str ''issuer'') = Some (JStr (cred_issuer c))"
        "dict_get data (str ''subject'') = Some (JStr (cred_subject c))"
        "dict_get data (str ''depth'') = Some (JInt (cred_depth c))"
        "dict_get data (str ''parent_id'') = Some (opt_str (cred_parent_id c))"
        "dict_get data (str ''signature'') = Some (JStr (cred_signature c))"
        "dict_get data (str ''not_before'') = map_option JInt (cred_not_before c)"
        "dict_get data (str ''not_after'') = map_option JInt (cred_not_after c)"
    by blast
  moreover from calculation have "[] \<notin> set ss" "ss \<noteq> []"
    by (auto simp: cred_wire_ok_def fset_of_list_elem)
  ultimately show ?L
    unfolding cred_from_dict_def guard_simps
    by (intro exI [of _ data] conjI exI) (auto simp: cred_fields_ok_def cred_wire_ok_def cred_wf_def)
qed

lemma cred_to_dict_get:
  "dict_get (cred_to_dict c) k =
     (if k = str ''signature'' then Some (JStr (cred_signature c)) else dict_get (cred_body c) k)"
  by (simp add: cred_to_dict_def)

lemma cred_to_dict_fields: "cred_fields_ok (cred_to_dict c)"
proof -
  have "dict_keys (cred_to_dict c) = insert (str ''signature'') (dict_keys (cred_body c))"
    by (auto simp: dict_keys_iff cred_to_dict_get split: if_splits)
  then show ?thesis
    by (auto simp: cred_fields_ok_def cred_body_keys REQUIRED_CREDENTIAL_FIELDS_def OPTIONAL_CREDENTIAL_FIELDS_def)
qed

lemma cred_to_dict_parses: "cred_wire_ok c \<Longrightarrow> cred_from_dict (JObj (cred_to_dict c)) = Inr c"
  unfolding cred_from_dict_iff
  by (intro exI [of _ "cred_to_dict c"] exI [of _ "sorted_list_of_fset (cred_scope c)"])
     (simp add: cred_to_dict_get cred_body_get cred_to_dict_fields str_list_def)

section \<open>A sample chain\<close>

text \<open>Keys are the one-byte secrets 1, 2 and 3 of the concrete library.\<close>

definition sample_key :: "byte \<Rightarrow> ustr" where
  "sample_key k = hex (ed_public sample_lib [k])"

definition sample_unsigned_root :: delegation_credential where
  "sample_unsigned_root = \<lparr>cred_id = str ''root'', cred_issuer = sample_key 1, cred_subject = sample_key 2,
     cred_scope = {|str ''read'', str ''write''|}, cred_depth = 0, cred_parent_id = None,
     cred_signature = [], cred_not_before = Some 10, cred_not_after = Some 1000\<rparr>"

definition sample_unsigned_leaf :: delegation_credential where
  "sample_unsigned_leaf = \<lparr>cred_id = str ''leaf'', cred_issuer = sample_key 2, cred_subject = sample_key 3,
     cred_scope = {|str ''read''|}, cred_depth = 1, cred_parent_id = Some (str ''root''),
     cred_signature = [], cred_not_before = None, cred_not_after = None\<rparr>"

lemma cred_sign_ok:
  assumes "cred_issuer c = hex (ed_public L k)" and "cred_wf c" and "cred_encodable c"
  shows "\<exists>d. cred_sign L k c = Inr d"
proof -
  obtain m where "canonicalize (JObj (cred_body c)) = Inr m"
    using canonicalize_ok [OF cred_body_ok [OF assms(3)]] by blast
  with assms(1,2) show ?thesis unfolding cred_sign_Inr_iff by blast
qed

definition signed_by :: "byte \<Rightarrow> delegation_credential \<Rightarrow> delegation_credential" where
  "signed_by k c = (case cred_sign sample_lib [k] c of Inr d \<Rightarrow> d | Inl _ \<Rightarrow> c)"

definition sample_root :: delegation_credential where
  "sample_root = signed_by 1 sample_unsigned_root"

definition sample_leaf :: delegation_credential where
  "sample_leaf = signed_by 2 sample_unsigned_leaf"

lemma signed_by_sign:
  assumes "cred_issuer c = sample_key k" and "cred_wf c" and "cred_encodable c"
  shows "cred_sign sample_lib [k] c = Inr (signed_by k c)"
  using cred_sign_ok [OF assms(1) [unfolded sample_key_def] assms(2,3)] by (auto simp: signed_by_def)

lemma sample_encodable:
  "cred_encodable sample_unsigned_root" "cred_encodable sample_unsigned_leaf"
  "cred_wf sample_unsigned_root" "cred_wf sample_unsigned_leaf"
  by (simp_all add: cred_encodable_def cred_wf_def window_inverted_def sample_unsigned_root_def
      sample_unsigned_leaf_def sample_key_def MAX_SAFE_INTEGER_def)

lemma sample_root_sign: "cred_sign sample_lib [1] sample_unsigned_root = Inr sample_root"
  unfolding sample_root_def
  by (rule signed_by_sign) (simp_all add: sample_encodable sample_unsigned_root_def [THEN arg_cong, of cred_issuer])

lemma sample_leaf_sign: "cred_sign sample_lib [2] sample_unsigned_leaf = Inr sample_leaf"
  unfolding sample_leaf_def
  by (rule signed_by_sign) (simp_all add: sample_encodable sample_unsigned_leaf_def [THEN arg_cong, of cred_issuer])

lemmas sample_root_signed = cred_sign_verifies [OF sample_ed25519 sample_root_sign]
lemmas sample_leaf_signed = cred_sign_verifies [OF sample_ed25519 sample_leaf_sign]

lemma cred_core_fields:
  assumes "cred_core d = cred_core c"
  shows "cred_id d = cred_id c" "cred_issuer d = cred_issuer c" "cred_subject d = cred_subject c"
    "cred_scope d = cred_scope c" "cred_depth d = cred_depth c" "cred_parent_id d = cred_parent_id c"
    "cred_not_before d = cred_not_before c" "cred_not_after d = cred_not_after c"
  using assms by (cases c; cases d; simp add: cred_core_def)+

lemma sample_root_fields [simp]:
  "cred_id sample_root = str ''root''" "cred_issuer sample_root = sample_key 1"
  "cred_subject sample_root = sample_key 2" "cred_scope sample_root = {|str ''read'', str ''write''|}"
  "cred_depth sample_root = 0" "cred_parent_id sample_root = None"
  "cred_not_before sample_root = Some 10" "cred_not_after sample_root = Some 1000"
  using cred_core_fields [of sample_root sample_unsigned_root] sample_root_signed
  by (simp_all add: sample_unsigned_root_def)

lemma sample_leaf_fields [simp]:
  "cred_id sample_leaf = str ''leaf''" "cred_issuer sample_leaf = sample_key 2"
  "cred_subject sample_leaf = sample_key 3" "cred_scope sample_leaf = {|str ''read''|}"
  "cred_depth sample_leaf = 1" "cred_parent_id sample_leaf = Some (str ''root'')"
  "cred_not_before sample_leaf = None" "cred_not_after sample_leaf = None"
  using cred_core_fields [of sample_leaf sample_unsigned_leaf] sample_leaf_signed
  by (simp_all add: sample_unsigned_leaf_def)

lemma sample_wire_ok: "cred_wire_ok sample_root" "cred_wire_ok sample_leaf"
proof -
  have sig: "lower_hex_of_len 128 (cred_signature d)" if "cred_sign sample_lib k c = Inr d" for k c d
    using that sample_ed25519 unfolding cred_sign_Inr_iff by (auto simp: ed25519_correct_def)
  have "lower_hex_of_len 64 (sample_key k)" for k
    using sample_ed25519 by (simp add: ed25519_correct_def sample_key_def)
  with sig [OF sample_root_sign] sig [OF sample_leaf_sign] sample_root_signed sample_leaf_signed
  show "cred_wire_ok sample_root" "cred_wire_ok sample_leaf" by (simp_all add: cred_wire_ok_def)
qed

section \<open>Properties\<close>

text \<open>
  The wire form of a credential parses back to the credential exactly when its fields are
  within the wire format: non-empty identifiers and scope, lowercase hex keys and signature, a
  non-negative depth and a validity window that is not inverted.
\<close>

theorem cred_wire_roundtrip:
  "cred_from_dict (JObj (cred_to_dict c)) = Inr c \<longleftrightarrow> cred_wire_ok c"
proof
  assume "cred_from_dict (JObj (cred_to_dict c)) = Inr c"
  then show "cred_wire_ok c" unfolding cred_from_dict_iff by blast
qed (rule cred_to_dict_parses)

text \<open>
  A document the parser accepts is the wire form of the credential it returns: it has the
  same keys and the same values, the order of the scope array apart, so there is no second wire
  form for one signed object.
\<close>

theorem cred_from_dict_strict:
  assumes "cred_from_dict v = Inr c"
  shows "cred_wire_ok c \<and> (\<exists>data. v = JObj data \<and> dict_keys data = dict_keys (cred_to_dict c) \<and>
           (\<forall>k. k \<noteq> str ''scope'' \<longrightarrow> dict_get data k = dict_get (cred_to_dict c) k))"
proof -
  from assms obtain data ss where v: "v = JObj data" and f: "cred_fields_ok data" and ok: "cred_wire_ok c"
    and sc: "dict_get data (str ''scope'') = Some (JList (map JStr ss))"
    and g: "dict_get data (str ''credential_id'') = Some (JStr (cred_id c))"
        "dict_get data (str ''issuer'') = Some (JStr (cred_issuer c))"
        "dict_get data (str ''subject'') = Some (JStr (cred_subject c))"
        "dict_get data (str ''depth'') = Some (JInt (cred_depth c))"
        "dict_get data (str ''parent_id'') = Some (opt_str (cred_parent_id c))"
        "dict_get data (str ''signature'') = Some (JStr (cred_signature c))"
        "dict_get data (str ''not_before'') = map_option JInt (cred_not_before c)"
        "dict_get data (str ''not_after'') = map_option JInt (cred_not_after c)"
    unfolding cred_from_dict_iff by blast
  have known: "k \<in> REQUIRED_CREDENTIAL_FIELDS \<union> OPTIONAL_CREDENTIAL_FIELDS
      \<or> dict_get data k = None \<and> dict_get (cred_to_dict c) k = None" for k
    using f cred_to_dict_fields [of c] by (auto simp: cred_fields_ok_def dict_keys_iff)
  have eq: "dict_get data k = dict_get (cred_to_dict c) k" if "k \<noteq> str ''scope''" for k
    using known [of k] that g
    by (auto simp: REQUIRED_CREDENTIAL_FIELDS_def OPTIONAL_CREDENTIAL_FIELDS_def cred_to_dict_get cred_body_get)
  have "dict_keys data = dict_keys (cred_to_dict c)"
  proof (rule set_eqI)
    fix k
    show "k \<in> dict_keys data \<longleftrightarrow> k \<in> dict_keys (cred_to_dict c)"
      using eq [of k] sc by (cases "k = str ''scope''") (simp_all add: dict_keys_iff cred_to_dict_get cred_body_get)
  qed
  with v ok eq show ?thesis by blast
qed

theorem cred_from_dict_strict_witness:
  "\<exists>v c. cred_from_dict v = Inr c \<and> cred_wire_ok c \<and> (\<exists>data. v = JObj data)"
proof -
  have p: "cred_from_dict (JObj (cred_to_dict sample_leaf)) = Inr sample_leaf"
    by (rule cred_to_dict_parses [OF sample_wire_ok(2)])
  from cred_from_dict_strict [OF this] p show ?thesis by blast
qed

text \<open>
  A credential signed by the key named as its issuer verifies, and signing changes nothing but
  the signature.
\<close>

theorem sign_then_verify:
  assumes "ed25519_correct L" and "cred_sign L k c = Inr d"
  shows "cred_verify_signature L d = Inr () \<and> cred_core d = cred_core c \<and> cred_wf d"
  using assms by (rule cred_sign_verifies)

theorem sign_then_verify_witness:
  "cred_sign sample_lib [1] sample_unsigned_root = Inr sample_root \<and> cred_verify_signature sample_lib sample_root = Inr ()"
  using sample_root_sign sign_then_verify [OF sample_ed25519 sample_root_sign] by blast

end
