(* ===== verification/Revocation.thy ===== *)
theory Revocation
  imports Credential
begin

text \<open>
  Revocation of delegation credentials, \<open>ca2a_runtime/delegation/revocation.py\<close>: signed
  statements, the snapshot a verifier holds with its index by digest, the lookup of an effective
  statement and the strict wire forms. A snapshot can only be built when every statement in it
  verifies; \<open>snapshot_wf\<close> is that invariant, and the lookup through the index is proved equal to
  a search of the statement list.
\<close>

record revocation_statement =
  st_digest :: ustr
  st_revoker :: ustr
  st_issued_at :: int
  st_signature :: ustr

record revocation_snapshot =
  snap_as_of :: int
  snap_statements :: "revocation_statement list"
  snap_by_digest :: "(ustr \<times> revocation_statement list) list"

record revocation_status =
  rs_checked :: bool
  rs_as_of :: "int option"

section \<open>Statements\<close>

definition REVOCATION_TYPE :: ustr where
  "REVOCATION_TYPE = str ''ca2a.delegation-revocation.v1''"

definition credential_digest :: "delegation_credential \<Rightarrow> ustr res" where
  "credential_digest c = bindE (canonicalize (JObj (cred_body c))) (\<lambda>b. Inr (str ''sha256:'' @ sha256_hex b))"

abbreviation invalid_revocation :: "string \<Rightarrow> exn" where
  "invalid_revocation m \<equiv> Ca2a InvalidRevocation (str m) None"

text \<open>\<open>re.compile(r"sha256:[0-9a-f]{64}").fullmatch\<close>.\<close>

definition is_digest :: "ustr \<Rightarrow> bool" where
  "is_digest s \<longleftrightarrow> take 7 s = str ''sha256:'' \<and> lower_hex_of_len 64 (drop 7 s)"

text \<open>The constructor, on the values the parser hands it.\<close>

definition mk_statement :: "json \<Rightarrow> json \<Rightarrow> json \<Rightarrow> ustr \<Rightarrow> revocation_statement res" where
  "mk_statement revoked_digest revoker issued_at signature =
     bindE (expect (case as_str revoked_digest of Some s \<Rightarrow> if is_digest s then Some s else None | None \<Rightarrow> None)
              (invalid_revocation ''revoked_digest must be sha256: followed by 64 lowercase hex'')) (\<lambda>dg.
     bindE (expect (hex_str 64 revoker)
              (invalid_revocation ''revoker must be a lowercase 32-byte Ed25519 key in hex'')) (\<lambda>rv.
     bindE (expect (nonneg_int issued_at)
              (invalid_revocation ''issued_at must be a non-negative integer'')) (\<lambda>ts.
     Inr \<lparr>st_digest = dg, st_revoker = rv, st_issued_at = ts, st_signature = signature\<rparr>)))"

definition st_body :: "revocation_statement \<Rightarrow> jdict" where
  "st_body s =
     [(str ''type'', JStr REVOCATION_TYPE),
      (str ''revoked_digest'', JStr (st_digest s)),
      (str ''revoker'', JStr (st_revoker s)),
      (str ''issued_at'', JInt (st_issued_at s))]"

definition st_sign :: "lib \<Rightarrow> bytes \<Rightarrow> revocation_statement \<Rightarrow> revocation_statement res" where
  "st_sign L private_key s =
     (if hex (ed_public L private_key) \<noteq> st_revoker s
      then raise InvalidRevocation ''signing key does not match revoker''
      else bindE (canonicalize (JObj (st_body s))) (\<lambda>m.
           mk_statement (JStr (st_digest s)) (JStr (st_revoker s)) (JInt (st_issued_at s))
             (hex (ed_sign L private_key m))))"

definition st_verify_signature :: "lib \<Rightarrow> revocation_statement \<Rightarrow> unit res" where
  "st_verify_signature L s =
     (if st_signature s = [] then raise InvalidRevocation ''revocation statement is unsigned''
      else if \<not> lower_hex_of_len 128 (st_signature s)
      then raise InvalidRevocation ''signature must be a lowercase 64-byte Ed25519 signature in hex''
      else catchE (ed25519_check L (st_revoker s) (st_signature s) (st_body s)) is_signature_error
             (\<lambda>_. raise InvalidRevocation ''revocation signature failed to verify''))"

definition st_to_dict :: "revocation_statement \<Rightarrow> jdict" where
  "st_to_dict s = dict_set (str ''signature'') (JStr (st_signature s)) (st_body s)"

definition STATEMENT_FIELDS :: "ustr set" where
  "STATEMENT_FIELDS =
     {str ''type'', str ''revoked_digest'', str ''revoker'', str ''issued_at'', str ''signature''}"

definition st_from_dict :: "json \<Rightarrow> revocation_statement res" where
  "st_from_dict v =
     bindE (expect (as_obj v) (invalid_revocation ''revocation statement must be a JSON object'')) (\<lambda>data.
     bindE (require (dict_keys data = STATEMENT_FIELDS)
              (invalid_revocation ''malformed revocation fields'')) (\<lambda>_.
     bindE (dict_item data (str ''type'')) (\<lambda>ty.
     bindE (require (ty = JStr REVOCATION_TYPE)
              (invalid_revocation ''unsupported revocation type'')) (\<lambda>_.
     bindE (dict_item data (str ''signature'')) (\<lambda>signature.
     bindE (expect (as_str signature) (invalid_revocation ''signature must be a string'')) (\<lambda>signature.
     bindE (dict_item data (str ''revoked_digest'')) (\<lambda>dg.
     bindE (dict_item data (str ''revoker'')) (\<lambda>rv.
     bindE (dict_item data (str ''issued_at'')) (\<lambda>ts.
     mk_statement dg rv ts signature)))))))))"

text \<open>\<open>revoke\<close>: \<open>clock\<close> is \<open>int(time.time())\<close>.\<close>

definition revoke ::
  "lib \<Rightarrow> delegation_credential \<Rightarrow> bytes \<Rightarrow> int option \<Rightarrow> int \<Rightarrow> revocation_statement res" where
  "revoke L c private_key issued_at clock =
     bindE (credential_digest c) (\<lambda>dg.
     bindE (mk_statement (JStr dg) (JStr (hex (ed_public L private_key)))
              (JInt (case issued_at of None \<Rightarrow> clock | Some t \<Rightarrow> t)) []) (\<lambda>s.
     st_sign L private_key s))"

section \<open>Snapshots\<close>

text \<open>\<open>index.setdefault(digest, []).append(stmt)\<close>.\<close>

definition index_add ::
  "(ustr \<times> revocation_statement list) list \<Rightarrow> revocation_statement \<Rightarrow> (ustr \<times> revocation_statement list) list" where
  "index_add idx s =
     AList.update (st_digest s) ((case map_of idx (st_digest s) of None \<Rightarrow> [] | Some ss \<Rightarrow> ss) @ [s]) idx"

fun build_index ::
  "lib \<Rightarrow> nat \<Rightarrow> revocation_statement list \<Rightarrow> (ustr \<times> revocation_statement list) list
     \<Rightarrow> (ustr \<times> revocation_statement list) list res" where
  "build_index L i [] idx = Inr idx"
| "build_index L i (s # ss) idx =
     bindE (catchE (st_verify_signature L s) (is_class InvalidRevocation) (\<lambda>_.
              Inl (Ca2a InvalidRevocation (str ''revocation '' @ nat_str i @
                str '' does not verify; the snapshot is refused as a whole'') None))) (\<lambda>_.
     build_index L (Suc i) ss (index_add idx s))"

definition mk_snapshot :: "lib \<Rightarrow> json \<Rightarrow> revocation_statement list \<Rightarrow> revocation_snapshot res" where
  "mk_snapshot L as_of statements =
     bindE (expect (nonneg_int as_of) (invalid_revocation ''as_of must be a non-negative integer'')) (\<lambda>ts.
     bindE (build_index L 0 statements []) (\<lambda>idx.
     Inr \<lparr>snap_as_of = ts, snap_statements = statements, snap_by_digest = idx\<rparr>))"

fun find_effective ::
  "ustr set \<Rightarrow> int option \<Rightarrow> revocation_statement list \<Rightarrow> revocation_statement option" where
  "find_effective authorized at_time [] = None"
| "find_effective authorized at_time (s # ss) =
     (if st_revoker s \<notin> authorized then find_effective authorized at_time ss
      else if (\<exists>t \<in> set_option at_time. st_issued_at s > t) then find_effective authorized at_time ss
      else Some s)"

definition effective_revocation ::
  "revocation_snapshot \<Rightarrow> ustr \<Rightarrow> ustr set \<Rightarrow> int option \<Rightarrow> revocation_statement option" where
  "effective_revocation snap digest authorized at_time =
     find_effective authorized at_time
       (case map_of (snap_by_digest snap) digest of None \<Rightarrow> [] | Some ss \<Rightarrow> ss)"

definition snap_to_dict :: "revocation_snapshot \<Rightarrow> jdict" where
  "snap_to_dict snap =
     [(str ''as_of'', JInt (snap_as_of snap)),
      (str ''revocations'', JList (map (\<lambda>s. JObj (st_to_dict s)) (snap_statements snap)))]"

definition SNAPSHOT_FIELDS :: "ustr set" where
  "SNAPSHOT_FIELDS = {str ''as_of'', str ''revocations''}"

definition snap_from_dict :: "lib \<Rightarrow> json \<Rightarrow> revocation_snapshot res" where
  "snap_from_dict L v =
     bindE (expect (as_obj v) (invalid_revocation ''revocation snapshot must be a JSON object'')) (\<lambda>data.
     bindE (require (dict_keys data = SNAPSHOT_FIELDS)
              (invalid_revocation ''malformed revocation snapshot fields'')) (\<lambda>_.
     bindE (dict_item data (str ''revocations'')) (\<lambda>items.
     bindE (expect (as_list items) (invalid_revocation ''revocations must be an array'')) (\<lambda>items.
     bindE (dict_item data (str ''as_of'')) (\<lambda>as_of.
     bindE (traverseE st_from_dict items) (\<lambda>ss.
     mk_snapshot L as_of ss))))))"

definition REVOCATION_NOT_CHECKED :: revocation_status where
  "REVOCATION_NOT_CHECKED = \<lparr>rs_checked = False, rs_as_of = None\<rparr>"

definition rs_state :: "revocation_status \<Rightarrow> ustr" where
  "rs_state r = (if rs_checked r then str ''not_revoked'' else str ''not_checked'')"

section \<open>Statements: invariant and round trip\<close>

definition st_wf :: "revocation_statement \<Rightarrow> bool" where
  "st_wf s \<longleftrightarrow> is_digest (st_digest s) \<and> lower_hex_of_len 64 (st_revoker s) \<and> 0 \<le> st_issued_at s"

lemma mk_statement_iff [guard_simps]:
  "mk_statement dg rv ts sig = Inr s \<longleftrightarrow>
     st_wf s \<and> dg = JStr (st_digest s) \<and> rv = JStr (st_revoker s) \<and> ts = JInt (st_issued_at s) \<and>
     st_signature s = sig"
proof -
  have "(case as_str dg of Some s \<Rightarrow> if is_digest s then Some s else None | None \<Rightarrow> None) = Some d \<longleftrightarrow>
      dg = JStr d \<and> is_digest d" for d
    by (cases dg) auto
  then show ?thesis
    by (cases s) (auto simp: mk_statement_def guard_simps st_wf_def)
qed

lemma st_body_get:
  "dict_get (st_body s) (str ''revoked_digest'') = Some (JStr (st_digest s))"
  "dict_get (st_body s) (str ''revoker'') = Some (JStr (st_revoker s))"
  "dict_get (st_body s) (str ''issued_at'') = Some (JInt (st_issued_at s))"
  "dict_get (st_body s) (str ''type'') = Some (JStr REVOCATION_TYPE)"
  by (simp_all add: st_body_def)

definition st_core :: "revocation_statement \<Rightarrow> ustr \<times> ustr \<times> int" where
  "st_core s = (st_digest s, st_revoker s, st_issued_at s)"

interpretation st_doc: canonical_document st_body st_core
proof
  fix x y :: revocation_statement
  show "dict_wf (st_body x)" "plain (JObj (st_body x))" by (simp_all add: st_body_def)
  assume eq: "\<And>k. map_option jnorm (dict_get (st_body x) k) = map_option jnorm (dict_get (st_body y) k)"
  show "st_core x = st_core y"
    using eq [of "str ''revoked_digest''"] eq [of "str ''revoker''"] eq [of "str ''issued_at''"]
    by (simp add: st_body_get st_core_def)
qed

lemma st_verify_signature_iff:
  "st_verify_signature L s = Inr u \<longleftrightarrow>
     lower_hex_of_len 128 (st_signature s) \<and> signature_ok L (st_revoker s) (st_signature s) (st_body s)"
  by (auto simp: st_verify_signature_def st_doc.catch_signature lower_hex_of_len_def)

lemma st_verify_signature_exn:
  "st_verify_signature L s = Inl e \<Longrightarrow> exn_class e = Some InvalidRevocation"
  by (auto simp: st_verify_signature_def st_doc.catch_signature split: if_splits)

lemma st_from_dict_iff:
  "st_from_dict v = Inr s \<longleftrightarrow>
     (\<exists>data. v = JObj data \<and> dict_keys data = STATEMENT_FIELDS \<and> st_wf s \<and>
        dict_get data (str ''type'') = Some (JStr REVOCATION_TYPE) \<and>
        dict_get data (str ''revoked_digest'') = Some (JStr (st_digest s)) \<and>
        dict_get data (str ''revoker'') = Some (JStr (st_revoker s)) \<and>
        dict_get data (str ''issued_at'') = Some (JInt (st_issued_at s)) \<and>
        dict_get data (str ''signature'') = Some (JStr (st_signature s)))"
  unfolding st_from_dict_def guard_simps by auto

lemma st_to_dict_parses:
  assumes "st_wf s"
  shows "st_from_dict (JObj (st_to_dict s)) = Inr s"
proof -
  have g: "dict_get (st_to_dict s) k =
      (if k = str ''signature'' then Some (JStr (st_signature s)) else dict_get (st_body s) k)" for k
    by (simp add: st_to_dict_def)
  have "dict_keys (st_body s) = {str ''type'', str ''revoked_digest'', str ''revoker'', str ''issued_at''}"
    by (auto simp: st_body_def)
  then have "dict_keys (st_to_dict s) = STATEMENT_FIELDS"
    by (auto simp: set_eq_iff dict_keys_iff g STATEMENT_FIELDS_def split: if_splits)
  with assms show ?thesis unfolding st_from_dict_iff by (simp add: g st_body_get)
qed

lemma st_sign_verifies:
  assumes "ed25519_correct L" and "st_sign L k s = Inr t"
  shows "st_verify_signature L t = Inr () \<and> st_core t = st_core s \<and> st_wf t \<and> st_revoker t = hex (ed_public L k)"
proof -
  from assms(2) obtain m where iss: "st_revoker s = hex (ed_public L k)" and m: "canonicalize (JObj (st_body s)) = Inr m"
    and t: "st_wf t" "st_digest t = st_digest s" "st_revoker t = st_revoker s" "st_issued_at t = st_issued_at s"
      "st_signature t = hex (ed_sign L k m)"
    by (auto simp: st_sign_def guard_simps split: if_splits)
  have b: "st_body t = st_body s" by (simp add: st_body_def t)
  have "lower_hex_of_len 128 (st_signature t)" using assms(1) t(5) by (simp add: ed25519_correct_def)
  with signature_ok_sign [OF assms(1) m, of k] show ?thesis
    by (simp add: st_verify_signature_iff st_core_def b iss t)
qed

section \<open>Snapshots: invariant and lookup\<close>

definition index_get :: "(ustr \<times> revocation_statement list) list \<Rightarrow> ustr \<Rightarrow> revocation_statement list" where
  "index_get idx d = (case map_of idx d of None \<Rightarrow> [] | Some ss \<Rightarrow> ss)"

lemma index_get_add:
  "index_get (index_add idx s) d = index_get idx d @ (if st_digest s = d then [s] else [])"
  by (simp add: index_get_def index_add_def update_conv')

definition st_verified :: "lib \<Rightarrow> revocation_statement \<Rightarrow> bool" where
  "st_verified L s \<longleftrightarrow> st_verify_signature L s = Inr ()"

lemma build_index_Inr:
  "build_index L i ss idx = Inr idx' \<longleftrightarrow> list_all (st_verified L) ss \<and> idx' = foldl index_add idx ss"
  by (induction L i ss idx rule: build_index.induct) (auto simp: guard_simps st_verified_def)

lemma index_get_foldl:
  "index_get (foldl index_add idx ss) d = index_get idx d @ filter (\<lambda>s. st_digest s = d) ss"
  by (induction ss arbitrary: idx) (simp_all add: index_get_add)

text \<open>What holds of every snapshot that was constructed.\<close>

definition snapshot_wf :: "lib \<Rightarrow> revocation_snapshot \<Rightarrow> bool" where
  "snapshot_wf L snap \<longleftrightarrow>
     0 \<le> snap_as_of snap \<and> list_all (st_verified L) (snap_statements snap) \<and>
     (\<forall>d. index_get (snap_by_digest snap) d = filter (\<lambda>s. st_digest s = d) (snap_statements snap))"

lemma mk_snapshot_Inr:
  "mk_snapshot L as_of ss = Inr snap \<longleftrightarrow>
     as_of = JInt (snap_as_of snap) \<and> 0 \<le> snap_as_of snap \<and> snap_statements snap = ss \<and>
     list_all (st_verified L) ss \<and> snap_by_digest snap = foldl index_add [] ss"
  by (cases snap) (auto simp: mk_snapshot_def guard_simps build_index_Inr)

lemma mk_snapshot_wf: "mk_snapshot L as_of ss = Inr snap \<Longrightarrow> snapshot_wf L snap"
  by (auto simp: mk_snapshot_Inr snapshot_wf_def index_get_foldl) (simp add: index_get_def)

lemma snap_from_dict_wf: "snap_from_dict L v = Inr snap \<Longrightarrow> snapshot_wf L snap"
  unfolding snap_from_dict_def guard_simps by (auto intro: mk_snapshot_wf)

text \<open>A snapshot with one statement that does not verify is refused, whatever else it holds.\<close>

lemma build_index_refuses:
  assumes "\<not> st_verified L s"
  shows "\<exists>m. build_index L i (xs @ s # ys) idx = Inl (Ca2a InvalidRevocation m None)"
proof (induction xs arbitrary: i idx)
  case Nil
  from assms obtain e where "st_verify_signature L s = Inl e"
    by (cases "st_verify_signature L s") (auto simp: st_verified_def)
  with st_verify_signature_exn [OF this] show ?case by simp
next
  case (Cons x xs)
  show ?case
  proof (cases "st_verify_signature L x")
    case (Inl e)
    with st_verify_signature_exn [OF Inl] show ?thesis by simp
  next
    case (Inr u)
    with Cons show ?thesis by simp
  qed
qed

text \<open>The statements in force against a digest, under an authority and at an audit time.\<close>

definition in_force :: "ustr \<Rightarrow> ustr set \<Rightarrow> int option \<Rightarrow> revocation_statement \<Rightarrow> bool" where
  "in_force digest authorized at_time s \<longleftrightarrow>
     st_digest s = digest \<and> st_revoker s \<in> authorized \<and> (\<forall>t \<in> set_option at_time. st_issued_at s \<le> t)"

lemma find_effective_find:
  "find_effective A t ss = find (\<lambda>s. st_revoker s \<in> A \<and> (\<forall>x \<in> set_option t. st_issued_at s \<le> x)) ss"
  by (induction ss) (auto simp: not_le)

lemma find_filter: "find P (filter Q xs) = find (\<lambda>x. Q x \<and> P x) xs"
  by (induction xs) auto

text \<open>The indexed lookup is a search of the statements for the first one in force.\<close>

lemma effective_revocation_find:
  assumes "snapshot_wf L snap"
  shows "effective_revocation snap d A t = find (in_force d A t) (snap_statements snap)"
proof -
  have "effective_revocation snap d A t = find_effective A t (index_get (snap_by_digest snap) d)"
    by (simp add: effective_revocation_def index_get_def)
  also have "\<dots> = find (in_force d A t) (snap_statements snap)"
    using assms by (simp add: snapshot_wf_def find_effective_find find_filter in_force_def [abs_def])
  finally show ?thesis .
qed

lemma effective_revocation_SomeD:
  assumes "snapshot_wf L snap" and "effective_revocation snap d A t = Some s"
  shows "s \<in> set (snap_statements snap) \<and> in_force d A t s \<and> st_verified L s"
proof -
  from assms have "find (in_force d A t) (snap_statements snap) = Some s"
    by (simp add: effective_revocation_find)
  then have "s \<in> set (snap_statements snap)" and "in_force d A t s"
    by (auto simp: find_Some_iff)
  with assms(1) show ?thesis by (auto simp: snapshot_wf_def list_all_iff)
qed

lemma effective_revocation_None_iff:
  assumes "snapshot_wf L snap"
  shows "effective_revocation snap d A t = None \<longleftrightarrow> (\<forall>s \<in> set (snap_statements snap). \<not> in_force d A t s)"
  using effective_revocation_find [OF assms] by (auto simp: find_None_iff)

lemma snap_to_dict_parses:
  assumes "snapshot_wf L snap" and "list_all st_wf (snap_statements snap)"
  shows "\<exists>snap'. snap_from_dict L (JObj (snap_to_dict snap)) = Inr snap' \<and>
           snap_as_of snap' = snap_as_of snap \<and> snap_statements snap' = snap_statements snap"
proof -
  let ?s = "snap_statements snap"
  have "traverseE st_from_dict (map (\<lambda>s. JObj (st_to_dict s)) ?s) = Inr ?s"
    using assms(2) by (induction ?s) (auto simp: traverseE_Inr_iff list_all2_map1 st_to_dict_parses list_all_iff list_all2_same)
  moreover have "dict_keys (snap_to_dict snap) = SNAPSHOT_FIELDS"
    by (auto simp: snap_to_dict_def SNAPSHOT_FIELDS_def)
  moreover have "build_index L 0 ?s [] = Inr (foldl index_add [] ?s)"
    using assms(1) by (simp add: build_index_Inr snapshot_wf_def)
  moreover have "nonneg_int (JInt (snap_as_of snap)) = Some (snap_as_of snap)"
    using assms(1) by (simp add: snapshot_wf_def)
  ultimately show ?thesis
    by (simp add: snap_from_dict_def mk_snapshot_def dict_item_def) (simp add: snap_to_dict_def)
qed

section \<open>Properties\<close>

text \<open>
  A credential digest names exactly one grant: the digests of two credentials are equal exactly
  when the credentials agree on every field but the signature, or their two signed bodies are
  themselves a SHA-256 collision.
\<close>

theorem credential_digest_binds:
  assumes "canonicalize (JObj (cred_body c)) = Inr a" and "canonicalize (JObj (cred_body d)) = Inr b"
  shows "credential_digest c = credential_digest d \<longleftrightarrow> cred_core c = cred_core d \<or> sha256_collision a b"
proof -
  have "cred_core c = cred_core d \<Longrightarrow> a = b" using assms cred_body_core by (metis sum.inject(2))
  with cred_doc.same_digest [OF assms] assms show ?thesis
    by (auto simp: credential_digest_def sha256_collision_def)
qed

theorem credential_digest_binds_witness:
  "\<exists>a b. canonicalize (JObj (cred_body sample_unsigned_root)) = Inr a \<and>
         canonicalize (JObj (cred_body sample_unsigned_leaf)) = Inr b \<and>
         (credential_digest sample_unsigned_root = credential_digest sample_unsigned_leaf \<longleftrightarrow> sha256_collision a b)"
proof -
  obtain a where a: "canonicalize (JObj (cred_body sample_unsigned_root)) = Inr a"
    using canonicalize_ok [OF cred_body_ok [OF sample_encodable(1)]] by blast
  obtain b where b: "canonicalize (JObj (cred_body sample_unsigned_leaf)) = Inr b"
    using canonicalize_ok [OF cred_body_ok [OF sample_encodable(2)]] by blast
  have "cred_core sample_unsigned_root \<noteq> cred_core sample_unsigned_leaf"
    by (simp add: cred_core_def sample_unsigned_root_def sample_unsigned_leaf_def)
  with credential_digest_binds [OF a b] a b show ?thesis by auto
qed

text \<open>
  A snapshot is refused as a whole when one statement in it does not verify: building it raises
  \<open>InvalidRevocation\<close> wherever the statement stands, so tampering is never un-revocation.
\<close>

theorem snapshot_integrity:
  assumes "\<not> st_verified L s" and "s \<in> set ss"
  shows "\<exists>e. mk_snapshot L as_of ss = Inl e \<and> exn_class e = Some InvalidRevocation"
proof -
  from assms(2) obtain xs ys where ss: "ss = xs @ s # ys" by (meson split_list)
  obtain m where "build_index L 0 ss [] = Inl (Ca2a InvalidRevocation m None)"
    using build_index_refuses [OF assms(1)] ss by blast
  then show ?thesis by (cases "nonneg_int as_of") (simp_all add: mk_snapshot_def)
qed

theorem snapshot_integrity_witness:
  "\<exists>e. mk_snapshot sample_lib (JInt 5) [\<lparr>st_digest = [], st_revoker = [], st_issued_at = 0, st_signature = []\<rparr>] = Inl e
       \<and> exn_class e = Some InvalidRevocation"
  by (rule snapshot_integrity [of _ "\<lparr>st_digest = [], st_revoker = [], st_issued_at = 0, st_signature = []\<rparr>"])
     (simp_all add: st_verified_def st_verify_signature_def)

text \<open>
  The indexed lookup of a constructed snapshot finds the first statement in force, that is one
  naming the digest, signed by an authorized revoker and, in an audit, issued by the audited time.
\<close>

theorem effective_revocation_correct:
  assumes "mk_snapshot L as_of ss = Inr snap"
  shows "effective_revocation snap d A t = find (in_force d A t) ss"
  using effective_revocation_find [OF mk_snapshot_wf [OF assms]] assms by (simp add: mk_snapshot_Inr)

theorem effective_revocation_correct_witness:
  "\<exists>snap. mk_snapshot sample_lib (JInt 5) [] = Inr snap \<and>
     effective_revocation snap (str ''sha256:00'') {sample_key 1} None = None"
proof -
  have "mk_snapshot sample_lib (JInt 5) [] = Inr \<lparr>snap_as_of = 5, snap_statements = [], snap_by_digest = []\<rparr>"
    by (simp add: mk_snapshot_def)
  with effective_revocation_correct [OF this] show ?thesis by simp
qed

text \<open>
  A snapshot survives the wire: its dict parses back to a snapshot with the same date and the
  same statements.
\<close>

theorem snapshot_wire_roundtrip:
  assumes "mk_snapshot L (JInt t) ss = Inr snap" and "list_all st_wf ss"
  shows "snap_from_dict L (JObj (snap_to_dict snap)) = Inr snap"
proof -
  have st: "snap_statements snap = ss" using assms(1) by (simp add: mk_snapshot_Inr)
  obtain snap' where p: "snap_from_dict L (JObj (snap_to_dict snap)) = Inr snap'"
    and eq: "snap_as_of snap' = snap_as_of snap" "snap_statements snap' = ss"
    using snap_to_dict_parses [OF mk_snapshot_wf [OF assms(1)]] assms(2) st by auto
  from p obtain w ws where "mk_snapshot L w ws = Inr snap'"
    unfolding snap_from_dict_def guard_simps by blast
  with assms(1) eq have "snap' = snap" by (cases snap; cases snap') (simp add: mk_snapshot_Inr)
  with p show ?thesis by simp
qed

theorem snapshot_wire_roundtrip_witness:
  "\<exists>s. st_sign sample_lib [1] \<lparr>st_digest = str ''sha256:'' @ sha256_hex [], st_revoker = sample_key 1,
           st_issued_at = 20, st_signature = []\<rparr> = Inr s \<and>
       (\<exists>snap. mk_snapshot sample_lib (JInt 30) [s] = Inr snap \<and>
               snap_from_dict sample_lib (JObj (snap_to_dict snap)) = Inr snap)"
proof -
  let ?s = "\<lparr>st_digest = str ''sha256:'' @ sha256_hex [], st_revoker = sample_key 1,
           st_issued_at = 20, st_signature = []\<rparr>"
  have "json_ok (JObj (st_body ?s))"
    by (simp add: st_body_def REVOCATION_TYPE_def MAX_SAFE_INTEGER_def sample_key_def sha256_hex_def)
  then obtain m where m: "canonicalize (JObj (st_body ?s)) = Inr m" using canonicalize_ok by blast
  have wf: "st_wf ?s"
    using sample_ed25519
    by (simp add: st_wf_def is_digest_def sample_key_def sha256_hex_lower ed25519_correct_def)
  with m obtain s where s: "st_sign sample_lib [1] ?s = Inr s"
    by (auto simp: st_sign_def sample_key_def mk_statement_def st_wf_def hex_str_def)
  from st_sign_verifies [OF sample_ed25519 s] have v: "st_verified sample_lib s" and w: "st_wf s"
    by (simp_all add: st_verified_def)
  then obtain snap where snap: "mk_snapshot sample_lib (JInt 30) [s] = Inr snap"
    by (auto simp: mk_snapshot_def st_verified_def)
  from snapshot_wire_roundtrip [OF snap] w snap s show ?thesis by auto
qed

end
