(* ===== verification/Holder.thy ===== *)
theory Holder
  imports Challenge Revocation
begin

text \<open>
  Holder binding, \<open>ca2a_runtime/delegation/holder.py\<close>: the body a holder proof signs, building
  and verifying a proof, and its wire form. \<open>request_facts\<close> are the keyword arguments that the
  two sides share. The interpretation of \<open>canonical_document\<close> shows that a proof commits every
  one of them, the payload through its digest.
\<close>

record request_facts =
  rf_audience :: ustr
  rf_capability :: ustr
  rf_record_id :: ustr
  rf_sealed_payload :: "bytes option"
  rf_caller_key :: "ustr option"
  rf_parent_hash :: "ustr option"

record holder_proof =
  hp_challenge :: ustr
  hp_signature :: ustr

definition PROOF_DOMAIN :: ustr where
  "PROOF_DOMAIN = str ''ca2a-holder-proof-v1''"

definition payload_sha256 :: "bytes option \<Rightarrow> json" where
  "payload_sha256 p = opt_str (map_option sha256_hex p)"

definition proof_body :: "ustr \<Rightarrow> ustr \<Rightarrow> ustr \<Rightarrow> request_facts \<Rightarrow> jdict" where
  "proof_body challenge credential_id subject f =
     [(str ''domain'', JStr PROOF_DOMAIN),
      (str ''audience'', JStr (rf_audience f)),
      (str ''challenge'', JStr challenge),
      (str ''credential_id'', JStr credential_id),
      (str ''subject'', JStr subject),
      (str ''requested_capability'', JStr (rf_capability f)),
      (str ''record_id'', JStr (rf_record_id f)),
      (str ''payload_sha256'', payload_sha256 (rf_sealed_payload f)),
      (str ''caller_channel_key'', opt_str (rf_caller_key f)),
      (str ''parent_record_hash'', opt_str (rf_parent_hash f))]"

definition hp_to_dict :: "holder_proof \<Rightarrow> jdict" where
  "hp_to_dict p = [(str ''challenge'', JStr (hp_challenge p)), (str ''signature'', JStr (hp_signature p))]"

abbreviation holder_invalid :: "string \<Rightarrow> exn" where
  "holder_invalid m \<equiv> Ca2a HolderProofInvalid (str m) None"

definition hp_from_dict :: "json \<Rightarrow> holder_proof res" where
  "hp_from_dict v =
     bindE (expect (as_obj v) (holder_invalid ''holder_proof must be an object'')) (\<lambda>data.
     bindE (expect (nonempty_str (dict_get_none data (str ''challenge'')))
              (holder_invalid ''holder_proof.challenge must be a non-empty string'')) (\<lambda>challenge.
     bindE (expect (nonempty_str (dict_get_none data (str ''signature'')))
              (holder_invalid ''holder_proof.signature must be a non-empty string'')) (\<lambda>signature.
     Inr \<lparr>hp_challenge = challenge, hp_signature = signature\<rparr>)))"

definition build_holder_proof ::
  "lib \<Rightarrow> bytes \<Rightarrow> delegation_credential \<Rightarrow> ustr \<Rightarrow> request_facts \<Rightarrow> holder_proof res" where
  "build_holder_proof L private_key leaf challenge f =
     (if hex (ed_public L private_key) \<noteq> cred_subject leaf
      then raise HolderProofInvalid ''signing key does not match the leaf credential subject''
      else bindE (canonicalize (JObj (proof_body challenge (cred_id leaf) (cred_subject leaf) f))) (\<lambda>m.
           Inr \<lparr>hp_challenge = challenge, hp_signature = hex (ed_sign L private_key m)\<rparr>))"

text \<open>\<open>now\<close> is the clock that \<open>verify_challenge\<close> reads.\<close>

definition verify_holder_proof ::
  "lib \<Rightarrow> int \<Rightarrow> holder_proof \<Rightarrow> delegation_credential \<Rightarrow> bytes \<Rightarrow> request_facts \<Rightarrow> unit res" where
  "verify_holder_proof L now proof leaf challenge_secret f =
     bindE (catchE (verify_challenge L challenge_secret (hp_challenge proof) now) (is_class AttestationFailed) (\<lambda>e.
              Inl (Ca2a HolderProofInvalid (str ''holder proof challenge is not usable: '' @ exn_msg e) None))) (\<lambda>_.
     catchE (ed25519_check L (cred_subject leaf) (hp_signature proof)
               (proof_body (hp_challenge proof) (cred_id leaf) (cred_subject leaf) f)) is_signature_error (\<lambda>_.
       raise HolderProofInvalid ''holder proof signature failed to verify against the leaf subject''))"

section \<open>What a proof commits\<close>

type_synonym proof_statement = "ustr \<times> ustr \<times> ustr \<times> request_facts"

definition statement_body :: "proof_statement \<Rightarrow> jdict" where
  "statement_body st = (case st of (ch, cid, sub, f) \<Rightarrow> proof_body ch cid sub f)"

definition statement_core ::
  "proof_statement \<Rightarrow> (ustr \<times> ustr \<times> ustr) \<times> (ustr \<times> ustr \<times> ustr) \<times> (ustr option \<times> ustr option \<times> ustr option)" where
  "statement_core st = (case st of (ch, cid, sub, f) \<Rightarrow>
     ((ch, cid, sub), (rf_audience f, rf_capability f, rf_record_id f),
      (map_option sha256_hex (rf_sealed_payload f), rf_caller_key f, rf_parent_hash f)))"

lemma proof_body_get:
  "dict_get (proof_body ch cid sub f) (str ''domain'') = Some (JStr PROOF_DOMAIN)"
  "dict_get (proof_body ch cid sub f) (str ''audience'') = Some (JStr (rf_audience f))"
  "dict_get (proof_body ch cid sub f) (str ''challenge'') = Some (JStr ch)"
  "dict_get (proof_body ch cid sub f) (str ''credential_id'') = Some (JStr cid)"
  "dict_get (proof_body ch cid sub f) (str ''subject'') = Some (JStr sub)"
  "dict_get (proof_body ch cid sub f) (str ''requested_capability'') = Some (JStr (rf_capability f))"
  "dict_get (proof_body ch cid sub f) (str ''record_id'') = Some (JStr (rf_record_id f))"
  "dict_get (proof_body ch cid sub f) (str ''payload_sha256'') = Some (payload_sha256 (rf_sealed_payload f))"
  "dict_get (proof_body ch cid sub f) (str ''caller_channel_key'') = Some (opt_str (rf_caller_key f))"
  "dict_get (proof_body ch cid sub f) (str ''parent_record_hash'') = Some (opt_str (rf_parent_hash f))"
  by (simp_all add: proof_body_def)

interpretation proof_doc: canonical_document statement_body statement_core
proof
  fix x y :: proof_statement
  obtain ch cid sub f where x: "x = (ch, cid, sub, f)" by (cases x)
  obtain ch' cid' sub' f' where y: "y = (ch', cid', sub', f')" by (cases y)
  show "dict_wf (statement_body x)" "plain (JObj (statement_body x))"
    by (simp_all add: x statement_body_def proof_body_def payload_sha256_def)
  assume eq: "\<And>k. map_option jnorm (dict_get (statement_body x) k) = map_option jnorm (dict_get (statement_body y) k)"
  show "statement_core x = statement_core y"
    using eq [of "str ''audience''"] eq [of "str ''challenge''"] eq [of "str ''credential_id''"]
      eq [of "str ''subject''"] eq [of "str ''requested_capability''"] eq [of "str ''record_id''"]
      eq [of "str ''payload_sha256''"] eq [of "str ''caller_channel_key''"] eq [of "str ''parent_record_hash''"]
    by (simp add: x y statement_body_def statement_core_def proof_body_get payload_sha256_def)
qed

lemma statement_body_simp: "statement_body (ch, cid, sub, f) = proof_body ch cid sub f"
  by (simp add: statement_body_def)

lemmas catch_proof_signature = proof_doc.catch_signature [of L key sig "(ch, cid, sub, f)" for L key sig ch cid sub f,
    unfolded statement_body_simp]

lemma verify_holder_proof_iff:
  "verify_holder_proof L now p leaf secret f = Inr u \<longleftrightarrow>
     verify_challenge L secret (hp_challenge p) now = Inr () \<and>
     signature_ok L (cred_subject leaf) (hp_signature p) (proof_body (hp_challenge p) (cred_id leaf) (cred_subject leaf) f)"
  by (auto simp: verify_holder_proof_def guard_simps catch_proof_signature)

text \<open>Everything but the challenge scheme's own escape is a \<open>HolderProofInvalid\<close> without a record.\<close>

lemma verify_holder_proof_exn:
  assumes "verify_holder_proof L now p leaf secret f = Inl e"
  shows "(exn_class e = Some HolderProofInvalid \<or> e = PyExn UnicodeEncodeError) \<and> exn_record e = None"
proof -
  show ?thesis
  proof (cases "verify_challenge L secret (hp_challenge p) now")
    case (Inl e')
    from verify_challenge_exn [OF this] Inl assms show ?thesis
      by (auto simp: verify_holder_proof_def)
  next
    case (Inr u)
    with assms show ?thesis
      by (auto simp: verify_holder_proof_def catch_proof_signature split: if_splits)
  qed
qed

lemma build_holder_proof_signs:
  assumes "ed25519_correct L" and "build_holder_proof L k leaf ch f = Inr p"
  shows "hp_challenge p = ch \<and> length (hp_signature p) = 128 \<and>
    signature_ok L (cred_subject leaf) (hp_signature p) (proof_body ch (cred_id leaf) (cred_subject leaf) f)"
proof -
  from assms(2) obtain m where sub: "cred_subject leaf = hex (ed_public L k)"
    and m: "canonicalize (JObj (proof_body ch (cred_id leaf) (cred_subject leaf) f)) = Inr m"
    and p: "p = \<lparr>hp_challenge = ch, hp_signature = hex (ed_sign L k m)\<rparr>"
    by (auto simp: build_holder_proof_def bindE_Inr_iff split: if_splits)
  from signature_ok_sign [OF assms(1) m, of k] assms(1) show ?thesis by (simp add: p sub ed25519_correct_def)
qed

section \<open>Properties\<close>

text \<open>
  A proof built with the private half of the leaf's subject over a challenge that verifies is
  accepted for the request it was made for.
\<close>

theorem holder_proof_complete:
  assumes "ed25519_correct L" and "build_holder_proof L k leaf ch f = Inr p"
    and "verify_challenge L secret ch now = Inr ()"
  shows "verify_holder_proof L now p leaf secret f = Inr ()"
  using build_holder_proof_signs [OF assms(1,2)] assms(3) by (simp add: verify_holder_proof_iff)

definition sample_facts :: request_facts where
  "sample_facts = \<lparr>rf_audience = str ''callee'', rf_capability = str ''read'', rf_record_id = str ''r1'',
     rf_sealed_payload = None, rf_caller_key = None, rf_parent_hash = None\<rparr>"

lemma encodable_challenge: "list_all encodable sample_challenge"
proof -
  from sample_challenge_issued obtain m where m: "mac [1] (100 + 60) (hex (replicate 16 7)) = Inr m"
    and c: "sample_challenge = challenge_text (100 + 60) (hex (replicate 16 7)) @ [46] @ m"
    by (auto simp: issue_challenge_def Let_def bindE_Inr_iff)
  have "list_all encodable m" using mac_lower [OF m] by (rule encodable_lower_hex)
  moreover have "list_all encodable (challenge_text (100 + 60) (hex (replicate 16 7)))"
    unfolding challenge_text_def challenge_prefix_def list_all_append
    by (intro conjI encodable_str encodable_int_str encodable_hex) (simp_all add: encodable_ascii)
  ultimately show ?thesis unfolding c list_all_append by (simp add: encodable_ascii)
qed

lemma sample_proof:
  assumes "list_all encodable (rf_audience f)" "list_all encodable (rf_capability f)" "list_all encodable (rf_record_id f)"
    "\<forall>x. rf_caller_key f = Some x \<longrightarrow> list_all encodable x" "\<forall>x. rf_parent_hash f = Some x \<longrightarrow> list_all encodable x"
  shows "\<exists>p. build_holder_proof sample_lib [3] sample_leaf sample_challenge f = Inr p"
proof -
  have "list_all encodable (cred_subject sample_leaf)" by (simp add: sample_key_def)
  with assms have "json_ok (JObj (proof_body sample_challenge (cred_id sample_leaf) (cred_subject sample_leaf) f))"
    by (auto simp: proof_body_def PROOF_DOMAIN_def payload_sha256_def encodable_challenge sha256_hex_def)
  from canonicalize_ok [OF this] show ?thesis
    by (auto simp: build_holder_proof_def sample_key_def)
qed

theorem holder_proof_complete_witness:
  "\<exists>p. build_holder_proof sample_lib [3] sample_leaf sample_challenge sample_facts = Inr p \<and>
       verify_holder_proof sample_lib 120 p sample_leaf [1] sample_facts = Inr ()"
proof -
  obtain p where p: "build_holder_proof sample_lib [3] sample_leaf sample_challenge sample_facts = Inr p"
    using sample_proof [of sample_facts] by (auto simp: sample_facts_def)
  from holder_proof_complete [OF sample_ed25519 p sample_challenge_verifies] p show ?thesis by blast
qed

text \<open>
  A holder proof commits to the request. Two statements with the same signed bytes agree on
  the challenge, the credential and its subject, the audience, the capability, the record, the
  parent, the caller's channel key and the digest of the payload; so a signature made for one
  request never verifies as one made for another.
\<close>

theorem holder_proof_commits:
  assumes "canonicalize (JObj (proof_body ch cid sub f)) = Inr b"
    and "canonicalize (JObj (proof_body ch' cid' sub' f')) = Inr b"
  shows "ch = ch' \<and> cid = cid' \<and> sub = sub' \<and> rf_audience f = rf_audience f' \<and>
    rf_capability f = rf_capability f' \<and> rf_record_id f = rf_record_id f' \<and>
    rf_caller_key f = rf_caller_key f' \<and> rf_parent_hash f = rf_parent_hash f' \<and>
    map_option sha256 (rf_sealed_payload f) = map_option sha256 (rf_sealed_payload f')"
proof -
  have opt: "map_option sha256_hex x = map_option sha256_hex y \<Longrightarrow> map_option sha256 x = map_option sha256 y" for x y
    by (cases x; cases y) simp_all
  from proof_doc.same_bytes [of "(ch, cid, sub, f)" b "(ch', cid', sub', f')"] assms show ?thesis
    by (auto simp: statement_body_def statement_core_def dest: opt)
qed

theorem holder_proof_commits_witness:
  "\<exists>b. canonicalize (JObj (proof_body [99] [97] [98] sample_facts)) = Inr b \<and>
       (\<forall>cap. canonicalize (JObj (proof_body [99] [97] [98] (sample_facts\<lparr>rf_capability := cap\<rparr>))) = Inr b
              \<longrightarrow> cap = str ''read'')"
proof -
  have "json_ok (JObj (proof_body [99] [97] [98] sample_facts))"
    by (simp add: proof_body_def sample_facts_def PROOF_DOMAIN_def payload_sha256_def encodable_ascii)
  from canonicalize_ok [OF this] obtain b where b: "canonicalize (JObj (proof_body [99] [97] [98] sample_facts)) = Inr b"
    by blast
  have "cap = str ''read''"
    if "canonicalize (JObj (proof_body [99] [97] [98] (sample_facts\<lparr>rf_capability := cap\<rparr>))) = Inr b" for cap
    using holder_proof_commits [OF that b] by (simp add: sample_facts_def)
  with b show ?thesis by blast
qed

text \<open>
  C40: The three kinds of object an agent key signs are separated: no byte string is the canonical
  form of two of a credential body, a revocation statement and a holder proof.
\<close>

theorem signed_objects_separated:
  "\<not> (\<exists>b. canonicalize (JObj (cred_body c)) = Inr b \<and> canonicalize (JObj (st_body s)) = Inr b) \<and>
   \<not> (\<exists>b. canonicalize (JObj (cred_body c)) = Inr b \<and> canonicalize (JObj (proof_body ch cid sub f)) = Inr b) \<and>
   \<not> (\<exists>b. canonicalize (JObj (st_body s)) = Inr b \<and> canonicalize (JObj (proof_body ch cid sub f)) = Inr b)"
proof -
  have "str ''type'' \<in> dict_keys (st_body s)" "str ''type'' \<notin> dict_keys (cred_body c)"
    "str ''domain'' \<in> dict_keys (proof_body ch cid sub f)"
    "str ''domain'' \<notin> dict_keys (cred_body c)" "str ''domain'' \<notin> dict_keys (st_body s)"
    by (simp_all add: st_body_def cred_body_keys proof_body_def)
  then show ?thesis using canonicalize_keys by blast
qed

text \<open>The wire form of a holder proof parses back to it whenever its two fields are non-empty.\<close>

theorem holder_proof_wire_roundtrip:
  "hp_from_dict (JObj (hp_to_dict p)) = Inr p \<longleftrightarrow> hp_challenge p \<noteq> [] \<and> hp_signature p \<noteq> []"
  by (cases p) (auto simp: hp_from_dict_def hp_to_dict_def dict_get_none_def guard_simps)

end
