(* ===== verification/Attestation.thy ===== *)
theory Attestation
  imports Tee Holder
begin

text \<open>
  Channel offers and their appraisal, \<open>ca2a_runtime/attestation.py\<close>: minting an offer through a
  provider, appraising a callee's offer under a remembered nonce and a caller's offer under a
  challenge of this peer, and the caller's proof that it holds the offered channel key. The
  hardware verifier is the injected callback of the code, an argument of the definitions.
\<close>

type_synonym verifier = "attestation_report \<Rightarrow> ustr \<Rightarrow> ustr res"

record channel_offer =
  co_public_key :: ustr
  co_report :: attestation_report

record verified_peer =
  vp_public_key :: ustr
  vp_assurance :: ustr
  vp_measurement :: ustr

record caller_possession =
  pos_version :: ustr
  pos_mac :: ustr

section \<open>Offers\<close>

definition attest_channel ::
  "(ustr \<Rightarrow> ustr \<Rightarrow> ustr \<Rightarrow> attestation_report res) \<Rightarrow> ustr \<Rightarrow> ustr \<Rightarrow> ustr \<Rightarrow> channel_offer res" where
  "attest_channel attest public_key nonce role =
     bindE (attest public_key nonce role) (\<lambda>report.
     bindE (require (ar_role report = role) (Ca2a AttestationFailed
              (str ''the provider attested a different offer role than was requested'') None)) (\<lambda>_.
     Inr \<lparr>co_public_key = public_key, co_report = report\<rparr>))"

text \<open>\<open>offer_channel\<close> with the generated private key as an argument.\<close>

definition offer_channel ::
  "lib \<Rightarrow> (ustr \<Rightarrow> ustr \<Rightarrow> ustr \<Rightarrow> attestation_report res) \<Rightarrow> bytes \<Rightarrow> ustr \<Rightarrow> ustr \<Rightarrow> (bytes \<times> channel_offer) res" where
  "offer_channel L attest private_key nonce role =
     bindE (attest_channel attest (hex (x_public L private_key)) nonce role) (\<lambda>offer. Inr (private_key, offer))"

definition verify_offer ::
  "lib \<Rightarrow> channel_offer \<Rightarrow> ustr \<Rightarrow> verifier option \<Rightarrow> bool \<Rightarrow> ustr \<Rightarrow> verified_peer res" where
  "verify_offer L offer expected_nonce verifier require_hardware role =
     (let report = co_report offer in
      if ar_role report \<noteq> role
      then Inl (Ca2a AttestationFailed (str ''channel offer was minted for the '' @ py_repr L (JStr (ar_role report))
              @ str '' role, expected '' @ py_repr L (JStr role)) None)
      else if ar_public_key report \<noteq> co_public_key offer
      then raise AttestationFailed ''attestation report does not bind the offered channel key''
      else if ar_nonce report \<noteq> expected_nonce
      then raise AttestationFailed ''attestation report nonce does not match the expected nonce''
      else if ar_platform report = SOFTWARE_ONLY
      then (if require_hardware
            then raise AttestationFailed ''peer hardware attestation is required; software-only offer refused''
            else Inr \<lparr>vp_public_key = co_public_key offer, vp_assurance = str ''none'', vp_measurement = ar_measurement report\<rparr>)
      else (case verifier of
        None \<Rightarrow> Inl (Ca2a AttestationFailed (str ''a '' @ py_repr L (JStr (ar_platform report))
                     @ str '' report requires a hardware verifier'') None)
      | Some v \<Rightarrow>
          bindE (v report expected_nonce) (\<lambda>measurement.
          Inr \<lparr>vp_public_key = co_public_key offer, vp_assurance = str ''hardware'', vp_measurement = measurement\<rparr>)))"

definition appraise_caller ::
  "lib \<Rightarrow> int \<Rightarrow> channel_offer \<Rightarrow> bytes \<Rightarrow> verifier option \<Rightarrow> verified_peer res" where
  "appraise_caller L now offer challenge_secret verifier =
     bindE (verify_challenge L challenge_secret (ar_nonce (co_report offer)) now) (\<lambda>_.
     verify_offer L offer (ar_nonce (co_report offer)) verifier False ROLE_CALLER)"

section \<open>Proof of possession\<close>

definition CALLER_OFFER_VERSION :: ustr where
  "CALLER_OFFER_VERSION = str ''ca2a-caller-offer-v2''"

definition POSSESSION_KEY_INFO :: bytes where
  "POSSESSION_KEY_INFO = ascii_bytes ''ca2a/caller-possession/v2/key''"

definition POSSESSION_STATEMENT :: bytes where
  "POSSESSION_STATEMENT = ascii_bytes ''ca2a/caller-possession/v2/statement'' @ [0]"

definition pos_to_dict :: "caller_possession \<Rightarrow> jdict" where
  "pos_to_dict p = [(str ''version'', JStr (pos_version p)), (str ''mac'', JStr (pos_mac p))]"

definition pos_from_dict :: "json \<Rightarrow> caller_possession res" where
  "pos_from_dict v =
     bindE (expect (as_obj v) (attestation_failed ''caller_possession must be an object'')) (\<lambda>data.
     bindE (expect (nonempty_str (dict_get_none data (str ''version'')))
              (attestation_failed ''caller_possession.version must be a non-empty string'')) (\<lambda>version.
     bindE (expect (nonempty_str (dict_get_none data (str ''mac'')))
              (attestation_failed ''caller_possession.mac must be a non-empty string'')) (\<lambda>m.
     Inr \<lparr>pos_version = version, pos_mac = m\<rparr>)))"

record possession_claim =
  pc_challenge :: ustr
  pc_callee_key :: ustr
  pc_caller_key :: ustr
  pc_credential_id :: ustr
  pc_subject :: ustr
  pc_capability :: ustr
  pc_record_id :: ustr
  pc_sealed_payload :: "bytes option"
  pc_parent_hash :: "ustr option"
  pc_holder_signature :: "ustr option"

definition caller_possession_transcript :: "possession_claim \<Rightarrow> jdict" where
  "caller_possession_transcript c =
     [(str ''version'', JStr CALLER_OFFER_VERSION),
      (str ''challenge'', JStr (pc_challenge c)),
      (str ''callee_channel_key'', JStr (pc_callee_key c)),
      (str ''caller_channel_key'', JStr (pc_caller_key c)),
      (str ''credential_id'', JStr (pc_credential_id c)),
      (str ''subject'', JStr (pc_subject c)),
      (str ''requested_capability'', JStr (pc_capability c)),
      (str ''record_id'', JStr (pc_record_id c)),
      (str ''payload_sha256'', payload_sha256 (pc_sealed_payload c)),
      (str ''parent_record_hash'', opt_str (pc_parent_hash c)),
      (str ''holder_proof_signature'', opt_str (pc_holder_signature c))]"

definition possession_mac :: "lib \<Rightarrow> bytes \<Rightarrow> ustr \<Rightarrow> ustr \<Rightarrow> ustr \<Rightarrow> jdict \<Rightarrow> ustr res" where
  "possession_mac L private_key peer_public_key caller_channel_key callee_channel_key transcript =
     bindE (catchE
       (bindE (x_public_of_hex L peer_public_key) (\<lambda>peer.
        bindE (expect (x_exchange L private_key peer) (PyExn ValueError)) (\<lambda>shared.
        bindE (expect (fromhex caller_channel_key) (PyExn ValueError)) (\<lambda>a.
        bindE (expect (fromhex callee_channel_key) (PyExn ValueError)) (\<lambda>b.
        Inr (a @ b @ shared))))))
       is_value_error (\<lambda>_. raise AttestationFailed ''caller proof of possession could not be keyed'')) (\<lambda>ikm.
     bindE (canonicalize (JObj transcript)) (\<lambda>m.
     Inr (hmac_sha256_hex (hkdf L None POSSESSION_KEY_INFO ikm) (POSSESSION_STATEMENT @ m))))"

definition prove_caller_possession :: "lib \<Rightarrow> bytes \<Rightarrow> ustr \<Rightarrow> jdict \<Rightarrow> caller_possession res" where
  "prove_caller_possession L caller_private_key callee_channel_key transcript =
     (let caller_channel_key = hex (x_public L caller_private_key) in
      if dict_get_none transcript (str ''caller_channel_key'') \<noteq> JStr caller_channel_key
      then raise AttestationFailed ''possession transcript names a different caller channel key''
      else if dict_get_none transcript (str ''callee_channel_key'') \<noteq> JStr callee_channel_key
      then raise AttestationFailed ''possession transcript names a different callee channel key''
      else bindE (possession_mac L caller_private_key callee_channel_key caller_channel_key callee_channel_key transcript)
             (\<lambda>m. Inr \<lparr>pos_version = CALLER_OFFER_VERSION, pos_mac = m\<rparr>))"

definition verify_caller_possession ::
  "lib \<Rightarrow> caller_possession option \<Rightarrow> bytes \<Rightarrow> jdict \<Rightarrow> unit res" where
  "verify_caller_possession L possession callee_private_key transcript =
     (case possession of
        None \<Rightarrow> raise AttestationFailed ''caller offer carries no proof of possession of its channel key''
      | Some p \<Rightarrow>
          if pos_version p \<noteq> CALLER_OFFER_VERSION
          then raise AttestationFailed ''caller proof of possession has an unsupported version''
          else
            let callee_channel_key = hex (x_public L callee_private_key) in
            if dict_get_none transcript (str ''callee_channel_key'') \<noteq> JStr callee_channel_key
            then raise AttestationFailed ''possession transcript names a different callee channel key''
            else
              let caller_channel_key = py_str L (dict_get_none transcript (str ''caller_channel_key'')) in
              bindE (possession_mac L callee_private_key caller_channel_key caller_channel_key callee_channel_key transcript) (\<lambda>expected.
              bindE (encode (pos_mac p)) (\<lambda>got.
              bindE (encode expected) (\<lambda>want.
              if got \<noteq> want then raise AttestationFailed ''caller proof of possession did not verify''
              else Inr ()))))"

definition seal_to_peer :: "lib \<Rightarrow> verified_peer \<Rightarrow> bytes \<Rightarrow> bytes \<Rightarrow> bytes \<Rightarrow> bytes \<Rightarrow> bytes res" where
  "seal_to_peer L peer eph_priv nonce payload aad = seal_to_key L (vp_public_key peer) eph_priv nonce payload aad"

section \<open>Appraisal\<close>

definition offer_bound :: "channel_offer \<Rightarrow> ustr \<Rightarrow> ustr \<Rightarrow> bool" where
  "offer_bound offer nonce role \<longleftrightarrow>
     ar_role (co_report offer) = role \<and> ar_public_key (co_report offer) = co_public_key offer \<and>
     ar_nonce (co_report offer) = nonce"

lemma verify_offer_Inr_iff:
  "verify_offer L offer nonce v rh role = Inr peer \<longleftrightarrow>
     offer_bound offer nonce role \<and> vp_public_key peer = co_public_key offer \<and>
     (if ar_platform (co_report offer) = SOFTWARE_ONLY
      then \<not> rh \<and> vp_assurance peer = str ''none'' \<and> vp_measurement peer = ar_measurement (co_report offer)
      else vp_assurance peer = str ''hardware'' \<and>
           (\<exists>f. v = Some f \<and> f (co_report offer) nonce = Inr (vp_measurement peer)))"
  by (cases peer) (auto simp: verify_offer_def offer_bound_def Let_def guard_simps split: option.splits)

lemma appraise_caller_Inr_iff:
  "appraise_caller L now offer secret v = Inr peer \<longleftrightarrow>
     verify_challenge L secret (ar_nonce (co_report offer)) now = Inr () \<and>
     verify_offer L offer (ar_nonce (co_report offer)) v False ROLE_CALLER = Inr peer"
  by (simp add: appraise_caller_def bindE_Inr_iff)

lemma transcript_get:
  "dict_get_none (caller_possession_transcript c) (str ''caller_channel_key'') = JStr (pc_caller_key c)"
  "dict_get_none (caller_possession_transcript c) (str ''callee_channel_key'') = JStr (pc_callee_key c)"
  by (simp_all add: caller_possession_transcript_def dict_get_none_def)

definition claim_core :: "possession_claim \<Rightarrow> possession_claim \<times> ustr option" where
  "claim_core c = (c\<lparr>pc_sealed_payload := None\<rparr>, map_option sha256_hex (pc_sealed_payload c))"

interpretation claim_doc: canonical_document caller_possession_transcript claim_core
proof
  fix x y :: possession_claim
  let ?t = caller_possession_transcript
  show "dict_wf (?t x)" "plain (JObj (?t x))"
    by (simp_all add: caller_possession_transcript_def payload_sha256_def)
  assume eq: "\<And>k. map_option jnorm (dict_get (?t x) k) = map_option jnorm (dict_get (?t y) k)"
  show "claim_core x = claim_core y"
    using eq [of "str ''challenge''"] eq [of "str ''callee_channel_key''"] eq [of "str ''caller_channel_key''"]
      eq [of "str ''credential_id''"] eq [of "str ''subject''"] eq [of "str ''requested_capability''"]
      eq [of "str ''record_id''"] eq [of "str ''payload_sha256''"] eq [of "str ''parent_record_hash''"]
      eq [of "str ''holder_proof_signature''"]
    by (cases x; cases y) (simp add: caller_possession_transcript_def claim_core_def payload_sha256_def)
qed

lemma possession_mac_lower: "possession_mac L k pk a b t = Inr m \<Longrightarrow> lower_hex_of_len 64 m"
  by (auto simp: possession_mac_def bindE_Inr_iff)

lemma utf8_lower_hex: "lower_hex_of_len n m \<Longrightarrow> \<exists>b. utf8 m = Some b"
  by (auto simp: lower_hex_of_len_def dest: lower_hex_ascii utf8_ascii)

lemma verify_caller_possession_Inr_iff:
  "verify_caller_possession L po k (caller_possession_transcript c) = Inr u \<longleftrightarrow>
     (\<exists>p. po = Some p \<and> pos_version p = CALLER_OFFER_VERSION \<and> pc_callee_key c = hex (x_public L k) \<and>
        possession_mac L k (pc_caller_key c) (pc_caller_key c) (pc_callee_key c) (caller_possession_transcript c) = Inr (pos_mac p))"
  by (auto simp: verify_caller_possession_def transcript_get Let_def guard_simps encode_def
      dest: utf8_inj possession_mac_lower [THEN utf8_lower_hex] split: option.splits)

text \<open>Both ends compute the same MAC.\<close>

lemma possession_mac_agrees:
  assumes "x25519_correct L"
  shows "possession_mac L k (hex (x_public L e)) (hex (x_public L e)) (hex (x_public L k)) t =
         possession_mac L e (hex (x_public L k)) (hex (x_public L e)) (hex (x_public L k)) t"
proof -
  have "x_exchange L k (x_public L e) = x_exchange L e (x_public L k)"
    using assms by (simp add: x25519_correct_def)
  with assms show ?thesis by (simp add: possession_mac_def)
qed

lemma prove_then_verify:
  assumes "x25519_correct L"
    and "prove_caller_possession L e (hex (x_public L k)) (caller_possession_transcript c) = Inr p"
    and "pc_callee_key c = hex (x_public L k)"
  shows "verify_caller_possession L (Some p) k (caller_possession_transcript c) = Inr ()"
proof -
  from assms(2) have "pc_caller_key c = hex (x_public L e)" "pos_version p = CALLER_OFFER_VERSION"
    and "possession_mac L e (hex (x_public L k)) (hex (x_public L e)) (hex (x_public L k)) (caller_possession_transcript c) = Inr (pos_mac p)"
    by (auto simp: prove_caller_possession_def Let_def transcript_get bindE_Inr_iff split: if_splits)
  then show ?thesis
    using assms(3) possession_mac_agrees [OF assms(1)] by (simp add: verify_caller_possession_Inr_iff)
qed

lemma verify_caller_possession_exn:
  assumes "verify_caller_possession L po k (caller_possession_transcript c) = Inl e"
  shows "(exn_class e = Some AttestationFailed \<or> is_value_error e) \<and> exn_record e = None"
proof -
  have pm: "(exn_class e = Some AttestationFailed \<or> is_value_error e) \<and> exn_record e = None"
    if "possession_mac L k pk a b (caller_possession_transcript c) = Inl e" for pk a b e
    using that canonicalize_exn [OF claim_doc.body_plain, of c]
    by (auto simp: possession_mac_def x_public_of_hex_def guard_simps)
  show ?thesis
    using assms
    by (auto simp: verify_caller_possession_def Let_def guard_simps encode_def dest: pm split: option.splits if_splits)
qed

section \<open>Properties\<close>

text \<open>
  An offer is appraised exactly when its report was minted for the expected role, binds the
  offered key and carries the expected nonce, and its platform is software (then the assurance is
  none, and hardware was not demanded) or the hardware verifier accepted the report (then, and only
  then, the assurance is hardware and the measurement is the verifier's).
\<close>

theorem offer_appraisal_correct:
  "verify_offer L offer nonce v rh role = Inr peer \<longleftrightarrow>
     offer_bound offer nonce role \<and> vp_public_key peer = co_public_key offer \<and>
     (if ar_platform (co_report offer) = SOFTWARE_ONLY
      then \<not> rh \<and> vp_assurance peer = str ''none'' \<and> vp_measurement peer = ar_measurement (co_report offer)
      else vp_assurance peer = str ''hardware'' \<and>
           (\<exists>f. v = Some f \<and> f (co_report offer) nonce = Inr (vp_measurement peer)))"
  by (rule verify_offer_Inr_iff)

text \<open>
  A caller that holds the private half of its offered channel key convinces the callee: the
  proof of possession it computes over a transcript verifies under the callee's own private key.
\<close>

theorem possession_complete:
  assumes "x25519_correct L"
    and "prove_caller_possession L e (hex (x_public L k)) (caller_possession_transcript c) = Inr p"
    and "pc_callee_key c = hex (x_public L k)"
  shows "verify_caller_possession L (Some p) k (caller_possession_transcript c) = Inr ()"
  using assms by (rule prove_then_verify)

definition sample_claim :: possession_claim where
  "sample_claim = \<lparr>pc_challenge = str ''c'', pc_callee_key = hex (x_public sample_lib [5]),
     pc_caller_key = hex (x_public sample_lib [6]), pc_credential_id = str ''leaf'', pc_subject = str ''s'',
     pc_capability = str ''read'', pc_record_id = str ''r1'', pc_sealed_payload = None, pc_parent_hash = None,
     pc_holder_signature = None\<rparr>"

theorem possession_complete_witness:
  "\<exists>p. prove_caller_possession sample_lib [6] (hex (x_public sample_lib [5])) (caller_possession_transcript sample_claim) = Inr p \<and>
       verify_caller_possession sample_lib (Some p) [5] (caller_possession_transcript sample_claim) = Inr ()"
proof -
  have "json_ok (JObj (caller_possession_transcript sample_claim))"
    by (simp add: caller_possession_transcript_def sample_claim_def CALLER_OFFER_VERSION_def payload_sha256_def)
  then obtain m where m: "canonicalize (JObj (caller_possession_transcript sample_claim)) = Inr m"
    using canonicalize_ok by blast
  have "x_exchange sample_lib [6] (x_public sample_lib [5]) \<noteq> None" by (simp add: sample_lib_def)
  with m obtain p where p: "prove_caller_possession sample_lib [6] (hex (x_public sample_lib [5]))
      (caller_possession_transcript sample_claim) = Inr p"
    by (auto simp: prove_caller_possession_def Let_def transcript_get sample_claim_def possession_mac_def sample_x25519)
  have "pc_callee_key sample_claim = hex (x_public sample_lib [5])" by (simp add: sample_claim_def)
  from possession_complete [OF sample_x25519 p this] p show ?thesis by blast
qed

end
