(* ===== verification/Policy.thy ===== *)
theory Policy
  imports Extern
begin

text \<open>
  The callee's local policy, \<open>ca2a_runtime/policy.py\<close> and \<open>ca2a_runtime/cedar.py\<close>. The
  protocol \<open>Policy\<close> is the locale \<open>policy_contract\<close>: the capabilities that survive the
  intersection are the delegated ones the policy permits. Both implementations are interpreted:
  the allow set and the Cedar policy, whose verdicts are those of the engine.
\<close>

record cedar_policy =
  cp_policies :: ustr
  cp_principal_type :: ustr
  cp_principal_id :: ustr
  cp_resource_type :: ustr
  cp_resource_id :: ustr

definition local_intersect :: "ustr fset \<Rightarrow> ustr fset \<Rightarrow> ustr fset" where
  "local_intersect allow delegated = delegated |\<inter>| allow"

definition local_permits :: "ustr fset \<Rightarrow> ustr \<Rightarrow> bool" where
  "local_permits allow capability \<longleftrightarrow> capability |\<in>| allow"

definition local_of :: "ustr list \<Rightarrow> ustr fset" where
  "local_of caps = fset_of_list caps"

definition cedar_default :: "ustr \<Rightarrow> cedar_policy" where
  "cedar_default policies = \<lparr>cp_policies = policies, cp_principal_type = str ''Agent'', cp_principal_id = str ''peer'',
     cp_resource_type = str ''Task'', cp_resource_id = str ''task''\<rparr>"

definition cedar_request :: "cedar_policy \<Rightarrow> ustr \<Rightarrow> json" where
  "cedar_request p capability = JObj
     [(str ''principal'', JObj [(str ''type'', JStr (cp_principal_type p)), (str ''id'', JStr (cp_principal_id p))]),
      (str ''action'', JObj [(str ''type'', JStr (str ''Action'')), (str ''id'', JStr capability)]),
      (str ''resource'', JObj [(str ''type'', JStr (cp_resource_type p)), (str ''id'', JStr (cp_resource_id p))]),
      (str ''context'', JObj [])]"

definition cedar_permits :: "lib \<Rightarrow> cedar_policy \<Rightarrow> ustr \<Rightarrow> bool" where
  "cedar_permits L p capability = cedar_allows L (cedar_request p capability) (cp_policies p)"

definition cedar_intersect :: "lib \<Rightarrow> cedar_policy \<Rightarrow> ustr fset \<Rightarrow> ustr fset" where
  "cedar_intersect L p delegated = ffilter (cedar_permits L p) delegated"

section \<open>The protocol\<close>

locale policy_contract =
  fixes intersect :: "ustr fset \<Rightarrow> ustr fset" and permits :: "ustr \<Rightarrow> bool"
  assumes intersect_iff: "c |\<in>| intersect d \<longleftrightarrow> c |\<in>| d \<and> permits c"
begin

lemma intersect_sub: "intersect d |\<subseteq>| d"
  by (auto simp: intersect_iff)

lemma intersect_mono: "d |\<subseteq>| e \<Longrightarrow> intersect d |\<subseteq>| intersect e"
  by (auto simp: intersect_iff)

lemma intersect_idem: "intersect (intersect d) = intersect d"
  by (rule fset_eqI) (simp add: intersect_iff)

lemma intersect_union: "intersect (d |\<union>| e) = intersect d |\<union>| intersect e"
  by (rule fset_eqI) (auto simp: intersect_iff)

end

interpretation local_policy: policy_contract "local_intersect allow" "local_permits allow" for allow
  by unfold_locales (simp add: local_intersect_def local_permits_def)

interpretation cedar: policy_contract "cedar_intersect L p" "cedar_permits L p" for L p
  by unfold_locales (auto simp: cedar_intersect_def)

section \<open>Policies as values\<close>

datatype policy = LocalPolicy "ustr fset" | CedarPolicy cedar_policy

fun policy_intersect :: "lib \<Rightarrow> policy \<Rightarrow> ustr fset \<Rightarrow> ustr fset" where
  "policy_intersect L (LocalPolicy allow) d = local_intersect allow d"
| "policy_intersect L (CedarPolicy p) d = cedar_intersect L p d"

fun policy_permits :: "lib \<Rightarrow> policy \<Rightarrow> ustr \<Rightarrow> bool" where
  "policy_permits L (LocalPolicy allow) c = local_permits allow c"
| "policy_permits L (CedarPolicy p) c = cedar_permits L p c"

interpretation any_policy: policy_contract "policy_intersect L p" "policy_permits L p" for L p
proof
  fix c d
  show "c |\<in>| policy_intersect L p d \<longleftrightarrow> c |\<in>| d \<and> policy_permits L p c"
    by (cases p) (simp_all add: local_policy.intersect_iff cedar.intersect_iff)
qed

end
