(* ===== verification/Chain.thy ===== *)
theory Chain
  imports Revocation
begin

text \<open>
  Verification of a root-to-leaf delegation chain: \<open>verify_chain\<close> and \<open>_check_revocation\<close> of
  \<open>ca2a_runtime/delegation/credential.py\<close>, with every refusal in the order of the code. The
  declarative reading, \<open>chain_valid\<close> and \<open>chain_unrevoked\<close>, is proved equivalent, and the
  guarantees of a verified chain follow from it: narrowing scopes, depths that count the hops,
  continuity from a trusted root, closure under prefixes and extension by a delegate.
\<close>

section \<open>The verifier\<close>

definition hop_msg :: "nat \<Rightarrow> string \<Rightarrow> ustr" where
  "hop_msg i m = str ''hop '' @ nat_str i @ str m"

abbreviation refuse :: "err_class \<Rightarrow> ustr \<Rightarrow> exn" where
  "refuse c m \<equiv> Ca2a c m None"

definition check_window :: "int \<Rightarrow> nat \<Rightarrow> delegation_credential \<Rightarrow> unit res" where
  "check_window now i c =
     bindE (require (\<not> (\<exists>b \<in> set_option (cred_not_before c). now < b))
              (refuse CredentialNotYetValid (hop_msg i '' credential is not yet valid''))) (\<lambda>_.
     require (\<not> (\<exists>b \<in> set_option (cred_not_after c). now > b))
              (refuse CredentialExpired (hop_msg i '' credential has expired'')))"

definition check_root :: "delegation_credential \<Rightarrow> unit res" where
  "check_root c =
     bindE (require (cred_parent_id c = None)
              (refuse BrokenDelegationLink (str ''root credential must not name a parent''))) (\<lambda>_.
     require (cred_depth c = 0)
              (refuse BrokenDelegationLink (str ''root credential must have depth 0'')))"

definition check_link :: "nat \<Rightarrow> delegation_credential \<Rightarrow> delegation_credential \<Rightarrow> unit res" where
  "check_link i prev c =
     bindE (require (cred_parent_id c = Some (cred_id prev))
              (refuse BrokenDelegationLink (hop_msg i '' parent_id does not match previous credential_id''))) (\<lambda>_.
     bindE (require (cred_issuer c = cred_subject prev)
              (refuse BrokenDelegationLink (hop_msg i '' issuer is not the previous hop's subject''))) (\<lambda>_.
     bindE (require (cred_depth c = cred_depth prev + 1)
              (refuse BrokenDelegationLink (hop_msg i '' depth is not previous + 1''))) (\<lambda>_.
     require (cred_scope c |\<subseteq>| cred_scope prev)
              (refuse ScopeEscalation (hop_msg i '' scope exceeds parent grant'')))))"

text \<open>One iteration of the loop: \<open>seen\<close> and \<open>prev\<close> are its variables.\<close>

definition check_hop ::
  "lib \<Rightarrow> int \<Rightarrow> int \<Rightarrow> nat \<Rightarrow> ustr set \<Rightarrow> delegation_credential option \<Rightarrow> delegation_credential \<Rightarrow> unit res" where
  "check_hop L max_depth now i seen prev c =
     bindE (cred_verify_signature L c) (\<lambda>_.
     bindE (check_window now i c) (\<lambda>_.
     bindE (require (cred_id c \<notin> seen)
              (refuse CredentialReplay (str ''duplicate credential_id at hop '' @ nat_str i @ str '': '' @ cred_id c))) (\<lambda>_.
     bindE (require (\<not> cred_depth c > max_depth)
              (refuse DelegationDepthExceeded
                 (hop_msg i '' depth '' @ int_str (cred_depth c) @ str '' exceeds max '' @ int_str max_depth))) (\<lambda>_.
     (case prev of None \<Rightarrow> check_root c | Some p \<Rightarrow> check_link i p c)))))"

fun verify_hops ::
  "lib \<Rightarrow> int \<Rightarrow> int \<Rightarrow> nat \<Rightarrow> ustr set \<Rightarrow> delegation_credential option \<Rightarrow> delegation_credential list \<Rightarrow> unit res" where
  "verify_hops L max_depth now i seen prev [] = Inr ()"
| "verify_hops L max_depth now i seen prev (c # cs) =
     bindE (check_hop L max_depth now i seen prev c) (\<lambda>_.
     verify_hops L max_depth now (Suc i) (insert (cred_id c) seen) (Some c) cs)"

text \<open>The revocation loop: \<open>authorities\<close> grows by the issuer of each hop.\<close>

fun check_revoked ::
  "revocation_snapshot \<Rightarrow> int option \<Rightarrow> nat \<Rightarrow> ustr set \<Rightarrow> delegation_credential list \<Rightarrow> unit res" where
  "check_revoked snap at_time i authorities [] = Inr ()"
| "check_revoked snap at_time i authorities (c # cs) =
     bindE (credential_digest c) (\<lambda>digest.
     (case effective_revocation snap digest (insert (cred_issuer c) authorities) at_time of
        Some _ \<Rightarrow> Inl (refuse CredentialRevoked (hop_msg i '' credential has been revoked''))
      | None \<Rightarrow> check_revoked snap at_time (Suc i) (insert (cred_issuer c) authorities) cs))"

definition check_revocation ::
  "delegation_credential list \<Rightarrow> revocation_snapshot option \<Rightarrow> int option \<Rightarrow> int \<Rightarrow> int option \<Rightarrow> revocation_status res" where
  "check_revocation chain revocations at_time now max_staleness =
     (case revocations of
        None \<Rightarrow>
          (if max_staleness \<noteq> None
           then raise RevocationStatusUnknown ''revocation status is required but no revocation snapshot was supplied''
           else Inr REVOCATION_NOT_CHECKED)
      | Some snap \<Rightarrow>
          bindE (check_revoked snap at_time 0 {} chain) (\<lambda>_.
          bindE (require (\<not> (\<exists>m \<in> set_option max_staleness. now - snap_as_of snap > m))
                   (refuse RevocationStatusUnknown (str ''revocation snapshot is older than this verifier accepts''))) (\<lambda>_.
          Inr \<lparr>rs_checked = True, rs_as_of = Some (snap_as_of snap)\<rparr>)))"

text \<open>The keyword arguments of a call and the clock it reads.\<close>

record chain_args =
  ca_max_depth :: int
  ca_trusted :: "ustr set"
  ca_at_time :: "int option"
  ca_revocations :: "revocation_snapshot option"
  ca_max_staleness :: "int option"
  ca_clock :: int

definition eval_time :: "chain_args \<Rightarrow> int" where
  "eval_time a = (case ca_at_time a of None \<Rightarrow> ca_clock a | Some t \<Rightarrow> t)"

definition verify_chain :: "lib \<Rightarrow> chain_args \<Rightarrow> delegation_credential list \<Rightarrow> revocation_status res" where
  "verify_chain L a chain =
     (if \<exists>t \<in> set_option (ca_at_time a). t < 0 then Inl (PyExn ValueError)
      else if \<exists>m \<in> set_option (ca_max_staleness a). m < 0 then Inl (PyExn ValueError)
      else (case chain of
        [] \<Rightarrow> raise BrokenDelegationLink ''empty delegation chain''
      | c0 # _ \<Rightarrow>
          if cred_issuer c0 \<notin> ca_trusted a
          then raise UntrustedDelegationRoot ''delegation root issuer is not trusted by this peer''
          else bindE (verify_hops L (ca_max_depth a) (eval_time a) 0 {} None chain) (\<lambda>_.
               check_revocation chain (ca_revocations a) (ca_at_time a) (eval_time a) (ca_max_staleness a))))"

section \<open>The declarative reading\<close>

definition in_window :: "int \<Rightarrow> delegation_credential \<Rightarrow> bool" where
  "in_window now c \<longleftrightarrow>
     (\<forall>b \<in> set_option (cred_not_before c). b \<le> now) \<and> (\<forall>b \<in> set_option (cred_not_after c). now \<le> b)"

definition cred_signed :: "lib \<Rightarrow> delegation_credential \<Rightarrow> bool" where
  "cred_signed L c \<longleftrightarrow> cred_verify_signature L c = Inr ()"

definition delegates :: "delegation_credential \<Rightarrow> delegation_credential \<Rightarrow> bool" where
  "delegates p c \<longleftrightarrow>
     cred_parent_id c = Some (cred_id p) \<and> cred_issuer c = cred_subject p \<and>
     cred_depth c = cred_depth p + 1 \<and> cred_scope c |\<subseteq>| cred_scope p"

definition chain_valid :: "lib \<Rightarrow> int \<Rightarrow> ustr set \<Rightarrow> int \<Rightarrow> delegation_credential list \<Rightarrow> bool" where
  "chain_valid L max_depth trusted now chain \<longleftrightarrow>
     chain \<noteq> [] \<and> cred_issuer (hd chain) \<in> trusted \<and>
     cred_parent_id (hd chain) = None \<and> cred_depth (hd chain) = 0 \<and>
     (\<forall>c \<in> set chain. cred_signed L c \<and> in_window now c \<and> cred_depth c \<le> max_depth) \<and>
     distinct (map cred_id chain) \<and> successively delegates chain"

text \<open>No statement of an issuer at or above a hop is in force against it.\<close>

definition chain_unrevoked :: "revocation_snapshot \<Rightarrow> int option \<Rightarrow> delegation_credential list \<Rightarrow> bool" where
  "chain_unrevoked snap at_time chain \<longleftrightarrow>
     (\<forall>i < length chain. \<forall>d. credential_digest (chain ! i) = Inr d \<longrightarrow>
        effective_revocation snap d (cred_issuer ` set (take (Suc i) chain)) at_time = None)"

definition revocation_ok :: "chain_args \<Rightarrow> delegation_credential list \<Rightarrow> revocation_status \<Rightarrow> bool" where
  "revocation_ok a chain status \<longleftrightarrow>
     (case ca_revocations a of
        None \<Rightarrow> ca_max_staleness a = None \<and> status = REVOCATION_NOT_CHECKED
      | Some snap \<Rightarrow> chain_unrevoked snap (ca_at_time a) chain \<and>
          (\<forall>m \<in> set_option (ca_max_staleness a). eval_time a - snap_as_of snap \<le> m) \<and>
          status = \<lparr>rs_checked = True, rs_as_of = Some (snap_as_of snap)\<rparr>)"

definition args_ok :: "chain_args \<Rightarrow> bool" where
  "args_ok a \<longleftrightarrow>
     (\<forall>t \<in> set_option (ca_at_time a). 0 \<le> t) \<and> (\<forall>m \<in> set_option (ca_max_staleness a). 0 \<le> m)"

section \<open>Equivalence\<close>

lemmas hop_checks = check_hop_def check_window_def check_root_def check_link_def

lemma check_hop_None:
  "check_hop L md now i seen None c = Inr u \<longleftrightarrow>
     cred_signed L c \<and> in_window now c \<and> cred_depth c \<le> md \<and> cred_id c \<notin> seen \<and>
     cred_parent_id c = None \<and> cred_depth c = 0"
  by (auto simp: hop_checks guard_simps cred_signed_def in_window_def not_less)

lemma check_hop_Some:
  "check_hop L md now i seen (Some p) c = Inr u \<longleftrightarrow>
     cred_signed L c \<and> in_window now c \<and> cred_depth c \<le> md \<and> cred_id c \<notin> seen \<and> delegates p c"
  by (auto simp: hop_checks guard_simps cred_signed_def in_window_def not_less delegates_def)

lemma verify_hops_Some:
  "verify_hops L md now i seen (Some p) cs = Inr u \<longleftrightarrow>
     (\<forall>c \<in> set cs. cred_signed L c \<and> in_window now c \<and> cred_depth c \<le> md) \<and>
     distinct (map cred_id cs) \<and> cred_id ` set cs \<inter> seen = {} \<and> successively delegates (p # cs)"
  by (induction cs arbitrary: i seen p)
     (auto simp: guard_simps check_hop_Some successively_Cons)

lemma verify_hops_chain:
  assumes "chain \<noteq> []" and "cred_issuer (hd chain) \<in> trusted"
  shows "verify_hops L md now 0 {} None chain = Inr u \<longleftrightarrow> chain_valid L md trusted now chain"
proof (cases chain)
  case (Cons c cs)
  with assms show ?thesis
    by (auto simp: guard_simps check_hop_None verify_hops_Some chain_valid_def)
qed (use assms in simp)

lemma cred_signed_digest:
  assumes "cred_signed L c"
  shows "\<exists>d. credential_digest c = Inr d"
  using assms unfolding cred_signed_def cred_verify_signature_iff signature_ok_iff credential_digest_def
  by auto

lemma check_revoked_iff:
  assumes "\<forall>c \<in> set cs. \<exists>d. credential_digest c = Inr d"
  shows "check_revoked snap t i A cs = Inr u \<longleftrightarrow>
     (\<forall>j < length cs. \<forall>d. credential_digest (cs ! j) = Inr d \<longrightarrow>
        effective_revocation snap d (A \<union> cred_issuer ` set (take (Suc j) cs)) t = None)"
  using assms
proof (induction cs arbitrary: i A)
  case (Cons c cs)
  then obtain d where d: "credential_digest c = Inr d" by auto
  have "check_revoked snap t i A (c # cs) = Inr u \<longleftrightarrow>
      effective_revocation snap d (insert (cred_issuer c) A) t = None \<and>
      check_revoked snap t (Suc i) (insert (cred_issuer c) A) cs = Inr u"
    by (simp add: d split: option.split)
  with Cons d show ?case by (simp add: All_less_Suc2)
qed simp

lemma check_revocation_iff:
  assumes "\<forall>c \<in> set chain. cred_signed L c"
  shows "check_revocation chain (ca_revocations a) (ca_at_time a) (eval_time a) (ca_max_staleness a) = Inr status
     \<longleftrightarrow> revocation_ok a chain status"
proof -
  have "\<forall>c \<in> set chain. \<exists>d. credential_digest c = Inr d" using assms cred_signed_digest by blast
  from check_revoked_iff [OF this] show ?thesis
    by (auto simp: check_revocation_def revocation_ok_def chain_unrevoked_def guard_simps not_less
        split: option.split)
qed

lemma verify_chain_Inr_iff:
  "verify_chain L a chain = Inr status \<longleftrightarrow>
     args_ok a \<and> chain_valid L (ca_max_depth a) (ca_trusted a) (eval_time a) chain \<and> revocation_ok a chain status"
proof (cases "args_ok a \<and> chain \<noteq> [] \<and> cred_issuer (hd chain) \<in> ca_trusted a")
  case True
  then have "verify_chain L a chain =
      bindE (verify_hops L (ca_max_depth a) (eval_time a) 0 {} None chain) (\<lambda>_.
      check_revocation chain (ca_revocations a) (ca_at_time a) (eval_time a) (ca_max_staleness a))"
    by (cases chain) (auto simp: verify_chain_def args_ok_def not_less)
  also have "\<dots> = Inr status \<longleftrightarrow>
      chain_valid L (ca_max_depth a) (ca_trusted a) (eval_time a) chain \<and> revocation_ok a chain status"
    using True check_revocation_iff [of chain L a status]
    by (auto simp: guard_simps verify_hops_chain [where trusted = "ca_trusted a"] chain_valid_def)
  finally show ?thesis using True by simp
next
  case False
  then show ?thesis
    by (cases chain) (auto simp: verify_chain_def args_ok_def chain_valid_def not_less split: if_splits)
qed

section \<open>Guarantees of a valid chain\<close>

lemma successively_delegates_sorted:
  "successively delegates chain \<Longrightarrow> sorted_wrt (\<lambda>p c. cred_scope c |\<subseteq>| cred_scope p) chain"
proof -
  assume "successively delegates chain"
  then have "successively (\<lambda>p c. cred_scope c |\<subseteq>| cred_scope p) chain"
    by (rule successively_mono) (simp_all add: delegates_def)
  moreover have "transp (\<lambda>p c. cred_scope c |\<subseteq>| cred_scope p)"
    by (rule transpI) (rule fsubset_trans)
  ultimately show ?thesis using successively_conv_sorted_wrt by blast
qed

lemma chain_valid_scope:
  assumes "chain_valid L md trusted now chain" and "i \<le> j" and "j < length chain"
  shows "cred_scope (chain ! j) |\<subseteq>| cred_scope (chain ! i)"
proof (cases "i = j")
  case False
  from assms(1) have "sorted_wrt (\<lambda>p c. cred_scope c |\<subseteq>| cred_scope p) chain"
    by (simp add: chain_valid_def successively_delegates_sorted)
  with False assms(2,3) show ?thesis by (simp add: sorted_wrt_iff_nth_less)
qed simp

lemma chain_valid_link:
  assumes "chain_valid L md trusted now chain" and "Suc i < length chain"
  shows "delegates (chain ! i) (chain ! Suc i)"
proof -
  have "successively delegates chain" using assms(1) by (simp add: chain_valid_def)
  then have "successively delegates (take i chain @ chain ! i # chain ! Suc i # drop (Suc (Suc i)) chain)"
    using assms(2) by (metis Cons_nth_drop_Suc Suc_lessD append_take_drop_id)
  then show ?thesis by (simp add: successively_append_iff)
qed

lemma chain_valid_depth:
  assumes "chain_valid L md trusted now chain" and "i < length chain"
  shows "cred_depth (chain ! i) = int i"
  using assms(2)
proof (induction i)
  case 0
  with assms(1) show ?case by (auto simp: chain_valid_def hd_conv_nth)
next
  case (Suc i)
  with chain_valid_link [OF assms(1), of i] show ?case by (simp add: delegates_def)
qed

lemma chain_valid_length:
  assumes "chain_valid L md trusted now chain"
  shows "int (length chain) \<le> md + 1"
proof -
  have ne: "chain \<noteq> []" using assms by (simp add: chain_valid_def)
  then have "cred_depth (chain ! (length chain - 1)) = int (length chain - 1)"
    using chain_valid_depth [OF assms, of "length chain - 1"] by simp
  moreover have "cred_depth (chain ! (length chain - 1)) \<le> md"
    using assms ne by (simp add: chain_valid_def)
  moreover have "0 < length chain" using ne by simp
  ultimately show ?thesis by linarith
qed

lemma chain_valid_prefix:
  assumes "chain_valid L md trusted now chain" and "0 < k"
  shows "chain_valid L md trusted now (take k chain)"
proof -
  have "successively delegates (take k chain @ drop k chain)"
    using assms(1) by (simp add: chain_valid_def)
  then have "successively delegates (take k chain)" unfolding successively_append_iff by blast
  moreover from assms have "take k chain \<noteq> []" "hd (take k chain) = hd chain"
    by (auto simp: chain_valid_def)
  moreover have "distinct (map cred_id (take k chain))"
    using assms(1) by (simp add: chain_valid_def flip: take_map)
  moreover have "set (take k chain) \<subseteq> set chain" by (rule set_take_subset)
  ultimately show ?thesis using assms(1) by (auto simp: chain_valid_def)
qed

lemma chain_valid_extend:
  assumes "chain_valid L md trusted now chain" and "delegates (last chain) c" and "cred_signed L c"
    and "in_window now c" and "cred_depth c \<le> md" and "cred_id c \<notin> cred_id ` set chain"
  shows "chain_valid L md trusted now (chain @ [c])"
  using assms by (auto simp: chain_valid_def successively_append_iff)

section \<open>Refusals\<close>

lemma check_hop_exn:
  "check_hop L md now i seen prev c = Inl e \<Longrightarrow> is_ca2a e"
  by (cases prev) (auto simp: hop_checks guard_simps dest: cred_verify_signature_exn)

lemma verify_hops_exn: "verify_hops L md now i seen prev cs = Inl e \<Longrightarrow> is_ca2a e"
  by (induction cs arbitrary: i seen prev) (auto simp: bindE_Inl_iff dest: check_hop_exn)

lemma check_revoked_exn:
  assumes "\<forall>c \<in> set cs. \<exists>d. credential_digest c = Inr d" and "check_revoked snap t i A cs = Inl e"
  shows "\<exists>m. e = Ca2a CredentialRevoked m None"
  using assms by (induction cs arbitrary: i A) (auto split: option.splits)

lemma check_revocation_exn:
  assumes "\<forall>c \<in> set chain. cred_signed L c" and "check_revocation chain revs t now ms = Inl e"
  shows "is_ca2a e"
proof -
  have "\<forall>c \<in> set chain. \<exists>d. credential_digest c = Inr d" using assms(1) cred_signed_digest by blast
  from check_revoked_exn [OF this] assms(2) show ?thesis
    by (fastforce simp: check_revocation_def guard_simps split: option.splits if_splits)
qed

lemma verify_chain_exn:
  assumes "args_ok a" and "verify_chain L a chain = Inl e"
  shows "is_ca2a e"
proof (cases chain)
  case Nil
  with assms show ?thesis by (auto simp: verify_chain_def args_ok_def not_less split: if_splits)
next
  case (Cons r rs)
  show ?thesis
  proof (cases "cred_issuer r \<in> ca_trusted a")
    case False
    with Cons assms show ?thesis by (auto simp: verify_chain_def args_ok_def not_less split: if_splits)
  next
    case True
    from assms Cons True have "bindE (verify_hops L (ca_max_depth a) (eval_time a) 0 {} None chain) (\<lambda>_.
        check_revocation chain (ca_revocations a) (ca_at_time a) (eval_time a) (ca_max_staleness a)) = Inl e"
      by (auto simp: verify_chain_def args_ok_def simp del: verify_hops.simps split: if_splits)
    then consider "verify_hops L (ca_max_depth a) (eval_time a) 0 {} None chain = Inl e"
      | "chain_valid L (ca_max_depth a) (ca_trusted a) (eval_time a) chain"
        "check_revocation chain (ca_revocations a) (ca_at_time a) (eval_time a) (ca_max_staleness a) = Inl e"
      using verify_hops_chain [of chain "ca_trusted a" L "ca_max_depth a" "eval_time a"] Cons True
      by (auto simp: bindE_Inl_iff simp del: verify_hops.simps)
    then show ?thesis
    proof cases
      case 1
      then show ?thesis by (rule verify_hops_exn)
    next
      case 2
      then have "\<forall>c \<in> set chain. cred_signed L c" by (simp add: chain_valid_def)
      then show ?thesis using 2(2) by (rule check_revocation_exn)
    qed
  qed
qed

section \<open>Revocation of a hop\<close>

lemma args_update_revocations [simp]:
  "eval_time (a\<lparr>ca_revocations := r\<rparr>) = eval_time a"
  "args_ok (a\<lparr>ca_revocations := r\<rparr>) = args_ok a"
  by (cases "ca_at_time a"; simp add: eval_time_def) (simp add: args_ok_def)

text \<open>Hop \<open>i\<close> is withdrawn by a statement of an issuer at or above it.\<close>

definition hop_revoked :: "revocation_snapshot \<Rightarrow> int option \<Rightarrow> delegation_credential list \<Rightarrow> nat \<Rightarrow> bool" where
  "hop_revoked snap at_time chain i \<longleftrightarrow>
     (\<exists>s \<in> set (snap_statements snap). \<exists>d. credential_digest (chain ! i) = Inr d \<and>
        in_force d (cred_issuer ` set (take (Suc i) chain)) at_time s)"

lemma chain_unrevoked_iff:
  assumes "snapshot_wf L snap"
  shows "chain_unrevoked snap t chain \<longleftrightarrow> (\<forall>i < length chain. \<not> hop_revoked snap t chain i)"
  by (auto simp: chain_unrevoked_def hop_revoked_def effective_revocation_None_iff [OF assms])

lemma valid_verify_chain:
  assumes "args_ok a" and "chain_valid L (ca_max_depth a) (ca_trusted a) (eval_time a) chain"
  shows "verify_chain L a chain =
    check_revocation chain (ca_revocations a) (ca_at_time a) (eval_time a) (ca_max_staleness a)"
proof -
  from assms(2) obtain c cs where chain: "chain = c # cs" and tr: "cred_issuer c \<in> ca_trusted a"
    by (cases chain) (auto simp: chain_valid_def)
  with assms(2) have "verify_hops L (ca_max_depth a) (eval_time a) 0 {} None chain = Inr ()"
    using verify_hops_chain [of chain "ca_trusted a"] by simp
  with assms(1) chain tr show ?thesis
    by (auto simp: verify_chain_def args_ok_def simp del: verify_hops.simps)
qed

lemma check_revoked_Inl_iff:
  assumes "snapshot_wf L snap" and "\<forall>c \<in> set chain. cred_signed L c"
  shows "(\<exists>m. check_revoked snap t 0 {} chain = Inl (Ca2a CredentialRevoked m None)) \<longleftrightarrow>
         (\<exists>i < length chain. hop_revoked snap t chain i)"
proof -
  have dg: "\<forall>c \<in> set chain. \<exists>d. credential_digest c = Inr d" using assms(2) cred_signed_digest by blast
  show ?thesis
  proof (cases "check_revoked snap t 0 {} chain")
    case (Inl e)
    have "\<not> chain_unrevoked snap t chain"
      using check_revoked_iff [OF dg, of snap t 0 "{}" "()"] Inl by (auto simp: chain_unrevoked_def)
    with check_revoked_exn [OF dg Inl] Inl show ?thesis
      by (auto simp: chain_unrevoked_iff [OF assms(1)])
  next
    case (Inr u)
    have "chain_unrevoked snap t chain"
      using check_revoked_iff [OF dg, of snap t 0 "{}" u] Inr by (simp add: chain_unrevoked_def)
    with Inr show ?thesis by (auto simp: chain_unrevoked_iff [OF assms(1)])
  qed
qed

section \<open>The sample chain verifies\<close>

definition sample_args :: chain_args where
  "sample_args = \<lparr>ca_max_depth = 8, ca_trusted = {sample_key 1}, ca_at_time = None, ca_revocations = None,
     ca_max_staleness = None, ca_clock = 100\<rparr>"

lemma sample_chain_valid:
  "chain_valid sample_lib 8 {sample_key 1} 100 [sample_root, sample_leaf]"
  using sample_root_signed sample_leaf_signed
  by (auto simp: chain_valid_def cred_signed_def in_window_def delegates_def)

lemma sample_chain_verifies: "verify_chain sample_lib sample_args [sample_root, sample_leaf] = Inr REVOCATION_NOT_CHECKED"
  unfolding verify_chain_Inr_iff
  using sample_chain_valid by (simp add: sample_args_def args_ok_def eval_time_def revocation_ok_def)

section \<open>Properties\<close>

text \<open>
  C7: \<open>verify_chain\<close> accepts exactly the valid chains: rooted in a trusted issuer, every hop signed
  by its issuer, inside its validity window and within the depth limit, identifiers unique, each
  hop issued by the subject of the previous one with a parent link, a depth one higher and a scope
  no wider; and its status is the one the revocation policy prescribes.
\<close>

theorem verify_chain_correct:
  "verify_chain L a chain = Inr status \<longleftrightarrow>
     args_ok a \<and> chain_valid L (ca_max_depth a) (ca_trusted a) (eval_time a) chain \<and> revocation_ok a chain status"
  by (rule verify_chain_Inr_iff)

text \<open>
  C18: Authority only narrows: in a verified chain no hop holds a capability that an earlier hop,
  the trusted root included, does not hold.
\<close>

theorem verified_chain_attenuates:
  assumes "verify_chain L a chain = Inr status" and "i \<le> j" and "j < length chain"
  shows "cred_scope (chain ! j) |\<subseteq>| cred_scope (chain ! i)"
  using chain_valid_scope [OF _ assms(2,3)] assms(1) unfolding verify_chain_Inr_iff by blast

theorem verified_chain_attenuates_witness:
  "cred_scope ([sample_root, sample_leaf] ! 1) |\<subseteq>| cred_scope ([sample_root, sample_leaf] ! 0)"
  by (rule verified_chain_attenuates [OF sample_chain_verifies]) simp_all

text \<open>
  In a verified chain the depth of a hop is its position, so the chain is no longer than the
  depth limit allows, and no credential identifier occurs twice.
\<close>

theorem verified_chain_depth:
  assumes "verify_chain L a chain = Inr status"
  shows "(\<forall>i < length chain. cred_depth (chain ! i) = int i) \<and>
         int (length chain) \<le> ca_max_depth a + 1 \<and> distinct (map cred_id chain)"
proof -
  have v: "chain_valid L (ca_max_depth a) (ca_trusted a) (eval_time a) chain"
    using assms by (simp add: verify_chain_Inr_iff)
  then have "distinct (map cred_id chain)" by (simp add: chain_valid_def)
  with chain_valid_depth [OF v] chain_valid_length [OF v] show ?thesis by blast
qed

theorem verified_chain_depth_witness:
  "int (length [sample_root, sample_leaf]) \<le> ca_max_depth sample_args + 1 \<and>
   distinct (map cred_id [sample_root, sample_leaf])"
  using verified_chain_depth [OF sample_chain_verifies] by blast

text \<open>
  On well-formed arguments verification never fails outside its contract: whatever the chain
  holds, a refusal is a \<open>CA2AError\<close> and no interpreter or library exception escapes.
\<close>

theorem verify_chain_contract:
  assumes "args_ok a" and "verify_chain L a chain = Inl e"
  shows "is_ca2a e"
  using assms by (rule verify_chain_exn)

theorem verify_chain_contract_witness:
  "\<exists>e. verify_chain sample_lib sample_args [sample_leaf] = Inl e \<and> is_ca2a e"
proof -
  have "verify_chain sample_lib sample_args [sample_leaf] =
      raise UntrustedDelegationRoot ''delegation root issuer is not trusted by this peer''"
    by (simp add: verify_chain_def sample_args_def sample_key_def sample_lib_def pad32_def)
  moreover have "args_ok sample_args" by (simp add: args_ok_def sample_args_def)
  ultimately show ?thesis using verify_chain_contract by blast
qed

text \<open>
  A chain that names an untrusted root is refused before any signature is looked at: the answer
  is the same whatever the cryptographic library says and whatever follows the root.
\<close>

theorem untrusted_root_refused_first:
  assumes "args_ok a" and "cred_issuer c \<notin> ca_trusted a"
  shows "verify_chain L a (c # cs) =
    raise UntrustedDelegationRoot ''delegation root issuer is not trusted by this peer''"
  using assms by (auto simp: verify_chain_def args_ok_def)

theorem untrusted_root_refused_first_witness:
  "verify_chain sample_lib (sample_args\<lparr>ca_trusted := {}\<rparr>) [sample_root, sample_leaf] =
    raise UntrustedDelegationRoot ''delegation root issuer is not trusted by this peer''"
  by (rule untrusted_root_refused_first) (simp_all add: sample_args_def args_ok_def)

text \<open>
  A delegate can delegate further: a credential it signs with the key of the leaf's subject,
  linked to the leaf, no wider than it and fresh, extends the verified chain to a verified chain.
\<close>

theorem delegation_extends:
  assumes "ed25519_correct L" and "verify_chain L a chain = Inr REVOCATION_NOT_CHECKED" and "ca_revocations a = None"
    and "cred_sign L k c = Inr d" and "delegates (last chain) c" and "in_window (eval_time a) c"
    and "cred_depth c \<le> ca_max_depth a" and "cred_id c \<notin> cred_id ` set chain"
  shows "verify_chain L a (chain @ [d]) = Inr REVOCATION_NOT_CHECKED"
proof -
  note v = cred_sign_verifies [OF assms(1,4)]
  note f = cred_core_fields [OF v [THEN conjunct2, THEN conjunct1]]
  have "chain_valid L (ca_max_depth a) (ca_trusted a) (eval_time a) (chain @ [d])"
    by (rule chain_valid_extend)
       (use assms v in \<open>simp_all add: verify_chain_Inr_iff cred_signed_def delegates_def in_window_def f\<close>)
  with assms(2,3) show ?thesis by (auto simp: verify_chain_Inr_iff revocation_ok_def)
qed

theorem delegation_extends_witness:
  "verify_chain sample_lib sample_args ([sample_root] @ [sample_leaf]) = Inr REVOCATION_NOT_CHECKED"
proof (rule delegation_extends [OF sample_ed25519 _ _ sample_leaf_sign])
  have "chain_valid sample_lib 8 {sample_key 1} 100 (take 1 [sample_root, sample_leaf])"
    by (rule chain_valid_prefix [OF sample_chain_valid]) simp
  then show "verify_chain sample_lib sample_args [sample_root] = Inr REVOCATION_NOT_CHECKED"
    by (simp add: verify_chain_Inr_iff sample_args_def args_ok_def eval_time_def revocation_ok_def)
qed (simp_all add: sample_args_def delegates_def in_window_def sample_unsigned_leaf_def eval_time_def)

text \<open>
  Revocation is exact. A valid chain is refused as revoked if and only if some hop is named by a
  statement of the snapshot whose revoker issued that hop or a hop above it and which was, in an
  audit, issued by the audited time. So revoking a hop takes down every chain through it, and a
  delegate cannot revoke what it was granted.
\<close>

theorem revocation_exact:
  assumes "args_ok a" and "chain_valid L (ca_max_depth a) (ca_trusted a) (eval_time a) chain"
    and "ca_revocations a = Some snap" and "snapshot_wf L snap"
  shows "(\<exists>m. verify_chain L a chain = Inl (Ca2a CredentialRevoked m None)) \<longleftrightarrow>
         (\<exists>i < length chain. hop_revoked snap (ca_at_time a) chain i)"
proof -
  have "\<forall>c \<in> set chain. cred_signed L c" using assms(2) by (simp add: chain_valid_def)
  from check_revoked_Inl_iff [OF assms(4) this, of "ca_at_time a"] show ?thesis
    unfolding valid_verify_chain [OF assms(1,2)] assms(3)
    by (auto simp: check_revocation_def bindE_Inl_iff require_iff)
qed

theorem revocation_exact_witness:
  "\<exists>s snap. revoke sample_lib sample_leaf [1] (Some 50) 60 = Inr s \<and> mk_snapshot sample_lib (JInt 70) [s] = Inr snap \<and>
     (\<exists>m. verify_chain sample_lib (sample_args\<lparr>ca_revocations := Some snap\<rparr>) [sample_root, sample_leaf] =
            Inl (Ca2a CredentialRevoked m None))"
proof -
  have "cred_signed sample_lib sample_leaf" using sample_leaf_signed by (simp add: cred_signed_def)
  then obtain d where d: "credential_digest sample_leaf = Inr d" using cred_signed_digest by blast
  then obtain h where h: "d = str ''sha256:'' @ sha256_hex h" by (auto simp: credential_digest_def bindE_Inr_iff)
  let ?s = "\<lparr>st_digest = d, st_revoker = sample_key 1, st_issued_at = 50, st_signature = []\<rparr>"
  have wf: "st_wf ?s"
    using sample_ed25519 by (simp add: st_wf_def h is_digest_def sample_key_def ed25519_correct_def)
  have "json_ok (JObj (st_body ?s))"
    by (simp add: st_body_def h REVOCATION_TYPE_def MAX_SAFE_INTEGER_def sample_key_def sha256_hex_def)
  then obtain m where m: "canonicalize (JObj (st_body ?s)) = Inr m" using canonicalize_ok by blast
  from wf have mk: "mk_statement (JStr d) (JStr (sample_key 1)) (JInt 50) sig = Inr (?s\<lparr>st_signature := sig\<rparr>)" for sig
    by (simp add: mk_statement_iff st_wf_def)
  with d m obtain s where rv: "revoke sample_lib sample_leaf [1] (Some 50) 60 = Inr s" and s: "st_sign sample_lib [1] ?s = Inr s"
    by (auto simp: revoke_def st_sign_def sample_key_def)
  note vs = st_sign_verifies [OF sample_ed25519 s]
  then obtain snap where snap: "mk_snapshot sample_lib (JInt 70) [s] = Inr snap"
    by (auto simp: mk_snapshot_def)
  have "hop_revoked snap None [sample_root, sample_leaf] 1"
    using snap d vs by (auto simp: hop_revoked_def mk_snapshot_Inr in_force_def st_core_def sample_key_def)
  moreover have "args_ok (sample_args\<lparr>ca_revocations := Some snap\<rparr>)" by (simp add: args_ok_def sample_args_def)
  ultimately have "\<exists>m. verify_chain sample_lib (sample_args\<lparr>ca_revocations := Some snap\<rparr>) [sample_root, sample_leaf] =
            Inl (Ca2a CredentialRevoked m None)"
    using revocation_exact [of "sample_args\<lparr>ca_revocations := Some snap\<rparr>" sample_lib "[sample_root, sample_leaf]" snap]
      sample_chain_valid mk_snapshot_wf [OF snap]
    by (auto simp: sample_args_def eval_time_def)
  with rv snap show ?thesis by blast
qed

text \<open>
  Revocation is monotone: a chain accepted under a snapshot is accepted under every
  snapshot of the same date that holds fewer statements, so adding statements never un-revokes.
\<close>

theorem revocation_monotone:
  assumes "verify_chain L (a\<lparr>ca_revocations := Some later\<rparr>) chain = Inr status"
    and "snapshot_wf L later" and "snapshot_wf L fewer"
    and "set (snap_statements fewer) \<subseteq> set (snap_statements later)" and "snap_as_of fewer = snap_as_of later"
  shows "verify_chain L (a\<lparr>ca_revocations := Some fewer\<rparr>) chain = Inr status"
  using assms
  by (auto simp: verify_chain_Inr_iff revocation_ok_def
      chain_unrevoked_iff [OF assms(2)] chain_unrevoked_iff [OF assms(3)] hop_revoked_def)

theorem revocation_monotone_witness:
  "\<exists>snap. mk_snapshot sample_lib (JInt 70) [] = Inr snap \<and>
     verify_chain sample_lib (sample_args\<lparr>ca_revocations := Some snap\<rparr>) [sample_root, sample_leaf] =
       Inr \<lparr>rs_checked = True, rs_as_of = Some 70\<rparr>"
proof -
  obtain snap where snap: "mk_snapshot sample_lib (JInt 70) [] = Inr snap" by (simp add: mk_snapshot_def)
  note wf = mk_snapshot_wf [OF snap]
  from snap have "verify_chain sample_lib (sample_args\<lparr>ca_revocations := Some snap\<rparr>) [sample_root, sample_leaf] =
      Inr \<lparr>rs_checked = True, rs_as_of = Some 70\<rparr>"
    using sample_chain_valid
    by (auto simp: verify_chain_Inr_iff sample_args_def args_ok_def eval_time_def revocation_ok_def
        chain_unrevoked_iff [OF wf] hop_revoked_def mk_snapshot_Inr)
  from revocation_monotone [OF this wf wf] snap show ?thesis by simp
qed

end
