(* ===== verification/Provenance.thy ===== *)
theory Provenance
  imports Credential
begin

text \<open>
  Provenance records, \<open>ca2a_runtime/provenance.py\<close>: the hashed body of a record, the records an
  accepted and a refused hop emit, the structural check of a record chain and its cross-check
  against a delegation chain. The locale \<open>hash_chain\<close> states what makes a list of records tamper
  evident, and its conclusion, that the last record determines all the others, is used here for
  these records.
\<close>

section \<open>Records\<close>

definition CALLER_NOT_OFFERED :: ustr where
  "CALLER_NOT_OFFERED = str ''not_offered''"

definition CALLER_FAILED :: ustr where
  "CALLER_FAILED = str ''failed''"

definition CALLER_SOFTWARE_ONLY :: ustr where
  "CALLER_SOFTWARE_ONLY = str ''software-only''"

definition CALLER_HARDWARE :: ustr where
  "CALLER_HARDWARE = str ''hardware''"

definition CALLER_ATTESTATION_VALUES :: "ustr set" where
  "CALLER_ATTESTATION_VALUES = {CALLER_NOT_OFFERED, CALLER_FAILED, CALLER_SOFTWARE_ONLY, CALLER_HARDWARE}"

definition rec_post_init :: "delegation_record \<Rightarrow> delegation_record res" where
  "rec_post_init r =
     (if rec_caller_attestation r \<notin> CALLER_ATTESTATION_VALUES then Inl (PyExn ValueError) else Inr r)"

definition ALLOW :: ustr where
  "ALLOW = str ''allow''"

definition DENY :: ustr where
  "DENY = str ''deny''"

definition rec_body :: "delegation_record \<Rightarrow> jdict" where
  "rec_body r =
     [(str ''record_id'', JStr (rec_id r)),
      (str ''credential_id'', JStr (rec_credential_id r)),
      (str ''subject'', JStr (rec_subject r)),
      (str ''scope'', str_list (rec_scope r)),
      (str ''parent_record_hash'', opt_str (rec_parent_hash r)),
      (str ''caller_attestation'', JStr (rec_caller_attestation r))]
     @ (if rec_decision r \<noteq> ALLOW then [(str ''decision'', JStr (rec_decision r))] else [])
     @ (case rec_requested r of None \<Rightarrow> [] | Some c \<Rightarrow> [(str ''requested_capability'', JStr c)])
     @ (case rec_effective r of None \<Rightarrow> [] | Some s \<Rightarrow> [(str ''effective_scope'', str_list s)])
     @ (case rec_reason r of None \<Rightarrow> [] | Some c \<Rightarrow> [(str ''denial_reason'', JStr c)])"

definition rec_denied :: "delegation_record \<Rightarrow> bool" where
  "rec_denied r \<longleftrightarrow> rec_decision r = DENY"

definition record_hash :: "delegation_record \<Rightarrow> ustr res" where
  "record_hash r = bindE (canonicalize (JObj (rec_body r))) (\<lambda>b. Inr (sha256_hex b))"

definition record_for ::
  "delegation_credential \<Rightarrow> ustr \<Rightarrow> ustr option \<Rightarrow> ustr \<Rightarrow> delegation_record res" where
  "record_for c record_id parent_record_hash caller_attestation =
     rec_post_init \<lparr>rec_id = record_id, rec_credential_id = cred_id c, rec_subject = cred_subject c,
       rec_scope = cred_scope c, rec_parent_hash = parent_record_hash, rec_decision = ALLOW,
       rec_requested = None, rec_effective = None, rec_reason = None, rec_caller_attestation = caller_attestation\<rparr>"

definition denial_record_for ::
  "delegation_credential \<Rightarrow> ustr \<Rightarrow> ustr option \<Rightarrow> ustr \<Rightarrow> ustr fset \<Rightarrow> ustr \<Rightarrow> ustr \<Rightarrow> delegation_record res" where
  "denial_record_for c record_id parent_record_hash requested effective reason caller_attestation =
     rec_post_init \<lparr>rec_id = record_id, rec_credential_id = cred_id c, rec_subject = cred_subject c,
       rec_scope = cred_scope c, rec_parent_hash = parent_record_hash, rec_decision = DENY,
       rec_requested = Some requested, rec_effective = Some effective, rec_reason = Some reason,
       rec_caller_attestation = caller_attestation\<rparr>"

section \<open>The structural check\<close>

abbreviation link_broken :: "ustr \<Rightarrow> exn" where
  "link_broken m \<equiv> Ca2a ProvenanceLinkBroken m None"

definition check_record ::
  "nat \<Rightarrow> ustr set \<Rightarrow> delegation_record option \<Rightarrow> delegation_record \<Rightarrow> unit res" where
  "check_record i seen prev r =
     bindE (require (rec_id r \<notin> seen)
              (link_broken (str ''duplicate record_id at position '' @ nat_str i @ str '': '' @ rec_id r))) (\<lambda>_.
     (case prev of
        None \<Rightarrow> require (rec_parent_hash r = None) (link_broken (str ''root record must not reference a parent''))
      | Some p \<Rightarrow>
          if rec_denied p
          then Inl (link_broken (str ''record '' @ nat_str i @ str '' is chained onto a denied hop''))
          else bindE (record_hash p) (\<lambda>expected.
               require (rec_parent_hash r = Some expected)
                 (link_broken (str ''record '' @ nat_str i @ str '' parent link does not match the previous record's hash'')))))"

fun verify_records ::
  "nat \<Rightarrow> ustr set \<Rightarrow> delegation_record option \<Rightarrow> delegation_record list \<Rightarrow> unit res" where
  "verify_records i seen prev [] = Inr ()"
| "verify_records i seen prev (r # rs) =
     bindE (check_record i seen prev r) (\<lambda>_. verify_records (Suc i) (insert (rec_id r) seen) (Some r) rs)"

definition verify_dag :: "delegation_record list \<Rightarrow> delegation_record list res" where
  "verify_dag records =
     (if records = [] then raise ProvenanceLinkBroken ''empty provenance chain''
      else bindE (verify_records 0 {} None records) (\<lambda>_. Inr records))"

fun check_hops :: "nat \<Rightarrow> delegation_record list \<Rightarrow> delegation_credential list \<Rightarrow> unit res" where
  "check_hops i (r # rs) (c # cs) =
     (if rec_credential_id r \<noteq> cred_id c
      then Inl (link_broken (str ''record '' @ nat_str i @ str '' credential_id does not match the chain''))
      else if rec_subject r \<noteq> cred_subject c
      then Inl (link_broken (str ''record '' @ nat_str i @ str '' subject does not match the chain''))
      else check_hops (Suc i) rs cs)"
| "check_hops i _ _ = Inr ()"

text \<open>\<open>{c.credential_id: c for c in chain}.get(id)\<close>: a later credential with the same id wins.\<close>

definition cred_by_id :: "delegation_credential list \<Rightarrow> ustr \<Rightarrow> delegation_credential option" where
  "cred_by_id chain i = find (\<lambda>c. cred_id c = i) (rev chain)"

fun check_denials :: "lib \<Rightarrow> delegation_credential list \<Rightarrow> delegation_record list \<Rightarrow> unit res" where
  "check_denials L chain [] = Inr ()"
| "check_denials L chain (r # rs) =
     (if \<not> rec_denied r then check_denials L chain rs
      else (case cred_by_id chain (rec_credential_id r) of
              None \<Rightarrow> Inl (link_broken (str ''denial record '' @ rec_id r @ str '' references credential ''
                       @ py_repr L (JStr (rec_credential_id r)) @ str '', which is not in the chain''))
            | Some c \<Rightarrow>
                if rec_subject r \<noteq> cred_subject c
                then Inl (link_broken (str ''denial record '' @ rec_id r @ str '' subject does not match the chain''))
                else check_denials L chain rs))"

definition cross_check_chain :: "lib \<Rightarrow> delegation_record list \<Rightarrow> delegation_credential list \<Rightarrow> unit res" where
  "cross_check_chain L records chain =
     (let hops = filter (\<lambda>r. \<not> rec_denied r) records in
      if length hops \<noteq> length chain
      then Inl (link_broken (str ''provenance length '' @ nat_str (length hops) @
              str '' does not match chain length '' @ nat_str (length chain)))
      else bindE (check_hops 0 hops chain) (\<lambda>_. check_denials L chain records))"

section \<open>Tamper evidence of a hash chain\<close>

text \<open>
  A list of records in which each names the digest of the one before it. The digest of a record is
  the SHA-256 of its bytes, printed by an injective function.
\<close>

definition linked_by :: "('r \<Rightarrow> ustr res) \<Rightarrow> ('r \<Rightarrow> ustr option) \<Rightarrow> 'r list \<Rightarrow> bool" where
  "linked_by digest parent rs \<longleftrightarrow>
     rs \<noteq> [] \<and> parent (hd rs) = None \<and> successively (\<lambda>p r. \<exists>h. digest p = Inr h \<and> parent r = Some h) rs"

definition colliding :: "('r \<Rightarrow> bytes res) \<Rightarrow> 'r list \<Rightarrow> 'r list \<Rightarrow> bool" where
  "colliding preimage rs ss \<longleftrightarrow>
     (\<exists>r \<in> set rs. \<exists>s \<in> set ss. \<exists>a b. preimage r = Inr a \<and> preimage s = Inr b \<and> sha256_collision a b)"

locale hash_chain =
  fixes preimage :: "'r \<Rightarrow> bytes res" and digest :: "'r \<Rightarrow> ustr res" and parent :: "'r \<Rightarrow> ustr option"
    and content :: "'r \<Rightarrow> 'c" and show_digest :: "bytes \<Rightarrow> ustr"
  assumes digest_def: "digest r = bindE (preimage r) (\<lambda>b. Inr (show_digest (sha256 b)))"
    and show_inj: "show_digest x = show_digest y \<Longrightarrow> x = y"
    and preimage_content: "preimage r = Inr b \<Longrightarrow> preimage s = Inr b \<Longrightarrow> content r = content s"
    and content_parent: "content r = content s \<Longrightarrow> parent r = parent s"
begin

lemma digest_content:
  assumes "digest r = Inr h" and "digest s = Inr h"
  shows "content r = content s \<or> colliding preimage [r] [s]"
proof -
  from assms obtain a b where a: "preimage r = Inr a" and b: "preimage s = Inr b"
    and "show_digest (sha256 a) = show_digest (sha256 b)"
    by (auto simp: digest_def bindE_Inr_iff)
  then have eq: "sha256 a = sha256 b" by (simp add: show_inj)
  show ?thesis
  proof (cases "a = b")
    case True
    with a b preimage_content [of r b s] show ?thesis by simp
  next
    case False
    with a b eq show ?thesis by (simp add: colliding_def sha256_collision_def)
  qed
qed

lemma colliding_mono:
  assumes "colliding preimage rs ss" and "set rs \<subseteq> set rs'" and "set ss \<subseteq> set ss'"
  shows "colliding preimage rs' ss'"
  using assms unfolding colliding_def by blast

lemma linked_snoc:
  "linked_by digest parent (rs @ [r]) \<longleftrightarrow>
     (if rs = [] then parent r = None
      else linked_by digest parent rs \<and> (\<exists>h. digest (last rs) = Inr h \<and> parent r = Some h))"
  by (auto simp: linked_by_def successively_append_iff)

theorem last_determines:
  assumes "linked_by digest parent rs" and "linked_by digest parent ss" and "content (last rs) = content (last ss)"
  shows "map content rs = map content ss \<or> colliding preimage rs ss"
  using assms
proof (induction rs arbitrary: ss rule: rev_induct)
  case Nil
  then show ?case by (simp add: linked_by_def)
next
  case (snoc r rs)
  obtain s ss' where ss: "ss = ss' @ [s]" using snoc.prems(2) by (cases ss rule: rev_cases) (auto simp: linked_by_def)
  have rs: "content r = content s" using snoc.prems(3) ss by simp
  then have par: "parent r = parent s" by (rule content_parent)
  show ?case
  proof (cases "rs = [] \<or> ss' = []")
    case True
    with snoc.prems(1,2) ss par have "rs = []" "ss' = []" by (auto simp: linked_snoc split: if_splits)
    with ss rs show ?thesis by simp
  next
    case False
    with snoc.prems(1,2) ss par obtain h where l: "linked_by digest parent rs" "linked_by digest parent ss'"
      and d: "digest (last rs) = Inr h" "digest (last ss') = Inr h"
      by (auto simp: linked_snoc)
    from digest_content [OF d] show ?thesis
    proof
      assume "content (last rs) = content (last ss')"
      from snoc.IH [OF l this] show ?thesis
      proof
        assume "colliding preimage rs ss'"
        then have "colliding preimage (rs @ [r]) ss" by (rule colliding_mono) (use ss in auto)
        then show ?thesis by simp
      qed (simp add: rs ss)
    next
      assume "colliding preimage [last rs] [last ss']"
      then have "colliding preimage (rs @ [r]) ss"
        by (rule colliding_mono) (use False ss in auto)
      then show ?thesis by simp
    qed
  qed
qed

lemma linked_nth:
  assumes "linked_by digest parent rs" and "Suc i < length rs"
  obtains h where "digest (rs ! i) = Inr h" and "parent (rs ! Suc i) = Some h"
  using assms by (auto simp: linked_by_def successively_conv_nth)

text \<open>Two records of one chain with the same digest are a collision: their ancestors would repeat up to the root.\<close>

lemma repeat_collides:
  assumes "linked_by digest parent rs"
  shows "i < j \<Longrightarrow> j < length rs \<Longrightarrow> digest (rs ! i) = Inr h \<Longrightarrow> digest (rs ! j) = Inr h \<Longrightarrow> colliding preimage rs rs"
proof (induction i arbitrary: j h)
  case 0
  then obtain k where j: "j = Suc k" by (cases j) auto
  obtain g where "parent (rs ! j) = Some g" using linked_nth [OF assms, of k] "0.prems" j by metis
  moreover have "parent (rs ! 0) = None" using assms hd_conv_nth [of rs] by (simp add: linked_by_def)
  ultimately have "content (rs ! 0) \<noteq> content (rs ! j)" using content_parent [of "rs ! 0" "rs ! j"] by auto
  with digest_content [OF "0.prems"(3,4)] have "colliding preimage [rs ! 0] [rs ! j]" by blast
  moreover have "rs ! 0 \<in> set rs" "rs ! j \<in> set rs" using "0.prems" by (auto intro: nth_mem)
  ultimately show ?case by (auto elim: colliding_mono)
next
  case (Suc i)
  then obtain k where j: "j = Suc k" "i < k" by (cases j) auto
  from digest_content [OF Suc.prems(3,4)] show ?case
  proof
    assume "content (rs ! Suc i) = content (rs ! j)"
    then have eq: "parent (rs ! Suc i) = parent (rs ! j)" by (rule content_parent)
    obtain g where g: "digest (rs ! i) = Inr g" "parent (rs ! Suc i) = Some g"
      by (rule linked_nth [OF assms, of i]) (use Suc.prems in simp)
    obtain g' where g': "digest (rs ! k) = Inr g'" "parent (rs ! Suc k) = Some g'"
      by (rule linked_nth [OF assms, of k]) (use Suc.prems j in simp)
    with g eq j have "digest (rs ! k) = Inr g" by simp
    from Suc.IH [OF j(2) _ g(1) this] show ?thesis using Suc.prems(2) j(1) by simp
  next
    assume "colliding preimage [rs ! Suc i] [rs ! j]"
    then show ?thesis by (rule colliding_mono) (use Suc.prems in auto)
  qed
qed

lemma linked_distinct:
  assumes "linked_by digest parent rs" and "traverseE digest rs = Inr hs"
  shows "distinct hs \<or> colliding preimage rs rs"
proof (rule disjCI)
  assume no: "\<not> colliding preimage rs rs"
  have d: "digest (rs ! i) = Inr (hs ! i)" if "i < length rs" for i
    using assms(2) that by (auto simp: traverseE_Inr_iff list_all2_conv_all_nth)
  have "hs ! i \<noteq> hs ! j" if "i < j" "j < length rs" for i j
    using repeat_collides [OF assms(1) that] d [of i] d [of j] that no by auto
  then show "distinct hs"
    using traverseE_length [OF assms(2)] by (metis distinct_conv_nth nat_neq_iff)
qed

end

text \<open>The links of a chain, read off the list of its digests.\<close>

lemma linked_by_digests:
  assumes "traverseE digest rs = Inr hs" and "rs \<noteq> []"
  shows "linked_by digest parent rs \<longleftrightarrow> map parent rs = None # map Some (butlast hs)"
proof -
  have *: "successively (\<lambda>p r. \<exists>h. digest p = Inr h \<and> parent r = Some h) (q # qs) \<longleftrightarrow> map parent qs = map Some (butlast (g # gs))"
    if "digest q = Inr g" "traverseE digest qs = Inr gs" for q g qs gs
    using that
  proof (induction qs arbitrary: q g gs)
    case (Cons r rs)
    then obtain h hs' where "gs = h # hs'" "digest r = Inr h" "traverseE digest rs = Inr hs'" by (auto simp: guard_simps)
    with Cons show ?case by (auto simp: successively_Cons)
  qed (auto simp: guard_simps)
  obtain q qs where rs: "rs = q # qs" using assms(2) by (cases rs) auto
  with assms(1) obtain g gs where "hs = g # gs" "digest q = Inr g" "traverseE digest qs = Inr gs" by (auto simp: guard_simps)
  with rs * [of q g qs gs] show ?thesis by (simp add: linked_by_def)
qed

section \<open>The record is determined by its hash\<close>

lemma rec_body_get:
  "dict_get (rec_body r) (str ''record_id'') = Some (JStr (rec_id r))"
  "dict_get (rec_body r) (str ''credential_id'') = Some (JStr (rec_credential_id r))"
  "dict_get (rec_body r) (str ''subject'') = Some (JStr (rec_subject r))"
  "dict_get (rec_body r) (str ''scope'') = Some (str_list (rec_scope r))"
  "dict_get (rec_body r) (str ''parent_record_hash'') = Some (opt_str (rec_parent_hash r))"
  "dict_get (rec_body r) (str ''caller_attestation'') = Some (JStr (rec_caller_attestation r))"
  "dict_get (rec_body r) (str ''decision'') = (if rec_decision r = ALLOW then None else Some (JStr (rec_decision r)))"
  "dict_get (rec_body r) (str ''requested_capability'') = map_option JStr (rec_requested r)"
  "dict_get (rec_body r) (str ''effective_scope'') = map_option str_list (rec_effective r)"
  "dict_get (rec_body r) (str ''denial_reason'') = map_option JStr (rec_reason r)"
  by (auto simp: rec_body_def dict_get_append split: option.split)

interpretation rec_doc: canonical_document rec_body "\<lambda>r. r"
proof
  fix x y :: delegation_record
  show "dict_wf (rec_body x)" "plain (JObj (rec_body x))"
    by (auto simp: rec_body_def split: option.split)
  assume eq: "\<And>k. map_option jnorm (dict_get (rec_body x) k) = map_option jnorm (dict_get (rec_body y) k)"
  have o1: "map_option jnorm (map_option JStr a) = map_option jnorm (map_option JStr b) \<Longrightarrow> a = b" for a b
    by (cases a; cases b) simp_all
  have o2: "map_option jnorm (map_option str_list a) = map_option jnorm (map_option str_list b) \<Longrightarrow> a = b" for a b
    by (cases a; cases b) simp_all
  have dec: "rec_decision x = rec_decision y"
    using eq [of "str ''decision''"] by (simp add: rec_body_get split: if_splits)
  show "x = y"
    using eq [of "str ''record_id''"] eq [of "str ''credential_id''"] eq [of "str ''subject''"] eq [of "str ''scope''"]
      eq [of "str ''parent_record_hash''"] eq [of "str ''caller_attestation''"] dec
      o1 [OF eq [of "str ''requested_capability''", unfolded rec_body_get]]
      o2 [OF eq [of "str ''effective_scope''", unfolded rec_body_get]]
      o1 [OF eq [of "str ''denial_reason''", unfolded rec_body_get]]
    by (simp add: rec_body_get)
qed

definition record_bytes :: "delegation_record \<Rightarrow> bytes res" where
  "record_bytes r = canonicalize (JObj (rec_body r))"

interpretation records: hash_chain record_bytes record_hash rec_parent_hash "\<lambda>r. r" hex
proof
  fix r s :: delegation_record and b
  show "record_hash r = bindE (record_bytes r) (\<lambda>b. Inr (hex (sha256 b)))"
    by (simp add: record_hash_def record_bytes_def sha256_hex_def)
  show "record_bytes r = Inr b \<Longrightarrow> record_bytes s = Inr b \<Longrightarrow> r = s"
    unfolding record_bytes_def by (rule rec_doc.same_bytes)
qed simp_all

section \<open>The checks, declaratively\<close>

definition dag_valid :: "delegation_record list \<Rightarrow> bool" where
  "dag_valid rs \<longleftrightarrow>
     linked_by record_hash rec_parent_hash rs \<and> distinct (map rec_id rs) \<and> (\<forall>r \<in> set (butlast rs). \<not> rec_denied r)"

lemma check_record_None: "check_record i seen None r = Inr u \<longleftrightarrow> rec_id r \<notin> seen \<and> rec_parent_hash r = None"
  by (simp add: check_record_def guard_simps)

lemma check_record_Some:
  "check_record i seen (Some p) r = Inr u \<longleftrightarrow>
     rec_id r \<notin> seen \<and> \<not> rec_denied p \<and> (\<exists>h. record_hash p = Inr h \<and> rec_parent_hash r = Some h)"
  by (auto simp: check_record_def guard_simps)

lemma verify_records_Some:
  "verify_records i seen (Some p) rs = Inr u \<longleftrightarrow>
     successively (\<lambda>p r. \<exists>h. record_hash p = Inr h \<and> rec_parent_hash r = Some h) (p # rs) \<and>
     distinct (map rec_id rs) \<and> rec_id ` set rs \<inter> seen = {} \<and> (\<forall>r \<in> set (butlast (p # rs)). \<not> rec_denied r)"
  by (induction rs arbitrary: i seen p) (auto simp: guard_simps check_record_Some successively_Cons)

lemma verify_dag_Inr_iff: "verify_dag rs = Inr qs \<longleftrightarrow> qs = rs \<and> dag_valid rs"
proof (cases rs)
  case (Cons r rs')
  then show ?thesis
    by (auto simp: verify_dag_def guard_simps check_record_None verify_records_Some dag_valid_def linked_by_def)
qed (simp add: verify_dag_def dag_valid_def linked_by_def)

lemma check_hops_iff:
  "length rs = length cs \<Longrightarrow> check_hops i rs cs = Inr u \<longleftrightarrow>
     list_all2 (\<lambda>r c. rec_credential_id r = cred_id c \<and> rec_subject r = cred_subject c) rs cs"
  by (induction i rs cs rule: check_hops.induct) auto

lemma check_denials_iff:
  "check_denials L chain rs = Inr u \<longleftrightarrow>
     (\<forall>r \<in> set rs. rec_denied r \<longrightarrow>
        (\<exists>c. cred_by_id chain (rec_credential_id r) = Some c \<and> rec_subject r = cred_subject c))"
  by (induction rs) (auto split: option.splits)

lemma cross_check_iff:
  "cross_check_chain L rs chain = Inr u \<longleftrightarrow>
     list_all2 (\<lambda>r c. rec_credential_id r = cred_id c \<and> rec_subject r = cred_subject c)
       (filter (\<lambda>r. \<not> rec_denied r) rs) chain \<and>
     (\<forall>r \<in> set rs. rec_denied r \<longrightarrow>
        (\<exists>c. cred_by_id chain (rec_credential_id r) = Some c \<and> rec_subject r = cred_subject c))"
proof (cases "length (filter (\<lambda>r. \<not> rec_denied r) rs) = length chain")
  case True
  then show ?thesis
    by (simp add: cross_check_chain_def bindE_Inr_iff check_hops_iff check_denials_iff)
next
  case False
  then show ?thesis by (auto simp: cross_check_chain_def dest: list_all2_lengthD)
qed

section \<open>Properties\<close>

text \<open>
  The structural check accepts exactly the record chains in which the first record has no
  parent, each later record names the recomputed hash of the one before it, no identifier repeats
  and nothing follows a denial; and it returns the chain unchanged.
\<close>

theorem verify_dag_correct: "verify_dag rs = Inr qs \<longleftrightarrow> qs = rs \<and> dag_valid rs"
  by (rule verify_dag_Inr_iff)

text \<open>
  A record chain is tamper evident: two chains that pass the structural check and end in the same
  record are the same chain, unless some record of one and some record of the other are a
  SHA-256 collision. So altering, dropping, reordering or reparenting any earlier record shows in
  the hash of the last.
\<close>

theorem dag_tamper_evident:
  assumes "verify_dag rs = Inr rs" and "verify_dag ss = Inr ss" and "last rs = last ss"
  shows "rs = ss \<or> colliding record_bytes rs ss"
  using records.last_determines [of rs ss] assms by (simp add: verify_dag_Inr_iff dag_valid_def)

definition sample_record :: "string \<Rightarrow> ustr option \<Rightarrow> delegation_record" where
  "sample_record i parent = \<lparr>rec_id = str i, rec_credential_id = str ''root'', rec_subject = str ''s'', rec_scope = {||},
     rec_parent_hash = parent, rec_decision = ALLOW, rec_requested = None, rec_effective = None, rec_reason = None,
     rec_caller_attestation = CALLER_NOT_OFFERED\<rparr>"

lemma sample_record_hash: "\<exists>h. record_hash (sample_record i None) = Inr h"
proof -
  have "json_ok (JObj (rec_body (sample_record i None)))"
    by (simp add: rec_body_def sample_record_def CALLER_NOT_OFFERED_def)
  from canonicalize_ok [OF this] show ?thesis by (auto simp: record_hash_def)
qed

theorem dag_tamper_evident_witness:
  "\<exists>h. let rs = [sample_record ''a'' None, sample_record ''b'' (Some h)]; ss = [sample_record ''c'' None, sample_record ''b'' (Some h)]
       in verify_dag rs = Inr rs \<and> (verify_dag ss = Inr ss \<longrightarrow> colliding record_bytes rs ss)"
proof -
  obtain h where h: "record_hash (sample_record ''a'' None) = Inr h" using sample_record_hash by blast
  let ?rs = "[sample_record ''a'' None, sample_record ''b'' (Some h)]"
  let ?ss = "[sample_record ''c'' None, sample_record ''b'' (Some h)]"
  have v: "verify_dag ?rs = Inr ?rs"
    using h by (simp add: verify_dag_Inr_iff dag_valid_def linked_by_def) (simp add: sample_record_def rec_denied_def ALLOW_def DENY_def)
  have "?rs \<noteq> ?ss" by (simp add: sample_record_def)
  with dag_tamper_evident [OF v, of ?ss] v show ?thesis unfolding Let_def by auto
qed

text \<open>
  The cross-check ties provenance to authority exactly: the allowed records name, in order, the
  credentials and subjects of the chain, and every denial names a credential of the chain with its
  subject.
\<close>

theorem cross_check_correct:
  "cross_check_chain L rs chain = Inr () \<longleftrightarrow>
     list_all2 (\<lambda>r c. rec_credential_id r = cred_id c \<and> rec_subject r = cred_subject c)
       (filter (\<lambda>r. \<not> rec_denied r) rs) chain \<and>
     (\<forall>r \<in> set rs. rec_denied r \<longrightarrow>
        (\<exists>c. cred_by_id chain (rec_credential_id r) = Some c \<and> rec_subject r = cred_subject c))"
  by (rule cross_check_iff)

theorem cross_check_correct_witness:
  "cross_check_chain sample_lib [(sample_record ''a'' None)\<lparr>rec_subject := sample_key 2\<rparr>] [sample_root] = Inr ()"
  unfolding cross_check_correct
  by (simp add: sample_record_def rec_denied_def ALLOW_def DENY_def)

end
