(* ===== verification/Peer.thy ===== *)
theory Peer
  imports Attestation Policy Chain Provenance
begin

text \<open>
  The inbound peer call, \<open>ca2a_runtime/peer.py\<close>: scope intersection, the capability decision with
  its allow or denial record, appraisal of the caller's runtime, holder binding and the pipeline
  that composes them and opens the sealed payload last. The keyword arguments of the pipeline are
  the record \<open>peer_config\<close>, which also holds the clock reads of its steps.
\<close>

section \<open>Decision\<close>

definition REQUIRE_NONE :: ustr where
  "REQUIRE_NONE = str ''none''"

definition REQUIRE_ANY :: ustr where
  "REQUIRE_ANY = str ''any''"

definition REQUIRE_HARDWARE :: ustr where
  "REQUIRE_HARDWARE = str ''hardware''"

definition REQUIREMENT_VALUES :: "ustr fset" where
  "REQUIREMENT_VALUES = {|REQUIRE_NONE, REQUIRE_ANY, REQUIRE_HARDWARE|}"

text \<open>\<open>chain[-1]\<close>.\<close>

definition leaf_of :: "delegation_credential list \<Rightarrow> delegation_credential res" where
  "leaf_of chain = (if chain = [] then Inl (PyExn IndexError) else Inr (last chain))"

definition effective_scope ::
  "lib \<Rightarrow> chain_args \<Rightarrow> policy \<Rightarrow> delegation_credential list \<Rightarrow> ustr fset res" where
  "effective_scope L a policy chain =
     bindE (verify_chain L a chain) (\<lambda>_.
     bindE (leaf_of chain) (\<lambda>leaf. Inr (policy_intersect L policy (cred_scope leaf))))"

record peer_decision =
  pd_effective :: "ustr fset"
  pd_granted :: ustr
  pd_record :: delegation_record

definition decide_capability ::
  "lib \<Rightarrow> delegation_credential list \<Rightarrow> ustr \<Rightarrow> ustr fset \<Rightarrow> ustr \<Rightarrow> ustr option \<Rightarrow> ustr \<Rightarrow> peer_decision res" where
  "decide_capability L chain requested effective record_id parent_record_hash caller_attestation =
     (if requested |\<notin>| effective
      then
        let reason = str ''capability '' @ py_repr L (JStr requested) @ str '' is not in the effective scope'' in
        bindE (leaf_of chain) (\<lambda>leaf.
        bindE (denial_record_for leaf record_id parent_record_hash requested effective reason caller_attestation) (\<lambda>r.
        Inl (Ca2a ScopeNotPermitted reason (Some r))))
      else
        bindE (leaf_of chain) (\<lambda>leaf.
        bindE (record_for leaf record_id parent_record_hash caller_attestation) (\<lambda>r.
        Inr \<lparr>pd_effective = effective, pd_granted = requested, pd_record = r\<rparr>)))"

definition enforce_peer_call ::
  "lib \<Rightarrow> chain_args \<Rightarrow> policy \<Rightarrow> delegation_credential list \<Rightarrow> ustr \<Rightarrow> ustr \<Rightarrow> ustr option \<Rightarrow> ustr \<Rightarrow> peer_decision res" where
  "enforce_peer_call L a policy chain requested record_id parent_record_hash caller_attestation =
     bindE (effective_scope L a policy chain) (\<lambda>effective.
     decide_capability L chain requested effective record_id parent_record_hash caller_attestation)"

section \<open>Requests\<close>

record peer_request =
  pr_chain :: "delegation_credential list"
  pr_capability :: ustr
  pr_record_id :: ustr
  pr_sealed_payload :: "bytes option"
  pr_parent_hash :: "ustr option"
  pr_caller_offer :: "channel_offer option"
  pr_holder_proof :: "holder_proof option"
  pr_possession :: "caller_possession option"

record peer_result =
  res_effective :: "ustr fset"
  res_granted :: ustr
  res_record :: delegation_record
  res_payload :: "bytes option"
  res_caller_attestation :: ustr
  res_revocation :: revocation_status

record peer_config =
  cfg_policy :: policy
  cfg_enclave_key :: "bytes option"
  cfg_max_depth :: int
  cfg_challenge_secret :: "bytes option"
  cfg_requirement :: ustr
  cfg_caller_verifier :: "verifier option"
  cfg_audience :: "ustr option"
  cfg_require_holder :: bool
  cfg_trusted :: "ustr set"
  cfg_revocations :: "revocation_snapshot option"
  cfg_max_staleness :: "int option"
  cfg_chain_clock :: int
  cfg_holder_clock :: int
  cfg_offer_clock :: int

text \<open>The refusal of a caller's runtime, with its linked denial record.\<close>

definition refuse_caller :: "peer_request \<Rightarrow> ustr fset \<Rightarrow> ustr \<Rightarrow> ustr \<Rightarrow> 'a res" where
  "refuse_caller req effective reason outcome =
     bindE (leaf_of (pr_chain req)) (\<lambda>leaf.
     bindE (denial_record_for leaf (pr_record_id req) (pr_parent_hash req) (pr_capability req) effective reason outcome) (\<lambda>r.
     Inl (Ca2a AttestationFailed reason (Some r))))"

definition request_claim :: "lib \<Rightarrow> peer_request \<Rightarrow> channel_offer \<Rightarrow> delegation_credential \<Rightarrow> bytes \<Rightarrow> possession_claim" where
  "request_claim L req offer leaf callee_key =
     \<lparr>pc_challenge = ar_nonce (co_report offer), pc_callee_key = hex (x_public L callee_key),
      pc_caller_key = ar_public_key (co_report offer), pc_credential_id = cred_id leaf, pc_subject = cred_subject leaf,
      pc_capability = pr_capability req, pc_record_id = pr_record_id req, pc_sealed_payload = pr_sealed_payload req,
      pc_parent_hash = pr_parent_hash req, pc_holder_signature = map_option hp_signature (pr_holder_proof req)\<rparr>"

definition outcome_of :: "verified_peer \<Rightarrow> ustr" where
  "outcome_of peer = (if vp_assurance peer = str ''hardware'' then CALLER_HARDWARE else CALLER_SOFTWARE_ONLY)"

definition appraise_offer ::
  "lib \<Rightarrow> peer_config \<Rightarrow> peer_request \<Rightarrow> ustr fset \<Rightarrow> channel_offer \<Rightarrow> ustr res" where
  "appraise_offer L cfg req effective offer =
     (case cfg_challenge_secret cfg of
        None \<Rightarrow> refuse_caller req effective
                 (str ''the caller offered an attestation but this callee issues no challenges'') CALLER_FAILED
      | Some secret \<Rightarrow>
          bindE (catchE (appraise_caller L (cfg_offer_clock cfg) offer secret (cfg_caller_verifier cfg))
                   (is_class AttestationFailed) (\<lambda>e.
                   refuse_caller req effective
                     (str ''the caller's attestation did not appraise: '' @ exn_msg e) CALLER_FAILED)) (\<lambda>peer.
          (case cfg_enclave_key cfg of
             None \<Rightarrow> refuse_caller req effective
                      (str ''the caller offered an attestation but this callee has no channel key to check its proof of possession against'')
                      CALLER_FAILED
           | Some callee_key \<Rightarrow>
               bindE (leaf_of (pr_chain req)) (\<lambda>leaf.
               bindE (catchE (verify_caller_possession L (pr_possession req) callee_key
                                (caller_possession_transcript (request_claim L req offer leaf callee_key)))
                        (is_class AttestationFailed) (\<lambda>e.
                        refuse_caller req effective
                          (str ''the caller's proof of possession did not verify: '' @ exn_msg e) CALLER_FAILED)) (\<lambda>_.
               if cfg_requirement cfg = REQUIRE_HARDWARE \<and> outcome_of peer \<noteq> CALLER_HARDWARE
               then refuse_caller req effective (str ''the callee requires a hardware-attested caller'') (outcome_of peer)
               else Inr (outcome_of peer))))))"

definition appraise_caller_runtime :: "lib \<Rightarrow> peer_config \<Rightarrow> peer_request \<Rightarrow> ustr fset \<Rightarrow> ustr res" where
  "appraise_caller_runtime L cfg req effective =
     (if cfg_requirement cfg |\<notin>| REQUIREMENT_VALUES
      then Inl (Ca2a ConfigError (str ''require_caller_attestation must be one of '' @ py_repr L (str_list REQUIREMENT_VALUES)
              @ str '', got '' @ py_repr L (JStr (cfg_requirement cfg))) None)
      else (case pr_caller_offer req of
        None \<Rightarrow>
          if pr_possession req \<noteq> None
          then refuse_caller req effective
                 (str ''a caller proof of possession was sent without a caller offer'') CALLER_FAILED
          else if cfg_requirement cfg = REQUIRE_NONE then Inr CALLER_NOT_OFFERED
          else refuse_caller req effective
                 (str ''the callee requires caller attestation and the caller offered none'') CALLER_NOT_OFFERED
      | Some offer \<Rightarrow> appraise_offer L cfg req effective offer))"

definition facts_of :: "ustr \<Rightarrow> peer_request \<Rightarrow> request_facts" where
  "facts_of audience req =
     \<lparr>rf_audience = audience, rf_capability = pr_capability req, rf_record_id = pr_record_id req,
      rf_sealed_payload = pr_sealed_payload req, rf_caller_key = map_option co_public_key (pr_caller_offer req),
      rf_parent_hash = pr_parent_hash req\<rparr>"

definition verify_caller_holds_leaf :: "lib \<Rightarrow> peer_config \<Rightarrow> peer_request \<Rightarrow> unit res" where
  "verify_caller_holds_leaf L cfg req =
     (case pr_holder_proof req of
        None \<Rightarrow> raise HolderProofInvalid ''no holder proof was presented with the delegation chain''
      | Some proof \<Rightarrow>
          (case (cfg_audience cfg, cfg_challenge_secret cfg) of
             (Some audience, Some secret) \<Rightarrow>
               bindE (leaf_of (pr_chain req)) (\<lambda>leaf.
               verify_holder_proof L (cfg_holder_clock cfg) proof leaf secret (facts_of audience req))
           | _ \<Rightarrow> raise HolderProofInvalid ''holder proof required but this callee has no challenge context''))"

definition chain_args_of :: "peer_config \<Rightarrow> chain_args" where
  "chain_args_of cfg = \<lparr>ca_max_depth = cfg_max_depth cfg, ca_trusted = cfg_trusted cfg, ca_at_time = None,
     ca_revocations = cfg_revocations cfg, ca_max_staleness = cfg_max_staleness cfg, ca_clock = cfg_chain_clock cfg\<rparr>"

definition open_payload :: "lib \<Rightarrow> peer_config \<Rightarrow> peer_request \<Rightarrow> bytes option res" where
  "open_payload L cfg req =
     (case pr_sealed_payload req of
        None \<Rightarrow> Inr None
      | Some blob \<Rightarrow>
          (case cfg_enclave_key cfg of
             None \<Rightarrow> raise SealedChannelError ''a sealed payload was sent but no enclave key is available''
           | Some key \<Rightarrow> bindE (open_sealed L blob key []) (\<lambda>p. Inr (Some p))))"

definition handle_peer_request :: "lib \<Rightarrow> peer_config \<Rightarrow> peer_request \<Rightarrow> peer_result res" where
  "handle_peer_request L cfg req =
     bindE (verify_chain L (chain_args_of cfg) (pr_chain req)) (\<lambda>revocation.
     bindE (if cfg_require_holder cfg then verify_caller_holds_leaf L cfg req else Inr ()) (\<lambda>_.
     bindE (leaf_of (pr_chain req)) (\<lambda>leaf.
     let effective = policy_intersect L (cfg_policy cfg) (cred_scope leaf) in
     bindE (appraise_caller_runtime L cfg req effective) (\<lambda>caller_attestation.
     bindE (decide_capability L (pr_chain req) (pr_capability req) effective (pr_record_id req) (pr_parent_hash req)
              caller_attestation) (\<lambda>decision.
     bindE (open_payload L cfg req) (\<lambda>payload.
     Inr \<lparr>res_effective = pd_effective decision, res_granted = pd_granted decision, res_record = pd_record decision,
          res_payload = payload, res_caller_attestation = caller_attestation, res_revocation = revocation\<rparr>))))))"

section \<open>Records\<close>

lemma caller_values [simp]:
  "CALLER_FAILED \<in> CALLER_ATTESTATION_VALUES" "CALLER_NOT_OFFERED \<in> CALLER_ATTESTATION_VALUES"
  "CALLER_SOFTWARE_ONLY \<in> CALLER_ATTESTATION_VALUES" "CALLER_HARDWARE \<in> CALLER_ATTESTATION_VALUES"
  by (simp_all add: CALLER_ATTESTATION_VALUES_def)

lemma outcome_of_value [simp]: "outcome_of peer \<in> CALLER_ATTESTATION_VALUES"
  by (simp add: outcome_of_def)

lemma rec_post_init_iff [guard_simps]:
  "rec_post_init r = Inr s \<longleftrightarrow> s = r \<and> rec_caller_attestation r \<in> CALLER_ATTESTATION_VALUES"
  "rec_post_init r = Inl e \<longleftrightarrow> e = PyExn ValueError \<and> rec_caller_attestation r \<notin> CALLER_ATTESTATION_VALUES"
  by (auto simp: rec_post_init_def)

lemma leaf_of_Inr_iff [guard_simps]: "leaf_of chain = Inr leaf \<longleftrightarrow> chain \<noteq> [] \<and> leaf = last chain"
  by (auto simp: leaf_of_def)

lemma leaf_of_ne [simp]: "chain \<noteq> [] \<Longrightarrow> leaf_of chain = Inr (last chain)"
  by (simp add: leaf_of_def)

text \<open>The denial record of a request: what it must say to be evidence of the refusal.\<close>

definition denies :: "peer_request \<Rightarrow> ustr fset \<Rightarrow> delegation_record \<Rightarrow> bool" where
  "denies req effective r \<longleftrightarrow>
     rec_denied r \<and> rec_id r = pr_record_id req \<and> rec_credential_id r = cred_id (last (pr_chain req)) \<and>
     rec_subject r = cred_subject (last (pr_chain req)) \<and> rec_scope r = cred_scope (last (pr_chain req)) \<and>
     rec_parent_hash r = pr_parent_hash req \<and> rec_requested r = Some (pr_capability req) \<and>
     rec_effective r = Some effective \<and> rec_reason r \<noteq> None \<and>
     rec_caller_attestation r \<in> CALLER_ATTESTATION_VALUES"

lemma refuse_caller_InlD:
  assumes "refuse_caller req effective reason outcome = Inl e" and "pr_chain req \<noteq> []"
    and "outcome \<in> CALLER_ATTESTATION_VALUES"
  shows "exn_class e = Some AttestationFailed \<and> (\<exists>r. exn_record e = Some r \<and> denies req effective r)"
  using assms
  by (auto simp: refuse_caller_def denial_record_for_def rec_post_init_def denies_def rec_denied_def)

lemma refuse_caller_not_Inr [simp]: "refuse_caller req effective reason outcome \<noteq> Inr x"
  by (auto simp: refuse_caller_def guard_simps)

lemma decide_capability_Inr_iff:
  assumes "chain \<noteq> []"
  shows "decide_capability L chain cap eff rid ph ca = Inr d \<longleftrightarrow>
    cap |\<in>| eff \<and> (\<exists>r. record_for (last chain) rid ph ca = Inr r \<and> d = \<lparr>pd_effective = eff, pd_granted = cap, pd_record = r\<rparr>)"
  using assms by (auto simp: decide_capability_def Let_def guard_simps)

lemma decide_capability_exn:
  assumes "pr_chain req \<noteq> []" and "ca \<in> CALLER_ATTESTATION_VALUES"
    and "decide_capability L (pr_chain req) (pr_capability req) eff (pr_record_id req) (pr_parent_hash req) ca = Inl e"
  shows "\<exists>m r. e = Ca2a ScopeNotPermitted m (Some r) \<and> denies req eff r \<and> pr_capability req |\<notin>| eff"
  using assms
  by (auto simp: decide_capability_def record_for_def denial_record_for_def rec_post_init_def Let_def denies_def
      rec_denied_def split: if_splits)

section \<open>The pipeline, declaratively\<close>

text \<open>The caller's runtime was appraised: offer, challenge, verifier and possession.\<close>

definition caller_appraised :: "lib \<Rightarrow> peer_config \<Rightarrow> peer_request \<Rightarrow> channel_offer \<Rightarrow> verified_peer \<Rightarrow> bool" where
  "caller_appraised L cfg req offer peer \<longleftrightarrow>
     (\<exists>secret key. cfg_challenge_secret cfg = Some secret \<and> cfg_enclave_key cfg = Some key \<and>
        appraise_caller L (cfg_offer_clock cfg) offer secret (cfg_caller_verifier cfg) = Inr peer \<and>
        verify_caller_possession L (pr_possession req) key
          (caller_possession_transcript (request_claim L req offer (last (pr_chain req)) key)) = Inr ())"

lemma appraise_offer_Inr_iff:
  assumes "pr_chain req \<noteq> []"
  shows "appraise_offer L cfg req eff offer = Inr out \<longleftrightarrow>
    (\<exists>peer. caller_appraised L cfg req offer peer \<and> out = outcome_of peer \<and>
       (cfg_requirement cfg = REQUIRE_HARDWARE \<longrightarrow> out = CALLER_HARDWARE))"
  using assms
  by (auto simp: appraise_offer_def caller_appraised_def bindE_Inr_iff catchE_Inr_iff split: option.splits)

lemma appraise_caller_runtime_Inr_iff:
  assumes "pr_chain req \<noteq> []"
  shows "appraise_caller_runtime L cfg req eff = Inr out \<longleftrightarrow>
    cfg_requirement cfg |\<in>| REQUIREMENT_VALUES \<and>
    (case pr_caller_offer req of
       None \<Rightarrow> pr_possession req = None \<and> cfg_requirement cfg = REQUIRE_NONE \<and> out = CALLER_NOT_OFFERED
     | Some offer \<Rightarrow> (\<exists>peer. caller_appraised L cfg req offer peer \<and> out = outcome_of peer \<and>
         (cfg_requirement cfg = REQUIRE_HARDWARE \<longrightarrow> out = CALLER_HARDWARE)))"
  using assms
  by (auto simp: appraise_caller_runtime_def appraise_offer_Inr_iff split: option.split)

lemma appraise_caller_runtime_value:
  assumes "pr_chain req \<noteq> []" and "appraise_caller_runtime L cfg req eff = Inr out"
  shows "out \<in> CALLER_ATTESTATION_VALUES"
  using assms by (auto simp: appraise_caller_runtime_Inr_iff split: option.splits)

definition effective_of :: "lib \<Rightarrow> peer_config \<Rightarrow> peer_request \<Rightarrow> ustr fset" where
  "effective_of L cfg req = policy_intersect L (cfg_policy cfg) (cred_scope (last (pr_chain req)))"

text \<open>The leaf's key holder made this request against a challenge of this callee.\<close>

definition holder_verified :: "lib \<Rightarrow> peer_config \<Rightarrow> peer_request \<Rightarrow> bool" where
  "holder_verified L cfg req \<longleftrightarrow>
     (\<exists>proof audience secret. pr_holder_proof req = Some proof \<and> cfg_audience cfg = Some audience \<and>
        cfg_challenge_secret cfg = Some secret \<and>
        verify_challenge L secret (hp_challenge proof) (cfg_holder_clock cfg) = Inr () \<and>
        signature_ok L (cred_subject (last (pr_chain req))) (hp_signature proof)
          (proof_body (hp_challenge proof) (cred_id (last (pr_chain req))) (cred_subject (last (pr_chain req)))
             (facts_of audience req)))"

lemma verify_caller_holds_leaf_iff:
  assumes "pr_chain req \<noteq> []"
  shows "verify_caller_holds_leaf L cfg req = Inr u \<longleftrightarrow> holder_verified L cfg req"
  using assms
  by (auto simp: verify_caller_holds_leaf_def holder_verified_def verify_holder_proof_iff split: option.splits)

lemma verify_caller_holds_leaf_record:
  assumes "pr_chain req \<noteq> []" and "verify_caller_holds_leaf L cfg req = Inl e"
  shows "exn_record e = None"
  using assms by (auto simp: verify_caller_holds_leaf_def dest: verify_holder_proof_exn split: option.splits)

lemma verify_chain_ne: "verify_chain L a chain = Inr s \<Longrightarrow> chain \<noteq> []"
  by (auto simp: verify_chain_Inr_iff chain_valid_def)

lemma handle_Inr_iff:
  "handle_peer_request L cfg req = Inr res \<longleftrightarrow>
     verify_chain L (chain_args_of cfg) (pr_chain req) = Inr (res_revocation res) \<and>
     (cfg_require_holder cfg \<longrightarrow> holder_verified L cfg req) \<and>
     appraise_caller_runtime L cfg req (effective_of L cfg req) = Inr (res_caller_attestation res) \<and>
     pr_capability req |\<in>| effective_of L cfg req \<and> res_effective res = effective_of L cfg req \<and>
     res_granted res = pr_capability req \<and>
     record_for (last (pr_chain req)) (pr_record_id req) (pr_parent_hash req) (res_caller_attestation res) = Inr (res_record res) \<and>
     open_payload L cfg req = Inr (res_payload res)"
proof (cases "verify_chain L (chain_args_of cfg) (pr_chain req)")
  case (Inl e)
  then show ?thesis by (simp add: handle_peer_request_def)
next
  case (Inr s)
  note ne = verify_chain_ne [OF Inr]
  show ?thesis
    by (cases res)
       (auto simp: handle_peer_request_def Inr Let_def ne bindE_Inr_iff decide_capability_Inr_iff
          verify_caller_holds_leaf_iff effective_of_def)
qed

lemma handle_valid:
  assumes "handle_peer_request L cfg req = Inr res"
  shows "chain_valid L (cfg_max_depth cfg) (cfg_trusted cfg) (cfg_chain_clock cfg) (pr_chain req)"
  using assms by (simp add: handle_Inr_iff verify_chain_Inr_iff chain_args_of_def eval_time_def)

text \<open>A hardware outcome is one the configured verifier gave for a caller-role report.\<close>

lemma hardware_appraised:
  assumes "caller_appraised L cfg req offer peer" and "outcome_of peer = CALLER_HARDWARE"
  shows "\<exists>v m. cfg_caller_verifier cfg = Some v \<and> v (co_report offer) (ar_nonce (co_report offer)) = Inr m \<and>
    ar_role (co_report offer) = ROLE_CALLER"
proof -
  have "CALLER_SOFTWARE_ONLY \<noteq> CALLER_HARDWARE" by (simp add: CALLER_SOFTWARE_ONLY_def CALLER_HARDWARE_def)
  with assms show ?thesis
    by (auto simp: caller_appraised_def appraise_caller_Inr_iff verify_offer_Inr_iff offer_bound_def outcome_of_def split: if_splits)
qed

lemma handle_hardware:
  assumes "handle_peer_request L cfg req = Inr res" and "cfg_requirement cfg = REQUIRE_HARDWARE"
  shows "\<exists>offer v m. pr_caller_offer req = Some offer \<and> cfg_caller_verifier cfg = Some v \<and>
    v (co_report offer) (ar_nonce (co_report offer)) = Inr m \<and> ar_role (co_report offer) = ROLE_CALLER"
proof -
  have "pr_chain req \<noteq> []" using handle_valid [OF assms(1)] by (simp add: chain_valid_def)
  moreover have "REQUIRE_HARDWARE \<noteq> REQUIRE_NONE" by (simp add: REQUIRE_HARDWARE_def REQUIRE_NONE_def)
  ultimately obtain offer peer where "pr_caller_offer req = Some offer" "caller_appraised L cfg req offer peer"
    "outcome_of peer = CALLER_HARDWARE"
    using assms by (auto simp: handle_Inr_iff appraise_caller_runtime_Inr_iff split: option.splits)
  with hardware_appraised show ?thesis by blast
qed

section \<open>Refusals\<close>

lemma verify_chain_record: "verify_chain L a chain = Inl e \<Longrightarrow> exn_record e = None"
proof -
  have hop: "check_hop L md now i seen prev c = Inl e \<Longrightarrow> exn_record e = None" for md now i seen prev c
    by (cases prev)
       (auto simp: hop_checks guard_simps cred_verify_signature_def cred_doc.catch_signature split: if_splits)
  have hops: "verify_hops L md now i seen prev cs = Inl e \<Longrightarrow> exn_record e = None" for md now i seen prev cs
    by (induction cs arbitrary: i seen prev) (auto simp: bindE_Inl_iff dest: hop)
  have dig: "credential_digest c = Inl e \<Longrightarrow> exn_record e = None" for c
    using canonicalize_exn [OF cred_doc.body_plain, of c] by (auto simp: credential_digest_def bindE_Inl_iff)
  have rv: "check_revoked snap t i A cs = Inl e \<Longrightarrow> exn_record e = None" for snap t i A cs
    by (induction cs arbitrary: i A) (auto simp: bindE_Inl_iff dest: dig split: option.splits)
  assume "verify_chain L a chain = Inl e"
  then show ?thesis
    by (auto simp: verify_chain_def check_revocation_def guard_simps dest: hop hops rv dig split: list.splits option.splits if_splits)
qed

text \<open>What the documentation asks of an injected verifier: it raises nothing but \<open>AttestationFailed\<close>.\<close>

definition verifier_contract :: "verifier option \<Rightarrow> bool" where
  "verifier_contract v \<longleftrightarrow>
     (\<forall>f report nonce e. v = Some f \<longrightarrow> f report nonce = Inl e \<longrightarrow> exn_class e = Some AttestationFailed)"

lemma verify_offer_exn:
  assumes "verifier_contract v" and "verify_offer L offer n v rh role = Inl e"
  shows "exn_class e = Some AttestationFailed"
  using assms
  by (auto simp: verify_offer_def verifier_contract_def Let_def bindE_Inl_iff split: if_splits option.splits)

lemma appraise_caller_exn:
  assumes "verifier_contract v" and "appraise_caller L now offer secret v = Inl e"
  shows "exn_class e = Some AttestationFailed \<or> e = PyExn UnicodeEncodeError"
  using assms by (auto simp: appraise_caller_def bindE_Inl_iff dest: verify_challenge_exn verify_offer_exn)

lemma appraise_offer_exn:
  assumes "pr_chain req \<noteq> []" and "verifier_contract (cfg_caller_verifier cfg)"
    and "appraise_offer L cfg req eff offer = Inl e"
  shows "(is_value_error e \<or> exn_class e = Some AttestationFailed \<and> (\<exists>r. exn_record e = Some r \<and> denies req eff r))"
proof -
  have vp: "verify_caller_possession L po k (caller_possession_transcript c) = Inl e \<Longrightarrow>
      exn_class e \<noteq> Some AttestationFailed \<Longrightarrow> is_value_error e" for po k c e
    using verify_caller_possession_exn [of L po k c e] by auto
  show ?thesis
    using assms(1,3)
    by (auto simp: appraise_offer_def guard_simps split: option.splits if_splits
        dest!: refuse_caller_InlD appraise_caller_exn [OF assms(2)] vp)
qed

lemma appraise_caller_runtime_exn:
  assumes "pr_chain req \<noteq> []" and "verifier_contract (cfg_caller_verifier cfg)"
    and "appraise_caller_runtime L cfg req eff = Inl e"
  shows "exn_record e = None \<or> (\<exists>r. exn_record e = Some r \<and> denies req eff r)"
  using assms(1,3)
  by (auto simp: appraise_caller_runtime_def split: option.splits if_splits
      dest!: refuse_caller_InlD appraise_offer_exn [OF assms(1,2)])

lemma handle_Inl_record:
  assumes "verifier_contract (cfg_caller_verifier cfg)" and "handle_peer_request L cfg req = Inl e"
    and "exn_record e = Some r"
  shows "(\<exists>s. verify_chain L (chain_args_of cfg) (pr_chain req) = Inr s) \<and>
    (cfg_require_holder cfg \<longrightarrow> holder_verified L cfg req) \<and> denies req (effective_of L cfg req) r"
proof (cases "verify_chain L (chain_args_of cfg) (pr_chain req)")
  case (Inl e')
  with assms(2) verify_chain_record [OF Inl] assms(3) show ?thesis by (simp add: handle_peer_request_def)
next
  case (Inr s)
  note ne = verify_chain_ne [OF Inr]
  have op: "open_payload L cfg req = Inl x \<Longrightarrow> exn_record x = None" for x
    by (auto simp: open_payload_def bindE_Inl_iff dest: open_sealed_exn split: option.splits)
  have vh: "verify_caller_holds_leaf L cfg req = Inl x \<Longrightarrow> exn_record x = None" for x
    by (rule verify_caller_holds_leaf_record [OF ne])
  show ?thesis
    using assms(2,3) Inr ne
    by (auto simp: handle_peer_request_def Let_def bindE_Inl_iff verify_caller_holds_leaf_iff
        simp flip: effective_of_def split: if_splits
        dest!: vh op appraise_caller_runtime_exn [OF ne assms(1)] decide_capability_exn [OF ne appraise_caller_runtime_value [OF ne]])
qed

section \<open>Independence of the decryption\<close>

text \<open>Nothing before the last step looks at what the cipher would return.\<close>

lemma blind_lib [simp]:
  "all_ascii (L\<lparr>aead_decrypt := d\<rparr>) s = all_ascii L s"
  "verify_hops (L\<lparr>aead_decrypt := d\<rparr>) md now i seen prev cs = verify_hops L md now i seen prev cs"
  "signature_ok (L\<lparr>aead_decrypt := d\<rparr>) key sig body = signature_ok L key sig body"
  "policy_intersect (L\<lparr>aead_decrypt := d\<rparr>) p delegated = policy_intersect L p delegated"
proof -
  let ?L = "L\<lparr>aead_decrypt := d\<rparr>"
  show "all_ascii ?L s = all_ascii L s"
    by (induction s) (simp_all add: to_ascii_def)
  have ch: "ed25519_check ?L key sig body = ed25519_check L key sig body" for key sig body
    by (simp add: ed25519_check_def)
  then show "signature_ok ?L key sig body = signature_ok L key sig body" by (simp add: signature_ok_def)
  have "check_hop ?L md now i seen prev c = check_hop L md now i seen prev c" for i seen prev c
    by (simp add: check_hop_def cred_verify_signature_def ch)
  then show "verify_hops ?L md now i seen prev cs = verify_hops L md now i seen prev cs"
    by (induction cs arbitrary: i seen prev) simp_all
  show "policy_intersect ?L p delegated = policy_intersect L p delegated"
    by (cases p) (simp_all add: cedar_intersect_def cedar_permits_def [abs_def])
qed

lemma blind_chain [simp]: "verify_chain (L\<lparr>aead_decrypt := d\<rparr>) a chain = verify_chain L a chain"
  by (simp add: verify_chain_def del: verify_hops.simps split: list.split)

lemma blind_challenge [simp]: "verify_challenge (L\<lparr>aead_decrypt := d\<rparr>) s ch now = verify_challenge L s ch now"
  by (simp add: verify_challenge_def py_int_def split: list.split)

lemma blind_holder [simp]: "verify_caller_holds_leaf (L\<lparr>aead_decrypt := d\<rparr>) cfg req = verify_caller_holds_leaf L cfg req"
  by (simp add: verify_caller_holds_leaf_def verify_holder_proof_def ed25519_check_def split: option.split)

lemma blind_possession [simp]:
  "verify_caller_possession (L\<lparr>aead_decrypt := d\<rparr>) po k (caller_possession_transcript c) =
   verify_caller_possession L po k (caller_possession_transcript c)"
  by (simp add: verify_caller_possession_def possession_mac_def x_public_of_hex_def transcript_get Let_def split: option.split)

lemma blind_appraisal [simp]:
  "appraise_caller_runtime (L\<lparr>aead_decrypt := d\<rparr>) cfg req eff = appraise_caller_runtime L cfg req eff"
proof -
  let ?L = "L\<lparr>aead_decrypt := d\<rparr>"
  have "appraise_caller ?L now offer s v = appraise_caller L now offer s v" for now offer s v
    by (cases v) (simp_all add: appraise_caller_def verify_offer_def Let_def)
  moreover have "request_claim ?L req offer leaf k = request_claim L req offer leaf k" for offer leaf k
    by (simp add: request_claim_def)
  ultimately have "appraise_offer ?L cfg req eff offer = appraise_offer L cfg req eff offer" for offer
    by (cases "cfg_challenge_secret cfg"; cases "cfg_enclave_key cfg") (simp_all add: appraise_offer_def)
  then show ?thesis by (simp add: appraise_caller_runtime_def split: option.split)
qed

lemma blind_decision [simp]:
  "decide_capability (L\<lparr>aead_decrypt := d\<rparr>) chain cap eff rid ph ca = decide_capability L chain cap eff rid ph ca"
  by (simp add: decide_capability_def)

text \<open>The pipeline is its checks followed by the opening of the payload.\<close>

lemma handle_refusal_blind:
  assumes "handle_peer_request L cfg req = Inl e" and "exn_class e \<noteq> Some SealedChannelError"
  shows "handle_peer_request (L\<lparr>aead_decrypt := d\<rparr>) cfg req = Inl e"
proof -
  have op: "open_payload L' cfg req = Inl x \<Longrightarrow> exn_class x = Some SealedChannelError" for L' x
    by (auto simp: open_payload_def bindE_Inl_iff dest: open_sealed_exn split: option.splits)
  from assms(2) have "open_payload L cfg req \<noteq> Inl e" using op by blast
  with assms(1) show ?thesis
    by (auto simp: handle_peer_request_def Let_def bindE_Inl_iff)
qed

section \<open>A sample call\<close>

definition sample_config :: peer_config where
  "sample_config = \<lparr>cfg_policy = LocalPolicy {|str ''read''|}, cfg_enclave_key = Some [5], cfg_max_depth = 8,
     cfg_challenge_secret = Some [1], cfg_requirement = REQUIRE_NONE, cfg_caller_verifier = None,
     cfg_audience = Some (str ''callee''), cfg_require_holder = True, cfg_trusted = {sample_key 1},
     cfg_revocations = None, cfg_max_staleness = None, cfg_chain_clock = 100, cfg_holder_clock = 120,
     cfg_offer_clock = 120\<rparr>"

definition sample_request_to :: "ustr \<Rightarrow> ustr \<Rightarrow> peer_request" where
  "sample_request_to audience capability =
     (let req = \<lparr>pr_chain = [sample_root, sample_leaf], pr_capability = capability, pr_record_id = str ''r1'',
        pr_sealed_payload = None, pr_parent_hash = None, pr_caller_offer = None, pr_holder_proof = None, pr_possession = None\<rparr>
      in case build_holder_proof sample_lib [3] sample_leaf sample_challenge (facts_of audience req) of
           Inr p \<Rightarrow> req\<lparr>pr_holder_proof := Some p\<rparr> | Inl _ \<Rightarrow> req)"

abbreviation sample_request :: "ustr \<Rightarrow> peer_request" where
  "sample_request \<equiv> sample_request_to (str ''callee'')"

lemma sample_request_fields:
  "pr_chain (sample_request_to aud c) = [sample_root, sample_leaf]" "pr_capability (sample_request_to aud c) = c"
  "pr_record_id (sample_request_to aud c) = str ''r1''" "pr_sealed_payload (sample_request_to aud c) = None"
  "pr_parent_hash (sample_request_to aud c) = None" "pr_caller_offer (sample_request_to aud c) = None"
  "pr_possession (sample_request_to aud c) = None"
  by (simp_all add: sample_request_to_def Let_def split: sum.splits)

lemma sample_chain_args: "chain_args_of sample_config = sample_args"
  by (simp add: chain_args_of_def sample_config_def sample_args_def)

lemma sample_holder:
  assumes "list_all encodable c" and "list_all encodable aud"
    and cfg: "cfg_audience cfg = Some aud" "cfg_challenge_secret cfg = Some [1]" "cfg_holder_clock cfg = 120"
  shows "holder_verified sample_lib cfg (sample_request_to aud c)"
proof -
  let ?req = "\<lparr>pr_chain = [sample_root, sample_leaf], pr_capability = c, pr_record_id = str ''r1'',
        pr_sealed_payload = None, pr_parent_hash = None, pr_caller_offer = None, pr_holder_proof = None, pr_possession = None\<rparr>"
  let ?f = "facts_of aud ?req"
  obtain p where p: "build_holder_proof sample_lib [3] sample_leaf sample_challenge ?f = Inr p"
    using sample_proof [of ?f] assms(1,2) by (auto simp: facts_of_def)
  have r: "sample_request_to aud c = ?req\<lparr>pr_holder_proof := Some p\<rparr>" by (simp add: sample_request_to_def p)
  have f: "facts_of aud (sample_request_to aud c) = ?f" by (simp add: r facts_of_def)
  from p obtain m where m: "canonicalize (JObj (proof_body sample_challenge (cred_id sample_leaf) (cred_subject sample_leaf) ?f)) = Inr m"
    and pp: "p = \<lparr>hp_challenge = sample_challenge, hp_signature = hex (ed_sign sample_lib [3] m)\<rparr>"
    by (auto simp: build_holder_proof_def bindE_Inr_iff split: if_splits)
  have "signature_ok sample_lib (cred_subject sample_leaf) (hp_signature p)
      (proof_body (hp_challenge p) (cred_id sample_leaf) (cred_subject sample_leaf) ?f)"
    using signature_ok_sign [OF sample_ed25519 m, of "[3]"] by (simp add: pp sample_key_def)
  moreover have "verify_challenge sample_lib [1] (hp_challenge p) 120 = Inr ()" by (simp add: pp sample_challenge_verifies)
  moreover have "pr_holder_proof (sample_request_to aud c) = Some p" by (simp add: r)
  ultimately show ?thesis
    unfolding holder_verified_def by (simp add: sample_request_fields f [symmetric]) (simp add: cfg)
qed

lemma sample_effective: "effective_of sample_lib sample_config (sample_request c) = {|str ''read''|}"
  by (simp add: effective_of_def sample_request_fields sample_config_def local_intersect_def)

lemma sample_appraisal:
  "appraise_caller_runtime sample_lib sample_config (sample_request c) eff = Inr CALLER_NOT_OFFERED"
  by (simp add: appraise_caller_runtime_Inr_iff sample_request_fields) (simp add: sample_config_def REQUIREMENT_VALUES_def)

lemma sample_accepted: "\<exists>res. handle_peer_request sample_lib sample_config (sample_request (str ''read'')) = Inr res"
proof -
  let ?req = "sample_request (str ''read'')"
  obtain r where r: "record_for sample_leaf (str ''r1'') None CALLER_NOT_OFFERED = Inr r"
    by (simp add: record_for_def rec_post_init_def)
  have "open_payload sample_lib sample_config ?req = Inr None"
    by (simp add: open_payload_def sample_request_fields)
  with r sample_chain_verifies sample_holder [of "str ''read''" "str ''callee''" sample_config] sample_appraisal
  have "handle_peer_request sample_lib sample_config ?req = Inr \<lparr>res_effective = {|str ''read''|}, res_granted = str ''read'',
      res_record = r, res_payload = None, res_caller_attestation = CALLER_NOT_OFFERED, res_revocation = REVOCATION_NOT_CHECKED\<rparr>"
    by (simp add: handle_Inr_iff sample_effective sample_request_fields sample_chain_args) (simp add: sample_config_def)
  then show ?thesis by blast
qed

lemma sample_denied:
  "\<exists>m r. handle_peer_request sample_lib sample_config (sample_request (str ''write'')) = Inl (Ca2a ScopeNotPermitted m (Some r))"
proof -
  let ?req = "sample_request (str ''write'')"
  have "verify_caller_holds_leaf sample_lib sample_config ?req = Inr ()"
    using sample_holder [of "str ''write''" "str ''callee''" sample_config]
    by (simp add: verify_caller_holds_leaf_iff sample_request_fields sample_config_def)
  then show ?thesis
    using sample_chain_verifies sample_effective [of "str ''write''", unfolded effective_of_def] sample_appraisal
    by (simp add: handle_peer_request_def sample_chain_args sample_request_fields decide_capability_def
        denial_record_for_def rec_post_init_def Let_def)
qed

section \<open>Properties\<close>

text \<open>
  C1: No call is accepted without authority. When the pipeline accepts, the delegation chain is
  valid now under a trusted root, the granted capability is the requested one, it is permitted by
  the local policy and it is in the scope of every hop of the chain.
\<close>

theorem accepted_call_authorized:
  assumes "handle_peer_request L cfg req = Inr res"
  shows "chain_valid L (cfg_max_depth cfg) (cfg_trusted cfg) (cfg_chain_clock cfg) (pr_chain req) \<and>
    res_granted res = pr_capability req \<and> policy_permits L (cfg_policy cfg) (res_granted res) \<and>
    (\<forall>c \<in> set (pr_chain req). res_granted res |\<in>| cred_scope c)"
proof -
  have v: "chain_valid L (cfg_max_depth cfg) (cfg_trusted cfg) (cfg_chain_clock cfg) (pr_chain req)"
    using assms by (rule handle_valid)
  have ne: "pr_chain req \<noteq> []" using v by (simp add: chain_valid_def)
  from assms have cap: "pr_capability req |\<in>| cred_scope (last (pr_chain req))" "policy_permits L (cfg_policy cfg) (pr_capability req)"
    and g: "res_granted res = pr_capability req"
    by (simp_all add: handle_Inr_iff effective_of_def any_policy.intersect_iff)
  have "pr_capability req |\<in>| cred_scope c" if "c \<in> set (pr_chain req)" for c
  proof -
    from that obtain i where "i < length (pr_chain req)" "c = pr_chain req ! i" by (auto simp: in_set_conv_nth)
    then have "cred_scope (last (pr_chain req)) |\<subseteq>| cred_scope c"
      using chain_valid_scope [OF v, of i "length (pr_chain req) - 1"] ne by (simp add: last_conv_nth)
    with cap(1) show ?thesis by blast
  qed
  with v g cap(2) show ?thesis by simp
qed

theorem accepted_call_authorized_witness:
  "\<exists>res. handle_peer_request sample_lib sample_config (sample_request (str ''read'')) = Inr res \<and>
     res_granted res = str ''read'' \<and> res_granted res |\<in>| cred_scope sample_root"
proof -
  obtain res where r: "handle_peer_request sample_lib sample_config (sample_request (str ''read'')) = Inr res"
    using sample_accepted by blast
  from accepted_call_authorized [OF r] r show ?thesis by (auto simp: sample_request_fields)
qed





text \<open>
  C8: The payload stays sealed until everything else has been decided. A refusal other than a
  failure to open the payload is reached without decrypting: it is the same whatever the cipher
  would have returned.
\<close>

theorem refusal_never_opens_payload:
  assumes "handle_peer_request L cfg req = Inl e" and "exn_class e \<noteq> Some SealedChannelError"
  shows "handle_peer_request (L\<lparr>aead_decrypt := d\<rparr>) cfg req = Inl e"
  using assms by (rule handle_refusal_blind)

theorem refusal_never_opens_payload_witness:
  "\<exists>e. handle_peer_request sample_lib sample_config (sample_request (str ''write'')) = Inl e \<and>
       handle_peer_request (sample_lib\<lparr>aead_decrypt := \<lambda>_ _ _ _. None\<rparr>) sample_config (sample_request (str ''write'')) = Inl e"
proof -
  obtain m r where r: "handle_peer_request sample_lib sample_config (sample_request (str ''write'')) = Inl (Ca2a ScopeNotPermitted m (Some r))"
    using sample_denied by blast
  from refusal_never_opens_payload [OF r] r show ?thesis by auto
qed

text \<open>
  C9: A refusal is evidence only about an authenticated request. If a refusal carries a provenance
  record, the chain had verified and, with holder binding on, the caller had proved it holds the
  leaf key; and the record is a denial that names the request, the leaf credential and its
  subject, the parent, the effective scope and a reason.
\<close>

theorem denial_record_accurate:
  assumes "verifier_contract (cfg_caller_verifier cfg)" and "handle_peer_request L cfg req = Inl e"
    and "exn_record e = Some r"
  shows "(\<exists>s. verify_chain L (chain_args_of cfg) (pr_chain req) = Inr s) \<and>
    (cfg_require_holder cfg \<longrightarrow> holder_verified L cfg req) \<and> denies req (effective_of L cfg req) r"
  using assms by (rule handle_Inl_record)

theorem denial_record_accurate_witness:
  "\<exists>e r. handle_peer_request sample_lib sample_config (sample_request (str ''write'')) = Inl e \<and> exn_record e = Some r \<and>
         rec_denied r \<and> rec_requested r = Some (str ''write'') \<and> rec_effective r = Some {|str ''read''|}"
proof -
  obtain m r where r: "handle_peer_request sample_lib sample_config (sample_request (str ''write'')) = Inl (Ca2a ScopeNotPermitted m (Some r))"
    using sample_denied by blast
  have "verifier_contract (cfg_caller_verifier sample_config)" by (simp add: verifier_contract_def sample_config_def)
  from denial_record_accurate [OF this r] r show ?thesis
    by (auto simp: denies_def sample_request_fields sample_effective)
qed

end
