(* ===== verification/Json_Text.thy ===== *)
theory Json_Text
  imports Challenge
begin

text \<open>
  The decoders of the Python standard library that the runtime reads the wire with:
  \<open>bytes.decode("utf-8")\<close> and \<open>json.loads\<close> with its \<open>object_pairs_hook\<close>. A failure, whatever its
  exception, is \<open>None\<close>: every caller in the runtime handles all of them alike. The value of a float
  literal is the interpreter's and belongs to the library record. The parser recurses on fuel;
  the length of the text is always enough (\<open>parse_fuel\<close>). The recursion limit of the interpreter,
  which refuses some very deeply nested texts, is not modelled. The main result is the round trip
  with the canonical printer: a canonical text parses to the normal form of the value it was
  printed from.
\<close>

section \<open>UTF-8\<close>

definition unit_at :: "nat list \<Rightarrow> nat \<Rightarrow> nat" where
  "unit_at bs i = (if i < length bs then bs ! i else 0)"

definition utf8_next :: "nat list \<Rightarrow> nat" where
  "utf8_next bs =
     (let b = unit_at bs 0; b1 = unit_at bs 1 - 128; b2 = unit_at bs 2 - 128; b3 = unit_at bs 3 - 128 in
      if b < 128 then b
      else if b < 224 then (b - 192) * 64 + b1
      else if b < 240 then ((b - 224) * 64 + b1) * 64 + b2
      else (((b - 240) * 64 + b1) * 64 + b2) * 64 + b3)"

text \<open>Each character is re-encoded and compared, which refuses overlong forms and surrogates.\<close>

function utf8_dec :: "nat list \<Rightarrow> ustr option" where
  "utf8_dec bs =
     (if bs = [] then Some []
      else let c = utf8_next bs; k = length (utf8_units c) in
        if encodable c \<and> take k bs = utf8_units c then map_option (\<lambda>s. c # s) (utf8_dec (drop k bs)) else None)"
  by pat_completeness auto
termination
proof (relation "measure length")
  fix bs :: "nat list" and c k :: nat
  assume "bs \<noteq> []" "c = utf8_next bs" "k = length (utf8_units c)"
  then show "(drop k bs, bs) \<in> measure length" by (simp add: utf8_units_length)
qed simp

declare utf8_dec.simps [simp del]

definition utf8_decode :: "bytes \<Rightarrow> ustr option" where
  "utf8_decode b = utf8_dec (map unat b)"

lemma utf8_next_units:
  assumes "c < 1114112"
  shows "utf8_next (utf8_units c @ r) = c"
proof -
  consider "c < 128" | "128 \<le> c" "c < 2048" | "2048 \<le> c" "c < 65536" | "65536 \<le> c" by linarith
  then show ?thesis
  proof cases
    case 1
    then show ?thesis by (simp add: utf8_units_def utf8_next_def unit_at_def Let_def)
  next
    case 2
    then show ?thesis by (simp add: utf8_units_def utf8_next_def unit_at_def Let_def)
  next
    case 3
    then have u: "utf8_units c = [224 + c div 64 div 64, 128 + c div 64 mod 64, 128 + c mod 64]" and "c div 64 div 64 < 16"
      by (simp_all add: utf8_units_def div_4096)
    then show ?thesis by (simp add: utf8_next_def unit_at_def Let_def)
  next
    case 4
    then have u: "utf8_units c = [240 + c div 64 div 64 div 64, 128 + c div 64 div 64 mod 64, 128 + c div 64 mod 64, 128 + c mod 64]"
      by (simp add: utf8_units_def div_4096 div_262144)
    then show ?thesis by (simp add: utf8_next_def unit_at_def Let_def)
  qed
qed

lemma utf8_dec_units: "list_all encodable s \<Longrightarrow> utf8_dec (concat (map utf8_units s)) = Some s"
proof (induction s)
  case Nil
  then show ?case by (simp add: utf8_dec.simps)
next
  case (Cons c s)
  then have "utf8_next (utf8_units c @ concat (map utf8_units s)) = c" by (simp add: utf8_next_units encodable_def)
  with Cons show ?case by (subst utf8_dec.simps) (simp add: Let_def)
qed

lemma utf8_decode_encode: "utf8 s = Some b \<Longrightarrow> utf8_decode b = Some s"
proof -
  assume "utf8 s = Some b"
  then have e: "list_all encodable s" and b: "b = map of_nat (concat (map utf8_units s))"
    by (auto simp: utf8_def split: if_splits)
  have "map unat b = concat (map utf8_units s)"
    unfolding b using utf8_units_bytes [OF e] by (auto simp: unat_of_nat intro!: map_idI)
  with utf8_dec_units [OF e] show ?thesis by (simp add: utf8_decode_def)
qed

lemma utf8_dec_Some: "utf8_dec bs = Some s \<Longrightarrow> list_all encodable s \<and> concat (map utf8_units s) = bs"
proof (induction bs arbitrary: s rule: utf8_dec.induct)
  case (1 bs)
  let ?c = "utf8_next bs" and ?k = "length (utf8_units (utf8_next bs))"
  show ?case
  proof (cases "bs = []")
    case False
    with "1.prems" obtain t where t: "utf8_dec (drop ?k bs) = Some t" and s: "s = ?c # t"
      and ok: "encodable ?c" "take ?k bs = utf8_units ?c"
      by (auto simp: utf8_dec.simps [of bs] Let_def split: if_splits)
    from "1.IH" [OF False refl refl _ t] ok have "list_all encodable t" "concat (map utf8_units t) = drop ?k bs" by auto
    with ok s show ?thesis by (metis append_take_drop_id concat.simps(2) list.simps(9) list.pred_inject(2))
  qed (use "1.prems" in \<open>simp add: utf8_dec.simps\<close>)
qed

lemma utf8_encode_decode: "utf8_decode b = Some s \<Longrightarrow> utf8 s = Some b"
proof -
  assume "utf8_decode b = Some s"
  then have "list_all encodable s" "concat (map utf8_units s) = map unat b"
    by (auto simp: utf8_decode_def dest: utf8_dec_Some)
  then show ?thesis by (simp add: utf8_def comp_def)
qed

section \<open>Scanner\<close>

definition json_ws :: "nat \<Rightarrow> bool" where
  "json_ws c \<longleftrightarrow> c = 32 \<or> c = 9 \<or> c = 10 \<or> c = 13"

definition skip_ws :: "ustr \<Rightarrow> ustr" where
  "skip_ws s = dropWhile json_ws s"

text \<open>The four hexadecimal digits of a \<open>\u\<close> escape.\<close>

fun read_hex4 :: "ustr \<Rightarrow> (nat \<times> ustr) option" where
  "read_hex4 (a # b # c # d # r) =
     (case (unhex_digit a, unhex_digit b, unhex_digit c, unhex_digit d) of
        (Some a, Some b, Some c, Some d) \<Rightarrow> Some (((a * 16 + b) * 16 + c) * 16 + d, r)
      | _ \<Rightarrow> None)"
| "read_hex4 _ = None"

text \<open>A high surrogate followed by an escaped low one is one character; alone it is kept.\<close>

definition read_escape_u :: "ustr \<Rightarrow> (nat \<times> ustr) option" where
  "read_escape_u s =
     (case read_hex4 s of
        None \<Rightarrow> None
      | Some (h, r) \<Rightarrow>
          if 55296 \<le> h \<and> h \<le> 56319 \<and> take 2 r = [92, 117] then
            (case read_hex4 (drop 2 r) of
               Some (l, q) \<Rightarrow> if 56320 \<le> l \<and> l \<le> 57343 then Some (65536 + (h - 55296) * 1024 + (l - 56320), q) else Some (h, r)
             | None \<Rightarrow> Some (h, r))
          else Some (h, r))"

definition UNESCAPES :: "nat \<rightharpoonup> nat" where
  "UNESCAPES = [34 \<mapsto> 34, 92 \<mapsto> 92, 47 \<mapsto> 47, 98 \<mapsto> 8, 102 \<mapsto> 12, 110 \<mapsto> 10, 114 \<mapsto> 13, 116 \<mapsto> 9]"

definition read_escape :: "ustr \<Rightarrow> (nat \<times> ustr) option" where
  "read_escape s =
     (case s of
        [] \<Rightarrow> None
      | e # r \<Rightarrow> if e = 117 then read_escape_u r else map_option (\<lambda>c. (c, r)) (UNESCAPES e))"

text \<open>The rest of a string, after its opening quote.\<close>

definition scan_step :: "ustr \<Rightarrow> (nat option \<times> ustr) option" where
  "scan_step s =
     (case s of
        [] \<Rightarrow> None
      | c # r \<Rightarrow>
          if c = 34 then Some (None, r)
          else if c = 92 then map_option (\<lambda>(c, q). (Some c, q)) (read_escape r)
          else if c < 32 then None else Some (Some c, r))"

lemma read_hex4_shorter: "read_hex4 s = Some (h, r) \<Longrightarrow> length r < length s"
  by (cases s rule: read_hex4.cases) (auto split: option.splits)

lemma read_escape_u_shorter: "read_escape_u s = Some (c, r) \<Longrightarrow> length r < length s"
  by (auto simp: read_escape_u_def dest!: read_hex4_shorter split: option.splits if_splits)

lemma scan_step_shorter: "scan_step s = Some (x, r) \<Longrightarrow> length r < length s"
  by (auto simp: scan_step_def read_escape_def dest!: read_escape_u_shorter split: list.splits if_splits)

function scan_chars :: "ustr \<Rightarrow> (ustr \<times> ustr) option" where
  "scan_chars s =
     (case scan_step s of
        None \<Rightarrow> None
      | Some (None, r) \<Rightarrow> Some ([], r)
      | Some (Some c, r) \<Rightarrow> map_option (\<lambda>(t, q). (c # t, q)) (scan_chars r))"
  by pat_completeness auto
termination by (relation "measure length") (auto dest: scan_step_shorter)

declare scan_chars.simps [simp del]

lemma scan_chars_shorter: "scan_chars s = Some (t, r) \<Longrightarrow> length r < length s"
proof (induction s arbitrary: t rule: scan_chars.induct)
  case (1 s)
  then show ?case
    by (fastforce simp: scan_chars.simps [of s] dest: scan_step_shorter split: option.splits)
qed

text \<open>A number: an optional sign, an integer part, then an optional fraction and exponent.\<close>

definition span_digits :: "ustr \<Rightarrow> ustr \<times> ustr" where
  "span_digits s = (takeWhile is_digit s, dropWhile is_digit s)"

definition scan_int_part :: "ustr \<Rightarrow> (ustr \<times> ustr) option" where
  "scan_int_part s =
     (case s of
        [] \<Rightarrow> None
      | c # r \<Rightarrow> if c = 48 then Some ([c], r) else if is_digit c then Some (span_digits s) else None)"

definition scan_frac :: "ustr \<Rightarrow> ustr \<times> ustr" where
  "scan_frac s =
     (case s of
        [] \<Rightarrow> ([], s)
      | c # r \<Rightarrow> if c = 46 \<and> fst (span_digits r) \<noteq> [] then (c # fst (span_digits r), snd (span_digits r)) else ([], s))"

definition scan_exp :: "ustr \<Rightarrow> ustr \<times> ustr" where
  "scan_exp s =
     (case s of
        [] \<Rightarrow> ([], s)
      | c # r \<Rightarrow>
          if c = 101 \<or> c = 69 then
            let sign = takeWhile (\<lambda>x. x = 43 \<or> x = 45) (take 1 r); ds = span_digits (drop (length sign) r)
            in if fst ds \<noteq> [] then (c # sign @ fst ds, snd ds) else ([], s)
          else ([], s))"

definition scan_number :: "lib \<Rightarrow> ustr \<Rightarrow> (json \<times> ustr) option" where
  "scan_number L s =
     (let sign = takeWhile (\<lambda>x. x = 45) (take 1 s) in
      case scan_int_part (drop (length sign) s) of
        None \<Rightarrow> None
      | Some (ds, r) \<Rightarrow>
          let f = scan_frac r; e = scan_exp (snd f) in
          if fst f = [] \<and> fst e = [] then
            (if length ds > INT_MAX_STR_DIGITS then None
             else Some (JInt (if sign = [] then int (digits_val ds) else - int (digits_val ds)), r))
          else Some (JFloat (py_float L (sign @ ds @ fst f @ fst e)), snd e))"

definition scan_literal :: "string \<Rightarrow> json \<Rightarrow> ustr \<Rightarrow> (json \<times> ustr) option" where
  "scan_literal w v s = (if take (length w) s = str w then Some (v, drop (length w) s) else None)"

definition scan_scalar :: "lib \<Rightarrow> ustr \<Rightarrow> (json \<times> ustr) option" where
  "scan_scalar L s =
     (if hd s = 110 then scan_literal ''null'' JNull s
      else if hd s = 116 then scan_literal ''true'' (JBool True) s
      else if hd s = 102 then scan_literal ''false'' (JBool False) s
      else if hd s = 78 then scan_literal ''NaN'' (JFloat None) s
      else if hd s = 73 then scan_literal ''Infinity'' (JFloat None) s
      else if scan_literal ''-Infinity'' (JFloat None) s \<noteq> None then scan_literal ''-Infinity'' (JFloat None) s
      else scan_number L s)"

section \<open>Values\<close>

type_synonym pairs_hook = "jdict \<Rightarrow> json option"

text \<open>
  \<open>parse_members\<close> starts after the opening quote of a key, \<open>parse_elements\<close> at the first character of an
  element.
\<close>

fun parse_value :: "lib \<Rightarrow> pairs_hook \<Rightarrow> nat \<Rightarrow> ustr \<Rightarrow> (json \<times> ustr) option"
  and parse_members :: "lib \<Rightarrow> pairs_hook \<Rightarrow> nat \<Rightarrow> ustr \<Rightarrow> (jdict \<times> ustr) option"
  and parse_elements :: "lib \<Rightarrow> pairs_hook \<Rightarrow> nat \<Rightarrow> ustr \<Rightarrow> (json list \<times> ustr) option"
where
  "parse_value L hook 0 s = None"
| "parse_value L hook (Suc n) s =
     (case s of
        [] \<Rightarrow> None
      | c # r \<Rightarrow>
          if c = 34 then map_option (\<lambda>(t, q). (JStr t, q)) (scan_chars r)
          else if c = 123 then
            (case skip_ws r of
               [] \<Rightarrow> None
             | d # q \<Rightarrow>
                 if d = 125 then map_option (\<lambda>v. (v, q)) (hook [])
                 else if d = 34 then
                   (case parse_members L hook n q of
                      None \<Rightarrow> None
                    | Some (kvs, q') \<Rightarrow> map_option (\<lambda>v. (v, q')) (hook kvs))
                 else None)
          else if c = 91 then
            (case skip_ws r of
               [] \<Rightarrow> None
             | d # q \<Rightarrow>
                 if d = 93 then Some (JList [], q)
                 else map_option (\<lambda>(vs, q'). (JList vs, q')) (parse_elements L hook n (d # q)))
          else scan_scalar L s)"
| "parse_members L hook 0 s = None"
| "parse_members L hook (Suc n) s =
     (case scan_chars s of
        None \<Rightarrow> None
      | Some (k, r) \<Rightarrow>
          (case skip_ws r of
             [] \<Rightarrow> None
           | c # r1 \<Rightarrow>
               if c \<noteq> 58 then None
               else (case parse_value L hook n (skip_ws r1) of
                 None \<Rightarrow> None
               | Some (v, r2) \<Rightarrow>
                   (case skip_ws r2 of
                      [] \<Rightarrow> None
                    | d # r3 \<Rightarrow>
                        if d = 125 then Some ([(k, v)], r3)
                        else if d = 44 then
                          (case skip_ws r3 of
                             [] \<Rightarrow> None
                           | e # r4 \<Rightarrow>
                               if e \<noteq> 34 then None
                               else map_option (\<lambda>(kvs, q). ((k, v) # kvs, q)) (parse_members L hook n r4))
                        else None))))"
| "parse_elements L hook 0 s = None"
| "parse_elements L hook (Suc n) s =
     (case parse_value L hook n s of
        None \<Rightarrow> None
      | Some (v, r) \<Rightarrow>
          (case skip_ws r of
             [] \<Rightarrow> None
           | d # r1 \<Rightarrow>
               if d = 93 then Some ([v], r1)
               else if d = 44 then map_option (\<lambda>(vs, q). (v # vs, q)) (parse_elements L hook n (skip_ws r1))
               else None))"

definition json_loads :: "lib \<Rightarrow> pairs_hook \<Rightarrow> ustr \<Rightarrow> json option" where
  "json_loads L hook s =
     (if s \<noteq> [] \<and> hd s = 65279 then None
      else case parse_value L hook (2 * length s) (skip_ws s) of
        None \<Rightarrow> None
      | Some (v, r) \<Rightarrow> if skip_ws r = [] then Some v else None)"

text \<open>Without a hook an object is the dict of its pairs, the last value of a key winning.\<close>

definition default_hook :: pairs_hook where
  "default_hook pairs = Some (JObj (dict_update [] pairs))"

section \<open>Fuel\<close>

lemma skip_ws_le: "length (skip_ws s) \<le> length s"
  by (simp add: skip_ws_def length_dropWhile_le)

lemma skip_ws_ConsD: "skip_ws s = c # r \<Longrightarrow> length r < length s"
  using skip_ws_le [of s] by simp

lemma scan_int_part_shorter: "scan_int_part s = Some (ds, r) \<Longrightarrow> length r < length s"
  by (auto simp: scan_int_part_def span_digits_def less_Suc_eq_le length_dropWhile_le split: list.splits if_splits)

lemma scan_frac_le: "length (snd (scan_frac s)) \<le> length s"
  by (auto simp: scan_frac_def span_digits_def split: list.split intro: le_SucI length_dropWhile_le)

lemma scan_exp_le: "length (snd (scan_exp s)) \<le> length s"
proof (cases s)
  case (Cons c r)
  have "length (dropWhile is_digit (drop k r)) \<le> length r" for k
    using length_dropWhile_le [of is_digit "drop k r"] by simp
  with Cons show ?thesis by (auto simp: scan_exp_def span_digits_def Let_def intro: le_SucI)
qed (simp add: scan_exp_def)

lemma scan_number_shorter: "scan_number L s = Some (v, r) \<Longrightarrow> length r < length s"
proof -
  assume a: "scan_number L s = Some (v, r)"
  define k where "k = length (takeWhile (\<lambda>x. x = 45) (take 1 s))"
  have le: "length (snd (scan_exp (snd (scan_frac q)))) \<le> length q" for q
    by (rule order_trans [OF scan_exp_le scan_frac_le])
  from a obtain ds q where i: "scan_int_part (drop k s) = Some (ds, q)" and "length r \<le> length q"
    by (fastforce simp: scan_number_def Let_def k_def le split: option.splits if_splits)
  with scan_int_part_shorter [OF i] show ?thesis by simp
qed

lemma scan_scalar_shorter: "scan_scalar L s = Some (v, r) \<Longrightarrow> s \<noteq> [] \<Longrightarrow> length r < length s"
  by (auto simp: scan_scalar_def scan_literal_def dest: scan_number_shorter split: if_splits)

lemma parse_value_SomeD:
  assumes "parse_value L hook (Suc n) s = Some (v, r)"
  obtains q t where "s = 34 # q" "scan_chars q = Some (t, r)"
  | p q where "s = 123 # p" "skip_ws p = 125 # q" "r = q"
  | p q kvs where "s = 123 # p" "skip_ws p = 34 # q" "parse_members L hook n q = Some (kvs, r)"
  | p q where "s = 91 # p" "skip_ws p = 93 # q" "r = q"
  | p d q vs where "s = 91 # p" "skip_ws p = d # q" "parse_elements L hook n (d # q) = Some (vs, r)"
  | "s \<noteq> []" "scan_scalar L s = Some (v, r)"
  using assms by (auto split: list.splits if_splits option.splits)

lemma parse_members_SomeD:
  assumes "parse_members L hook (Suc n) s = Some (kvs, r)"
  obtains k r0 r1 v r2 where "scan_chars s = Some (k, r0)" "skip_ws r0 = 58 # r1"
      "parse_value L hook n (skip_ws r1) = Some (v, r2)" "skip_ws r2 = 125 # r" "kvs = [(k, v)]"
  | k r0 r1 v r2 r3 r4 kvs' where "scan_chars s = Some (k, r0)" "skip_ws r0 = 58 # r1"
      "parse_value L hook n (skip_ws r1) = Some (v, r2)" "skip_ws r2 = 44 # r3" "skip_ws r3 = 34 # r4"
      "parse_members L hook n r4 = Some (kvs', r)" "kvs = (k, v) # kvs'"
  using assms by (auto split: list.splits if_splits option.splits)

lemma parse_elements_SomeD:
  assumes "parse_elements L hook (Suc n) s = Some (vs, r)"
  obtains v r0 where "parse_value L hook n s = Some (v, r0)" "skip_ws r0 = 93 # r" "vs = [v]"
  | v r0 r1 vs' where "parse_value L hook n s = Some (v, r0)" "skip_ws r0 = 44 # r1"
      "parse_elements L hook n (skip_ws r1) = Some (vs', r)" "vs = v # vs'"
  using assms by (auto split: list.splits if_splits option.splits)

lemma parse_shorter:
  "parse_value L hook n s = Some (v, r) \<Longrightarrow> length r < length s"
  "parse_members L hook n s = Some (kvs, r) \<Longrightarrow> length r < length s"
  "parse_elements L hook n s = Some (vs, r) \<Longrightarrow> length r < length s"
proof (induction n arbitrary: s v kvs vs r)
  case (Suc n)
  case 1
  then show ?case
    by (cases rule: parse_value_SomeD)
       (fastforce dest: skip_ws_ConsD scan_chars_shorter Suc.IH scan_scalar_shorter)+
next
  case (Suc n)
  note sh = skip_ws_ConsD scan_chars_shorter Suc.IH
  case 2
  then show ?case
  proof (cases rule: parse_members_SomeD)
    case (1 k r0 r1 v r2)
    from sh(1) [OF 1(2)] sh(1) [OF 1(4)] sh(2) [OF 1(1)] sh(3) [OF 1(3)] skip_ws_le [of r1] show ?thesis by linarith
  next
    case (2 k r0 r1 v r2 r3 r4 kvs')
    from sh(1) [OF 2(2)] sh(1) [OF 2(4)] sh(1) [OF 2(5)] sh(2) [OF 2(1)] sh(3) [OF 2(3)] sh(4) [OF 2(6)] skip_ws_le [of r1]
    show ?thesis by linarith
  qed
next
  case (Suc n)
  note sh = skip_ws_ConsD Suc.IH(1,3)
  case 3
  then show ?case
  proof (cases rule: parse_elements_SomeD)
    case (1 v r0)
    from sh(1) [OF 1(2)] sh(2) [OF 1(1)] show ?thesis by linarith
  next
    case (2 v r0 r1 vs')
    from sh(1) [OF 2(2)] sh(2) [OF 2(1)] sh(3) [OF 2(3)] skip_ws_le [of r1] show ?thesis by linarith
  qed
qed simp_all

text \<open>Fuel beyond twice the length of the text changes nothing.\<close>

lemma parse_fuel_step:
  "2 * length s \<le> n \<Longrightarrow> parse_value L hook (Suc n) s = parse_value L hook n s"
  "2 * length s < n \<Longrightarrow> parse_members L hook (Suc n) s = parse_members L hook n s"
  "2 * length s < n \<Longrightarrow> parse_elements L hook (Suc n) s = parse_elements L hook n s"
proof (induction n arbitrary: s)
  case 0
  case 1
  then show ?case by simp
next
  case (Suc n)
  case 1
  show ?case
  proof (cases s)
    case (Cons c r)
    have m: "parse_members L hook (Suc n) q = parse_members L hook n q" if "skip_ws r = d # q" for d q
      using Suc.IH(2) [of q] skip_ws_ConsD [OF that] 1 Cons by simp
    have e: "parse_elements L hook (Suc n) (d # q) = parse_elements L hook n (d # q)" if "skip_ws r = d # q" for d q
      using Suc.IH(3) [of "d # q"] skip_ws_ConsD [OF that] 1 Cons by simp
    show ?thesis unfolding parse_value.simps(2) [of L hook "Suc n" s] parse_value.simps(2) [of L hook n s] Cons
      by (auto simp: m e split: list.split simp del: parse_members.simps parse_elements.simps)
  qed simp
next
  case (Suc n)
  case 2
  have sub: "parse_value L hook (Suc n) (skip_ws r1) = parse_value L hook n (skip_ws r1)"
    if "scan_chars s = Some (k, r)" "skip_ws r = c # r1" for k r c r1
    using Suc.IH(1) [of "skip_ws r1"] scan_chars_shorter [OF that(1)] skip_ws_ConsD [OF that(2)] skip_ws_le [of r1] 2 by simp
  have sub2: "parse_members L hook (Suc n) r4 = parse_members L hook n r4"
    if "scan_chars s = Some (k, r)" "skip_ws r = c # r1" "parse_value L hook n (skip_ws r1) = Some (v, r2)"
      "skip_ws r2 = d # r3" "skip_ws r3 = e # r4" for k r c r1 v r2 d r3 e r4
    using Suc.IH(2) [of r4] scan_chars_shorter [OF that(1)] skip_ws_ConsD [OF that(2)] skip_ws_le [of r1]
      parse_shorter(1) [OF that(3)] skip_ws_ConsD [OF that(4)] skip_ws_ConsD [OF that(5)] 2 by simp
  show ?case unfolding parse_members.simps(2) [of L hook "Suc n" s] parse_members.simps(2) [of L hook n s]
    by (auto simp: sub sub2 split: list.split option.split simp del: parse_members.simps parse_value.simps)
next
  case (Suc n)
  case 3
  have sub: "parse_value L hook (Suc n) s = parse_value L hook n s"
    using Suc.IH(1) [of s] 3 by simp
  have sub2: "parse_elements L hook (Suc n) (skip_ws r1) = parse_elements L hook n (skip_ws r1)"
    if "parse_value L hook n s = Some (v, r)" "skip_ws r = d # r1" for v r d r1
    using Suc.IH(3) [of "skip_ws r1"] parse_shorter(1) [OF that(1)] skip_ws_ConsD [OF that(2)] skip_ws_le [of r1] 3 by simp
  show ?case unfolding parse_elements.simps(2) [of L hook "Suc n" s] parse_elements.simps(2) [of L hook n s] sub
    by (auto simp: sub2 split: list.split option.split simp del: parse_elements.simps parse_value.simps)
qed simp_all

lemma parse_fuel: "2 * length s \<le> n \<Longrightarrow> parse_value L hook n s = parse_value L hook (2 * length s) s"
  by (induction n rule: dec_induct) (simp_all add: parse_fuel_step(1) del: parse_value.simps)

section \<open>Reading back what was printed\<close>

lemma unhex_hex4: "c < 32 \<Longrightarrow> read_hex4 (hex4 c @ r) = Some (c, r)"
  by (simp add: hex4_def unhex_hex_digit unhex_hex_digit [of 0, simplified])

lemma scan_step_escape: "scan_step (escape_char c @ r) = Some (Some c, r)"
proof (cases "SHORT_ESCAPES c")
  case None
  then have "c \<noteq> 34" "c \<noteq> 92" by (auto simp: SHORT_ESCAPES_def split: if_splits)
  with None show ?thesis
    by (auto simp: escape_char_def scan_step_def read_escape_def read_escape_u_def unhex_hex4)
next
  case (Some e)
  then show ?thesis
    by (auto simp: escape_char_def scan_step_def read_escape_def SHORT_ESCAPES_def UNESCAPES_def split: if_splits)
qed

lemma scan_chars_escape: "scan_chars (concat (map escape_char t) @ 34 # r) = Some (t, r)"
proof (induction t)
  case Nil
  show ?case by (simp add: scan_chars.simps scan_step_def)
next
  case (Cons c t)
  then show ?case by (simp add: scan_chars.simps [of "escape_char c @ _"] scan_step_escape)
qed

lemma scan_int_part_nat_str:
  assumes "r = [] \<or> \<not> is_digit (hd r)"
  shows "scan_int_part (nat_str n @ r) = Some (nat_str n, r)"
proof -
  have all: "\<forall>c \<in> set (nat_str n). is_digit c" by (rule nat_str_digits)
  have tw: "takeWhile is_digit r = []" "dropWhile is_digit r = r" using assms by (cases r; simp)+
  have sp: "span_digits (nat_str n @ r) = (nat_str n, r)"
    using all tw by (simp add: span_digits_def)
  have zero: "nat_str n = [48]" if "hd (nat_str n) = 48"
    using that
  proof (induction n rule: nat_str.induct)
    case (1 n)
    show ?case
    proof (cases "n < 10")
      case True
      with 1 have "n = 0" by (simp add: nat_str.simps [of n])
      then show ?thesis by (simp add: nat_str.simps)
    next
      case False
      with 1 have "nat_str (n div 10) = [48]" by (simp add: nat_str.simps [of n])
      then have "n div 10 = 0" using digits_val_nat_str [of "n div 10"] by (simp add: digits_val_def)
      with False show ?thesis by linarith
    qed
  qed
  obtain c q where c: "nat_str n = c # q" using nat_str_nonempty by (cases "nat_str n") auto
  show ?thesis
  proof (cases "c = 48")
    case True
    with zero c have "q = []" by simp
    with True c show ?thesis by (simp add: scan_int_part_def)
  next
    case False
    moreover have "is_digit c" using all c by simp
    ultimately show ?thesis using sp c by (simp add: scan_int_part_def)
  qed
qed

lemma scan_number_int:
  assumes "\<bar>i\<bar> < 10 ^ INT_MAX_STR_DIGITS" and "delim r"
  shows "scan_number L (int_str i @ r) = Some (JInt i, r)"
proof -
  define n where "n = nat \<bar>i\<bar>"
  have "int n < int (10 ^ INT_MAX_STR_DIGITS)" using assms(1) by (simp add: n_def)
  then have "n < 10 ^ INT_MAX_STR_DIGITS" unfolding of_nat_less_iff .
  then have len: "length (nat_str n) \<le> INT_MAX_STR_DIGITS"
    by (rule nat_str_length) (simp add: INT_MAX_STR_DIGITS_def)
  have part: "scan_int_part (nat_str n @ r) = Some (nat_str n, r)"
    by (rule scan_int_part_nat_str [OF delim_not_digit [OF assms(2)]])
  have fe: "scan_frac r = ([], r)" "scan_exp r = ([], r)"
    using assms(2) by (auto simp: scan_frac_def scan_exp_def split: list.split)
  have hd: "takeWhile (\<lambda>x. x = 45) (take 1 (nat_str n @ r)) = []"
    using nat_str_hd [of n] nat_str_nonempty [of n] by (cases "nat_str n") (auto simp: is_digit_def)
  show ?thesis
  proof (cases "i < 0")
    case True
    then have "int_str i = 45 # nat_str n" "- int n = i" by (simp_all add: int_str_def n_def)
    with part fe len show ?thesis by (simp add: scan_number_def Let_def digits_val_nat_str)
  next
    case False
    then have "int_str i = nat_str n" "int n = i" by (simp_all add: int_str_def n_def)
    with part fe len hd show ?thesis by (simp add: scan_number_def Let_def digits_val_nat_str)
  qed
qed

text \<open>The values that the parser gives back: what the printer can print and the hook keeps.\<close>

fun parses_back :: "pairs_hook \<Rightarrow> json \<Rightarrow> bool" where
  "parses_back hook (JFloat _) \<longleftrightarrow> False"
| "parses_back hook (JOther _) \<longleftrightarrow> False"
| "parses_back hook (JInt i) \<longleftrightarrow> \<bar>i\<bar> < 10 ^ INT_MAX_STR_DIGITS"
| "parses_back hook (JList vs) \<longleftrightarrow> list_all (parses_back hook) vs"
| "parses_back hook (JObj kvs) \<longleftrightarrow> list_all (\<lambda>(k, v). parses_back hook v) kvs \<and> hook kvs = Some (JObj kvs)"
| "parses_back hook _ \<longleftrightarrow> True"

definition reads :: "lib \<Rightarrow> pairs_hook \<Rightarrow> json \<Rightarrow> bool" where
  "reads L hook v \<longleftrightarrow>
     render v \<noteq> [] \<and> \<not> json_ws (hd (render v)) \<and> hd (render v) \<noteq> 93 \<and>
     (\<forall>n r. 2 * length (render v) \<le> n \<longrightarrow> delim r \<longrightarrow> parse_value L hook n (render v @ r) = Some (v, r))"

lemma readsD:
  "reads L hook v \<Longrightarrow> 2 * length (render v) \<le> n \<Longrightarrow> delim r \<Longrightarrow> parse_value L hook n (render v @ r) = Some (v, r)"
  by (simp add: reads_def)

lemma skip_ws_other: "s \<noteq> [] \<Longrightarrow> \<not> json_ws (hd s) \<Longrightarrow> skip_ws (s @ r) = s @ r"
  by (cases s) (simp_all add: skip_ws_def)

lemma skip_ws_Cons: "\<not> json_ws c \<Longrightarrow> skip_ws (c # r) = c # r"
  by (simp add: skip_ws_def)

lemmas json_ws_punct = skip_ws_Cons [of 34, simplified json_ws_def, simplified] skip_ws_Cons [of 44, simplified json_ws_def, simplified]
  skip_ws_Cons [of 58, simplified json_ws_def, simplified] skip_ws_Cons [of 93, simplified json_ws_def, simplified]
  skip_ws_Cons [of 125, simplified json_ws_def, simplified]

lemma elements_read:
  assumes "list_all (reads L hook) vs" and "vs \<noteq> []" and "2 * length (join [44] (map render vs)) < n"
  shows "parse_elements L hook n (join [44] (map render vs) @ 93 # r) = Some (vs, r)"
  using assms
proof (induction vs arbitrary: n)
  case (Cons v vs)
  then obtain m where n: "n = Suc m" by (cases n) auto
  show ?case
  proof (cases vs)
    case Nil
    with Cons.prems n readsD [of L hook v m "93 # r"] show ?thesis
      by (simp add: json_ws_punct del: parse_value.simps)
  next
    case (Cons w ws)
    with Cons.prems n have v: "parse_value L hook m (render v @ 44 # join [44] (map render vs) @ 93 # r) =
        Some (v, 44 # join [44] (map render vs) @ 93 # r)"
      by (intro readsD) simp_all
    from Cons.prems Cons have "reads L hook w" by simp
    then have "skip_ws (join [44] (map render vs) @ 93 # r) = join [44] (map render vs) @ 93 # r"
      using Cons by (intro skip_ws_other) (auto simp: reads_def join_Cons)
    moreover have "parse_elements L hook m (join [44] (map render vs) @ 93 # r) = Some (vs, r)"
      using Cons.IH [of m] Cons.prems Cons n by simp
    ultimately show ?thesis using v n Cons
      by (simp add: json_ws_punct join_Cons del: parse_value.simps)
  qed
qed simp

abbreviation render_item :: "ustr \<times> json \<Rightarrow> ustr" where
  "render_item \<equiv> \<lambda>(k, v). escape_string k @ [58] @ render v"

lemma member_split:
  "tl (join [44] (map render_item ((k, v) # kvs))) =
     concat (map escape_char k) @ 34 # 58 # render v @ (if kvs = [] then [] else 44 # join [44] (map render_item kvs))"
  by (simp add: join_Cons escape_string_def)

lemma members_head: "kvs \<noteq> [] \<Longrightarrow> join [44] (map render_item kvs) = 34 # tl (join [44] (map render_item kvs))"
  by (cases kvs) (auto simp: join_Cons escape_string_def split: prod.split)

lemma members_read:
  assumes "list_all (\<lambda>(k, v). reads L hook v) kvs" and "kvs \<noteq> []" and "2 * length (join [44] (map render_item kvs)) < n"
  shows "parse_members L hook n (tl (join [44] (map render_item kvs)) @ 125 # r) = Some (kvs, r)"
  using assms
proof (induction kvs arbitrary: n)
  case (Cons kv kvs)
  obtain k v where kv: "kv = (k, v)" by (cases kv)
  from Cons.prems obtain m where n: "n = Suc m" by (cases n) auto
  from Cons.prems kv have rv: "reads L hook v" by simp
  then have ws: "skip_ws (render v @ x) = render v @ x" for x by (intro skip_ws_other) (auto simp: reads_def)
  have len: "2 * length (render v) \<le> m"
    using Cons.prems(3) n by (simp add: kv join_Cons escape_string_def)
  show ?case
  proof (cases "kvs = []")
    case True
    have "parse_value L hook m (render v @ 125 # r) = Some (v, 125 # r)" by (rule readsD [OF rv len]) simp
    then show ?thesis
      unfolding n kv True member_split by (simp add: scan_chars_escape ws json_ws_punct del: parse_value.simps)
  next
    case False
    have "2 * length (join [44] (map render_item kvs)) < m"
      using Cons.prems(3) n False by (simp add: kv join_Cons escape_string_def)
    with Cons.IH [of m] Cons.prems False
    have rest: "parse_members L hook m (tl (join [44] (map render_item kvs)) @ 125 # r) = Some (kvs, r)" by simp
    define J where "J = tl (join [44] (map render_item kvs))"
    have j: "join [44] (map render_item kvs) = 34 # J" using members_head [OF False] by (simp add: J_def)
    have "parse_value L hook m (render v @ 44 # 34 # J @ 125 # r) = Some (v, 44 # 34 # J @ 125 # r)"
      by (rule readsD [OF rv len]) simp
    then show ?thesis
      unfolding n kv member_split j using False rest [folded J_def]
      by (simp add: scan_chars_escape ws json_ws_punct del: parse_value.simps)
  qed
qed simp

lemma reads_scalar:
  assumes "render v = c # w" and "c \<notin> {34, 91, 93, 123}" and "\<not> json_ws c"
    and "\<And>r. delim r \<Longrightarrow> scan_scalar L (render v @ r) = Some (v, r)"
  shows "reads L hook v"
  unfolding reads_def
proof (intro conjI allI impI)
  fix n r assume n: "2 * length (render v) \<le> n" and d: "delim r"
  with assms(1) obtain m where "n = Suc m" by (cases n) auto
  with assms(1,2) assms(4) [OF d] show "parse_value L hook n (render v @ r) = Some (v, r)" by simp
qed (use assms in auto)

lemma scan_scalar_int:
  assumes "\<bar>i\<bar> < 10 ^ INT_MAX_STR_DIGITS" and "delim r"
  shows "scan_scalar L (int_str i @ r) = Some (JInt i, r)"
proof -
  obtain c q where q: "int_str i = c # q" and c: "c = 45 \<or> is_digit c"
    using int_str_start [of i] by (cases "int_str i") auto
  have "take (length ''-Infinity'') (int_str i @ r) \<noteq> str ''-Infinity''"
  proof (cases "i < 0")
    case True
    have "is_digit (hd (nat_str (nat (- i))))" by (rule nat_str_hd)
    with True nat_str_nonempty [of "nat (- i)"] show ?thesis
      by (cases "nat_str (nat (- i))") (auto simp: int_str_def str_simps is_digit_def)
  next
    case False
    then have "is_digit c" using q nat_str_hd [of "nat i"] by (simp add: int_str_def)
    with q show ?thesis by (auto simp: str_simps is_digit_def)
  qed
  then have "scan_literal ''-Infinity'' (JFloat None) (int_str i @ r) = None" by (simp only: scan_literal_def if_False)
  with scan_number_int [OF assms] q c show ?thesis by (auto simp: scan_scalar_def is_digit_def)
qed

lemma parses_back_reads: "parses_back hook v \<Longrightarrow> reads L hook v"
proof (induction v)
  case JNull
  show ?case by (rule reads_scalar [of _ 110 "str ''ull''"])
      (simp_all add: str_simps json_ws_def scan_scalar_def scan_literal_def)
next
  case (JBool b)
  show ?case by (rule reads_scalar [of _ "if b then 116 else 102" "if b then str ''rue'' else str ''alse''"])
      (simp_all add: str_simps json_ws_def scan_scalar_def scan_literal_def)
next
  case (JInt i)
  obtain c q where q: "int_str i = c # q" and c: "c = 45 \<or> is_digit c"
    using int_str_start [of i] by (cases "int_str i") auto
  show ?case
  proof (rule reads_scalar [of _ c q])
    show "scan_scalar L (render (JInt i) @ r) = Some (JInt i, r)" if "delim r" for r
      using JInt that by (simp add: scan_scalar_int)
  qed (use q c in \<open>auto simp: is_digit_def json_ws_def\<close>)
next
  case (JStr t)
  have "parse_value L hook n (render (JStr t) @ r) = Some (JStr t, r)" if "2 * length (render (JStr t)) \<le> n" for n r
    using that scan_chars_escape [of t r] by (cases n) (auto simp: escape_string_def)
  then show ?case by (simp add: reads_def escape_string_def json_ws_def)
next
  case (JList vs)
  then have ok: "list_all (reads L hook) vs" by (auto simp: list_all_iff)
  have "parse_value L hook n (render (JList vs) @ r) = Some (JList vs, r)" if n: "2 * length (render (JList vs)) \<le> n" for n r
  proof (cases "vs = []")
    case True
    with n show ?thesis by (cases n) (auto simp: json_ws_punct)
  next
    case False
    from n obtain m where m: "n = Suc m" "2 * length (join [44] (map render vs)) < m" by (cases n) auto
    obtain w ws where vs: "vs = w # ws" using False by (cases vs) auto
    with ok have w: "render w \<noteq> []" "\<not> json_ws (hd (render w))" "hd (render w) \<noteq> 93" by (auto simp: reads_def)
    then obtain d q where dq: "join [44] (map render vs) @ 93 # r = d # q" "\<not> json_ws d" "d \<noteq> 93"
      by (cases "render w") (auto simp: vs join_Cons)
    have "parse_elements L hook m (d # q) = Some (vs, r)"
      using elements_read [OF ok False m(2), of r] unfolding dq(1) .
    with dq m show ?thesis by (simp add: skip_ws_Cons del: parse_elements.simps)
  qed
  then show ?case by (simp add: reads_def json_ws_def)
next
  case (JObj kvs)
  then have ok: "list_all (\<lambda>(k, v). reads L hook v) kvs" and h: "hook kvs = Some (JObj kvs)"
    by (auto simp: list_all_iff)
  have "parse_value L hook n (render (JObj kvs) @ r) = Some (JObj kvs, r)" if n: "2 * length (render (JObj kvs)) \<le> n" for n r
  proof (cases "kvs = []")
    case True
    with n h show ?thesis by (cases n) (auto simp: json_ws_punct)
  next
    case False
    from n obtain m where m: "n = Suc m" "2 * length (join [44] (map render_item kvs)) < m" by (cases n) auto
    define J where "J = tl (join [44] (map render_item kvs))"
    have j: "render (JObj kvs) = 123 # 34 # J @ [125]" using members_head [OF False] by (simp add: J_def)
    have "parse_members L hook m (J @ 125 # r) = Some (kvs, r)"
      using members_read [OF ok False m(2), of r] by (simp add: J_def)
    then show ?thesis unfolding j m(1) by (simp add: h json_ws_punct del: parse_members.simps)
  qed
  then show ?case by (simp add: reads_def json_ws_def)
qed simp_all

lemma json_loads_render:
  assumes "parses_back hook v"
  shows "json_loads L hook (render v) = Some v"
proof -
  have r: "reads L hook v" by (rule parses_back_reads [OF assms])
  have "hd (render v) \<noteq> 65279" using assms
    using int_str_start [of "case v of JInt i \<Rightarrow> i | _ \<Rightarrow> 0"]
    by (cases v) (auto simp: str_simps escape_string_def is_digit_def)
  moreover have "skip_ws (render v) = render v"
    using skip_ws_other [of "render v" "[]"] r by (simp add: reads_def)
  moreover have "parse_value L hook (2 * length (render v)) (render v) = Some (v, [])"
    using readsD [OF r, of "2 * length (render v)" "[]"] by simp
  ultimately show ?thesis by (simp add: json_loads_def skip_ws_def)
qed

section \<open>Canonical texts\<close>

text \<open>What canonicalization accepts is what \<open>json_ok\<close> describes.\<close>

lemma escape_char_encodable: "list_all encodable (escape_char c) \<Longrightarrow> encodable c"
  by (cases "c < 128") (auto simp: encodable_ascii escape_char_def SHORT_ESCAPES_def split: option.splits if_splits)

lemma escape_string_encodable: "list_all encodable (escape_string t) \<Longrightarrow> list_all encodable t"
  by (induction t) (auto simp: escape_string_def dest: escape_char_encodable)

lemma join_member: "x \<in> set xs \<Longrightarrow> set x \<subseteq> set (join sep xs)"
  by (induction sep xs rule: join.induct) auto

lemma list_all2_memD: "list_all2 P xs ys \<Longrightarrow> x \<in> set xs \<Longrightarrow> \<exists>y \<in> set ys. P x y"
  by (induction rule: list_all2_induct) auto

lemma serialize_json_ok: "serialize v = Inr s \<Longrightarrow> list_all encodable s \<Longrightarrow> json_ok v"
proof (induction v arbitrary: s rule: serialize.induct)
  case (4 t)
  then show ?case by (auto dest: escape_string_encodable)
next
  case (7 vs)
  then obtain parts where p: "list_all2 (\<lambda>v s. serialize v = Inr s) vs parts" and s: "s = [91] @ join [44] parts @ [93]"
    by (auto simp: guard_simps traverseE_Inr_iff)
  have "list_all encodable x" if "x \<in> set parts" for x
    using join_member [OF that, of "[44]"] "7.prems"(2) s by (auto simp: list_all_iff)
  with p "7.IH" have "list_all2 (\<lambda>v s. json_ok v) vs parts"
    by (auto simp: list_all2_conv_all_nth)
  then show ?case by (auto simp: list_all2_conv_all_nth list_all_length)
next
  case (8 kvs)
  then have enc: "list_all (\<lambda>kv. utf16be (fst kv) \<noteq> None) kvs"
    by (auto simp: guard_simps sort_items_map split: if_splits)
  with "8.prems"(1) obtain parts where
    p: "list_all2 (\<lambda>kr x. bindE (snd kr) (\<lambda>s. Inr (escape_string (fst kr) @ [58] @ s)) = Inr x)
          (map (\<lambda>kv. (fst kv, serialize (snd kv))) (sort_key item_key kvs)) parts"
    and s: "s = [123] @ join [44] parts @ [125]"
    by (auto simp: guard_simps sort_items_map traverseE_Inr_iff)
  show ?case
    unfolding json_ok.simps list_all_iff
  proof (intro ballI, clarify)
    fix k v assume kv: "(k, v) \<in> set kvs"
    then have "(k, serialize v) \<in> set (map (\<lambda>kv. (fst kv, serialize (snd kv))) (sort_key item_key kvs))" by force
    from list_all2_memD [OF p this] obtain x t where x: "x \<in> set parts" "serialize v = Inr t" "x = escape_string k @ [58] @ t"
      by (auto simp: guard_simps)
    with join_member [OF x(1), of "[44]"] "8.prems"(2) s have "list_all encodable t" by (auto simp: list_all_iff)
    with "8.IH" [OF kv] x have "json_ok v" by simp
    moreover have "list_all encodable k" using enc kv by (auto simp: list_all_iff utf16be_def split: if_splits)
    ultimately show "(\<forall>x \<in> set k. encodable x) \<and> json_ok v" by (simp add: list_all_iff)
  qed
qed (auto split: if_splits)

lemma canonicalize_json_ok: "canonicalize v = Inr b \<Longrightarrow> json_ok v"
  by (auto simp: canonicalize_Inr_iff utf8_def split: if_splits dest: serialize_json_ok)

lemma json_ok_jnorm [simp]: "json_ok (jnorm v) \<longleftrightarrow> json_ok v"
  by (induction v rule: jnorm.induct) (auto simp: list_all_iff)

lemma jnorm_idem [simp]: "jnorm (jnorm v) = jnorm v"
proof (induction v rule: jnorm.induct)
  case (2 kvs)
  have "map (\<lambda>kv. (fst kv, jnorm (snd kv))) (sort_key item_key (map (\<lambda>kv. (fst kv, jnorm (snd kv))) kvs)) =
      sort_key item_key (map (\<lambda>kv. (fst kv, jnorm (snd kv))) kvs)"
    using 2 by (intro map_idI) auto
  then show ?case by (simp add: sort_key_id_if_sorted)
qed simp_all

lemma canonicalize_jnorm: "canonicalize v = Inr b \<Longrightarrow> canonicalize (jnorm v) = Inr b"
  using canonicalize_eqI [of "jnorm v" v] canonicalize_json_ok [of v b] by simp

text \<open>The invariant of nested Python dicts: no dict has a key twice.\<close>

fun json_wf :: "json \<Rightarrow> bool" where
  "json_wf (JList vs) \<longleftrightarrow> list_all json_wf vs"
| "json_wf (JObj d) \<longleftrightarrow> dict_wf d \<and> list_all (\<lambda>(k, v). json_wf v) d"
| "json_wf _ \<longleftrightarrow> True"

lemma dict_wf_sort_map: "dict_wf (sort_key g (map (\<lambda>kv. (fst kv, f (snd kv))) d)) \<longleftrightarrow> dict_wf d"
proof -
  have "mset (map fst (sort_key g (map (\<lambda>kv. (fst kv, f (snd kv))) d))) = mset (map fst d)"
    by (simp add: image_mset.compositionality comp_def)
  then show ?thesis by (rule mset_eq_imp_distinct_iff)
qed

lemma json_wf_jnorm [simp]: "json_wf (jnorm v) \<longleftrightarrow> json_wf v"
proof (induction v rule: jnorm.induct)
  case (2 kvs)
  then show ?case unfolding jnorm.simps json_wf.simps dict_wf_sort_map by (auto simp: list_all_iff)
qed (simp_all add: list_all_iff)

lemma safe_int_small: "- MAX_SAFE_INTEGER \<le> i \<Longrightarrow> i \<le> MAX_SAFE_INTEGER \<Longrightarrow> \<bar>i\<bar> < 10 ^ INT_MAX_STR_DIGITS"
proof -
  assume "- MAX_SAFE_INTEGER \<le> i" "i \<le> MAX_SAFE_INTEGER"
  then have "\<bar>i\<bar> < 10 ^ 16" by (simp add: MAX_SAFE_INTEGER_def)
  also have "(10 :: int) ^ 16 \<le> 10 ^ INT_MAX_STR_DIGITS" by (rule power_increasing) (simp_all add: INT_MAX_STR_DIGITS_def)
  finally show ?thesis .
qed

lemma json_ok_parses_back:
  assumes "\<And>kvs. dict_wf kvs \<Longrightarrow> hook kvs = Some (JObj kvs)"
  shows "json_ok v \<Longrightarrow> json_wf v \<Longrightarrow> parses_back hook v"
  by (induction v) (fastforce simp: list_all_iff safe_int_small assms)+

text \<open>Parsing a canonical text gives the normal form of what was canonicalized.\<close>

lemma json_loads_canonical:
  assumes "\<And>kvs. dict_wf kvs \<Longrightarrow> hook kvs = Some (JObj kvs)"
    and "json_wf v" and "canonicalize v = Inr b"
  shows "\<exists>s. utf8_decode b = Some s \<and> json_loads L hook s = Some (jnorm v)"
proof -
  from assms(3) obtain s where s: "serialize v = Inr s" "utf8 s = Some b" by (auto simp: canonicalize_Inr_iff)
  from serialize_render [OF s(1)] have r: "s = render (jnorm v)" by simp
  have "parses_back hook (jnorm v)"
    by (rule json_ok_parses_back [OF assms(1)]) (use assms canonicalize_json_ok in auto)
  from json_loads_render [OF this, of L] r utf8_decode_encode [OF s(2)] show ?thesis by auto
qed

lemma dict_get_sort:
  assumes "dict_wf d"
  shows "dict_get (map (\<lambda>kv. (fst kv, f (snd kv))) (sort_key g d)) k = map_option f (dict_get d k)"
proof -
  have "map_of (sort_key g d) = map_of d"
    using assms by (subst map_of_inject_set) (simp_all add: dict_wf_sort_map [of g "\<lambda>x. x", simplified])
  moreover have "map_of (map (\<lambda>kv. (fst kv, f (snd kv))) xs) k = map_option f (map_of xs k)" for xs :: jdict
    by (induction xs) auto
  ultimately show ?thesis by (simp add: dict_get_def)
qed

lemma dict_get_jnorm:
  assumes "dict_wf d"
  obtains e where "jnorm (JObj d) = JObj e" and "\<And>k. dict_get e k = map_option jnorm (dict_get d k)"
  using dict_get_sort [OF assms, of jnorm item_key] that unfolding jnorm_JObj by blast

text \<open>On pairs with distinct keys the default hook is the identity, and the printer emits no carriage return.\<close>

lemma dict_update_fresh: "dict_wf (d @ e) \<Longrightarrow> dict_update d e = d @ e"
proof (induction d e rule: dict_update.induct)
  case (2 d k v kvs)
  have "AList.update k v d = d @ [(k, v)]" if "k \<notin> fst ` set d" using that by (induction d) auto
  with 2 show ?case by (simp add: dict_set_def)
qed simp

lemma default_hook_ok: "dict_wf kvs \<Longrightarrow> default_hook kvs = Some (JObj kvs)"
  using dict_update_fresh [of "[]" kvs] by (simp add: default_hook_def)

lemma escape_no_cr: "13 \<notin> set (escape_string s)"
proof -
  have "13 \<notin> set (escape_char c)" for c
    by (auto simp: escape_char_def hex4_def hex_digit_def SHORT_ESCAPES_def split: option.splits if_splits)
  then show ?thesis by (auto simp: escape_string_def)
qed

lemma int_str_no_cr: "13 \<notin> set (int_str i)"
  using nat_str_digits [of "nat i"] nat_str_digits [of "nat (- i)"] by (auto simp: int_str_def is_digit_def)

lemma join_set: "set (join sep xs) \<subseteq> set sep \<union> \<Union> (set ` set xs)"
  by (induction sep xs rule: join.induct) auto

lemma render_no_cr: "13 \<notin> set (render v)"
proof (induction v)
  case (JList vs)
  then show ?case using join_set [of "[44]" "map render vs"] by fastforce
next
  case (JObj kvs)
  have "13 \<notin> set (escape_string k @ [58] @ render w)" if "(k, w) \<in> set kvs" for k w
    using JObj [OF that, of w] escape_no_cr [of k] by auto
  then show ?case using join_set [of "[44]" "map (\<lambda>(k, v). escape_string k @ [58] @ render v) kvs"] by fastforce
qed (auto simp: escape_no_cr int_str_no_cr str_def)

lemma json_wf_set: "json_wf (JObj d) \<Longrightarrow> json_wf v \<Longrightarrow> json_wf (JObj (dict_set k v d))"
proof -
  have "set (dict_set k v d) \<subseteq> insert (k, v) (set d)" by (induction d) (auto simp: dict_set_def)
  then show "json_wf (JObj d) \<Longrightarrow> json_wf v \<Longrightarrow> ?thesis" using dict_wf_set [of d k v] by (auto simp: list_all_iff)
qed

lemma json_ok_set: "json_ok (JObj d) \<Longrightarrow> json_ok v \<Longrightarrow> list_all encodable k \<Longrightarrow> json_ok (JObj (dict_set k v d))"
proof -
  have "set (dict_set k v d) \<subseteq> insert (k, v) (set d)" by (induction d) (auto simp: dict_set_def)
  then show "json_ok (JObj d) \<Longrightarrow> json_ok v \<Longrightarrow> list_all encodable k \<Longrightarrow> ?thesis" by (auto simp: list_all_iff)
qed

end
