(* ===== verification/Offline.thy ===== *)
theory Offline
  imports Chain Json_Text
begin

text \<open>
  The offline chain verifier, \<open>ca2a_verify/verify.py\<close>: the summary of a verified chain, the parser of
  a chain document and the loaders of a chain and of a revocation snapshot. What a file holds is an
  argument. \<open>json.loads\<close> on a text it refuses raises \<open>JSONDecodeError\<close> or, for an over-long integer,
  a plain \<open>ValueError\<close>; which of the two is an argument as well, because only the first is caught.
  The offline verifier is proved to refine the runtime's: on the file of a chain it gives the
  runtime's verdict.
\<close>

record chain_result =
  cr_hops :: nat
  cr_root_issuer :: ustr
  cr_leaf_subject :: ustr
  cr_leaf_scope :: "ustr list"
  cr_revocation_checked :: bool
  cr_revocation_as_of :: "int option"

definition cr_revocation :: "chain_result \<Rightarrow> ustr" where
  "cr_revocation r = (if cr_revocation_checked r then str ''not_revoked'' else str ''not_checked'')"

definition chain_summary :: "delegation_credential list \<Rightarrow> revocation_status \<Rightarrow> chain_result" where
  "chain_summary chain status =
     \<lparr>cr_hops = length chain, cr_root_issuer = cred_issuer (hd chain), cr_leaf_subject = cred_subject (last chain),
      cr_leaf_scope = sorted_list_of_fset (cred_scope (last chain)), cr_revocation_checked = rs_checked status,
      cr_revocation_as_of = rs_as_of status\<rparr>"

definition verify_delegation_chain :: "lib \<Rightarrow> chain_args \<Rightarrow> delegation_credential list \<Rightarrow> chain_result res" where
  "verify_delegation_chain L a chain =
     bindE (verify_chain L a chain) (\<lambda>status. Inr (chain_summary chain status))"

definition parse_chain :: "json \<Rightarrow> delegation_credential list res" where
  "parse_chain data =
     (let data = (case data of JObj d \<Rightarrow> (case dict_get d (str ''chain'') of Some v \<Rightarrow> v | None \<Rightarrow> data) | _ \<Rightarrow> data) in
      bindE (expect (as_list data) (Ca2a InvalidCredential (str ''chain document must be a list or {\"chain\": [...]}'') None)) (\<lambda>items.
      traverseE cred_from_dict items))"

section \<open>Files\<close>

text \<open>What \<open>Path.is_file\<close> and \<open>Path.read_text\<close> find.\<close>

datatype file_read = Absent | Unreadable | Contents bytes

text \<open>Text mode reads every line ending as a newline.\<close>

fun universal_newlines :: "ustr \<Rightarrow> ustr" where
  "universal_newlines [] = []"
| "universal_newlines (c # cs) =
     (if c = 13 then 10 # universal_newlines (if cs \<noteq> [] \<and> hd cs = 10 then tl cs else cs) else c # universal_newlines cs)"

definition read_json :: "lib \<Rightarrow> (ustr \<Rightarrow> bool) \<Rightarrow> err_class \<Rightarrow> string \<Rightarrow> ustr \<Rightarrow> file_read \<Rightarrow> json res" where
  "read_json L is_decode_error cls kind path file =
     (case file of
        Absent \<Rightarrow> Inl (Ca2a cls (str kind @ str '' file not found: '' @ path) None)
      | Unreadable \<Rightarrow> Inl (PyExn OSError)
      | Contents raw \<Rightarrow>
          bindE (expect (utf8_decode raw) (PyExn ValueError)) (\<lambda>bytes_text.
          let text = universal_newlines bytes_text in
          expect (json_loads L default_hook text)
            (if is_decode_error text then Ca2a cls (str ''invalid JSON in '' @ path) None else PyExn ValueError)))"

definition verify_chain_file :: "lib \<Rightarrow> (ustr \<Rightarrow> bool) \<Rightarrow> chain_args \<Rightarrow> ustr \<Rightarrow> file_read \<Rightarrow> chain_result res" where
  "verify_chain_file L is_decode_error a path file =
     bindE (read_json L is_decode_error InvalidCredential ''chain'' path file) (\<lambda>data.
     bindE (parse_chain data) (\<lambda>chain. verify_delegation_chain L a chain))"

definition load_revocation_snapshot :: "lib \<Rightarrow> (ustr \<Rightarrow> bool) \<Rightarrow> ustr \<Rightarrow> file_read \<Rightarrow> revocation_snapshot res" where
  "load_revocation_snapshot L is_decode_error path file =
     bindE (read_json L is_decode_error InvalidRevocation ''revocation'' path file) (\<lambda>data. snap_from_dict L data)"

section \<open>Lemmas\<close>

lemma verify_delegation_chain_iff:
  "verify_delegation_chain L a chain = Inr r \<longleftrightarrow> (\<exists>status. verify_chain L a chain = Inr status \<and> r = chain_summary chain status)"
  by (auto simp: verify_delegation_chain_def guard_simps)

lemma universal_newlines_id: "13 \<notin> set s \<Longrightarrow> universal_newlines s = s"
  by (induction s) auto

text \<open>A canonical file reads back as the normal form of its document.\<close>

lemma read_json_canonical:
  assumes "json_wf v" and "canonicalize v = Inr raw"
  shows "read_json L d c kind path (Contents raw) = Inr (jnorm v)"
proof -
  obtain s where s: "utf8_decode raw = Some s" "json_loads L default_hook s = Some (jnorm v)"
    using json_loads_canonical [OF default_hook_ok assms] by blast
  from assms(2) obtain t where t: "serialize v = Inr t" "utf8 t = Some raw" by (auto simp: canonicalize_Inr_iff)
  with serialize_render [OF t(1)] s(1) utf8_decode_encode [OF t(2)] have "s = render (jnorm v)" by simp
  then have "universal_newlines s = s" by (simp add: universal_newlines_id render_no_cr)
  with s show ?thesis by (simp add: read_json_def)
qed

lemma cred_to_dict_wf: "json_wf (JObj (cred_to_dict c))"
proof -
  have "json_wf (JObj (cred_body c))" by (auto simp: cred_body_def opt_item_def str_list_def opt_str_def list_all_iff split: option.split)
  then show ?thesis unfolding cred_to_dict_def by (rule json_wf_set) simp
qed

text \<open>The credential parser does not see the order of the fields.\<close>

lemma cred_from_dict_jnorm:
  assumes "cred_wire_ok c"
  shows "cred_from_dict (jnorm (JObj (cred_to_dict c))) = Inr c"
proof -
  have wf: "dict_wf (cred_to_dict c)" using cred_to_dict_wf [of c] by simp
  obtain e where e: "jnorm (JObj (cred_to_dict c)) = JObj e" "\<And>k. dict_get e k = map_option jnorm (dict_get (cred_to_dict c) k)"
    using dict_get_jnorm [OF wf] by blast
  from e(2) have "dict_keys e = dict_keys (cred_to_dict c)" by (auto simp: dict_keys_iff)
  then have f: "cred_fields_ok e" using cred_to_dict_fields [of c] by (simp add: cred_fields_ok_def)
  have "map_option jnorm (map_option JInt b) = map_option JInt b" for b by (cases b) simp_all
  with assms e(2) f show ?thesis unfolding e(1) cred_from_dict_iff
    by (intro exI [of _ e] exI [of _ "sorted_list_of_fset (cred_scope c)"]) (simp add: cred_to_dict_get cred_body_get str_list_def)
qed

definition chain_document :: "delegation_credential list \<Rightarrow> json" where
  "chain_document chain = JList (map (\<lambda>c. JObj (cred_to_dict c)) chain)"

lemma parse_chain_jnorm:
  assumes "list_all cred_wire_ok chain"
  shows "parse_chain (jnorm (chain_document chain)) = Inr chain"
proof -
  have "traverseE cred_from_dict (map (\<lambda>c. jnorm (JObj (cred_to_dict c))) chain) = Inr chain"
    using assms by (induction chain) (simp_all add: cred_from_dict_jnorm del: jnorm.simps)
  then show ?thesis by (simp add: parse_chain_def chain_document_def comp_def)
qed

lemma chain_document_wf: "json_wf (chain_document chain)"
  unfolding chain_document_def json_wf.simps(1) list_all_iff using cred_to_dict_wf by auto

lemma sample_document_ok: "\<exists>raw. canonicalize (chain_document [sample_root, sample_leaf]) = Inr raw"
proof -
  have "json_ok (JObj (cred_to_dict c))" if "cred_encodable c" "cred_wire_ok c" for c
    unfolding cred_to_dict_def using that
    by (intro json_ok_set cred_body_ok) (auto simp: cred_wire_ok_def intro: encodable_lower_hex)
  moreover have "cred_encodable sample_root" "cred_encodable sample_leaf"
    by (simp_all add: cred_encodable_def sample_key_def MAX_SAFE_INTEGER_def)
  ultimately have "json_ok (chain_document [sample_root, sample_leaf])"
    by (simp add: chain_document_def sample_wire_ok del: json_ok.simps(4))
  then show ?thesis using canonicalize_ok by blast
qed

lemma parse_chain_wire_ok: "parse_chain data = Inr chain \<Longrightarrow> list_all cred_wire_ok chain"
  by (auto simp: parse_chain_def guard_simps cred_from_dict_iff elim!: traverseE_ok)

section \<open>Properties\<close>

text \<open>
  C16: The offline verifier refines the runtime's. For every chain of well-formed credentials,
  written to a file as the canonical list of their wire forms, the file verifies offline exactly
  when the chain verifies at run time under the same arguments, with the same refusal when it
  does not, and the result summarises that chain.
\<close>

theorem offline_refines_runtime:
  assumes "list_all cred_wire_ok chain" and "canonicalize (chain_document chain) = Inr raw"
  shows "verify_chain_file L d a path (Contents raw) =
    (case verify_chain L a chain of Inl e \<Rightarrow> Inl e | Inr status \<Rightarrow> Inr (chain_summary chain status))"
  using read_json_canonical [OF chain_document_wf assms(2)]
  by (simp add: verify_chain_file_def parse_chain_jnorm [OF assms(1)] verify_delegation_chain_def bindE_def)

theorem offline_refines_runtime_witness:
  "\<exists>raw. canonicalize (chain_document [sample_root, sample_leaf]) = Inr raw \<and>
     verify_chain_file sample_lib (\<lambda>_. True) sample_args [] (Contents raw) =
       Inr (chain_summary [sample_root, sample_leaf] REVOCATION_NOT_CHECKED)"
proof -
  obtain raw where "canonicalize (chain_document [sample_root, sample_leaf]) = Inr raw" using sample_document_ok by blast
  with offline_refines_runtime [OF _ this, of sample_lib "\<lambda>_. True" sample_args "[]"] show ?thesis
    by (simp add: sample_wire_ok sample_chain_verifies)
qed

text \<open>
  An accepted file is evidence about exactly one chain: the file was there, is UTF-8 JSON,
  holds a list of credentials that pass the strict parser, and that chain is valid and unrevoked
  as the runtime would judge it; the summary's scope is the leaf's and no wider than any hop's.
\<close>

theorem audited_file_sound:
  assumes "verify_chain_file L d a path file = Inr r"
  shows "\<exists>raw t data chain status. file = Contents raw \<and> utf8_decode raw = Some t \<and>
    json_loads L default_hook (universal_newlines t) = Some data \<and> parse_chain data = Inr chain \<and> list_all cred_wire_ok chain \<and>
    chain_valid L (ca_max_depth a) (ca_trusted a) (eval_time a) chain \<and> revocation_ok a chain status \<and> r = chain_summary chain status \<and>
    (\<forall>c \<in> set chain. set (cr_leaf_scope r) \<subseteq> fset (cred_scope c))"
proof -
  from assms obtain raw t data chain status where f: "file = Contents raw" "utf8_decode raw = Some t"
    "json_loads L default_hook (universal_newlines t) = Some data" "parse_chain data = Inr chain"
    and v: "verify_chain L a chain = Inr status" and r: "r = chain_summary chain status"
    by (auto simp: verify_chain_file_def read_json_def guard_simps Let_def verify_delegation_chain_iff split: file_read.splits)
  from v have cv: "chain_valid L (ca_max_depth a) (ca_trusted a) (eval_time a) chain" "revocation_ok a chain status"
    by (auto simp: verify_chain_Inr_iff)
  have "set (cr_leaf_scope r) \<subseteq> fset (cred_scope c)" if "c \<in> set chain" for c
  proof -
    from that obtain i where i: "i < length chain" "c = chain ! i" by (auto simp: in_set_conv_nth)
    then have "cred_scope (chain ! (length chain - 1)) |\<subseteq>| cred_scope (chain ! i)"
      by (intro chain_valid_scope [OF cv(1)]) auto
    moreover have "last chain = chain ! (length chain - 1)" using i by (intro last_conv_nth) auto
    ultimately show ?thesis using i by (auto simp: r chain_summary_def less_eq_fset.rep_eq sorted_list_of_fset.rep_eq)
  qed
  with f cv r parse_chain_wire_ok [OF f(4)] show ?thesis by blast
qed

theorem audited_file_sound_witness:
  "\<exists>raw r. verify_chain_file sample_lib (\<lambda>_. True) sample_args [] (Contents raw) = Inr r \<and> set (cr_leaf_scope r) \<subseteq> {str ''read''}"
proof -
  obtain raw where raw: "canonicalize (chain_document [sample_root, sample_leaf]) = Inr raw" using sample_document_ok by blast
  have v: "verify_chain_file sample_lib (\<lambda>_. True) sample_args [] (Contents raw) = Inr (chain_summary [sample_root, sample_leaf] REVOCATION_NOT_CHECKED)"
    using read_json_canonical [OF chain_document_wf raw]
    by (simp add: verify_chain_file_def parse_chain_jnorm sample_wire_ok verify_delegation_chain_def sample_chain_verifies)
  from audited_file_sound [OF v] have "set (cr_leaf_scope (chain_summary [sample_root, sample_leaf] REVOCATION_NOT_CHECKED)) \<subseteq> {str ''read''}"
    by (auto simp: chain_summary_def sorted_list_of_fset.rep_eq)
  with v show ?thesis by blast
qed

end
