(* ===== verification/Evidence.thy ===== *)
theory Evidence
  imports Tee
begin

text \<open>
  Reading binary evidence, and the kernel interface that SEV-SNP and TDX share,
  \<open>ca2a_runtime/tee/tsm.py\<close>. Slices and integers of a byte string are those of Python: a slice past
  the end is short, an integer is read from all the bytes given. What the kernel answers for one
  report entry is an argument; a collection gives its result together with the accesses it made,
  in order, so that the order the code promises can be stated.
\<close>

section \<open>Slices and integers\<close>

definition slice :: "bytes \<Rightarrow> nat \<Rightarrow> nat \<Rightarrow> bytes" where
  "slice b i n = take n (drop i b)"

definition from_be :: "bytes \<Rightarrow> nat" where
  "from_be b = foldl (\<lambda>acc x. 256 * acc + unat x) 0 b"

definition from_le :: "bytes \<Rightarrow> nat" where
  "from_le b = from_be (rev b)"

definition to_be :: "nat \<Rightarrow> nat \<Rightarrow> bytes" where
  "to_be w n = map (\<lambda>i. of_nat (n div 256 ^ (w - Suc i))) [0..<w]"

definition to_le :: "nat \<Rightarrow> nat \<Rightarrow> bytes" where
  "to_le w n = rev (to_be w n)"

lemma length_slice: "i + n \<le> length b \<Longrightarrow> length (slice b i n) = n"
  by (simp add: slice_def)

lemma slice_append [simp]:
  "slice (a @ b) i n = (if i + n \<le> length a then slice a i n else take n (drop i a) @ take (n - (length a - i)) (drop (i - length a) b))"
  by (auto simp: slice_def)

lemma slice_all: "i = 0 \<Longrightarrow> n = length b \<Longrightarrow> slice b i n = b"
  by (simp add: slice_def)

lemma length_to_be [simp]: "length (to_be w n) = w" "length (to_le w n) = w"
  by (simp_all add: to_be_def to_le_def)

lemma from_be_snoc [simp]: "from_be (b @ [x]) = 256 * from_be b + unat x"
  by (simp add: from_be_def)

lemma from_be_less: "from_be b < 256 ^ length b"
proof (induction b rule: rev_induct)
  case (snoc x b)
  have "256 * from_be b + unat x < 256 * (from_be b + 1)" by simp
  also have "\<dots> \<le> 256 * 256 ^ length b" using snoc by (intro mult_le_mono) simp_all
  finally show ?case by simp
qed (simp add: from_be_def)

lemma to_be_Suc: "to_be (Suc w) n = to_be w (n div 256) @ [of_nat n]"
proof -
  have "n div 256 ^ (w - i) = n div 256 div 256 ^ (w - Suc i)" if "i < w" for i
  proof -
    from that have "w - i = Suc (w - Suc i)" by simp
    then show ?thesis by (simp add: div_mult2_eq)
  qed
  then show ?thesis by (simp add: to_be_def)
qed

lemma from_to_be: "n < 256 ^ w \<Longrightarrow> from_be (to_be w n) = n"
proof (induction w arbitrary: n)
  case (Suc w)
  then have "n div 256 < 256 ^ w" by (simp add: less_mult_imp_div_less mult.commute)
  with Suc.IH show ?case by (simp add: to_be_Suc unat_of_nat)
qed (simp add: to_be_def from_be_def)

lemma from_to_le: "n < 256 ^ w \<Longrightarrow> from_le (to_le w n) = n"
  by (simp add: from_le_def to_le_def from_to_be)

text \<open>Which exceptions the parsers of unauthenticated evidence may raise.\<close>

abbreviation fails_closed :: "'a res \<Rightarrow> bool" where
  "fails_closed m \<equiv> raises_only (refusal_of {AttestationFailed}) m"

section \<open>configfs-TSM\<close>

definition TSM_REPORT_DATA_LEN :: nat where
  "TSM_REPORT_DATA_LEN = 64"

definition PROVIDER_SEV_GUEST :: ustr where
  "PROVIDER_SEV_GUEST = str ''sev_guest''"

definition PROVIDER_TDX_GUEST :: ustr where
  "PROVIDER_TDX_GUEST = str ''tdx_guest''"

text \<open>The host: the platform is Linux, the report directory exists; and what one entry answers.\<close>

record tsm_host =
  th_linux :: bool
  th_report_dir :: bool
  th_mkdir :: bool
  th_write :: bool
  th_provider :: "ustr res"
  th_outblob :: "bytes res"
  th_auxblob :: "bytes res"

definition tsm_available :: "tsm_host \<Rightarrow> bool" where
  "tsm_available h \<longleftrightarrow> th_linux h \<and> th_report_dir h"

definition require_tsm :: "tsm_host \<Rightarrow> ustr \<Rightarrow> unit res" where
  "require_tsm h platform =
     bindE (require (th_linux h) (Ca2a AttestationUnsupported (platform @ str '' report generation is only implemented on Linux'') None)) (\<lambda>_.
     require (th_report_dir h) (Ca2a AttestationUnsupported (platform @ str '' report generation requires the configfs-TSM interface'') None))"

text \<open>\<open>str.strip()\<close>.\<close>

definition py_space :: "lib \<Rightarrow> nat \<Rightarrow> bool" where
  "py_space L c \<longleftrightarrow> is_space c \<or> (28 \<le> c \<and> c \<le> 31) \<or> (127 < c \<and> uni_space L c)"

definition py_strip :: "lib \<Rightarrow> ustr \<Rightarrow> ustr" where
  "py_strip L s = rev (dropWhile (py_space L) (rev (dropWhile (py_space L) s)))"

datatype tsm_access = Mkdir | Write_inblob bytes | Read_provider | Read_outblob | Read_auxblob | Rmdir

text \<open>An \<open>except OSError\<close> that becomes a failure of the collection.\<close>

definition catch_os :: "string \<Rightarrow> 'a res \<Rightarrow> 'a res" where
  "catch_os m r = catchE r (\<lambda>e. e = PyExn OSError) (\<lambda>_. Inl (attestation_failed m))"

definition read_outblob :: "tsm_host \<Rightarrow> bytes res" where
  "read_outblob h =
     bindE (catch_os ''the configfs-TSM provider did not return a report'' (th_outblob h)) (\<lambda>outblob.
     bindE (require (outblob \<noteq> []) (attestation_failed ''the configfs-TSM provider returned an empty report'')) (\<lambda>_.
     Inr outblob))"

definition read_auxblob :: "tsm_host \<Rightarrow> bytes option res" where
  "read_auxblob h =
     (case th_auxblob h of
        Inr b \<Rightarrow> Inr (if b = [] then None else Some b)
      | Inl e \<Rightarrow> if e = PyExn OSError then Inr None else Inl e)"

definition collect_entry :: "lib \<Rightarrow> tsm_host \<Rightarrow> bytes \<Rightarrow> ustr \<Rightarrow> tsm_access list \<times> (bytes \<times> bytes option) res" where
  "collect_entry L h report_data expect_provider =
     (if \<not> th_write h
      then ([Write_inblob report_data], Inl (attestation_failed ''the configfs-TSM entry did not name its provider''))
      else (case catch_os ''the configfs-TSM entry did not name its provider'' (th_provider h) of
        Inl e \<Rightarrow> ([Write_inblob report_data, Read_provider], Inl e)
      | Inr named \<Rightarrow>
          if py_strip L named \<noteq> expect_provider
          then ([Write_inblob report_data, Read_provider],
                Inl (attestation_failed ''the configfs-TSM provider is not the expected platform''))
          else (case read_outblob h of
            Inl e \<Rightarrow> ([Write_inblob report_data, Read_provider, Read_outblob], Inl e)
          | Inr outblob \<Rightarrow>
              ([Write_inblob report_data, Read_provider, Read_outblob, Read_auxblob],
               bindE (read_auxblob h) (\<lambda>auxblob. Inr (outblob, auxblob))))))"

definition collect_report :: "lib \<Rightarrow> tsm_host \<Rightarrow> bytes \<Rightarrow> ustr \<Rightarrow> tsm_access list \<times> (bytes \<times> bytes option) res" where
  "collect_report L h report_data expect_provider =
     (if length report_data > TSM_REPORT_DATA_LEN
      then ([], Inl (attestation_failed ''report data is larger than the field the platform reserves''))
      else if \<not> th_mkdir h
      then ([Mkdir], Inl (Ca2a AttestationUnsupported (str ''the kernel refused a configfs-TSM report entry'') None))
      else (case collect_entry L h report_data expect_provider of (accesses, r) \<Rightarrow> (Mkdir # accesses @ [Rmdir], r)))"

lemmas collect_defs = collect_report_def collect_entry_def read_outblob_def read_auxblob_def catch_os_def

lemma collect_report_Inr:
  "collect_report L h d p = (acts, Inr (out, aux)) \<Longrightarrow>
     length d \<le> TSM_REPORT_DATA_LEN \<and> out \<noteq> [] \<and> th_outblob h = Inr out \<and> (\<exists>named. th_provider h = Inr named \<and> py_strip L named = p) \<and>
     acts = [Mkdir, Write_inblob d, Read_provider, Read_outblob, Read_auxblob, Rmdir]"
  by (auto simp: collect_defs guard_simps split: if_splits sum.splits)

text \<open>
  The kernel is asked to sign only for the expected platform, and cleaned up after. Whatever
  the host answers, a collection that reads the report has first written exactly the caller's data
  to a fresh entry and read from it the expected provider name, and an entry that was created is
  removed by the last access, also when the collection fails.
\<close>

theorem collection_order:
  assumes "collect_report L h d p = (acts, r)"
  shows "(Read_outblob \<in> set acts \<longrightarrow> (\<exists>named rest. th_provider h = Inr named \<and> py_strip L named = p \<and>
       acts = [Mkdir, Write_inblob d, Read_provider, Read_outblob] @ rest)) \<and>
     (th_mkdir h \<and> Mkdir \<in> set acts \<longrightarrow> last acts = Rmdir) \<and>
     (is_ok r \<longrightarrow> Read_outblob \<in> set acts)"
  using assms by (auto simp: collect_defs guard_simps split: if_splits sum.splits)

definition sample_tsm :: tsm_host where
  "sample_tsm = \<lparr>th_linux = True, th_report_dir = True, th_mkdir = True, th_write = True,
     th_provider = Inr (str ''sev_guest'' @ [10]), th_outblob = Inr [1, 2], th_auxblob = Inl (PyExn OSError)\<rparr>"

theorem collection_order_witness:
  "\<exists>acts. collect_report sample_lib sample_tsm [7] PROVIDER_SEV_GUEST = (acts, Inr ([1, 2], None)) \<and>
     Read_outblob \<in> set acts \<and> last acts = Rmdir"
proof -
  let ?r = "collect_report sample_lib sample_tsm [7] PROVIDER_SEV_GUEST"
  have v: "snd ?r = Inr ([1, 2], None)"
    by (simp add: collect_defs sample_tsm_def TSM_REPORT_DATA_LEN_def py_strip_def py_space_def is_space_def PROVIDER_SEV_GUEST_def str_simps)
  obtain acts where e: "?r = (acts, Inr ([1, 2], None))" using v by (metis prod.collapse)
  from e have "Mkdir \<in> set acts" "th_mkdir sample_tsm" by (auto dest: collect_report_Inr simp: sample_tsm_def)
  with collection_order [OF e] e show ?thesis by auto
qed

end
