(* ===== verification/Config.thy ===== *)
theory Config
  imports Peer Offline Evidence
begin

text \<open>
  The configuration of a peer, \<open>ca2a_runtime/config.py\<close>: the listen address and \<open>Ca2aConfig.from_dict\<close>
  with every check in the order of the code, and \<open>load\<close> on the contents of a file. A YAML document
  is a value of the same type as a JSON one; keys that are not strings are never looked up and are
  left out. The YAML parser (the package \<open>yaml\<close>) is an argument, with \<open>None\<close> for a \<open>YAMLError\<close>.
\<close>

definition VALID_PROVIDERS :: "ustr set" where
  "VALID_PROVIDERS = {str ''auto'', str ''tpm'', str ''sev-snp'', str ''tdx'', str ''software-only''}"

definition VALID_ENFORCEMENT :: "ustr set" where
  "VALID_ENFORCEMENT = {str ''enforcing'', str ''advisory'', str ''silent''}"

definition VALID_VERIFIER_PLATFORMS :: "ustr set" where
  "VALID_VERIFIER_PLATFORMS = {str ''tpm'', str ''sev-snp'', str ''tdx''}"

definition DEFAULT_LISTEN_ADDR :: ustr where
  "DEFAULT_LISTEN_ADDR = str ''127.0.0.1:8443''"

abbreviation config_error :: "ustr \<Rightarrow> exn" where
  "config_error m \<equiv> Ca2a ConfigError m None"

section \<open>The listen address\<close>

text \<open>\<open>addr.rpartition(":")\<close> of a text that has a colon.\<close>

definition rpartition_colon :: "ustr \<Rightarrow> ustr \<times> ustr" where
  "rpartition_colon s = (rev (tl (dropWhile (\<lambda>c. c \<noteq> 58) (rev s))), rev (takeWhile (\<lambda>c. c \<noteq> 58) (rev s)))"

definition unbracket :: "ustr \<Rightarrow> ustr" where
  "unbracket host = (if host \<noteq> [] \<and> hd host = 91 \<and> last host = 93 then butlast (tl host) else host)"

definition split_listen_addr :: "lib \<Rightarrow> json \<Rightarrow> (ustr \<times> int) res" where
  "split_listen_addr L addr =
     (case as_str addr of
        None \<Rightarrow> Inl (config_error (str ''listen_addr must be host:port, got '' @ py_repr L addr))
      | Some s \<Rightarrow>
          if 58 \<notin> set s then Inl (config_error (str ''listen_addr must be host:port, got '' @ py_repr L addr))
          else
            let (host, port_text) = rpartition_colon s; host = unbracket host in
            bindE (require (host \<noteq> []) (config_error (str ''listen_addr must name a host explicitly, got '' @ py_repr L addr))) (\<lambda>_.
            bindE (expect (py_int L port_text)
              (config_error (str ''listen_addr port must be an integer, got '' @ py_repr L (JStr port_text)))) (\<lambda>port.
            bindE (require (1 \<le> port \<and> port \<le> 65535) (config_error (str ''listen_addr port out of range: '' @ int_str port))) (\<lambda>_.
            Inr (host, port)))))"

section \<open>The document\<close>

record ca2a_config =
  cc_provider :: ustr
  cc_enforcement_mode :: ustr
  cc_requirement :: ustr
  cc_verifier_platform :: "ustr option"
  cc_verifier_roots_path :: "ustr option"
  cc_ttl :: int
  cc_max_depth :: int
  cc_policy_bundle_path :: "ustr option"
  cc_local_policy :: "ustr fset option"
  cc_listen_addr :: ustr
  cc_trusted_roots :: "ustr fset"
  cc_manifest_path :: "ustr option"
  cc_manifest_anchor_path :: "ustr option"
  cc_manifest_subject :: "ustr option"

definition listen_host_port :: "lib \<Rightarrow> ca2a_config \<Rightarrow> (ustr \<times> int) res" where
  "listen_host_port L c = split_listen_addr L (JStr (cc_listen_addr c))"

text \<open>\<open>data.get(k, {}) or {}\<close>.\<close>

definition get_or_dict :: "jdict \<Rightarrow> string \<Rightarrow> json" where
  "get_or_dict d k = (let v = dict_get_or d k (JObj []) in if truthy v then v else JObj [])"

text \<open>\<open>v in S\<close> for a frozenset of strings: an unhashable value raises.\<close>

fun in_strings :: "json \<Rightarrow> ustr set \<Rightarrow> bool res" where
  "in_strings (JStr s) S = Inr (s \<in> S)"
| "in_strings (JList _) S = Inl (PyExn TypeError)"
| "in_strings (JObj _) S = Inl (PyExn TypeError)"
| "in_strings _ S = Inr False"

definition choice :: "lib \<Rightarrow> ustr set \<Rightarrow> string \<Rightarrow> json \<Rightarrow> ustr res" where
  "choice L S what v =
     bindE (in_strings v S) (\<lambda>ok.
     bindE (require ok (config_error (str what @ str '': '' @ py_repr L v))) (\<lambda>_.
     expect (as_str v) (config_error (str what @ str '': '' @ py_repr L v))))"

definition parse_verifier :: "lib \<Rightarrow> json \<Rightarrow> (ustr option \<times> ustr option) res" where
  "parse_verifier L v =
     (if v = JNull then Inr (None, None)
      else bindE (expect (as_obj v) (config_error (str ''attestation.caller_verifier must be a mapping''))) (\<lambda>d.
        bindE (choice L VALID_VERIFIER_PLATFORMS ''unknown attestation.caller_verifier.platform'' (dict_get_none d (str ''platform''))) (\<lambda>platform.
        bindE (expect (nonempty_str (dict_get_none d (str ''trusted_roots_path'')))
          (config_error (str ''attestation.caller_verifier.trusted_roots_path must be a non-empty path''))) (\<lambda>roots.
        Inr (Some platform, Some roots)))))"

text \<open>The part under \<open>attestation\<close>.\<close>

definition parse_attestation :: "lib \<Rightarrow> jdict \<Rightarrow> (ustr \<times> ustr \<times> ustr \<times> (ustr option \<times> ustr option) \<times> int) res" where
  "parse_attestation L a =
     bindE (choice L VALID_PROVIDERS ''unknown attestation provider'' (dict_get_or a ''provider'' (JStr (str ''auto'')))) (\<lambda>provider.
     bindE (choice L VALID_ENFORCEMENT ''unknown enforcement_mode'' (dict_get_or a ''enforcement_mode'' (JStr (str ''enforcing'')))) (\<lambda>enforcement.
     bindE (choice L (fset REQUIREMENT_VALUES) ''unknown attestation.require_caller_attestation''
       (dict_get_or a ''require_caller_attestation'' (JStr REQUIRE_NONE))) (\<lambda>requirement.
     bindE (parse_verifier L (dict_get_none a (str ''caller_verifier''))) (\<lambda>verifier.
     bindE (require (\<not> (requirement = REQUIRE_HARDWARE \<and> dict_get_none a (str ''caller_verifier'') = JNull))
       (config_error (str ''attestation.require_caller_attestation 'hardware' needs attestation.caller_verifier''))) (\<lambda>_.
     bindE (expect (as_int (dict_get_or a ''challenge_ttl_seconds'' (JInt DEFAULT_TTL_SECONDS)))
       (config_error (str ''attestation.challenge_ttl_seconds must be a positive integer''))) (\<lambda>ttl.
     bindE (require (\<not> ttl < 1) (config_error (str ''attestation.challenge_ttl_seconds must be a positive integer''))) (\<lambda>_.
     Inr (provider, enforcement, requirement, verifier, ttl))))))))"

text \<open>A list of non-empty strings.\<close>

definition str_items :: "json \<Rightarrow> ustr list option" where
  "str_items v = (case as_list v of None \<Rightarrow> None | Some vs \<Rightarrow> all_strs vs)"

definition parse_manifest_field :: "jdict \<Rightarrow> string \<Rightarrow> ustr option res" where
  "parse_manifest_field m name =
     (let v = dict_get_none m (str name) in
      if v = JNull then Inr None
      else bindE (expect (as_str v) (config_error (str ''agent_manifest.'' @ str name @ str '' must be a string''))) (\<lambda>s. Inr (Some s)))"

definition SPIFFE :: ustr where
  "SPIFFE = str ''spiffe://''"

definition is_spiffe :: "ustr \<Rightarrow> bool" where
  "is_spiffe s \<longleftrightarrow> take (length SPIFFE) s = SPIFFE"

definition parse_manifest_section :: "jdict \<Rightarrow> (ustr option \<times> ustr option \<times> ustr option) res" where
  "parse_manifest_section data =
     bindE (expect (as_obj (get_or_dict data ''agent_manifest'')) (config_error (str ''agent_manifest must be a mapping''))) (\<lambda>m.
     bindE (parse_manifest_field m ''path'') (\<lambda>path.
     bindE (parse_manifest_field m ''trust_anchor_path'') (\<lambda>anchor.
     bindE (parse_manifest_field m ''authenticated_subject'') (\<lambda>subject.
     let configured = [path \<noteq> None, anchor \<noteq> None, subject \<noteq> None] in
     bindE (require (\<not> (list_ex id configured \<and> \<not> list_all id configured))
       (config_error (str ''agent_manifest.path, trust_anchor_path, and authenticated_subject must be configured together''))) (\<lambda>_.
     bindE (require (\<not> (\<exists>s \<in> set_option subject. \<not> is_spiffe s))
       (config_error (str ''agent_manifest.authenticated_subject must be a SPIFFE URI''))) (\<lambda>_.
     Inr (path, anchor, subject)))))))"

definition parse_local_policy :: "json \<Rightarrow> ustr fset option res" where
  "parse_local_policy v =
     (if v = JNull then Inr None
      else bindE (expect (str_items v) (config_error (str ''local_policy must be a list of non-empty capability strings''))) (\<lambda>caps.
        Inr (Some (fset_of_list caps))))"

definition config_from_dict :: "lib \<Rightarrow> jdict \<Rightarrow> ca2a_config res" where
  "config_from_dict L data =
     bindE (expect (as_obj (get_or_dict data ''attestation'')) (PyExn AttributeError)) (\<lambda>a.
     bindE (parse_attestation L a) (\<lambda>(provider, enforcement, requirement, (platform, roots), ttl).
     bindE (expect (as_int_or_bool (dict_get_or data ''max_delegation_depth'' (JInt 8)))
       (config_error (str ''max_delegation_depth must be a positive integer''))) (\<lambda>depth.
     bindE (require (\<not> depth < 1) (config_error (str ''max_delegation_depth must be a positive integer''))) (\<lambda>_.
     bindE (parse_local_policy (dict_get_none data (str ''local_policy''))) (\<lambda>local_policy.
     let bundle = dict_get_none data (str ''policy_bundle_path'') in
     bindE (require (bundle = JNull \<or> as_str bundle \<noteq> None) (config_error (str ''policy_bundle_path must be a string path''))) (\<lambda>_.
     let listen_addr = dict_get_or data ''listen_addr'' (JStr DEFAULT_LISTEN_ADDR) in
     bindE (split_listen_addr L listen_addr) (\<lambda>_.
     bindE (expect (as_str listen_addr) (PyExn TypeError)) (\<lambda>listen.
     bindE (expect (str_items (dict_get_or data ''trusted_root_issuers'' (JList [])))
       (config_error (str ''trusted_root_issuers must be a list of non-empty public-key strings''))) (\<lambda>trusted.
     bindE (parse_manifest_section data) (\<lambda>(path, anchor, subject).
     Inr \<lparr>cc_provider = provider, cc_enforcement_mode = enforcement, cc_requirement = requirement, cc_verifier_platform = platform,
          cc_verifier_roots_path = roots, cc_ttl = ttl, cc_max_depth = depth, cc_policy_bundle_path = as_str bundle,
          cc_local_policy = local_policy, cc_listen_addr = listen, cc_trusted_roots = fset_of_list trusted,
          cc_manifest_path = path, cc_manifest_anchor_path = anchor, cc_manifest_subject = subject\<rparr>))))))))))"

text \<open>\<open>type(v).__name__\<close>.\<close>

fun type_name :: "json \<Rightarrow> ustr" where
  "type_name JNull = str ''NoneType''"
| "type_name (JBool _) = str ''bool''"
| "type_name (JInt _) = str ''int''"
| "type_name (JFloat _) = str ''float''"
| "type_name (JStr _) = str ''str''"
| "type_name (JList _) = str ''list''"
| "type_name (JObj _) = str ''dict''"
| "type_name (JOther t) = t"

definition config_load :: "lib \<Rightarrow> (ustr \<Rightarrow> json option) \<Rightarrow> ustr \<Rightarrow> file_read \<Rightarrow> ca2a_config res" where
  "config_load L yaml_load path file =
     (case file of
        Absent \<Rightarrow> Inl (config_error (str ''config file not found: '' @ path))
      | Unreadable \<Rightarrow> Inl (PyExn OSError)
      | Contents raw \<Rightarrow>
          bindE (expect (utf8_decode raw) (PyExn ValueError)) (\<lambda>decoded.
          bindE (expect (yaml_load (universal_newlines decoded)) (config_error (str ''invalid YAML in '' @ path))) (\<lambda>v.
          let data = (if truthy v then v else JObj []) in
          bindE (expect (as_obj data) (config_error (str ''config root must be a mapping, got '' @ type_name data))) (\<lambda>d.
          config_from_dict L d))))"

section \<open>What a configuration is\<close>

definition config_wf :: "lib \<Rightarrow> ca2a_config \<Rightarrow> bool" where
  "config_wf L c \<longleftrightarrow>
     cc_provider c \<in> VALID_PROVIDERS \<and> cc_enforcement_mode c \<in> VALID_ENFORCEMENT \<and> cc_requirement c |\<in>| REQUIREMENT_VALUES \<and>
     (cc_requirement c = REQUIRE_HARDWARE \<longrightarrow> cc_verifier_platform c \<noteq> None) \<and>
     (cc_verifier_platform c = None \<longleftrightarrow> cc_verifier_roots_path c = None) \<and>
     (\<forall>p \<in> set_option (cc_verifier_platform c). p \<in> VALID_VERIFIER_PLATFORMS) \<and> cc_verifier_roots_path c \<noteq> Some [] \<and>
     1 \<le> cc_ttl c \<and> 1 \<le> cc_max_depth c \<and> (\<forall>s \<in> set_option (cc_local_policy c). [] |\<notin>| s) \<and> [] |\<notin>| cc_trusted_roots c \<and>
     (\<exists>host port. listen_host_port L c = Inr (host, port) \<and> host \<noteq> [] \<and> 1 \<le> port \<and> port \<le> 65535) \<and>
     (cc_manifest_path c = None \<longleftrightarrow> cc_manifest_anchor_path c = None) \<and> (cc_manifest_path c = None \<longleftrightarrow> cc_manifest_subject c = None) \<and>
     (\<forall>s \<in> set_option (cc_manifest_subject c). is_spiffe s)"

lemma in_strings_True: "in_strings v S = Inr True \<longleftrightarrow> (\<exists>s. v = JStr s \<and> s \<in> S)"
  by (cases v) auto

lemma choice_Inr: "choice L S what v = Inr s \<longleftrightarrow> v = JStr s \<and> s \<in> S"
  by (cases v) (auto simp: choice_def guard_simps)

lemma parse_verifier_Inr:
  "parse_verifier L v = Inr (p, r) \<Longrightarrow> (if v = JNull then p = None \<and> r = None
     else (\<exists>x y. p = Some x \<and> r = Some y \<and> x \<in> VALID_VERIFIER_PLATFORMS \<and> y \<noteq> []))"
  by (auto simp: parse_verifier_def guard_simps choice_Inr split: if_splits)

lemma parse_attestation_Inr:
  assumes "parse_attestation L a = Inr (provider, enforcement, requirement, (platform, roots), ttl)"
  shows "provider \<in> VALID_PROVIDERS \<and> enforcement \<in> VALID_ENFORCEMENT \<and> requirement |\<in>| REQUIREMENT_VALUES \<and>
     (requirement = REQUIRE_HARDWARE \<longrightarrow> platform \<noteq> None) \<and> (platform = None \<longleftrightarrow> roots = None) \<and>
     (\<forall>p \<in> set_option platform. p \<in> VALID_VERIFIER_PLATFORMS) \<and> roots \<noteq> Some [] \<and> 1 \<le> ttl"
  using assms unfolding parse_attestation_def
  by (auto simp: guard_simps choice_Inr dest!: parse_verifier_Inr split: if_splits)

lemma split_listen_addr_Inr:
  "split_listen_addr L v = Inr (host, port) \<Longrightarrow> host \<noteq> [] \<and> 1 \<le> port \<and> port \<le> 65535 \<and> as_str v \<noteq> None"
  by (auto simp: split_listen_addr_def guard_simps Let_def split: option.splits if_splits prod.splits)

lemma parse_manifest_section_Inr:
  "parse_manifest_section data = Inr (path, anchor, subject) \<Longrightarrow>
     (path = None \<longleftrightarrow> anchor = None) \<and> (path = None \<longleftrightarrow> subject = None) \<and> (\<forall>s \<in> set_option subject. is_spiffe s)"
  by (auto simp: parse_manifest_section_def guard_simps Let_def)

lemma config_from_dict_wf:
  assumes "config_from_dict L data = Inr c"
  shows "config_wf L c"
proof -
  from assms obtain a provider enforcement requirement platform roots ttl depth local listen hp trusted path anchor subject where
    a: "parse_attestation L a = Inr (provider, enforcement, requirement, (platform, roots), ttl)"
    and depth: "1 \<le> depth" and local: "parse_local_policy (dict_get_none data (str ''local_policy'')) = Inr local"
    and listen: "dict_get_or data ''listen_addr'' (JStr DEFAULT_LISTEN_ADDR) = JStr listen" "split_listen_addr L (JStr listen) = Inr hp"
    and trusted: "str_items (dict_get_or data ''trusted_root_issuers'' (JList [])) = Some trusted"
    and m: "parse_manifest_section data = Inr (path, anchor, subject)"
    and c: "c = \<lparr>cc_provider = provider, cc_enforcement_mode = enforcement, cc_requirement = requirement, cc_verifier_platform = platform,
          cc_verifier_roots_path = roots, cc_ttl = ttl, cc_max_depth = depth,
          cc_policy_bundle_path = as_str (dict_get_none data (str ''policy_bundle_path'')),
          cc_local_policy = local, cc_listen_addr = listen, cc_trusted_roots = fset_of_list trusted,
          cc_manifest_path = path, cc_manifest_anchor_path = anchor, cc_manifest_subject = subject\<rparr>"
    unfolding config_from_dict_def by (auto simp: guard_simps Let_def split: prod.splits)
  obtain host port where hp: "hp = (host, port)" by (cases hp)
  have ne: "str_items v = Some ss \<Longrightarrow> [] \<notin> set ss" for v ss by (auto simp: str_items_def all_strs_Some_iff split: option.splits)
  have "[] |\<notin>| fset_of_list trusted" using ne [OF trusted] by (simp add: fset_of_list_elem)
  moreover have "\<forall>s \<in> set_option local. [] |\<notin>| s"
    using local ne by (auto simp: parse_local_policy_def guard_simps fset_of_list_elem split: if_splits)
  ultimately show ?thesis
    using parse_attestation_Inr [OF a] depth parse_manifest_section_Inr [OF m] split_listen_addr_Inr [OF listen(2) [unfolded hp]] listen(2)
    by (auto simp: config_wf_def c listen_host_port_def hp)
qed

section \<open>Properties\<close>

text \<open>
  C34: A configuration that loads is well-formed. Whatever document the file holds, a configuration
  comes out only with a known provider, mode and requirement, a caller verifier when hardware is
  demanded of callers (its platform known and its roots path not empty), positive time to live
  and depth, no empty capability or root issuer, a listen address that splits into a named host
  and a port in range, and the three manifest fields all present or all absent, the subject a
  SPIFFE identity.
\<close>

theorem loaded_config_wf:
  assumes "config_load L yaml_load path file = Inr c"
  shows "config_wf L c"
  using assms by (auto simp: config_load_def guard_simps Let_def split: file_read.splits dest: config_from_dict_wf)

theorem loaded_config_wf_witness:
  "\<exists>c. config_load sample_lib (\<lambda>t. Some JNull) [] (Contents []) = Inr c \<and> config_wf sample_lib c \<and> cc_provider c = str ''auto''"
proof -
  have p: "py_int sample_lib (str ''8443'') = Some 8443"
    using py_int_int_str [of 8443 sample_lib] safe_int_small [of 8443] by (simp add: int_str_def nat_str.simps str_def MAX_SAFE_INTEGER_def)
  have r: "rpartition_colon DEFAULT_LISTEN_ADDR = (str ''127.0.0.1'', str ''8443'')"
    by (simp add: rpartition_colon_def DEFAULT_LISTEN_ADDR_def str_def)
  have "split_listen_addr sample_lib (JStr DEFAULT_LISTEN_ADDR) = Inr (str ''127.0.0.1'', 8443)"
    using p r by (simp add: split_listen_addr_def unbracket_def) (simp add: DEFAULT_LISTEN_ADDR_def str_def)
  moreover have "utf8_decode [] = Some []" by (simp add: utf8_decode_def utf8_dec.simps)
  ultimately obtain c where c: "config_load sample_lib (\<lambda>t. Some JNull) [] (Contents []) = Inr c" "cc_provider c = str ''auto''"
    by (simp add: config_load_def config_from_dict_def get_or_dict_def dict_get_or_def parse_attestation_def choice_def parse_verifier_def
        dict_get_none_def VALID_PROVIDERS_def VALID_ENFORCEMENT_def REQUIREMENT_VALUES_def REQUIRE_NONE_def REQUIRE_HARDWARE_def REQUIRE_ANY_def
        DEFAULT_TTL_SECONDS_def parse_local_policy_def str_items_def parse_manifest_section_def parse_manifest_field_def
        as_int_or_bool_def)
  from loaded_config_wf [OF c(1)] c show ?thesis by blast
qed

end
