(* ===== verification/B64url.thy ===== *)
theory B64url
  imports Extern
begin

text \<open>
  The base64url codec of \<open>ca2a_runtime/transport/_b64url.py\<close>: unpadded encoding and a decoder that
  fails closed outside the alphabet. The decoder of the standard library ignores the unused low
  bits of a final partial group and refuses a single leftover character. The locale \<open>byte_codec\<close>
  states what a textual encoding of bytes promises; the hexadecimal and the base64url notation
  are interpreted.
\<close>

definition b64_char :: "nat \<Rightarrow> nat" where
  "b64_char n =
     (if n < 26 then 65 + n else if n < 52 then 71 + n else if n < 62 then n - 4 else if n = 62 then 45 else 95)"

definition b64_val :: "nat \<Rightarrow> nat option" where
  "b64_val c =
     (if 65 \<le> c \<and> c \<le> 90 then Some (c - 65)
      else if 97 \<le> c \<and> c \<le> 122 then Some (c - 71)
      else if 48 \<le> c \<and> c \<le> 57 then Some (c + 4)
      else if c = 45 then Some 62 else if c = 95 then Some 63 else None)"

fun b64_groups :: "nat list \<Rightarrow> nat list" where
  "b64_groups (a # b # c # r) =
     (a div 4) # (a mod 4 * 16 + b div 16) # (b mod 16 * 4 + c div 64) # (c mod 64) # b64_groups r"
| "b64_groups [a, b] = [a div 4, a mod 4 * 16 + b div 16, b mod 16 * 4]"
| "b64_groups [a] = [a div 4, a mod 4 * 16]"
| "b64_groups [] = []"

fun b64_ungroup :: "nat list \<Rightarrow> nat list option" where
  "b64_ungroup (s # t # u # v # r) =
     map_option (\<lambda>bs. (s * 4 + t div 16) # (t mod 16 * 16 + u div 4) # (u mod 4 * 64 + v) # bs) (b64_ungroup r)"
| "b64_ungroup [s, t, u] = Some [s * 4 + t div 16, t mod 16 * 16 + u div 4]"
| "b64_ungroup [s, t] = Some [s * 4 + t div 16]"
| "b64_ungroup [s] = None"
| "b64_ungroup [] = Some []"

definition b64url_encode :: "bytes \<Rightarrow> ustr" where
  "b64url_encode value = map b64_char (b64_groups (map unat value))"

definition b64url_bytes :: "ustr \<Rightarrow> bytes option" where
  "b64url_bytes s =
     (if s \<noteq> [] \<and> list_all (\<lambda>c. b64_val c \<noteq> None) s
      then map_option (map of_nat) (b64_ungroup (map (\<lambda>c. the (b64_val c)) s)) else None)"

definition b64url_decode :: "ustr \<Rightarrow> json \<Rightarrow> bytes res" where
  "b64url_decode field value =
     expect (case as_str value of None \<Rightarrow> None | Some s \<Rightarrow> b64url_bytes s)
       (Ca2a TransportError (field @ str '' is not valid base64url'') None)"

section \<open>Codecs\<close>

locale byte_codec =
  fixes enc :: "bytes \<Rightarrow> ustr" and dec :: "ustr \<Rightarrow> bytes option" and ok :: "bytes \<Rightarrow> bool"
  assumes dec_enc: "ok b \<Longrightarrow> dec (enc b) = Some b"
begin

lemma enc_inj: "ok a \<Longrightarrow> ok b \<Longrightarrow> enc a = enc b \<Longrightarrow> a = b"
  using dec_enc by (metis option.inject)

end

interpretation hex_codec: byte_codec hex fromhex "\<lambda>_. True"
  by unfold_locales simp

lemma b64_val_char: "n < 64 \<Longrightarrow> b64_val (b64_char n) = Some n"
  by (auto simp: b64_val_def b64_char_def)

lemma b64_groups_small: "list_all (\<lambda>x. x < 256) xs \<Longrightarrow> list_all (\<lambda>x. x < 64) (b64_groups xs)"
proof (induction xs rule: b64_groups.induct)
  case (1 a b c r)
  have "a mod 4 < 4" "b mod 16 < 16" by simp_all
  with 1 show ?case by (simp add: less_mult_imp_div_less) linarith
next
  case (2 a b)
  have "a mod 4 < 4" "b mod 16 < 16" by simp_all
  with 2 show ?case by (simp add: less_mult_imp_div_less) linarith
next
  case (3 a)
  have "a mod 4 < 4" by simp
  with 3 show ?case by (simp add: less_mult_imp_div_less)
qed simp

lemma split_group: "y < k \<Longrightarrow> (x * k + y) div k = x \<and> (x * k + y) mod k = (y :: nat)"
  by simp

lemma b64_ungroup_groups: "list_all (\<lambda>x. x < 256) xs \<Longrightarrow> b64_ungroup (b64_groups xs) = Some xs"
proof (induction xs rule: b64_groups.induct)
  case (1 a b c r)
  then have "b div 16 < 16" "c div 64 < 4" by (simp_all add: less_mult_imp_div_less)
  with 1 split_group [of "b div 16" 16 "a mod 4"] split_group [of "c div 64" 4 "b mod 16"] show ?case by simp
next
  case (2 a b)
  then have "b div 16 < 16" by (simp add: less_mult_imp_div_less)
  with split_group [of "b div 16" 16 "a mod 4"] show ?case by simp
qed simp_all

lemma b64url_bytes_encode:
  assumes "b \<noteq> []"
  shows "b64url_bytes (b64url_encode b) = Some b"
proof -
  let ?n = "map unat b"
  have small: "list_all (\<lambda>x. x < 256) ?n" by (simp add: list_all_iff)
  note g = b64_groups_small [OF small]
  have ne: "b64_groups ?n \<noteq> []" using assms by (cases ?n rule: b64_groups.cases) auto
  have "map (\<lambda>c. the (b64_val c)) (map b64_char (b64_groups ?n)) = b64_groups ?n"
    using g by (simp add: comp_def) (rule map_idI, auto simp: list_all_iff b64_val_char)
  moreover have "list_all (\<lambda>c. b64_val c \<noteq> None) (map b64_char (b64_groups ?n))"
    using g by (auto simp: list_all_iff b64_val_char)
  ultimately show ?thesis
    using ne small by (simp add: b64url_bytes_def b64url_encode_def b64_ungroup_groups comp_def)
qed

interpretation b64url: byte_codec b64url_encode b64url_bytes "\<lambda>b. b \<noteq> []"
  by unfold_locales (rule b64url_bytes_encode)

lemma b64url_decode_encode [simp]: "b \<noteq> [] \<Longrightarrow> b64url_decode field (JStr (b64url_encode b)) = Inr b"
  by (simp add: b64url_decode_def b64url.dec_enc)

end
