(* ===== verification/Trace.thy ===== *)
theory Trace
  imports Chain Provenance B64url Json_Text
begin

text \<open>
  TRACE records of delegation hops, \<open>ca2a_runtime/trace_binding.py\<close>, and their offline verifier,
  \<open>ca2a_verify/dag.py\<close>. Signing, schema validation and signature verification of a record belong
  to the package \<open>agentrust_trace\<close> and the canonical bytes to the package \<open>rfc8785\<close>; they are the
  fields of \<open>trace_lib\<close>, and what these packages document is stated as \<open>rfc8785_canonical\<close> and
  \<open>trace_sign_correct\<close>. The verifier is proved equivalent to a declarative reading, what it accepts
  is tamper evident (by the locale of hash chains), and the records the emitter produces pass it.
\<close>

section \<open>The packages\<close>

text \<open>
  \<open>validate_json(record)\<close>, \<open>verify_record(record, jwk, max_age_seconds)\<close> at a clock reading,
  \<open>sign_record(record, key)\<close> and \<open>rfc8785.dumps(record)\<close>; each may raise.
\<close>

record trace_lib =
  validate_json :: "jdict \<Rightarrow> unit res"
  verify_record :: "int \<Rightarrow> jdict \<Rightarrow> json \<Rightarrow> int option \<Rightarrow> unit res"
  sign_record :: "jdict \<Rightarrow> bytes \<Rightarrow> jdict res"
  rfc_dumps :: "jdict \<Rightarrow> bytes res"

text \<open>The number a JSON text denotes does not say whether it was an int or a float.\<close>

fun jnumber :: "json \<Rightarrow> json" where
  "jnumber (JInt i) = JFloat (Some (of_int i))"
| "jnumber (JList vs) = JList (map jnumber vs)"
| "jnumber (JObj d) = JObj (map (\<lambda>kv. (fst kv, jnumber (snd kv))) d)"
| "jnumber v = v"

definition jvalue :: "jdict \<Rightarrow> json" where
  "jvalue d = jnumber (jnorm (JObj d))"

text \<open>RFC 8785 output is JSON text: equal bytes denote equal documents.\<close>

definition rfc8785_canonical :: "trace_lib \<Rightarrow> bool" where
  "rfc8785_canonical T \<longleftrightarrow> (\<forall>d e b. rfc_dumps T d = Inr b \<and> rfc_dumps T e = Inr b \<longrightarrow> jvalue d = jvalue e)"

section \<open>Records\<close>

definition EAT_PROFILE :: ustr where
  "EAT_PROFILE = str ''tag:agentrust-io.com,2026:trace-v0.2''"

definition SOFTWARE_PLATFORM :: ustr where
  "SOFTWARE_PLATFORM = str ''software-only''"

definition trace_digest :: "bytes \<Rightarrow> ustr" where
  "trace_digest data = str ''sha256:'' @ sha256_hex data"

record hop_context =
  hc_model_provider :: ustr
  hc_model_id :: ustr
  hc_runtime_measurement :: ustr
  hc_policy_bundle_hash :: ustr
  hc_build_digest :: ustr
  hc_appraisal_verifier :: ustr
  hc_transparency :: ustr
  hc_runtime_platform :: ustr
  hc_enforcement_mode :: ustr
  hc_data_class :: ustr
  hc_slsa_level :: int
  hc_appraisal_status :: ustr
  hc_runtime_nonce :: "ustr option"
  hc_model_version :: "ustr option"
  hc_policy_version :: "ustr option"

text \<open>\<open>HopContext.software\<close>; a label that UTF-8 cannot encode raises.\<close>

definition software_context :: "ustr \<Rightarrow> ustr \<Rightarrow> ustr \<Rightarrow> ustr \<Rightarrow> ustr \<Rightarrow> ustr \<Rightarrow> ustr option \<Rightarrow> hop_context res" where
  "software_context model_provider model_id image_label policy_bundle_hash data_class enforcement_mode runtime_nonce =
     bindE (expect (utf8 image_label) (PyExn UnicodeEncodeError)) (\<lambda>image.
     bindE (expect (utf8 (str ''software-build:'' @ image_label)) (PyExn UnicodeEncodeError)) (\<lambda>build.
     Inr \<lparr>hc_model_provider = model_provider, hc_model_id = model_id, hc_runtime_measurement = trace_digest image,
       hc_policy_bundle_hash = policy_bundle_hash, hc_build_digest = trace_digest build,
       hc_appraisal_verifier = str ''https://appraisal.invalid/software-mode'',
       hc_transparency = str ''https://transparency.invalid/software-mode'',
       hc_runtime_platform = SOFTWARE_PLATFORM, hc_enforcement_mode = enforcement_mode, hc_data_class = data_class,
       hc_slsa_level = 0, hc_appraisal_status = str ''none'', hc_runtime_nonce = runtime_nonce,
       hc_model_version = None, hc_policy_version = None\<rparr>))"

definition opt_field :: "string \<Rightarrow> ustr option \<Rightarrow> jdict" where
  "opt_field k v = (case v of None \<Rightarrow> [] | Some s \<Rightarrow> [(str k, JStr s)])"

definition build_trace_record ::
  "ustr \<Rightarrow> int \<Rightarrow> hop_context \<Rightarrow> ustr option \<Rightarrow> ustr option \<Rightarrow> jdict res" where
  "build_trace_record subject iat context credential_id parent_record_hash =
     bindE (require ((parent_record_hash = None) = (credential_id = None)) (PyExn ValueError)) (\<lambda>_.
     Inr ([(str ''eat_profile'', JStr EAT_PROFILE),
       (str ''iat'', JInt iat),
       (str ''subject'', JStr subject),
       (str ''model'', JObj ([(str ''provider'', JStr (hc_model_provider context)),
          (str ''model_id'', JStr (hc_model_id context))] @ opt_field ''version'' (hc_model_version context))),
       (str ''runtime'', JObj ([(str ''platform'', JStr (hc_runtime_platform context)),
          (str ''measurement'', JStr (hc_runtime_measurement context))] @ opt_field ''nonce'' (hc_runtime_nonce context))),
       (str ''policy'', JObj ([(str ''bundle_hash'', JStr (hc_policy_bundle_hash context)),
          (str ''enforcement_mode'', JStr (hc_enforcement_mode context))] @ opt_field ''version'' (hc_policy_version context))),
       (str ''data_class'', JStr (hc_data_class context)),
       (str ''build_provenance'', JObj [(str ''slsa_level'', JInt (hc_slsa_level context)),
          (str ''digest'', JStr (hc_build_digest context))]),
       (str ''appraisal'', JObj [(str ''status'', JStr (hc_appraisal_status context)),
          (str ''verifier'', JStr (hc_appraisal_verifier context))]),
       (str ''transparency'', JStr (hc_transparency context))]
       @ (case parent_record_hash of None \<Rightarrow> []
          | Some h \<Rightarrow> [(str ''delegation'', JObj [(str ''parent_record_hash'', JStr h),
                         (str ''credential_id'', opt_str credential_id)])])))"

definition sign_trace_record :: "trace_lib \<Rightarrow> jdict \<Rightarrow> bytes \<Rightarrow> jdict res" where
  "sign_trace_record T r key = sign_record T r key"

definition LINK_DIGEST :: ustr where
  "LINK_DIGEST = str ''sha256''"

definition trace_record_hash :: "trace_lib \<Rightarrow> jdict \<Rightarrow> ustr res" where
  "trace_record_hash T rec = bindE (rfc_dumps T rec) (\<lambda>b. Inr (LINK_DIGEST @ str '':'' @ sha256_hex b))"

record hop_spec =
  hs_subject :: ustr
  hs_signing_key :: bytes
  hs_context :: hop_context
  hs_iat :: int
  hs_credential_id :: ustr

text \<open>The loop of \<open>emit_dag\<close>: the first hop is the one with no parent hash.\<close>

fun emit_hops :: "trace_lib \<Rightarrow> nat \<Rightarrow> ustr option \<Rightarrow> hop_spec list \<Rightarrow> jdict list res" where
  "emit_hops T i parent_hash [] = Inr []"
| "emit_hops T i parent_hash (hop # hops) =
     bindE (build_trace_record (hs_subject hop) (hs_iat hop) (hs_context hop)
              (if i = 0 then None else Some (hs_credential_id hop)) parent_hash) (\<lambda>r.
     bindE (sign_trace_record T r (hs_signing_key hop)) (\<lambda>sr.
     bindE (trace_record_hash T sr) (\<lambda>h.
     bindE (emit_hops T (Suc i) (Some h) hops) (\<lambda>rs. Inr (sr # rs)))))"

definition emit_dag :: "trace_lib \<Rightarrow> hop_spec list \<Rightarrow> jdict list res" where
  "emit_dag T hops = emit_hops T 0 None hops"

section \<open>The verifier\<close>

abbreviation trace_invalid :: "ustr \<Rightarrow> exn" where
  "trace_invalid m \<equiv> Ca2a TraceRecordInvalid m None"

definition record_msg :: "nat \<Rightarrow> string \<Rightarrow> ustr" where
  "record_msg i m = str ''record '' @ nat_str i @ str m"

text \<open>\<open>re.compile(r"^sha(256:[0-9a-f]{64}|384:[0-9a-f]{96})$").match\<close>: the dollar also matches before a final newline.\<close>

definition trace_digest_form :: "ustr \<Rightarrow> bool" where
  "trace_digest_form s \<longleftrightarrow>
     (take 7 s = str ''sha256:'' \<and> lower_hex_of_len 64 (drop 7 s)) \<or>
     (take 7 s = str ''sha384:'' \<and> lower_hex_of_len 96 (drop 7 s))"

definition trace_digest_re :: "ustr \<Rightarrow> bool" where
  "trace_digest_re s \<longleftrightarrow> trace_digest_form s \<or> (s \<noteq> [] \<and> last s = 10 \<and> trace_digest_form (butlast s))"

definition validate_delegation_block :: "json \<Rightarrow> nat \<Rightarrow> unit res" where
  "validate_delegation_block block i =
     (if block = JNull then Inr ()
      else bindE (expect (as_obj block) (trace_invalid (record_msg i '' delegation block is not an object''))) (\<lambda>d.
      bindE (require (dict_keys d = {str ''parent_record_hash'', str ''credential_id''})
        (trace_invalid (record_msg i '' delegation block has unexpected fields''))) (\<lambda>_.
      bindE (dict_item d (str ''parent_record_hash'')) (\<lambda>parent_hash.
      bindE (require (\<exists>s \<in> set_option (as_str parent_hash). trace_digest_re s)
        (trace_invalid (record_msg i '' delegation.parent_record_hash is not a digest''))) (\<lambda>_.
      bindE (dict_item d (str ''credential_id'')) (\<lambda>credential_id.
      require (\<exists>s \<in> set_option (as_str credential_id). s \<noteq> [])
        (trace_invalid (record_msg i '' delegation.credential_id is missing''))))))))"

text \<open>
  \<open>base64.urlsafe_b64decode\<close>: both alphabets are accepted, other ASCII characters are skipped, a
  pad that completes a group ends the input, and a group left open is an error. \<open>q\<close> counts the
  characters of the open group, \<open>l\<close> holds its unused bits, \<open>p\<close> the pads seen since.
\<close>

definition b64_any :: "nat \<Rightarrow> nat option" where
  "b64_any c = (if c = 43 then Some 62 else if c = 47 then Some 63 else b64_val c)"

fun a2b_base64 :: "nat \<Rightarrow> nat \<Rightarrow> nat \<Rightarrow> ustr \<Rightarrow> nat list option" where
  "a2b_base64 q l p [] = (if q = 0 then Some [] else None)"
| "a2b_base64 q l p (c # cs) =
     (if c = 61 then
        (if 2 \<le> q then (if 4 \<le> q + Suc p then Some [] else a2b_base64 q l (Suc p) cs) else a2b_base64 q l p cs)
      else (case b64_any c of
          None \<Rightarrow> a2b_base64 q l p cs
        | Some v \<Rightarrow>
            (if q = 0 then a2b_base64 1 v 0 cs
             else if q = 1 then map_option (Cons (l * 4 + v div 16)) (a2b_base64 2 (v mod 16) 0 cs)
             else if q = 2 then map_option (Cons (l * 16 + v div 4)) (a2b_base64 3 (v mod 4) 0 cs)
             else map_option (Cons (l * 64 + v)) (a2b_base64 0 0 0 cs))))"

text \<open>\<open>_b64url_decode\<close>; \<open>None\<close> is \<open>binascii.Error\<close> or, outside ASCII, ValueError.\<close>

definition jwk_b64url_decode :: "ustr \<Rightarrow> bytes option" where
  "jwk_b64url_decode value =
     (if list_all (\<lambda>c. c < 128) value
      then map_option (map of_nat) (a2b_base64 0 0 0 (value @ replicate (nat (- int (length value) mod 4)) 61))
      else None)"

definition jwk_raw :: "json \<Rightarrow> bytes res" where
  "jwk_raw jwk =
     bindE (expect (as_obj jwk) (PyExn AttributeError)) (\<lambda>d.
     bindE (require (dict_get_none d (str ''kty'') = JStr (str ''OKP'') \<and> dict_get_none d (str ''crv'') = JStr (str ''Ed25519''))
       (trace_invalid (str ''unsupported cnf.jwk key type''))) (\<lambda>_.
     bindE (expect (as_str (dict_get_none d (str ''x''))) (trace_invalid (str ''cnf.jwk is missing its 'x' parameter''))) (\<lambda>x.
     expect (jwk_b64url_decode x) (trace_invalid (str ''cnf.jwk 'x' is not valid base64url'')))))"

text \<open>A trusted key: an \<open>Ed25519PublicKey\<close> by its raw bytes, a JWK dict, or a value of another type.\<close>

datatype trusted_key = RawKey bytes | JwkKey jdict | OtherKey

fun trusted_raw_key :: "trusted_key \<Rightarrow> bytes res" where
  "trusted_raw_key (RawKey k) = Inr k"
| "trusted_raw_key (JwkKey d) = jwk_raw (JObj d)"
| "trusted_raw_key OtherKey = Inl (PyExn TypeError)"

definition trusted_raw_keys :: "trusted_key list \<Rightarrow> bytes set res" where
  "trusted_raw_keys keys = bindE (traverseE trusted_raw_key keys) (\<lambda>raw. Inr (set raw))"

text \<open>\<open>d.get(k, {})\<close> and \<open>record.get("cnf", {}).get("jwk", {})\<close>.\<close>

definition get_or_empty :: "jdict \<Rightarrow> string \<Rightarrow> json" where
  "get_or_empty d k = (case dict_get d (str k) of None \<Rightarrow> JObj [] | Some v \<Rightarrow> v)"

definition embedded_jwk :: "jdict \<Rightarrow> json res" where
  "embedded_jwk r = bindE (expect (as_obj (get_or_empty r ''cnf'')) (PyExn AttributeError)) (\<lambda>cnf. Inr (get_or_empty cnf ''jwk''))"

definition base_record :: "jdict \<Rightarrow> jdict" where
  "base_record r = filter (\<lambda>(k, v). k \<noteq> str ''delegation'') r"

text \<open>One record on its own: schema, delegation block, trusted key and signature.\<close>

definition authenticate_record :: "trace_lib \<Rightarrow> int \<Rightarrow> bytes set \<Rightarrow> int option \<Rightarrow> nat \<Rightarrow> jdict \<Rightarrow> unit res" where
  "authenticate_record T now trusted max_age i r =
     bindE (catchE (validate_json T (base_record r)) (\<lambda>_. True)
       (\<lambda>_. Inl (trace_invalid (record_msg i '' is not a valid TRACE record'')))) (\<lambda>_.
     bindE (validate_delegation_block (dict_get_none r (str ''delegation'')) i) (\<lambda>_.
     bindE (embedded_jwk r) (\<lambda>jwk.
     bindE (jwk_raw jwk) (\<lambda>raw.
     bindE (require (raw \<in> trusted) (trace_invalid (record_msg i '' is signed by an untrusted key''))) (\<lambda>_.
     catchE (catchE (verify_record T now r jwk max_age) (\<lambda>e. e = PyExn InvalidSignature)
         (\<lambda>_. Inl (trace_invalid (record_msg i '' signature does not verify''))))
       is_value_error (\<lambda>_. Inl (trace_invalid (record_msg i '' could not be verified''))))))))"

text \<open>Its place in the chain; \<open>prev_hash\<close> is None for the first record.\<close>

definition check_parent_link :: "nat \<Rightarrow> ustr option \<Rightarrow> json \<Rightarrow> unit res" where
  "check_parent_link i prev_hash delegation =
     (if i = 0 then require (delegation = JNull) (link_broken (str ''root record must not carry a delegation block''))
      else if delegation = JNull then Inl (link_broken (record_msg i '' is missing its delegation block''))
      else bindE (expect (as_obj delegation) (PyExn TypeError)) (\<lambda>d.
        bindE (dict_item d (str ''parent_record_hash'')) (\<lambda>v.
        bindE (expect (as_str v) (PyExn AttributeError)) (\<lambda>parent_link.
        if take (length (LINK_DIGEST @ str '':'')) parent_link \<noteq> LINK_DIGEST @ str '':''
        then Inl (Ca2a TraceDigestUnsupported (record_msg i '' parent link names a digest this verifier does not implement'') None)
        else require (Some parent_link = prev_hash)
          (link_broken (record_msg i '' parent link does not match the previous record's hash''))))))"

fun verify_trace_records ::
  "trace_lib \<Rightarrow> (nat \<Rightarrow> int) \<Rightarrow> bytes set \<Rightarrow> int option \<Rightarrow> nat \<Rightarrow> ustr option \<Rightarrow> ustr set \<Rightarrow> json list \<Rightarrow> json list res" where
  "verify_trace_records T clock trusted max_age i prev_hash seen [] = Inr []"
| "verify_trace_records T clock trusted max_age i prev_hash seen (v # vs) =
     bindE (expect (as_obj v) (trace_invalid (record_msg i '' is not a JSON object''))) (\<lambda>r.
     bindE (authenticate_record T (clock i) trusted max_age i r) (\<lambda>_.
     bindE (trace_record_hash T r) (\<lambda>h.
     bindE (require (h \<notin> seen) (link_broken (record_msg i '' repeats an earlier record''))) (\<lambda>_.
     bindE (check_parent_link i prev_hash (dict_get_none r (str ''delegation''))) (\<lambda>_.
     bindE (dict_item r (str ''subject'')) (\<lambda>subject.
     bindE (verify_trace_records T clock trusted max_age (Suc i) (Some h) (insert h seen) vs) (\<lambda>subjects.
     Inr (subject # subjects))))))))"

record trace_dag_result =
  td_hops :: nat
  td_root_subject :: json
  td_leaf_subject :: json
  td_subjects :: "json list"

definition verify_trace_dag ::
  "trace_lib \<Rightarrow> (nat \<Rightarrow> int) \<Rightarrow> trusted_key list \<Rightarrow> int option \<Rightarrow> json list \<Rightarrow> trace_dag_result res" where
  "verify_trace_dag T clock trusted_keys max_age records =
     (if records = [] then Inl (link_broken (str ''empty TRACE DAG''))
      else bindE (trusted_raw_keys trusted_keys) (\<lambda>trusted.
        bindE (verify_trace_records T clock trusted max_age 0 None {} records) (\<lambda>subjects.
        Inr \<lparr>td_hops = length records, td_root_subject = hd subjects, td_leaf_subject = last subjects,
             td_subjects = subjects\<rparr>)))"

text \<open>In \<open>record.get("delegation") or {}\<close> an empty or false value reads as the empty dict.\<close>

fun cross_check_records :: "nat \<Rightarrow> json list \<Rightarrow> delegation_credential list \<Rightarrow> unit res" where
  "cross_check_records i (v # vs) (c # cs) =
     bindE (expect (as_obj v) (PyExn AttributeError)) (\<lambda>r.
     bindE (if i > 0
       then let block = dict_get_none r (str ''delegation'') in
            bindE (expect (as_obj (if truthy block then block else JObj [])) (PyExn AttributeError)) (\<lambda>d.
            require (dict_get_none d (str ''credential_id'') = JStr (cred_id c))
              (link_broken (record_msg i '' credential_id does not match the chain'')))
       else Inr ()) (\<lambda>_.
     bindE (embedded_jwk r) (\<lambda>jwk.
     bindE (jwk_raw jwk) (\<lambda>raw.
     bindE (require (hex raw = cred_subject c)
       (link_broken (record_msg i '' was signed by a key that is not chain['' @ nat_str i @ str ''].subject''))) (\<lambda>_.
     cross_check_records (Suc i) vs cs)))))"
| "cross_check_records i _ _ = Inr ()"

definition cross_check_trace_dag :: "json list \<Rightarrow> delegation_credential list \<Rightarrow> unit res" where
  "cross_check_trace_dag records chain =
     (if length records \<noteq> length chain
      then Inl (link_broken (str ''DAG length '' @ nat_str (length records) @ str '' does not match chain length '' @ nat_str (length chain)))
      else cross_check_records 0 records chain)"

section \<open>The JWK codec\<close>

lemma b64_any_char: "n < 64 \<Longrightarrow> b64_any (b64_char n) = Some n \<and> b64_char n \<noteq> 61 \<and> b64_char n < 128"
  by (auto simp: b64_any_def b64_val_def b64_char_def)

lemma a2b_groups:
  "list_all (\<lambda>x. x < 256) xs \<Longrightarrow>
     a2b_base64 0 0 0 (map b64_char (b64_groups xs) @ replicate (nat (- int (length (b64_groups xs)) mod 4)) 61) = Some xs"
proof (induction xs rule: b64_groups.induct)
  case (1 a b c r)
  have len: "- int (length (b64_groups (a # b # c # r))) mod 4 = - int (length (b64_groups r)) mod 4"
    by simp presburger
  have d: "b div 16 < 16" "c div 64 < 4" using "1.prems" by (simp_all add: less_mult_imp_div_less)
  have m: "a mod 4 < 4" "b mod 16 < 16" by simp_all
  have s: "a div 4 < 64" "a mod 4 * 16 + b div 16 < 64" "b mod 16 * 4 + c div 64 < 64" "c mod 64 < 64"
    using "1.prems" d m by (simp_all add: less_mult_imp_div_less) linarith+
  show ?case unfolding len
    using 1 s d split_group [of "b div 16" 16 "a mod 4"] split_group [of "c div 64" 4 "b mod 16"]
    by (simp add: b64_any_char numeral_3_eq_3 numeral_2_eq_2)
next
  case (2 a b)
  have d: "b div 16 < 16" "a mod 4 < 4" "b mod 16 < 16" using "2.prems" by (simp_all add: less_mult_imp_div_less)
  then have s: "a div 4 < 64" "a mod 4 * 16 + b div 16 < 64" "b mod 16 * 4 < 64"
    using "2.prems" by (simp_all add: less_mult_imp_div_less) linarith
  then show ?case using d split_group [of "b div 16" 16 "a mod 4"] by (simp add: b64_any_char)
next
  case (3 a)
  have "a mod 4 < 4" by simp
  then have s: "a div 4 < 64" "a mod 4 * 16 < 64" using "3.prems" by (simp_all add: less_mult_imp_div_less)
  have r: "replicate 2 (61 :: nat) = [61, 61]" by (simp add: numeral_2_eq_2)
  from s show ?case by (simp add: b64_any_char r)
qed simp

interpretation jwk_codec: byte_codec b64url_encode jwk_b64url_decode "\<lambda>_. True"
proof
  fix b :: bytes
  have small: "list_all (\<lambda>x. x < 256) (map unat b)" by (simp add: list_all_iff)
  then have "list_all (\<lambda>c. c < 128) (b64url_encode b)"
    using b64_groups_small [OF small] by (auto simp: b64url_encode_def list_all_iff b64_any_char)
  with a2b_groups [OF small] show "jwk_b64url_decode (b64url_encode b) = Some b"
    by (simp add: jwk_b64url_decode_def b64url_encode_def comp_def)
qed

section \<open>The verifier, declaratively\<close>

lemma map_JObj_eq_iff [simp]: "map JObj a = map JObj b \<longleftrightarrow> a = b"
proof -
  have "inj JObj" by (rule injI) simp
  then show ?thesis by (rule inj_map_eq_map)
qed

definition trace_parent :: "jdict \<Rightarrow> ustr option" where
  "trace_parent r = (case dict_get_none r (str ''delegation'') of
       JObj d \<Rightarrow> as_str (dict_get_none d (str ''parent_record_hash'')) | _ \<Rightarrow> None)"

definition delegation_wf :: "json \<Rightarrow> bool" where
  "delegation_wf block \<longleftrightarrow> block = JNull \<or>
     (\<exists>d h c. block = JObj d \<and> dict_keys d = {str ''parent_record_hash'', str ''credential_id''} \<and>
        dict_get d (str ''parent_record_hash'') = Some (JStr h) \<and> trace_digest_re h \<and>
        dict_get d (str ''credential_id'') = Some (JStr c) \<and> c \<noteq> [])"

text \<open>A record that is valid on its own and signed by a trusted key.\<close>

definition record_authentic :: "trace_lib \<Rightarrow> int \<Rightarrow> bytes set \<Rightarrow> int option \<Rightarrow> jdict \<Rightarrow> bool" where
  "record_authentic T now trusted max_age r \<longleftrightarrow>
     validate_json T (base_record r) = Inr () \<and> delegation_wf (dict_get_none r (str ''delegation'')) \<and>
     (\<exists>jwk raw. embedded_jwk r = Inr jwk \<and> jwk_raw jwk = Inr raw \<and> raw \<in> trusted \<and>
        verify_record T now r jwk max_age = Inr ())"

lemma validate_delegation_block_iff: "validate_delegation_block block i = Inr u \<longleftrightarrow> delegation_wf block"
  by (cases block) (auto simp: validate_delegation_block_def delegation_wf_def guard_simps)

lemma authenticate_record_iff:
  "authenticate_record T now trusted max_age i r = Inr u \<longleftrightarrow> record_authentic T now trusted max_age r"
  by (auto simp: authenticate_record_def record_authentic_def guard_simps validate_delegation_block_iff)

lemma authentic_block: "record_authentic T now trusted max_age r \<Longrightarrow> delegation_wf (dict_get_none r (str ''delegation''))"
  by (simp add: record_authentic_def)

lemma trace_record_hash_prefix: "trace_record_hash T r = Inr h \<Longrightarrow> take 7 h = str ''sha256:''"
  by (auto simp: trace_record_hash_def guard_simps LINK_DIGEST_def str_def)

text \<open>The parent link at position \<open>i\<close>, with the hash before it: none at the root.\<close>

lemma check_parent_link_iff:
  assumes "delegation_wf (dict_get_none r (str ''delegation''))" and "i = 0 \<longleftrightarrow> prev = None"
    and "\<And>h. prev = Some h \<Longrightarrow> take 7 h = str ''sha256:''"
  shows "check_parent_link i prev (dict_get_none r (str ''delegation'')) = Inr u \<longleftrightarrow> trace_parent r = prev"
proof -
  have l: "LINK_DIGEST @ str '':'' = str ''sha256:''" by (simp add: LINK_DIGEST_def str_def)
  have n: "length (str ''sha256:'') = 7" by simp
  show ?thesis
    unfolding check_parent_link_def l n using assms
    by (cases prev) (auto simp: guard_simps trace_parent_def delegation_wf_def dict_get_none_def)
qed

fun dag_from :: "trace_lib \<Rightarrow> (nat \<Rightarrow> int) \<Rightarrow> bytes set \<Rightarrow> int option \<Rightarrow> nat \<Rightarrow> ustr option \<Rightarrow> ustr set \<Rightarrow> jdict list \<Rightarrow> bool" where
  "dag_from T clock trusted max_age i prev seen [] \<longleftrightarrow> True"
| "dag_from T clock trusted max_age i prev seen (r # rs) \<longleftrightarrow>
     record_authentic T (clock i) trusted max_age r \<and> trace_parent r = prev \<and> dict_get r (str ''subject'') \<noteq> None \<and>
     (\<exists>h. trace_record_hash T r = Inr h \<and> h \<notin> seen \<and> dag_from T clock trusted max_age (Suc i) (Some h) (insert h seen) rs)"

definition subjects_of :: "jdict list \<Rightarrow> json list" where
  "subjects_of ds = map (\<lambda>d. the (dict_get d (str ''subject''))) ds"

lemma subjects_of_simps [simp]:
  "subjects_of [] = []"
  "subjects_of (d # ds) = the (dict_get d (str ''subject'')) # subjects_of ds"
  by (simp_all add: subjects_of_def)

lemma verify_trace_records_step:
  "verify_trace_records T clock trusted max_age i prev seen (v # vs) = Inr subs \<longleftrightarrow>
    (\<exists>r h s subs'. v = JObj r \<and> record_authentic T (clock i) trusted max_age r \<and> trace_record_hash T r = Inr h \<and>
       h \<notin> seen \<and> check_parent_link i prev (dict_get_none r (str ''delegation'')) = Inr () \<and> dict_get r (str ''subject'') = Some s \<and>
       verify_trace_records T clock trusted max_age (Suc i) (Some h) (insert h seen) vs = Inr subs' \<and> subs = s # subs')"
  by (simp add: guard_simps authenticate_record_iff) blast

lemma verify_trace_records_iff:
  assumes "i = 0 \<longleftrightarrow> prev = None" and "\<And>h. prev = Some h \<Longrightarrow> take 7 h = str ''sha256:''"
  shows "verify_trace_records T clock trusted max_age i prev seen vs = Inr subs \<longleftrightarrow>
    (\<exists>ds. vs = map JObj ds \<and> dag_from T clock trusted max_age i prev seen ds \<and> subs = subjects_of ds)"
  using assms
proof (induction vs arbitrary: i prev seen subs)
  case Nil
  then show ?case by auto
next
  case (Cons v vs)
  have "verify_trace_records T clock trusted max_age i prev seen (v # vs) = Inr subs \<longleftrightarrow>
    (\<exists>r h subs'. v = JObj r \<and> record_authentic T (clock i) trusted max_age r \<and> trace_record_hash T r = Inr h \<and>
       h \<notin> seen \<and> trace_parent r = prev \<and> dict_get r (str ''subject'') \<noteq> None \<and>
       verify_trace_records T clock trusted max_age (Suc i) (Some h) (insert h seen) vs = Inr subs' \<and>
       subs = the (dict_get r (str ''subject'')) # subs')"
    unfolding verify_trace_records_step
    using check_parent_link_iff [OF authentic_block Cons.prems] by fastforce
  also have "\<dots> \<longleftrightarrow> (\<exists>r h ds. v = JObj r \<and> record_authentic T (clock i) trusted max_age r \<and> trace_record_hash T r = Inr h \<and>
       h \<notin> seen \<and> trace_parent r = prev \<and> dict_get r (str ''subject'') \<noteq> None \<and>
       vs = map JObj ds \<and> dag_from T clock trusted max_age (Suc i) (Some h) (insert h seen) ds \<and> subs = subjects_of (r # ds))"
  proof -
    have "verify_trace_records T clock trusted max_age (Suc i) (Some h) s vs = Inr ss \<longleftrightarrow>
      (\<exists>ds. vs = map JObj ds \<and> dag_from T clock trusted max_age (Suc i) (Some h) s ds \<and> ss = subjects_of ds)"
      if "trace_record_hash T r = Inr h" for r h s ss
      using trace_record_hash_prefix [OF that] by (intro Cons.IH) auto
    then show ?thesis by (simp cong: conj_cong) blast
  qed
  also have "\<dots> \<longleftrightarrow> (\<exists>ds. v # vs = map JObj ds \<and> dag_from T clock trusted max_age i prev seen ds \<and> subs = subjects_of ds)"
    by (force simp: Cons_eq_map_conv)
  finally show ?case .
qed

definition trace_dag_valid :: "trace_lib \<Rightarrow> (nat \<Rightarrow> int) \<Rightarrow> bytes set \<Rightarrow> int option \<Rightarrow> jdict list \<Rightarrow> bool" where
  "trace_dag_valid T clock trusted max_age ds \<longleftrightarrow>
     ds \<noteq> [] \<and> list_all (\<lambda>d. dict_get d (str ''subject'') \<noteq> None) ds \<and>
     (\<forall>i < length ds. record_authentic T (clock i) trusted max_age (ds ! i)) \<and>
     linked_by (trace_record_hash T) trace_parent ds \<and>
     (\<exists>hs. traverseE (trace_record_hash T) ds = Inr hs \<and> distinct hs)"

definition dag_summary :: "jdict list \<Rightarrow> trace_dag_result" where
  "dag_summary ds = \<lparr>td_hops = length ds, td_root_subject = hd (subjects_of ds), td_leaf_subject = last (subjects_of ds),
     td_subjects = subjects_of ds\<rparr>"

lemma dag_from_iff:
  "dag_from T clock trusted max_age i prev seen ds \<longleftrightarrow>
     list_all (\<lambda>d. dict_get d (str ''subject'') \<noteq> None) ds \<and>
     (\<forall>j < length ds. record_authentic T (clock (i + j)) trusted max_age (ds ! j)) \<and>
     (\<exists>hs. traverseE (trace_record_hash T) ds = Inr hs \<and> distinct hs \<and> set hs \<inter> seen = {} \<and>
        (ds \<noteq> [] \<longrightarrow> map trace_parent ds = prev # map Some (butlast hs)))"
proof (induction ds arbitrary: i prev seen)
  case (Cons r rs)
  have bl: "(rs \<noteq> [] \<longrightarrow> map trace_parent rs = Some h # map Some (butlast hs)) \<longleftrightarrow>
      map trace_parent (r # rs) = trace_parent r # map Some (butlast (h # hs))"
    if "traverseE (trace_record_hash T) rs = Inr hs" for h hs
    using traverseE_length [OF that] by (cases rs) auto
  show ?case
    by (simp add: Cons.IH All_less_Suc2 guard_simps bl cong: conj_cong) (use bl in fastforce)
qed simp

lemma dag_from_root: "trace_dag_valid T clock trusted max_age ds \<longleftrightarrow> ds \<noteq> [] \<and> dag_from T clock trusted max_age 0 None {} ds"
  by (auto simp: trace_dag_valid_def dag_from_iff linked_by_digests)

lemma verify_trace_dag_iff:
  "verify_trace_dag T clock keys max_age vs = Inr res \<longleftrightarrow>
     (\<exists>trusted ds. trusted_raw_keys keys = Inr trusted \<and> vs = map JObj ds \<and>
        trace_dag_valid T clock trusted max_age ds \<and> res = dag_summary ds)"
proof -
  have "verify_trace_records T clock trusted max_age 0 None {} vs = Inr subs \<longleftrightarrow>
      (\<exists>ds. vs = map JObj ds \<and> dag_from T clock trusted max_age 0 None {} ds \<and> subs = subjects_of ds)" for trusted subs
    by (rule verify_trace_records_iff) simp_all
  then show ?thesis by (fastforce simp: verify_trace_dag_def guard_simps dag_from_root dag_summary_def)
qed

section \<open>Hash chains of TRACE records\<close>

text \<open>The parent link as the canonical document shows it; for a dict it is the field itself.\<close>

fun value_parent :: "json \<Rightarrow> ustr option" where
  "value_parent (JObj d) = trace_parent d"
| "value_parent _ = None"

lemma jvalue_get:
  assumes "dict_wf d"
  obtains e where "jvalue d = JObj e" and "\<And>k. dict_get e k = map_option (\<lambda>v. jnumber (jnorm v)) (dict_get d k)"
proof -
  have "jvalue d = JObj (map (\<lambda>kv. (fst kv, (\<lambda>v. jnumber (jnorm v)) (snd kv))) (sort_key item_key d))"
    unfolding jvalue_def jnorm_JObj by (simp add: comp_def)
  with dict_get_sort [OF assms, of "\<lambda>v. jnumber (jnorm v)" item_key] that show ?thesis by blast
qed

lemma value_parent_jvalue:
  assumes "json_wf (JObj d)"
  shows "value_parent (jvalue d) = trace_parent d"
proof -
  from assms have wf: "dict_wf d" and mem: "\<And>k v. dict_get d k = Some v \<Longrightarrow> json_wf v"
    by (auto simp: dict_get_def list_all_iff dest!: map_of_SomeD)
  obtain e where e: "jvalue d = JObj e" "\<And>k. dict_get e k = map_option (\<lambda>v. jnumber (jnorm v)) (dict_get d k)"
    using jvalue_get [OF wf] by blast
  show ?thesis
  proof (cases "dict_get_none d (str ''delegation'')")
    case (JObj b)
    then have "json_wf (JObj b)" using mem [of "str ''delegation''"] by (auto simp: dict_get_none_def split: option.splits)
    then have bwf: "dict_wf b" by simp
    obtain c where c: "jnumber (jnorm (JObj b)) = JObj c" "\<And>k. dict_get c k = map_option (\<lambda>v. jnumber (jnorm v)) (dict_get b k)"
      using jvalue_get [OF bwf] unfolding jvalue_def by blast
    from JObj have "dict_get d (str ''delegation'') = Some (JObj b)"
      by (auto simp: dict_get_none_def split: option.splits)
    then have de: "dict_get_none e (str ''delegation'') = JObj c"
      using e(2) c(1) by (simp only: dict_get_none_def option.map option.case)
    have "as_str (dict_get_none c k) = as_str (dict_get_none b k)" for k
    proof (cases "dict_get b k")
      case (Some v)
      then show ?thesis using c(2) by (cases v) (simp_all add: dict_get_none_def jnorm_JObj)
    qed (simp add: c(2) dict_get_none_def)
    with e(1) JObj de show ?thesis by (simp add: trace_parent_def)
  qed (use e in \<open>auto simp: trace_parent_def dict_get_none_def split: option.splits\<close>)
qed

lemma trace_hash_chain:
  assumes "rfc8785_canonical T"
  shows "hash_chain (rfc_dumps T) (trace_record_hash T) (\<lambda>d. value_parent (jvalue d)) jvalue (\<lambda>b. LINK_DIGEST @ str '':'' @ hex b)"
proof
  fix r s b
  show "trace_record_hash T r = bindE (rfc_dumps T r) (\<lambda>b. Inr (LINK_DIGEST @ str '':'' @ hex (sha256 b)))"
    by (simp add: trace_record_hash_def sha256_hex_def)
  show "rfc_dumps T r = Inr b \<Longrightarrow> rfc_dumps T s = Inr b \<Longrightarrow> jvalue r = jvalue s"
    using assms unfolding rfc8785_canonical_def by blast
qed simp_all

lemma linked_by_cong:
  "(\<And>r. r \<in> set rs \<Longrightarrow> parent r = parent' r) \<Longrightarrow> linked_by digest parent rs \<longleftrightarrow> linked_by digest parent' rs"
  by (cases "rs = []") (auto simp: linked_by_def intro: successively_cong [THEN iffD1, rotated -1])

lemma linked_jvalue:
  "list_all (\<lambda>d. json_wf (JObj d)) ds \<Longrightarrow>
     linked_by digest (\<lambda>d. value_parent (jvalue d)) ds \<longleftrightarrow> linked_by digest trace_parent ds"
  by (rule linked_by_cong) (auto simp: list_all_iff value_parent_jvalue simp del: json_wf.simps)

section \<open>Emitted records\<close>

text \<open>
  What \<open>sign_trace_record\<close> documents of \<open>agentrust_trace\<close>: signing sets \<open>cnf.jwk\<close> to the public key and
  adds the signature, nothing else, and \<open>verify_record\<close> accepts the result under that key.
\<close>

definition is_jwk_of :: "bytes \<Rightarrow> json \<Rightarrow> bool" where
  "is_jwk_of pk jwk \<longleftrightarrow> (\<exists>d. jwk = JObj d \<and> dict_get d (str ''kty'') = Some (JStr (str ''OKP'')) \<and>
     dict_get d (str ''crv'') = Some (JStr (str ''Ed25519'')) \<and> dict_get d (str ''x'') = Some (JStr (b64url_encode pk)))"

definition trace_sign_correct :: "lib \<Rightarrow> trace_lib \<Rightarrow> bool" where
  "trace_sign_correct L T \<longleftrightarrow> (\<forall>r k s. sign_record T r k = Inr s \<longrightarrow>
     (json_wf (JObj r) \<longrightarrow> json_wf (JObj s)) \<and>
     (\<forall>f. f \<noteq> str ''cnf'' \<and> f \<noteq> str ''signature'' \<longrightarrow> dict_get s f = dict_get r f) \<and>
     (\<exists>cnf jwk. dict_get s (str ''cnf'') = Some (JObj cnf) \<and> dict_get cnf (str ''jwk'') = Some jwk \<and>
        is_jwk_of (ed_public L k) jwk \<and> (\<forall>now. verify_record T now s jwk None = Inr ())))"

lemma jwk_raw_of: "is_jwk_of pk jwk \<Longrightarrow> jwk_raw jwk = Inr pk"
  by (auto simp: is_jwk_of_def jwk_raw_def dict_get_none_def jwk_codec.dec_enc)

lemma build_trace_record_get:
  assumes "build_trace_record subject iat context cid parent = Inr r"
  shows "dict_get r (str ''subject'') = Some (JStr subject)"
    and "dict_get_none r (str ''delegation'') = (case parent of None \<Rightarrow> JNull
       | Some h \<Rightarrow> JObj [(str ''parent_record_hash'', JStr h), (str ''credential_id'', opt_str cid)])"
    and "json_wf (JObj r)"
  using assms by (auto simp: build_trace_record_def guard_simps dict_get_none_def opt_field_def split: option.splits)

definition emitted :: "lib \<Rightarrow> trace_lib \<Rightarrow> ustr option \<Rightarrow> hop_spec \<Rightarrow> jdict \<Rightarrow> bool" where
  "emitted L T prev hop s \<longleftrightarrow> json_wf (JObj s) \<and> trace_parent s = prev \<and> dict_get s (str ''subject'') = Some (JStr (hs_subject hop)) \<and>
     (\<forall>now trusted. validate_json T (base_record s) = Inr () \<and> ed_public L (hs_signing_key hop) \<in> trusted \<longrightarrow>
        record_authentic T now trusted None s)"

lemma emitted_record:
  assumes law: "trace_sign_correct L T"
    and build: "build_trace_record (hs_subject hop) (hs_iat hop) (hs_context hop) cid prev = Inr r"
    and sg: "sign_record T r (hs_signing_key hop) = Inr s"
    and prev: "\<And>h. prev = Some h \<Longrightarrow> trace_digest_re h \<and> (\<exists>c. cid = Some c \<and> c \<noteq> [])"
  shows "emitted L T prev hop s"
proof -
  note b = build_trace_record_get [OF build]
  from law sg have wf: "json_wf (JObj s)" and
    keep: "\<And>f. f \<noteq> str ''cnf'' \<Longrightarrow> f \<noteq> str ''signature'' \<Longrightarrow> dict_get s f = dict_get r f"
    using b(3) unfolding trace_sign_correct_def by blast+
  from law sg obtain cnf jwk where cnf: "dict_get s (str ''cnf'') = Some (JObj cnf)" "dict_get cnf (str ''jwk'') = Some jwk"
    "is_jwk_of (ed_public L (hs_signing_key hop)) jwk" and ver: "\<And>now. verify_record T now s jwk None = Inr ()"
    unfolding trace_sign_correct_def by blast
  have del: "dict_get_none s (str ''delegation'') = dict_get_none r (str ''delegation'')"
    using keep [of "str ''delegation''"] by (simp add: dict_get_none_def)
  have "delegation_wf (dict_get_none s (str ''delegation''))"
    unfolding del b(2) using prev by (cases prev) (auto simp: delegation_wf_def)
  moreover have "embedded_jwk s = Inr jwk" by (simp add: embedded_jwk_def get_or_empty_def cnf)
  moreover have "jwk_raw jwk = Inr (ed_public L (hs_signing_key hop))" by (rule jwk_raw_of [OF cnf(3)])
  ultimately have "record_authentic T now trusted None s"
    if "validate_json T (base_record s) = Inr ()" "ed_public L (hs_signing_key hop) \<in> trusted" for now trusted
    using that ver by (auto simp: record_authentic_def)
  moreover have "trace_parent s = prev"
    unfolding trace_parent_def del b(2) by (cases prev) (simp_all add: dict_get_none_def)
  ultimately show ?thesis using wf keep [of "str ''subject''"] b(1) by (simp add: emitted_def)
qed

lemma trace_record_hash_form: "trace_record_hash T r = Inr h \<Longrightarrow> trace_digest_re h"
proof -
  assume "trace_record_hash T r = Inr h"
  then obtain b where h: "h = LINK_DIGEST @ str '':'' @ sha256_hex b" by (auto simp: trace_record_hash_def guard_simps)
  have "LINK_DIGEST @ str '':'' = str ''sha256:''" by (simp add: LINK_DIGEST_def str_def)
  with h have "h = str ''sha256:'' @ sha256_hex b" by (metis append.assoc)
  then show ?thesis by (simp add: trace_digest_re_def trace_digest_form_def)
qed

lemma emit_hops_spec:
  assumes "trace_sign_correct L T"
  shows "emit_hops T i prev hops = Inr ds \<Longrightarrow> (i = 0 \<longleftrightarrow> prev = None) \<Longrightarrow> (\<And>h. prev = Some h \<Longrightarrow> trace_digest_re h) \<Longrightarrow>
    list_all (\<lambda>hop. hs_credential_id hop \<noteq> []) (if i = 0 then tl hops else hops) \<Longrightarrow>
    \<exists>hs. traverseE (trace_record_hash T) ds = Inr hs \<and> length hs = length hops \<and>
      list_all2 (\<lambda>(hop, p) s. emitted L T p hop s) (zip hops (prev # map Some hs)) ds"
proof (induction hops arbitrary: i prev ds)
  case (Cons hop hops)
  from Cons.prems(1) obtain r s h rs where
    b: "build_trace_record (hs_subject hop) (hs_iat hop) (hs_context hop) (if i = 0 then None else Some (hs_credential_id hop)) prev = Inr r"
    and s: "sign_record T r (hs_signing_key hop) = Inr s" and h: "trace_record_hash T s = Inr h"
    and rs: "emit_hops T (Suc i) (Some h) hops = Inr rs" and ds: "ds = s # rs"
    by (auto simp: guard_simps sign_trace_record_def)
  have "emitted L T prev hop s"
    by (rule emitted_record [OF assms b s]) (use Cons.prems(2-4) in \<open>auto split: if_splits\<close>)
  moreover have "\<exists>hs. traverseE (trace_record_hash T) rs = Inr hs \<and> length hs = length hops \<and>
      list_all2 (\<lambda>(hop, p) s. emitted L T p hop s) (zip hops (Some h # map Some hs)) rs"
    by (rule Cons.IH [OF rs]) (use Cons.prems(4) trace_record_hash_form [OF h] in \<open>auto split: if_splits\<close>)
  ultimately show ?case using h ds by auto
qed simp

lemma emit_dag_valid:
  assumes "rfc8785_canonical T" and "trace_sign_correct L T" and "emit_dag T hops = Inr ds" and "hops \<noteq> []"
    and "list_all (\<lambda>hop. hs_credential_id hop \<noteq> []) (tl hops)"
    and "list_all (\<lambda>d. validate_json T (base_record d) = Inr ()) ds"
    and "(\<lambda>hop. ed_public L (hs_signing_key hop)) ` set hops \<subseteq> trusted"
  shows "trace_dag_valid T clock trusted None ds \<and> subjects_of ds = map (\<lambda>hop. JStr (hs_subject hop)) hops \<or>
     colliding (rfc_dumps T) ds ds"
proof -
  obtain hs where hs: "traverseE (trace_record_hash T) ds = Inr hs" "length hs = length hops"
    and em: "list_all2 (\<lambda>(hop, p) s. emitted L T p hop s) (zip hops (None # map Some hs)) ds"
    using emit_hops_spec [OF assms(2), of 0 None hops ds] assms(3,5) by (auto simp: emit_dag_def)
  have len: "length ds = length hops" using traverseE_length [OF hs(1)] hs(2) by simp
  have e: "emitted L T ((None # map Some hs) ! i) (hops ! i) (ds ! i)" if "i < length ds" for i
    using em that len hs(2) by (auto simp: list_all2_conv_all_nth)
  have parents: "map trace_parent ds = None # map Some (butlast hs)"
  proof (rule nth_equalityI)
    show "length (map trace_parent ds) = length (None # map Some (butlast hs))" using len hs(2) assms(4) by (cases hops) auto
    fix i assume "i < length (map trace_parent ds)"
    with e [of i] len hs(2) show "map trace_parent ds ! i = (None # map Some (butlast hs)) ! i"
      by (cases i) (auto simp: emitted_def nth_butlast)
  qed
  have ne: "ds \<noteq> []" using len assms(4) by auto
  with parents hs(1) have linked: "linked_by (trace_record_hash T) trace_parent ds" by (simp add: linked_by_digests)
  have wf: "list_all (\<lambda>d. json_wf (JObj d)) ds" using e by (auto simp: list_all_length emitted_def)
  from hash_chain.linked_distinct [OF trace_hash_chain [OF assms(1)] _ hs(1)] linked linked_jvalue [OF wf]
  have "distinct hs \<or> colliding (rfc_dumps T) ds ds" by blast
  moreover have "subjects_of ds = map (\<lambda>hop. JStr (hs_subject hop)) hops"
    using len e by (intro nth_equalityI) (auto simp: subjects_of_def emitted_def)
  moreover have "record_authentic T (clock i) trusted None (ds ! i)" if "i < length ds" for i
  proof -
    have "ed_public L (hs_signing_key (hops ! i)) \<in> trusted" using assms(7) that len by auto
    with e [OF that] assms(6) that show ?thesis by (auto simp: emitted_def list_all_length)
  qed
  moreover have "list_all (\<lambda>d. dict_get d (str ''subject'') \<noteq> None) ds" using e by (auto simp: list_all_length emitted_def)
  ultimately show ?thesis using ne linked hs(1) by (auto simp: trace_dag_valid_def)
qed

section \<open>The cross-check\<close>

text \<open>A record at position \<open>i\<close> belongs to a credential: it names it, unless it is the root, and its subject's key signed it.\<close>

definition belongs_to :: "nat \<Rightarrow> jdict \<Rightarrow> delegation_credential \<Rightarrow> bool" where
  "belongs_to i r c \<longleftrightarrow>
     (i > 0 \<longrightarrow> (\<exists>d. dict_get_none r (str ''delegation'') = JObj d \<and> dict_get d (str ''credential_id'') = Some (JStr (cred_id c)))) \<and>
     (\<exists>jwk raw. embedded_jwk r = Inr jwk \<and> jwk_raw jwk = Inr raw \<and> hex raw = cred_subject c)"

lemma cross_check_records_step:
  "cross_check_records i (v # vs) (c # cs) = Inr u \<longleftrightarrow>
     (\<exists>r. v = JObj r \<and> belongs_to i r c \<and> cross_check_records (Suc i) vs cs = Inr u)"
proof -
  have "(bindE (expect (as_obj (if truthy b then b else JObj [])) (PyExn AttributeError))
      (\<lambda>d. require (dict_get_none d (str ''credential_id'') = JStr (cred_id c)) e) = Inr u) \<longleftrightarrow>
    (\<exists>d. b = JObj d \<and> dict_get d (str ''credential_id'') = Some (JStr (cred_id c)))" for b e u
    by (cases b) (auto simp: guard_simps dict_get_none_def split: option.splits)
  then show ?thesis by (auto simp: guard_simps belongs_to_def Let_def)
qed

lemma cross_check_records_iff:
  "length vs = length cs \<Longrightarrow> cross_check_records i vs cs = Inr u \<longleftrightarrow>
     (\<exists>ds. vs = map JObj ds \<and> (\<forall>j < length ds. belongs_to (i + j) (ds ! j) (cs ! j)))"
proof (induction vs cs arbitrary: i rule: list_induct2)
  case (Cons v vs c cs)
  have "(\<exists>ds. v # vs = map JObj ds \<and> P ds) \<longleftrightarrow> (\<exists>r rs. v = JObj r \<and> vs = map JObj rs \<and> P (r # rs))" for P
    by (force simp: Cons_eq_map_conv)
  with Cons show ?case unfolding cross_check_records_step by (auto simp: All_less_Suc2)
qed simp

lemma cross_check_trace_dag_iff:
  "cross_check_trace_dag vs chain = Inr u \<longleftrightarrow>
     (\<exists>ds. vs = map JObj ds \<and> length ds = length chain \<and> (\<forall>i < length ds. belongs_to i (ds ! i) (chain ! i)))"
proof (cases "length vs = length chain")
  case True
  with cross_check_records_iff [OF True, of 0] show ?thesis by (auto simp: cross_check_trace_dag_def)
qed (auto simp: cross_check_trace_dag_def)

section \<open>A concrete tooling\<close>

definition sample_jwk :: "bytes \<Rightarrow> json" where
  "sample_jwk k = JObj [(str ''kty'', JStr (str ''OKP'')), (str ''crv'', JStr (str ''Ed25519'')), (str ''x'', JStr (b64url_encode (pad32 k)))]"

definition sample_trace :: trace_lib where
  "sample_trace = \<lparr>
     validate_json = (\<lambda>r. if has_key r (str ''eat_profile'') then Inr () else Inl (PyExn ValueError)),
     verify_record = (\<lambda>now r jwk age. if has_key r (str ''signature'') then Inr () else Inl (PyExn InvalidSignature)),
     sign_record = (\<lambda>r k. Inr (dict_set (str ''signature'') (JStr (hex k)) (dict_set (str ''cnf'') (JObj [(str ''jwk'', sample_jwk k)]) r))),
     rfc_dumps = (\<lambda>d. canonicalize (JObj d))\<rparr>"

lemma sample_trace_simps [simp]:
  "validate_json sample_trace r = (if has_key r (str ''eat_profile'') then Inr () else Inl (PyExn ValueError))"
  "verify_record sample_trace now r jwk age = (if has_key r (str ''signature'') then Inr () else Inl (PyExn InvalidSignature))"
  "sign_record sample_trace r k = Inr (dict_set (str ''signature'') (JStr (hex k)) (dict_set (str ''cnf'') (JObj [(str ''jwk'', sample_jwk k)]) r))"
  "rfc_dumps sample_trace d = canonicalize (JObj d)"
  by (simp_all add: sample_trace_def)

lemma sample_canonical: "rfc8785_canonical sample_trace"
  unfolding rfc8785_canonical_def jvalue_def sample_trace_simps by (metis canonicalize_norm)

lemma sample_sign: "trace_sign_correct sample_lib sample_trace"
proof -
  have "is_jwk_of (ed_public sample_lib k) (sample_jwk k)" for k
    by (simp add: is_jwk_of_def sample_jwk_def sample_lib_def)
  moreover have "json_wf (JObj [(str ''jwk'', sample_jwk k)])" "json_wf (JStr s)" for k s by (simp_all add: sample_jwk_def)
  ultimately show ?thesis
    unfolding trace_sign_correct_def by (auto simp: has_key_def simp del: json_wf.simps intro!: json_wf_set)
qed

definition sample_context :: hop_context where
  "sample_context = \<lparr>hc_model_provider = str ''p'', hc_model_id = str ''m'', hc_runtime_measurement = str ''sha256:0'',
     hc_policy_bundle_hash = str ''sha256:1'', hc_build_digest = str ''sha256:2'', hc_appraisal_verifier = str ''https://a.invalid'',
     hc_transparency = str ''https://t.invalid'', hc_runtime_platform = SOFTWARE_PLATFORM, hc_enforcement_mode = str ''enforce'',
     hc_data_class = str ''confidential'', hc_slsa_level = 0, hc_appraisal_status = str ''none'', hc_runtime_nonce = None,
     hc_model_version = None, hc_policy_version = None\<rparr>"

definition sample_hop :: "byte \<Rightarrow> string \<Rightarrow> hop_spec" where
  "sample_hop k c = \<lparr>hs_subject = str ''did:example:a'', hs_signing_key = [k], hs_context = sample_context, hs_iat = 100,
     hs_credential_id = str c\<rparr>"

lemma base_record_get [simp]: "dict_get (base_record d) k = (if k = str ''delegation'' then None else dict_get d k)"
  by (induction d) (auto simp: base_record_def)

lemma encodable_b64url: "list_all encodable (b64url_encode b)"
proof -
  have small: "list_all (\<lambda>x. x < 256) (map unat b)" by (simp add: list_all_iff)
  show ?thesis using b64_groups_small [OF small] by (auto simp: b64url_encode_def list_all_iff b64_any_char intro: encodable_ascii)
qed

text \<open>Each emitted record of the sample canonicalizes, so emission goes through.\<close>

lemma sample_emit_hop:
  assumes "\<And>h. prev = Some h \<Longrightarrow> list_all encodable h" and "i = 0 \<longleftrightarrow> prev = None"
  shows "\<exists>s h. list_all encodable h \<and> (\<forall>hops. emit_hops sample_trace i prev (sample_hop k c # hops) =
     bindE (emit_hops sample_trace (Suc i) (Some h) hops) (\<lambda>rs. Inr (s # rs))) \<and> has_key (base_record s) (str ''eat_profile'')"
proof -
  define cid where "cid = (if i = 0 then None else Some (str c))"
  obtain r where r: "build_trace_record (str ''did:example:a'') 100 sample_context cid prev = Inr r"
    and ok: "json_ok (JObj r)" and key: "has_key (base_record r) (str ''eat_profile'')"
    using assms by (cases prev)
      (auto simp: build_trace_record_def cid_def sample_context_def opt_field_def EAT_PROFILE_def SOFTWARE_PLATFORM_def
        MAX_SAFE_INTEGER_def has_key_def)
  let ?s = "dict_set (str ''signature'') (JStr (hex [k])) (dict_set (str ''cnf'') (JObj [(str ''jwk'', sample_jwk [k])]) r)"
  have "json_ok (JObj ?s)"
    by (intro json_ok_set ok) (simp_all add: sample_jwk_def encodable_b64url)
  then obtain b where b: "canonicalize (JObj ?s) = Inr b" using canonicalize_ok by blast
  have "has_key (base_record ?s) (str ''eat_profile'')" using key by (simp add: has_key_def)
  moreover have "list_all encodable (LINK_DIGEST @ str '':'' @ sha256_hex b)" by (simp add: LINK_DIGEST_def sha256_hex_def)
  moreover have "emit_hops sample_trace i prev (sample_hop k c # hops) =
     bindE (emit_hops sample_trace (Suc i) (Some (LINK_DIGEST @ str '':'' @ sha256_hex b)) hops) (\<lambda>rs. Inr (?s # rs))" for hops
    using r b by (cases "i = 0") (simp_all add: sample_hop_def cid_def sign_trace_record_def trace_record_hash_def)
  ultimately show ?thesis by blast
qed

lemma sample_emit:
  "\<exists>s t. emit_dag sample_trace [sample_hop 2 []] = Inr [s] \<and> emit_dag sample_trace [sample_hop 2 [], sample_hop 3 ''leaf''] = Inr [s, t] \<and>
     has_key (base_record s) (str ''eat_profile'') \<and> has_key (base_record t) (str ''eat_profile'')"
proof -
  obtain s h where s: "list_all encodable h" "has_key (base_record s) (str ''eat_profile'')"
    "\<And>hops. emit_hops sample_trace 0 None (sample_hop 2 [] # hops) = bindE (emit_hops sample_trace (Suc 0) (Some h) hops) (\<lambda>rs. Inr (s # rs))"
    using sample_emit_hop [of None 0 2 "[]"] by auto
  obtain t where "has_key (base_record t) (str ''eat_profile'')" "emit_hops sample_trace (Suc 0) (Some h) [sample_hop 3 ''leaf''] = Inr [t]"
    using sample_emit_hop [of "Some h" "Suc 0" 3 "''leaf''"] s(1) by (auto simp del: emit_hops.simps(2))
  with s(2,3) show ?thesis by (auto simp: emit_dag_def simp del: emit_hops.simps(2))
qed

section \<open>Properties\<close>

text \<open>
  C15: The offline verifier accepts exactly the TRACE chains in which every record is valid on its
  own and signed by a trusted key, the first has no delegation block, each later one names the
  recomputed hash of the full signed record before it, and no hash repeats; and its summary
  counts the records and lists their subjects.
\<close>

theorem verify_trace_dag_correct:
  "verify_trace_dag T clock keys max_age vs = Inr res \<longleftrightarrow>
     (\<exists>trusted ds. trusted_raw_keys keys = Inr trusted \<and> vs = map JObj ds \<and>
        trace_dag_valid T clock trusted max_age ds \<and> res = dag_summary ds)"
  by (rule verify_trace_dag_iff)

text \<open>
  C33: A verified TRACE chain is tamper evident: two chains of dicts that verify and whose last
  records are the same document consist of the same documents, signatures included, unless two
  of their records are a SHA-256 collision.
\<close>

theorem trace_dag_tamper_evident:
  assumes "rfc8785_canonical T"
    and "verify_trace_dag T clock keys max_age (map JObj ds) = Inr r" and "verify_trace_dag T clock' keys' max_age' (map JObj es) = Inr s"
    and "list_all (\<lambda>d. json_wf (JObj d)) ds" and "list_all (\<lambda>d. json_wf (JObj d)) es"
    and "jvalue (last ds) = jvalue (last es)"
  shows "map jvalue ds = map jvalue es \<or> colliding (rfc_dumps T) ds es"
proof -
  have "linked_by (trace_record_hash T) (\<lambda>d. value_parent (jvalue d)) ds" "linked_by (trace_record_hash T) (\<lambda>d. value_parent (jvalue d)) es"
    using assms(2,3) linked_jvalue [OF assms(4)] linked_jvalue [OF assms(5)] by (auto simp: verify_trace_dag_iff trace_dag_valid_def)
  from hash_chain.last_determines [OF trace_hash_chain [OF assms(1)] this assms(6)] show ?thesis .
qed

text \<open>
  C32: What the emitter produces verifies. The records \<open>emit_dag\<close> signs for a non-empty list of
  hops, each later hop under a named credential, pass the offline verifier for any set of keys
  that includes the hops' public keys, and the summary lists the hops' subjects in order, unless
  two of the records collide under SHA-256.
\<close>

theorem emitted_dag_verifies:
  assumes "rfc8785_canonical T" and "trace_sign_correct L T" and "emit_dag T hops = Inr ds" and "hops \<noteq> []"
    and "list_all (\<lambda>hop. hs_credential_id hop \<noteq> []) (tl hops)"
    and "list_all (\<lambda>d. validate_json T (base_record d) = Inr ()) ds"
    and "trusted_raw_keys keys = Inr trusted" and "(\<lambda>hop. ed_public L (hs_signing_key hop)) ` set hops \<subseteq> trusted"
  shows "(\<exists>r. verify_trace_dag T clock keys None (map JObj ds) = Inr r \<and> td_hops r = length hops \<and>
       td_subjects r = map (\<lambda>hop. JStr (hs_subject hop)) hops) \<or> colliding (rfc_dumps T) ds ds"
proof -
  from emit_dag_valid [OF assms(1-6,8), of clock] show ?thesis
  proof
    assume v: "trace_dag_valid T clock trusted None ds \<and> subjects_of ds = map (\<lambda>hop. JStr (hs_subject hop)) hops"
    moreover from v have "length ds = length hops" by (metis length_map subjects_of_def)
    ultimately show ?thesis using assms(7) by (auto simp: verify_trace_dag_iff dag_summary_def)
  qed simp
qed

theorem emitted_dag_verifies_witness:
  "\<exists>ds. emit_dag sample_trace [sample_hop 2 [], sample_hop 3 ''leaf''] = Inr ds \<and>
     ((\<exists>r. verify_trace_dag sample_trace (\<lambda>_. 0) [RawKey (pad32 [2]), RawKey (pad32 [3])] None (map JObj ds) = Inr r \<and> td_hops r = 2) \<or>
      colliding (rfc_dumps sample_trace) ds ds)"
proof -
  obtain s t where e: "emit_dag sample_trace [sample_hop 2 [], sample_hop 3 ''leaf''] = Inr [s, t]"
    and k: "has_key (base_record s) (str ''eat_profile'')" "has_key (base_record t) (str ''eat_profile'')"
    using sample_emit by blast
  have "trusted_raw_keys [RawKey (pad32 [2]), RawKey (pad32 [3])] = Inr {pad32 [2], pad32 [3]}" by (simp add: trusted_raw_keys_def)
  from emitted_dag_verifies [OF sample_canonical sample_sign e _ _ _ this, of "\<lambda>_. 0"] e k show ?thesis
    by (auto simp: sample_hop_def sample_lib_def)
qed

text \<open>
  The audit is sound. When the delegation chain verifies, the TRACE records verify and the
  cross-check passes, there is one record per credential; the record at each position was signed
  by the trusted key that is the subject of the credential there, each later record names that
  credential, and the key that signed a record issued the credential of the next hop.
\<close>

theorem trace_audit_sound:
  assumes "verify_chain L args chain = Inr st" and "verify_trace_dag T clock keys max_age vs = Inr res"
    and "cross_check_trace_dag vs chain = Inr ()"
  shows "\<exists>trusted ds raws. trusted_raw_keys keys = Inr trusted \<and> vs = map JObj ds \<and> length ds = length chain \<and>
    (\<forall>i < length chain. raws ! i \<in> trusted \<and> cred_subject (chain ! i) = hex (raws ! i) \<and> belongs_to i (ds ! i) (chain ! i) \<and>
       (\<exists>jwk. embedded_jwk (ds ! i) = Inr jwk \<and> jwk_raw jwk = Inr (raws ! i) \<and> verify_record T (clock i) (ds ! i) jwk max_age = Inr ()) \<and>
       (Suc i < length chain \<longrightarrow> cred_issuer (chain ! Suc i) = hex (raws ! i)))"
proof -
  obtain trusted ds where t: "trusted_raw_keys keys = Inr trusted" "vs = map JObj ds" "trace_dag_valid T clock trusted max_age ds"
    using assms(2) by (auto simp: verify_trace_dag_iff)
  with assms(3) have len: "length ds = length chain" and b: "\<And>i. i < length ds \<Longrightarrow> belongs_to i (ds ! i) (chain ! i)"
    by (auto simp: cross_check_trace_dag_iff)
  define key where "key i = the (fromhex (cred_subject (chain ! i)))" for i
  have ok: "\<exists>jwk. embedded_jwk (ds ! i) = Inr jwk \<and> jwk_raw jwk = Inr (key i) \<and> key i \<in> trusted \<and>
      verify_record T (clock i) (ds ! i) jwk max_age = Inr () \<and> cred_subject (chain ! i) = hex (key i)" if "i < length ds" for i
  proof -
    from t(3) that have "record_authentic T (clock i) trusted max_age (ds ! i)" by (simp add: trace_dag_valid_def)
    then obtain jwk raw where r: "embedded_jwk (ds ! i) = Inr jwk" "jwk_raw jwk = Inr raw" "raw \<in> trusted"
      "verify_record T (clock i) (ds ! i) jwk max_age = Inr ()" by (auto simp: record_authentic_def)
    with b [OF that] have s: "cred_subject (chain ! i) = hex raw" by (auto simp: belongs_to_def)
    then have "key i = raw" by (simp add: key_def)
    with r s show ?thesis by blast
  qed
  have "cred_issuer (chain ! Suc i) = hex (key i)" if "Suc i < length chain" for i
    using chain_valid_link [of L _ _ _ chain i] assms(1) that ok [of i] len
    by (auto simp: verify_chain_Inr_iff delegates_def)
  with t len b ok show ?thesis by (intro exI [of _ trusted] exI [of _ ds] exI [of _ "map key [0..<length ds]"]) fastforce
qed

lemma sample_single_dag:
  "\<exists>s. json_wf (JObj s) \<and> belongs_to 0 s sample_root \<and>
     (\<exists>r. verify_trace_dag sample_trace (\<lambda>_. 0) [RawKey (pad32 [2])] None [JObj s] = Inr r)"
proof -
  obtain s where e: "emit_dag sample_trace [sample_hop 2 []] = Inr [s]" and k: "has_key (base_record s) (str ''eat_profile'')"
    using sample_emit by blast
  obtain hs where hs: "traverseE (trace_record_hash sample_trace) [s] = Inr hs" "length hs = 1" "emitted sample_lib sample_trace None (sample_hop 2 []) s"
    using emit_hops_spec [OF sample_sign e [unfolded emit_dag_def]] by (auto simp del: traverseE.simps)
  have "record_authentic sample_trace 0 {pad32 [2]} None s"
    using hs(3) k by (auto simp: emitted_def sample_hop_def sample_lib_def)
  with hs have "trace_dag_valid sample_trace (\<lambda>_. 0) {pad32 [2]} None [s]"
    by (auto simp: trace_dag_valid_def emitted_def linked_by_def length_Suc_conv simp del: traverseE.simps)
  moreover have "belongs_to 0 s sample_root"
    using \<open>record_authentic _ _ _ _ s\<close> by (auto simp: record_authentic_def belongs_to_def sample_key_def sample_lib_def)
  moreover have "json_wf (JObj s)" using hs(3) by (simp add: emitted_def)
  ultimately show ?thesis unfolding verify_trace_dag_iff
    by (intro exI [of _ s] conjI exI [of _ "dag_summary [s]"] exI [of _ "{pad32 [2]}"] exI [of _ "[s]"]) (simp_all add: trusted_raw_keys_def)
qed

theorem trace_dag_tamper_evident_witness:
  "\<exists>s r. verify_trace_dag sample_trace (\<lambda>_. 0) [RawKey (pad32 [2])] None (map JObj [s]) = Inr r \<and>
     (map jvalue [s] = map jvalue [s] \<or> colliding (rfc_dumps sample_trace) [s] [s])"
proof -
  obtain s r where s: "json_wf (JObj s)" and v: "verify_trace_dag sample_trace (\<lambda>_. 0) [RawKey (pad32 [2])] None (map JObj [s]) = Inr r"
    using sample_single_dag by auto
  from trace_dag_tamper_evident [OF sample_canonical v v] s v show ?thesis by fastforce
qed

theorem trace_audit_sound_witness:
  "\<exists>s res raws. verify_trace_dag sample_trace (\<lambda>_. 0) [RawKey (pad32 [2])] None [JObj s] = Inr res \<and>
     cross_check_trace_dag [JObj s] [sample_root] = Inr () \<and> cred_subject sample_root = hex (raws ! 0)"
proof -
  obtain s r where s: "belongs_to 0 s sample_root" and v: "verify_trace_dag sample_trace (\<lambda>_. 0) [RawKey (pad32 [2])] None [JObj s] = Inr r"
    using sample_single_dag by blast
  have c: "cross_check_trace_dag [JObj s] [sample_root] = Inr ()"
    unfolding cross_check_trace_dag_iff using s by (intro exI [of _ "[s]"]) simp
  have "chain_valid sample_lib 8 {sample_key 1} 100 (take 1 [sample_root, sample_leaf])"
    by (rule chain_valid_prefix [OF sample_chain_valid]) simp
  then have "verify_chain sample_lib sample_args [sample_root] = Inr REVOCATION_NOT_CHECKED"
    by (simp add: verify_chain_Inr_iff sample_args_def args_ok_def eval_time_def revocation_ok_def)
  from trace_audit_sound [OF this v c] v c show ?thesis by auto
qed

end
