(* ===== verification/Agent_Manifest.thy ===== *)
theory Agent_Manifest
  imports Config Trace
begin

text \<open>
  Loading an Agent Manifest and its trust anchor and binding the identity it names to the configured
  subject, \<open>ca2a_runtime/agent_manifest.py\<close>. The package \<open>agent_manifest\<close> is a record of functions:
  its COSE decoder, the version its COSE manifests declare and its verifier, applied to the envelope
  or to the bare manifest under the trusted keys, with no artifact check and an empty revocation
  store. \<open>json.loads\<close> on a bytes object, which detects the encoding first, is an argument too.
\<close>

section \<open>Documents\<close>

record loaded_agent_manifest =
  lm_manifest :: jdict
  lm_envelope :: "bytes option"

record agent_manifest_binding =
  mb_manifest_id :: ustr
  mb_agent_id :: ustr
  mb_issuer :: ustr
  mb_authenticated_subject :: ustr
  mb_version :: ustr
  mb_verification_scope :: ustr

text \<open>The outcome of \<open>verify_manifest\<close>: whether the overall result is VALID, its text, the flag and the warnings.\<close>

record manifest_verdict =
  mv_valid :: bool
  mv_result :: ustr
  mv_signature_verified :: bool
  mv_warnings :: "ustr list"

record manifest_sdk =
  ms_decode_cose :: "bytes \<Rightarrow> json option"
  ms_cose_version :: ustr
  ms_verify :: "bytes + jdict \<Rightarrow> (ustr \<times> ustr) list \<Rightarrow> manifest_verdict res"

text \<open>\<open>json.loads(raw)\<close>: a value, one of the two errors of decoding, or another exception.\<close>

datatype loaded = Loaded json | Decode_error | Escapes exn

definition manifest_b64url_decode :: "ustr \<Rightarrow> bytes res" where
  "manifest_b64url_decode value =
     bindE (require (list_all (\<lambda>c. b64_val c \<noteq> None) value)
       (config_error (str ''Agent Manifest signature/key must use base64url encoding''))) (\<lambda>_.
     expect (jwk_b64url_decode value) (config_error (str ''Agent Manifest signature/key is not valid base64url'')))"

definition key_id :: "bytes \<Rightarrow> ustr" where
  "key_id public_key = hex (sha256 public_key)"

definition load_agent_manifest_document :: "manifest_sdk \<Rightarrow> (bytes \<Rightarrow> loaded) \<Rightarrow> file_read \<Rightarrow> loaded_agent_manifest res" where
  "load_agent_manifest_document M loads file =
     (case file of
        Contents raw \<Rightarrow>
          (case loads raw of
             Escapes e \<Rightarrow> Inl e
           | Decode_error \<Rightarrow>
               bindE (expect (ms_decode_cose M raw)
                 (config_error (str ''cannot read Agent Manifest: not JSON and not a COSE envelope''))) (\<lambda>decoded.
               bindE (expect (as_obj decoded) (config_error (str ''Agent Manifest COSE payload must be a JSON object''))) (\<lambda>m.
               Inr \<lparr>lm_manifest = m, lm_envelope = Some raw\<rparr>))
           | Loaded v \<Rightarrow>
               bindE (expect (as_obj v) (config_error (str ''Agent Manifest must be a JSON object''))) (\<lambda>m.
               bindE (require (\<not> (dict_get_none m (str ''version'') = JStr (ms_cose_version M) \<and> str ''signature'' \<notin> dict_keys m))
                 (config_error (str ''Agent Manifest declares version '' @ ms_cose_version M
                    @ str '' but was supplied as bare JSON; v0.2 requires the COSE envelope''))) (\<lambda>_.
               Inr \<lparr>lm_manifest = m, lm_envelope = None\<rparr>)))
      | _ \<Rightarrow> Inl (config_error (str ''cannot read Agent Manifest'')))"

section \<open>The trust anchor\<close>

text \<open>\<open>read_text\<close> raises \<open>UnicodeDecodeError\<close>, which the handler does not name, on bytes that are not UTF-8.\<close>

definition read_anchor :: "lib \<Rightarrow> (ustr \<Rightarrow> bool) \<Rightarrow> file_read \<Rightarrow> json res" where
  "read_anchor L is_decode_error file =
     (case file of
        Contents raw \<Rightarrow>
          bindE (expect (utf8_decode raw) (PyExn ValueError)) (\<lambda>decoded.
          let s = universal_newlines decoded in
          expect (json_loads L default_hook s)
            (if is_decode_error s then config_error (str ''cannot read Agent Manifest trust anchor'') else PyExn ValueError))
      | _ \<Rightarrow> Inl (config_error (str ''cannot read Agent Manifest trust anchor'')))"

definition anchor_items :: "json \<Rightarrow> json list res" where
  "anchor_items raw =
     expect (case as_obj raw of
         None \<Rightarrow> None
       | Some d \<Rightarrow> if str ''public_key_base64url'' \<in> dict_keys d then Some [raw] else as_list (dict_get_none d (str ''keys'')))
       (config_error (str ''Agent Manifest trust anchor must contain public_key_base64url or keys[]''))"

definition anchor_key :: "lib \<Rightarrow> json \<Rightarrow> (ustr \<times> bytes) res" where
  "anchor_key L item =
     bindE (expect (as_obj item) (config_error (str ''Agent Manifest trust anchor keys must be objects''))) (\<lambda>d.
     bindE (manifest_b64url_decode (py_str L (dict_get_or d ''public_key_base64url'' (JStr [])))) (\<lambda>public_key.
     bindE (require (length public_key = 32) (config_error (str ''Agent Manifest trust anchor contains an invalid Ed25519 key''))) (\<lambda>_.
     let named = dict_get_none d (str ''key_id'');
         kid = (if truthy named then py_str L named else key_id public_key) in
     bindE (require (kid = key_id public_key)
       (config_error (str ''Agent Manifest trust anchor key_id does not match public key''))) (\<lambda>_.
     Inr (kid, public_key)))))"

fun collect_anchors :: "lib \<Rightarrow> json list \<Rightarrow> (ustr \<times> bytes) list \<Rightarrow> (ustr \<times> bytes) list res" where
  "collect_anchors L [] anchors = Inr anchors"
| "collect_anchors L (item # items) anchors =
     bindE (anchor_key L item) (\<lambda>(kid, public_key). collect_anchors L items (AList.update kid public_key anchors))"

definition load_agent_manifest_trust_anchor :: "lib \<Rightarrow> (ustr \<Rightarrow> bool) \<Rightarrow> file_read \<Rightarrow> (ustr \<times> bytes) list res" where
  "load_agent_manifest_trust_anchor L is_decode_error file =
     bindE (read_anchor L is_decode_error file) (\<lambda>raw.
     bindE (anchor_items raw) (\<lambda>items. collect_anchors L items []))"

section \<open>The binding\<close>

definition spiffe_field :: "jdict \<Rightarrow> string \<Rightarrow> ustr res" where
  "spiffe_field m name =
     bindE (expect (as_str (dict_get_none m (str name))) (config_error (str ''Agent Manifest '' @ str name @ str '' must be a SPIFFE URI''))) (\<lambda>s.
     bindE (require (is_spiffe s) (config_error (str ''Agent Manifest '' @ str name @ str '' must be a SPIFFE URI''))) (\<lambda>_. Inr s))"

definition present_field :: "jdict \<Rightarrow> string \<Rightarrow> ustr res" where
  "present_field m name =
     expect (nonempty_str (dict_get_none m (str name))) (config_error (str ''Agent Manifest '' @ str name @ str '' is missing''))"

definition sdk_keys :: "(ustr \<times> bytes) list \<Rightarrow> (ustr \<times> ustr) list" where
  "sdk_keys trusted_keys = map (\<lambda>(kid, key). (kid, b64url_encode key)) trusted_keys"

definition artifact :: "loaded_agent_manifest \<Rightarrow> bytes + jdict" where
  "artifact m = (case lm_envelope m of Some raw \<Rightarrow> Inl raw | None \<Rightarrow> Inr (lm_manifest m))"

definition verify_agent_manifest_binding ::
  "manifest_sdk \<Rightarrow> loaded_agent_manifest \<Rightarrow> (ustr \<times> bytes) list \<Rightarrow> ustr \<Rightarrow> agent_manifest_binding res" where
  "verify_agent_manifest_binding M doc trusted_keys authenticated_subject =
     bindE (ms_verify M (artifact doc) (sdk_keys trusted_keys)) (\<lambda>verdict.
     bindE (require (mv_valid verdict)
       (config_error (str ''Agent Manifest verification failed ('' @ mv_result verdict @ str '')''
          @ (if join (str ''; '') (mv_warnings verdict) = [] then [] else str '': '' @ join (str ''; '') (mv_warnings verdict))))) (\<lambda>_.
     bindE (require (mv_signature_verified verdict) (config_error (str ''Agent Manifest signature verification failed''))) (\<lambda>_.
     let m = lm_manifest doc in
     bindE (present_field m ''manifest_id'') (\<lambda>manifest_id.
     bindE (spiffe_field m ''agent_id'') (\<lambda>agent_id.
     bindE (spiffe_field m ''issuer'') (\<lambda>issuer.
     bindE (present_field m ''version'') (\<lambda>version.
     bindE (require (is_spiffe authenticated_subject)
       (config_error (str ''Agent Manifest authenticated_subject must be a SPIFFE URI''))) (\<lambda>_.
     bindE (require (authenticated_subject = agent_id)
       (config_error (str ''Agent Manifest agent_id does not match authenticated_subject''))) (\<lambda>_.
     Inr \<lparr>mb_manifest_id = manifest_id, mb_agent_id = agent_id, mb_issuer = issuer,
          mb_authenticated_subject = authenticated_subject, mb_version = version,
          mb_verification_scope = str ''signature-and-identity''\<rparr>)))))))))"

section \<open>Lemmas\<close>

text \<open>The decoder of anchor keys inverts the encoder the keys are handed to the verifier with.\<close>

definition manifest_key_bytes :: "ustr \<Rightarrow> bytes option" where
  "manifest_key_bytes s = (case manifest_b64url_decode s of Inr b \<Rightarrow> Some b | Inl _ \<Rightarrow> None)"

lemma manifest_b64url_decode_encode: "manifest_b64url_decode (b64url_encode b) = Inr b"
proof -
  have "list_all (\<lambda>x. x < 256) (map unat b)" by (simp add: list_all_iff)
  from b64_groups_small [OF this] have "list_all (\<lambda>c. b64_val c \<noteq> None) (b64url_encode b)"
    by (auto simp: b64url_encode_def list_all_iff b64_val_char)
  then show ?thesis by (simp add: manifest_b64url_decode_def jwk_codec.dec_enc)
qed

interpretation manifest_codec: byte_codec b64url_encode manifest_key_bytes "\<lambda>_. True"
  by unfold_locales (simp add: manifest_key_bytes_def manifest_b64url_decode_encode)

text \<open>Two trusted keys are never handed over under one text.\<close>

lemma sdk_keys_inj: "sdk_keys xs = sdk_keys ys \<Longrightarrow> xs = ys"
  unfolding sdk_keys_def by (rule map_inj_on [where f = "\<lambda>(kid, key). (kid, b64url_encode key)"])
    (auto intro!: inj_onI dest: manifest_codec.enc_inj [OF TrueI TrueI])

text \<open>The anchors of a file: every entry is an Ed25519 key under the digest of its bytes, once.\<close>

definition anchors_wf :: "(ustr \<times> bytes) list \<Rightarrow> bool" where
  "anchors_wf anchors \<longleftrightarrow> distinct (map fst anchors) \<and> list_all (\<lambda>(kid, key). length key = 32 \<and> kid = key_id key) anchors"

lemma anchor_key_Inr: "anchor_key L item = Inr (kid, key) \<Longrightarrow> length key = 32 \<and> kid = key_id key"
  by (auto simp: anchor_key_def guard_simps Let_def)

lemma anchors_wf_update:
  assumes "anchors_wf anchors" and "length key = 32"
  shows "anchors_wf (AList.update (key_id key) key anchors)"
proof -
  have "set (AList.update k v xs) \<subseteq> insert (k, v) (set xs)" for k :: ustr and v :: bytes and xs by (induction xs) auto
  with assms show ?thesis by (fastforce simp: anchors_wf_def distinct_update list_all_iff)
qed

lemma collect_anchors_wf: "collect_anchors L items anchors = Inr r \<Longrightarrow> anchors_wf anchors \<Longrightarrow> anchors_wf r"
  by (induction items arbitrary: anchors) (auto simp: guard_simps dest!: anchor_key_Inr intro: anchors_wf_update)

lemma trust_anchor_wf: "load_agent_manifest_trust_anchor L d file = Inr anchors \<Longrightarrow> anchors_wf anchors"
  by (auto simp: load_agent_manifest_trust_anchor_def guard_simps anchors_wf_def dest!: collect_anchors_wf)

lemma binding_Inr_iff:
  "verify_agent_manifest_binding M doc keys subject = Inr b \<longleftrightarrow>
     (\<exists>v. ms_verify M (artifact doc) (sdk_keys keys) = Inr v \<and> mv_valid v \<and> mv_signature_verified v) \<and>
     dict_get_none (lm_manifest doc) (str ''agent_id'') = JStr subject \<and> is_spiffe subject \<and>
     present_field (lm_manifest doc) ''manifest_id'' = Inr (mb_manifest_id b) \<and>
     spiffe_field (lm_manifest doc) ''issuer'' = Inr (mb_issuer b) \<and>
     present_field (lm_manifest doc) ''version'' = Inr (mb_version b) \<and>
     mb_agent_id b = subject \<and> mb_authenticated_subject b = subject \<and> mb_verification_scope b = str ''signature-and-identity''"
  by (cases b) (auto simp: verify_agent_manifest_binding_def spiffe_field_def guard_simps Let_def)

end
