(* ===== verification/Wire.thy ===== *)
theory Wire
  imports B64url Peer
begin

text \<open>
  The wire forms of \<open>ca2a_runtime/transport/wire.py\<close>: results, errors and channel offers, with the
  parser of an offer. A value of another JSON type that the parser would reach through
  \<open>in\<close>, indexing or \<open>.get\<close> ends in one of the exceptions it turns into \<open>TransportError\<close>.
\<close>

definition record_to_dict :: "delegation_record \<Rightarrow> jdict res" where
  "record_to_dict r =
     bindE (record_hash r) (\<lambda>h. Inr (dict_set (str ''record_hash'') (JStr h) (rec_body r)))"

definition serialize_peer_result :: "peer_result \<Rightarrow> jdict res" where
  "serialize_peer_result result =
     bindE (record_to_dict (res_record result)) (\<lambda>r.
     Inr [(str ''accepted'', JBool True),
          (str ''effective_scope'', str_list (res_effective result)),
          (str ''granted_capability'', JStr (res_granted result)),
          (str ''caller_attestation'', JStr (res_caller_attestation result)),
          (str ''record'', JObj r)])"

text \<open>The free-text \<open>detail\<close> of the error is an argument.\<close>

definition serialize_error :: "err_class \<Rightarrow> ustr \<Rightarrow> json \<Rightarrow> jdict" where
  "serialize_error c message detail =
     [(str ''error'', JObj
        [(str ''code'', JStr (str (err_code c))), (str ''message'', JStr message),
         (str ''detail'', detail), (str ''http_status'', JInt (http_status c))])]"

definition EVIDENCE_FIELDS :: "ustr list" where
  "EVIDENCE_FIELDS =
     [str ''raw_evidence'', str ''quote_signature'', str ''attestation_key_pem'', str ''attestation_key_chain_pem'']"

definition evidence_of :: "attestation_report \<Rightarrow> bytes option list" where
  "evidence_of r = [ar_raw_evidence r, ar_quote_signature r, ar_key_pem r, ar_key_chain_pem r]"

definition evidence_item :: "ustr \<Rightarrow> bytes option \<Rightarrow> jdict" where
  "evidence_item field v = (case v of None \<Rightarrow> [] | Some b \<Rightarrow> [(field, JStr (b64url_encode b))])"

definition serialize_report :: "attestation_report \<Rightarrow> jdict" where
  "serialize_report r =
     [(str ''platform'', JStr (ar_platform r)), (str ''measurement'', JStr (ar_measurement r)),
      (str ''public_key'', JStr (ar_public_key r)), (str ''nonce'', JStr (ar_nonce r))]
     @ (if ar_role r \<noteq> ROLE_CALLEE then [(str ''role'', JStr (ar_role r))] else [])
     @ evidence_item (str ''raw_evidence'') (ar_raw_evidence r)
     @ evidence_item (str ''quote_signature'') (ar_quote_signature r)
     @ evidence_item (str ''attestation_key_pem'') (ar_key_pem r)
     @ evidence_item (str ''attestation_key_chain_pem'') (ar_key_chain_pem r)"

definition serialize_channel_offer :: "channel_offer \<Rightarrow> ustr option \<Rightarrow> jdict" where
  "serialize_channel_offer offer challenge =
     [(str ''channel_public_key'', JStr (co_public_key offer)),
      (str ''attestation'', JObj (serialize_report (co_report offer)))]
     @ (case challenge of None \<Rightarrow> [] | Some c \<Rightarrow> [(str ''challenge'', JStr c)])"

abbreviation malformed_offer :: exn where
  "malformed_offer \<equiv> Ca2a TransportError (str ''malformed channel offer'') None"

text \<open>One evidence field: decoded when the key is present.\<close>

definition parse_evidence :: "jdict \<Rightarrow> ustr \<Rightarrow> bytes option res" where
  "parse_evidence att field =
     (case dict_get att field of None \<Rightarrow> Inr None | Some v \<Rightarrow> bindE (b64url_decode field v) (\<lambda>b. Inr (Some b)))"

definition parse_role :: "jdict \<Rightarrow> ustr option" where
  "parse_role att =
     (case dict_get att (str ''role'') of
        None \<Rightarrow> Some ROLE_CALLEE
      | Some v \<Rightarrow> (case as_str v of None \<Rightarrow> None | Some r \<Rightarrow> if r \<in> ROLES then Some r else None))"

definition parse_channel_offer :: "lib \<Rightarrow> json \<Rightarrow> channel_offer res" where
  "parse_channel_offer L v =
     bindE (expect (as_obj v) malformed_offer) (\<lambda>data.
     bindE (expect (dict_get data (str ''channel_public_key'')) malformed_offer) (\<lambda>public_key.
     bindE (expect (dict_get data (str ''attestation'')) malformed_offer) (\<lambda>att.
     bindE (expect (as_obj att) malformed_offer) (\<lambda>att.
     bindE (parse_evidence att (str ''raw_evidence'')) (\<lambda>raw.
     bindE (parse_evidence att (str ''quote_signature'')) (\<lambda>sig.
     bindE (parse_evidence att (str ''attestation_key_pem'')) (\<lambda>pem.
     bindE (parse_evidence att (str ''attestation_key_chain_pem'')) (\<lambda>chain_pem.
     bindE (expect (parse_role att) malformed_offer) (\<lambda>role.
     bindE (expect (dict_get att (str ''platform'')) malformed_offer) (\<lambda>platform.
     bindE (expect (dict_get att (str ''measurement'')) malformed_offer) (\<lambda>measurement.
     bindE (expect (dict_get att (str ''public_key'')) malformed_offer) (\<lambda>key.
     bindE (expect (dict_get att (str ''nonce'')) malformed_offer) (\<lambda>nonce.
     Inr \<lparr>co_public_key = py_str L public_key,
          co_report = \<lparr>ar_platform = py_str L platform, ar_measurement = py_str L measurement,
            ar_public_key = py_str L key, ar_nonce = py_str L nonce, ar_raw_evidence = raw,
            ar_quote_signature = sig, ar_key_pem = pem, ar_key_chain_pem = chain_pem, ar_role = role\<rparr>\<rparr>)))))))))))))"

definition parse_challenge :: "jdict \<Rightarrow> ustr option res" where
  "parse_challenge data =
     (case dict_get data (str ''challenge'') of
        None \<Rightarrow> Inr None
      | Some v \<Rightarrow> bindE (expect (nonempty_str v)
                     (Ca2a TransportError (str ''challenge must be a non-empty string when present'') None)) (\<lambda>c. Inr (Some c)))"

section \<open>Round trip\<close>

definition offer_wire_ok :: "channel_offer \<Rightarrow> bool" where
  "offer_wire_ok offer \<longleftrightarrow>
     ar_role (co_report offer) \<in> ROLES \<and> list_all (\<lambda>v. v \<noteq> Some []) (evidence_of (co_report offer))"

lemma serialize_report_get:
  "dict_get (serialize_report r) (str ''platform'') = Some (JStr (ar_platform r))"
  "dict_get (serialize_report r) (str ''measurement'') = Some (JStr (ar_measurement r))"
  "dict_get (serialize_report r) (str ''public_key'') = Some (JStr (ar_public_key r))"
  "dict_get (serialize_report r) (str ''nonce'') = Some (JStr (ar_nonce r))"
  "dict_get (serialize_report r) (str ''role'') = (if ar_role r = ROLE_CALLEE then None else Some (JStr (ar_role r)))"
  "dict_get (serialize_report r) (str ''raw_evidence'') = map_option (\<lambda>b. JStr (b64url_encode b)) (ar_raw_evidence r)"
  "dict_get (serialize_report r) (str ''quote_signature'') = map_option (\<lambda>b. JStr (b64url_encode b)) (ar_quote_signature r)"
  "dict_get (serialize_report r) (str ''attestation_key_pem'') = map_option (\<lambda>b. JStr (b64url_encode b)) (ar_key_pem r)"
  "dict_get (serialize_report r) (str ''attestation_key_chain_pem'') = map_option (\<lambda>b. JStr (b64url_encode b)) (ar_key_chain_pem r)"
  by (auto simp: serialize_report_def evidence_item_def dict_get_append split: option.split)

lemma parse_evidence_ok:
  assumes "dict_get att field = map_option (\<lambda>b. JStr (b64url_encode b)) v" and "v \<noteq> Some []"
  shows "parse_evidence att field = Inr v"
  using assms by (cases v) (auto simp: parse_evidence_def)

lemma parse_serialized_offer:
  assumes "offer_wire_ok offer"
  shows "parse_channel_offer L (JObj (serialize_channel_offer offer ch)) = Inr offer"
proof -
  let ?r = "co_report offer" and ?att = "serialize_report (co_report offer)"
  have ev: "parse_evidence ?att (str ''raw_evidence'') = Inr (ar_raw_evidence ?r)"
    "parse_evidence ?att (str ''quote_signature'') = Inr (ar_quote_signature ?r)"
    "parse_evidence ?att (str ''attestation_key_pem'') = Inr (ar_key_pem ?r)"
    "parse_evidence ?att (str ''attestation_key_chain_pem'') = Inr (ar_key_chain_pem ?r)"
    using assms by (auto intro!: parse_evidence_ok simp: serialize_report_get offer_wire_ok_def evidence_of_def)
  have role: "parse_role ?att = Some (ar_role ?r)"
    using assms by (auto simp: parse_role_def serialize_report_get offer_wire_ok_def)
  have top: "dict_get (serialize_channel_offer offer ch) (str ''channel_public_key'') = Some (JStr (co_public_key offer))"
    "dict_get (serialize_channel_offer offer ch) (str ''attestation'') = Some (JObj ?att)"
    by (simp_all add: serialize_channel_offer_def)
  show ?thesis
    by (simp add: parse_channel_offer_def top ev role serialize_report_get)
qed

lemma parse_serialized_challenge:
  "ch \<noteq> Some [] \<Longrightarrow> parse_challenge (serialize_channel_offer offer ch) = Inr ch"
  by (cases ch) (auto simp: parse_challenge_def serialize_channel_offer_def nonempty_str_def)

section \<open>Properties\<close>

text \<open>
  A channel offer survives the wire: serializing it, with or without a challenge, and parsing
  the result gives back the offer and the challenge, for every offer with a known role and no
  empty evidence blob.
\<close>

theorem offer_wire_roundtrip:
  assumes "offer_wire_ok offer" and "ch \<noteq> Some []"
  shows "parse_channel_offer L (JObj (serialize_channel_offer offer ch)) = Inr offer \<and>
         parse_challenge (serialize_channel_offer offer ch) = Inr ch"
  using assms by (simp add: parse_serialized_offer parse_serialized_challenge)

theorem offer_wire_roundtrip_witness:
  "\<exists>rep. software_attest (str ''key'') (str ''nonce'') ROLE_CALLER = Inr rep \<and>
     parse_channel_offer sample_lib (JObj (serialize_channel_offer \<lparr>co_public_key = str ''key'', co_report = rep\<rparr> None)) =
       Inr \<lparr>co_public_key = str ''key'', co_report = rep\<rparr>"
proof -
  obtain rep where r: "software_attest (str ''key'') (str ''nonce'') ROLE_CALLER = Inr rep"
    by (simp add: software_attest_def)
  then have "offer_wire_ok \<lparr>co_public_key = str ''key'', co_report = rep\<rparr>"
    by (auto simp: software_attest_def offer_wire_ok_def evidence_of_def ROLES_def)
  from offer_wire_roundtrip [OF this, of None sample_lib] r show ?thesis by simp
qed

end
