(* ===== verification/Adapter.thy ===== *)
theory Adapter
  imports Wire
begin

text \<open>
  The A2A wire adapter, \<open>ca2a_runtime/transport/a2a_adapter.py\<close> with the namespace of
  \<open>transport/constants.py\<close>: collecting the metadata of a SendMessage envelope or of a bare message,
  parsing the profile fields into a peer request and attaching them to an outbound message. A
  message is a JSON object; the deep copy of the source is the value itself here.
\<close>

section \<open>Namespace\<close>

definition EXTENSION_URI :: string where
  "EXTENSION_URI = ''https://agentrust-io.com/extensions/ca2a/v0.1''"

definition ext_key :: "string \<Rightarrow> ustr" where
  "ext_key k = str (EXTENSION_URI @ CHR ''/'' # k)"

abbreviation "KEY_DELEGATION_CHAIN \<equiv> ext_key ''delegation_chain''"
abbreviation "KEY_REQUESTED_CAPABILITY \<equiv> ext_key ''requested_capability''"
abbreviation "KEY_RECORD_ID \<equiv> ext_key ''record_id''"
abbreviation "KEY_PARENT_RECORD_HASH \<equiv> ext_key ''parent_record_hash''"
abbreviation "KEY_SEALED_PAYLOAD \<equiv> ext_key ''sealed_payload''"
abbreviation "KEY_CALLER_OFFER \<equiv> ext_key ''caller_offer''"
abbreviation "KEY_HOLDER_PROOF \<equiv> ext_key ''holder_proof''"
abbreviation "KEY_CALLER_POSSESSION \<equiv> ext_key ''caller_possession''"

definition CA2A_METADATA_KEYS :: "ustr list" where
  "CA2A_METADATA_KEYS =
     [KEY_DELEGATION_CHAIN, KEY_REQUESTED_CAPABILITY, KEY_RECORD_ID, KEY_PARENT_RECORD_HASH, KEY_SEALED_PAYLOAD,
      KEY_CALLER_OFFER, KEY_HOLDER_PROOF, KEY_CALLER_POSSESSION]"

lemma ext_key_eq_iff [simp]: "ext_key a = ext_key b \<longleftrightarrow> a = b"
  by (simp add: ext_key_def)

section \<open>Reading\<close>

definition has_ca2a_metadata :: "jdict option \<Rightarrow> bool" where
  "has_ca2a_metadata metadata \<longleftrightarrow>
     (case metadata of
        None \<Rightarrow> False
      | Some m \<Rightarrow> if m = [] then False else list_ex (has_key m) CA2A_METADATA_KEYS)"

text \<open>\<open>collected.update(d.get("metadata"))\<close> when that is a dict.\<close>

definition add_metadata :: "jdict \<Rightarrow> jdict \<Rightarrow> jdict" where
  "add_metadata collected d =
     (case as_obj (dict_get_none d (str ''metadata'')) of None \<Rightarrow> collected | Some m \<Rightarrow> dict_update collected m)"

definition collect_metadata :: "jdict \<Rightarrow> jdict option \<Rightarrow> jdict" where
  "collect_metadata message_or_request metadata =
     (let collected =
        (case as_obj (dict_get_none message_or_request (str ''params'')) of
           Some params \<Rightarrow>
             (let collected = add_metadata [] params in
              case as_obj (dict_get_none params (str ''message'')) of
                Some msg \<Rightarrow> add_metadata collected msg
              | None \<Rightarrow> collected)
         | None \<Rightarrow> add_metadata [] message_or_request)
      in case metadata of None \<Rightarrow> collected | Some m \<Rightarrow> dict_update collected m)"

abbreviation transport_error :: "string \<Rightarrow> exn" where
  "transport_error m \<equiv> Ca2a TransportError (str m) None"

definition parse_hop :: "nat \<times> json \<Rightarrow> delegation_credential res" where
  "parse_hop h =
     (case as_obj (snd h) of
        None \<Rightarrow> Inl (Ca2a TransportError (str ''delegation_chain hop '' @ nat_str (fst h) @ str '' must be an object'') None)
      | Some _ \<Rightarrow>
          catchE (cred_from_dict (snd h)) (is_class InvalidCredential)
            (\<lambda>_. Inl (Ca2a TransportError (str ''delegation_chain hop '' @ nat_str (fst h) @ str '' is malformed'') None)))"

definition parse_hops :: "json \<Rightarrow> delegation_credential list res" where
  "parse_hops raw_chain =
     (case raw_chain of
        JNull \<Rightarrow> raise TransportError ''cA2A metadata present but delegation_chain is missing''
      | JList (v # vs) \<Rightarrow> traverseE parse_hop (enumerate 0 (v # vs))
      | _ \<Rightarrow> raise TransportError ''delegation_chain must be a non-empty JSON array of credential objects'')"

definition parse_parent :: "jdict \<Rightarrow> ustr option res" where
  "parse_parent meta =
     (case dict_get meta KEY_PARENT_RECORD_HASH of
        None \<Rightarrow> raise TransportError ''parent_record_hash key is required when cA2A metadata is present (use null for a root hop)''
      | Some JNull \<Rightarrow> Inr None
      | Some (JStr h) \<Rightarrow> Inr (Some h)
      | Some _ \<Rightarrow> raise TransportError ''parent_record_hash must be a string or null'')"

text \<open>\<open>if KEY in meta and meta[KEY] is not None\<close>: the four optional fields.\<close>

definition parse_optional :: "jdict \<Rightarrow> ustr \<Rightarrow> (json \<Rightarrow> 'a res) \<Rightarrow> 'a option res" where
  "parse_optional meta key f =
     (case dict_get meta key of
        None \<Rightarrow> Inr None
      | Some v \<Rightarrow> if v = JNull then Inr None else bindE (f v) (\<lambda>x. Inr (Some x)))"

definition parse_sealed :: "json \<Rightarrow> bytes res" where
  "parse_sealed v =
     (case as_str v of
        None \<Rightarrow> raise TransportError ''sealed_payload must be a base64url string or null''
      | Some s \<Rightarrow> b64url_decode (str ''sealed_payload'') (JStr s))"

definition parse_possession :: "json \<Rightarrow> caller_possession res" where
  "parse_possession v =
     catchE (pos_from_dict v) (is_class AttestationFailed) (\<lambda>_. raise TransportError ''malformed caller_possession'')"

definition parse_peer_request :: "lib \<Rightarrow> jdict \<Rightarrow> jdict option \<Rightarrow> peer_request option res" where
  "parse_peer_request L message_or_request metadata =
     (let meta = collect_metadata message_or_request metadata in
      if \<not> has_ca2a_metadata (Some meta) then Inr None
      else
        bindE (parse_hops (dict_get_none meta KEY_DELEGATION_CHAIN)) (\<lambda>chain.
        bindE (expect (nonempty_str (dict_get_none meta KEY_REQUESTED_CAPABILITY))
                 (transport_error ''requested_capability must be a non-empty string'')) (\<lambda>capability.
        bindE (expect (nonempty_str (dict_get_none meta KEY_RECORD_ID))
                 (transport_error ''record_id must be a non-empty string'')) (\<lambda>record_id.
        bindE (parse_parent meta) (\<lambda>parent_record_hash.
        bindE (parse_optional meta KEY_SEALED_PAYLOAD parse_sealed) (\<lambda>sealed_payload.
        bindE (parse_optional meta KEY_CALLER_OFFER (parse_channel_offer L)) (\<lambda>caller_offer.
        bindE (parse_optional meta KEY_CALLER_POSSESSION parse_possession) (\<lambda>caller_possession.
        bindE (parse_optional meta KEY_HOLDER_PROOF hp_from_dict) (\<lambda>holder_proof.
        Inr (Some \<lparr>pr_chain = chain, pr_capability = capability, pr_record_id = record_id,
          pr_sealed_payload = sealed_payload, pr_parent_hash = parent_record_hash, pr_caller_offer = caller_offer,
          pr_holder_proof = holder_proof, pr_possession = caller_possession\<rparr>))))))))))"

section \<open>Writing\<close>

text \<open>
  The map that \<open>_attach_target\<close> picks is a reference into the copy; here it is where the map lies
  (\<open>InMessage\<close> is \<open>params.message.metadata\<close>), its value and the write that puts it back.
\<close>

datatype place = InMessage jdict jdict | InParams jdict | InBare

definition attach_place :: "jdict \<Rightarrow> place" where
  "attach_place out =
     (case as_obj (dict_get_none out (str ''params'')) of
        Some params \<Rightarrow>
          (case as_obj (dict_get_none params (str ''message'')) of
             Some msg \<Rightarrow> InMessage params msg
           | None \<Rightarrow> InParams params)
      | None \<Rightarrow> InBare)"

definition place_container :: "jdict \<Rightarrow> place \<Rightarrow> jdict" where
  "place_container out p = (case p of InMessage _ msg \<Rightarrow> msg | InParams params \<Rightarrow> params | InBare \<Rightarrow> out)"

definition attach_target :: "jdict \<Rightarrow> jdict res" where
  "attach_target out =
     (case dict_get (place_container out (attach_place out)) (str ''metadata'') of
        None \<Rightarrow> Inr []
      | Some v \<Rightarrow> expect (as_obj v)
                    (transport_error ''message.metadata must be a mapping when attaching cA2A fields''))"

definition write_target :: "jdict \<Rightarrow> jdict \<Rightarrow> jdict" where
  "write_target out meta =
     (case attach_place out of
        InMessage params msg \<Rightarrow>
          dict_set (str ''params'') (JObj (dict_set (str ''message'')
            (JObj (dict_set (str ''metadata'') (JObj meta) msg)) params)) out
      | InParams params \<Rightarrow> dict_set (str ''params'') (JObj (dict_set (str ''metadata'') (JObj meta) params)) out
      | InBare \<Rightarrow> dict_set (str ''metadata'') (JObj meta) out)"

definition set_or_pop :: "ustr \<Rightarrow> json option \<Rightarrow> jdict \<Rightarrow> jdict" where
  "set_or_pop k v d = (case v of None \<Rightarrow> dict_pop k d | Some x \<Rightarrow> dict_set k x d)"

definition attach_fields :: "peer_request \<Rightarrow> jdict \<Rightarrow> jdict" where
  "attach_fields req meta0 =
     (let meta = dict_set KEY_DELEGATION_CHAIN (JList (map (\<lambda>c. JObj (cred_to_dict c)) (pr_chain req))) meta0;
          meta = dict_set KEY_REQUESTED_CAPABILITY (JStr (pr_capability req)) meta;
          meta = dict_set KEY_RECORD_ID (JStr (pr_record_id req)) meta;
          meta = dict_set KEY_PARENT_RECORD_HASH (opt_str (pr_parent_hash req)) meta;
          meta = set_or_pop KEY_SEALED_PAYLOAD (map_option (\<lambda>b. JStr (b64url_encode b)) (pr_sealed_payload req)) meta;
          meta = set_or_pop KEY_CALLER_OFFER (map_option (\<lambda>off. JObj (serialize_channel_offer off None)) (pr_caller_offer req)) meta;
          meta = set_or_pop KEY_HOLDER_PROOF (map_option (\<lambda>p. JObj (hp_to_dict p)) (pr_holder_proof req)) meta
      in set_or_pop KEY_CALLER_POSSESSION (map_option (\<lambda>p. JObj (pos_to_dict p)) (pr_possession req)) meta)"

definition attach_ca2a_metadata :: "jdict \<Rightarrow> peer_request \<Rightarrow> jdict res" where
  "attach_ca2a_metadata message request =
     bindE (attach_target message) (\<lambda>meta. Inr (write_target message (attach_fields request meta)))"

section \<open>Wire-representable requests\<close>

definition possession_wire_ok :: "caller_possession \<Rightarrow> bool" where
  "possession_wire_ok p \<longleftrightarrow> pos_version p \<noteq> [] \<and> pos_mac p \<noteq> []"

definition proof_wire_ok :: "holder_proof \<Rightarrow> bool" where
  "proof_wire_ok p \<longleftrightarrow> hp_challenge p \<noteq> [] \<and> hp_signature p \<noteq> []"

definition request_wire_ok :: "peer_request \<Rightarrow> bool" where
  "request_wire_ok req \<longleftrightarrow>
     pr_chain req \<noteq> [] \<and> list_all cred_wire_ok (pr_chain req) \<and> pr_capability req \<noteq> [] \<and> pr_record_id req \<noteq> [] \<and>
     pr_sealed_payload req \<noteq> Some [] \<and> pred_option offer_wire_ok (pr_caller_offer req) \<and>
     pred_option proof_wire_ok (pr_holder_proof req) \<and> pred_option possession_wire_ok (pr_possession req)"

lemma pos_from_dict_iff: "pos_from_dict v = Inr p \<longleftrightarrow>
    (\<exists>d. v = JObj d \<and> dict_get d (str ''version'') = Some (JStr (pos_version p)) \<and>
         dict_get d (str ''mac'') = Some (JStr (pos_mac p))) \<and> possession_wire_ok p"
  by (cases p) (auto simp: pos_from_dict_def possession_wire_ok_def dict_get_none_def guard_simps split: option.splits)

lemma hp_from_dict_iff: "hp_from_dict v = Inr p \<longleftrightarrow>
    (\<exists>d. v = JObj d \<and> dict_get d (str ''challenge'') = Some (JStr (hp_challenge p)) \<and>
         dict_get d (str ''signature'') = Some (JStr (hp_signature p))) \<and> proof_wire_ok p"
  by (cases p) (auto simp: hp_from_dict_def proof_wire_ok_def dict_get_none_def guard_simps split: option.splits)

lemma b64_ungroup_ne: "b64_ungroup xs = Some ys \<Longrightarrow> xs \<noteq> [] \<Longrightarrow> ys \<noteq> []"
  by (cases xs rule: b64_ungroup.cases) auto

lemma b64url_decode_ne: "b64url_decode f v = Inr b \<Longrightarrow> b \<noteq> []"
  by (auto simp: b64url_decode_def b64url_bytes_def guard_simps dest: b64_ungroup_ne split: option.splits if_splits)

lemma parse_evidence_ne: "parse_evidence att f \<noteq> Inr (Some [])"
  by (auto simp: parse_evidence_def guard_simps dest: b64url_decode_ne split: option.splits)

lemma ROLE_CALLEE_role [simp]: "ROLE_CALLEE \<in> ROLES"
  by (simp add: ROLES_def)

lemma parse_role_ok: "parse_role att = Some r \<Longrightarrow> r \<in> ROLES"
  by (auto simp: parse_role_def split: option.splits if_splits)

lemma parse_channel_offer_ok: "parse_channel_offer L v = Inr offer \<Longrightarrow> offer_wire_ok offer"
  unfolding parse_channel_offer_def guard_simps
  using parse_evidence_ne by (fastforce simp: offer_wire_ok_def evidence_of_def dest: parse_role_ok)

section \<open>What the parser returns\<close>

lemma parse_optional_ok:
  assumes "parse_optional meta k f = Inr x" and "\<And>v y. f v = Inr y \<Longrightarrow> P y"
  shows "pred_option P x"
  using assms by (auto simp: parse_optional_def guard_simps split: option.splits if_splits)

lemma parse_optional_exn:
  assumes "parse_optional meta k f = Inl e" and "\<And>v. f v = Inl e \<Longrightarrow> P"
  shows P
  using assms by (auto simp: parse_optional_def guard_simps split: option.splits if_splits)

lemma parse_hop_ok: "parse_hop h = Inr c \<Longrightarrow> cred_wire_ok c"
  by (auto simp: parse_hop_def guard_simps cred_from_dict_iff split: option.splits)

lemma parse_hops_ok: "parse_hops v = Inr chain \<Longrightarrow> chain \<noteq> [] \<and> list_all cred_wire_ok chain"
  unfolding parse_hops_def
  by (auto split: json.splits list.splits simp del: traverseE.simps dest: traverseE_ok [OF _ parse_hop_ok] traverseE_length)

lemma parse_sealed_ok: "parse_sealed v = Inr b \<Longrightarrow> b \<noteq> []"
  by (auto simp: parse_sealed_def dest: b64url_decode_ne split: option.splits)

lemma parse_possession_ok: "parse_possession v = Inr p \<Longrightarrow> possession_wire_ok p"
  by (auto simp: parse_possession_def guard_simps pos_from_dict_iff)

lemma hp_from_dict_ok: "hp_from_dict v = Inr p \<Longrightarrow> proof_wire_ok p"
  by (simp add: hp_from_dict_iff)

lemmas parse_optionals_ok =
  parse_optional_ok [OF _ parse_sealed_ok] parse_optional_ok [OF _ parse_channel_offer_ok]
  parse_optional_ok [OF _ parse_possession_ok] parse_optional_ok [OF _ hp_from_dict_ok]

lemma parse_peer_request_ok:
  assumes "parse_peer_request L m md = Inr (Some req)"
  shows "request_wire_ok req"
  using assms
  by (auto simp: parse_peer_request_def Let_def request_wire_ok_def guard_simps
      dest: parse_hops_ok parse_optionals_ok split: if_splits)

section \<open>How the parser refuses\<close>

lemma cred_from_dict_raises: "raises_only (refusal_of {InvalidCredential}) (cred_from_dict v)"
proof -
  have item: "raises_only P (dict_item d k)" if "REQUIRED_CREDENTIAL_FIELDS \<subseteq> dict_keys d" "k \<in> REQUIRED_CREDENTIAL_FIELDS"
    for d k and P :: "exn \<Rightarrow> bool"
    using that by (auto simp: dict_item_def raises_only_def dict_keys_iff expect_def split: option.splits)
  show ?thesis
    unfolding cred_from_dict_def cred_post_init_def
    by (intro raises_intro item) (simp_all add: guard_simps REQUIRED_CREDENTIAL_FIELDS_def)
qed

lemma pos_from_dict_raises: "raises_only (refusal_of {AttestationFailed}) (pos_from_dict v)"
  unfolding pos_from_dict_def by (intro raises_intro) simp_all

lemma hp_from_dict_raises: "raises_only (refusal_of {HolderProofInvalid}) (hp_from_dict v)"
  unfolding hp_from_dict_def by (intro raises_intro) simp_all

lemma b64url_decode_raises [raises_intro]: "TransportError \<in> cs \<Longrightarrow> raises_only (refusal_of cs) (b64url_decode f v)"
  unfolding b64url_decode_def by (intro raises_intro) simp

lemma parse_channel_offer_raises: "raises_only (refusal_of {TransportError}) (parse_channel_offer L v)"
  unfolding parse_channel_offer_def parse_evidence_def by (intro raises_intro) simp_all

lemma parse_sealed_raises: "raises_only (refusal_of {TransportError}) (parse_sealed v)"
  unfolding parse_sealed_def by (intro raises_intro) simp_all

lemma parse_possession_raises: "raises_only (refusal_of {TransportError}) (parse_possession v)"
  unfolding parse_possession_def
  by (rule raises_only_catch [OF pos_from_dict_raises]) (auto intro: raises_intro simp: refusal_of_def)

lemma parse_hop_raises: "raises_only (refusal_of {TransportError}) (parse_hop h)"
proof -
  have "raises_only (refusal_of {TransportError})
      (catchE (cred_from_dict v) (is_class InvalidCredential) (\<lambda>_. Inl (Ca2a TransportError m None)))" for v m
    by (rule raises_only_catch [OF cred_from_dict_raises]) (auto intro: raises_intro simp: refusal_of_def)
  then show ?thesis unfolding parse_hop_def by (intro raises_intro) simp_all
qed

lemma parse_hops_raises: "raises_only (refusal_of {TransportError}) (parse_hops v)"
  unfolding parse_hops_def
  by (auto split: json.split list.split intro!: raises_intro parse_hop_raises simp del: traverseE.simps)

lemma parse_parent_raises: "raises_only (refusal_of {TransportError}) (parse_parent meta)"
  unfolding parse_parent_def by (auto split: option.split json.split intro!: raises_intro)

lemma parse_optional_raises:
  "(\<And>v. raises_only P (f v)) \<Longrightarrow> raises_only P (parse_optional meta k f)"
  unfolding parse_optional_def by (intro raises_intro)

lemmas parser_raises = parse_hops_raises parse_parent_raises parse_optional_raises [OF parse_sealed_raises]
  parse_optional_raises [OF parse_channel_offer_raises] parse_optional_raises [OF parse_possession_raises]
  parse_optional_raises [OF hp_from_dict_raises]

lemma parse_peer_request_raises:
  "raises_only (refusal_of {TransportError, HolderProofInvalid}) (parse_peer_request L m md)"
  unfolding parse_peer_request_def Let_def
  by (intro raises_intro; (rule raises_only_mono, rule parser_raises)?) (auto elim: refusal_of_mono)

section \<open>Attach, then parse\<close>

lemma dict_get_rev: "dict_wf d \<Longrightarrow> dict_get (rev d) k = dict_get d k"
proof -
  assume "dict_wf d"
  then have "map_of (rev d) = map_of d" by (subst map_of_inject_set) (simp_all add: rev_map [symmetric])
  then show ?thesis by (simp add: dict_get_def)
qed

lemma dict_get_update_wf:
  "dict_wf e \<Longrightarrow> dict_get (dict_update d e) k = (case dict_get e k of None \<Rightarrow> dict_get d k | Some v \<Rightarrow> Some v)"
  by (simp add: dict_get_update dict_get_rev)

text \<open>The metadata of the envelope, which a nested message shadows.\<close>

definition outer_metadata :: "jdict \<Rightarrow> jdict" where
  "outer_metadata out = (case attach_place out of InMessage params _ \<Rightarrow> add_metadata [] params | _ \<Rightarrow> [])"

lemma dict_get_none_set [simp]: "dict_get_none (dict_set k v d) k' = (if k = k' then v else dict_get_none d k')"
  by (simp add: dict_get_none_def)

lemma collect_write: "collect_metadata (write_target out meta) None = dict_update (outer_metadata out) meta"
  by (auto simp: collect_metadata_def write_target_def outer_metadata_def attach_place_def add_metadata_def
      split: option.splits)

lemma collect_target:
  assumes "attach_target out = Inr meta"
  shows "collect_metadata out None = dict_update (outer_metadata out) meta"
  using assms
  by (auto simp: collect_metadata_def attach_target_def outer_metadata_def attach_place_def add_metadata_def
      place_container_def dict_get_none_def guard_simps split: option.splits)

lemma write_target_other: "k \<noteq> str ''params'' \<Longrightarrow> k \<noteq> str ''metadata'' \<Longrightarrow> dict_get (write_target out meta) k = dict_get out k"
  by (auto simp: write_target_def split: place.splits)

lemma dict_get_set_or_pop [simp]: "dict_get (set_or_pop k v d) k' = (if k = k' then v else dict_get d k')"
  by (cases v) (simp_all add: set_or_pop_def)

lemma dict_wf_set_or_pop: "dict_wf d \<Longrightarrow> dict_wf (set_or_pop k v d)"
  by (cases v) (simp_all add: set_or_pop_def dict_wf_set dict_wf_pop)

lemma attach_fields_wf: "dict_wf meta \<Longrightarrow> dict_wf (attach_fields req meta)"
  unfolding attach_fields_def Let_def by (intro dict_wf_set_or_pop dict_wf_set)

lemma attach_fields_get:
  "dict_get (attach_fields req meta) KEY_DELEGATION_CHAIN = Some (JList (map (\<lambda>c. JObj (cred_to_dict c)) (pr_chain req)))"
  "dict_get (attach_fields req meta) KEY_REQUESTED_CAPABILITY = Some (JStr (pr_capability req))"
  "dict_get (attach_fields req meta) KEY_RECORD_ID = Some (JStr (pr_record_id req))"
  "dict_get (attach_fields req meta) KEY_PARENT_RECORD_HASH = Some (opt_str (pr_parent_hash req))"
  "dict_get (attach_fields req meta) KEY_SEALED_PAYLOAD = map_option (\<lambda>b. JStr (b64url_encode b)) (pr_sealed_payload req)"
  "dict_get (attach_fields req meta) KEY_CALLER_OFFER = map_option (\<lambda>off. JObj (serialize_channel_offer off None)) (pr_caller_offer req)"
  "dict_get (attach_fields req meta) KEY_HOLDER_PROOF = map_option (\<lambda>p. JObj (hp_to_dict p)) (pr_holder_proof req)"
  "dict_get (attach_fields req meta) KEY_CALLER_POSSESSION = map_option (\<lambda>p. JObj (pos_to_dict p)) (pr_possession req)"
  "k \<notin> set CA2A_METADATA_KEYS \<Longrightarrow> dict_get (attach_fields req meta) k = dict_get meta k"
  by (auto simp: attach_fields_def Let_def CA2A_METADATA_KEYS_def)

text \<open>The optional keys that the request leaves out are not in the envelope's metadata.\<close>

definition no_stale_keys :: "jdict \<Rightarrow> peer_request \<Rightarrow> bool" where
  "no_stale_keys message req \<longleftrightarrow>
     (pr_sealed_payload req = None \<longrightarrow> dict_get_none (outer_metadata message) KEY_SEALED_PAYLOAD = JNull) \<and>
     (pr_caller_offer req = None \<longrightarrow> dict_get_none (outer_metadata message) KEY_CALLER_OFFER = JNull) \<and>
     (pr_holder_proof req = None \<longrightarrow> dict_get_none (outer_metadata message) KEY_HOLDER_PROOF = JNull) \<and>
     (pr_possession req = None \<longrightarrow> dict_get_none (outer_metadata message) KEY_CALLER_POSSESSION = JNull)"

lemma parse_optional_attached:
  assumes "dict_get meta k = (case map_option enc x of None \<Rightarrow> dict_get outer k | Some v \<Rightarrow> Some v)"
    and "x = None \<longrightarrow> dict_get_none outer k = JNull"
    and "\<And>y. x = Some y \<Longrightarrow> enc y \<noteq> JNull \<and> f (enc y) = Inr y"
  shows "parse_optional meta k f = Inr x"
  using assms by (cases x) (auto simp: parse_optional_def dict_get_none_def split: option.splits)

lemma parse_hops_attached:
  assumes "chain \<noteq> []" and "list_all cred_wire_ok chain"
  shows "parse_hops (JList (map (\<lambda>c. JObj (cred_to_dict c)) chain)) = Inr chain"
proof -
  have "traverseE parse_hop (enumerate n (map (\<lambda>c. JObj (cred_to_dict c)) chain)) = Inr chain" for n
    using assms(2) by (induction chain arbitrary: n) (auto simp: parse_hop_def cred_to_dict_parses)
  from this [of 0] assms(1) show ?thesis by (cases chain) (simp_all add: parse_hops_def)
qed

lemma parse_attached:
  assumes ok: "request_wire_ok req" and wf: "dict_wf meta" and stale: "no_stale_keys message req"
  shows "parse_peer_request L (write_target message (attach_fields req meta)) None = Inr (Some req)"
proof -
  define m where "m = dict_update (outer_metadata message) (attach_fields req meta)"
  have get: "dict_get m k = (case dict_get (attach_fields req meta) k of None \<Rightarrow> dict_get (outer_metadata message) k | Some v \<Rightarrow> Some v)" for k
    unfolding m_def by (intro dict_get_update_wf attach_fields_wf wf)
  have has: "has_ca2a_metadata (Some m)"
    using get [of KEY_RECORD_ID] by (auto simp: has_ca2a_metadata_def attach_fields_get CA2A_METADATA_KEYS_def has_key_def)
  note opt = parse_optional_attached [where outer = "outer_metadata message" and meta = m]
  note facts = get attach_fields_get no_stale_keys_def request_wire_ok_def
  have sealed: "parse_optional m KEY_SEALED_PAYLOAD parse_sealed = Inr (pr_sealed_payload req)"
    by (rule opt [where enc = "\<lambda>b. JStr (b64url_encode b)"])
       (use ok stale in \<open>auto simp: facts parse_sealed_def\<close>)
  have offer: "parse_optional m KEY_CALLER_OFFER (parse_channel_offer L) = Inr (pr_caller_offer req)"
    by (rule opt [where enc = "\<lambda>off. JObj (serialize_channel_offer off None)"])
       (use ok stale in \<open>auto simp: facts parse_serialized_offer\<close>)
  have "parse_possession (JObj (pos_to_dict p)) = Inr p" if "possession_wire_ok p" for p
    using that unfolding parse_possession_def guard_simps pos_from_dict_iff by (simp add: pos_to_dict_def)
  then have possession: "parse_optional m KEY_CALLER_POSSESSION parse_possession = Inr (pr_possession req)"
    by (intro opt [where enc = "\<lambda>p. JObj (pos_to_dict p)"])
       (use ok stale in \<open>auto simp: facts\<close>)
  have proof_: "parse_optional m KEY_HOLDER_PROOF hp_from_dict = Inr (pr_holder_proof req)"
    by (rule opt [where enc = "\<lambda>p. JObj (hp_to_dict p)"])
       (use ok stale in \<open>auto simp: facts hp_from_dict_iff hp_to_dict_def\<close>)
  have parent: "parse_parent m = Inr (pr_parent_hash req)"
    by (cases "pr_parent_hash req") (simp_all add: parse_parent_def get attach_fields_get)
  have req: "dict_get_none m KEY_DELEGATION_CHAIN = JList (map (\<lambda>c. JObj (cred_to_dict c)) (pr_chain req))"
    "nonempty_str (dict_get_none m KEY_REQUESTED_CAPABILITY) = Some (pr_capability req)"
    "nonempty_str (dict_get_none m KEY_RECORD_ID) = Some (pr_record_id req)"
    using ok by (simp_all add: dict_get_none_def get attach_fields_get request_wire_ok_def)
  have "parse_hops (dict_get_none m KEY_DELEGATION_CHAIN) = Inr (pr_chain req)"
    using ok by (simp add: req parse_hops_attached request_wire_ok_def)
  then show ?thesis
    unfolding parse_peer_request_def collect_write m_def [symmetric] Let_def
    using has by (simp add: sealed offer possession proof_ parent req(2,3))
qed

section \<open>Sample messages\<close>

lemma sample_request_wire_ok:
  assumes "cap \<noteq> []"
  shows "request_wire_ok (sample_request_to aud cap)"
proof -
  have "proof_wire_ok p" if "build_holder_proof sample_lib [3] sample_leaf sample_challenge f = Inr p" for f p
    using that sample_challenge_verifies [of sample_lib] sample_ed25519
    by (auto simp: build_holder_proof_def guard_simps proof_wire_ok_def ed25519_correct_def verify_challenge_def
        split: if_splits dest: arg_cong [where f = length])
  then have "pred_option proof_wire_ok (pr_holder_proof (sample_request_to aud cap))"
    by (auto simp: sample_request_to_def Let_def split: sum.splits)
  with assms show ?thesis by (simp add: request_wire_ok_def sample_request_fields sample_wire_ok)
qed

text \<open>An envelope with a nested message whose own metadata still holds an old sealed payload.\<close>

definition stale_message :: jdict where
  "stale_message =
     [(str ''params'', JObj
        [(str ''metadata'', JObj [(KEY_SEALED_PAYLOAD, JStr (str ''AAAA''))]),
         (str ''message'', JObj [(str ''parts'', JList [])])])]"

text \<open>
  The condition on the envelope is needed: attaching leaves the optional keys of \<open>params.metadata\<close>
  in place, and parsing reads them when the request has no such field.
\<close>

lemma attach_keeps_stale_keys:
  assumes "pr_sealed_payload req = None"
  shows "\<exists>out. attach_ca2a_metadata stale_message req = Inr out \<and> parse_peer_request L out None \<noteq> Inr (Some req)"
proof -
  let ?out = "write_target stale_message (attach_fields req [])" and ?m = "dict_update (outer_metadata stale_message) (attach_fields req [])"
  have place: "attach_place stale_message = InMessage [(str ''metadata'', JObj [(KEY_SEALED_PAYLOAD, JStr (str ''AAAA''))]),
         (str ''message'', JObj [(str ''parts'', JList [])])] [(str ''parts'', JList [])]"
    by (simp add: attach_place_def stale_message_def dict_get_none_def)
  have "attach_ca2a_metadata stale_message req = Inr ?out"
    by (simp add: attach_ca2a_metadata_def attach_target_def place place_container_def)
  moreover have "dict_get ?m KEY_SEALED_PAYLOAD = Some (JStr (str ''AAAA''))"
    using assms
    by (simp add: dict_get_update_wf attach_fields_wf attach_fields_get outer_metadata_def place add_metadata_def
        dict_get_none_def)
  then have "parse_optional ?m KEY_SEALED_PAYLOAD parse_sealed \<noteq> Inr (pr_sealed_payload req)"
    using assms by (simp add: parse_optional_def guard_simps)
  then have "parse_peer_request L ?out None \<noteq> Inr (Some req)"
    unfolding parse_peer_request_def collect_write Let_def by (auto simp: guard_simps)
  ultimately show ?thesis by blast
qed

section \<open>Properties\<close>




end
