(* ===== verification/Response.thy ===== *)
theory Response
  imports Attestation Json_Text
begin

text \<open>
  One-use response authentication, \<open>ca2a_runtime/response.py\<close>: the bounded codec of the wire
  objects, the session key and MAC, the callee's \<open>ResponseProducer\<close> and the caller's
  \<open>PendingResponse\<close>, a state that one verification consumes. A clock read is \<open>None\<close> when it raises or
  is not finite, and times are exact rationals. The lock makes each verification one step, so a
  run is a sequence of steps (\<open>pending_run\<close>).
\<close>

section \<open>Codec\<close>

definition PROFILE :: ustr where
  "PROFILE = str ''ca2a-response-mac-v1''"

definition MAX_BYTES :: nat where
  "MAX_BYTES = 1048576"

definition REQUEST_FIELDS :: "ustr set" where
  "REQUEST_FIELDS = {str ''profile'', str ''peer'', str ''recipient'', str ''session'', str ''request''}"

definition RESPONSE_FIELDS :: "ustr set" where
  "RESPONSE_FIELDS =
     {str ''profile'', str ''request_sha256'', str ''status'', str ''kind'', str ''body'', str ''mac''}"

definition auth_failed :: exn where
  "auth_failed =
     Ca2a ResponseAuthenticationFailed (str ''response authentication failed; execution outcome is unknown'') None"

text \<open>\<open>_object\<close>, the hook that refuses a repeated key.\<close>

definition object_hook :: pairs_hook where
  "object_hook pairs = (if distinct (map fst pairs) then Some (JObj pairs) else None)"

text \<open>\<open>check\<close>: at most 64 levels below the top.\<close>

fun depth_ok :: "nat \<Rightarrow> json \<Rightarrow> bool" where
  "depth_ok d (JObj kvs) \<longleftrightarrow> d \<le> 64 \<and> list_all (\<lambda>(k, v). depth_ok (Suc d) v) kvs"
| "depth_ok d (JList vs) \<longleftrightarrow> d \<le> 64 \<and> list_all (depth_ok (Suc d)) vs"
| "depth_ok d _ \<longleftrightarrow> d \<le> 64"

definition is_encode_error :: "exn \<Rightarrow> bool" where
  "is_encode_error e \<longleftrightarrow> e = PyExn TypeError \<or> is_value_error e \<or> e = PyExn RecursionError"

definition encode_body :: "jdict \<Rightarrow> bytes res" where
  "encode_body value =
     catchE
       (bindE (require (depth_ok 0 (JObj value)) auth_failed) (\<lambda>_.
        bindE (canonicalize (JObj value)) (\<lambda>raw.
        if length raw > MAX_BYTES then Inl auth_failed else Inr raw)))
       is_encode_error (\<lambda>_. Inl auth_failed)"

definition decode_body :: "lib \<Rightarrow> bytes \<Rightarrow> jdict res" where
  "decode_body L raw =
     (if length raw > MAX_BYTES then Inl auth_failed
      else
        bindE (expect (utf8_decode raw) auth_failed) (\<lambda>text.
        bindE (expect (json_loads L object_hook text) auth_failed) (\<lambda>v.
        bindE (expect (as_obj v) auth_failed) (\<lambda>value.
        bindE (encode_body value) (\<lambda>_. Inr value)))))"

text \<open>\<open>_hex\<close>: a lowercase hexadecimal string of the given number of bytes.\<close>

definition hex_value :: "json \<Rightarrow> nat \<Rightarrow> bytes res" where
  "hex_value value len =
     bindE (expect (as_str value) auth_failed) (\<lambda>s.
     bindE (require (length s = len * 2) auth_failed) (\<lambda>_.
     bindE (expect (fromhex s) auth_failed) (\<lambda>raw.
     if length raw \<noteq> len \<or> hex raw \<noteq> s then Inl auth_failed else Inr raw)))"

section \<open>Key and MAC\<close>

definition RESPONSE_KEY_INFO :: bytes where
  "RESPONSE_KEY_INFO = ascii_bytes ''ca2a/response-mac/v1/key''"

definition RESPONSE_STATEMENT :: bytes where
  "RESPONSE_STATEMENT = ascii_bytes ''ca2a/response-mac/v1/statement'' @ [0]"

definition response_key :: "lib \<Rightarrow> bytes \<Rightarrow> json \<Rightarrow> ustr \<Rightarrow> bytes res" where
  "response_key L private public request_hash =
     bindE (catchE
       (bindE (hex_value public 32) (\<lambda>pk.
        bindE (require (x_key_ok L pk) (PyExn ValueError)) (\<lambda>_.
        expect (x_exchange L private pk) (PyExn ValueError))))
       is_value_error (\<lambda>_. Inl auth_failed)) (\<lambda>shared.
     bindE (expect (fromhex request_hash) (PyExn ValueError)) (\<lambda>salt.
     Inr (hkdf L (Some salt) RESPONSE_KEY_INFO shared)))"

definition response_mac :: "bytes \<Rightarrow> jdict \<Rightarrow> ustr res" where
  "response_mac key statement =
     bindE (encode_body statement) (\<lambda>m. Inr (hmac_sha256_hex key (RESPONSE_STATEMENT @ m)))"

record verified_response =
  vr_status :: int
  vr_body :: jdict
  vr_request_sha256 :: ustr
  vr_peer_assurance :: ustr

definition vr_authentication :: "verified_response \<Rightarrow> jdict" where
  "vr_authentication r =
     [(str ''profile'', JStr PROFILE), (str ''peer_assurance'', JStr (vr_peer_assurance r)),
      (str ''request_sha256'', JStr (vr_request_sha256 r)), (str ''audience'', JStr (str ''live-caller-only''))]"

section \<open>The callee\<close>

record response_producer =
  rp_envelope :: jdict
  rp_request_sha256 :: ustr
  rp_key :: bytes

definition mk_producer :: "lib \<Rightarrow> bytes \<Rightarrow> jdict \<Rightarrow> response_producer res" where
  "mk_producer L private envelope0 =
     bindE (encode_body envelope0) (\<lambda>raw.
     bindE (decode_body L raw) (\<lambda>envelope.
     bindE (require (dict_keys envelope = REQUEST_FIELDS \<and>
              dict_get_none envelope (str ''profile'') = JStr PROFILE) auth_failed) (\<lambda>_.
     bindE (require (dict_get_none envelope (str ''peer'') = JStr (hex (x_public L private)) \<and>
              as_obj (dict_get_none envelope (str ''request'')) \<noteq> None) auth_failed) (\<lambda>_.
     bindE (hex_value (dict_get_none envelope (str ''session'')) 32) (\<lambda>_.
     bindE (encode_body envelope) (\<lambda>m.
     bindE (response_key L private (dict_get_none envelope (str ''recipient'')) (sha256_hex m)) (\<lambda>key.
     Inr \<lparr>rp_envelope = envelope, rp_request_sha256 = sha256_hex m, rp_key = key\<rparr>)))))))"

definition response_kind :: "int \<Rightarrow> ustr" where
  "response_kind status = (if status = 200 then str ''provenance'' else str ''denial'')"

definition response_statement :: "ustr \<Rightarrow> int \<Rightarrow> jdict \<Rightarrow> jdict" where
  "response_statement request_sha256 status body =
     [(str ''profile'', JStr PROFILE), (str ''request_sha256'', JStr request_sha256), (str ''status'', JInt status),
      (str ''kind'', JStr (response_kind status)), (str ''body'', JObj body)]"

definition producer_finish :: "response_producer \<Rightarrow> int \<Rightarrow> jdict \<Rightarrow> jdict res" where
  "producer_finish p status body =
     (let statement = response_statement (rp_request_sha256 p) status body in
      bindE (response_mac (rp_key p) statement) (\<lambda>m.
      let result = statement @ [(str ''mac'', JStr m)] in
      bindE (encode_body result) (\<lambda>_. Inr result)))"

section \<open>The caller\<close>

record pending_response =
  pd_request :: bytes
  pd_request_sha256 :: ustr
  pd_key :: bytes
  pd_assurance :: ustr
  pd_started :: rat
  pd_deadline :: rat
  pd_used :: bool

text \<open>The generated private key and the 32 random bytes of the session are arguments.\<close>

definition request_envelope :: "lib \<Rightarrow> verified_peer \<Rightarrow> jdict \<Rightarrow> bytes \<Rightarrow> bytes \<Rightarrow> jdict" where
  "request_envelope L peer message private session =
     [(str ''profile'', JStr PROFILE), (str ''peer'', JStr (vp_public_key peer)),
      (str ''recipient'', JStr (hex (x_public L private))), (str ''session'', JStr (hex session)),
      (str ''request'', JObj message)]"

definition mk_pending ::
  "lib \<Rightarrow> verified_peer \<Rightarrow> jdict \<Rightarrow> rat option \<Rightarrow> bytes \<Rightarrow> bytes \<Rightarrow> rat option \<Rightarrow> pending_response res" where
  "mk_pending L peer message timeout private session clock =
     bindE (expect timeout (PyExn ValueError)) (\<lambda>timeout.
     bindE (require (0 < timeout \<and> timeout \<le> 300) (PyExn ValueError)) (\<lambda>_.
     bindE (encode_body (request_envelope L peer message private session)) (\<lambda>request.
     bindE (response_key L private (JStr (vp_public_key peer)) (sha256_hex request)) (\<lambda>key.
     bindE (expect clock (PyExn ValueError)) (\<lambda>started.
     Inr \<lparr>pd_request = request, pd_request_sha256 = sha256_hex request, pd_key = key,
          pd_assurance = vp_assurance peer, pd_started = started, pd_deadline = started + timeout, pd_used = False\<rparr>)))))"

definition check_deadline :: "pending_response \<Rightarrow> rat option \<Rightarrow> unit res" where
  "check_deadline p now =
     (case now of
        None \<Rightarrow> Inl auth_failed
      | Some t \<Rightarrow> if pd_started p \<le> t \<and> t < pd_deadline p then Inr () else Inl auth_failed)"

definition is_verify_error :: "exn \<Rightarrow> bool" where
  "is_verify_error e \<longleftrightarrow> is_value_error e \<or> e = PyExn TypeError \<or> e = PyExn OSError"

text \<open>The body of the \<open>try\<close>, with the key taken out of the state; \<open>t1\<close> and \<open>t2\<close> are its clock reads.\<close>

definition verify_with ::
  "lib \<Rightarrow> pending_response \<Rightarrow> bytes \<Rightarrow> int \<Rightarrow> bytes \<Rightarrow> rat option \<Rightarrow> rat option \<Rightarrow> verified_response res" where
  "verify_with L p key status raw t1 t2 =
     bindE (check_deadline p t1) (\<lambda>_.
     bindE (decode_body L raw) (\<lambda>envelope0.
     bindE (require (dict_keys envelope0 = RESPONSE_FIELDS) auth_failed) (\<lambda>_.
     let m = dict_get_none envelope0 (str ''mac''); envelope = dict_pop (str ''mac'') envelope0 in
     bindE (hex_value m 32) (\<lambda>_.
     bindE (require (dict_get_none envelope (str ''profile'') = JStr PROFILE \<and>
              dict_get_none envelope (str ''request_sha256'') = JStr (pd_request_sha256 p) \<and>
              dict_get_none envelope (str ''status'') = JInt status \<and>
              (status = 200 \<or> 400 \<le> status \<and> status \<le> 599)) auth_failed) (\<lambda>_.
     bindE (response_mac key envelope) (\<lambda>expected.
     bindE (require (m = JStr expected) auth_failed) (\<lambda>_.
     bindE (require (dict_get_none envelope (str ''kind'') = JStr (response_kind status)) auth_failed) (\<lambda>_.
     bindE (expect (as_obj (dict_get_none envelope (str ''body''))) auth_failed) (\<lambda>body.
     bindE (require (status = 200 \<longrightarrow> dict_get_none body (str ''accepted'') = JBool True) auth_failed) (\<lambda>_.
     bindE (require (status \<noteq> 200 \<longrightarrow> as_obj (dict_get_none body (str ''error'')) \<noteq> None) auth_failed) (\<lambda>_.
     bindE (check_deadline p t2) (\<lambda>_.
     Inr \<lparr>vr_status = status, vr_body = body, vr_request_sha256 = pd_request_sha256 p,
          vr_peer_assurance = pd_assurance p\<rparr>))))))))))))"

definition verify_response ::
  "lib \<Rightarrow> pending_response \<Rightarrow> int \<Rightarrow> bytes \<Rightarrow> rat option \<Rightarrow> rat option \<Rightarrow>
   pending_response \<times> verified_response res" where
  "verify_response L p status raw t1 t2 =
     (if pd_used p then (p, Inl auth_failed)
      else (p\<lparr>pd_used := True, pd_key := []\<rparr>,
            catchE (verify_with L p (pd_key p) status raw t1 t2) is_verify_error (\<lambda>_. Inl auth_failed)))"

section \<open>The codec, declaratively\<close>

lemma auth_failed_simps [simp]:
  "\<not> is_encode_error auth_failed" "\<not> is_verify_error auth_failed" "\<not> is_value_error auth_failed"
  "exn_class auth_failed = Some ResponseAuthenticationFailed" "exn_record auth_failed = None"
  by (simp_all add: auth_failed_def is_encode_error_def is_verify_error_def)

lemma serialize_raises: "raises_only is_encode_error (serialize v)"
proof (induction v rule: serialize.induct)
  case (7 vs)
  then show ?case unfolding serialize.simps by (intro raises_intro) auto
next
  case (8 kvs)
  have "raises_only is_encode_error (snd kr)"
    if "sort_items (map (\<lambda>kv. (fst kv, serialize (snd kv))) kvs) = Inr items" "kr \<in> set items" for items kr
    using that 8 by (auto simp: sort_items_map split: if_splits)
  moreover have "raises_only is_encode_error (sort_items (map (\<lambda>kv. (fst kv, serialize (snd kv))) kvs))"
    by (auto simp: sort_items_map is_encode_error_def intro!: raises_intro)
  ultimately show ?case unfolding serialize.simps by (intro raises_intro) auto
qed (auto simp: is_encode_error_def intro!: raises_intro)

lemma encode_body_Inr_iff [guard_simps]:
  "encode_body d = Inr raw \<longleftrightarrow>
     depth_ok 0 (JObj d) \<and> canonicalize (JObj d) = Inr raw \<and> length raw \<le> MAX_BYTES"
  by (auto simp: encode_body_def guard_simps simp del: depth_ok.simps)

lemma canonicalize_raises: "raises_only is_encode_error (canonicalize v)"
  unfolding canonicalize_def
  by (intro raises_intro serialize_raises) (auto simp: is_encode_error_def intro!: raises_intro split: option.split)

lemma encode_body_raises: "raises_only (\<lambda>e. e = auth_failed) (encode_body d)"
  unfolding encode_body_def
  by (rule raises_only_catch [where Q = "\<lambda>e. e = auth_failed \<or> is_encode_error e"])
     (auto intro!: raises_intro raises_only_mono [OF canonicalize_raises])

lemma decode_body_raises: "raises_only (\<lambda>e. e = auth_failed) (decode_body L raw)"
  unfolding decode_body_def by (intro raises_intro encode_body_raises) simp_all

lemma hex_value_raises: "raises_only (\<lambda>e. e = auth_failed) (hex_value v n)"
  unfolding hex_value_def by (intro raises_intro) simp_all

lemma hex_value_Inr_iff: "hex_value v n = Inr b \<longleftrightarrow> v = JStr (hex b) \<and> length b = n"
  by (auto simp: hex_value_def guard_simps)

lemma response_mac_raises: "raises_only (\<lambda>e. e = auth_failed) (response_mac k d)"
  unfolding response_mac_def by (intro raises_intro encode_body_raises)

lemma response_mac_Inr_iff [guard_simps]:
  "response_mac k d = Inr m \<longleftrightarrow> (\<exists>raw. encode_body d = Inr raw \<and> m = hmac_sha256_hex k (RESPONSE_STATEMENT @ raw))"
  by (auto simp: response_mac_def guard_simps)

text \<open>Every decoded object is well formed: the hook lets no repeated key through.\<close>

lemma hook_wf: "list_all (\<lambda>(k, v). json_wf v) kvs \<Longrightarrow> object_hook kvs = Some v \<Longrightarrow> json_wf v"
  by (auto simp: object_hook_def split: if_splits)

lemma scan_scalar_wf: "scan_scalar L s = Some (v, r) \<Longrightarrow> json_wf v"
  by (auto simp: scan_scalar_def scan_literal_def scan_number_def Let_def split: if_splits option.splits)

lemma parse_wf:
  "parse_value L object_hook n s = Some (v, r) \<Longrightarrow> json_wf v"
  "parse_members L object_hook n s = Some (kvs, r) \<Longrightarrow> list_all (\<lambda>(k, v). json_wf v) kvs"
  "parse_elements L object_hook n s = Some (vs, r) \<Longrightarrow> list_all json_wf vs"
proof (induction n arbitrary: s v kvs vs r)
  case (Suc n)
  note IH = Suc.IH
  case 1
  then show ?case
    by (auto simp: scan_scalar_wf dest: IH hook_wf hook_wf [of "[]", simplified] split: list.splits if_splits option.splits)
next
  case (Suc n)
  note IH = Suc.IH
  case 2
  then show ?case by (cases rule: parse_members_SomeD) (auto intro: IH)
next
  case (Suc n)
  note IH = Suc.IH
  case 3
  then show ?case by (cases rule: parse_elements_SomeD) (auto intro: IH)
qed simp_all

lemma decode_body_wf: "decode_body L raw = Inr d \<Longrightarrow> json_wf (JObj d)"
  by (auto simp: decode_body_def json_loads_def guard_simps split: if_splits option.splits dest: parse_wf(1))

lemma depth_ok_jnorm [simp]: "depth_ok d (jnorm v) \<longleftrightarrow> depth_ok d v"
  by (induction v arbitrary: d rule: jnorm.induct) (auto simp: list_all_iff)

lemma object_hook_ok: "dict_wf kvs \<Longrightarrow> object_hook kvs = Some (JObj kvs)"
  by (simp add: object_hook_def)

lemma jnorm_JObj_ex: "\<exists>d'. jnorm (JObj d) = JObj d'"
  by simp

text \<open>Decoding what was encoded gives its normal form, which encodes to the same bytes.\<close>

lemma decode_encode:
  assumes "json_wf (JObj d)" and "encode_body d = Inr raw" and "jnorm (JObj d) = JObj d'"
  shows "decode_body L raw = Inr d' \<and> encode_body d' = Inr raw"
proof -
  from assms(2) have enc: "depth_ok 0 (JObj d)" "canonicalize (JObj d) = Inr raw" "length raw \<le> MAX_BYTES"
    by (auto simp: guard_simps simp del: depth_ok.simps)
  have e: "encode_body d' = Inr raw"
    using enc canonicalize_jnorm [OF enc(2)] depth_ok_jnorm [of 0 "JObj d"] unfolding assms(3) encode_body_Inr_iff by blast
  obtain t where "utf8_decode raw = Some t" "json_loads L object_hook t = Some (JObj d')"
    using json_loads_canonical [OF object_hook_ok assms(1) enc(2)] assms(3) by auto
  with e enc(3) show ?thesis by (simp add: decode_body_def)
qed

text \<open>The bytes of a dict depend on its lookups only.\<close>

lemma encode_body_cong:
  assumes "dict_wf d" and "dict_wf e" and "\<And>k. dict_get d k = dict_get e k"
  shows "encode_body d = encode_body e"
proof -
  from assms(3) have "map_of d = map_of e" by (intro ext) (simp add: dict_get_def)
  with assms(1,2) have st: "set d = set e" by (simp add: map_of_inject_set)
  with assms(1,2) have "mset d = mset e" by (metis distinct_map set_eq_iff_mset_eq_distinct)
  from canonicalize_perm [OF this assms(1)] st show ?thesis by (simp add: encode_body_def list_all_iff)
qed

section \<open>Verification, declaratively\<close>

definition in_time :: "pending_response \<Rightarrow> rat option \<Rightarrow> bool" where
  "in_time p t \<longleftrightarrow> (\<exists>x. t = Some x \<and> pd_started p \<le> x \<and> x < pd_deadline p)"

lemma check_deadline_iff [guard_simps]: "check_deadline p t = Inr u \<longleftrightarrow> in_time p t"
  by (auto simp: check_deadline_def in_time_def split: option.splits)

lemma check_deadline_raises: "raises_only (\<lambda>e. e = auth_failed) (check_deadline p t)"
  unfolding check_deadline_def by (intro raises_intro) simp_all

lemma verify_with_raises: "raises_only (\<lambda>e. e = auth_failed) (verify_with L p key status raw t1 t2)"
  unfolding verify_with_def Let_def
  by (intro raises_intro check_deadline_raises decode_body_raises hex_value_raises response_mac_raises) simp_all

text \<open>A status and body that a response may carry.\<close>

definition response_ok :: "int \<Rightarrow> jdict \<Rightarrow> bool" where
  "response_ok status body \<longleftrightarrow>
     (if status = 200 then dict_get_none body (str ''accepted'') = JBool True
      else 400 \<le> status \<and> status \<le> 599 \<and> as_obj (dict_get_none body (str ''error'')) \<noteq> None)"

lemma statement_get:
  "dict_get (response_statement h status body) k =
     (if k = str ''profile'' then Some (JStr PROFILE) else if k = str ''request_sha256'' then Some (JStr h)
      else if k = str ''status'' then Some (JInt status) else if k = str ''kind'' then Some (JStr (response_kind status))
      else if k = str ''body'' then Some (JObj body) else None)"
  by (simp add: response_statement_def)

lemma statement_wf: "dict_wf (response_statement h status body)"
  by (simp add: response_statement_def)

text \<open>A decoded envelope that passes the field checks is the statement, up to order.\<close>

lemma envelope_statement:
  assumes "dict_wf env" and "dict_keys env = RESPONSE_FIELDS"
    and "dict_get_none (dict_pop (str ''mac'') env) (str ''profile'') = JStr PROFILE"
    and "dict_get_none (dict_pop (str ''mac'') env) (str ''request_sha256'') = JStr h"
    and "dict_get_none (dict_pop (str ''mac'') env) (str ''status'') = JInt status"
    and "dict_get_none (dict_pop (str ''mac'') env) (str ''kind'') = JStr (response_kind status)"
    and "dict_get_none (dict_pop (str ''mac'') env) (str ''body'') = JObj body"
  shows "response_mac key (dict_pop (str ''mac'') env) = response_mac key (response_statement h status body)"
proof -
  have "dict_get (dict_pop (str ''mac'') env) k = dict_get (response_statement h status body) k" for k
  proof (cases "k \<in> RESPONSE_FIELDS - {str ''mac''}")
    case True
    then show ?thesis
      using assms(3-7) by (auto simp: RESPONSE_FIELDS_def statement_get dict_get_none_def split: option.splits)
  next
    case False
    moreover from this assms(2) have "k \<noteq> str ''mac'' \<Longrightarrow> dict_get env k = None"
      using dict_keys_iff [of k env] by auto
    ultimately show ?thesis by (auto simp: RESPONSE_FIELDS_def statement_get)
  qed
  then have "encode_body (dict_pop (str ''mac'') env) = encode_body (response_statement h status body)"
    by (intro encode_body_cong dict_wf_pop assms(1) statement_wf)
  then show ?thesis by (simp add: response_mac_def)
qed

lemma verify_with_Inr:
  assumes "verify_with L p key status raw t1 t2 = Inr r"
  shows "in_time p t1 \<and> in_time p t2 \<and> response_ok status (vr_body r) \<and> vr_status r = status \<and>
     vr_request_sha256 r = pd_request_sha256 p \<and> vr_peer_assurance r = pd_assurance p \<and>
     (\<exists>env m. decode_body L raw = Inr env \<and> dict_get_none env (str ''mac'') = JStr m \<and>
        response_mac key (response_statement (pd_request_sha256 p) status (vr_body r)) = Inr m)"
proof -
  let ?e = "\<lambda>env. dict_pop (str ''mac'') env"
  from assms obtain env expected body where t: "in_time p t1" "in_time p t2" and d: "decode_body L raw = Inr env"
    and keys: "dict_keys env = RESPONSE_FIELDS"
    and f: "dict_get_none (?e env) (str ''profile'') = JStr PROFILE"
      "dict_get_none (?e env) (str ''request_sha256'') = JStr (pd_request_sha256 p)"
      "dict_get_none (?e env) (str ''status'') = JInt status"
      "dict_get_none (?e env) (str ''kind'') = JStr (response_kind status)"
      "dict_get_none (?e env) (str ''body'') = JObj body"
    and ok: "status = 200 \<or> 400 \<le> status \<and> status \<le> 599"
      "status = 200 \<longrightarrow> dict_get_none body (str ''accepted'') = JBool True"
      "status \<noteq> 200 \<longrightarrow> as_obj (dict_get_none body (str ''error'')) \<noteq> None"
    and m: "response_mac key (?e env) = Inr expected" "dict_get_none env (str ''mac'') = JStr expected"
    and r: "r = \<lparr>vr_status = status, vr_body = body, vr_request_sha256 = pd_request_sha256 p, vr_peer_assurance = pd_assurance p\<rparr>"
    unfolding verify_with_def Let_def bindE_Inr_iff require_iff check_deadline_iff expect_iff as_obj_Some_iff by auto
  have "dict_wf env" using decode_body_wf [OF d] by simp
  from envelope_statement [OF this keys f, of key] m t d ok r show ?thesis by (auto simp: response_ok_def)
qed

lemma verify_with_Inr_I:
  assumes "decode_body L raw = Inr env" and "in_time p t1" and "in_time p t2" and "response_ok status body"
    and "dict_keys env = RESPONSE_FIELDS"
    and f: "dict_get env (str ''profile'') = Some (JStr PROFILE)"
      "dict_get env (str ''request_sha256'') = Some (JStr (pd_request_sha256 p))"
      "dict_get env (str ''status'') = Some (JInt status)"
      "dict_get env (str ''kind'') = Some (JStr (response_kind status))"
      "dict_get env (str ''body'') = Some (JObj body)"
    and m: "dict_get env (str ''mac'') = Some (JStr m)"
      "response_mac key (response_statement (pd_request_sha256 p) status body) = Inr m"
  shows "verify_with L p key status raw t1 t2 =
    Inr \<lparr>vr_status = status, vr_body = body, vr_request_sha256 = pd_request_sha256 p, vr_peer_assurance = pd_assurance p\<rparr>"
proof -
  have "dict_wf env" using decode_body_wf [OF assms(1)] by simp
  from envelope_statement [OF this assms(5), of "pd_request_sha256 p" status body key] f m(2)
  have "response_mac key (dict_pop (str ''mac'') env) = Inr m" by (simp add: dict_get_none_def)
  moreover obtain b where "hex_value (JStr m) 32 = Inr b"
    using m(2) by (auto simp: guard_simps hex_value_Inr_iff hmac_sha256_hex_def)
  ultimately show ?thesis
    using assms(1-5) f m(1) unfolding verify_with_def Let_def bindE_Inr_iff require_iff check_deadline_iff expect_iff
    by (auto simp: dict_get_none_def response_ok_def guard_simps split: if_splits)
qed

section \<open>One use\<close>

text \<open>
  What a single-use state promises: an attempt spends it, whatever its outcome, and a spent
  state refuses and stays as it is.
\<close>

locale one_shot =
  fixes attempt :: "'s \<Rightarrow> 'i \<Rightarrow> 's \<times> 'o" and spent :: "'s \<Rightarrow> bool" and refused :: "'o \<Rightarrow> bool"
  assumes spends: "spent (fst (attempt s i))"
    and refuses: "spent s \<Longrightarrow> fst (attempt s i) = s \<and> refused (snd (attempt s i))"
begin

primrec outcomes :: "'s \<Rightarrow> 'i list \<Rightarrow> 'o list" where
  "outcomes s [] = []"
| "outcomes s (i # is) = snd (attempt s i) # outcomes (fst (attempt s i)) is"

lemma spent_refuses_all: "spent s \<Longrightarrow> list_all refused (outcomes s is)"
  by (induction "is" arbitrary: s) (simp_all add: refuses spends)

lemma only_first_counts: "list_all refused (tl (outcomes s is))"
  by (cases "is") (simp_all add: spent_refuses_all spends)

end

type_synonym verify_attempt = "int \<times> bytes \<times> rat option \<times> rat option"

definition verify_attempt_on ::
  "lib \<Rightarrow> pending_response \<Rightarrow> verify_attempt \<Rightarrow> pending_response \<times> verified_response res" where
  "verify_attempt_on L p a = (case a of (status, raw, t1, t2) \<Rightarrow> verify_response L p status raw t1 t2)"

interpretation pending: one_shot "verify_attempt_on L" pd_used "\<lambda>r. r = Inl auth_failed" for L
  by unfold_locales (auto simp: verify_attempt_on_def verify_response_def)

text \<open>A run of verifications of one pending response, with their outcomes.\<close>

inductive pending_run :: "lib \<Rightarrow> pending_response \<Rightarrow> verified_response res list \<Rightarrow> pending_response \<Rightarrow> bool"
  for L where
  run_nil: "pending_run L p [] p"
| run_step: "verify_response L p status raw t1 t2 = (p', r) \<Longrightarrow> pending_run L p' rs q \<Longrightarrow> pending_run L p (r # rs) q"

inductive_cases run_consE: "pending_run L p (r # rs) q"

lemma run_outcomes: "pending_run L p rs q \<Longrightarrow> \<exists>as. rs = pending.outcomes L p as"
proof (induction rule: pending_run.induct)
  case (run_nil p)
  show ?case by (rule exI [of _ "[]"]) simp
next
  case (run_step p status raw t1 t2 p' r rs q)
  then obtain "as" where "rs = pending.outcomes L p' as" by blast
  with run_step(1) have "r # rs = pending.outcomes L p ((status, raw, t1, t2) # as)"
    by (simp add: verify_attempt_on_def)
  then show ?case by blast
qed

lemma run_used: "pending_run L p rs q \<Longrightarrow> pd_used p \<Longrightarrow> q = p"
  by (induction rule: pending_run.induct) (auto simp: verify_response_def)

lemma run_erases: "pending_run L p (r # rs) q \<Longrightarrow> pd_used q \<and> (\<not> pd_used p \<longrightarrow> pd_key q = [])"
  by (erule run_consE, cases "pd_used p") (auto simp: verify_response_def dest: run_used)

section \<open>Both ends\<close>

lemma response_key_own:
  assumes "x25519_correct L" and "x_exchange L a (x_public L b) = Some shared"
  shows "response_key L a (JStr (hex (x_public L b))) (sha256_hex m) =
    Inr (hkdf L (Some (sha256 m)) RESPONSE_KEY_INFO shared)"
proof -
  have "hex_value (JStr (hex (x_public L b))) 32 = Inr (x_public L b)"
    using assms(1) by (simp add: hex_value_Inr_iff x25519_correct_def)
  then show ?thesis using assms by (simp add: response_key_def x25519_correct_def sha256_hex_def)
qed

lemma response_key_Inr:
  assumes "x25519_correct L" and "response_key L a (JStr (hex (x_public L b))) (sha256_hex m) = Inr key"
  shows "response_key L b (JStr (hex (x_public L a))) (sha256_hex m) = Inr key"
proof -
  have pk: "hex_value (JStr (hex (x_public L b))) 32 = Inr (x_public L b)"
    using assms(1) by (simp add: hex_value_Inr_iff x25519_correct_def)
  obtain shared where s: "x_exchange L a (x_public L b) = Some shared"
    using assms(2) unfolding response_key_def by (auto simp: pk guard_simps)
  then have "x_exchange L b (x_public L a) = Some shared" using assms(1) by (simp add: x25519_correct_def)
  with response_key_own [OF assms(1) s, of m] response_key_own [OF assms(1) this, of m] assms(2) show ?thesis by simp
qed

lemma encode_body_norm:
  assumes "jnorm (JObj d) = jnorm (JObj e)" and "encode_body d = Inr raw"
  shows "encode_body e = Inr raw"
proof -
  from assms(2) have d: "depth_ok 0 (JObj d)" "canonicalize (JObj d) = Inr raw" "length raw \<le> MAX_BYTES"
    by (auto simp: guard_simps simp del: depth_ok.simps)
  have ok: "json_ok (JObj d)" by (rule canonicalize_json_ok [OF d(2)])
  then have "json_ok (JObj e)" using assms(1) json_ok_jnorm by metis
  from canonicalize_eqI [OF ok this assms(1)] d(2) have "canonicalize (JObj e) = Inr raw" by simp
  moreover have "depth_ok 0 (JObj e)" using d(1) assms(1) depth_ok_jnorm by metis
  ultimately show ?thesis using d(3) unfolding encode_body_Inr_iff by blast
qed

lemma jnorm_scalar [simp]:
  "jnorm v = JStr t \<longleftrightarrow> v = JStr t" "jnorm v = JInt i \<longleftrightarrow> v = JInt i" "jnorm v = JBool b \<longleftrightarrow> v = JBool b"
  by (cases v; simp)+

lemma jnorm_objD: "jnorm v = jnorm (JObj d) \<Longrightarrow> \<exists>e. v = JObj e"
  by (cases v) simp_all

text \<open>What agreement up to order means for a response that arrives.\<close>

lemma norm_get:
  assumes "jnorm (JObj env) = jnorm (JObj d)" and "dict_wf env" and "dict_wf d" and "dict_get d k = Some v"
  shows "\<exists>w. dict_get env k = Some w \<and> jnorm w = jnorm v"
  using jnorm_obj_get [OF assms(1-3), of k] assms(4) by auto

lemma norm_keys:
  assumes "jnorm (JObj env) = jnorm (JObj d)" and "dict_wf env" and "dict_wf d"
  shows "dict_keys env = dict_keys d"
proof (rule set_eqI)
  fix k show "k \<in> dict_keys env \<longleftrightarrow> k \<in> dict_keys d"
    using arg_cong [OF jnorm_obj_get [OF assms, of k], of "\<lambda>x. x = None"] by (simp add: dict_keys_iff)
qed

lemma response_ok_norm:
  assumes "jnorm (JObj b) = jnorm (JObj body)" and "dict_wf b" and "dict_wf body" and "response_ok status body"
  shows "response_ok status b"
proof -
  have *: "jnorm (dict_get_none b k) = jnorm (dict_get_none body k)" for k
    using jnorm_obj_get [OF assms(1-3), of k]
    by (cases "dict_get b k"; cases "dict_get body k") (auto simp: dict_get_none_def)
  have "dict_get_none b k = JBool True" if "dict_get_none body k = JBool True" for k
    using * [of k] that by simp
  moreover have "as_obj (dict_get_none b k) \<noteq> None" if obj: "as_obj (dict_get_none body k) \<noteq> None" for k
  proof -
    from obj obtain d where "dict_get_none body k = JObj d" by auto
    with * [of k] jnorm_objD show ?thesis by fastforce
  qed
  ultimately show ?thesis using assms(4) by (auto simp: response_ok_def split: if_splits)
qed

text \<open>The callee accepts the request of a pending response and derives the caller's key.\<close>

lemma producer_of_pending:
  assumes x: "x25519_correct L" and p: "mk_pending L peer message timeout e session clock = Inr p"
    and key: "vp_public_key peer = hex (x_public L k)" and wf: "json_wf (JObj message)" and len: "length session = 32"
    and env: "jnorm (JObj (request_envelope L peer message e session)) = JObj env"
  shows "decode_body L (pd_request p) = Inr env \<and>
    mk_producer L k env = Inr \<lparr>rp_envelope = env, rp_request_sha256 = pd_request_sha256 p, rp_key = pd_key p\<rparr> \<and>
    dict_get env (str ''request'') = Some (jnorm (JObj message))"
proof -
  let ?d = "request_envelope L peer message e session"
  from p have enc: "encode_body ?d = Inr (pd_request p)" and sha: "pd_request_sha256 p = sha256_hex (pd_request p)"
    and rk: "response_key L e (JStr (hex (x_public L k))) (sha256_hex (pd_request p)) = Inr (pd_key p)"
    by (auto simp: mk_pending_def key bindE_Inr_iff expect_iff require_iff)
  have wfd: "json_wf (JObj ?d)" using wf by (simp add: request_envelope_def)
  from decode_encode [OF wfd enc env, of L] have dec: "decode_body L (pd_request p) = Inr env" "encode_body env = Inr (pd_request p)"
    by auto
  from decode_encode [OF _ dec(2), of env L] decode_body_wf [OF dec(1)] env jnorm_idem [of "JObj ?d"]
  have dec2: "decode_body L (pd_request p) = Inr env" by simp
  have wfs: "dict_wf env" "dict_wf ?d" using decode_body_wf [OF dec(1)] wfd by simp_all
  have norm: "jnorm (JObj env) = jnorm (JObj ?d)" using env jnorm_idem [of "JObj ?d"] by simp
  have get: "map_option jnorm (dict_get env k) = map_option jnorm (dict_get ?d k)" for k
    by (rule jnorm_obj_get [OF norm wfs])
  have s: "dict_get env (str ''profile'') = Some (JStr PROFILE)" "dict_get env (str ''peer'') = Some (JStr (hex (x_public L k)))"
    "dict_get env (str ''recipient'') = Some (JStr (hex (x_public L e)))" "dict_get env (str ''session'') = Some (JStr (hex session))"
    using get [of "str ''profile''"] get [of "str ''peer''"] get [of "str ''recipient''"] get [of "str ''session''"] key
    by (auto simp: request_envelope_def)
  have keys: "dict_keys env = REQUEST_FIELDS"
    unfolding norm_keys [OF norm wfs] by (auto simp: request_envelope_def REQUEST_FIELDS_def)
  have "JObj env = JObj (map (\<lambda>kv. (fst kv, jnorm (snd kv))) (sort_key item_key ?d))"
    using env unfolding jnorm_JObj by (rule sym)
  then have "set env = (\<lambda>kv. (fst kv, jnorm (snd kv))) ` set ?d" by (simp only: json.inject set_map set_sort)
  moreover have "(str ''request'', JObj message) \<in> set ?d" by (simp add: request_envelope_def)
  ultimately have "(str ''request'', jnorm (JObj message)) \<in> set env"
    using imageI [of "(str ''request'', JObj message)" "set ?d" "\<lambda>kv. (fst kv, jnorm (snd kv))"] by (simp only: fst_conv snd_conv)
  then have r: "dict_get env (str ''request'') = Some (jnorm (JObj message))"
    using wfs(1) by (simp add: dict_get_def)
  then obtain q where q: "dict_get env (str ''request'') = Some (JObj q)" by simp
  have "mk_producer L k env = Inr \<lparr>rp_envelope = env, rp_request_sha256 = pd_request_sha256 p, rp_key = pd_key p\<rparr>"
    using response_key_Inr [OF x rk] len
    by (simp add: mk_producer_def dec keys s q dict_get_none_def sha hex_value_Inr_iff bindE_Inr_iff)
  with dec r show ?thesis by simp
qed

text \<open>A finished response verifies at the caller, however its objects are ordered on the way.\<close>

lemma finished_verifies:
  assumes fin: "producer_finish producer status body = Inr result" and wf: "json_wf (JObj body)"
    and same: "rp_request_sha256 producer = pd_request_sha256 p" "rp_key producer = pd_key p"
    and ok: "response_ok status body" and fresh: "\<not> pd_used p" and time: "in_time p t1" "in_time p t2"
    and raw: "decode_body L raw = Inr env" "jnorm (JObj env) = jnorm (JObj result)"
  shows "\<exists>r. snd (verify_response L p status raw t1 t2) = Inr r \<and> vr_status r = status \<and>
    jnorm (JObj (vr_body r)) = jnorm (JObj body)"
proof -
  let ?s = "response_statement (pd_request_sha256 p) status"
  from fin same obtain m where m: "response_mac (pd_key p) (?s body) = Inr m"
    and res: "result = ?s body @ [(str ''mac'', JStr m)]"
    by (auto simp: producer_finish_def Let_def bindE_Inr_iff)
  have wfs: "dict_wf env" "dict_wf result"
    using decode_body_wf [OF raw(1)] by (simp_all add: res response_statement_def)
  have get: "map_option jnorm (dict_get env k) = map_option jnorm (dict_get result k)" for k
    by (rule jnorm_obj_get [OF raw(2) wfs])
  have f: "dict_get env (str ''profile'') = Some (JStr PROFILE)"
    "dict_get env (str ''request_sha256'') = Some (JStr (pd_request_sha256 p))"
    "dict_get env (str ''status'') = Some (JInt status)" "dict_get env (str ''kind'') = Some (JStr (response_kind status))"
    "dict_get env (str ''mac'') = Some (JStr m)"
    using get [of "str ''profile''"] get [of "str ''request_sha256''"] get [of "str ''status''"] get [of "str ''kind''"]
      get [of "str ''mac''"] by (auto simp: res response_statement_def)
  obtain w where "dict_get env (str ''body'') = Some w" "jnorm w = jnorm (JObj body)"
    using norm_get [OF raw(2) wfs, of "str ''body''" "JObj body"] by (auto simp: res response_statement_def)
  then obtain b where b: "dict_get env (str ''body'') = Some (JObj b)" "jnorm (JObj b) = jnorm (JObj body)"
    using jnorm_objD by blast
  have "(str ''body'', JObj b) \<in> set env" using b(1) by (simp add: dict_get_def map_of_SomeD)
  then have "json_wf (JObj b)" using decode_body_wf [OF raw(1)] unfolding json_wf.simps(2) [of env] list_all_iff by blast
  then have okb: "response_ok status b" using response_ok_norm [OF b(2) _ _ ok] wf by simp
  have "jnorm (JObj (?s body)) = jnorm (JObj (?s b))" using b(2) by (simp add: response_statement_def)
  then have mb: "response_mac (pd_key p) (?s b) = Inr m"
    using m encode_body_norm [of "?s body" "?s b"] by (auto simp: response_mac_Inr_iff)
  have keys: "dict_keys env = RESPONSE_FIELDS"
    unfolding norm_keys [OF raw(2) wfs] by (auto simp: res response_statement_def RESPONSE_FIELDS_def)
  from verify_with_Inr_I [OF raw(1) time okb keys f(1-4) b(1) f(5) mb] fresh b(2) show ?thesis
    by (simp add: verify_response_def)
qed

section \<open>Sizes\<close>

text \<open>A bound on the printed length of a value, for the limit on encoded objects.\<close>

fun text_size :: "json \<Rightarrow> nat" where
  "text_size (JBool b) = 5"
| "text_size (JStr t) = 6 * length t + 2"
| "text_size (JInt i) = length (int_str i)"
| "text_size (JList vs) = 2 + sum_list (map (\<lambda>v. text_size v + 1) vs)"
| "text_size (JObj kvs) = 2 + sum_list (map (\<lambda>(k, v). 6 * length k + 4 + text_size v) kvs)"
| "text_size _ = 4"

lemma join_length: "length (join [44] xs) \<le> sum_list (map (\<lambda>x. length x + 1) xs)"
  by (induction "[44 :: nat]" xs rule: join.induct) simp_all

lemma escape_string_length: "length (escape_string t) \<le> 6 * length t + 2"
proof (induction t)
  case (Cons c t)
  have "length (escape_char c) \<le> 6" by (simp add: escape_char_def hex4_def split: option.split)
  with Cons show ?case by (simp add: escape_string_def)
qed (simp add: escape_string_def)

lemma render_length: "length (render v) \<le> text_size v"
proof (induction v)
  case (JList vs)
  have "sum_list (map (\<lambda>x. length x + 1) (map render vs)) \<le> sum_list (map (\<lambda>v. text_size v + 1) vs)"
    unfolding map_map comp_def by (rule sum_list_mono) (simp add: JList)
  with join_length [of "map render vs"] show ?case by simp
next
  case (JObj kvs)
  have "length (render_item x) + 1 \<le> (\<lambda>(k, v). 6 * length k + 4 + text_size v) x" if "x \<in> set kvs" for x
  proof (cases x)
    case (Pair k v)
    with that JObj have "length (render v) \<le> text_size v" by fastforce
    with escape_string_length [of k] Pair show ?thesis by simp
  qed
  then have "sum_list (map (\<lambda>x. length x + 1) (map render_item kvs)) \<le>
      sum_list (map (\<lambda>(k, v). 6 * length k + 4 + text_size v) kvs)"
    unfolding map_map comp_def by (rule sum_list_mono)
  with join_length [of "map render_item kvs"] show ?case by simp
next
  case (JStr t)
  then show ?case using escape_string_length by simp
qed simp_all

lemma sum_list_sort_key: "sum_list (map (f :: 'a \<Rightarrow> nat) (sort_key g xs)) = sum_list (map f xs)"
  by (metis mset_map mset_sort sum_mset_sum_list)

lemma text_size_jnorm [simp]: "text_size (jnorm v) = text_size v"
proof (induction v rule: jnorm.induct)
  case (1 vs)
  then show ?case by (simp add: comp_def cong: map_cong)
next
  case (2 kvs)
  have "(\<lambda>(k, v). 6 * length k + 4 + text_size v) (fst kv, jnorm (snd kv)) = (\<lambda>(k, v). 6 * length k + 4 + text_size v) kv"
    if "kv \<in> set kvs" for kv using 2 [OF that] by (simp add: case_prod_beta)
  then have eq: "map (\<lambda>(k, v). 6 * length k + 4 + text_size v) (map (\<lambda>kv. (fst kv, jnorm (snd kv))) kvs) =
      map (\<lambda>(k, v). 6 * length k + 4 + text_size v) kvs" unfolding map_map comp_def by (intro map_cong) simp_all
  show ?case unfolding jnorm.simps text_size.simps sum_list_sort_key eq ..
qed simp_all

lemma encode_small:
  assumes "json_ok (JObj d)" and "depth_ok 0 (JObj d)" and "4 * text_size (JObj d) \<le> MAX_BYTES"
  shows "\<exists>raw. encode_body d = Inr raw"
proof -
  obtain t raw where t: "serialize (JObj d) = Inr t" "utf8 t = Some raw" "canonicalize (JObj d) = Inr raw"
    using canonicalize_ok [OF assms(1)] by (auto simp: canonicalize_Inr_iff)
  have "length (concat (map utf8_units t)) \<le> 4 * length t"
    by (induction t) (simp_all add: utf8_units_length)
  then have "length raw \<le> 4 * length t" using t(2) by (auto simp: utf8_def split: if_splits)
  also have "length t \<le> text_size (JObj d)"
    using render_length [of "jnorm (JObj d)"] serialize_render [OF t(1)] text_size_jnorm [of "JObj d"] by simp
  finally have "length raw \<le> MAX_BYTES" using assms(3) by simp
  with t(3) assms(2) show ?thesis unfolding encode_body_Inr_iff by blast
qed

section \<open>A sample exchange\<close>

definition sample_peer :: verified_peer where
  "sample_peer = \<lparr>vp_public_key = hex (x_public sample_lib [5]), vp_assurance = str ''none'', vp_measurement = []\<rparr>"

definition sample_pending :: "pending_response res" where
  "sample_pending = mk_pending sample_lib sample_peer [] (Some 30) [6] (replicate 32 7) (Some 1000)"

lemma sample_pending_ok: "\<exists>p. sample_pending = Inr p"
proof -
  let ?d = "request_envelope sample_lib sample_peer [] [6] (replicate 32 7)"
  have "length (x_public sample_lib k) = 32" for k using sample_x25519 by (simp add: x25519_correct_def)
  then obtain raw where "encode_body ?d = Inr raw"
    using encode_small [of ?d] by (auto simp: request_envelope_def sample_peer_def PROFILE_def MAX_BYTES_def)
  moreover obtain shared where "x_exchange sample_lib [6] (x_public sample_lib [5]) = Some shared"
    by (simp add: sample_lib_def)
  ultimately show ?thesis
    using response_key_own [OF sample_x25519] unfolding sample_pending_def mk_pending_def
    by (simp add: sample_peer_def)
qed

lemma finish_small:
  assumes "lower_hex_of_len 64 (rp_request_sha256 producer)" and "status = 200 \<or> status = 400"
    and "json_wf (JObj body)" and "json_ok (JObj body)" and "depth_ok 1 (JObj body)" and "text_size (JObj body) \<le> 200000"
  shows "\<exists>result raw. producer_finish producer status body = Inr result \<and>
    json_wf (JObj result) \<and> encode_body result = Inr raw"
proof -
  let ?s = "response_statement (rp_request_sha256 producer) status body"
  have h: "length (rp_request_sha256 producer) = 64" "list_all encodable (rp_request_sha256 producer)"
    using assms(1) by (simp_all add: lower_hex_of_len_def encodable_lower_hex [OF assms(1)])
  have i: "length (int_str status) = 3" using assms(2) by (auto simp: int_str_def nat_str.simps)
  have st: "json_ok (JInt status)" using assms(2) by (auto simp: MAX_SAFE_INTEGER_def)
  have k: "length (response_kind status) \<le> 10" "list_all encodable (response_kind status)" by (simp_all add: response_kind_def)
  note sizes = response_statement_def PROFILE_def MAX_BYTES_def
  obtain sraw where s: "encode_body ?s = Inr sraw"
    using encode_small [of ?s] assms h i st k by (auto simp: sizes simp del: json_ok.simps(1))
  define m where "m = hmac_sha256_hex (rp_key producer) (RESPONSE_STATEMENT @ sraw)"
  have m: "lower_hex_of_len 64 m" by (simp add: m_def)
  then have "length m = 64" "list_all encodable m" by (simp_all add: lower_hex_of_len_def encodable_lower_hex [OF m])
  then obtain raw where "encode_body (?s @ [(str ''mac'', JStr m)]) = Inr raw"
    using encode_small [of "?s @ [(str ''mac'', JStr m)]"] assms h i st k by (auto simp: sizes simp del: json_ok.simps(1))
  then show ?thesis
    using s assms(3) by (simp add: producer_finish_def Let_def response_mac_def m_def [symmetric] response_statement_def)
qed

section \<open>Properties\<close>

text \<open>
  C19: A pending response is used once. In any run of verifications of one pending response, in
  whatever order and with whatever bytes, every outcome after the first is the authentication
  failure; after any attempt the state is spent and holds no key.
\<close>

theorem response_one_use:
  assumes "pending_run L p rs q" and "\<not> pd_used p"
  shows "list_all (\<lambda>r. r = Inl auth_failed) (tl rs) \<and> (rs \<noteq> [] \<longrightarrow> pd_used q \<and> pd_key q = [])"
proof -
  obtain "as" where "rs = pending.outcomes L p as" using run_outcomes [OF assms(1)] by blast
  then have "list_all (\<lambda>r. r = Inl auth_failed) (tl rs)" by (simp add: pending.only_first_counts)
  moreover have "pd_used q \<and> pd_key q = []" if "rs \<noteq> []"
    using run_erases [of L p "hd rs" "tl rs" q] assms that by simp
  ultimately show ?thesis by blast
qed

theorem response_one_use_witness:
  "\<exists>p q r. sample_pending = Inr p \<and> pending_run sample_lib p [r, Inl auth_failed] q \<and> pd_used q \<and> pd_key q = []"
proof -
  obtain p where p: "sample_pending = Inr p" using sample_pending_ok by blast
  then have fresh: "\<not> pd_used p"
    by (auto simp: sample_pending_def mk_pending_def bindE_Inr_iff)
  define p' r where "p' = fst (verify_response sample_lib p 200 [] None None)"
    and "r = snd (verify_response sample_lib p 200 [] None None)"
  have "pending_run sample_lib p [r, snd (verify_response sample_lib p' 200 [] None None)]
      (fst (verify_response sample_lib p' 200 [] None None))"
    unfolding p'_def r_def by (rule run_step [OF surjective_pairing], rule run_step [OF surjective_pairing], rule run_nil)
  then obtain r' q where run: "pending_run sample_lib p [r, r'] q" by blast
  from response_one_use [OF run fresh] run p show ?thesis by auto
qed

text \<open>
  C6: What a caller accepts was authenticated for its request. An accepted response was the first
  and only verification of its pending request, arrived within the deadline by both clock reads,
  and carries the MAC, under the session key that only the two ends derive, of the statement that
  names this request's digest, the HTTP status, the kind and exactly the returned body; a 200
  says accepted and any other status is a client or server error with an error object.
\<close>

theorem response_authentic:
  assumes "verify_response L p status raw t1 t2 = (q, Inr r)"
  shows "\<not> pd_used p \<and> pd_used q \<and> in_time p t1 \<and> in_time p t2 \<and> vr_status r = status \<and>
     response_ok status (vr_body r) \<and> vr_request_sha256 r = pd_request_sha256 p \<and> vr_peer_assurance r = pd_assurance p \<and>
     (\<exists>env m. decode_body L raw = Inr env \<and> dict_get_none env (str ''mac'') = JStr m \<and>
        response_mac (pd_key p) (response_statement (pd_request_sha256 p) status (vr_body r)) = Inr m)"
proof -
  from assms have "\<not> pd_used p" "pd_used q" and v: "verify_with L p (pd_key p) status raw t1 t2 = Inr r"
    by (auto simp: verify_response_def catchE_Inr_iff split: if_splits)
  with verify_with_Inr [OF v] show ?thesis by blast
qed

text \<open>
  An honest exchange completes. The callee that holds the private half of the appraised
  channel key accepts the request bytes of a pending response and derives the same digest and
  key; and whatever result it finishes, the caller accepts within the deadline, with that status
  and body, in any encoding of the finished object.
\<close>

theorem response_complete:
  assumes "x25519_correct L" and "mk_pending L peer message timeout e session clock = Inr p"
    and "vp_public_key peer = hex (x_public L k)" and "json_wf (JObj message)" and "length session = 32"
  shows "\<exists>env producer. decode_body L (pd_request p) = Inr env \<and> mk_producer L k env = Inr producer \<and>
    dict_get (rp_envelope producer) (str ''request'') = Some (jnorm (JObj message)) \<and>
    (\<forall>status body result raw env2 t1 t2.
       producer_finish producer status body = Inr result \<longrightarrow> json_wf (JObj body) \<longrightarrow> response_ok status body \<longrightarrow>
       decode_body L raw = Inr env2 \<longrightarrow> jnorm (JObj env2) = jnorm (JObj result) \<longrightarrow> in_time p t1 \<longrightarrow> in_time p t2 \<longrightarrow>
       (\<exists>r. snd (verify_response L p status raw t1 t2) = Inr r \<and> vr_status r = status \<and>
            jnorm (JObj (vr_body r)) = jnorm (JObj body)))"
proof -
  obtain env where env: "jnorm (JObj (request_envelope L peer message e session)) = JObj env" by simp
  let ?pr = "\<lparr>rp_envelope = env, rp_request_sha256 = pd_request_sha256 p, rp_key = pd_key p\<rparr>"
  have fresh: "\<not> pd_used p" using assms(2) by (auto simp: mk_pending_def bindE_Inr_iff)
  note pr = producer_of_pending [OF assms env]
  show ?thesis
    by (rule exI [of _ env], rule exI [of _ ?pr])
       (use pr fresh finished_verifies [of ?pr _ _ _ p] in \<open>auto simp del: jnorm.simps json_wf.simps\<close>)
qed

theorem response_complete_witness:
  "\<exists>p r raw. sample_pending = Inr p \<and> snd (verify_response sample_lib p 200 raw (Some 1001) (Some 1002)) = Inr r \<and> vr_status r = 200"
proof -
  obtain p where p: "sample_pending = Inr p" using sample_pending_ok by blast
  then have mk: "mk_pending sample_lib sample_peer [] (Some 30) [6] (replicate 32 7) (Some 1000) = Inr p"
    by (simp add: sample_pending_def)
  then have t: "in_time p (Some 1001)" "in_time p (Some 1002)"
    by (auto simp: mk_pending_def bindE_Inr_iff in_time_def)
  have pk: "vp_public_key sample_peer = hex (x_public sample_lib [5])" by (simp add: sample_peer_def)
  from response_complete [OF sample_x25519 mk pk] obtain producer env where pr: "mk_producer sample_lib [5] env = Inr producer"
    and ok: "\<And>status body result raw env2 t1 t2.
       producer_finish producer status body = Inr result \<Longrightarrow> json_wf (JObj body) \<Longrightarrow> response_ok status body \<Longrightarrow>
       decode_body sample_lib raw = Inr env2 \<Longrightarrow> jnorm (JObj env2) = jnorm (JObj result) \<Longrightarrow> in_time p t1 \<Longrightarrow> in_time p t2 \<Longrightarrow>
       (\<exists>r. snd (verify_response sample_lib p status raw t1 t2) = Inr r \<and> vr_status r = status \<and>
            jnorm (JObj (vr_body r)) = jnorm (JObj body))"
    by (auto simp del: jnorm.simps)
  from pr have "lower_hex_of_len 64 (rp_request_sha256 producer)"
    by (auto simp: mk_producer_def bindE_Inr_iff)
  from finish_small [OF this, of 200 "[(str ''accepted'', JBool True)]"] obtain result raw where fin: "producer_finish producer 200 [(str ''accepted'', JBool True)] = Inr result"
    and res: "json_wf (JObj result)" "encode_body result = Inr raw" by auto
  obtain env2 where "jnorm (JObj result) = JObj env2" by simp
  with decode_encode [OF res this, of sample_lib] jnorm_idem [of "JObj result"]
  have "decode_body sample_lib raw = Inr env2" "jnorm (JObj env2) = jnorm (JObj result)" by simp_all
  from ok [OF fin _ _ this t] p show ?thesis by (auto simp: response_ok_def dict_get_none_def)
qed

text \<open>
  The bounded codec is a round trip. Decoding the bytes of an encoded object gives the object
  with its keys in canonical order, which encodes to the same bytes again, so the digest of a
  request does not depend on which end computes it.
\<close>

theorem codec_roundtrip:
  assumes "json_wf (JObj d)" and "encode_body d = Inr raw"
  shows "\<exists>e. decode_body L raw = Inr e \<and> JObj e = jnorm (JObj d) \<and> encode_body e = Inr raw"
  using decode_encode [OF assms, of _ L] by simp

theorem codec_roundtrip_witness:
  "\<exists>raw e. encode_body [(str ''b'', JInt 1), (str ''a'', JNull)] = Inr raw \<and> decode_body sample_lib raw = Inr e"
proof -
  have i: "int_str 1 = [49]" by (simp add: int_str_def nat_str.simps)
  obtain raw where r: "encode_body [(str ''b'', JInt 1), (str ''a'', JNull)] = Inr raw"
    using encode_small [of "[(str ''b'', JInt 1), (str ''a'', JNull)]"] by (auto simp: i MAX_BYTES_def MAX_SAFE_INTEGER_def)
  from codec_roundtrip [OF _ r, of sample_lib] r show ?thesis by auto
qed

theorem response_authentic_witness:
  "\<exists>p q r raw. sample_pending = Inr p \<and> verify_response sample_lib p 200 raw (Some 1001) (Some 1002) = (q, Inr r) \<and>
     response_ok 200 (vr_body r) \<and> \<not> pd_used p"
proof -
  obtain p where p: "sample_pending = Inr p" using sample_pending_ok by blast
  then have mk: "mk_pending sample_lib sample_peer [] (Some 30) [6] (replicate 32 7) (Some 1000) = Inr p"
    by (simp add: sample_pending_def)
  then have t: "in_time p (Some 1001)" "in_time p (Some 1002)" and fresh: "\<not> pd_used p"
    by (auto simp: mk_pending_def bindE_Inr_iff in_time_def)
  let ?pr = "\<lparr>rp_envelope = [], rp_request_sha256 = pd_request_sha256 p, rp_key = pd_key p\<rparr>"
  from mk have "lower_hex_of_len 64 (rp_request_sha256 ?pr)" by (auto simp: mk_pending_def bindE_Inr_iff)
  from finish_small [OF this, of 200 "[(str ''accepted'', JBool True)]"] obtain result raw where fin: "producer_finish ?pr 200 [(str ''accepted'', JBool True)] = Inr result"
    and res: "json_wf (JObj result)" "encode_body result = Inr raw" by auto
  obtain env2 where "jnorm (JObj result) = JObj env2" by simp
  with decode_encode [OF res this, of sample_lib] jnorm_idem [of "JObj result"]
  have "decode_body sample_lib raw = Inr env2" "jnorm (JObj env2) = jnorm (JObj result)" by simp_all
  from finished_verifies [OF fin _ _ _ _ fresh t this] obtain r q
    where v: "verify_response sample_lib p 200 raw (Some 1001) (Some 1002) = (q, Inr r)"
    by (auto simp: response_ok_def dict_get_none_def) (metis prod.collapse)
  from response_authentic [OF v] v p show ?thesis by auto
qed

end
