(* ===== verification/Node.thy ===== *)
theory Node
  imports Adapter Response
begin

text \<open>
  The peer node, \<open>ca2a_runtime/node.py\<close>, and the request handlers of the reference HTTP server,
  \<open>ca2a_runtime/transport/server.py\<close>. The generated channel key and challenge secret are arguments
  of the constructor; what a call reads from its surroundings (the clocks, the random bytes of a
  challenge, the snapshot its revocation source returns, the free-text detail of an error) is the
  record \<open>call_env\<close>. Sockets, URL parsing and the output of \<open>json.dumps\<close> stay outside: a handler maps
  the parsed request to a status and a body.
\<close>

section \<open>The node\<close>

type_synonym attest_fn = "ustr \<Rightarrow> ustr \<Rightarrow> ustr \<Rightarrow> attestation_report res"

record node_args =
  na_policy :: policy
  na_provider :: "attest_fn option"
  na_max_depth :: int
  na_requirement :: ustr
  na_caller_verifier :: "verifier option"
  na_ttl :: int
  na_require_holder :: bool
  na_trusted :: "ustr set"
  na_has_source :: bool
  na_max_staleness :: "int option"

record peer_node =
  pn_policy :: policy
  pn_provider :: attest_fn
  pn_max_depth :: int
  pn_requirement :: ustr
  pn_caller_verifier :: "verifier option"
  pn_ttl :: int
  pn_require_holder :: bool
  pn_trusted :: "ustr set"
  pn_has_source :: bool
  pn_max_staleness :: "int option"
  pn_private_key :: bytes
  pn_channel_public_key :: ustr
  pn_challenge_secret :: bytes

record call_env =
  env_chain_clock :: int
  env_holder_clock :: int
  env_offer_clock :: int
  env_issue_clock :: int
  env_issue_random :: bytes
  env_snapshot :: "revocation_snapshot option"
  env_detail :: "exn \<Rightarrow> json"

definition mk_node :: "lib \<Rightarrow> node_args \<Rightarrow> bytes \<Rightarrow> bytes \<Rightarrow> peer_node res" where
  "mk_node L a private secret =
     (if na_requirement a |\<notin>| REQUIREMENT_VALUES
      then Inl (Ca2a ConfigError (str ''require_caller_attestation must be one of '' @ py_repr L (str_list REQUIREMENT_VALUES)
              @ str '', got '' @ py_repr L (JStr (na_requirement a))) None)
      else if na_requirement a = REQUIRE_HARDWARE \<and> na_caller_verifier a = None
      then raise ConfigError ''require_caller_attestation='hardware' needs a caller_verifier''
      else Inr \<lparr>pn_policy = na_policy a,
             pn_provider = (case na_provider a of Some p \<Rightarrow> p | None \<Rightarrow> software_attest),
             pn_max_depth = na_max_depth a, pn_requirement = na_requirement a,
             pn_caller_verifier = na_caller_verifier a, pn_ttl = na_ttl a, pn_require_holder = na_require_holder a,
             pn_trusted = na_trusted a, pn_has_source = na_has_source a, pn_max_staleness = na_max_staleness a,
             pn_private_key = private, pn_channel_public_key = hex (x_public L private),
             pn_challenge_secret = secret\<rparr>)"

definition node_offer :: "peer_node \<Rightarrow> ustr \<Rightarrow> channel_offer res" where
  "node_offer node nonce = attest_channel (pn_provider node) (pn_channel_public_key node) nonce ROLE_CALLEE"

definition node_issue_challenge :: "peer_node \<Rightarrow> call_env \<Rightarrow> ustr res" where
  "node_issue_challenge node env =
     issue_challenge (pn_challenge_secret node) (pn_ttl node) (env_issue_clock env) (env_issue_random env)"

definition node_config :: "peer_node \<Rightarrow> call_env \<Rightarrow> peer_config" where
  "node_config node env = \<lparr>cfg_policy = pn_policy node, cfg_enclave_key = Some (pn_private_key node),
     cfg_max_depth = pn_max_depth node, cfg_challenge_secret = Some (pn_challenge_secret node),
     cfg_requirement = pn_requirement node, cfg_caller_verifier = pn_caller_verifier node,
     cfg_audience = Some (pn_channel_public_key node), cfg_require_holder = pn_require_holder node,
     cfg_trusted = pn_trusted node, cfg_revocations = (if pn_has_source node then env_snapshot env else None),
     cfg_max_staleness = pn_max_staleness node, cfg_chain_clock = env_chain_clock env,
     cfg_holder_clock = env_holder_clock env, cfg_offer_clock = env_offer_clock env\<rparr>"

definition node_handle :: "lib \<Rightarrow> peer_node \<Rightarrow> call_env \<Rightarrow> jdict \<Rightarrow> peer_result res" where
  "node_handle L node env message =
     bindE (parse_peer_request L message None) (\<lambda>request.
     bindE (expect request (transport_error ''message carries no cA2A extension metadata'')) (\<lambda>request.
     handle_peer_request L (node_config node env) request))"

text \<open>\<open>serialize_error(exc)\<close> with the status, for the exceptions that \<open>except CA2AError\<close> catches.\<close>

definition error_response :: "call_env \<Rightarrow> exn \<Rightarrow> (int \<times> jdict) res" where
  "error_response env e =
     (case exn_class e of
        None \<Rightarrow> Inl e
      | Some c \<Rightarrow> Inr (http_status c, serialize_error c (exn_msg e) (env_detail env e)))"

definition catch_ca2a :: "call_env \<Rightarrow> (int \<times> jdict) res \<Rightarrow> (int \<times> jdict) res" where
  "catch_ca2a env m = (case m of Inr r \<Rightarrow> Inr r | Inl e \<Rightarrow> error_response env e)"

definition node_handle_authenticated ::
  "lib \<Rightarrow> peer_node \<Rightarrow> call_env \<Rightarrow> jdict \<Rightarrow> (int \<times> jdict) res" where
  "node_handle_authenticated L node env envelope =
     bindE (mk_producer L (pn_private_key node) envelope) (\<lambda>producer.
     bindE (expect (as_obj (dict_get_none (rp_envelope producer) (str ''request''))) auth_failed) (\<lambda>request.
     bindE (catch_ca2a env
              (bindE (node_handle L node env request) (\<lambda>result.
               bindE (serialize_peer_result result) (\<lambda>body. Inr (200, body))))) (\<lambda>(status, body).
     bindE (producer_finish producer status body) (\<lambda>response. Inr (status, response)))))"

section \<open>The HTTP handlers\<close>

definition CHANNEL_PATH :: ustr where
  "CHANNEL_PATH = str ''/.well-known/ca2a/channel''"

definition TASK_PATH :: ustr where
  "TASK_PATH = str ''/ca2a/task''"

definition AUTHENTICATED_TASK_PATH :: ustr where
  "AUTHENTICATED_TASK_PATH = str ''/ca2a/task/authenticated''"

definition MAX_BODY :: int where
  "MAX_BODY = 1048576"

definition MAX_NONCE :: nat where
  "MAX_NONCE = 256"

definition plain_error :: "string \<Rightarrow> string \<Rightarrow> jdict" where
  "plain_error code message =
     [(str ''error'', JObj [(str ''code'', JStr (str code)), (str ''message'', JStr (str message))])]"

text \<open>\<open>nonces\<close> is what \<open>parse_qs\<close> finds under \<open>nonce\<close>, the empty list when it raises.\<close>

definition do_GET :: "peer_node \<Rightarrow> call_env \<Rightarrow> ustr \<Rightarrow> ustr list \<Rightarrow> (int \<times> jdict) res" where
  "do_GET node env path nonces =
     (if path \<noteq> CHANNEL_PATH then Inr (404, plain_error ''NOT_FOUND'' ''unknown path'')
      else (case nonces of
        [nonce] \<Rightarrow>
          if nonce = [] \<or> length nonce > MAX_NONCE
          then Inr (400, plain_error ''BAD_REQUEST'' ''exactly one bounded nonce is required'')
          else (case node_offer node nonce of
            Inl e \<Rightarrow> error_response env e
          | Inr offer \<Rightarrow>
              bindE (node_issue_challenge node env) (\<lambda>challenge.
              Inr (200, serialize_channel_offer offer (Some challenge))))
      | _ \<Rightarrow> Inr (400, plain_error ''BAD_REQUEST'' ''exactly one bounded nonce is required'')))"

text \<open>
  The header is the text of \<open>Content-Length\<close>; \<open>read\<close> gives the bytes of the body, \<open>None\<close> on a
  timeout, and \<open>loads\<close> is \<open>json.loads\<close> on a bytes object, which detects its encoding first.
\<close>

definition read_message ::
  "lib \<Rightarrow> (bytes \<Rightarrow> json option) \<Rightarrow> ustr \<Rightarrow> bytes option \<Rightarrow> json option" where
  "read_message L loads path body =
     (case body of
        None \<Rightarrow> None
      | Some raw \<Rightarrow>
          if path = AUTHENTICATED_TASK_PATH
          then (case decode_body L raw of Inl _ \<Rightarrow> None | Inr d \<Rightarrow> Some (JObj d))
          else loads raw)"

definition do_POST ::
  "lib \<Rightarrow> (bytes \<Rightarrow> json option) \<Rightarrow> peer_node \<Rightarrow> call_env \<Rightarrow> ustr \<Rightarrow> ustr \<Rightarrow> (int \<Rightarrow> bytes option) \<Rightarrow>
   (int \<times> jdict) res" where
  "do_POST L loads node env path raw_length read =
     (if path \<noteq> TASK_PATH \<and> path \<noteq> AUTHENTICATED_TASK_PATH then Inr (404, plain_error ''NOT_FOUND'' ''unknown path'')
      else if raw_length = [] \<or> \<not> list_all is_digit raw_length
      then Inr (400, plain_error ''BAD_REQUEST'' ''invalid body length'')
      else
        bindE (expect (py_int L raw_length) (PyExn ValueError)) (\<lambda>len.
        if len \<le> 0 \<or> len > MAX_BODY then Inr (400, plain_error ''BAD_REQUEST'' ''invalid body length'')
        else (case read_message L loads path (read len) of
          None \<Rightarrow> Inr (400, plain_error ''BAD_REQUEST'' ''invalid JSON'')
        | Some v \<Rightarrow>
            (case as_obj v of
               None \<Rightarrow> Inr (400, plain_error ''BAD_REQUEST'' ''object required'')
             | Some message \<Rightarrow>
                 if path = AUTHENTICATED_TASK_PATH
                 then catch_ca2a env (node_handle_authenticated L node env message)
                 else (case node_handle L node env message of
                   Inl e \<Rightarrow> error_response env e
                 | Inr result \<Rightarrow> bindE (serialize_peer_result result) (\<lambda>body. Inr (200, body)))))))"

section \<open>Response bodies\<close>

lemma json_wf_str_list [simp]: "json_wf (str_list s)"
  by (simp add: str_list_def list_all_iff)

lemma json_wf_opt_str [simp]: "json_wf (opt_str s)"
  by (cases s) simp_all

lemma json_wf_dict_set:
  "json_wf (JObj d) \<Longrightarrow> json_wf v \<Longrightarrow> json_wf (JObj (dict_set k v d))"
proof -
  assume a: "json_wf (JObj d)" "json_wf v"
  have "set (AList.update k v d) \<subseteq> insert (k, v) (set d)" by (induction d) auto
  with a show ?thesis by (auto simp: dict_wf_set list_all_iff dict_set_def distinct_update)
qed

lemma rec_body_wf: "json_wf (JObj (rec_body r))"
  by (auto simp: rec_body_def split: option.splits)

lemma serialize_peer_result_ok:
  assumes "serialize_peer_result res = Inr body"
  shows "json_wf (JObj body) \<and> response_ok 200 body"
proof -
  from assms obtain r where r: "record_to_dict (res_record res) = Inr r"
    and b: "body = [(str ''accepted'', JBool True), (str ''effective_scope'', str_list (res_effective res)),
          (str ''granted_capability'', JStr (res_granted res)),
          (str ''caller_attestation'', JStr (res_caller_attestation res)), (str ''record'', JObj r)]"
    by (auto simp: serialize_peer_result_def bindE_Inr_iff)
  have "json_wf (JObj r)" using r rec_body_wf by (auto simp: record_to_dict_def bindE_Inr_iff intro!: json_wf_dict_set simp del: json_wf.simps(2))
  then show ?thesis by (simp add: b response_ok_def dict_get_none_def)
qed

lemma serialize_error_ok:
  "json_wf detail \<Longrightarrow> json_wf (JObj (serialize_error c m detail)) \<and> response_ok (http_status c) (serialize_error c m detail)"
  using http_status_client_or_server [of c] by (simp add: serialize_error_def response_ok_def dict_get_none_def)

lemma error_response_Inr: "error_response env e = Inr (status, body) \<Longrightarrow> response_ok status body \<and> status \<noteq> 200"
proof -
  assume "error_response env e = Inr (status, body)"
  then obtain c where "status = http_status c" "body = serialize_error c (exn_msg e) (env_detail env e)"
    by (auto simp: error_response_def split: option.splits)
  with http_status_client_or_server [of c] show ?thesis
    by (simp add: serialize_error_def response_ok_def dict_get_none_def)
qed

lemma plain_error_ok: "response_ok 400 (plain_error c m)"
  by (simp add: response_ok_def plain_error_def dict_get_none_def)

text \<open>What the node answers to a request: the serialized result or the serialized refusal.\<close>

definition answer :: "lib \<Rightarrow> peer_node \<Rightarrow> call_env \<Rightarrow> jdict \<Rightarrow> (int \<times> jdict) res" where
  "answer L node env request =
     catch_ca2a env (bindE (node_handle L node env request) (\<lambda>result.
       bindE (serialize_peer_result result) (\<lambda>body. Inr (200, body))))"

lemma answer_Inr:
  assumes "answer L node env request = Inr (status, body)" and "\<And>e. json_wf (env_detail env e)"
  shows "json_wf (JObj body) \<and> response_ok status body \<and>
    (status = 200 \<longleftrightarrow> (\<exists>res. node_handle L node env request = Inr res \<and> serialize_peer_result res = Inr body))"
proof (cases "bindE (node_handle L node env request) (\<lambda>result. bindE (serialize_peer_result result) (\<lambda>b. Inr (200 :: int, b)))")
  case (Inl e)
  with assms(1) obtain c where c: "status = http_status c" "body = serialize_error c (exn_msg e) (env_detail env e)"
    by (auto simp: answer_def catch_ca2a_def error_response_def split: option.splits)
  have "status \<noteq> 200" using c(1) http_status_client_or_server [of c] by simp
  moreover have "\<nexists>res. node_handle L node env request = Inr res \<and> serialize_peer_result res = Inr body"
    using Inl by (auto simp: bindE_Inl_iff)
  ultimately show ?thesis using c serialize_error_ok [OF assms(2)] by simp
next
  case (Inr sb)
  with assms(1) have sb: "sb = (status, body)" by (simp add: answer_def catch_ca2a_def)
  with Inr show ?thesis using serialize_peer_result_ok by (auto simp: bindE_Inr_iff)
qed

section \<open>A sample node\<close>

definition sample_node :: peer_node where
  "sample_node = \<lparr>pn_policy = LocalPolicy {|str ''read''|}, pn_provider = software_attest, pn_max_depth = 8,
     pn_requirement = REQUIRE_NONE, pn_caller_verifier = None, pn_ttl = 60, pn_require_holder = True,
     pn_trusted = {sample_key 1}, pn_has_source = False, pn_max_staleness = None, pn_private_key = [5],
     pn_channel_public_key = hex (x_public sample_lib [5]), pn_challenge_secret = [1]\<rparr>"

definition sample_env :: call_env where
  "sample_env = \<lparr>env_chain_clock = 100, env_holder_clock = 120, env_offer_clock = 120, env_issue_clock = 100,
     env_issue_random = replicate 16 7, env_snapshot = None, env_detail = (\<lambda>_. JNull)\<rparr>"

lemma empty_message_refused:
  "answer L node sample_env [] =
     Inr (400, serialize_error TransportError (str ''message carries no cA2A extension metadata'') JNull)"
proof -
  have "parse_peer_request L [] None = Inr None"
    by (simp add: parse_peer_request_def collect_metadata_def add_metadata_def dict_get_none_def has_ca2a_metadata_def)
  then show ?thesis
    by (simp add: answer_def node_handle_def catch_ca2a_def error_response_def sample_env_def)
qed

section \<open>Properties\<close>

text \<open>
  C4: The authenticated exchange, end to end. When the node that owns the appraised channel key
  answers the request bytes of a pending response, the caller accepts what it answers within the
  deadline, whatever the order of the keys on the way, with the same status and body; and the
  status is 200 exactly when the node's pipeline accepted the caller's own message.
\<close>

theorem authenticated_exchange:
  assumes "x25519_correct L" and "mk_pending L peer message timeout e session clock = Inr p"
    and "vp_public_key peer = hex (x_public L (pn_private_key node))" and "json_wf (JObj message)" and "length session = 32"
    and "\<And>x. json_wf (env_detail env x)"
    and "decode_body L (pd_request p) = Inr envelope"
    and "node_handle_authenticated L node env envelope = Inr (status, response)"
    and "decode_body L raw = Inr arrived" and "jnorm (JObj arrived) = jnorm (JObj response)"
    and "in_time p t1" and "in_time p t2"
  shows "\<exists>r request. snd (verify_response L p status raw t1 t2) = Inr r \<and> vr_status r = status \<and>
     jnorm (JObj message) = JObj request \<and>
     (status = 200 \<longleftrightarrow> (\<exists>res body. node_handle L node env request = Inr res \<and> serialize_peer_result res = Inr body \<and>
        jnorm (JObj (vr_body r)) = jnorm (JObj body)))"
proof -
  obtain env' where env': "jnorm (JObj (request_envelope L peer message e session)) = JObj env'" by simp
  let ?pr = "\<lparr>rp_envelope = env', rp_request_sha256 = pd_request_sha256 p, rp_key = pd_key p\<rparr>"
  note pr = producer_of_pending [OF assms(1-5) env']
  from pr assms(7) have eq: "envelope = env'" by simp
  have fresh: "\<not> pd_used p" using assms(2) by (auto simp: mk_pending_def bindE_Inr_iff)
  obtain request where req: "jnorm (JObj message) = JObj request" by simp
  with pr have "dict_get_none env' (str ''request'') = JObj request" by (simp add: dict_get_none_def)
  with assms(8) pr eq obtain body where ans: "answer L node env request = Inr (status, body)"
    and fin: "producer_finish ?pr status body = Inr response"
    by (auto simp: node_handle_authenticated_def answer_def bindE_Inr_iff split: prod.splits)
  note ok = answer_Inr [OF ans assms(6)]
  from finished_verifies [OF fin _ _ _ _ fresh assms(11,12) assms(9,10)] ok
  obtain r where "snd (verify_response L p status raw t1 t2) = Inr r" "vr_status r = status"
    "jnorm (JObj (vr_body r)) = jnorm (JObj body)"
    by (auto simp del: jnorm.simps json_wf.simps)
  moreover have "(\<exists>res b. node_handle L node env request = Inr res \<and> serialize_peer_result res = Inr b \<and>
        jnorm (JObj (vr_body r)) = jnorm (JObj b)) \<Longrightarrow> status = 200"
    using ans by (auto simp: answer_def catch_ca2a_def)
  ultimately show ?thesis using req ok by (auto simp del: jnorm.simps json_wf.simps)
qed

theorem authenticated_exchange_witness:
  "\<exists>p r raw. sample_pending = Inr p \<and> snd (verify_response sample_lib p 400 raw (Some 1001) (Some 1002)) = Inr r"
proof -
  obtain p where p: "sample_pending = Inr p" using sample_pending_ok by blast
  then have mk: "mk_pending sample_lib sample_peer [] (Some 30) [6] (replicate 32 7) (Some 1000) = Inr p"
    by (simp add: sample_pending_def)
  then have t: "in_time p (Some 1001)" "in_time p (Some 1002)" and sha: "lower_hex_of_len 64 (pd_request_sha256 p)"
    by (auto simp: mk_pending_def bindE_Inr_iff in_time_def)
  have pk: "vp_public_key sample_peer = hex (x_public sample_lib (pn_private_key sample_node))"
    by (simp add: sample_peer_def sample_node_def)
  obtain env where env: "jnorm (JObj (request_envelope sample_lib sample_peer [] [6] (replicate 32 7))) = JObj env" by simp
  let ?pr = "\<lparr>rp_envelope = env, rp_request_sha256 = pd_request_sha256 p, rp_key = pd_key p\<rparr>"
  let ?b = "serialize_error TransportError (str ''message carries no cA2A extension metadata'') JNull"
  note pr = producer_of_pending [OF sample_x25519 mk pk _ _ env, simplified]
  have i: "int_str 400 = [52, 48, 48]" by (simp add: int_str_def nat_str.simps)
  have "lower_hex_of_len 64 (rp_request_sha256 ?pr)" using sha by simp
  from finish_small [OF this, of 400 ?b] obtain result raw
    where fin: "producer_finish ?pr 400 ?b = Inr result" and res: "json_wf (JObj result)" "encode_body result = Inr raw"
    by (auto simp: serialize_error_def i MAX_SAFE_INTEGER_def)
  obtain env2 where "jnorm (JObj result) = JObj env2" by simp
  with decode_encode [OF res this, of sample_lib] jnorm_idem [of "JObj result"]
  have dec: "decode_body sample_lib raw = Inr env2" "jnorm (JObj env2) = jnorm (JObj result)" by simp_all
  have "node_handle_authenticated sample_lib sample_node sample_env env = Inr (400, result)"
    using pr fin empty_message_refused [of sample_lib sample_node]
    by (simp add: node_handle_authenticated_def sample_node_def dict_get_none_def answer_def [symmetric])
  from authenticated_exchange [OF sample_x25519 mk pk _ _ _ _ this dec t] pr p show ?thesis
    by (auto simp: sample_env_def)
qed

text \<open>
  C20: The task endpoint answers 200 exactly for an accepted call. A POST to the task path is
  answered with 200 exactly when its length is acceptable, its body parses to an object and the
  node's pipeline accepts that message, and then the answer is the accepted result; every other
  answer is a client or server error with an error object.
\<close>

theorem task_endpoint_correct:
  assumes "do_POST L loads node env TASK_PATH raw_length read = Inr (status, body)"
  shows "(status = 200 \<longleftrightarrow>
       (\<exists>len raw message res. raw_length \<noteq> [] \<and> list_all is_digit raw_length \<and> py_int L raw_length = Some len \<and> 0 < len \<and> len \<le> MAX_BODY \<and> read len = Some raw \<and>
          loads raw = Some (JObj message) \<and> node_handle L node env message = Inr res \<and>
          serialize_peer_result res = Inr body)) \<and>
     response_ok status body"
proof -
  note d = assms [unfolded do_POST_def]
  have paths: "TASK_PATH \<noteq> AUTHENTICATED_TASK_PATH" by (simp add: TASK_PATH_def AUTHENTICATED_TASK_PATH_def)
  show ?thesis
  proof (cases "raw_length = [] \<or> \<not> list_all is_digit raw_length")
    case True
    with d plain_error_ok show ?thesis by auto
  next
    case False
    with d obtain len where len: "py_int L raw_length = Some len" by (auto simp: bindE_Inr_iff expect_iff)
    show ?thesis
    proof (cases "0 < len \<and> len \<le> MAX_BODY \<and> (\<exists>raw message. read len = Some raw \<and> loads raw = Some (JObj message))")
      case True
      then obtain raw message where m: "read len = Some raw" "loads raw = Some (JObj message)" "0 < len" "len \<le> MAX_BODY"
        by blast
      show ?thesis
      proof (cases "node_handle L node env message")
        case (Inl e)
        with d False len m paths have "error_response env e = Inr (status, body)" by (simp add: read_message_def)
        from error_response_Inr [OF this] Inl m len show ?thesis by auto
      next
        case (Inr res)
        with d False len m paths have "status = 200" "serialize_peer_result res = Inr body"
          by (auto simp: read_message_def bindE_Inr_iff)
        with False len m Inr serialize_peer_result_ok show ?thesis by auto
      qed
    next
      case bad: False
      then have "\<not> (\<exists>message. 0 < len \<and> len \<le> MAX_BODY \<and> read_message L loads TASK_PATH (read len) = Some (JObj message))"
        using paths by (auto simp: read_message_def split: option.splits)
      with d False len have "status = 400 \<and> (\<exists>c m. body = plain_error c m)"
        by (auto split: if_splits option.splits)
      with plain_error_ok bad len show ?thesis by auto
    qed
  qed
qed

theorem task_endpoint_correct_witness:
  "\<exists>body. do_POST sample_lib (\<lambda>_. Some (JObj [])) sample_node sample_env TASK_PATH (str ''2'') (\<lambda>_. Some []) = Inr (400, body) \<and>
     response_ok 400 body"
proof -
  have "py_int sample_lib (str ''2'') = Some 2"
    by (simp add: py_int_def to_ascii_def strip_spaces_def is_space_def parse_signed_def parse_nat_def digit_run_def
        is_digit_def digits_val_def INT_MAX_STR_DIGITS_def str_simps)
  moreover have "\<exists>e. node_handle sample_lib sample_node sample_env [] = Inl e \<and> (\<exists>b. error_response sample_env e = Inr (400, b))"
    by (simp add: node_handle_def parse_peer_request_def collect_metadata_def add_metadata_def dict_get_none_def
        has_ca2a_metadata_def error_response_def)
  ultimately obtain body where
    b: "do_POST sample_lib (\<lambda>_. Some (JObj [])) sample_node sample_env TASK_PATH (str ''2'') (\<lambda>_. Some []) = Inr (400, body)"
    by (auto simp: do_POST_def read_message_def TASK_PATH_def AUTHENTICATED_TASK_PATH_def MAX_BODY_def str_simps is_digit_def)
  from task_endpoint_correct [OF b] b show ?thesis by blast
qed

text \<open>
  A header of more digits than \<open>int\<close> converts raises outside the handler's \<open>try\<close>: no response is sent.
\<close>

lemma long_length_escapes:
  assumes "length raw_length > INT_MAX_STR_DIGITS" and "list_all is_digit raw_length"
  shows "do_POST L loads node env TASK_PATH raw_length read = Inl (PyExn ValueError)"
proof -
  have ne: "raw_length \<noteq> []" using assms(1) by auto
  have d: "\<forall>c \<in> set raw_length. is_digit c" using assms(2) by (simp add: list_all_iff)
  have "all_ascii L raw_length = Some raw_length"
    using d digit_not_special by (intro all_ascii_id) (auto simp: list_all_iff)
  moreover have "strip_spaces raw_length = raw_length"
    using d ne digit_not_special by (intro strip_spaces_id) auto
  moreover have "filter (\<lambda>c. c \<noteq> 95) raw_length = raw_length" using d digit_not_special by (simp add: filter_id_conv)
  then have "parse_nat raw_length = None" using assms(1) by (simp add: parse_nat_def)
  moreover have "hd raw_length \<noteq> 45" "hd raw_length \<noteq> 43" using d ne digit_not_special by auto
  ultimately have "py_int L raw_length = None" using ne by (cases raw_length) (simp_all add: py_int_def parse_signed_def)
  then show ?thesis using assms(2) ne by (simp add: do_POST_def TASK_PATH_def AUTHENTICATED_TASK_PATH_def)
qed

end
