(* ===== verification/Client.thy ===== *)
theory Client
  imports Node
begin

text \<open>
  The caller, \<open>ca2a_runtime/transport/client.py\<close>: the handshake, the construction of a request and
  the two ways of reading the response. The network is three functions that the definitions take:
  the JSON of the handshake endpoint for a nonce, the status and JSON of a posted task and the
  status and bytes of an authenticated one, or the exception they raise. The generated keys,
  nonces and clock reads are the record \<open>task_random\<close>.
\<close>

section \<open>Handshake\<close>

record handshake_result =
  hs_peer :: verified_peer
  hs_challenge :: "ustr option"

definition handshake ::
  "lib \<Rightarrow> (ustr \<Rightarrow> json res) \<Rightarrow> bytes \<Rightarrow> verifier option \<Rightarrow> bool \<Rightarrow> handshake_result res" where
  "handshake L get rnd verifier require_hardware =
     (let nonce = hex rnd in
      bindE (get nonce) (\<lambda>body.
      bindE (parse_channel_offer L body) (\<lambda>offer.
      bindE (verify_offer L offer nonce verifier require_hardware ROLE_CALLEE) (\<lambda>peer.
      bindE (expect (as_obj body) (PyExn TypeError)) (\<lambda>data.
      bindE (parse_challenge data) (\<lambda>challenge.
      Inr \<lparr>hs_peer = peer, hs_challenge = challenge\<rparr>))))))"

definition fetch_verified_peer ::
  "lib \<Rightarrow> (ustr \<Rightarrow> json res) \<Rightarrow> bytes \<Rightarrow> verifier option \<Rightarrow> bool \<Rightarrow> verified_peer res" where
  "fetch_verified_peer L get rnd verifier require_hardware =
     bindE (handshake L get rnd verifier require_hardware) (\<lambda>h. Inr (hs_peer h))"

section \<open>The request\<close>

record task_args =
  ta_chain :: "delegation_credential list"
  ta_capability :: ustr
  ta_record_id :: ustr
  ta_holder_key :: bytes
  ta_payload :: "bytes option"
  ta_verifier :: "verifier option"
  ta_require_hardware :: bool
  ta_parent_hash :: "ustr option"
  ta_provider :: "attest_fn option"
  ta_authenticated :: bool

record task_random =
  tr_nonce :: bytes
  tr_seal_key :: bytes
  tr_seal_nonce :: bytes
  tr_channel_key :: bytes
  tr_session_key :: bytes
  tr_session :: bytes
  tr_started :: "rat option"
  tr_first_check :: "rat option"
  tr_second_check :: "rat option"

definition seal_task :: "lib \<Rightarrow> task_args \<Rightarrow> task_random \<Rightarrow> verified_peer \<Rightarrow> bytes option res" where
  "seal_task L a rnd peer =
     (case ta_payload a of
        None \<Rightarrow> Inr None
      | Some payload \<Rightarrow>
          bindE (seal_to_peer L peer (tr_seal_key rnd) (tr_seal_nonce rnd) payload []) (\<lambda>b. Inr (Some b)))"

definition offer_task :: "lib \<Rightarrow> task_args \<Rightarrow> task_random \<Rightarrow> ustr \<Rightarrow> (bytes \<times> channel_offer) option res" where
  "offer_task L a rnd challenge =
     (case ta_provider a of
        None \<Rightarrow> Inr None
      | Some attest \<Rightarrow> bindE (offer_channel L attest (tr_channel_key rnd) challenge ROLE_CALLER) (\<lambda>ko. Inr (Some ko)))"

definition task_facts :: "task_args \<Rightarrow> verified_peer \<Rightarrow> bytes option \<Rightarrow> channel_offer option \<Rightarrow> request_facts" where
  "task_facts a peer sealed offer =
     \<lparr>rf_audience = vp_public_key peer, rf_capability = ta_capability a, rf_record_id = ta_record_id a,
      rf_sealed_payload = sealed, rf_caller_key = map_option co_public_key offer, rf_parent_hash = ta_parent_hash a\<rparr>"

definition task_claim ::
  "task_args \<Rightarrow> verified_peer \<Rightarrow> ustr \<Rightarrow> delegation_credential \<Rightarrow> bytes option \<Rightarrow> channel_offer \<Rightarrow> holder_proof \<Rightarrow> possession_claim" where
  "task_claim a peer challenge leaf sealed offer hp =
     \<lparr>pc_challenge = challenge, pc_callee_key = vp_public_key peer, pc_caller_key = co_public_key offer,
      pc_credential_id = cred_id leaf, pc_subject = cred_subject leaf, pc_capability = ta_capability a,
      pc_record_id = ta_record_id a, pc_sealed_payload = sealed, pc_parent_hash = ta_parent_hash a,
      pc_holder_signature = Some (hp_signature hp)\<rparr>"

definition prove_task ::
  "lib \<Rightarrow> task_args \<Rightarrow> verified_peer \<Rightarrow> ustr \<Rightarrow> delegation_credential \<Rightarrow> bytes option \<Rightarrow> (bytes \<times> channel_offer) option \<Rightarrow>
   holder_proof \<Rightarrow> caller_possession option res" where
  "prove_task L a peer challenge leaf sealed ko hp =
     (case ko of
        None \<Rightarrow> Inr None
      | Some (key, offer) \<Rightarrow>
          bindE (prove_caller_possession L key (vp_public_key peer)
                   (caller_possession_transcript (task_claim a peer challenge leaf sealed offer hp))) (\<lambda>p. Inr (Some p)))"

text \<open>From the handshake to the request: seal, offer, holder proof, possession, in this order.\<close>

definition build_request ::
  "lib \<Rightarrow> task_args \<Rightarrow> task_random \<Rightarrow> handshake_result \<Rightarrow> peer_request res" where
  "build_request L a rnd hello =
     bindE (expect (hs_challenge hello) (Ca2a AttestationFailed
              (str ''the peer issued no challenge, so the caller cannot prove it holds the leaf key'') None)) (\<lambda>challenge.
     let peer = hs_peer hello in
     bindE (seal_task L a rnd peer) (\<lambda>sealed.
     bindE (offer_task L a rnd challenge) (\<lambda>ko.
     let offer = map_option snd ko in
     bindE (leaf_of (ta_chain a)) (\<lambda>leaf.
     bindE (build_holder_proof L (ta_holder_key a) leaf challenge (task_facts a peer sealed offer)) (\<lambda>hp.
     bindE (prove_task L a peer challenge leaf sealed ko hp) (\<lambda>possession.
     Inr \<lparr>pr_chain = ta_chain a, pr_capability = ta_capability a, pr_record_id = ta_record_id a,
          pr_sealed_payload = sealed, pr_parent_hash = ta_parent_hash a, pr_caller_offer = offer,
          pr_holder_proof = Some hp, pr_possession = possession\<rparr>))))))"

section \<open>The response\<close>

text \<open>
  What the caller's code raises: an exception of its own, the peer's error rebuilt with the peer's
  code, message and status, or an authenticated denial with what authenticated it.
\<close>

datatype client_exn = Raised exn | PeerError ustr ustr int | PeerDenial ustr ustr int jdict

definition rehydrate_error :: "lib \<Rightarrow> json \<Rightarrow> client_exn" where
  "rehydrate_error L err =
     (case as_obj err of
        None \<Rightarrow> Raised (PyExn AttributeError)
      | Some d \<Rightarrow>
          PeerError (case as_str (dict_get_none d (str ''code'')) of Some c \<Rightarrow> c | None \<Rightarrow> str (err_code CA2AError))
            (py_str L (dict_get_or d ''message'' (JStr (str ''peer error''))))
            (case as_int_or_bool (dict_get_none d (str ''http_status'')) of Some s \<Rightarrow> s | None \<Rightarrow> http_status CA2AError))"

definition authenticated_peer_error :: "lib \<Rightarrow> verified_response \<Rightarrow> client_exn" where
  "authenticated_peer_error L response =
     (case as_obj (dict_get_none (vr_body response) (str ''error'')) of
        None \<Rightarrow> Raised (PyExn AttributeError)
      | Some d \<Rightarrow>
          PeerDenial (py_str L (dict_get_or d ''code'' (JStr (str ''PEER_DENIAL''))))
            (py_str L (dict_get_or d ''message'' (JStr (str ''peer denial''))))
            (vr_status response) (vr_authentication response))"

definition local_exn :: "'a res \<Rightarrow> client_exn + 'a" where
  "local_exn m = (case m of Inl e \<Rightarrow> Inl (Raised e) | Inr x \<Rightarrow> Inr x)"

definition no_authenticated_response :: exn where
  "no_authenticated_response =
     Ca2a ResponseAuthenticationFailed (str ''no authenticated response; execution outcome is unknown'') None"

definition is_post_error :: "exn \<Rightarrow> bool" where
  "is_post_error e \<longleftrightarrow> e = PyExn OSError \<or> e = PyExn HTTPException \<or> (\<exists>c \<in> set_option (exn_class e). is_transport_error c)"

definition read_authenticated ::
  "lib \<Rightarrow> task_random \<Rightarrow> pending_response \<Rightarrow> (bytes \<Rightarrow> (int \<times> bytes) res) \<Rightarrow> verified_response res" where
  "read_authenticated L rnd pending post =
     catchE (bindE (post (pd_request pending)) (\<lambda>(status, raw).
             snd (verify_response L pending status raw (tr_first_check rnd) (tr_second_check rnd))))
       is_post_error (\<lambda>_. Inl no_authenticated_response)"

definition finish_authenticated :: "lib \<Rightarrow> verified_response \<Rightarrow> client_exn + jdict" where
  "finish_authenticated L response =
     (if vr_status response \<noteq> 200 then Inl (authenticated_peer_error L response)
      else Inr (dict_set (str ''response_authentication'') (JObj (vr_authentication response)) (vr_body response)))"

definition finish_plain :: "lib \<Rightarrow> int \<times> json \<Rightarrow> client_exn + jdict" where
  "finish_plain L sb =
     (case as_obj (snd sb) of
        None \<Rightarrow> Inl (Raised (PyExn (if fst sb = 200 \<and> as_list (snd sb) \<noteq> None then TypeError else AttributeError)))
      | Some body \<Rightarrow>
          if fst sb \<noteq> 200 then Inl (rehydrate_error L (dict_get_or body ''error'' (JObj [])))
          else Inr (dict_pop (str ''response_authentication'') body))"

definition send_task ::
  "lib \<Rightarrow> task_args \<Rightarrow> task_random \<Rightarrow> (ustr \<Rightarrow> json res) \<Rightarrow> (jdict \<Rightarrow> (int \<times> json) res) \<Rightarrow>
   (bytes \<Rightarrow> (int \<times> bytes) res) \<Rightarrow> client_exn + jdict" where
  "send_task L a rnd get post post_auth =
     bindE (local_exn (handshake L get (tr_nonce rnd) (ta_verifier a) (ta_require_hardware a))) (\<lambda>hello.
     bindE (local_exn (build_request L a rnd hello)) (\<lambda>request.
     bindE (local_exn (attach_ca2a_metadata [] request)) (\<lambda>message.
     if ta_authenticated a then
       bindE (local_exn (mk_pending L (hs_peer hello) message (Some 30) (tr_session_key rnd) (tr_session rnd) (tr_started rnd)))
         (\<lambda>pending.
       bindE (local_exn (read_authenticated L rnd pending post_auth)) (\<lambda>response. finish_authenticated L response))
     else bindE (local_exn (post message)) (\<lambda>sb. finish_plain L sb))))"

section \<open>A loopback network\<close>

text \<open>The handshake endpoint of a node, as \<open>urlopen\<close> shows it: an error status raises.\<close>

definition node_get :: "peer_node \<Rightarrow> call_env \<Rightarrow> ustr \<Rightarrow> json res" where
  "node_get node env nonce =
     bindE (do_GET node env CHANNEL_PATH [nonce]) (\<lambda>(status, body).
     if status = 200 then Inr (JObj body) else Inl (PyExn OSError))"

lemma node_get_Inr:
  assumes "node_get node env nonce = Inr v"
  shows "\<exists>offer ch. v = JObj (serialize_channel_offer offer (Some ch)) \<and>
    co_public_key offer = pn_channel_public_key node \<and> node_issue_challenge node env = Inr ch"
proof -
  from assms obtain body where g: "do_GET node env CHANNEL_PATH [nonce] = Inr (200, body)" and v: "v = JObj body"
    by (auto simp: node_get_def bindE_Inr_iff split: if_splits)
  then obtain offer where o: "node_offer node nonce = Inr offer"
    by (cases "node_offer node nonce") (auto simp: do_GET_def dest: error_response_Inr split: if_splits)
  with g obtain ch where "body = serialize_channel_offer offer (Some ch)" "node_issue_challenge node env = Inr ch"
    by (auto simp: do_GET_def bindE_Inr_iff split: if_splits)
  moreover have "co_public_key offer = pn_channel_public_key node"
    using o by (auto simp: node_offer_def attest_channel_def bindE_Inr_iff)
  ultimately show ?thesis using v by blast
qed

lemma parse_offer_key:
  assumes "parse_channel_offer L (JObj (serialize_channel_offer offer ch)) = Inr offer'"
  shows "co_public_key offer' = co_public_key offer"
  using assms by (auto simp: parse_channel_offer_def bindE_Inr_iff expect_iff serialize_channel_offer_def)

lemma handshake_node:
  assumes "handshake L (node_get node env) rnd v rh = Inr hello"
  shows "vp_public_key (hs_peer hello) = pn_channel_public_key node \<and>
    (\<exists>ch. hs_challenge hello = Some ch \<and> ch \<noteq> [] \<and> node_issue_challenge node env = Inr ch)"
proof -
  from assms obtain body offer data where g: "node_get node env (hex rnd) = Inr body" and o: "parse_channel_offer L body = Inr offer"
    and p: "verify_offer L offer (hex rnd) v rh ROLE_CALLEE = Inr (hs_peer hello)" and d: "body = JObj data"
    and c: "parse_challenge data = Inr (hs_challenge hello)"
    by (auto simp: handshake_def Let_def bindE_Inr_iff expect_iff)
  from node_get_Inr [OF g] obtain of' ch where b: "body = JObj (serialize_channel_offer of' (Some ch))"
    "co_public_key of' = pn_channel_public_key node" "node_issue_challenge node env = Inr ch" by blast
  have "co_public_key offer = pn_channel_public_key node" using o parse_offer_key b by metis
  moreover have "vp_public_key (hs_peer hello) = co_public_key offer" using p by (simp add: verify_offer_Inr_iff)
  moreover have "hs_challenge hello = Some ch \<and> ch \<noteq> []"
    using c d b by (auto simp: parse_challenge_def serialize_channel_offer_def bindE_Inr_iff expect_iff)
  ultimately show ?thesis using b(3) by simp
qed

section \<open>The honest call\<close>

lemma build_request_Inr:
  assumes "build_request L a rnd hello = Inr req" and "hs_challenge hello = Some ch"
  obtains sealed ko hp possession where "seal_task L a rnd (hs_peer hello) = Inr sealed" "offer_task L a rnd ch = Inr ko"
    "ta_chain a \<noteq> []"
    "build_holder_proof L (ta_holder_key a) (last (ta_chain a)) ch (task_facts a (hs_peer hello) sealed (map_option snd ko)) = Inr hp"
    "prove_task L a (hs_peer hello) ch (last (ta_chain a)) sealed ko hp = Inr possession"
    "req = \<lparr>pr_chain = ta_chain a, pr_capability = ta_capability a, pr_record_id = ta_record_id a,
          pr_sealed_payload = sealed, pr_parent_hash = ta_parent_hash a, pr_caller_offer = map_option snd ko,
          pr_holder_proof = Some hp, pr_possession = possession\<rparr>"
  using assms by (auto simp: build_request_def Let_def bindE_Inr_iff leaf_of_Inr_iff)

lemma seal_to_key_ne: "seal_to_key L pk e n p aad = Inr b \<Longrightarrow> b \<noteq> []"
  by (auto simp: seal_to_key_def seal_def Let_def bindE_Inr_iff)

lemma seal_task_opens:
  assumes "x25519_correct L" and "aead_correct L" and "length (tr_seal_nonce rnd) = NONCE_LEN"
    and "vp_public_key peer = hex (x_public L k)" and "seal_task L a rnd peer = Inr sealed"
    and "cfg_enclave_key cfg = Some k" and "pr_sealed_payload req = sealed"
  shows "open_payload L cfg req = Inr (ta_payload a) \<and> sealed \<noteq> Some []"
proof (cases "ta_payload a")
  case None
  with assms(5,7) show ?thesis by (auto simp: seal_task_def open_payload_def)
next
  case (Some payload)
  with assms(5) obtain b where b: "seal_to_key L (hex (x_public L k)) (tr_seal_key rnd) (tr_seal_nonce rnd) payload [] = Inr b" "sealed = Some b"
    by (auto simp: seal_task_def seal_to_peer_def assms(4) bindE_Inr_iff)
  from open_seal [OF assms(1-3) b(1)] seal_to_key_ne [OF b(1)] Some b(2) assms(6,7) show ?thesis
    by (simp add: open_payload_def)
qed

text \<open>An offer minted by the software provider for the challenge is appraised, with its possession proof.\<close>

lemma software_caller_appraised:
  assumes x: "x25519_correct L" and ch: "verify_challenge L secret ch (cfg_offer_clock cfg) = Inr ()"
    and offer: "offer_task L a rnd ch = Inr (Some (key, offer))" "ta_provider a = Some software_attest"
    and prove: "prove_task L a peer ch (last (ta_chain a)) sealed (Some (key, offer)) hp = Inr possession"
    and peer: "vp_public_key peer = hex (x_public L k)"
    and cfg: "cfg_challenge_secret cfg = Some secret" "cfg_enclave_key cfg = Some k"
    and req: "pr_possession req = possession" "pr_chain req = ta_chain a" "pr_capability req = ta_capability a"
      "pr_record_id req = ta_record_id a" "pr_sealed_payload req = sealed" "pr_parent_hash req = ta_parent_hash a"
      "pr_holder_proof req = Some hp"
  shows "\<exists>vp. caller_appraised L cfg req offer vp \<and> outcome_of vp = CALLER_SOFTWARE_ONLY \<and> offer_wire_ok offer \<and>
    pred_option possession_wire_ok possession"
proof -
  from offer obtain rep where rep: "software_attest (hex (x_public L key)) ch ROLE_CALLER = Inr rep"
    and o: "offer = \<lparr>co_public_key = hex (x_public L key), co_report = rep\<rparr>"
    by (auto simp: offer_task_def offer_channel_def attest_channel_def bindE_Inr_iff)
  from prove obtain p where pp: "possession = Some p"
    "prove_caller_possession L key (hex (x_public L k)) (caller_possession_transcript (task_claim a peer ch (last (ta_chain a)) sealed offer hp)) = Inr p"
    by (auto simp: prove_task_def peer bindE_Inr_iff)
  have claim: "request_claim L req offer (last (pr_chain req)) k = task_claim a peer ch (last (ta_chain a)) sealed offer hp"
    using software.attest_binds [OF rep] o req by (simp add: request_claim_def task_claim_def peer)
  have "pc_callee_key (task_claim a peer ch (last (ta_chain a)) sealed offer hp) = hex (x_public L k)"
    by (simp add: task_claim_def peer)
  from prove_then_verify [OF x pp(2) this] have v: "verify_caller_possession L (pr_possession req) k
      (caller_possession_transcript (request_claim L req offer (last (pr_chain req)) k)) = Inr ()"
    unfolding claim req(1) pp(1) .
  let ?vp = "\<lparr>vp_public_key = hex (x_public L key), vp_assurance = str ''none'', vp_measurement = SOFTWARE_MEASUREMENT\<rparr>"
  have "verify_offer L offer ch (cfg_caller_verifier cfg) False ROLE_CALLER = Inr ?vp"
    using rep o by (auto simp: verify_offer_def software_attest_def)
  then have "appraise_caller L (cfg_offer_clock cfg) offer secret (cfg_caller_verifier cfg) = Inr ?vp"
    using ch rep o by (auto simp: appraise_caller_def software_attest_def)
  with v cfg have "caller_appraised L cfg req offer ?vp" by (auto simp: caller_appraised_def)
  moreover have "possession_wire_ok p"
    using pp(2)
    by (auto simp: prove_caller_possession_def Let_def bindE_Inr_iff possession_wire_ok_def CALLER_OFFER_VERSION_def
        lower_hex_of_len_def split: if_splits dest!: possession_mac_lower)
  moreover have "offer_wire_ok offer"
    using rep o by (auto simp: offer_wire_ok_def evidence_of_def software_attest_def ROLES_def)
  ultimately show ?thesis using pp(1) by (auto simp: outcome_of_def)
qed

lemma bare_attach:
  assumes "request_wire_ok req"
  shows "\<exists>message. attach_ca2a_metadata [] req = Inr message \<and> parse_peer_request L message None = Inr (Some req)"
proof -
  have place: "attach_place [] = InBare" by (simp add: attach_place_def dict_get_none_def)
  have "attach_ca2a_metadata [] req = Inr (write_target [] (attach_fields req []))"
    by (simp add: attach_ca2a_metadata_def attach_target_def place place_container_def)
  moreover have "no_stale_keys [] req" by (simp add: no_stale_keys_def outer_metadata_def place dict_get_none_def)
  ultimately show ?thesis using parse_attached [OF assms, of "[]" "[]" L] by simp
qed

section \<open>Properties\<close>


definition sample_task :: task_args where
  "sample_task = \<lparr>ta_chain = [sample_root, sample_leaf], ta_capability = str ''read'', ta_record_id = str ''r1'',
     ta_holder_key = [3], ta_payload = Some [1, 2, 3], ta_verifier = None, ta_require_hardware = False,
     ta_parent_hash = None, ta_provider = Some software_attest, ta_authenticated = False\<rparr>"

definition sample_random :: task_random where
  "sample_random = \<lparr>tr_nonce = [1, 2], tr_seal_key = [9], tr_seal_nonce = replicate 12 0, tr_channel_key = [8],
     tr_session_key = [6], tr_session = replicate 32 7, tr_started = Some 1000, tr_first_check = Some 1001,
     tr_second_check = Some 1002\<rparr>"

definition sample_offer :: "ustr \<Rightarrow> ustr \<Rightarrow> ustr \<Rightarrow> channel_offer" where
  "sample_offer key nonce role = \<lparr>co_public_key = key, co_report =
     \<lparr>ar_platform = SOFTWARE_ONLY, ar_measurement = SOFTWARE_MEASUREMENT, ar_public_key = key, ar_nonce = nonce,
      ar_raw_evidence = None, ar_quote_signature = None, ar_key_pem = None, ar_key_chain_pem = None, ar_role = role\<rparr>\<rparr>"

lemma software_offer: "attest_channel software_attest key nonce role = Inr (sample_offer key nonce role)"
  by (simp add: attest_channel_def software_attest_def sample_offer_def)

lemma sample_challenge_ne: "sample_challenge \<noteq> []"
  using sample_challenge_issued by (auto simp: issue_challenge_def Let_def bindE_Inr_iff)

abbreviation sample_hello :: handshake_result where
  "sample_hello \<equiv> \<lparr>hs_peer = \<lparr>vp_public_key = hex (x_public sample_lib [5]), vp_assurance = str ''none'',
     vp_measurement = SOFTWARE_MEASUREMENT\<rparr>, hs_challenge = Some sample_challenge\<rparr>"

lemma sample_handshake: "handshake sample_lib (node_get sample_node sample_env) [1, 2] None False = Inr sample_hello"
proof -
  let ?off = "sample_offer (hex (x_public sample_lib [5])) (hex [1, 2]) ROLE_CALLEE"
  have n: "hex [1, 2] \<noteq> []" "\<not> MAX_NONCE < length (hex [1, 2])" by (simp_all add: MAX_NONCE_def hex_def hex_byte_def)
  have "node_offer sample_node (hex [1, 2]) = Inr ?off" "node_issue_challenge sample_node sample_env = Inr sample_challenge"
    by (simp_all add: node_offer_def software_offer node_issue_challenge_def sample_node_def sample_env_def sample_challenge_issued)
  with n have g: "node_get sample_node sample_env (hex [1, 2]) = Inr (JObj (serialize_channel_offer ?off (Some sample_challenge)))"
    by (simp add: node_get_def do_GET_def)
  have "offer_wire_ok ?off" by (simp add: offer_wire_ok_def sample_offer_def evidence_of_def)
  moreover have "verify_offer sample_lib ?off (hex [1, 2]) None False ROLE_CALLEE = Inr (hs_peer sample_hello)"
    by (simp add: verify_offer_def sample_offer_def)
  ultimately show ?thesis
    using g sample_challenge_ne by (simp add: handshake_def Let_def parse_serialized_offer parse_serialized_challenge)
qed

lemma sample_build: "\<exists>req. build_request sample_lib sample_task sample_random sample_hello = Inr req"
proof -
  let ?off = "sample_offer (hex (x_public sample_lib [8])) sample_challenge ROLE_CALLER" and ?peer = "hs_peer sample_hello"
  have "x_exchange sample_lib [9] (x_public sample_lib [5]) \<noteq> None" by (simp add: sample_lib_def)
  then obtain sealed where s: "seal_task sample_lib sample_task sample_random ?peer = Inr sealed"
    by (auto simp: seal_task_def sample_task_def sample_random_def seal_to_peer_def seal_to_key_def sealed_channel_init_def
        sample_x25519 seal_def Let_def)
  have k: "offer_task sample_lib sample_task sample_random sample_challenge = Inr (Some ([8], ?off))"
    by (simp add: offer_task_def sample_task_def offer_channel_def sample_random_def software_offer)
  let ?f = "task_facts sample_task ?peer sealed (Some ?off)"
  obtain hp where hp: "build_holder_proof sample_lib [3] sample_leaf sample_challenge ?f = Inr hp"
    using sample_proof [of ?f] by (auto simp: task_facts_def sample_task_def sample_offer_def)
  have sig: "list_all encodable (hp_signature hp)"
    using hp by (auto simp: build_holder_proof_def bindE_Inr_iff split: if_splits)
  let ?c = "task_claim sample_task ?peer sample_challenge sample_leaf sealed ?off hp"
  have "json_ok (JObj (caller_possession_transcript ?c))"
    using sig by (auto simp: caller_possession_transcript_def task_claim_def sample_task_def sample_offer_def CALLER_OFFER_VERSION_def
        payload_sha256_def encodable_challenge sample_key_def sha256_hex_def split: option.split)
  then obtain m where "canonicalize (JObj (caller_possession_transcript ?c)) = Inr m" using canonicalize_ok by blast
  moreover obtain sh where "x_exchange sample_lib [8] (x_public sample_lib [5]) = Some sh" by (simp add: sample_lib_def)
  ultimately have "\<exists>p. prove_caller_possession sample_lib [8] (hex (x_public sample_lib [5])) (caller_possession_transcript ?c) = Inr p"
    by (simp add: prove_caller_possession_def Let_def transcript_get possession_mac_def sample_x25519)
       (simp add: task_claim_def sample_offer_def dict_get_none_def transcript_get)
  then obtain p where p: "prove_task sample_lib sample_task ?peer sample_challenge sample_leaf sealed (Some ([8], ?off)) hp = Inr (Some p)"
    by (auto simp: prove_task_def)
  have t: "ta_chain sample_task = [sample_root, sample_leaf]" "ta_holder_key sample_task = [3]" by (simp_all add: sample_task_def)
  show ?thesis using s k hp p by (simp add: build_request_def Let_def leaf_of_def t)
qed


text \<open>
  C28: Authentication metadata is only ever local. A result of an unauthenticated call never
  carries the reserved authentication field, whatever the peer returned; a result of an
  authenticated call is a 200 response whose MAC this call's own pending state verified, and its
  authentication field is the one made from that verification.
\<close>

theorem authentication_metadata_local:
  assumes "send_task L a rnd get post post_auth = Inr body"
  shows "if ta_authenticated a
    then \<exists>hello message p raw r. handshake L get (tr_nonce rnd) (ta_verifier a) (ta_require_hardware a) = Inr hello \<and>
           mk_pending L (hs_peer hello) message (Some 30) (tr_session_key rnd) (tr_session rnd) (tr_started rnd) = Inr p \<and>
           post_auth (pd_request p) = Inr (200, raw) \<and>
           snd (verify_response L p 200 raw (tr_first_check rnd) (tr_second_check rnd)) = Inr r \<and>
           response_ok 200 (vr_body r) \<and> vr_peer_assurance r = vp_assurance (hs_peer hello) \<and>
           dict_get body (str ''response_authentication'') = Some (JObj (vr_authentication r))
    else dict_get body (str ''response_authentication'') = None"
proof -
  have loc: "local_exn m = Inr x \<longleftrightarrow> m = Inr x" for m and x :: 'z by (simp add: local_exn_def split: sum.split)
  from assms obtain hello request message where h: "handshake L get (tr_nonce rnd) (ta_verifier a) (ta_require_hardware a) = Inr hello"
    and rest: "(if ta_authenticated a then
       bindE (local_exn (mk_pending L (hs_peer hello) message (Some 30) (tr_session_key rnd) (tr_session rnd) (tr_started rnd)))
         (\<lambda>pending. bindE (local_exn (read_authenticated L rnd pending post_auth)) (\<lambda>response. finish_authenticated L response))
     else bindE (local_exn (post message)) (\<lambda>sb. finish_plain L sb)) = Inr body"
    unfolding send_task_def bindE_Inr_iff loc by blast
  show ?thesis
  proof (cases "ta_authenticated a")
    case True
    with rest obtain p r where p: "mk_pending L (hs_peer hello) message (Some 30) (tr_session_key rnd) (tr_session rnd) (tr_started rnd) = Inr p"
      and r: "read_authenticated L rnd p post_auth = Inr r" and f: "finish_authenticated L r = Inr body"
      by (auto simp: bindE_Inr_iff loc)
    from r obtain status raw where s: "post_auth (pd_request p) = Inr (status, raw)"
      "snd (verify_response L p status raw (tr_first_check rnd) (tr_second_check rnd)) = Inr r"
      by (auto simp: read_authenticated_def catchE_Inr_iff bindE_Inr_iff)
    then have v: "verify_with L p (pd_key p) status raw (tr_first_check rnd) (tr_second_check rnd) = Inr r"
      by (auto simp: verify_response_def catchE_Inr_iff split: if_splits)
    from f have f': "vr_status r = 200" "dict_get body (str ''response_authentication'') = Some (JObj (vr_authentication r))"
      by (auto simp: finish_authenticated_def split: if_splits)
    moreover have "pd_assurance p = vp_assurance (hs_peer hello)" using p by (auto simp: mk_pending_def bindE_Inr_iff)
    ultimately show ?thesis using verify_with_Inr [OF v] True h p s by auto
  next
    case False
    with rest show ?thesis by (auto simp: bindE_Inr_iff finish_plain_def split: option.splits if_splits)
  qed
qed

theorem authentication_metadata_local_witness:
  "\<exists>body. send_task sample_lib sample_task sample_random (node_get sample_node sample_env)
       (\<lambda>_. Inr (200, JObj [(str ''accepted'', JBool True), (str ''response_authentication'', JNull)])) (\<lambda>_. Inl (PyExn OSError)) = Inr body \<and>
     dict_get body (str ''response_authentication'') = None"
proof -
  obtain req where req: "build_request sample_lib sample_task sample_random sample_hello = Inr req" using sample_build by blast
  have place: "attach_target [] = Inr []"
    by (simp add: attach_target_def place_container_def attach_place_def dict_get_none_def)
  have t: "tr_nonce sample_random = [1, 2]" "ta_verifier sample_task = None" "ta_require_hardware sample_task = False"
    "ta_authenticated sample_task = False" by (simp_all add: sample_task_def sample_random_def)
  have "\<exists>body. send_task sample_lib sample_task sample_random (node_get sample_node sample_env)
       (\<lambda>_. Inr (200, JObj [(str ''accepted'', JBool True), (str ''response_authentication'', JNull)])) (\<lambda>_. Inl (PyExn OSError)) = Inr body"
    using req place by (simp add: send_task_def t sample_handshake local_exn_def attach_ca2a_metadata_def finish_plain_def)
  then show ?thesis using authentication_metadata_local [of sample_lib sample_task] t(4) by fastforce
qed

end
