(* ===== verification/Sev_Snp.thy ===== *)
theory Sev_Snp
  imports Evidence Attestation
begin

text \<open>
  AMD SEV-SNP: the report surface, the provider and the offline appraisal of
  \<open>ca2a_runtime/tee/sev_snp.py\<close> and \<open>ca2a_verify/sev_snp.py\<close>. The layout of a report, its parser and
  the appraisal of platform bits belong to \<open>agent_manifest\<close> (\<open>snp_lib\<close>); certificates and ECDSA
  belong to \<open>cryptography\<close> and the shared chain verifier (\<open>x509_ops\<close>).
\<close>

section \<open>Packages\<close>

record snp_report =
  sr_version :: nat
  sr_guest_svn :: nat
  sr_policy :: nat
  sr_vmpl :: nat
  sr_signature_algo :: nat
  sr_measurement :: bytes
  sr_report_data :: bytes
  sr_raw :: bytes

text \<open>
  \<open>parse_snp_report\<close> (None is \<open>SnpVerificationError\<close>), the two offsets of the ABI table that are used
  here, and \<open>appraise_platform_info\<close> after \<open>parse_platform_info\<close>.
\<close>

record snp_lib =
  sl_parse :: "bytes \<Rightarrow> snp_report option"
  sl_signature :: nat
  sl_platform_info :: nat
  sl_appraise :: "nat \<Rightarrow> ustr set option \<Rightarrow> ustr set option \<Rightarrow> bool \<Rightarrow> unit res"

text \<open>
  Certificates \<open>'c\<close> and elliptic-curve keys \<open>'k\<close>: loading a PEM bundle (None is ValueError), PEM of a
  certificate, the shared chain verifier (false is \<open>CertChainError\<close>), the key of a certificate if it
  is an elliptic-curve one, a raw P-256 point, and ECDSA with a digest size over a pair \<open>(r, s)\<close>.
\<close>

record ('c, 'k) x509_ops =
  xo_load_pem :: "bytes \<Rightarrow> 'c list option"
  xo_to_pem :: "'c \<Rightarrow> bytes"
  xo_chain_ok :: "'c list \<Rightarrow> 'c list \<Rightarrow> bool"
  xo_ec_key :: "'c \<Rightarrow> 'k option"
  xo_p256 :: "bytes \<Rightarrow> 'k option"
  xo_ecdsa :: "nat \<Rightarrow> 'k \<Rightarrow> nat \<times> nat \<Rightarrow> bytes \<Rightarrow> unit res"

section \<open>Reports\<close>

definition SIG_COMPONENT_LEN :: nat where
  "SIG_COMPONENT_LEN = 72"

definition PLATFORM_INFO_LEN :: nat where
  "PLATFORM_INFO_LEN = 8"

definition SIG_ALGO_ECDSA_P384_SHA384 :: nat where
  "SIG_ALGO_ECDSA_P384_SHA384 = 1"

definition snp_report_data :: "ustr \<Rightarrow> ustr \<Rightarrow> ustr \<Rightarrow> bytes res" where
  "snp_report_data public_key nonce role =
     bindE (role_prefix SNP_PREFIX role) (\<lambda>prefix.
     bindE (derive_binding prefix public_key nonce) (\<lambda>digest. pad_report_data digest TSM_REPORT_DATA_LEN))"

definition sr_signed_body :: "snp_lib \<Rightarrow> snp_report \<Rightarrow> bytes" where
  "sr_signed_body S r = take (sl_signature S) (sr_raw r)"

definition sr_platform_info :: "snp_lib \<Rightarrow> snp_report \<Rightarrow> nat" where
  "sr_platform_info S r = from_le (slice (sr_raw r) (sl_platform_info S) PLATFORM_INFO_LEN)"

definition sr_signature_rs :: "snp_lib \<Rightarrow> snp_report \<Rightarrow> nat \<times> nat" where
  "sr_signature_rs S r =
     (from_le (slice (sr_raw r) (sl_signature S) SIG_COMPONENT_LEN),
      from_le (slice (sr_raw r) (sl_signature S + SIG_COMPONENT_LEN) SIG_COMPONENT_LEN))"

definition snp_parse :: "snp_lib \<Rightarrow> bytes \<Rightarrow> snp_report res" where
  "snp_parse S blob = expect (sl_parse S blob) (attestation_failed ''SEV-SNP report is malformed'')"

section \<open>The provider\<close>

definition snp_detect :: "tsm_host \<Rightarrow> bool \<Rightarrow> bool" where
  "snp_detect h device \<longleftrightarrow> tsm_available h \<and> device"

definition snp_require_host :: "tsm_host \<Rightarrow> bool \<Rightarrow> unit res" where
  "snp_require_host h device =
     bindE (require_tsm h (str ''SEV-SNP'')) (\<lambda>_.
     require device (Ca2a AttestationUnsupported (str ''SEV-SNP report generation requires a non-paravisor SNP guest'') None))"

definition snp_attest :: "lib \<Rightarrow> snp_lib \<Rightarrow> tsm_host \<Rightarrow> bool \<Rightarrow> ustr \<Rightarrow> ustr \<Rightarrow> ustr \<Rightarrow> attestation_report res" where
  "snp_attest L S h device public_key nonce role =
     bindE (snp_require_host h device) (\<lambda>_.
     bindE (snp_report_data public_key nonce role) (\<lambda>expected.
     bindE (snd (collect_report L h expected PROVIDER_SEV_GUEST)) (\<lambda>(outblob, auxblob).
     bindE (snp_parse S outblob) (\<lambda>report.
     bindE (require (sr_report_data report = expected)
       (attestation_failed ''the report does not commit the requested key and nonce binding'')) (\<lambda>_.
     Inr \<lparr>ar_platform = str ''sev-snp'', ar_measurement = str ''sha384:'' @ hex (sr_measurement report), ar_public_key = public_key,
          ar_nonce = nonce, ar_raw_evidence = Some (sr_raw report),
          ar_quote_signature = Some (slice (sr_raw report) (sl_signature S) (2 * SIG_COMPONENT_LEN)),
          ar_key_pem = None, ar_key_chain_pem = None, ar_role = role\<rparr>)))))"

interpretation snp: attestation_provider "snp_attest L S h device" "str ''sev-snp''" for L S h device
  by unfold_locales (auto simp: snp_attest_def guard_simps)

section \<open>Appraisal\<close>

definition verify_cert_chain :: "('c, 'k) x509_ops \<Rightarrow> 'c list \<Rightarrow> 'c list \<Rightarrow> unit res" where
  "verify_cert_chain X chain trusted_roots =
     require (xo_chain_ok X chain trusted_roots) (attestation_failed ''certificate chain verification failed'')"

text \<open>The expected values and platform policy of an appraisal; an absent or empty set asks nothing.\<close>

record snp_policy =
  sp_measurement :: "bytes option"
  sp_report_data :: "bytes option"
  sp_require :: "ustr set option"
  sp_forbid :: "ustr set option"
  sp_reject_unrecognized :: bool

definition asks :: "'a set option \<Rightarrow> bool" where
  "asks s \<longleftrightarrow> (case s of None \<Rightarrow> False | Some x \<Rightarrow> x \<noteq> {})"

definition appraise_platform :: "snp_lib \<Rightarrow> snp_policy \<Rightarrow> snp_report \<Rightarrow> unit res" where
  "appraise_platform S p report =
     (if asks (sp_require p) \<or> asks (sp_forbid p) \<or> sp_reject_unrecognized p
      then catchE (sl_appraise S (sr_platform_info S report) (sp_require p) (sp_forbid p) (sp_reject_unrecognized p)) (\<lambda>_. True)
        (\<lambda>_. Inl (attestation_failed ''platform state does not satisfy the configured policy''))
      else Inr ())"

definition verify_sev_snp_report ::
  "snp_lib \<Rightarrow> ('c, 'k) x509_ops \<Rightarrow> bytes \<Rightarrow> 'c list \<Rightarrow> 'c list \<Rightarrow> snp_policy \<Rightarrow> snp_report res" where
  "verify_sev_snp_report S X report_bytes vcek_chain trusted_roots p =
     bindE (snp_parse S report_bytes) (\<lambda>report.
     bindE (require (sr_signature_algo report = SIG_ALGO_ECDSA_P384_SHA384) (attestation_failed ''unsupported report signature algorithm'')) (\<lambda>_.
     bindE (verify_cert_chain X vcek_chain trusted_roots) (\<lambda>_.
     bindE (require (vcek_chain \<noteq> []) (PyExn IndexError)) (\<lambda>_.
     bindE (expect (xo_ec_key X (hd vcek_chain)) (attestation_failed ''VCEK does not carry an elliptic-curve public key'')) (\<lambda>key.
     bindE (catchE (xo_ecdsa X 384 key (sr_signature_rs S report) (sr_signed_body S report)) (\<lambda>e. e = PyExn InvalidSignature)
       (\<lambda>_. Inl (attestation_failed ''SEV-SNP report signature failed to verify''))) (\<lambda>_.
     bindE (require (\<forall>m \<in> set_option (sp_measurement p). sr_measurement report = m)
       (attestation_failed ''measurement does not match the expected value'')) (\<lambda>_.
     bindE (require (\<forall>d \<in> set_option (sp_report_data p). sr_report_data report = d)
       (attestation_failed ''report data does not match the expected binding'')) (\<lambda>_.
     bindE (appraise_platform S p report) (\<lambda>_. Inr report)))))))))"

text \<open>The verifier that \<open>sev_snp_verifier\<close> returns, with the arguments it closes over; DEBUG is bit 19 of the guest policy.\<close>

record 'c snp_requirements =
  sq_trusted_roots :: "'c list"
  sq_vcek_chain :: "'c list"
  sq_measurement :: bytes
  sq_min_guest_svn :: int
  sq_require :: "ustr set"
  sq_forbid :: "ustr set"
  sq_reject_unrecognized :: bool

definition snp_policy_of :: "'c snp_requirements \<Rightarrow> bytes \<Rightarrow> snp_policy" where
  "snp_policy_of q report_data = \<lparr>sp_measurement = Some (sq_measurement q), sp_report_data = Some report_data,
     sp_require = Some (sq_require q), sp_forbid = Some (sq_forbid q), sp_reject_unrecognized = sq_reject_unrecognized q\<rparr>"

definition POLICY_DEBUG :: nat where
  "POLICY_DEBUG = push_bit 19 1"

definition snp_verify :: "snp_lib \<Rightarrow> ('c, 'k) x509_ops \<Rightarrow> 'c snp_requirements \<Rightarrow> verifier" where
  "snp_verify S X q = (\<lambda>report nonce.
     (case ar_raw_evidence report of
        Some evidence \<Rightarrow>
          if ar_platform report \<noteq> str ''sev-snp''
          then Inl (attestation_failed ''SEV-SNP channel verification requires signed SNP evidence'')
          else
            bindE (require (ar_nonce report = nonce) (attestation_failed ''report nonce does not match the expected nonce'')) (\<lambda>_.
            bindE (snp_report_data (ar_public_key report) nonce (ar_role report)) (\<lambda>data.
            bindE (verify_sev_snp_report S X evidence (sq_vcek_chain q) (sq_trusted_roots q) (snp_policy_of q data)) (\<lambda>verified.
            bindE (require (and (sr_policy verified) POLICY_DEBUG = 0) (attestation_failed ''debug-enabled SNP guests are forbidden'')) (\<lambda>_.
            bindE (require (sr_vmpl verified = 0) (attestation_failed ''SNP channel verification requires VMPL0'')) (\<lambda>_.
            bindE (require (\<not> int (sr_guest_svn verified) < sq_min_guest_svn q)
              (attestation_failed ''SNP guest SVN is below the configured minimum'')) (\<lambda>_.
            Inr (str ''sha384:'' @ hex (sr_measurement verified))))))))
      | None \<Rightarrow> Inl (attestation_failed ''SEV-SNP channel verification requires signed SNP evidence'')))"

definition sev_snp_verifier :: "snp_lib \<Rightarrow> ('c, 'k) x509_ops \<Rightarrow> 'c snp_requirements \<Rightarrow> verifier res" where
  "sev_snp_verifier S X q =
     bindE (require (length (sq_measurement q) = 48) (PyExn ValueError)) (\<lambda>_.
     bindE (require (0 \<le> sq_min_guest_svn q \<and> sq_min_guest_svn q \<le> 0xFFFFFFFF) (PyExn ValueError)) (\<lambda>_.
     Inr (snp_verify S X q)))"

section \<open>What it accepts\<close>

lemma debug_bit: "and p POLICY_DEBUG = 0 \<longleftrightarrow> \<not> bit p 19"
  unfolding POLICY_DEBUG_def push_bit_eq_mult by (simp only: mult_1 and_exp_eq_0_iff_not_bit)

lemma verify_sev_snp_report_Inr:
  "verify_sev_snp_report S X raw chain roots p = Inr r \<Longrightarrow>
     sl_parse S raw = Some r \<and> sr_signature_algo r = SIG_ALGO_ECDSA_P384_SHA384 \<and> xo_chain_ok X chain roots \<and>
     (\<exists>leaf rest key. chain = leaf # rest \<and> xo_ec_key X leaf = Some key \<and>
        xo_ecdsa X 384 key (sr_signature_rs S r) (sr_signed_body S r) = Inr ()) \<and>
     (\<forall>m \<in> set_option (sp_measurement p). sr_measurement r = m) \<and> (\<forall>d \<in> set_option (sp_report_data p). sr_report_data r = d) \<and>
     (asks (sp_require p) \<or> asks (sp_forbid p) \<or> sp_reject_unrecognized p \<longrightarrow>
        sl_appraise S (sr_platform_info S r) (sp_require p) (sp_forbid p) (sp_reject_unrecognized p) = Inr ())"
  by (cases chain) (auto simp: verify_sev_snp_report_def snp_parse_def verify_cert_chain_def appraise_platform_def guard_simps split: if_splits)

text \<open>
  C30: What the SEV-SNP channel verifier accepts is fresh, bound and unweakened. An accepted offer
  carries an authentic report: parsed, its chain rooted in a trusted certificate, its ECDSA
  signature over the signed body valid under the chip's key; the report commits the offered
  channel key, the expected nonce and the role; the launch measurement is the expected one and is
  what is returned; debug is off, the VMPL is 0 and the guest version is at least the floor.
\<close>

theorem snp_verifier_sound:
  assumes "sev_snp_verifier S X q = Inr v" and "v report nonce = Inr m"
  shows "ar_platform report = str ''sev-snp'' \<and> ar_nonce report = nonce \<and>
    (\<exists>evidence r data leaf rest key. ar_raw_evidence report = Some evidence \<and> sl_parse S evidence = Some r \<and>
       sr_signature_algo r = SIG_ALGO_ECDSA_P384_SHA384 \<and>
       xo_chain_ok X (sq_vcek_chain q) (sq_trusted_roots q) \<and> sq_vcek_chain q = leaf # rest \<and> xo_ec_key X leaf = Some key \<and>
       xo_ecdsa X 384 key (sr_signature_rs S r) (sr_signed_body S r) = Inr () \<and>
       snp_report_data (ar_public_key report) nonce (ar_role report) = Inr data \<and> sr_report_data r = data \<and>
       sr_measurement r = sq_measurement q \<and> length (sr_measurement r) = 48 \<and> m = str ''sha384:'' @ hex (sr_measurement r) \<and>
       \<not> bit (sr_policy r) 19 \<and> sr_vmpl r = 0 \<and> sq_min_guest_svn q \<le> int (sr_guest_svn r))"
proof -
  from assms(1) have v: "v = snp_verify S X q" and len: "length (sq_measurement q) = 48"
    by (auto simp: sev_snp_verifier_def guard_simps)
  from assms(2) [unfolded v snp_verify_def] obtain evidence data r where
    p: "ar_platform report = str ''sev-snp''" "ar_nonce report = nonce" "ar_raw_evidence report = Some evidence"
      "snp_report_data (ar_public_key report) nonce (ar_role report) = Inr data"
    and r: "verify_sev_snp_report S X evidence (sq_vcek_chain q) (sq_trusted_roots q) (snp_policy_of q data) = Inr r"
    and c: "\<not> bit (sr_policy r) 19" "sr_vmpl r = 0" "sq_min_guest_svn q \<le> int (sr_guest_svn r)"
      "m = str ''sha384:'' @ hex (sr_measurement r)"
    by (auto simp: guard_simps debug_bit split: option.splits if_splits)
  from verify_sev_snp_report_Inr [OF r] p c len show ?thesis by (auto simp: snp_policy_of_def)
qed

definition sample_snp :: snp_lib where
  "sample_snp = \<lparr>sl_parse = (\<lambda>b. if length b < 112 then None else Some \<lparr>sr_version = 2, sr_guest_svn = 3, sr_policy = 0x30000, sr_vmpl = 0,
       sr_signature_algo = 1, sr_measurement = take 48 b, sr_report_data = take 64 (drop 48 b), sr_raw = b\<rparr>),
     sl_signature = 112, sl_platform_info = 0, sl_appraise = (\<lambda>info req forb rej. Inr ())\<rparr>"

definition sample_x509 :: "(nat, bytes) x509_ops" where
  "sample_x509 = \<lparr>xo_load_pem = (\<lambda>b. if b = [] then None else Some (map unat b)), xo_to_pem = (\<lambda>c. [of_nat c]),
     xo_chain_ok = (\<lambda>chain roots. chain \<noteq> [] \<and> last chain \<in> set roots), xo_ec_key = (\<lambda>c. Some [of_nat c]),
     xo_p256 = (\<lambda>b. Some b), xo_ecdsa = (\<lambda>n key rs m. if key = [] then Inl (PyExn InvalidSignature) else Inr ())\<rparr>"

definition sample_requirements :: "nat snp_requirements" where
  "sample_requirements = \<lparr>sq_trusted_roots = [2], sq_vcek_chain = [1, 2], sq_measurement = replicate 48 7, sq_min_guest_svn = 3,
     sq_require = {}, sq_forbid = {str ''smt_enabled''}, sq_reject_unrecognized = True\<rparr>"

theorem snp_verifier_sound_witness:
  "\<exists>v report m. sev_snp_verifier sample_snp sample_x509 sample_requirements = Inr v \<and> v report (str ''n'') = Inr m \<and>
     ar_platform report = str ''sev-snp'' \<and> m = str ''sha384:'' @ hex (replicate 48 7)"
proof -
  obtain d where d: "snp_report_data (str ''k'') (str ''n'') ROLE_CALLER = Inr d" and len: "length d = 64"
    using binding_input_ok [of "str ''k''" "str ''n''" SNP_CALLER_PREFIX]
    by (auto simp: snp_report_data_def role_prefix_def PREFIXES_def prefix_defs ROLE_CALLER_def ROLE_CALLEE_def str_simps derive_binding_def
        guard_simps pad_report_data_def TSM_REPORT_DATA_LEN_def)
  define rep where "rep = \<lparr>ar_platform = str ''sev-snp'', ar_measurement = [], ar_public_key = str ''k'', ar_nonce = str ''n'',
    ar_raw_evidence = Some (replicate 48 7 @ d), ar_quote_signature = None, ar_key_pem = None, ar_key_chain_pem = None, ar_role = ROLE_CALLER\<rparr>"
  have f: "sev_snp_verifier sample_snp sample_x509 sample_requirements = Inr (snp_verify sample_snp sample_x509 sample_requirements)"
    by (simp add: sev_snp_verifier_def sample_requirements_def)
  have "\<not> bit (0x30000 :: nat) 19" by (simp add: bit_iff_odd)
  then have a: "snp_verify sample_snp sample_x509 sample_requirements rep (str ''n'') = Inr (str ''sha384:'' @ hex (replicate 48 7))"
    using d len by (simp add: snp_verify_def rep_def debug_bit verify_sev_snp_report_def snp_parse_def verify_cert_chain_def appraise_platform_def
        sample_snp_def sample_x509_def sample_requirements_def snp_policy_of_def SIG_ALGO_ECDSA_P384_SHA384_def asks_def)
  from snp_verifier_sound [OF f a] f a show ?thesis by blast
qed

end
