(* ===== verification/Tpm.thy ===== *)
theory Tpm
  imports Evidence Attestation
begin

text \<open>
  TPM 2.0 evidence: the quote parser, the collector and the report verifier of
  \<open>ca2a_runtime/tee/tpm.py\<close> and \<open>ca2a_verify/tpm.py\<close>. The TPM itself (through \<open>tpm2_pytss\<close>), X.509
  certificates (\<open>cryptography\<close>) and the shared quote verifier (\<open>agent_manifest\<close>) are records of
  functions. Reading an NV index is a loop whose end depends on the device, so a collection may not
  return: it is an option. Logging is left out.
\<close>

section \<open>Quotes\<close>

definition TPM_GENERATED_VALUE :: nat where
  "TPM_GENERATED_VALUE = 0xFF544347"

definition TPM_ST_ATTEST_QUOTE :: nat where
  "TPM_ST_ATTEST_QUOTE = 0x8018"

definition CLOCK_INFO_LEN :: nat where
  "CLOCK_INFO_LEN = 17"

definition FIRMWARE_VERSION_LEN :: nat where
  "FIRMWARE_VERSION_LEN = 8"

definition TPM_DEVICES :: "ustr list" where
  "TPM_DEVICES = [str ''/dev/tpmrm0'', str ''/dev/tpm0'']"

definition QUOTE_PCR_SELECTION :: ustr where
  "QUOTE_PCR_SELECTION = str ''sha256:0,1,2,3,4,5,6,7''"

definition PCR_COUNT :: nat where
  "PCR_COUNT = 8"

definition tpm_qualifying_data :: "ustr \<Rightarrow> ustr \<Rightarrow> ustr \<Rightarrow> bytes res" where
  "tpm_qualifying_data public_key nonce role =
     bindE (role_prefix TPM_PREFIX role) (\<lambda>prefix. derive_binding prefix public_key nonce)"

definition read_u16 :: "bytes \<Rightarrow> nat \<Rightarrow> (nat \<times> nat) res" where
  "read_u16 buf pos =
     (if pos + 2 > length buf then Inl (attestation_failed ''TPM quote truncated reading a 16-bit field'')
      else Inr (from_be (slice buf pos 2), pos + 2))"

definition read_2b :: "bytes \<Rightarrow> nat \<Rightarrow> (bytes \<times> nat) res" where
  "read_2b buf pos =
     bindE (read_u16 buf pos) (\<lambda>(size, pos).
     if pos + size > length buf then Inl (attestation_failed ''TPM quote truncated reading a sized buffer'')
     else Inr (slice buf pos size, pos + size))"

record tpm_quote =
  tq_magic :: nat
  tq_attest_type :: nat
  tq_qualifying_data :: bytes
  tq_pcr_digest :: bytes
  tq_raw :: bytes

text \<open>The loop over the PCR selections; \<open>blob[pos + 2]\<close> is inside the blob after its guard.\<close>

fun skip_selections :: "bytes \<Rightarrow> nat \<Rightarrow> nat \<Rightarrow> nat res" where
  "skip_selections blob 0 pos = Inr pos"
| "skip_selections blob (Suc n) pos =
     (if pos + 3 > length blob then Inl (attestation_failed ''TPM quote truncated reading a PCR selection'')
      else skip_selections blob n (pos + 3 + unat (blob ! (pos + 2))))"

definition tpm_quote_parse :: "bytes \<Rightarrow> tpm_quote res" where
  "tpm_quote_parse blob =
     (if length blob < 6 then Inl (attestation_failed ''TPM quote too short'')
      else
        bindE (read_u16 blob 4) (\<lambda>(attest_type, pos).
        bindE (read_2b blob pos) (\<lambda>(qualified_signer, pos).
        bindE (read_2b blob pos) (\<lambda>(qualifying_data, pos).
        let pos = pos + CLOCK_INFO_LEN + FIRMWARE_VERSION_LEN in
        if pos + 4 > length blob then Inl (attestation_failed ''TPM quote truncated reading PCR selection count'')
        else
          bindE (skip_selections blob (from_be (slice blob pos 4)) (pos + 4)) (\<lambda>pos.
          bindE (read_2b blob pos) (\<lambda>(pcr_digest, pos).
          Inr \<lparr>tq_magic = from_be (slice blob 0 4), tq_attest_type = attest_type, tq_qualifying_data = qualifying_data,
               tq_pcr_digest = pcr_digest, tq_raw = blob\<rparr>))))))"

section \<open>The collector\<close>

datatype ak_handle = Platform_ak | Transient_ak

text \<open>
  The host and its TPM. \<open>td_nv_size\<close> opens an NV index and reads its data size, \<open>td_nv_properties\<close> the
  capability list that may name the buffer size, \<open>td_load_platform\<close> and \<open>td_create\<close> the two kinds of
  attestation key, \<open>td_ak_pem\<close> a key's PEM; \<open>td_quote\<close> is \<open>TPM2_Quote\<close> with its marshalled signature.
\<close>

record tpm_device =
  td_linux :: bool
  td_exists :: "ustr \<Rightarrow> bool"
  td_pytss :: bool
  td_open :: "unit res"
  td_pcr_read :: "ustr \<Rightarrow> bytes list res"
  td_nv_size :: "nat \<Rightarrow> nat res"
  td_nv_properties :: "(nat \<times> nat) list res"
  td_nv_read :: "nat \<Rightarrow> nat \<Rightarrow> nat \<Rightarrow> bytes res"
  td_load_platform :: "nat \<Rightarrow> unit res"
  td_create :: "unit res"
  td_ak_pem :: "ak_handle \<Rightarrow> bytes res"
  td_quote :: "ak_handle \<Rightarrow> ustr \<Rightarrow> bytes \<Rightarrow> (bytes \<times> bytes) res"

definition tpm_detect :: "tpm_device \<Rightarrow> bool" where
  "tpm_detect d \<longleftrightarrow> td_linux d \<and> list_ex (td_exists d) TPM_DEVICES \<and> td_pytss d"

definition tpm_require_host :: "tpm_device \<Rightarrow> unit res" where
  "tpm_require_host d =
     bindE (require (td_linux d) (Ca2a AttestationUnsupported (str ''TPM quote generation is only implemented on Linux'') None)) (\<lambda>_.
     bindE (require (filter (td_exists d) TPM_DEVICES \<noteq> []) (Ca2a AttestationUnsupported (str ''TPM quote generation requires a TPM device'') None)) (\<lambda>_.
     require (td_pytss d) (Ca2a AttestationUnsupported (str ''TPM quote generation requires the tpm2-pytss bindings'') None)))"

text \<open>\<open>except Exception\<close>: whatever was raised becomes the given refusal.\<close>

definition catch_all :: "err_class \<Rightarrow> string \<Rightarrow> 'a res \<Rightarrow> 'a res" where
  "catch_all c m r = catchE r (\<lambda>_. True) (\<lambda>_. Inl (Ca2a c (str m) None))"

definition read_pcrs :: "tpm_device \<Rightarrow> bytes res" where
  "read_pcrs d =
     bindE (catch_all AttestationUnsupported ''the SHA-256 PCR bank could not be read'' (td_pcr_read d QUOTE_PCR_SELECTION)) (\<lambda>raw.
     bindE (require (\<not> length raw < PCR_COUNT) (attestation_failed ''the TPM returned fewer PCRs than were selected'')) (\<lambda>_.
     Inr (sha256 (concat (take PCR_COUNT raw)))))"

definition check_quote :: "tpm_quote \<Rightarrow> bytes \<Rightarrow> bytes \<Rightarrow> unit res" where
  "check_quote q qualifying_data pcr_digest_local =
     bindE (require (tq_magic q = TPM_GENERATED_VALUE) (attestation_failed ''the quote is not TPM-generated'')) (\<lambda>_.
     bindE (require (tq_attest_type q = TPM_ST_ATTEST_QUOTE) (attestation_failed ''the attestation is not a quote'')) (\<lambda>_.
     bindE (require (tq_qualifying_data q = qualifying_data)
       (attestation_failed ''the quote does not commit the requested key and nonce binding'')) (\<lambda>_.
     require (tq_pcr_digest q = pcr_digest_local)
       (attestation_failed ''the quoted PCR digest does not match the PCRs that were read''))))"

definition PLATFORM_AK_HANDLE :: nat where
  "PLATFORM_AK_HANDLE = 0x81000003"

definition PLATFORM_AK_CERT_NV_INDEX :: nat where
  "PLATFORM_AK_CERT_NV_INDEX = 0x01C101D0"

definition NV_READ_CHUNK_BYTES :: nat where
  "NV_READ_CHUNK_BYTES = 512"

definition TPM2_PT_NV_BUFFER_MAX :: nat where
  "TPM2_PT_NV_BUFFER_MAX = 0x0000012B"

definition nv_chunk :: "tpm_device \<Rightarrow> nat" where
  "nv_chunk d =
     (case td_nv_properties d of
        Inl _ \<Rightarrow> NV_READ_CHUNK_BYTES
      | Inr props \<Rightarrow> (case find (\<lambda>p. fst p = TPM2_PT_NV_BUFFER_MAX) props of
            None \<Rightarrow> NV_READ_CHUNK_BYTES
          | Some p \<Rightarrow> min NV_READ_CHUNK_BYTES (snd p)))"

text \<open>\<open>while len(out) < total\<close>: a device that answers with nothing keeps it running.\<close>

partial_function (option) nv_loop :: "tpm_device \<Rightarrow> nat \<Rightarrow> nat \<Rightarrow> nat \<Rightarrow> bytes \<Rightarrow> bytes res option" where
  "nv_loop d index data_size chunk out =
     (if length out < data_size
      then (case td_nv_read d index (min chunk (data_size - length out)) (length out) of
          Inl e \<Rightarrow> Some (Inl e)
        | Inr b \<Rightarrow> nv_loop d index data_size chunk (out @ b))
      else Some (Inr out))"

definition read_nv :: "tpm_device \<Rightarrow> nat \<Rightarrow> bytes option option" where
  "read_nv d index =
     (case td_nv_size d index of
        Inl _ \<Rightarrow> Some None
      | Inr data_size \<Rightarrow> map_option (\<lambda>r. case r of Inl _ \<Rightarrow> None | Inr out \<Rightarrow> Some out) (nv_loop d index data_size (nv_chunk d) []))"

section \<open>The certificate chain\<close>

text \<open>
  X.509 and PKCS#7 loading, names, the AIA extension (each access method with its location, when
  that is a string; None is \<open>ExtensionNotFound\<close>), PEM encodings and an HTTP fetch.
\<close>

record 'c cert_ops =
  cx_x509_der :: "bytes \<Rightarrow> 'c option"
  cx_x509_pem :: "bytes \<Rightarrow> 'c option"
  cx_pkcs7_der :: "bytes \<Rightarrow> 'c list option"
  cx_pkcs7_pem :: "bytes \<Rightarrow> 'c list option"
  cx_pem_list :: "bytes \<Rightarrow> 'c list option"
  cx_subject :: "'c \<Rightarrow> bytes"
  cx_issuer :: "'c \<Rightarrow> bytes"
  cx_aia :: "'c \<Rightarrow> (ustr \<times> ustr option) list option res"
  cx_fetch :: "ustr \<Rightarrow> bytes option"
  cx_to_pem :: "'c \<Rightarrow> bytes"
  cx_key_pem :: "'c \<Rightarrow> bytes"

definition AIA_MAX_DEPTH :: nat where
  "AIA_MAX_DEPTH = 4"

definition AIA_CA_ISSUERS_OID :: ustr where
  "AIA_CA_ISSUERS_OID = str ''1.3.6.1.5.5.7.48.2''"

definition load_any :: "'c cert_ops \<Rightarrow> bytes \<Rightarrow> 'c list" where
  "load_any C data =
     (case cx_x509_der C data of Some c \<Rightarrow> [c]
      | None \<Rightarrow> (case cx_x509_pem C data of Some c \<Rightarrow> [c]
      | None \<Rightarrow> (case cx_pkcs7_der C data of Some (c # cs) \<Rightarrow> c # cs
      | _ \<Rightarrow> (case cx_pkcs7_pem C data of Some (c # cs) \<Rightarrow> c # cs | _ \<Rightarrow> []))))"

definition is_http :: "ustr \<Rightarrow> bool" where
  "is_http url \<longleftrightarrow> take 7 url = str ''http://'' \<or> take 8 url = str ''https://''"

fun find_issuer :: "'c cert_ops \<Rightarrow> (ustr \<times> ustr option) list \<Rightarrow> 'c option" where
  "find_issuer C [] = None"
| "find_issuer C ((oid, location) # rest) =
     (if oid \<noteq> AIA_CA_ISSUERS_OID then find_issuer C rest
      else (case location of
          None \<Rightarrow> find_issuer C rest
        | Some url \<Rightarrow>
            if \<not> is_http url then find_issuer C rest
            else (case cx_fetch C url of
                None \<Rightarrow> find_issuer C rest
              | Some body \<Rightarrow> (case load_any C body of [] \<Rightarrow> find_issuer C rest | c # _ \<Rightarrow> Some c))))"

function aia_walk :: "'c cert_ops \<Rightarrow> 'c list \<Rightarrow> 'c list res" where
  "aia_walk C chain =
     (if \<not> length chain < AIA_MAX_DEPTH then Inr chain
      else if chain = [] then Inl (PyExn IndexError)
      else if cx_subject C (last chain) = cx_issuer C (last chain) then Inr chain
      else bindE (cx_aia C (last chain)) (\<lambda>ext.
        case ext of
          None \<Rightarrow> Inr chain
        | Some aia \<Rightarrow> (case find_issuer C aia of None \<Rightarrow> Inr chain | Some c \<Rightarrow> aia_walk C (chain @ [c]))))"
  by pat_completeness auto
termination
  by (relation "measure (\<lambda>(C, chain). AIA_MAX_DEPTH - length chain)") auto

declare aia_walk.simps [simp del]

definition chain_from_leaf :: "'c cert_ops \<Rightarrow> bytes \<Rightarrow> bytes res" where
  "chain_from_leaf C leaf_der =
     (let chain = load_any C leaf_der in
      if chain = [] then Inr [] else bindE (aia_walk C chain) (\<lambda>cs. Inr (concat (map (cx_to_pem C) cs))))"

definition certifies :: "'c cert_ops \<Rightarrow> tpm_device \<Rightarrow> bytes \<Rightarrow> bool res" where
  "certifies C d chain_pem =
     (case cx_pem_list C chain_pem of
        Some (leaf # _) \<Rightarrow> bindE (td_ak_pem d Platform_ak) (\<lambda>pem. Inr (cx_key_pem C leaf = pem))
      | _ \<Rightarrow> Inr False)"

text \<open>The platform key, when its certificate certifies it; None falls back to a transient key.\<close>

definition platform_key :: "'c cert_ops \<Rightarrow> tpm_device \<Rightarrow> bytes \<Rightarrow> bytes option" where
  "platform_key C d cert_der =
     (case bindE (td_load_platform d PLATFORM_AK_HANDLE) (\<lambda>_. bindE (chain_from_leaf C cert_der) (\<lambda>chain.
             if chain = [] then Inr None
             else bindE (certifies C d chain) (\<lambda>ok. Inr (if ok then Some chain else None)))) of
        Inl _ \<Rightarrow> None
      | Inr r \<Rightarrow> r)"

definition attestation_key :: "'c cert_ops \<Rightarrow> tpm_device \<Rightarrow> (ak_handle \<times> bytes option) res option" where
  "attestation_key C d =
     map_option (\<lambda>cert_der.
       (case Option.bind cert_der (platform_key C d) of
          Some chain \<Rightarrow> Inr (Platform_ak, Some chain)
        | None \<Rightarrow> bindE (td_create d) (\<lambda>_. Inr (Transient_ak, None))))
       (read_nv d PLATFORM_AK_CERT_NV_INDEX)"

definition quote_with :: "tpm_device \<Rightarrow> ak_handle \<Rightarrow> bytes \<Rightarrow> (bytes \<times> bytes \<times> bytes) res" where
  "quote_with d ak qualifying_data =
     catch_all AttestationFailed ''TPM2_Quote did not produce a signed quote''
       (bindE (td_quote d ak QUOTE_PCR_SELECTION qualifying_data) (\<lambda>(attest_blob, signature_blob).
        bindE (td_ak_pem d ak) (\<lambda>ak_pem. Inr (attest_blob, signature_blob, ak_pem))))"

definition tpm_report :: "bytes \<Rightarrow> bytes \<Rightarrow> bytes \<Rightarrow> bytes option \<Rightarrow> tpm_quote \<Rightarrow> ustr \<Rightarrow> ustr \<Rightarrow> ustr \<Rightarrow> attestation_report" where
  "tpm_report attest_blob signature_blob ak_pem chain_pem q public_key nonce role =
     \<lparr>ar_platform = str ''tpm'', ar_measurement = str ''sha256:'' @ hex (tq_pcr_digest q), ar_public_key = public_key, ar_nonce = nonce,
      ar_raw_evidence = Some attest_blob, ar_quote_signature = Some signature_blob, ar_key_pem = Some ak_pem,
      ar_key_chain_pem = chain_pem, ar_role = role\<rparr>"

text \<open>\<open>_collect\<close> up to the choice of key, which may not return, and from there on.\<close>

definition collect_with ::
  "tpm_device \<Rightarrow> bytes \<Rightarrow> bytes \<Rightarrow> ustr \<Rightarrow> ustr \<Rightarrow> ustr \<Rightarrow> ak_handle \<times> bytes option \<Rightarrow> attestation_report res" where
  "collect_with d qualifying_data pcr_digest_local public_key nonce role = (\<lambda>(ak, chain_pem).
     bindE (quote_with d ak qualifying_data) (\<lambda>(attest_blob, signature_blob, ak_pem).
     bindE (tpm_quote_parse attest_blob) (\<lambda>q.
     bindE (check_quote q qualifying_data pcr_digest_local) (\<lambda>_.
     Inr (tpm_report attest_blob signature_blob ak_pem chain_pem q public_key nonce role)))))"

definition tpm_collect :: "'c cert_ops \<Rightarrow> tpm_device \<Rightarrow> ustr \<Rightarrow> ustr \<Rightarrow> ustr \<Rightarrow> attestation_report res option" where
  "tpm_collect C d public_key nonce role =
     (case bindE (tpm_qualifying_data public_key nonce role) (\<lambda>q. bindE (td_open d) (\<lambda>_. bindE (read_pcrs d) (\<lambda>p. Inr (q, p)))) of
        Inl e \<Rightarrow> Some (Inl e)
      | Inr (qualifying_data, pcrs) \<Rightarrow>
          map_option (\<lambda>key.
            bindE (catch_all AttestationFailed ''no attestation key was available to sign a quote'' key)
              (collect_with d qualifying_data pcrs public_key nonce role))
            (attestation_key C d))"

definition tpm_attest :: "'c cert_ops \<Rightarrow> tpm_device \<Rightarrow> ustr \<Rightarrow> ustr \<Rightarrow> ustr \<Rightarrow> attestation_report res option" where
  "tpm_attest C d public_key nonce role =
     (case tpm_require_host d of Inl e \<Rightarrow> Some (Inl e) | Inr _ \<Rightarrow> tpm_collect C d public_key nonce role)"

section \<open>The verifier\<close>

record parsed_signature =
  ps_sig_alg :: nat
  ps_hash_alg :: nat
  ps_signature :: bytes

datatype signature_arg = Bare bytes | Parsed parsed_signature

datatype key_kind = Rsa_key | Ec_key | Other_key

text \<open>
  \<open>agent_manifest\<close>: its parser of a marshalled signature (the left value is the text of a
  \<open>TpmVerificationError\<close>) and its quote verifier on quote, signature, key chain, roots, and the
  expected qualifying data and PCR digest.
\<close>

record tpm_verify_lib =
  tv_parse_signature :: "bytes \<Rightarrow> ustr + parsed_signature"
  tv_verify :: "bytes \<Rightarrow> signature_arg \<Rightarrow> bytes \<Rightarrow> bytes \<Rightarrow> bytes option \<Rightarrow> bytes option \<Rightarrow> bool res"

definition ALG_RSASSA :: nat where
  "ALG_RSASSA = 0x0014"

definition ALG_ECDSA :: nat where
  "ALG_ECDSA = 0x0018"

definition ALG_SHA256 :: nat where
  "ALG_SHA256 = 0x000B"

definition parse_tpmt_signature :: "tpm_verify_lib \<Rightarrow> bytes \<Rightarrow> parsed_signature res" where
  "parse_tpmt_signature V blob =
     (case tv_parse_signature V blob of Inl m \<Rightarrow> Inl (Ca2a AttestationFailed m None) | Inr p \<Rightarrow> Inr p)"

definition tag_legacy_bare_signature :: "signature_arg \<Rightarrow> key_kind \<Rightarrow> signature_arg" where
  "tag_legacy_bare_signature sg key =
     (case sg of
        Parsed p \<Rightarrow> Parsed p
      | Bare b \<Rightarrow> (case key of
            Rsa_key \<Rightarrow> Parsed \<lparr>ps_sig_alg = ALG_RSASSA, ps_hash_alg = ALG_SHA256, ps_signature = b\<rparr>
          | Ec_key \<Rightarrow> Parsed \<lparr>ps_sig_alg = ALG_ECDSA, ps_hash_alg = ALG_SHA256, ps_signature = b\<rparr>
          | Other_key \<Rightarrow> Bare b))"

definition delegate_verify ::
  "tpm_verify_lib \<Rightarrow> bytes \<Rightarrow> signature_arg \<Rightarrow> bytes \<Rightarrow> bytes \<Rightarrow> bytes option \<Rightarrow> bytes option \<Rightarrow> unit res" where
  "delegate_verify V attest sg ak_chain_pem trusted_roots_pem expected_qualifying_data expected_pcr_digest =
     bindE (catch_all AttestationFailed ''TPM quote verification failed''
       (tv_verify V attest sg ak_chain_pem trusted_roots_pem expected_qualifying_data expected_pcr_digest)) (\<lambda>ok.
     require ok (attestation_failed ''TPM quote verification failed''))"

definition verify_tpm_quote ::
  "tpm_verify_lib \<Rightarrow> 'c cert_ops \<Rightarrow> ('c \<Rightarrow> key_kind) \<Rightarrow> bytes \<Rightarrow> signature_arg \<Rightarrow> 'c list \<Rightarrow> 'c list \<Rightarrow> bytes option \<Rightarrow> bytes option \<Rightarrow> tpm_quote res" where
  "verify_tpm_quote V C key_of attest sg ak_chain trusted_roots expected_pcr_digest expected_qualifying_data =
     bindE (require (ak_chain \<noteq> []) (attestation_failed ''no AK certificate chain was supplied'')) (\<lambda>_.
     bindE (require (trusted_roots \<noteq> []) (attestation_failed ''no trusted root was supplied'')) (\<lambda>_.
     bindE (tpm_quote_parse attest) (\<lambda>q.
     bindE (delegate_verify V attest (tag_legacy_bare_signature sg (key_of (hd ak_chain)))
       (concat (map (cx_to_pem C) ak_chain)) (concat (map (cx_to_pem C) trusted_roots))
       expected_qualifying_data expected_pcr_digest) (\<lambda>_.
     Inr q))))"

definition verify_tpm_report :: "tpm_verify_lib \<Rightarrow> bytes \<Rightarrow> attestation_report \<Rightarrow> ustr \<Rightarrow> ustr res" where
  "verify_tpm_report V trusted_roots_pem report expected_nonce =
     bindE (require (ar_nonce report = expected_nonce) (attestation_failed ''the report nonce does not match the expected nonce'')) (\<lambda>_.
     case (ar_raw_evidence report, ar_quote_signature report) of
       (Some evidence, Some quote_signature) \<Rightarrow>
         (case ar_key_chain_pem report of
            Some (b # bs) \<Rightarrow>
              bindE (require (trusted_roots_pem \<noteq> []) (attestation_failed ''no trusted root was supplied'')) (\<lambda>_.
              bindE (tpm_qualifying_data (ar_public_key report) (ar_nonce report) (ar_role report)) (\<lambda>expected.
              bindE (parse_tpmt_signature V quote_signature) (\<lambda>parsed.
              bindE (tpm_quote_parse evidence) (\<lambda>q.
              bindE (delegate_verify V evidence (Parsed parsed) (b # bs) trusted_roots_pem (Some expected) None) (\<lambda>_.
              let measurement = str ''sha256:'' @ hex (tq_pcr_digest q) in
              bindE (require (ar_measurement report = measurement)
                (attestation_failed ''the reported measurement is not the one the TPM signed'')) (\<lambda>_.
              Inr measurement))))))
          | _ \<Rightarrow> Inl (attestation_failed ''the report carries no attestation key certificate chain''))
     | _ \<Rightarrow> Inl (attestation_failed ''the report carries no TPM quote to verify''))"

definition tpm_verifier :: "tpm_verify_lib \<Rightarrow> bytes \<Rightarrow> verifier" where
  "tpm_verifier V trusted_roots_pem = (\<lambda>report expected_nonce. verify_tpm_report V trusted_roots_pem report expected_nonce)"

section \<open>The layout of a quote\<close>

text \<open>TPMS_ATTEST as the TPM marshals it: sized buffers, big-endian numbers, a list of PCR selections.\<close>

definition sized :: "bytes \<Rightarrow> bytes" where
  "sized b = to_be 2 (length b) @ b"

definition selection_bytes :: "nat \<times> bytes \<Rightarrow> bytes" where
  "selection_bytes s = to_be 2 (fst s) @ [of_nat (length (snd s))] @ snd s"

definition quote_bytes :: "nat \<Rightarrow> nat \<Rightarrow> bytes \<Rightarrow> bytes \<Rightarrow> bytes \<Rightarrow> (nat \<times> bytes) list \<Rightarrow> bytes \<Rightarrow> bytes" where
  "quote_bytes magic attest_type signer extra clock selections digest =
     to_be 4 magic @ to_be 2 attest_type @ sized signer @ sized extra @ clock @
     to_be 4 (length selections) @ concat (map selection_bytes selections) @ sized digest"

lemma slice_mid: "slice (a @ b @ c) (length a) (length b) = b"
  by (simp add: slice_def)

lemma read_u16_mid: "n < 65536 \<Longrightarrow> read_u16 (a @ to_be 2 n @ c) (length a) = Inr (n, length a + 2)"
  using slice_mid [of a "to_be 2 n" c] from_to_be [of n 2] by (simp add: read_u16_def)

lemma read_2b_mid:
  assumes "length b < 65536"
  shows "read_2b (a @ sized b @ c) (length a) = Inr (b, length a + length (sized b))"
proof -
  have "read_u16 (a @ sized b @ c) (length a) = Inr (length b, length a + 2)"
    using read_u16_mid [OF assms, of a "b @ c"] by (simp add: sized_def)
  moreover have "slice (a @ sized b @ c) (length a + 2) (length b) = b"
    using slice_mid [of "a @ to_be 2 (length b)" b c] by (simp add: sized_def)
  ultimately show ?thesis by (simp add: read_2b_def sized_def)
qed

lemma skip_selections_mid:
  "list_all (\<lambda>s. length (snd s) < 256) ss \<Longrightarrow>
     skip_selections (a @ concat (map selection_bytes ss) @ c) (length ss) (length a) =
       Inr (length a + length (concat (map selection_bytes ss)))"
proof (induction ss arbitrary: a)
  case (Cons s ss)
  let ?b = "a @ concat (map selection_bytes (s # ss)) @ c"
  have len: "length (selection_bytes s) = 3 + length (snd s)" by (simp add: selection_bytes_def)
  have "?b ! (length a + 2) = of_nat (length (snd s))"
    by (simp add: selection_bytes_def nth_append)
  moreover have "unat (of_nat (length (snd s)) :: byte) = length (snd s)"
    using Cons.prems by (simp add: unat_of_nat)
  moreover have "skip_selections ((a @ selection_bytes s) @ concat (map selection_bytes ss) @ c) (length ss) (length (a @ selection_bytes s)) =
      Inr (length (a @ selection_bytes s) + length (concat (map selection_bytes ss)))"
    by (rule Cons.IH) (use Cons.prems in simp)
  ultimately show ?case using len by (simp add: add.assoc)
qed simp

lemma parse_quote_bytes:
  assumes "magic < 4294967296" and "attest_type < 65536" and "length signer < 65536" and "length extra < 65536"
    and "length clock = CLOCK_INFO_LEN + FIRMWARE_VERSION_LEN" and "length selections < 4294967296"
    and "list_all (\<lambda>s. length (snd s) < 256) selections" and "length digest < 65536"
  shows "tpm_quote_parse (quote_bytes magic attest_type signer extra clock selections digest @ rest) =
    Inr \<lparr>tq_magic = magic, tq_attest_type = attest_type, tq_qualifying_data = extra, tq_pcr_digest = digest,
         tq_raw = quote_bytes magic attest_type signer extra clock selections digest @ rest\<rparr>"
proof -
  let ?blob = "quote_bytes magic attest_type signer extra clock selections digest @ rest"
  let ?a1 = "to_be 4 magic" let ?a2 = "?a1 @ to_be 2 attest_type" let ?a3 = "?a2 @ sized signer" let ?a4 = "?a3 @ sized extra"
  let ?a5 = "?a4 @ clock" let ?n = "to_be 4 (length selections)" let ?a6 = "?a5 @ ?n"
  let ?sel = "concat (map selection_bytes selections)" let ?a7 = "?a6 @ ?sel"
  have r1: "read_u16 ?blob 4 = Inr (attest_type, 6)"
    using read_u16_mid [OF assms(2), of ?a1] by (simp add: quote_bytes_def)
  have r2: "read_2b ?blob 6 = Inr (signer, length ?a3)"
    using read_2b_mid [OF assms(3), of ?a2] by (simp add: quote_bytes_def)
  have r3: "read_2b ?blob (length ?a3) = Inr (extra, length ?a4)"
    using read_2b_mid [OF assms(4), of ?a3] by (simp add: quote_bytes_def)
  have r5: "from_be (slice ?blob (length ?a5) 4) = length selections" "length ?a5 + 4 \<le> length ?blob"
    using slice_mid [of ?a5 ?n "?sel @ sized digest @ rest"] from_to_be [of "length selections" 4] assms(6) by (simp_all add: quote_bytes_def)
  have r6: "skip_selections ?blob (length selections) (length ?a6) = Inr (length ?a7)"
    using skip_selections_mid [OF assms(7), of ?a6 "sized digest @ rest"] by (simp add: quote_bytes_def)
  have r7: "read_2b ?blob (length ?a7) = Inr (digest, length ?a7 + length (sized digest))"
    using read_2b_mid [OF assms(8), of ?a7 rest] by (simp add: quote_bytes_def)
  have r0: "from_be (slice ?blob 0 4) = magic"
    using slice_mid [of "[]" ?a1] from_to_be [of magic 4] assms(1) by (simp add: quote_bytes_def)
  have pos: "length ?a4 + CLOCK_INFO_LEN + FIRMWARE_VERSION_LEN = length ?a5" "length ?a5 + 4 = length ?a6"
    using assms(5) by simp_all
  have "6 \<le> length ?blob" by (simp add: quote_bytes_def)
  then show ?thesis
    unfolding tpm_quote_parse_def Let_def using r5(2) by (simp only: r1 r2 r3 bindE_simps prod.case pos r5(1) r6 r7 r0 not_less if_False not_le [symmetric]) simp
qed

section \<open>Reading an NV index\<close>

text \<open>A device that answers every request with the bytes asked for is read to the end.\<close>

lemma nv_loop_reads:
  assumes "0 < chunk" and "\<And>want off. off + want \<le> length contents \<Longrightarrow> td_nv_read d index want off = Inr (slice contents off want)"
  shows "k \<le> length contents \<Longrightarrow> nv_loop d index (length contents) chunk (take k contents) = Some (Inr contents)"
proof (induction "length contents - k" arbitrary: k rule: less_induct)
  case less
  show ?case
  proof (cases "k < length contents")
    case True
    define want where "want = min chunk (length contents - k)"
    have w: "0 < want" "k + want \<le> length contents" using True assms(1) by (auto simp: want_def)
    have "take k contents @ slice contents k want = take (k + want) contents" by (simp add: slice_def take_add)
    then have "nv_loop d index (length contents) chunk (take k contents) = nv_loop d index (length contents) chunk (take (k + want) contents)"
      using True w assms(2) [of k want] by (subst nv_loop.simps) (simp add: want_def)
    also have "\<dots> = Some (Inr contents)" using w by (intro less.hyps) auto
    finally show ?thesis .
  next
    case False
    then show ?thesis using less.prems by (subst nv_loop.simps) simp
  qed
qed

text \<open>With a buffer size of zero the loop never ends.\<close>

lemma nv_loop_zero_chunk:
  assumes "\<And>off. td_nv_read d index 0 off = Inr []" and "length out < data_size"
  shows "nv_loop d index data_size 0 out = None"
proof -
  have "nv_loop e i s c o' = Some r \<Longrightarrow> e = d \<longrightarrow> i = index \<longrightarrow> c = 0 \<longrightarrow> length o' < s \<longrightarrow> False" for e i s c o' r
    by (erule nv_loop.raw_induct [rotated]) (intro impI, simp add: assms(1) split: if_splits)
  with assms(2) show ?thesis by (cases "nv_loop d index data_size 0 out") auto
qed

lemma aia_walk_length: "aia_walk C chain = Inr cs \<Longrightarrow> length cs \<le> max AIA_MAX_DEPTH (length chain) \<and> take (length chain) cs = chain"
proof (induction C chain rule: aia_walk.induct)
  case (1 C chain)
  show ?case
  proof (cases "cs = chain")
    case False
    with "1.prems" obtain aia c where c: "length chain < AIA_MAX_DEPTH" "chain \<noteq> []" "cx_subject C (last chain) \<noteq> cx_issuer C (last chain)"
      "cx_aia C (last chain) = Inr (Some aia)" "find_issuer C aia = Some c" "aia_walk C (chain @ [c]) = Inr cs"
      by (subst (asm) aia_walk.simps) (auto simp: guard_simps split: if_splits option.splits)
    with "1.IH" have ih: "length cs \<le> max AIA_MAX_DEPTH (Suc (length chain))" "take (Suc (length chain)) cs = chain @ [c]"
      by auto
    from arg_cong [OF ih(2), of "take (length chain)"] have "take (length chain) cs = chain" by (simp add: min_def)
    with ih(1) c(1) show ?thesis by simp
  qed simp
qed

section \<open>What the verifier accepts\<close>

lemma verify_tpm_report_Inr:
  "verify_tpm_report V roots report nonce = Inr m \<longleftrightarrow>
     (\<exists>evidence sg chain expected parsed q. ar_nonce report = nonce \<and> ar_raw_evidence report = Some evidence \<and>
        ar_quote_signature report = Some sg \<and> ar_key_chain_pem report = Some chain \<and> chain \<noteq> [] \<and> roots \<noteq> [] \<and>
        tpm_qualifying_data (ar_public_key report) nonce (ar_role report) = Inr expected \<and>
        tv_parse_signature V sg = Inr parsed \<and> tpm_quote_parse evidence = Inr q \<and>
        tv_verify V evidence (Parsed parsed) chain roots (Some expected) None = Inr True \<and>
        m = str ''sha256:'' @ hex (tq_pcr_digest q) \<and> ar_measurement report = m)"
  by (auto simp: verify_tpm_report_def guard_simps parse_tpmt_signature_def delegate_verify_def catch_all_def Let_def
      split: option.splits list.splits sum.splits)

text \<open>What \<open>agent_manifest\<close> documents of its quote verifier: it compares the expected qualifying data.\<close>

definition tpm_verify_binds :: "tpm_verify_lib \<Rightarrow> bool" where
  "tpm_verify_binds V \<longleftrightarrow> (\<forall>attest sg chain roots expected pcr. tv_verify V attest sg chain roots (Some expected) pcr = Inr True \<longrightarrow>
     (\<exists>q. tpm_quote_parse attest = Inr q \<and> tq_qualifying_data q = expected))"

lemma tpm_qualifying_data_Inr:
  "tpm_qualifying_data k n r = Inr d \<longleftrightarrow> (\<exists>p b. role_prefix TPM_PREFIX r = Inr p \<and> binding_input p k n = Inr b \<and> d = sha256 b)"
  by (auto simp: tpm_qualifying_data_def derive_binding_def guard_simps)

text \<open>
  Qualifying data determine key, nonce and role, unless the very byte strings digested for the two
  are a collision.
\<close>

definition binding_collision :: "ustr \<times> ustr \<times> ustr \<Rightarrow> ustr \<times> ustr \<times> ustr \<Rightarrow> bool" where
  "binding_collision = (\<lambda>(k, n, r) (k', n', r'). \<exists>p b p' b'. role_prefix TPM_PREFIX r = Inr p \<and> binding_input p k n = Inr b \<and>
     role_prefix TPM_PREFIX r' = Inr p' \<and> binding_input p' k' n' = Inr b' \<and> sha256_collision b b')"

lemma tpm_qualifying_data_inj:
  assumes "tpm_qualifying_data k n r = Inr d" and "tpm_qualifying_data k' n' r' = Inr d"
  shows "(k, n, r) = (k', n', r') \<or> binding_collision (k, n, r) (k', n', r')"
proof -
  from assms obtain p b p' b' where p: "role_prefix TPM_PREFIX r = Inr p" "binding_input p k n = Inr b"
    and p': "role_prefix TPM_PREFIX r' = Inr p'" "binding_input p' k' n' = Inr b'" and eq: "sha256 b = sha256 b'"
    by (auto simp: tpm_qualifying_data_Inr)
  from sha256_eqD [OF eq] show ?thesis
  proof
    assume "b = b'"
    with binding_input_inj [OF p(2) _ role_prefix_in [OF p(1)] role_prefix_in [OF p'(1)]] p'(2) have "p = p' \<and> k = k' \<and> n = n'" by blast
    with role_prefix_inj [OF p(1)] p'(1) show ?thesis by blast
  next
    assume "sha256_collision b b'"
    with p p' show ?thesis by (auto simp: binding_collision_def)
  qed
qed

lemma tpm_attest_binds:
  "tpm_attest C d k n r = Some (Inr rep) \<Longrightarrow>
     ar_public_key rep = k \<and> ar_nonce rep = n \<and> ar_role rep = r \<and> ar_platform rep = str ''tpm'' \<and>
     (\<exists>evidence q expected. ar_raw_evidence rep = Some evidence \<and> tpm_quote_parse evidence = Inr q \<and>
        tpm_qualifying_data k n r = Inr expected \<and> tq_qualifying_data q = expected \<and> tq_magic q = TPM_GENERATED_VALUE \<and>
        ar_measurement rep = str ''sha256:'' @ hex (tq_pcr_digest q))"
  by (auto simp: tpm_attest_def tpm_collect_def collect_with_def check_quote_def tpm_report_def guard_simps split: sum.splits)

section \<open>Properties\<close>

text \<open>
  C11: A hardware channel key is one the TPM signed for. When an offer is appraised with the TPM
  verifier at hardware assurance, the quote in its report commits, in its qualifying data, the
  digest over the role's prefix, the appraised peer's channel key and the expected nonce; the
  measurement returned is the PCR digest of that quote; and the same quote supports no offer of
  another key, nonce or role, unless the byte strings digested for the two are a SHA-256 collision.
\<close>

theorem hardware_key_committed:
  assumes "tpm_verify_binds V"
    and "verify_offer L offer nonce (Some (tpm_verifier V roots)) rh role = Inr peer" and "vp_assurance peer = str ''hardware''"
  shows "\<exists>evidence q expected. ar_raw_evidence (co_report offer) = Some evidence \<and> tpm_quote_parse evidence = Inr q \<and>
     tpm_qualifying_data (vp_public_key peer) nonce role = Inr expected \<and> tq_qualifying_data q = expected \<and>
     vp_measurement peer = str ''sha256:'' @ hex (tq_pcr_digest q) \<and>
     (\<forall>offer' nonce' rh' role' peer'. verify_offer L offer' nonce' (Some (tpm_verifier V roots)) rh' role' = Inr peer' \<and>
        vp_assurance peer' = str ''hardware'' \<and> ar_raw_evidence (co_report offer') = Some evidence \<longrightarrow>
        (vp_public_key peer', nonce', role') = (vp_public_key peer, nonce, role) \<or>
        binding_collision (vp_public_key peer', nonce', role') (vp_public_key peer, nonce, role))"
proof -
  have key: "\<exists>evidence q. ar_raw_evidence (co_report x) = Some evidence \<and> tpm_quote_parse evidence = Inr q \<and>
      tpm_qualifying_data (vp_public_key p) n r = Inr (tq_qualifying_data q) \<and> vp_measurement p = str ''sha256:'' @ hex (tq_pcr_digest q)"
    if v: "verify_offer L x n (Some (tpm_verifier V roots)) h r = Inr p" and "vp_assurance p = str ''hardware''" for x n h r p
  proof -
    from that have b: "offer_bound x n r" "vp_public_key p = co_public_key x"
      and m: "verify_tpm_report V roots (co_report x) n = Inr (vp_measurement p)"
      by (auto simp: verify_offer_Inr_iff tpm_verifier_def split: if_splits)
    from m [unfolded verify_tpm_report_Inr] obtain evidence sg chain expected parsed q where
      r: "ar_raw_evidence (co_report x) = Some evidence" "tpm_qualifying_data (ar_public_key (co_report x)) n (ar_role (co_report x)) = Inr expected"
        "tpm_quote_parse evidence = Inr q" "tv_verify V evidence (Parsed parsed) chain roots (Some expected) None = Inr True"
        "vp_measurement p = str ''sha256:'' @ hex (tq_pcr_digest q)"
      by blast
    from assms(1) r(4) r(3) have "tq_qualifying_data q = expected" unfolding tpm_verify_binds_def by fastforce
    with r b show ?thesis by (auto simp: offer_bound_def)
  qed
  from key [OF assms(2,3)] obtain evidence q where e: "ar_raw_evidence (co_report offer) = Some evidence" "tpm_quote_parse evidence = Inr q"
    "tpm_qualifying_data (vp_public_key peer) nonce role = Inr (tq_qualifying_data q)" "vp_measurement peer = str ''sha256:'' @ hex (tq_pcr_digest q)"
    by blast
  have "(vp_public_key p, n, r) = (vp_public_key peer, nonce, role) \<or> binding_collision (vp_public_key p, n, r) (vp_public_key peer, nonce, role)"
    if "verify_offer L x n (Some (tpm_verifier V roots)) h r = Inr p" "vp_assurance p = str ''hardware''"
      "ar_raw_evidence (co_report x) = Some evidence" for x n h r p
    using key [OF that(1,2)] that(3) e(2,3) tpm_qualifying_data_inj [of "vp_public_key p" n r "tq_qualifying_data q" "vp_public_key peer" nonce role] by auto
  with e show ?thesis by blast
qed

definition sample_tpm_verify :: tpm_verify_lib where
  "sample_tpm_verify = \<lparr>tv_parse_signature = (\<lambda>b. Inr \<lparr>ps_sig_alg = 0x14, ps_hash_alg = 0xB, ps_signature = b\<rparr>),
     tv_verify = (\<lambda>attest sg chain roots expected pcr. Inr (case tpm_quote_parse attest of
        Inl _ \<Rightarrow> False | Inr q \<Rightarrow> expected = Some (tq_qualifying_data q)))\<rparr>"

lemma sample_tpm_binds: "tpm_verify_binds sample_tpm_verify"
  by (auto simp: tpm_verify_binds_def sample_tpm_verify_def split: sum.splits)

definition sample_quote :: "bytes \<Rightarrow> bytes" where
  "sample_quote extra = quote_bytes TPM_GENERATED_VALUE TPM_ST_ATTEST_QUOTE [1] extra (replicate 25 0) [(11, [255, 0, 0])] [9]"

lemma sample_quote_parse:
  assumes "length extra < 65536"
  shows "\<exists>q. tpm_quote_parse (sample_quote extra) = Inr q \<and> tq_qualifying_data q = extra \<and> tq_pcr_digest q = [9]"
proof -
  have "tpm_quote_parse (sample_quote extra @ []) = Inr \<lparr>tq_magic = TPM_GENERATED_VALUE, tq_attest_type = TPM_ST_ATTEST_QUOTE,
      tq_qualifying_data = extra, tq_pcr_digest = [9], tq_raw = sample_quote extra @ []\<rparr>"
    unfolding sample_quote_def by (rule parse_quote_bytes)
      (use assms in \<open>simp_all add: TPM_GENERATED_VALUE_def TPM_ST_ATTEST_QUOTE_def CLOCK_INFO_LEN_def FIRMWARE_VERSION_LEN_def\<close>)
  then show ?thesis by simp
qed

theorem hardware_key_committed_witness:
  "\<exists>offer peer (q :: tpm_quote). verify_offer sample_lib offer (str ''n'') (Some (tpm_verifier sample_tpm_verify [1])) True ROLE_CALLEE = Inr peer \<and>
     vp_public_key peer = str ''k'' \<and> tpm_qualifying_data (str ''k'') (str ''n'') ROLE_CALLEE = Inr (tq_qualifying_data q)"
proof -
  obtain d where d: "tpm_qualifying_data (str ''k'') (str ''n'') ROLE_CALLEE = Inr d" and len: "length d = 32"
    using binding_input_ok [of "str ''k''" "str ''n''" TPM_PREFIX]
    by (auto simp: tpm_qualifying_data_Inr role_prefix_def PREFIXES_def ROLE_CALLEE_def str_simps)
  obtain q where q: "tpm_quote_parse (sample_quote d) = Inr q" "tq_qualifying_data q = d" "tq_pcr_digest q = [9]"
    using sample_quote_parse [of d] len by auto
  define rep where "rep = \<lparr>ar_platform = str ''tpm'', ar_measurement = str ''sha256:'' @ hex [9], ar_public_key = str ''k'', ar_nonce = str ''n'',
      ar_raw_evidence = Some (sample_quote d), ar_quote_signature = Some [1], ar_key_pem = None, ar_key_chain_pem = Some [2], ar_role = ROLE_CALLEE\<rparr>"
  have rep: "verify_tpm_report sample_tpm_verify [1] rep (str ''n'') = Inr (str ''sha256:'' @ hex [9])"
    unfolding verify_tpm_report_Inr using d q by (simp add: rep_def sample_tpm_verify_def)
  let ?offer = "\<lparr>co_public_key = str ''k'', co_report = rep\<rparr>"
  let ?peer = "\<lparr>vp_public_key = str ''k'', vp_assurance = str ''hardware'', vp_measurement = str ''sha256:'' @ hex [9]\<rparr>"
  have v: "verify_offer sample_lib ?offer (str ''n'') (Some (tpm_verifier sample_tpm_verify [1])) True ROLE_CALLEE = Inr ?peer"
    unfolding verify_offer_Inr_iff using rep by (simp add: offer_bound_def rep_def tpm_verifier_def SOFTWARE_ONLY_def)
  from hardware_key_committed [OF sample_tpm_binds v] obtain q' :: tpm_quote where
    "tpm_qualifying_data (str ''k'') (str ''n'') ROLE_CALLEE = Inr (tq_qualifying_data q')" by auto
  with v show ?thesis by (intro exI [of _ ?offer] exI [of _ ?peer] exI [of _ q']) simp
qed

text \<open>
  The parser reads the TPMS_ATTEST layout. The bytes a TPM marshals for a quote, with any
  signer name, qualifying data, clock and firmware fields, PCR selections and digest, parse to
  exactly that magic value, type, qualifying data and PCR digest; bytes after the quote do not
  change the result.
\<close>

theorem quote_layout_roundtrip:
  assumes "magic < 4294967296" and "attest_type < 65536" and "length signer < 65536" and "length extra < 65536"
    and "length clock = CLOCK_INFO_LEN + FIRMWARE_VERSION_LEN" and "length selections < 4294967296"
    and "list_all (\<lambda>s. length (snd s) < 256) selections" and "length digest < 65536"
  shows "tpm_quote_parse (quote_bytes magic attest_type signer extra clock selections digest @ rest) =
    Inr \<lparr>tq_magic = magic, tq_attest_type = attest_type, tq_qualifying_data = extra, tq_pcr_digest = digest,
         tq_raw = quote_bytes magic attest_type signer extra clock selections digest @ rest\<rparr>"
  using assms by (rule parse_quote_bytes)

theorem quote_layout_roundtrip_witness:
  "map_sum id tq_pcr_digest (tpm_quote_parse (quote_bytes 0xFF544347 0x8018 [] [7] (replicate 25 0) [(11, [255]), (4, [])] [8, 9] @ [1])) = Inr [8, 9]"
  by (subst quote_layout_roundtrip) (simp_all add: CLOCK_INFO_LEN_def FIRMWARE_VERSION_LEN_def)


definition sample_device :: tpm_device where
  "sample_device = \<lparr>td_linux = True, td_exists = (\<lambda>p. p = str ''/dev/tpm0''), td_pytss = True, td_open = Inr (),
     td_pcr_read = (\<lambda>s. Inr (replicate 8 [0])), td_nv_size = (\<lambda>i. Inr 3), td_nv_properties = Inr [(0x12B, 2)],
     td_nv_read = (\<lambda>i want off. Inr (slice [1, 2, 3] off want)), td_load_platform = (\<lambda>h. Inr ()), td_create = Inr (),
     td_ak_pem = (\<lambda>h. Inr [5]), td_quote = (\<lambda>h s q. Inr (sample_quote q, [6]))\<rparr>"

definition sample_certs :: "nat cert_ops" where
  "sample_certs = \<lparr>cx_x509_der = (\<lambda>b. Some (length b)), cx_x509_pem = (\<lambda>b. None), cx_pkcs7_der = (\<lambda>b. None), cx_pkcs7_pem = (\<lambda>b. None),
     cx_pem_list = (\<lambda>b. Some [0]), cx_subject = (\<lambda>c. [of_nat c]), cx_issuer = (\<lambda>c. [of_nat (Suc c)]),
     cx_aia = (\<lambda>c. Inr (Some [(AIA_CA_ISSUERS_OID, Some (str ''http://ca''))])), cx_fetch = (\<lambda>url. Some [1]),
     cx_to_pem = (\<lambda>c. [of_nat c]), cx_key_pem = (\<lambda>c. [5])\<rparr>"


end
