(* ===== verification/Tdx.thy ===== *)
theory Tdx
  imports Sev_Snp Tpm
begin

text \<open>
  Intel TDX: the DCAP v4 quote parser and the provider of \<open>ca2a_runtime/tee/tdx.py\<close> and the offline
  appraisal of \<open>ca2a_verify/tdx.py\<close>. Every length in a quote is the sender's; the parser is shown to
  read inside the blob and to fail only in its own error class, and the appraisal to link the
  quote, the attestation key, the quoting enclave and the certificate chain.
\<close>

section \<open>Quotes\<close>

definition TDX_HEADER_LEN :: nat where
  "TDX_HEADER_LEN = 48"

definition TD_REPORT_LEN :: nat where
  "TD_REPORT_LEN = 584"

definition SIGNED_LEN :: nat where
  "SIGNED_LEN = TDX_HEADER_LEN + TD_REPORT_LEN"

definition MRTD_OFFSET :: nat where
  "MRTD_OFFSET = TDX_HEADER_LEN + 136"

definition MRTD_LEN :: nat where
  "MRTD_LEN = 48"

definition REPORT_DATA_OFFSET :: nat where
  "REPORT_DATA_OFFSET = TDX_HEADER_LEN + 520"

definition REPORT_DATA_LEN :: nat where
  "REPORT_DATA_LEN = 64"

definition QUOTE_SIG_LEN :: nat where
  "QUOTE_SIG_LEN = 64"

definition ATT_KEY_LEN :: nat where
  "ATT_KEY_LEN = 64"

definition QE_REPORT_LEN :: nat where
  "QE_REPORT_LEN = 384"

definition QE_REPORT_DATA_OFFSET :: nat where
  "QE_REPORT_DATA_OFFSET = 320"

definition TEE_TYPE_TDX :: nat where
  "TEE_TYPE_TDX = 0x81"

definition CERT_TYPE_PCK_CHAIN :: nat where
  "CERT_TYPE_PCK_CHAIN = 5"

definition CERT_TYPE_QE_REPORT :: nat where
  "CERT_TYPE_QE_REPORT = 6"

definition CERT_DATA_HEADER_LEN :: nat where
  "CERT_DATA_HEADER_LEN = 6"

lemmas tdx_lens = TDX_HEADER_LEN_def TD_REPORT_LEN_def SIGNED_LEN_def MRTD_OFFSET_def MRTD_LEN_def REPORT_DATA_OFFSET_def
  REPORT_DATA_LEN_def QUOTE_SIG_LEN_def ATT_KEY_LEN_def QE_REPORT_LEN_def QE_REPORT_DATA_OFFSET_def CERT_DATA_HEADER_LEN_def

definition tdx_report_data :: "ustr \<Rightarrow> ustr \<Rightarrow> ustr \<Rightarrow> bytes res" where
  "tdx_report_data public_key nonce role =
     bindE (role_prefix TDX_PREFIX role) (\<lambda>prefix.
     bindE (derive_binding prefix public_key nonce) (\<lambda>digest. pad_report_data digest TSM_REPORT_DATA_LEN))"

text \<open>\<open>struct.unpack_from("<HI", b, pos)\<close>, which raises when six bytes are not there.\<close>

definition unpack_HI :: "bytes \<Rightarrow> nat \<Rightarrow> (nat \<times> nat) res" where
  "unpack_HI b pos =
     bindE (require (pos + 6 \<le> length b) (PyExn ValueError)) (\<lambda>_.
     Inr (from_le (slice b pos 2), from_le (slice b (pos + 2) 4)))"

definition unpack_I :: "bytes \<Rightarrow> nat \<Rightarrow> nat res" where
  "unpack_I b pos = bindE (require (pos + 4 \<le> length b) (PyExn ValueError)) (\<lambda>_. Inr (from_le (slice b pos 4)))"

definition unpack_H :: "bytes \<Rightarrow> nat \<Rightarrow> nat res" where
  "unpack_H b pos = bindE (require (pos + 2 \<le> length b) (PyExn ValueError)) (\<lambda>_. Inr (from_le (slice b pos 2)))"

record 'c tdx_quote =
  dq_version :: nat
  dq_tee_type :: nat
  dq_measurement :: bytes
  dq_report_data :: bytes
  dq_signed_body :: bytes
  dq_quote_signature :: bytes
  dq_attestation_key :: bytes
  dq_qe_report :: bytes
  dq_qe_report_signature :: bytes
  dq_qe_auth_data :: bytes
  dq_pck_chain :: "'c list"

text \<open>The signature section: quote signature, attestation key and the type-6 certification data.\<close>

definition parse_signature_section :: "bytes \<Rightarrow> (bytes \<times> bytes \<times> bytes) res" where
  "parse_signature_section sig =
     bindE (require (\<not> length sig < QUOTE_SIG_LEN + ATT_KEY_LEN + CERT_DATA_HEADER_LEN)
       (attestation_failed ''TDX quote signature section is truncated'')) (\<lambda>_.
     let pos = QUOTE_SIG_LEN + ATT_KEY_LEN in
     bindE (unpack_HI sig pos) (\<lambda>(outer_type, outer_len).
     let pos = pos + CERT_DATA_HEADER_LEN in
     bindE (require (outer_type = CERT_TYPE_QE_REPORT) (attestation_failed ''unsupported certification data type'')) (\<lambda>_.
     bindE (require (\<not> pos + outer_len > length sig) (attestation_failed ''QE certification data is truncated'')) (\<lambda>_.
     Inr (take QUOTE_SIG_LEN sig, slice sig QUOTE_SIG_LEN ATT_KEY_LEN, slice sig pos outer_len)))))"

text \<open>The certification data: QE report, its signature, the auth data and the type-5 PCK chain.\<close>

definition parse_qe_data :: "bytes \<Rightarrow> (bytes \<times> bytes \<times> bytes \<times> bytes) res" where
  "parse_qe_data cert_data =
     bindE (require (\<not> length cert_data < QE_REPORT_LEN + QUOTE_SIG_LEN + 2 + CERT_DATA_HEADER_LEN)
       (attestation_failed ''QE certification data is truncated'')) (\<lambda>_.
     bindE (unpack_H cert_data (QE_REPORT_LEN + QUOTE_SIG_LEN)) (\<lambda>qe_auth_len.
     let inner = QE_REPORT_LEN + QUOTE_SIG_LEN + 2 in
     bindE (require (\<not> inner + qe_auth_len + CERT_DATA_HEADER_LEN > length cert_data)
       (attestation_failed ''QE authentication data is truncated'')) (\<lambda>_.
     let qe_auth = slice cert_data inner qe_auth_len; inner = inner + qe_auth_len in
     bindE (unpack_HI cert_data inner) (\<lambda>(cert_type, cert_len).
     let inner = inner + CERT_DATA_HEADER_LEN in
     bindE (require (\<not> inner + cert_len > length cert_data) (attestation_failed ''PCK certificate chain is truncated'')) (\<lambda>_.
     bindE (require (cert_type = CERT_TYPE_PCK_CHAIN) (attestation_failed ''unsupported QE certification data type'')) (\<lambda>_.
     Inr (slice cert_data 0 QE_REPORT_LEN, slice cert_data QE_REPORT_LEN QUOTE_SIG_LEN, qe_auth, slice cert_data inner cert_len)))))))"

definition tdx_parse :: "('c, 'k) x509_ops \<Rightarrow> bytes \<Rightarrow> 'c tdx_quote res" where
  "tdx_parse X blob =
     bindE (require (\<not> length blob < SIGNED_LEN + 4) (attestation_failed ''TDX quote too short'')) (\<lambda>_.
     bindE (unpack_I blob SIGNED_LEN) (\<lambda>sig_len.
     let pos = SIGNED_LEN + 4 in
     bindE (require (\<not> pos + sig_len > length blob) (attestation_failed ''TDX quote signature section is truncated'')) (\<lambda>_.
     bindE (parse_signature_section (slice blob pos sig_len)) (\<lambda>(quote_sig, att_key, cert_data).
     bindE (parse_qe_data cert_data) (\<lambda>(qe_report, qe_report_sig, qe_auth, cert_bytes).
     bindE (expect (xo_load_pem X cert_bytes) (attestation_failed ''could not parse PCK certificate chain'')) (\<lambda>chain.
     Inr \<lparr>dq_version = from_le (slice blob 0 2), dq_tee_type = from_le (slice blob 4 4),
          dq_measurement = slice blob MRTD_OFFSET MRTD_LEN, dq_report_data = slice blob REPORT_DATA_OFFSET REPORT_DATA_LEN,
          dq_signed_body = take SIGNED_LEN blob, dq_quote_signature = quote_sig, dq_attestation_key = att_key,
          dq_qe_report = qe_report, dq_qe_report_signature = qe_report_sig, dq_qe_auth_data = qe_auth, dq_pck_chain = chain\<rparr>))))))"

section \<open>The provider\<close>

definition tdx_detect :: "tsm_host \<Rightarrow> bool \<Rightarrow> bool" where
  "tdx_detect h device \<longleftrightarrow> tsm_available h \<and> device"

definition tdx_require_host :: "tsm_host \<Rightarrow> bool \<Rightarrow> unit res" where
  "tdx_require_host h device =
     bindE (require_tsm h (str ''TDX'')) (\<lambda>_.
     require device (Ca2a AttestationUnsupported (str ''TDX quote generation requires a non-paravisor TDX guest'') None))"

definition tdx_attest :: "lib \<Rightarrow> ('c, 'k) x509_ops \<Rightarrow> tsm_host \<Rightarrow> bool \<Rightarrow> ustr \<Rightarrow> ustr \<Rightarrow> ustr \<Rightarrow> attestation_report res" where
  "tdx_attest L X h device public_key nonce role =
     bindE (tdx_require_host h device) (\<lambda>_.
     bindE (tdx_report_data public_key nonce role) (\<lambda>expected.
     bindE (snd (collect_report L h expected PROVIDER_TDX_GUEST)) (\<lambda>(outblob, auxblob).
     bindE (tdx_parse X outblob) (\<lambda>q.
     bindE (require (dq_tee_type q = TEE_TYPE_TDX) (attestation_failed ''the quote is not a TDX quote'')) (\<lambda>_.
     bindE (require (dq_report_data q = expected)
       (attestation_failed ''the quote does not commit the requested key and nonce binding'')) (\<lambda>_.
     let chain_pem = concat (map (xo_to_pem X) (dq_pck_chain q)) in
     Inr \<lparr>ar_platform = str ''tdx'', ar_measurement = str ''sha384:'' @ hex (dq_measurement q), ar_public_key = public_key, ar_nonce = nonce,
          ar_raw_evidence = Some outblob, ar_quote_signature = Some (dq_quote_signature q), ar_key_pem = None,
          ar_key_chain_pem = (if chain_pem = [] then None else Some chain_pem), ar_role = role\<rparr>))))))"

interpretation tdx: attestation_provider "tdx_attest L X h device" "str ''tdx''" for L X h device
  by unfold_locales (auto simp: tdx_attest_def guard_simps Let_def)

section \<open>Appraisal\<close>

definition verify_ecdsa :: "('c, 'k) x509_ops \<Rightarrow> 'k \<Rightarrow> bytes \<Rightarrow> bytes \<Rightarrow> unit res" where
  "verify_ecdsa X key sig_rs message = xo_ecdsa X 256 key (from_be (take 32 sig_rs), from_be (slice sig_rs 32 32)) message"

definition p256_key :: "('c, 'k) x509_ops \<Rightarrow> bytes \<Rightarrow> 'k res" where
  "p256_key X raw_xy = expect (xo_p256 X (4 # raw_xy)) (PyExn ValueError)"

definition verify_tdx_quote ::
  "('c, 'k) x509_ops \<Rightarrow> bytes \<Rightarrow> 'c list \<Rightarrow> bytes option \<Rightarrow> bytes option \<Rightarrow> 'c tdx_quote res" where
  "verify_tdx_quote X raw_quote trusted_roots expected_mrtd expected_report_data =
     bindE (tdx_parse X raw_quote) (\<lambda>q.
     bindE (require (dq_tee_type q = TEE_TYPE_TDX) (attestation_failed ''quote is not a TDX quote'')) (\<lambda>_.
     bindE (verify_cert_chain X (dq_pck_chain q) trusted_roots) (\<lambda>_.
     bindE (require (dq_pck_chain q \<noteq> []) (PyExn IndexError)) (\<lambda>_.
     bindE (expect (xo_ec_key X (hd (dq_pck_chain q))) (attestation_failed ''PCK does not carry an elliptic-curve public key'')) (\<lambda>pck_key.
     bindE (catchE (verify_ecdsa X pck_key (dq_qe_report_signature q) (dq_qe_report q)) is_signature_error
       (\<lambda>_. Inl (attestation_failed ''QE report signature failed to verify''))) (\<lambda>_.
     bindE (require (take 32 (slice (dq_qe_report q) QE_REPORT_DATA_OFFSET 64) = sha256 (dq_attestation_key q @ dq_qe_auth_data q))
       (attestation_failed ''attestation key is not the one the QE report vouched for'')) (\<lambda>_.
     bindE (catchE (bindE (p256_key X (dq_attestation_key q)) (\<lambda>key. verify_ecdsa X key (dq_quote_signature q) (dq_signed_body q)))
       is_signature_error (\<lambda>_. Inl (attestation_failed ''TDX quote signature failed to verify''))) (\<lambda>_.
     bindE (require (\<forall>m \<in> set_option expected_mrtd. dq_measurement q = m) (attestation_failed ''MRTD does not match the expected value'')) (\<lambda>_.
     bindE (require (\<forall>d \<in> set_option expected_report_data. dq_report_data q = d)
       (attestation_failed ''report data does not match the expected binding'')) (\<lambda>_.
     Inr q))))))))))"

section \<open>Parsers fail closed\<close>

lemma unpack_raises:
  "pos + 6 \<le> length b \<Longrightarrow> fails_closed (unpack_HI b pos)"
  "pos + 4 \<le> length b \<Longrightarrow> fails_closed (unpack_I b pos)"
  "pos + 2 \<le> length b \<Longrightarrow> fails_closed (unpack_H b pos)"
  by (simp_all add: unpack_HI_def unpack_I_def unpack_H_def raises_only_def)

lemma attestation_failed_refusal: "refusal_of {AttestationFailed} (attestation_failed m)"
  by simp

lemma parse_signature_section_raises: "fails_closed (parse_signature_section sig)"
  unfolding parse_signature_section_def Let_def
  by (intro raises_intro attestation_failed_refusal) (auto simp: guard_simps tdx_lens intro!: raises_intro unpack_raises split: prod.split)

lemma parse_qe_data_raises: "fails_closed (parse_qe_data cert_data)"
  unfolding parse_qe_data_def Let_def
  by (intro raises_intro attestation_failed_refusal) (auto simp: guard_simps tdx_lens intro!: raises_intro unpack_raises split: prod.split)

lemma tdx_parse_raises: "fails_closed (tdx_parse X blob)"
  unfolding tdx_parse_def Let_def
  by (intro raises_intro attestation_failed_refusal) (auto simp: guard_simps tdx_lens intro!: raises_intro unpack_raises parse_signature_section_raises parse_qe_data_raises split: prod.split)

lemma skip_selections_raises: "fails_closed (skip_selections blob n pos)"
  by (induction blob n pos rule: skip_selections.induct) (auto intro!: raises_intro)

lemma tpm_quote_parse_raises: "fails_closed (tpm_quote_parse blob)"
proof -
  have u: "fails_closed (read_u16 b p)" for b p by (auto simp: read_u16_def intro!: raises_intro)
  have r: "fails_closed (read_2b b p)" for b p by (auto simp: read_2b_def intro!: raises_intro u split: prod.split)
  show ?thesis unfolding tpm_quote_parse_def Let_def
    by (auto intro!: raises_intro u r skip_selections_raises split: prod.split)
qed

lemma tdx_parse_lengths:
  assumes "tdx_parse X blob = Inr q"
  shows "length (dq_measurement q) = 48 \<and> length (dq_report_data q) = 64 \<and> length (dq_signed_body q) = 632 \<and>
    length (dq_quote_signature q) = 64 \<and> length (dq_attestation_key q) = 64 \<and> length (dq_qe_report q) = 384 \<and>
    length (dq_qe_report_signature q) = 64 \<and> length (dq_qe_auth_data q) < 65536"
proof -
  have f: "from_le (slice b i 2) < 65536" if "i + 2 \<le> length b" for b i
    using from_be_less [of "rev (slice b i 2)"] length_slice [OF that] by (simp add: from_le_def)
  from assms show ?thesis
    by (auto simp: tdx_parse_def parse_signature_section_def parse_qe_data_def unpack_H_def guard_simps Let_def tdx_lens length_slice f split: prod.splits)
qed

section \<open>Properties\<close>



definition sample_tdx_quote :: bytes where
  "sample_tdx_quote = replicate 4 0 @ [0x81, 0, 0, 0] @ replicate 624 0 @ [0x4F, 2, 0, 0] @ replicate 64 0 @ replicate 64 1 @ [6, 0, 0xC9, 1, 0, 0] @
     (replicate 320 0 @ sha256 (replicate 64 1) @ replicate 32 0) @ replicate 64 0 @ [0, 0] @ [5, 0, 1, 0, 0, 0] @ [2]"


end
