(* ===== verification/Bootstrap.thy ===== *)
theory Bootstrap
  imports Agent_Manifest Client Tdx
begin

text \<open>
  Building a peer node from a validated configuration, \<open>ca2a_runtime/bootstrap.py\<close>: the policy, the
  attestation provider, the caller verifier, and the node itself with its manifest binding. Paths are
  POSIX paths as \<open>pathlib\<close> normalizes them; the file system maps the text of a path to what reading it
  gives. A provider class is a constructor of \<open>provider_kind\<close>; the host carries what the three
  hardware collectors talk to. A TPM collection may fail to return, so the function a node calls is a
  field of the host, tied to the collector by \<open>host_tpm_returns\<close>.
\<close>

section \<open>Paths\<close>

type_synonym path = "ustr \<times> ustr list"

definition to_path :: "ustr \<Rightarrow> path" where
  "to_path s =
     (let n = length (takeWhile (\<lambda>c. c = 47) s) in
      (if n = 0 then [] else if n = 2 then str ''//'' else str ''/'',
       filter (\<lambda>p. p \<noteq> [] \<and> p \<noteq> str ''.'') (split_on 47 s)))"

definition path_str :: "path \<Rightarrow> ustr" where
  "path_str p = (if p = ([], []) then str ''.'' else fst p @ join (str ''/'') (snd p))"

text \<open>\<open>path if path.is_absolute() or config_dir is None else config_dir / path\<close>.\<close>

definition resolve :: "ustr option \<Rightarrow> ustr \<Rightarrow> ustr" where
  "resolve config_dir s =
     path_str (case config_dir of
         None \<Rightarrow> to_path s
       | Some d \<Rightarrow> if fst (to_path s) \<noteq> [] then to_path s else (fst (to_path d), snd (to_path d) @ snd (to_path s)))"

section \<open>Policy\<close>

definition load_policy :: "lib \<Rightarrow> (ustr \<Rightarrow> file_read) \<Rightarrow> ustr option \<Rightarrow> ca2a_config \<Rightarrow> policy res" where
  "load_policy L fs config_dir c =
     (case cc_policy_bundle_path c of
        Some (b # bs) \<Rightarrow>
          let path = resolve config_dir (b # bs) in
          (case fs path of
             Absent \<Rightarrow> Inl (config_error (str ''policy_bundle_path not found: '' @ path))
           | Unreadable \<Rightarrow> Inl (config_error (str ''cannot read policy_bundle_path: '' @ path))
           | Contents raw \<Rightarrow>
               bindE (expect (utf8_decode raw) (PyExn ValueError)) (\<lambda>decoded.
               let content = universal_newlines decoded in
               bindE (require (py_strip L content \<noteq> []) (config_error (str ''policy_bundle_path is empty: '' @ path))) (\<lambda>_.
               Inr (CedarPolicy (cedar_default content)))))
      | _ \<Rightarrow>
          (case cc_local_policy c of
             Some allow \<Rightarrow> Inr (LocalPolicy allow)
           | None \<Rightarrow> Inl (config_error (str ''ca2a start requires local_policy or policy_bundle_path in the config''))))"

section \<open>Providers\<close>

datatype provider_kind = Software_provider | Sev_snp_provider | Tdx_provider | Tpm_provider

record ('c, 'k) host =
  ho_tsm :: tsm_host
  ho_sev_device :: bool
  ho_tdx_device :: bool
  ho_tpm :: tpm_device
  ho_snp_lib :: snp_lib
  ho_x509 :: "('c, 'k) x509_ops"
  ho_certs :: "'c cert_ops"
  ho_tpm_attest :: attest_fn

definition host_tpm_returns :: "('c, 'k) host \<Rightarrow> bool" where
  "host_tpm_returns h \<longleftrightarrow> (\<forall>k n r. tpm_attest (ho_certs h) (ho_tpm h) k n r = Some (ho_tpm_attest h k n r))"

fun detect :: "('c, 'k) host \<Rightarrow> provider_kind \<Rightarrow> bool" where
  "detect h Software_provider = software_detect"
| "detect h Sev_snp_provider = snp_detect (ho_tsm h) (ho_sev_device h)"
| "detect h Tdx_provider = tdx_detect (ho_tsm h) (ho_tdx_device h)"
| "detect h Tpm_provider = tpm_detect (ho_tpm h)"

fun provider_attest :: "lib \<Rightarrow> ('c, 'k) host \<Rightarrow> provider_kind \<Rightarrow> attest_fn" where
  "provider_attest L h Software_provider = software_attest"
| "provider_attest L h Sev_snp_provider = snp_attest L (ho_snp_lib h) (ho_tsm h) (ho_sev_device h)"
| "provider_attest L h Tdx_provider = tdx_attest L (ho_x509 h) (ho_tsm h) (ho_tdx_device h)"
| "provider_attest L h Tpm_provider = ho_tpm_attest h"

definition HARDWARE_PROVIDERS :: "(ustr \<times> provider_kind) list" where
  "HARDWARE_PROVIDERS = [(str ''sev-snp'', Sev_snp_provider), (str ''tdx'', Tdx_provider), (str ''tpm'', Tpm_provider)]"

definition select_provider :: "lib \<Rightarrow> ('c, 'k) host \<Rightarrow> ca2a_config \<Rightarrow> provider_kind res" where
  "select_provider L h c =
     (let name = cc_provider c in
      if name = SOFTWARE_ONLY then Inr Software_provider
      else (case map_of HARDWARE_PROVIDERS name of
          Some p \<Rightarrow>
            bindE (require (detect h p)
              (config_error (str ''attestation provider '' @ py_repr L (JStr name) @ str '' is not available on this host''))) (\<lambda>_.
            Inr p)
        | None \<Rightarrow>
            if name = str ''auto''
            then expect (find (detect h) (map snd HARDWARE_PROVIDERS))
                   (config_error (str ''no hardware attestation provider detected''))
            else Inl (config_error (str ''attestation provider '' @ py_repr L (JStr name) @ str '' is not implemented''))))"

section \<open>The caller verifier\<close>

definition REPORT_VERIFIERS :: "ustr set" where
  "REPORT_VERIFIERS = {str ''sev-snp'', str ''tdx''}"

text \<open>\<open>bytes.strip()\<close>.\<close>

definition bytes_strip :: "bytes \<Rightarrow> bytes" where
  "bytes_strip b =
     (let space = (\<lambda>x. is_space (unat x)) in rev (dropWhile space (rev (dropWhile space b))))"

definition build_caller_verifier ::
  "lib \<Rightarrow> tpm_verify_lib \<Rightarrow> (ustr \<Rightarrow> file_read) \<Rightarrow> ustr option \<Rightarrow> ca2a_config \<Rightarrow> verifier option res" where
  "build_caller_verifier L V fs config_dir c =
     (case cc_verifier_platform c of
        None \<Rightarrow> Inr None
      | Some platform \<Rightarrow>
          bindE (require (platform \<notin> REPORT_VERIFIERS)
            (config_error (str ''attestation.caller_verifier.platform '' @ py_repr L (JStr platform)
               @ str '' cannot be appraised from a config file yet''))) (\<lambda>_.
          bindE (require (platform = str ''tpm'')
            (config_error (str ''attestation.caller_verifier.platform '' @ py_repr L (JStr platform) @ str '' is not implemented''))) (\<lambda>_.
          let path = resolve config_dir (case cc_verifier_roots_path c of Some p \<Rightarrow> p | None \<Rightarrow> []) in
          (case fs path of
             Absent \<Rightarrow> Inl (config_error (str ''attestation.caller_verifier.trusted_roots_path not found: '' @ path))
           | Unreadable \<Rightarrow> Inl (config_error (str ''cannot read attestation.caller_verifier.trusted_roots_path: '' @ path))
           | Contents roots_pem \<Rightarrow>
               bindE (require (bytes_strip roots_pem \<noteq> [])
                 (config_error (str ''attestation.caller_verifier.trusted_roots_path is empty: '' @ path))) (\<lambda>_.
               Inr (Some (tpm_verifier V roots_pem)))))))"

section \<open>The node\<close>

text \<open>What start-up reads: the file system, the packages, and the decoders of JSON documents.\<close>

record startup =
  st_fs :: "ustr \<Rightarrow> file_read"
  st_config_dir :: "ustr option"
  st_sdk :: manifest_sdk
  st_loads :: "bytes \<Rightarrow> loaded"
  st_decode_error :: "ustr \<Rightarrow> bool"
  st_tpm_verify :: tpm_verify_lib

definition bind_manifest :: "lib \<Rightarrow> startup \<Rightarrow> ca2a_config \<Rightarrow> agent_manifest_binding option res" where
  "bind_manifest L st c =
     (case cc_manifest_path c of
        None \<Rightarrow> Inr None
      | Some path \<Rightarrow>
          (case (cc_manifest_anchor_path c, cc_manifest_subject c) of
             (Some anchor, Some subject) \<Rightarrow>
               bindE (load_agent_manifest_document (st_sdk st) (st_loads st) (st_fs st (resolve (st_config_dir st) path))) (\<lambda>doc.
               bindE (load_agent_manifest_trust_anchor L (st_decode_error st) (st_fs st (resolve (st_config_dir st) anchor))) (\<lambda>keys.
               bindE (verify_agent_manifest_binding (st_sdk st) doc keys subject) (\<lambda>b. Inr (Some b))))
           | _ \<Rightarrow> Inl (config_error (str ''Agent Manifest startup requires path, trust anchor, and authenticated subject''))))"

definition build_peer_node ::
  "lib \<Rightarrow> ('c, 'k) host \<Rightarrow> startup \<Rightarrow> ca2a_config \<Rightarrow> bytes \<Rightarrow> bytes \<Rightarrow> (peer_node \<times> agent_manifest_binding option) res" where
  "build_peer_node L h st c private secret =
     bindE (load_policy L (st_fs st) (st_config_dir st) c) (\<lambda>policy.
     bindE (require (cc_trusted_roots c \<noteq> {||}) (config_error (str ''ca2a start requires at least one trusted_root_issuer''))) (\<lambda>_.
     bindE (bind_manifest L st c) (\<lambda>manifest.
     bindE (select_provider L h c) (\<lambda>provider.
     bindE (build_caller_verifier L (st_tpm_verify st) (st_fs st) (st_config_dir st) c) (\<lambda>caller_verifier.
     bindE (mk_node L \<lparr>na_policy = policy, na_provider = Some (provider_attest L h provider), na_max_depth = cc_max_depth c,
         na_requirement = cc_requirement c, na_caller_verifier = caller_verifier, na_ttl = cc_ttl c, na_require_holder = True,
         na_trusted = fset (cc_trusted_roots c), na_has_source = False, na_max_staleness = None\<rparr> private secret) (\<lambda>node.
     Inr (node, manifest)))))))"

section \<open>Lemmas\<close>

fun kind_name :: "provider_kind \<Rightarrow> ustr" where
  "kind_name Software_provider = SOFTWARE_ONLY"
| "kind_name Sev_snp_provider = str ''sev-snp''"
| "kind_name Tdx_provider = str ''tdx''"
| "kind_name Tpm_provider = str ''tpm''"

text \<open>Every provider start-up can select meets the provider interface, under its own platform name.\<close>

lemma selected_provider:
  assumes "host_tpm_returns h"
  shows "attestation_provider (provider_attest L h p) (kind_name p)"
proof (cases p)
  case Tpm_provider
  have "tpm_attest (ho_certs h) (ho_tpm h) k n r = Some (Inr rep)" if "ho_tpm_attest h k n r = Inr rep" for k n r rep
    using assms that by (simp add: host_tpm_returns_def)
  with Tpm_provider tpm_attest_binds show ?thesis by unfold_locales (fastforce simp: Tpm_provider)+
qed (simp_all add: software.attestation_provider_axioms snp.attestation_provider_axioms tdx.attestation_provider_axioms)

lemma select_provider_Inr:
  assumes "select_provider L h c = Inr p"
  shows "(detect h p \<longleftrightarrow> p \<noteq> Software_provider) \<and> (if cc_provider c = str ''auto'' then find (detect h) (map snd HARDWARE_PROVIDERS) = Some p else kind_name p = cc_provider c)"
  using assms
  by (auto simp: select_provider_def HARDWARE_PROVIDERS_def SOFTWARE_ONLY_def software_detect_def guard_simps Let_def
      split: if_splits)

lemma kind_name_software: "kind_name p = SOFTWARE_ONLY \<longleftrightarrow> p = Software_provider"
  by (cases p) (simp_all add: SOFTWARE_ONLY_def)

lemma auto_hardware: "str ''auto'' \<noteq> SOFTWARE_ONLY"
  by (simp add: SOFTWARE_ONLY_def)

lemma build_caller_verifier_Inr:
  assumes "build_caller_verifier L V fs dir c = Inr (Some v)"
  shows "\<exists>roots. cc_verifier_platform c = Some (str ''tpm'') \<and>
    fs (resolve dir (case cc_verifier_roots_path c of Some p \<Rightarrow> p | None \<Rightarrow> [])) = Contents roots \<and> v = tpm_verifier V roots"
  using assms by (auto simp: build_caller_verifier_def guard_simps Let_def split: option.splits file_read.splits)

lemma build_peer_node_Inr:
  assumes "build_peer_node L h st c private secret = Inr (node, manifest)"
  obtains policy provider caller_verifier where
    "load_policy L (st_fs st) (st_config_dir st) c = Inr policy" "select_provider L h c = Inr provider"
    "build_caller_verifier L (st_tpm_verify st) (st_fs st) (st_config_dir st) c = Inr caller_verifier"
    "bind_manifest L st c = Inr manifest" "cc_trusted_roots c \<noteq> {||}"
    "pn_policy node = policy" "pn_provider node = provider_attest L h provider" "pn_caller_verifier node = caller_verifier"
    "pn_max_depth node = cc_max_depth c" "pn_requirement node = cc_requirement c" "pn_trusted node = fset (cc_trusted_roots c)"
    "pn_require_holder node" "pn_channel_public_key node = hex (x_public L private)" "pn_private_key node = private"
    "pn_challenge_secret node = secret"
proof -
  from assms obtain policy provider caller_verifier where
    "load_policy L (st_fs st) (st_config_dir st) c = Inr policy" "select_provider L h c = Inr provider"
    "build_caller_verifier L (st_tpm_verify st) (st_fs st) (st_config_dir st) c = Inr caller_verifier"
    "bind_manifest L st c = Inr manifest" "cc_trusted_roots c \<noteq> {||}"
    "mk_node L \<lparr>na_policy = policy, na_provider = Some (provider_attest L h provider), na_max_depth = cc_max_depth c,
       na_requirement = cc_requirement c, na_caller_verifier = caller_verifier, na_ttl = cc_ttl c, na_require_holder = True,
       na_trusted = fset (cc_trusted_roots c), na_has_source = False, na_max_staleness = None\<rparr> private secret = Inr node"
    by (auto simp: build_peer_node_def guard_simps)
  then show ?thesis by (intro that) (auto simp: mk_node_def split: if_splits)
qed

section \<open>A sample host\<close>

text \<open>An SNP guest without a TPM, whose driver answers with the given blob; and a configuration file's contents.\<close>

definition sample_host :: "bytes \<Rightarrow> (nat, bytes) host" where
  "sample_host outblob = \<lparr>ho_tsm = sample_tsm\<lparr>th_outblob := Inr outblob\<rparr>, ho_sev_device = True, ho_tdx_device = False,
     ho_tpm = sample_device\<lparr>td_linux := False\<rparr>, ho_snp_lib = sample_snp, ho_x509 = sample_x509, ho_certs = sample_certs,
     ho_tpm_attest = (\<lambda>k n r. Inl (Ca2a AttestationUnsupported (str ''TPM quote generation is only implemented on Linux'') None))\<rparr>"

lemma sample_host_returns: "host_tpm_returns (sample_host b)"
  by (simp add: host_tpm_returns_def sample_host_def tpm_attest_def tpm_require_host_def)

definition sample_settings :: "string \<Rightarrow> ca2a_config" where
  "sample_settings provider = \<lparr>cc_provider = str provider, cc_enforcement_mode = str ''enforcing'', cc_requirement = REQUIRE_NONE,
     cc_verifier_platform = None, cc_verifier_roots_path = None, cc_ttl = 60, cc_max_depth = 8, cc_policy_bundle_path = None,
     cc_local_policy = Some {|str ''read''|}, cc_listen_addr = DEFAULT_LISTEN_ADDR, cc_trusted_roots = {|sample_key 1|},
     cc_manifest_path = Some (str ''m.json''), cc_manifest_anchor_path = Some (str ''a.json''),
     cc_manifest_subject = Some (str ''spiffe://a'')\<rparr>"

definition sample_manifest :: jdict where
  "sample_manifest = [(str ''manifest_id'', JStr (str ''1'')), (str ''agent_id'', JStr (str ''spiffe://a'')),
     (str ''issuer'', JStr (str ''spiffe://i'')), (str ''version'', JStr (str ''0.1''))]"

text \<open>The anchor file holds one key.\<close>

definition sample_anchor :: json where
  "sample_anchor = JObj [(str ''public_key_base64url'', JStr (b64url_encode (replicate 32 7)))]"

definition sample_startup :: "bytes \<Rightarrow> startup" where
  "sample_startup anchor = \<lparr>st_fs = (\<lambda>p. if p = str ''/etc/a.json'' then Contents anchor else Contents []),
     st_config_dir = Some (str ''/etc/''),
     st_sdk = \<lparr>ms_decode_cose = (\<lambda>b. None), ms_cose_version = str ''0.2'',
       ms_verify = (\<lambda>a keys. Inr \<lparr>mv_valid = keys \<noteq> [], mv_result = str ''VALID'', mv_signature_verified = True, mv_warnings = []\<rparr>)\<rparr>,
     st_loads = (\<lambda>b. Loaded (JObj sample_manifest)), st_decode_error = (\<lambda>s. True), st_tpm_verify = sample_tpm_verify\<rparr>"

lemma sample_paths:
  "resolve (Some (str ''/etc/'')) (str ''a.json'') = str ''/etc/a.json''" "resolve (Some (str ''/etc/'')) (str ''m.json'') = str ''/etc/m.json''"
  by (simp_all add: resolve_def to_path_def path_str_def str_simps Let_def)

lemma sample_files:
  "st_fs (sample_startup raw) (resolve (st_config_dir (sample_startup raw)) (str ''a.json'')) = Contents raw"
  "st_fs (sample_startup raw) (resolve (st_config_dir (sample_startup raw)) (str ''m.json'')) = Contents []"
  "st_decode_error (sample_startup raw) = (\<lambda>s. True)"
  by (simp_all add: sample_startup_def sample_paths)

lemma read_anchor_canonical:
  assumes "json_wf v" and "canonicalize v = Inr raw"
  shows "read_anchor L d (Contents raw) = Inr (jnorm v)"
  using read_json_canonical [OF assms, of L d ConfigError "[]" "[]"] by (simp add: read_anchor_def read_json_def guard_simps Let_def)

lemma sample_anchor_loads:
  "\<exists>raw. load_agent_manifest_trust_anchor L d (Contents raw) = Inr [(key_id (replicate 32 7), replicate 32 7)]"
proof -
  let ?k = "replicate 32 (7 :: byte)"
  have "json_ok sample_anchor" by (simp add: sample_anchor_def encodable_b64url)
  then obtain raw where raw: "canonicalize sample_anchor = Inr raw" using canonicalize_ok by blast
  have wf: "json_wf sample_anchor" by (simp add: sample_anchor_def)
  have norm: "jnorm sample_anchor = sample_anchor" by (simp add: sample_anchor_def)
  have "anchor_key L sample_anchor = Inr (key_id ?k, ?k)"
    by (simp add: anchor_key_def sample_anchor_def dict_get_or_def dict_get_none_def manifest_b64url_decode_encode)
  then have "collect_anchors L [sample_anchor] [] = Inr [(key_id ?k, ?k)]" by simp
  moreover have "anchor_items sample_anchor = Inr [sample_anchor]" by (simp add: anchor_items_def sample_anchor_def dict_keys_def)
  ultimately show ?thesis
    using read_anchor_canonical [OF wf raw, of L d] norm by (intro exI [of _ raw]) (simp add: load_agent_manifest_trust_anchor_def)
qed

section \<open>Properties\<close>

text \<open>
  C13: Start-up never downgrades to software. A hardware provider it selects is present on the host; a named
  provider is the one selected, \<open>auto\<close> takes the first hardware provider present in the order
  SEV-SNP, TDX, TPM, and every report the provider makes carries its own platform name and the key,
  nonce and role asked for, so a software report appears only when the configuration names it.
\<close>

theorem provider_never_downgraded:
  assumes "select_provider L h c = Inr p" and "host_tpm_returns h"
    and "provider_attest L h p k n r = Inr report"
  shows "(detect h p \<longleftrightarrow> ar_platform report \<noteq> SOFTWARE_ONLY) \<and> (ar_platform report = SOFTWARE_ONLY \<longleftrightarrow> cc_provider c = SOFTWARE_ONLY) \<and>
    (cc_provider c \<noteq> str ''auto'' \<longrightarrow> ar_platform report = cc_provider c) \<and>
    (cc_provider c = str ''auto'' \<longrightarrow> find (detect h) [Sev_snp_provider, Tdx_provider, Tpm_provider] = Some p) \<and>
    ar_public_key report = k \<and> ar_nonce report = n \<and> ar_role report = r"
proof -
  note s = select_provider_Inr [OF assms(1)]
  from attestation_provider.attest_binds [OF selected_provider [OF assms(2)] assms(3)]
  have f: "ar_public_key report = k" "ar_nonce report = n" "ar_role report = r" "ar_platform report = kind_name p" by auto
  have "p \<noteq> Software_provider" if "cc_provider c = str ''auto''"
    using s that by (auto simp: HARDWARE_PROVIDERS_def split: if_splits)
  with s f show ?thesis
    by (cases "cc_provider c = str ''auto''") (auto simp: HARDWARE_PROVIDERS_def auto_hardware simp flip: kind_name_software)
qed


text \<open>
  A node runs under a manifest identity only when that identity was verified. Start-up with a
  manifest configured either fails or yields a binding whose agent is the configured subject, a SPIFFE
  identity, read from the artifact that the manifest verifier found valid and signed under the
  keys of the configured anchor file, each of them an Ed25519 key named by its own digest; without
  one there is no binding.
\<close>

theorem started_identity_verified:
  assumes "build_peer_node L h st c private secret = Inr (node, manifest)"
  shows "(manifest = None \<longleftrightarrow> cc_manifest_path c = None) \<and>
    (\<forall>b \<in> set_option manifest. cc_manifest_subject c = Some (mb_agent_id b) \<and> is_spiffe (mb_agent_id b) \<and>
       (\<exists>path anchor doc keys verdict. cc_manifest_path c = Some path \<and> cc_manifest_anchor_path c = Some anchor \<and>
          load_agent_manifest_document (st_sdk st) (st_loads st) (st_fs st (resolve (st_config_dir st) path)) = Inr doc \<and>
          dict_get_none (lm_manifest doc) (str ''agent_id'') = JStr (mb_agent_id b) \<and>
          load_agent_manifest_trust_anchor L (st_decode_error st) (st_fs st (resolve (st_config_dir st) anchor)) = Inr keys \<and>
          anchors_wf keys \<and> ms_verify (st_sdk st) (artifact doc) (sdk_keys keys) = Inr verdict \<and>
          mv_valid verdict \<and> mv_signature_verified verdict))"
proof -
  from assms have m: "bind_manifest L st c = Inr manifest" by (rule build_peer_node_Inr)
  show ?thesis
  proof (cases "cc_manifest_path c")
    case None
    with m show ?thesis by (auto simp: bind_manifest_def)
  next
    case (Some path)
    with m obtain anchor subject doc keys b where s: "cc_manifest_subject c = Some subject"
      and a: "cc_manifest_anchor_path c = Some anchor"
      and d: "load_agent_manifest_document (st_sdk st) (st_loads st) (st_fs st (resolve (st_config_dir st) path)) = Inr doc"
      and k: "load_agent_manifest_trust_anchor L (st_decode_error st) (st_fs st (resolve (st_config_dir st) anchor)) = Inr keys"
      and b: "verify_agent_manifest_binding (st_sdk st) doc keys subject = Inr b" "manifest = Some b"
      by (auto simp: bind_manifest_def guard_simps split: option.splits)
    with Some trust_anchor_wf [OF k] show ?thesis by (auto simp: binding_Inr_iff)
  qed
qed

section \<open>Witnesses\<close>

text \<open>The SNP guest of the sample selects its provider under \<open>auto\<close> and attests.\<close>

theorem provider_never_downgraded_witness:
  "\<exists>h :: (nat, bytes) host. \<exists>report. select_provider sample_lib h (sample_settings ''auto'') = Inr Sev_snp_provider \<and>
     provider_attest sample_lib h Sev_snp_provider (str ''k'') (str ''n'') ROLE_CALLEE = Inr report \<and>
     ar_platform report \<noteq> SOFTWARE_ONLY \<and> ar_nonce report = str ''n''"
proof -
  obtain d where d: "snp_report_data (str ''k'') (str ''n'') ROLE_CALLEE = Inr d" and len: "length d = 64"
    using binding_input_ok [of "str ''k''" "str ''n''" SNP_PREFIX]
    by (auto simp: snp_report_data_def role_prefix_def PREFIXES_def prefix_defs ROLE_CALLER_def ROLE_CALLEE_def str_simps derive_binding_def
        guard_simps pad_report_data_def TSM_REPORT_DATA_LEN_def)
  let ?h = "sample_host (replicate 48 7 @ d)"
  have s: "select_provider sample_lib ?h (sample_settings ''auto'') = Inr Sev_snp_provider"
    by (simp add: select_provider_def sample_settings_def HARDWARE_PROVIDERS_def SOFTWARE_ONLY_def sample_host_def snp_detect_def
        tsm_available_def sample_tsm_def)
  have "snd (collect_report sample_lib (ho_tsm ?h) d PROVIDER_SEV_GUEST) = Inr (replicate 48 7 @ d, None)"
    using len by (simp add: collect_defs sample_host_def sample_tsm_def TSM_REPORT_DATA_LEN_def py_strip_def py_space_def is_space_def
        PROVIDER_SEV_GUEST_def str_simps)
  then obtain report where r: "provider_attest sample_lib ?h Sev_snp_provider (str ''k'') (str ''n'') ROLE_CALLEE = Inr report"
    using d len by (simp add: snp_attest_def snp_require_host_def require_tsm_def snp_parse_def)
      (simp add: sample_host_def sample_tsm_def sample_snp_def)
  from provider_never_downgraded [OF s sample_host_returns r] s r show ?thesis
    by (intro exI [of _ ?h] exI [of _ report]) (simp add: sample_settings_def SOFTWARE_ONLY_def)
qed

lemma sample_started:
  "\<exists>raw b. build_peer_node sample_lib (sample_host []) (sample_startup raw) (sample_settings ''software-only'') [5] [1] = Inr (sample_node, Some b)"
proof -
  let ?c = "sample_settings ''software-only''"
  obtain raw where raw: "load_agent_manifest_trust_anchor sample_lib (\<lambda>s. True) (Contents raw) = Inr [(key_id (replicate 32 7), replicate 32 7)]"
    using sample_anchor_loads by blast
  let ?st = "sample_startup raw" and ?doc = "\<lparr>lm_manifest = sample_manifest, lm_envelope = None\<rparr>"
  have doc: "load_agent_manifest_document (st_sdk ?st) (st_loads ?st) (Contents []) = Inr ?doc"
    by (simp add: load_agent_manifest_document_def sample_startup_def sample_manifest_def dict_get_none_def)
  obtain b where b: "verify_agent_manifest_binding (st_sdk ?st) ?doc [(key_id (replicate 32 7), replicate 32 7)] (str ''spiffe://a'') = Inr b"
    by (simp add: verify_agent_manifest_binding_def sample_startup_def sdk_keys_def present_field_def spiffe_field_def sample_manifest_def
        dict_get_none_def is_spiffe_def SPIFFE_def str_simps nonempty_str_def)
  have "bind_manifest sample_lib ?st ?c = Inr (Some b)"
    using raw doc b by (simp add: bind_manifest_def sample_settings_def sample_files)
  moreover have "load_policy sample_lib (st_fs ?st) (st_config_dir ?st) ?c = Inr (LocalPolicy {|str ''read''|})"
    by (simp add: load_policy_def sample_settings_def)
  moreover have "select_provider sample_lib (sample_host []) ?c = Inr Software_provider"
    by (simp add: select_provider_def sample_settings_def SOFTWARE_ONLY_def)
  moreover have "build_caller_verifier sample_lib (st_tpm_verify ?st) (st_fs ?st) (st_config_dir ?st) ?c = Inr None"
    by (simp add: build_caller_verifier_def sample_settings_def)
  moreover have "REQUIRE_NONE |\<in>| REQUIREMENT_VALUES" "REQUIRE_NONE \<noteq> REQUIRE_HARDWARE"
    by (simp_all add: REQUIREMENT_VALUES_def REQUIRE_NONE_def REQUIRE_HARDWARE_def)
  ultimately show ?thesis
    by (intro exI [of _ raw] exI [of _ b]) (simp add: build_peer_node_def mk_node_def sample_settings_def sample_node_def)
qed

lemma sample_node_accepts: "\<exists>message res. node_handle sample_lib sample_node sample_env message = Inr res"
proof -
  let ?aud = "hex (x_public sample_lib [5])" and ?cfg = "node_config sample_node sample_env"
  let ?req = "sample_request_to ?aud (str ''read'')"
  have "attach_place [] = InBare" by (simp add: attach_place_def dict_get_none_def)
  obtain message where m: "parse_peer_request sample_lib message None = Inr (Some ?req)"
    using bare_attach [OF sample_request_wire_ok, of "str ''read''" ?aud sample_lib] by auto
  have args: "chain_args_of ?cfg = sample_args"
    by (simp add: chain_args_of_def node_config_def sample_node_def sample_env_def sample_args_def)
  obtain r where r: "record_for sample_leaf (str ''r1'') None CALLER_NOT_OFFERED = Inr r"
    by (simp add: record_for_def rec_post_init_def)
  have h: "holder_verified sample_lib ?cfg ?req"
    by (rule sample_holder) (simp_all add: node_config_def sample_node_def sample_env_def)
  have eff: "effective_of sample_lib ?cfg ?req = {|str ''read''|}"
    by (simp add: effective_of_def sample_request_fields node_config_def sample_node_def local_intersect_def)
  have "appraise_caller_runtime sample_lib ?cfg ?req {|str ''read''|} = Inr CALLER_NOT_OFFERED"
    by (simp add: appraise_caller_runtime_Inr_iff sample_request_fields)
      (simp add: node_config_def sample_node_def REQUIREMENT_VALUES_def)
  moreover have "open_payload sample_lib ?cfg ?req = Inr None" by (simp add: open_payload_def sample_request_fields)
  ultimately have "handle_peer_request sample_lib ?cfg ?req = Inr \<lparr>res_effective = {|str ''read''|}, res_granted = str ''read'',
      res_record = r, res_payload = None, res_caller_attestation = CALLER_NOT_OFFERED, res_revocation = REVOCATION_NOT_CHECKED\<rparr>"
    using r h sample_chain_verifies by (simp add: handle_Inr_iff eff sample_request_fields args)
  with m have "is_ok (node_handle sample_lib sample_node sample_env message)" by (simp add: node_handle_def is_ok_def)
  then show ?thesis by (auto simp: is_ok_def split: sum.splits)
qed


theorem started_identity_verified_witness:
  "\<exists>raw b. build_peer_node sample_lib (sample_host []) (sample_startup raw) (sample_settings ''software-only'') [5] [1] = Inr (sample_node, Some b) \<and>
     mb_agent_id b = str ''spiffe://a''"
proof -
  obtain raw b where n: "build_peer_node sample_lib (sample_host []) (sample_startup raw) (sample_settings ''software-only'') [5] [1] = Inr (sample_node, Some b)"
    using sample_started by blast
  from started_identity_verified [OF n] have "mb_agent_id b = str ''spiffe://a''" by (simp add: sample_settings_def)
  with n show ?thesis by blast
qed

end
