(* ===== verification/Cli.thy ===== *)
theory Cli
  imports Bootstrap Trace
begin

text \<open>
  The command line, \<open>ca2a_runtime/cli.py\<close>, from the parsed arguments on: the five commands with what
  each prints and the exit code it returns, and the checks and dispatch of \<open>main\<close>. The argument
  parser belongs to the standard library; a parsed command is a value of \<open>command\<close>, and
  \<open>parser.error\<close> is a line of its own with exit code 2. What a command printed is a list of lines: a
  JSON document on stdout, text on stdout or text on stderr. An exception that no handler catches
  ends a command as the left injection, after the lines printed so far.
\<close>

section \<open>Arguments and output\<close>

record chain_options =
  op_max_depth :: int
  op_trusted_root_issuer :: "ustr list"
  op_at_time :: "int option"
  op_revocations :: "ustr option"
  op_max_revocation_staleness :: "int option"

record verify_chain_args = chain_options +
  vc_chain :: ustr

record verify_dag_args = chain_options +
  vd_structural_only :: bool
  vd_dag :: ustr
  vd_chain :: "ustr option"

record verify_lineage_args = chain_options +
  vl_dag :: ustr
  vl_chain :: ustr
  vl_max_age_seconds :: "int option"

datatype command =
    Validate_config ustr
  | Verify_chain verify_chain_args
  | Verify_dag verify_dag_args
  | Verify_lineage verify_lineage_args
  | Start ustr

datatype line = Json jdict | Stdout ustr | Stderr ustr | Parser_error ustr

type_synonym outcome = "line list \<times> int res"

text \<open>
  What a command reads: the file system, the clocks of the chain and of the TRACE verifier, whether
  a text that \<open>json.loads\<close> refuses is a decode error, the YAML parser, and the texts of exceptions.
\<close>

record cli_env =
  cl_fs :: "ustr \<Rightarrow> file_read"
  cl_clock :: int
  cl_trace_clock :: "nat \<Rightarrow> int"
  cl_is_decode_error :: "ustr \<Rightarrow> bool"
  cl_yaml :: "ustr \<Rightarrow> json option"
  cl_exn_text :: "exn \<Rightarrow> ustr"
  cl_detail :: "exn \<Rightarrow> ustr option"

definition path_text :: "ustr \<Rightarrow> ustr" where
  "path_text s = path_str (to_path s)"

definition open_file :: "cli_env \<Rightarrow> ustr \<Rightarrow> file_read" where
  "open_file env s = cl_fs env (path_text s)"

text \<open>\<open>str(exc)\<close>.\<close>

definition exn_str :: "cli_env \<Rightarrow> exn \<Rightarrow> ustr" where
  "exn_str env e = (case e of Ca2a _ m _ \<Rightarrow> m | PyExn _ \<Rightarrow> cl_exn_text env e)"

definition refused :: "string \<Rightarrow> ustr \<Rightarrow> jdict" where
  "refused code message =
     [(str ''verified'', JBool False), (str ''code'', JStr (str code)), (str ''error'', JStr message)]"

section \<open>Commands\<close>

definition cmd_validate_config :: "lib \<Rightarrow> cli_env \<Rightarrow> ustr \<Rightarrow> outcome" where
  "cmd_validate_config L env config =
     (case config_load L (cl_yaml env) (path_text config) (open_file env config) of
        Inr cfg \<Rightarrow> ([Stdout (str ''ok: provider='' @ cc_provider cfg @ str '' enforcement='' @ cc_enforcement_mode cfg)], Inr 0)
      | Inl e \<Rightarrow> if is_ca2a e then ([Stderr (str ''invalid config: '' @ exn_str env e)], Inr 1) else ([], Inl e))"

definition revocation_fields :: "revocation_status \<Rightarrow> jdict" where
  "revocation_fields status =
     (str ''revocation'', JStr (rs_state status)) #
     (if rs_checked status then [(str ''revocation_as_of'', case rs_as_of status of None \<Rightarrow> JNull | Some t \<Rightarrow> JInt t)] else [])"

definition load_revocations :: "lib \<Rightarrow> cli_env \<Rightarrow> 'o chain_options_scheme \<Rightarrow> revocation_snapshot option res" where
  "load_revocations L env args =
     (case op_revocations args of
        None \<Rightarrow> Inr None
      | Some p \<Rightarrow> bindE (load_revocation_snapshot L (cl_is_decode_error env) (path_text p) (open_file env p)) (\<lambda>s. Inr (Some s)))"

definition chain_args_for :: "cli_env \<Rightarrow> 'o chain_options_scheme \<Rightarrow> revocation_snapshot option \<Rightarrow> chain_args" where
  "chain_args_for env args revocations =
     \<lparr>ca_max_depth = op_max_depth args, ca_trusted = set (op_trusted_root_issuer args), ca_at_time = op_at_time args,
      ca_revocations = revocations, ca_max_staleness = op_max_revocation_staleness args, ca_clock = cl_clock env\<rparr>"

text \<open>\<open>except CA2AError\<close> around a verification: the refusal is printed and the exit code is 1.\<close>

definition report_refusal :: "cli_env \<Rightarrow> 'a res \<Rightarrow> ('a \<Rightarrow> outcome) \<Rightarrow> outcome" where
  "report_refusal env m success =
     (case m of
        Inr x \<Rightarrow> success x
      | Inl e \<Rightarrow> (case exn_class e of
            Some c \<Rightarrow> ([Json (refused (err_code c) (exn_str env e))], Inr 1)
          | None \<Rightarrow> ([], Inl e)))"

definition cmd_verify_chain :: "lib \<Rightarrow> cli_env \<Rightarrow> verify_chain_args \<Rightarrow> outcome" where
  "cmd_verify_chain L env args =
     report_refusal env
       (bindE (load_revocations L env args) (\<lambda>revocations.
        verify_chain_file L (cl_is_decode_error env) (chain_args_for env args revocations)
          (path_text (vc_chain args)) (open_file env (vc_chain args))))
       (\<lambda>result.
         ([Json (dict_update
             [(str ''verified'', JBool True), (str ''hops'', JInt (int (cr_hops result))),
              (str ''leaf_scope'', JList (map JStr (cr_leaf_scope result)))]
             (revocation_fields \<lparr>rs_checked = cr_revocation_checked result, rs_as_of = cr_revocation_as_of result\<rparr>))],
          Inr 0))"

definition load_chain :: "lib \<Rightarrow> cli_env \<Rightarrow> ustr \<Rightarrow> delegation_credential list res" where
  "load_chain L env path =
     bindE (read_json L (cl_is_decode_error env) InvalidCredential ''chain'' (path_text path) (open_file env path)) parse_chain"

text \<open>\<open>str(s) for s in v\<close>: a string is iterated by characters, a dict by its keys.\<close>

definition iter_strs :: "lib \<Rightarrow> json \<Rightarrow> ustr list res" where
  "iter_strs L v =
     (case v of
        JList vs \<Rightarrow> Inr (map (py_str L) vs)
      | JStr s \<Rightarrow> Inr (map (\<lambda>c. [c]) s)
      | JObj d \<Rightarrow> Inr (map fst d)
      | _ \<Rightarrow> Inl (PyExn TypeError))"

text \<open>\<open>None if item.get(k) is None else str(item[k])\<close>.\<close>

definition opt_text :: "lib \<Rightarrow> jdict \<Rightarrow> string \<Rightarrow> ustr option" where
  "opt_text L d k = (let v = dict_get_none d (str k) in if v = JNull then None else Some (py_str L v))"

definition record_from_item :: "lib \<Rightarrow> json \<Rightarrow> delegation_record res" where
  "record_from_item L item =
     bindE (expect (as_obj item) (PyExn TypeError)) (\<lambda>d.
     bindE (dict_item d (str ''record_id'')) (\<lambda>record_id.
     bindE (dict_item d (str ''credential_id'')) (\<lambda>credential_id.
     bindE (dict_item d (str ''subject'')) (\<lambda>subject.
     bindE (dict_item d (str ''scope'')) (\<lambda>scope.
     bindE (iter_strs L scope) (\<lambda>scope.
     bindE (if dict_get_none d (str ''effective_scope'') = JNull then Inr None
            else bindE (iter_strs L (dict_get_none d (str ''effective_scope''))) (\<lambda>xs. Inr (Some (fset_of_list xs)))) (\<lambda>effective.
     rec_post_init \<lparr>rec_id = py_str L record_id, rec_credential_id = py_str L credential_id, rec_subject = py_str L subject,
       rec_scope = fset_of_list scope, rec_parent_hash = opt_text L d ''parent_record_hash'',
       rec_decision = py_str L (dict_get_or d ''decision'' (JStr ALLOW)), rec_requested = opt_text L d ''requested_capability'',
       rec_effective = effective, rec_reason = opt_text L d ''denial_reason'',
       rec_caller_attestation = py_str L (dict_get_or d ''caller_attestation'' (JStr CALLER_NOT_OFFERED))\<rparr>)))))))"

definition is_item_error :: "exn \<Rightarrow> bool" where
  "is_item_error e \<longleftrightarrow> e = PyExn KeyError \<or> e = PyExn TypeError \<or> is_value_error e"

definition load_records :: "lib \<Rightarrow> cli_env \<Rightarrow> ustr \<Rightarrow> delegation_record list res" where
  "load_records L env path =
     bindE (read_json L (cl_is_decode_error env) ProvenanceLinkBroken ''dag'' (path_text path) (open_file env path)) (\<lambda>data.
     let data = (case data of JObj d \<Rightarrow> (case dict_get d (str ''records'') of Some v \<Rightarrow> v | None \<Rightarrow> data) | _ \<Rightarrow> data) in
     bindE (expect (as_list data) (link_broken (str ''dag document must be a list or {\"records\": [...]}''))) (\<lambda>items.
     traverseE (\<lambda>item. catchE (record_from_item L item) is_item_error
       (\<lambda>_. Inl (link_broken (str ''malformed provenance record'')))) items))"

text \<open>\<open>if args.chain\<close>: an empty path counts as none.\<close>

definition given_chain :: "verify_dag_args \<Rightarrow> ustr option" where
  "given_chain args = (case vd_chain args of Some (c # cs) \<Rightarrow> Some (c # cs) | _ \<Rightarrow> None)"

definition check_dag :: "lib \<Rightarrow> cli_env \<Rightarrow> verify_dag_args \<Rightarrow> (delegation_record list \<times> revocation_status option) res" where
  "check_dag L env args =
     bindE (load_records L env (vd_dag args)) (\<lambda>loaded.
     bindE (verify_dag loaded) (\<lambda>records.
     case given_chain args of
       None \<Rightarrow> Inr (records, None)
     | Some path \<Rightarrow>
         bindE (load_chain L env path) (\<lambda>chain.
         bindE (load_revocations L env args) (\<lambda>revocations.
         bindE (verify_chain L (chain_args_for env args revocations) chain) (\<lambda>revocation.
         bindE (cross_check_chain L records chain) (\<lambda>_.
         Inr (records, Some revocation)))))))"

definition dag_document :: "verify_dag_args \<Rightarrow> delegation_record list \<Rightarrow> revocation_status option \<Rightarrow> jdict" where
  "dag_document args records revocation =
     (let leaf = last records;
          out = [(str ''verified'', JBool False), (str ''verification'', JStr (str ''structural_only'')),
                 (str ''structural_verified'', JBool True), (str ''code'', JStr (str ''UNAUTHENTICATED_LINEAGE'')),
                 (str ''records'', JInt (int (length records))), (str ''leaf_scope'', str_list (rec_scope leaf)),
                 (str ''leaf_caller_attestation'', JStr (rec_caller_attestation leaf))];
          out = (if rec_denied leaf
                 then dict_update out
                   [(str ''outcome'', JStr (str ''denied'')), (str ''requested_capability'', opt_str (rec_requested leaf)),
                    (str ''effective_scope'', str_list (case rec_effective leaf of None \<Rightarrow> {||} | Some s \<Rightarrow> s)),
                    (str ''denial_reason'', opt_str (rec_reason leaf))]
                 else out);
          out = (if given_chain args \<noteq> None then dict_set (str ''cross_checked'') (JBool True) out else out)
      in case revocation of None \<Rightarrow> out | Some status \<Rightarrow> dict_update out (revocation_fields status))"

definition cmd_verify_dag :: "lib \<Rightarrow> cli_env \<Rightarrow> verify_dag_args \<Rightarrow> outcome" where
  "cmd_verify_dag L env args =
     report_refusal env (check_dag L env args) (\<lambda>(records, revocation).
       ([Json (dag_document args records revocation)], Inr (if vd_structural_only args then 0 else 1)))"

text \<open>\<open>json.loads(Path(p).read_text(encoding="utf-8"))\<close> with nothing caught here.\<close>

definition read_json_raw :: "lib \<Rightarrow> file_read \<Rightarrow> json res" where
  "read_json_raw L file =
     (case file of
        Contents raw \<Rightarrow>
          bindE (expect (utf8_decode raw) (PyExn ValueError)) (\<lambda>text.
          expect (json_loads L default_hook (universal_newlines text)) (PyExn ValueError))
      | _ \<Rightarrow> Inl (PyExn OSError))"

definition lineage_records :: "json \<Rightarrow> json list res" where
  "lineage_records data =
     (let records = (case data of JObj d \<Rightarrow> dict_get_none d (str ''records'') | _ \<Rightarrow> data) in
      bindE (expect (as_list records) (link_broken (str ''signed DAG must be a list of record objects''))) (\<lambda>vs.
      bindE (require (list_all (\<lambda>v. as_obj v \<noteq> None) vs) (link_broken (str ''signed DAG must be a list of record objects''))) (\<lambda>_.
      Inr vs)))"

text \<open>\<open>Ed25519PublicKey.from_public_bytes(bytes.fromhex(c.subject))\<close>.\<close>

definition subject_key :: "delegation_credential \<Rightarrow> trusted_key res" where
  "subject_key c =
     bindE (expect (fromhex (cred_subject c)) (PyExn ValueError)) (\<lambda>raw.
     bindE (require (length raw = 32) (PyExn ValueError)) (\<lambda>_. Inr (RawKey raw)))"

definition check_lineage :: "lib \<Rightarrow> trace_lib \<Rightarrow> cli_env \<Rightarrow> verify_lineage_args \<Rightarrow> (trace_dag_result \<times> revocation_status) res" where
  "check_lineage L T env args =
     bindE (load_chain L env (vl_chain args)) (\<lambda>chain.
     bindE (load_revocations L env args) (\<lambda>revocations.
     bindE (verify_chain L (chain_args_for env args revocations) chain) (\<lambda>revocation.
     bindE (read_json_raw L (open_file env (vl_dag args))) (\<lambda>data.
     bindE (lineage_records data) (\<lambda>records.
     bindE (traverseE subject_key chain) (\<lambda>keys.
     bindE (verify_trace_dag T (cl_trace_clock env) keys (vl_max_age_seconds args) records) (\<lambda>result.
     bindE (cross_check_trace_dag records chain) (\<lambda>_.
     Inr (result, revocation)))))))))"

definition is_malformed_lineage :: "exn \<Rightarrow> bool" where
  "is_malformed_lineage e \<longleftrightarrow> e \<in> {PyExn OSError, PyExn TypeError, PyExn KeyError, PyExn AttributeError} \<or> is_value_error e"

definition lineage_document :: "nat \<Rightarrow> revocation_status \<Rightarrow> jdict" where
  "lineage_document hops revocation =
     [(str ''verified'', JBool True), (str ''verification'', JStr (str ''authenticated_lineage'')),
      (str ''records'', JInt (int hops)), (str ''cross_checked'', JBool True)] @ revocation_fields revocation"

definition cmd_verify_lineage :: "lib \<Rightarrow> trace_lib \<Rightarrow> cli_env \<Rightarrow> verify_lineage_args \<Rightarrow> outcome" where
  "cmd_verify_lineage L T env args =
     (case check_lineage L T env args of
        Inr (result, revocation) \<Rightarrow>
          ([Json (lineage_document (td_hops result) revocation)], Inr 0)
      | Inl e \<Rightarrow>
          (case exn_class e of
             Some c \<Rightarrow> ([Json (refused (err_code c) (exn_str env e))], Inr 1)
           | None \<Rightarrow>
               if is_malformed_lineage e then ([Json (refused ''MALFORMED_LINEAGE'' (exn_str env e))], Inr 1)
               else ([], Inl e)))"

text \<open>
  \<open>start\<close> up to the end of serving. \<open>bind_server\<close> is \<open>serve(node, host=host, port=port)\<close>, the socket of
  \<open>http.server\<close>; \<open>interrupted\<close> says whether \<open>serve_forever\<close> ended by a keyboard interrupt.
\<close>

definition start_notes :: "lib \<Rightarrow> ca2a_config \<Rightarrow> peer_node \<Rightarrow> line list" where
  "start_notes L cfg node =
     (if cc_enforcement_mode cfg \<noteq> str ''enforcing''
      then [Stderr (str ''note: enforcement_mode='' @ py_repr L (JStr (cc_enforcement_mode cfg)) @
              str '' is accepted in config, but the peer path always fails closed on cA2A denials'')] else []) @
     (if cc_provider cfg = str ''software-only''
      then [Stderr (str ''note: software-only provider, callers appraise this channel key as assurance=\"none\" and the seal carries no hardware guarantee'')]
      else []) @
     (if pn_caller_verifier node = None
      then [Stderr (str ''note: require_caller_attestation='' @ pn_requirement node @
              str '' with no caller_verifier; software offers appraise, hardware offers are refused as unappraisable'')] else [])"

definition prepare_start ::
  "lib \<Rightarrow> ('c, 'k) host \<Rightarrow> startup \<Rightarrow> cli_env \<Rightarrow> ustr \<Rightarrow> bytes \<Rightarrow> bytes \<Rightarrow> (ca2a_config \<times> peer_node \<times> ustr \<times> int) res" where
  "prepare_start L h st env config private secret =
     bindE (config_load L (cl_yaml env) (path_text config) (open_file env config)) (\<lambda>cfg.
     bindE (build_peer_node L h st cfg private secret) (\<lambda>(node, manifest).
     bindE (listen_host_port L cfg) (\<lambda>(host, port).
     Inr (cfg, node, host, port))))"

definition cmd_start ::
  "lib \<Rightarrow> ('c, 'k) host \<Rightarrow> startup \<Rightarrow> cli_env \<Rightarrow> (ustr \<Rightarrow> int \<Rightarrow> unit res) \<Rightarrow> bool \<Rightarrow> ustr \<Rightarrow> bytes \<Rightarrow> bytes \<Rightarrow> outcome" where
  "cmd_start L h st env bind_server interrupted config private secret =
     (case prepare_start L h st env config private secret of
        Inl e \<Rightarrow>
          if is_class ConfigError e
          then ([Stderr (str ''invalid config: '' @ exn_str env e @
                   (case cl_detail env e of Some (c # cs) \<Rightarrow> str '' ('' @ (c # cs) @ str '')'' | _ \<Rightarrow> []))], Inr 1)
          else ([], Inl e)
      | Inr (cfg, node, host, port) \<Rightarrow>
          (case bind_server host port of
             Inl e \<Rightarrow>
               if e = PyExn OSError
               then (start_notes L cfg node @
                       [Stderr (str ''cannot bind '' @ host @ str '':'' @ int_str port @ str '': '' @ exn_str env e)], Inr 1)
               else (start_notes L cfg node, Inl e)
           | Inr _ \<Rightarrow>
               (start_notes L cfg node @
                  [Stdout (str ''ca2a listening on '' @ host @ str '':'' @ int_str port @ str '' (provider='' @
                     (case select_provider L h cfg of Inr p \<Rightarrow> kind_name p | Inl _ \<Rightarrow> []) @
                     str '', require_caller_attestation='' @ pn_requirement node @ str '')'')] @
                  (if interrupted then [Stderr (str ''ca2a stopped'')] else []), Inr 0)))"

section \<open>Main\<close>

text \<open>The two combinations of options that are refused before a command runs.\<close>

definition usage_error :: "command \<Rightarrow> ustr option" where
  "usage_error cmd =
     (case cmd of
        Verify_dag args \<Rightarrow>
          if given_chain args \<noteq> None \<and> op_trusted_root_issuer args = []
          then Some (str ''verify-dag with --chain requires --trusted-root-issuer'')
          else if given_chain args = None \<and> (op_revocations args \<noteq> None \<or> op_max_revocation_staleness args \<noteq> None)
          then Some (str ''verify-dag revocation options require --chain'')
          else None
      | _ \<Rightarrow> None)"

definition cli_main ::
  "lib \<Rightarrow> trace_lib \<Rightarrow> ('c, 'k) host \<Rightarrow> startup \<Rightarrow> cli_env \<Rightarrow> (ustr \<Rightarrow> int \<Rightarrow> unit res) \<Rightarrow> bool \<Rightarrow> bytes \<Rightarrow> bytes \<Rightarrow> command \<Rightarrow> outcome" where
  "cli_main L T h st env bind_server interrupted private secret cmd =
     (case usage_error cmd of
        Some m \<Rightarrow> ([Parser_error m], Inr 2)
      | None \<Rightarrow>
          (case cmd of
             Validate_config config \<Rightarrow> cmd_validate_config L env config
           | Verify_chain args \<Rightarrow> cmd_verify_chain L env args
           | Verify_dag args \<Rightarrow> cmd_verify_dag L env args
           | Verify_lineage args \<Rightarrow> cmd_verify_lineage L T env args
           | Start config \<Rightarrow> cmd_start L h st env bind_server interrupted config private secret))"

section \<open>What a successful exit means\<close>

lemma lower_hex_digit: "is_lower_hex c \<Longrightarrow> \<exists>n < 16. c = hex_digit n"
  by (rule exI [of _ "if c \<le> 57 then c - 48 else c - 87"]) (auto simp: is_lower_hex_def hex_digit_def)

lemma lower_hex_is_hex: "lower_hex_of_len (2 * n) s \<Longrightarrow> \<exists>bs. s = hex bs \<and> length bs = n"
proof (induction n arbitrary: s)
  case (Suc n)
  then obtain c d r where s: "s = c # d # r" "is_lower_hex c" "is_lower_hex d" "lower_hex_of_len (2 * n) r"
    by (auto simp: lower_hex_of_len_def length_Suc_conv)
  obtain h l where d: "h < 16" "c = hex_digit h" "l < 16" "d = hex_digit l" using lower_hex_digit s(2,3) by metis
  obtain bs where "r = hex bs" "length bs = n" using Suc.IH s(4) by blast
  moreover have "unat (of_nat m :: byte) = m" if "m < 256" for m using that by (simp add: unat_of_nat)
  from this [of "16 * h + l"] have "hex_byte (of_nat (16 * h + l)) = [c, d]" using d by (simp add: hex_byte_def del: of_nat_add of_nat_mult)
  ultimately show ?case using s(1) by (intro exI [of _ "of_nat (16 * h + l) # bs"]) (simp add: hex_def)
qed (simp add: lower_hex_of_len_def hex_def)

text \<open>The raw keys of the subjects of a chain.\<close>

definition subject_keys :: "delegation_credential list \<Rightarrow> bytes set" where
  "subject_keys chain = {raw. hex raw \<in> cred_subject ` set chain}"

lemma subject_keys_trusted:
  assumes "list_all cred_wire_ok chain"
  shows "\<exists>keys. traverseE subject_key chain = Inr keys \<and> trusted_raw_keys keys = Inr (subject_keys chain)"
proof -
  have "\<exists>raw. subject_key c = Inr (RawKey raw) \<and> hex raw = cred_subject c" if "c \<in> set chain" for c
  proof -
    from assms that have "lower_hex_of_len (2 * 32) (cred_subject c)" by (auto simp: list_all_iff cred_wire_ok_def)
    then obtain raw where "cred_subject c = hex raw" "length raw = 32" using lower_hex_is_hex by blast
    then show ?thesis by (simp add: subject_key_def)
  qed
  then obtain raw where raw: "\<And>c. c \<in> set chain \<Longrightarrow> subject_key c = Inr (RawKey (raw c)) \<and> hex (raw c) = cred_subject c" by metis
  have "trusted_raw_keys (map (\<lambda>c. RawKey (raw c)) chain) = Inr (raw ` set chain)"
    unfolding trusted_raw_keys_def by (subst traverseE_all [of _ _ "\<lambda>k. case k of RawKey r \<Rightarrow> r"]) (auto simp: image_image)
  moreover have "raw ` set chain = subject_keys chain"
  proof -
    have "cred_subject ` set chain = (\<lambda>c. hex (raw c)) ` set chain" by (rule image_cong) (use raw in simp_all)
    then show ?thesis by (auto simp: subject_keys_def)
  qed
  ultimately show ?thesis
    using traverseE_all [of chain subject_key "\<lambda>c. RawKey (raw c)"] raw by auto
qed

lemma load_chain_wire_ok: "load_chain L env path = Inr chain \<Longrightarrow> list_all cred_wire_ok chain"
  by (auto simp: load_chain_def guard_simps intro: parse_chain_wire_ok)

text \<open>
  The declarative reading of an authenticated lineage: the chain of the one file is valid and unrevoked,
  and the records of the other form a TRACE chain signed by its subjects, hop by hop.
\<close>

definition lineage_valid ::
  "lib \<Rightarrow> trace_lib \<Rightarrow> cli_env \<Rightarrow> verify_lineage_args \<Rightarrow> delegation_credential list \<Rightarrow> jdict list \<Rightarrow> revocation_status \<Rightarrow> bool" where
  "lineage_valid L T env args chain ds status \<longleftrightarrow>
     (\<exists>revs data. let a = chain_args_for env args revs in
        load_chain L env (vl_chain args) = Inr chain \<and> load_revocations L env args = Inr revs \<and>
        args_ok a \<and> chain_valid L (op_max_depth args) (set (op_trusted_root_issuer args)) (eval_time a) chain \<and> revocation_ok a chain status \<and>
        read_json_raw L (open_file env (vl_dag args)) = Inr data \<and> lineage_records data = Inr (map JObj ds)) \<and>
     trace_dag_valid T (cl_trace_clock env) (subject_keys chain) (vl_max_age_seconds args) ds \<and>
     length ds = length chain \<and> (\<forall>i < length ds. belongs_to i (ds ! i) (chain ! i))"

lemma check_lineage_iff:
  "check_lineage L T env args = Inr (result, status) \<longleftrightarrow>
     (\<exists>chain ds. lineage_valid L T env args chain ds status \<and> result = dag_summary ds)"
proof -
  have step: "(\<exists>keys. traverseE subject_key chain = Inr keys \<and>
        verify_trace_dag T clock keys age vs = Inr result \<and> cross_check_trace_dag vs chain = Inr ()) \<longleftrightarrow>
      (\<exists>ds. vs = map JObj ds \<and> trace_dag_valid T clock (subject_keys chain) age ds \<and> result = dag_summary ds \<and>
         length ds = length chain \<and> (\<forall>i < length ds. belongs_to i (ds ! i) (chain ! i)))"
    if "load_chain L env p = Inr chain" for chain clock age vs p
    using subject_keys_trusted [OF load_chain_wire_ok [OF that]]
    by (auto simp: verify_trace_dag_iff cross_check_trace_dag_iff)
  have "check_lineage L T env args = Inr (result, status) \<longleftrightarrow>
     (\<exists>chain revs data vs. load_chain L env (vl_chain args) = Inr chain \<and> load_revocations L env args = Inr revs \<and>
        verify_chain L (chain_args_for env args revs) chain = Inr status \<and>
        read_json_raw L (open_file env (vl_dag args)) = Inr data \<and> lineage_records data = Inr vs \<and>
        (\<exists>keys. traverseE subject_key chain = Inr keys \<and>
           verify_trace_dag T (cl_trace_clock env) keys (vl_max_age_seconds args) vs = Inr result \<and>
           cross_check_trace_dag vs chain = Inr ()))"
    by (auto simp: check_lineage_def guard_simps)
  also have "\<dots> \<longleftrightarrow> (\<exists>chain ds. lineage_valid L T env args chain ds status \<and> result = dag_summary ds)"
    by (simp add: step lineage_valid_def verify_chain_Inr_iff Let_def chain_args_for_def cong: conj_cong) blast
  finally show ?thesis .
qed

text \<open>The declarative reading of the structural check, with the chain when one is given.\<close>

definition dag_structure ::
  "lib \<Rightarrow> cli_env \<Rightarrow> verify_dag_args \<Rightarrow> delegation_record list \<Rightarrow> revocation_status option \<Rightarrow> bool" where
  "dag_structure L env args records status \<longleftrightarrow>
     load_records L env (vd_dag args) = Inr records \<and> dag_valid records \<and>
     (case given_chain args of
        None \<Rightarrow> status = None
      | Some path \<Rightarrow> \<exists>chain revs st. let a = chain_args_for env args revs in
          load_chain L env path = Inr chain \<and> load_revocations L env args = Inr revs \<and> status = Some st \<and>
          args_ok a \<and> chain_valid L (op_max_depth args) (set (op_trusted_root_issuer args)) (eval_time a) chain \<and> revocation_ok a chain st \<and>
          list_all2 (\<lambda>r c. rec_credential_id r = cred_id c \<and> rec_subject r = cred_subject c) (filter (\<lambda>r. \<not> rec_denied r) records) chain \<and>
          (\<forall>r \<in> set records. rec_denied r \<longrightarrow>
             (\<exists>c. cred_by_id chain (rec_credential_id r) = Some c \<and> rec_subject r = cred_subject c)))"

lemma check_dag_iff: "check_dag L env args = Inr (records, status) \<longleftrightarrow> dag_structure L env args records status"
proof (cases "given_chain args")
  case (Some path)
  then have "check_dag L env args = Inr (records, status) \<longleftrightarrow>
    load_records L env (vd_dag args) = Inr records \<and> dag_valid records \<and>
    (\<exists>chain revs st. load_chain L env path = Inr chain \<and> load_revocations L env args = Inr revs \<and> status = Some st \<and>
       verify_chain L (chain_args_for env args revs) chain = Inr st \<and> cross_check_chain L records chain = Inr ())"
    by (auto simp: check_dag_def guard_simps verify_dag_Inr_iff)
  then show ?thesis unfolding dag_structure_def Some
    by (simp add: verify_chain_Inr_iff cross_check_iff Let_def chain_args_for_def)
qed (auto simp: check_dag_def guard_simps verify_dag_Inr_iff dag_structure_def)

lemma revocation_fields_get [simp]:
  "dict_get (revocation_fields status) (str ''revocation'') = Some (JStr (rs_state status))"
  "dict_get (revocation_fields status) (str ''revocation_as_of'') =
     (if rs_checked status then Some (case rs_as_of status of None \<Rightarrow> JNull | Some t \<Rightarrow> JInt t) else None)"
  "dict_get (revocation_fields status) (str ''verified'') = None"
  "dict_wf (revocation_fields status)"
  by (simp_all add: revocation_fields_def)

lemma dag_document_unverified: "dict_get (dag_document args records status) (str ''verified'') = Some (JBool False)"
  by (simp add: dag_document_def Let_def dict_get_update_wf split: option.split)

lemma report_refusal_exit:
  "report_refusal env m success = (out, Inr 0) \<longleftrightarrow> (\<exists>x. m = Inr x \<and> success x = (out, Inr 0))"
  by (cases m) (auto simp: report_refusal_def split: option.split)

section \<open>Revocation options\<close>

definition options_of :: "command \<Rightarrow> chain_options option" where
  "options_of cmd =
     (case cmd of
        Verify_chain args \<Rightarrow> Some (chain_options.truncate args)
      | Verify_dag args \<Rightarrow> Some (chain_options.truncate args)
      | Verify_lineage args \<Rightarrow> Some (chain_options.truncate args)
      | _ \<Rightarrow> None)"

definition chain_path :: "command \<Rightarrow> ustr option" where
  "chain_path cmd =
     (case cmd of
        Verify_chain args \<Rightarrow> Some (vc_chain args)
      | Verify_dag args \<Rightarrow> given_chain args
      | Verify_lineage args \<Rightarrow> Some (vl_chain args)
      | _ \<Rightarrow> None)"

definition asks_revocation :: "'o chain_options_scheme \<Rightarrow> bool" where
  "asks_revocation opts \<longleftrightarrow> op_revocations opts \<noteq> None \<or> op_max_revocation_staleness opts \<noteq> None"

text \<open>The snapshot that was named, fresh enough, has nothing in force against the chain.\<close>

definition revocation_checked :: "lib \<Rightarrow> cli_env \<Rightarrow> 'o chain_options_scheme \<Rightarrow> delegation_credential list \<Rightarrow> revocation_snapshot \<Rightarrow> bool" where
  "revocation_checked L env opts chain snap \<longleftrightarrow>
     (\<exists>p. op_revocations opts = Some p \<and>
        load_revocation_snapshot L (cl_is_decode_error env) (path_text p) (open_file env p) = Inr snap) \<and>
     chain_unrevoked snap (op_at_time opts) chain \<and>
     (\<forall>m \<in> set_option (op_max_revocation_staleness opts).
        (case op_at_time opts of None \<Rightarrow> cl_clock env | Some t \<Rightarrow> t) - snap_as_of snap \<le> m)"

lemma options_revocation_checked:
  assumes "load_revocations L env args = Inr revs" and "revocation_ok (chain_args_for env args revs) chain status"
    and "asks_revocation args"
  shows "\<exists>snap. revocation_checked L env args chain snap \<and> status = \<lparr>rs_checked = True, rs_as_of = Some (snap_as_of snap)\<rparr>"
  using assms
  by (auto simp: load_revocations_def revocation_ok_def chain_args_for_def revocation_checked_def asks_revocation_def eval_time_def guard_simps
      split: option.splits)

lemma truncated_options [simp]:
  "asks_revocation (chain_options.truncate args) = asks_revocation args"
  "revocation_checked L env (chain_options.truncate args) chain snap = revocation_checked L env args chain snap"
  by (simp_all add: asks_revocation_def revocation_checked_def chain_options.defs)

text \<open>What each command has found when it exits with 0.\<close>

lemma verify_chain_exit:
  assumes "cmd_verify_chain L env args = (out, Inr 0)"
  obtains chain revs status doc where "load_chain L env (vc_chain args) = Inr chain" "load_revocations L env args = Inr revs"
    "verify_chain L (chain_args_for env args revs) chain = Inr status" "out = [Json (dict_update doc (revocation_fields status))]"
proof -
  obtain revs r where "load_revocations L env args = Inr revs"
    and v: "verify_chain_file L (cl_is_decode_error env) (chain_args_for env args revs) (path_text (vc_chain args)) (open_file env (vc_chain args)) = Inr r"
    and out: "out = [Json (dict_update
             [(str ''verified'', JBool True), (str ''hops'', JInt (int (cr_hops r))), (str ''leaf_scope'', JList (map JStr (cr_leaf_scope r)))]
             (revocation_fields \<lparr>rs_checked = cr_revocation_checked r, rs_as_of = cr_revocation_as_of r\<rparr>))]"
    using assms unfolding cmd_verify_chain_def report_refusal_exit by (auto simp: guard_simps)
  moreover obtain chain status where "load_chain L env (vc_chain args) = Inr chain"
    "verify_chain L (chain_args_for env args revs) chain = Inr status" and r: "r = chain_summary chain status"
    using v by (auto simp: verify_chain_file_def load_chain_def guard_simps verify_delegation_chain_iff)
  moreover have "\<lparr>rs_checked = cr_revocation_checked r, rs_as_of = cr_revocation_as_of r\<rparr> = status"
    by (simp add: r chain_summary_def)
  ultimately show ?thesis using that by metis
qed

lemma checked_status_printed:
  assumes "status = \<lparr>rs_checked = True, rs_as_of = Some t\<rparr>"
  shows "dict_get (dict_update doc (revocation_fields status)) (str ''revocation'') = Some (JStr (str ''not_revoked''))"
    "dict_get (dict_update doc (revocation_fields status)) (str ''revocation_as_of'') = Some (JInt t)"
  using assms by (simp_all add: dict_get_update_wf rs_state_def)

definition prints_checked :: "line list \<Rightarrow> revocation_snapshot \<Rightarrow> bool" where
  "prints_checked out snap \<longleftrightarrow> (\<exists>doc. out = [Json doc] \<and> dict_get doc (str ''revocation'') = Some (JStr (str ''not_revoked'')) \<and>
     dict_get doc (str ''revocation_as_of'') = Some (JInt (snap_as_of snap)))"

lemma lineage_document_prints:
  "prints_checked [Json (lineage_document n \<lparr>rs_checked = True, rs_as_of = Some (snap_as_of snap)\<rparr>)] snap"
  by (simp add: prints_checked_def lineage_document_def rs_state_def)

lemma dag_document_prints:
  "prints_checked [Json (dag_document args records (Some \<lparr>rs_checked = True, rs_as_of = Some (snap_as_of snap)\<rparr>))] snap"
  by (simp add: prints_checked_def dag_document_def Let_def dict_get_update_wf rs_state_def)

lemma command_revocation:
  assumes "cli_main L T h st env bs intr sk secret cmd = (out, Inr 0)" and "options_of cmd = Some opts" and "asks_revocation opts"
  shows "\<exists>path chain snap. chain_path cmd = Some path \<and> load_chain L env path = Inr chain \<and>
    revocation_checked L env opts chain snap \<and> prints_checked out snap"
proof (cases cmd)
  case (Verify_chain args)
  with assms obtain chain revs status doc where c: "load_chain L env (vc_chain args) = Inr chain" "load_revocations L env args = Inr revs"
    "verify_chain L (chain_args_for env args revs) chain = Inr status" "out = [Json (dict_update doc (revocation_fields status))]"
    by (auto simp: cli_main_def usage_error_def elim: verify_chain_exit)
  moreover have asks: "asks_revocation args" using assms(2,3) Verify_chain by (auto simp: options_of_def)
  ultimately obtain snap where "revocation_checked L env args chain snap" "status = \<lparr>rs_checked = True, rs_as_of = Some (snap_as_of snap)\<rparr>"
    using options_revocation_checked [of L env args revs chain status] by (auto simp: verify_chain_Inr_iff)
  with c assms(2) Verify_chain checked_status_printed [OF this(2)] show ?thesis by (auto simp: options_of_def chain_path_def prints_checked_def)
next
  case (Verify_dag args)
  have asks: "asks_revocation args" using assms(2,3) Verify_dag by (auto simp: options_of_def)
  with assms(1) Verify_dag obtain path where path: "given_chain args = Some path" and "cmd_verify_dag L env args = (out, Inr 0)"
    by (auto simp: cli_main_def usage_error_def asks_revocation_def split: if_splits)
  then obtain records status where "dag_structure L env args records status" "out = [Json (dag_document args records status)]"
    unfolding cmd_verify_dag_def report_refusal_exit by (auto simp: check_dag_iff)
  with path asks obtain chain snap where "load_chain L env path = Inr chain" "revocation_checked L env args chain snap"
    "out = [Json (dag_document args records (Some \<lparr>rs_checked = True, rs_as_of = Some (snap_as_of snap)\<rparr>))]"
    using options_revocation_checked [of L env args] by (auto simp: dag_structure_def Let_def) blast
  with assms(2) Verify_dag path dag_document_prints show ?thesis by (auto simp: options_of_def chain_path_def)
next
  case (Verify_lineage args)
  have asks: "asks_revocation args" using assms(2,3) Verify_lineage by (auto simp: options_of_def)
  from assms(1) Verify_lineage obtain result status where "check_lineage L T env args = Inr (result, status)"
    and out: "out = [Json (lineage_document (td_hops result) status)]"
    by (auto simp: cli_main_def usage_error_def cmd_verify_lineage_def split: sum.splits option.splits if_splits)
  then obtain chain ds where "lineage_valid L T env args chain ds status" using check_lineage_iff by blast
  then obtain revs where c: "load_chain L env (vl_chain args) = Inr chain" "load_revocations L env args = Inr revs"
    "revocation_ok (chain_args_for env args revs) chain status" by (auto simp: lineage_valid_def Let_def)
  from options_revocation_checked [OF c(2,3) asks] c(1) out assms(2) Verify_lineage lineage_document_prints
  show ?thesis by (auto simp: options_of_def chain_path_def)
qed (use assms(2) in \<open>simp_all add: options_of_def\<close>)

section \<open>A sample run\<close>

text \<open>A directory with the canonical file of the sample chain and a snapshot without statements.\<close>

definition sample_snapshot_document :: json where
  "sample_snapshot_document = JObj [(str ''as_of'', JInt 90), (str ''revocations'', JList [])]"

definition sample_cli_env :: "bytes \<Rightarrow> bytes \<Rightarrow> cli_env" where
  "sample_cli_env chain snapshot =
     \<lparr>cl_fs = (\<lambda>p. if p = str ''c'' then Contents chain else if p = str ''r'' then Contents snapshot else Absent),
      cl_clock = 100, cl_trace_clock = (\<lambda>_. 100), cl_is_decode_error = (\<lambda>_. True), cl_yaml = (\<lambda>_. None),
      cl_exn_text = (\<lambda>_. []), cl_detail = (\<lambda>_. None)\<rparr>"

definition sample_verify_chain_args :: verify_chain_args where
  "sample_verify_chain_args = \<lparr>op_max_depth = 8, op_trusted_root_issuer = [sample_key 1], op_at_time = None,
     op_revocations = Some (str ''r''), op_max_revocation_staleness = Some 60, vc_chain = str ''c''\<rparr>"

lemma path_text_letter [simp]: "path_text (str ''c'') = str ''c''" "path_text (str ''r'') = str ''r''"
  by (simp_all add: path_text_def to_path_def path_str_def str_def)

lemma sample_chain_run:
  "\<exists>c r out. cmd_verify_chain sample_lib (sample_cli_env c r) sample_verify_chain_args = (out, Inr 0)"
proof -
  obtain c where c: "canonicalize (chain_document [sample_root, sample_leaf]) = Inr c" using sample_document_ok by blast
  have "json_ok sample_snapshot_document" by (simp add: sample_snapshot_document_def MAX_SAFE_INTEGER_def)
  then obtain r where r: "canonicalize sample_snapshot_document = Inr r" using canonicalize_ok by blast
  let ?env = "sample_cli_env c r" and ?args = sample_verify_chain_args
  let ?snap = "\<lparr>snap_as_of = 90, snap_statements = [], snap_by_digest = []\<rparr>"
  have "json_wf sample_snapshot_document" by (simp add: sample_snapshot_document_def)
  from read_json_canonical [OF this r]
  have "load_revocation_snapshot sample_lib d (str ''r'') (Contents r) = Inr ?snap" for d
    by (simp add: load_revocation_snapshot_def)
       (simp add: sample_snapshot_document_def snap_from_dict_def SNAPSHOT_FIELDS_def mk_snapshot_def dict_item_def insert_commute)
  then have revs: "load_revocations sample_lib ?env ?args = Inr (Some ?snap)"
    by (simp add: load_revocations_def sample_verify_chain_args_def open_file_def sample_cli_env_def)
  have "chain_unrevoked ?snap None [sample_root, sample_leaf]"
    by (simp add: chain_unrevoked_def effective_revocation_def)
  then have "verify_chain sample_lib (chain_args_for ?env ?args (Some ?snap)) [sample_root, sample_leaf] = Inr \<lparr>rs_checked = True, rs_as_of = Some 90\<rparr>"
    using sample_chain_valid
    by (simp add: verify_chain_Inr_iff chain_args_for_def sample_verify_chain_args_def sample_cli_env_def args_ok_def eval_time_def revocation_ok_def)
  then have "is_ok (verify_chain_file sample_lib d (chain_args_for ?env ?args (Some ?snap)) (str ''c'') (Contents c))" for d
    using read_json_canonical [OF chain_document_wf c]
    by (simp add: verify_chain_file_def parse_chain_jnorm sample_wire_ok verify_delegation_chain_def)
  then obtain res where "verify_chain_file sample_lib (\<lambda>_. True) (chain_args_for ?env ?args (Some ?snap)) (str ''c'') (Contents c) = Inr res"
    by (auto simp: is_ok_iff)
  then have "\<exists>out. cmd_verify_chain sample_lib ?env ?args = (out, Inr 0)"
    using revs by (simp add: cmd_verify_chain_def report_refusal_def)
      (simp add: sample_cli_env_def sample_verify_chain_args_def open_file_def)
  then show ?thesis by blast
qed

section \<open>Properties\<close>

text \<open>
  C14: \<open>verify-lineage\<close> exits with 0 exactly when the lineage is authentic: the chain file holds a chain
  that is valid under the given roots, depth and time and unrevoked under the given snapshot, the DAG
  file holds TRACE records that form an authenticated chain under the keys of that chain's subjects
  and no others, and record and credential correspond hop by hop; it then prints the number of hops and the
  revocation status, and nothing else.
\<close>

theorem verify_lineage_exit:
  "cmd_verify_lineage L T env args = (out, Inr 0) \<longleftrightarrow>
     (\<exists>chain ds status. lineage_valid L T env args chain ds status \<and> out = [Json (lineage_document (length chain) status)])"
proof (cases "check_lineage L T env args")
  case (Inl e)
  then have "\<not> lineage_valid L T env args chain ds status" for chain ds status
    using check_lineage_iff [of L T env args "dag_summary ds" status] by auto
  with Inl show ?thesis by (auto simp: cmd_verify_lineage_def split: option.splits)
next
  case (Inr r)
  obtain result status where r: "r = (result, status)" by force
  obtain chain ds where v: "lineage_valid L T env args chain ds status" and res: "result = dag_summary ds"
    using Inr r check_lineage_iff by blast
  have cmd: "cmd_verify_lineage L T env args = ([Json (lineage_document (length chain) status)], Inr 0)"
    using v by (simp add: cmd_verify_lineage_def Inr r res lineage_valid_def dag_summary_def)
  have "lineage_document (length chain') status' = lineage_document (length chain) status" if "lineage_valid L T env args chain' ds' status'" for chain' ds' status'
  proof -
    have "check_lineage L T env args = Inr (dag_summary ds', status')" using that check_lineage_iff by blast
    then have "dag_summary ds' = dag_summary ds" and "status' = status" using Inr r res by simp_all
    then show ?thesis using v that by (auto simp: lineage_valid_def dag_summary_def)
  qed
  with cmd v show ?thesis by (metis prod.inject)
qed

text \<open>
  \<open>verify-dag\<close> never vouches for a lineage. Every document it prints says \<open>verified: false\<close>, whatever
  the input; it exits with 0 exactly when that was asked for as structural only, the records
  are well linked, and, with a chain, the chain is valid and unrevoked and matches the records.
\<close>

theorem verify_dag_never_vouches:
  "list_all (\<lambda>l. \<exists>doc. l = Json doc \<and> dict_get doc (str ''verified'') = Some (JBool False)) (fst (cmd_verify_dag L env args)) \<and>
   (cmd_verify_dag L env args = (out, Inr 0) \<longleftrightarrow>
      vd_structural_only args \<and>
      (\<exists>records status. dag_structure L env args records status \<and> out = [Json (dag_document args records status)]))"
proof
  show "list_all (\<lambda>l. \<exists>doc. l = Json doc \<and> dict_get doc (str ''verified'') = Some (JBool False)) (fst (cmd_verify_dag L env args))"
    by (simp add: cmd_verify_dag_def report_refusal_def refused_def dag_document_unverified split: sum.split prod.split option.split)
  show "cmd_verify_dag L env args = (out, Inr 0) \<longleftrightarrow> vd_structural_only args \<and>
      (\<exists>records status. dag_structure L env args records status \<and> out = [Json (dag_document args records status)])"
    unfolding cmd_verify_dag_def report_refusal_exit by (auto simp: check_dag_iff)
qed

text \<open>
  C27: A revocation option is never ignored. When any of the verification commands was given a snapshot
  or a bound on its age and exits with 0, it was given a snapshot and a chain, the snapshot
  loaded, is within the bound and holds nothing in force against any hop of that chain, and the printed
  document says so with the snapshot's time.
\<close>

theorem revocation_options_honoured:
  assumes "cli_main L T h st env bs intr sk secret cmd = (out, Inr 0)" and "options_of cmd = Some opts" and "asks_revocation opts"
  shows "\<exists>path chain snap. chain_path cmd = Some path \<and> load_chain L env path = Inr chain \<and>
    revocation_checked L env opts chain snap \<and> prints_checked out snap"
  by (rule command_revocation [OF assms])

theorem revocation_options_honoured_witness:
  "\<exists>c r out snap. cmd_verify_chain sample_lib (sample_cli_env c r) sample_verify_chain_args = (out, Inr 0) \<and> prints_checked out snap"
proof -
  obtain c r out where run: "cmd_verify_chain sample_lib (sample_cli_env c r) sample_verify_chain_args = (out, Inr 0)"
    using sample_chain_run by blast
  have asks: "asks_revocation sample_verify_chain_args" by (simp add: asks_revocation_def sample_verify_chain_args_def)
  from run have "cli_main sample_lib sample_trace (sample_host []) (sample_startup []) (sample_cli_env c r) (\<lambda>_ _. Inr ()) False [] []
      (Verify_chain sample_verify_chain_args) = (out, Inr 0)"
    by (simp add: cli_main_def usage_error_def)
  from revocation_options_honoured [OF this, of "chain_options.truncate sample_verify_chain_args"] run asks show ?thesis
    by (auto simp: options_of_def)
qed

end
