(* ===== verification/Sdk_Bridge.thy ===== *)
theory Sdk_Bridge
  imports Client Evidence "HOL-Library.AList"
begin

text \<open>
  The bridge to the official A2A SDK, \<open>ca2a_runtime/transport/a2a_sdk.py\<close>: reading and writing the
  profile's metadata on an SDK message, declaring the profile on an Agent Card and inspecting a
  peer's card. A protobuf \<open>Struct\<close> is of an arbitrary type \<open>'s\<close>; \<open>protobuf\<close> holds what the module uses of
  the protobuf and \<open>a2a\<close> packages. A Struct has no integers and no order of keys: the relation \<open>carries\<close>
  says what may come out of it. A message is mutated in place, so writing returns the message as it
  is left behind, also after a failure. Fields the module never touches are the extension
  of the record.
\<close>

section \<open>The packages\<close>

record 's agent_extension =
  ax_uri :: ustr
  ax_description :: ustr
  ax_required :: bool
  ax_params :: 's

text \<open>
  \<open>pb_parse\<close> is \<open>ParseDict\<close> into one (what it leaves behind, and
  whether it raised), \<open>sk_find\<close> is \<open>find_extension_by_uri\<close> on the extensions of a card.
\<close>

record 's protobuf =
  pb_available :: bool
  pb_to_dict :: "'s \<Rightarrow> jdict res"
  pb_parse :: "jdict \<Rightarrow> 's \<times> unit res"
  sk_available :: bool
  sk_find :: "'s agent_extension list \<Rightarrow> ustr \<Rightarrow> 's agent_extension option"

record 's sdk_message =
  sm_metadata :: "'s option"
  sm_extensions :: "ustr list option"

record ('s, 'g) agent_card =
  ac_signatures :: "'g list"
  ac_extensions :: "'s agent_extension list"

definition EXTENSION_HEADER :: ustr where
  "EXTENSION_HEADER = str ''A2A-Extensions''"

abbreviation profile_uri :: ustr where
  "profile_uri \<equiv> str EXTENSION_URI"

definition require_protobuf :: "'s protobuf \<Rightarrow> unit res" where
  "require_protobuf P = require (pb_available P) (transport_error ''the a2a-sdk bridge needs protobuf'')"

definition load_a2a_sdk :: "'s protobuf \<Rightarrow> unit res" where
  "load_a2a_sdk P = require (sk_available P) (transport_error ''the Agent Card bridge needs the official a2a-sdk'')"

section \<open>Messages\<close>

text \<open>\<open>if isinstance(value, float) and value.is_integer(): credential[field] = int(value)\<close>.\<close>

definition restore_field :: "string \<Rightarrow> jdict \<Rightarrow> jdict" where
  "restore_field field credential =
     (case dict_get credential (str field) of
        Some (JFloat (Some q)) \<Rightarrow> if of_int \<lfloor>q\<rfloor> = q then dict_set (str field) (JInt \<lfloor>q\<rfloor>) credential else credential
      | _ \<Rightarrow> credential)"

definition restore_credential :: "json \<Rightarrow> json" where
  "restore_credential v =
     (case v of
        JObj d \<Rightarrow> JObj (restore_field ''not_after'' (restore_field ''not_before'' (restore_field ''depth'' d)))
      | _ \<Rightarrow> v)"

text \<open>The chain is a list shared with the result, so its credentials change inside the result.\<close>

definition restore_chain :: "jdict \<Rightarrow> jdict" where
  "restore_chain result =
     (case dict_get_none result KEY_DELEGATION_CHAIN of
        JList chain \<Rightarrow> dict_set KEY_DELEGATION_CHAIN (JList (map restore_credential chain)) result
      | _ \<Rightarrow> result)"

definition metadata_from_sdk_message :: "'s protobuf \<Rightarrow> ('s, 'm) sdk_message_scheme \<Rightarrow> jdict res" where
  "metadata_from_sdk_message P message =
     bindE (require_protobuf P) (\<lambda>_.
     case sm_metadata message of
       None \<Rightarrow> Inr []
     | Some s \<Rightarrow> bindE (pb_to_dict P s) (\<lambda>result. Inr (restore_chain result)))"

definition parse_sdk_message :: "lib \<Rightarrow> 's protobuf \<Rightarrow> ('s, 'm) sdk_message_scheme \<Rightarrow> peer_request option res" where
  "parse_sdk_message L P message =
     bindE (metadata_from_sdk_message P message) (\<lambda>meta.
     parse_peer_request L [(str ''metadata'', JObj meta)] None)"

definition add_extension :: "ustr list option \<Rightarrow> ustr list option" where
  "add_extension extensions =
     (case extensions of
        Some es \<Rightarrow> Some (if profile_uri \<in> set es then es else es @ [profile_uri])
      | None \<Rightarrow> None)"

definition attach_to_sdk_message ::
  "'s protobuf \<Rightarrow> ('s, 'm) sdk_message_scheme \<Rightarrow> peer_request \<Rightarrow> ('s, 'm) sdk_message_scheme \<times> unit res" where
  "attach_to_sdk_message P message request =
     (case bindE (metadata_from_sdk_message P message) (\<lambda>meta.
             bindE (attach_ca2a_metadata [(str ''metadata'', JObj meta)] request) (\<lambda>out.
             bindE (dict_item out (str ''metadata'')) (\<lambda>merged.
             bindE (expect (as_obj merged) (PyExn TypeError)) (\<lambda>merged.
             bindE (require (sm_metadata message \<noteq> None) (PyExn AttributeError)) (\<lambda>_.
             Inr merged))))) of
        Inl e \<Rightarrow> (message, Inl e)
      | Inr merged \<Rightarrow>
          (case pb_parse P merged of
             (s, Inl e) \<Rightarrow> (message\<lparr>sm_metadata := Some s\<rparr>, Inl e)
           | (s, Inr _) \<Rightarrow> (message\<lparr>sm_metadata := Some s, sm_extensions := add_extension (sm_extensions message)\<rparr>, Inr ())))"

text \<open>\<open>item.strip() == EXTENSION_URI for value in header_values for item in value.split(",")\<close>.\<close>

definition opted_in :: "lib \<Rightarrow> ustr list option \<Rightarrow> bool" where
  "opted_in L header_values =
     (case header_values of
        None \<Rightarrow> False
      | Some vs \<Rightarrow> list_ex (\<lambda>value. list_ex (\<lambda>item. py_strip L item = profile_uri) (split_on 44 value)) vs)"

section \<open>Agent Cards\<close>

definition KEY_REQUIREMENT :: ustr where
  "KEY_REQUIREMENT = str ''require_caller_attestation''"

definition agent_extension_for_node :: "'s protobuf \<Rightarrow> peer_node \<Rightarrow> 's agent_extension res" where
  "agent_extension_for_node P node =
     bindE (require_protobuf P) (\<lambda>_.
     bindE (load_a2a_sdk P) (\<lambda>_.
     case pb_parse P [(KEY_REQUIREMENT, JStr (pn_requirement node))] of
       (s, Inl e) \<Rightarrow> Inl e
     | (s, Inr _) \<Rightarrow> Inr \<lparr>ax_uri = profile_uri, ax_description = [], ax_required = False, ax_params = s\<rparr>))"

definition delete_at :: "nat \<Rightarrow> 'a list \<Rightarrow> 'a list" where
  "delete_at i xs = take i xs @ drop (Suc i) xs"

definition merge_extensions :: "'s agent_extension \<Rightarrow> 's agent_extension list \<Rightarrow> 's agent_extension list" where
  "merge_extensions generated extensions =
     (let matching = map fst (filter (\<lambda>(i, e). ax_uri e = profile_uri) (enumerate 0 extensions)) in
      case matching of
        [] \<Rightarrow> extensions @ [generated]
      | i # rest \<Rightarrow> fold delete_at (rev rest) (extensions[i := generated]))"

definition merge_agent_card ::
  "'s protobuf \<Rightarrow> ('s, 'g, 'm) agent_card_scheme \<Rightarrow> peer_node \<Rightarrow> ('s, 'g, 'm) agent_card_scheme res" where
  "merge_agent_card P ag_card node =
     bindE (require (ac_signatures ag_card = []) (transport_error ''merge the cA2A extension before signing the Agent Card'')) (\<lambda>_.
     bindE (load_a2a_sdk P) (\<lambda>_.
     bindE (agent_extension_for_node P node) (\<lambda>generated.
     Inr (ag_card\<lparr>ac_extensions := merge_extensions generated (ac_extensions ag_card)\<rparr>))))"

record agent_card_discovery =
  cd_advertised :: bool
  cd_required :: "bool option"
  cd_requirement :: "ustr option"
  cd_warnings :: "ustr list"

text \<open>The names of the unknown parameters, in the order of \<open>sorted\<close>.\<close>

definition unknown_params :: "jdict \<Rightarrow> ustr list" where
  "unknown_params params = sorted_list_of_set (dict_keys params - {KEY_REQUIREMENT})"

definition card_warnings :: "lib \<Rightarrow> 's agent_extension list \<Rightarrow> 's agent_extension \<Rightarrow> jdict \<Rightarrow> ustr list" where
  "card_warnings L extensions extension params =
     (let matches = length (filter (\<lambda>e. ax_uri e = profile_uri) extensions) in
      (if 1 < matches then [str ''peer Agent Card advertises '' @ profile_uri @ str '' '' @ nat_str matches @ str '' times''] else []) @
      (if ax_required extension then [str ''peer Agent Card marks the cA2A extension required=true''] else []) @
      map (\<lambda>name. str ''cA2A declaration has an unknown parameter '' @ py_repr L (JStr name)) (unknown_params params))"

definition read_requirement :: "jdict \<Rightarrow> ustr option \<times> ustr list" where
  "read_requirement params =
     (let raw = dict_get_none params KEY_REQUIREMENT in
      case as_str raw of
        Some r \<Rightarrow> if r |\<in>| REQUIREMENT_VALUES then (Some r, [])
                  else (None, [str ''cA2A declaration has an unsupported require_caller_attestation parameter''])
      | None \<Rightarrow>
          if raw = JNull then (None, [str ''cA2A declaration has no require_caller_attestation parameter''])
          else (None, [str ''cA2A declaration has an unsupported require_caller_attestation parameter'']))"

definition inspect_agent_card :: "lib \<Rightarrow> 's protobuf \<Rightarrow> ('s, 'g, 'm) agent_card_scheme \<Rightarrow> agent_card_discovery res" where
  "inspect_agent_card L P ag_card =
     bindE (require_protobuf P) (\<lambda>_.
     bindE (load_a2a_sdk P) (\<lambda>_.
     case sk_find P (ac_extensions ag_card) profile_uri of
       None \<Rightarrow> Inr \<lparr>cd_advertised = False, cd_required = None, cd_requirement = None,
                 cd_warnings = [str ''peer Agent Card does not advertise '' @ profile_uri]\<rparr>
     | Some extension \<Rightarrow>
         bindE (pb_to_dict P (ax_params extension)) (\<lambda>params.
         let (requirement, warnings) = read_requirement params in
         Inr \<lparr>cd_advertised = True, cd_required = Some (ax_required extension), cd_requirement = requirement,
              cd_warnings = card_warnings L (ac_extensions ag_card) extension params @ warnings\<rparr>)))"

section \<open>What a Struct carries\<close>

text \<open>
  The number of a Struct is a finite double: exact up to \<open>2 ^ 53\<close>, unspecified beyond. Keys come back
  in any order, each once. What \<open>ParseDict\<close> accepts \<open>MessageToDict\<close> prints; a Struct that a peer
  filled with a NaN makes \<open>MessageToDict\<close> raise.
\<close>

inductive carries :: "json \<Rightarrow> json \<Rightarrow> bool" where
  carries_null: "carries JNull JNull"
| carries_bool: "carries (JBool b) (JBool b)"
| carries_int: "\<bar>i\<bar> \<le> 2 ^ 53 \<Longrightarrow> carries (JInt i) (JFloat (Some (of_int i)))"
| carries_large: "\<bar>i\<bar> > 2 ^ 53 \<Longrightarrow> carries (JInt i) (JFloat (Some q))"
| carries_float: "carries (JFloat (Some q)) (JFloat (Some q))"
| carries_str: "carries (JStr s) (JStr s)"
| carries_list: "list_all2 carries vs ws \<Longrightarrow> carries (JList vs) (JList ws)"
| carries_obj: "dict_wf e \<Longrightarrow> (\<And>k. rel_option carries (dict_get d k) (dict_get e k)) \<Longrightarrow> carries (JObj d) (JObj e)"

inductive_simps carries_simps [simp]:
  "carries JNull w"
  "carries (JStr s) w"
  "carries (JList vs) w"
  "carries (JObj d) w"

inductive_cases carries_intE: "carries (JInt i) w"

definition struct_faithful :: "'s protobuf \<Rightarrow> bool" where
  "struct_faithful P \<longleftrightarrow>
     (\<forall>d s. pb_parse P d = (s, Inr ()) \<longrightarrow> (\<exists>e. pb_to_dict P s = Inr e \<and> carries (JObj d) (JObj e)))"

definition finds_first :: "'s protobuf \<Rightarrow> bool" where
  "finds_first P \<longleftrightarrow> (\<forall>xs u. sk_find P xs u = find (\<lambda>x. ax_uri x = u) xs)"

section \<open>Round trip of a message\<close>

lemma carried_str [simp]: "rel_option carries (Some (JStr s)) x \<longleftrightarrow> x = Some (JStr s)"
  by (cases x) simp_all

lemma carried_null [simp]: "rel_option carries (Some JNull) x \<longleftrightarrow> x = Some JNull"
  by (cases x) simp_all

lemma carried_none [simp]: "rel_option carries None x \<longleftrightarrow> x = None"
  by (cases x) simp_all

lemma carried_opt_str [simp]: "rel_option carries (Some (opt_str s)) x \<longleftrightarrow> x = Some (opt_str s)"
  by (cases s; cases x) simp_all

lemma carried_strs: "list_all2 carries (map JStr ss) ws \<longleftrightarrow> ws = map JStr ss"
  by (induction ss arbitrary: ws) (auto simp: list_all2_Cons1)

lemma restore_field_get:
  "dict_get (restore_field f d) k =
     (if k = str f then (case dict_get d k of
          Some (JFloat (Some q)) \<Rightarrow> Some (if of_int \<lfloor>q\<rfloor> = q then JInt \<lfloor>q\<rfloor> else JFloat (Some q))
        | x \<Rightarrow> x)
      else dict_get d k)"
  by (auto simp: restore_field_def split: option.splits json.splits)

lemma restore_field_int:
  assumes "rel_option carries (map_option JInt b) (dict_get d (str f))" and "\<forall>i \<in> set_option b. \<bar>i\<bar> \<le> 2 ^ 53"
  shows "dict_get (restore_field f d) (str f) = map_option JInt b"
  using assms by (cases b; cases "dict_get d (str f)") (auto simp: restore_field_get elim!: carries_intE)

lemma restore_field_keys: "dict_keys (restore_field f d) = dict_keys d"
  by (auto simp: dict_keys_iff restore_field_get split: option.splits json.splits if_splits)

lemma restore_field_wf: "dict_wf d \<Longrightarrow> dict_wf (restore_field f d)"
  by (auto simp: restore_field_def dict_wf_set split: option.splits json.splits)

text \<open>Numbers of a credential that a double holds exactly.\<close>

definition cred_exact :: "delegation_credential \<Rightarrow> bool" where
  "cred_exact c \<longleftrightarrow> cred_depth c \<le> 2 ^ 53 \<and>
     (\<forall>i \<in> set_option (cred_not_before c). i \<le> 2 ^ 53) \<and> (\<forall>i \<in> set_option (cred_not_after c). i \<le> 2 ^ 53)"

lemma restored_credential:
  assumes "cred_wire_ok c" and "cred_exact c" and "carries (JObj (cred_to_dict c)) w"
  shows "cred_from_dict (restore_credential w) = Inr c"
proof -
  obtain e where w: "w = JObj e" and wf: "dict_wf e" and get: "\<And>k. rel_option carries (dict_get (cred_to_dict c) k) (dict_get e k)"
    using assms(3) by auto
  let ?r = "restore_field ''not_after'' (restore_field ''not_before'' (restore_field ''depth'' e))"
  have "dict_keys e = dict_keys (cred_to_dict c)"
  proof -
    have "dict_get e k = None \<longleftrightarrow> dict_get (cred_to_dict c) k = None" for k
      using get [of k] by (cases "dict_get e k"; cases "dict_get (cred_to_dict c) k") auto
    then show ?thesis by (auto simp: dict_keys_iff)
  qed
  then have f: "cred_fields_ok ?r" using cred_to_dict_fields [of c] by (simp add: cred_fields_ok_def restore_field_keys)
  have pos: "0 \<le> cred_depth c" "\<forall>i \<in> set_option (cred_not_before c). 0 \<le> i" "\<forall>i \<in> set_option (cred_not_after c). 0 \<le> i"
    using assms(1) by (auto simp: cred_wire_ok_def cred_wf_def)
  have depth: "dict_get ?r (str ''depth'') = Some (JInt (cred_depth c))"
    using restore_field_int [of "Some (cred_depth c)" e "''depth''"] get [of "str ''depth''"] assms(2) pos
    by (simp add: cred_to_dict_get cred_body_get cred_exact_def restore_field_get)
  have before: "dict_get ?r (str ''not_before'') = map_option JInt (cred_not_before c)"
    using restore_field_int [of "cred_not_before c" e "''not_before''"] get [of "str ''not_before''"] assms(2) pos
    by (simp add: cred_to_dict_get cred_body_get cred_exact_def restore_field_get)
  have after: "dict_get ?r (str ''not_after'') = map_option JInt (cred_not_after c)"
    using restore_field_int [of "cred_not_after c" e "''not_after''"] get [of "str ''not_after''"] assms(2) pos
    by (simp add: cred_to_dict_get cred_body_get cred_exact_def restore_field_get)
  have scope: "dict_get e (str ''scope'') = Some (JList (map JStr (sorted_list_of_fset (cred_scope c))))"
    using get [of "str ''scope''"] by (cases "dict_get e (str ''scope'')") (auto simp: cred_to_dict_get cred_body_get str_list_def carried_strs)
  have strs: "dict_get e (str ''credential_id'') = Some (JStr (cred_id c))" "dict_get e (str ''issuer'') = Some (JStr (cred_issuer c))"
    "dict_get e (str ''subject'') = Some (JStr (cred_subject c))" "dict_get e (str ''parent_id'') = Some (opt_str (cred_parent_id c))"
    "dict_get e (str ''signature'') = Some (JStr (cred_signature c))"
    using get [of "str ''credential_id''"] get [of "str ''issuer''"] get [of "str ''subject''"] get [of "str ''parent_id''"]
      get [of "str ''signature''"] by (simp_all add: cred_to_dict_get cred_body_get)
  show ?thesis
    unfolding cred_from_dict_iff w restore_credential_def
    using assms(1) f depth before after scope strs
    by (intro exI [of _ ?r] exI [of _ "sorted_list_of_fset (cred_scope c)"]) (simp add: restore_field_get)
qed

lemma carried_string_dict:
  assumes "carries (JObj d) (JObj e)" and "\<forall>v \<in> snd ` set d. \<exists>s. v = JStr s"
  shows "dict_get e = dict_get d"
proof
  fix k
  have "rel_option carries (dict_get d k) (dict_get e k)" using assms(1) by simp
  moreover have "dict_get d k = None \<or> (\<exists>s. dict_get d k = Some (JStr s))"
    using assms(2) by (cases "dict_get d k") (fastforce simp: dict_get_def dest: map_of_SomeD)+
  ultimately show "dict_get e k = dict_get d k" by auto
qed

lemma carried_offer:
  assumes "offer_wire_ok offer" and "carries (JObj (serialize_channel_offer offer None)) w"
  shows "parse_channel_offer L w = Inr offer"
proof -
  let ?d = "serialize_channel_offer offer None" and ?a = "serialize_report (co_report offer)"
  obtain e where w: "w = JObj e" and get: "\<And>k. rel_option carries (dict_get ?d k) (dict_get e k)"
    using assms(2) by auto
  have key: "dict_get e (str ''channel_public_key'') = dict_get ?d (str ''channel_public_key'')"
    using get [of "str ''channel_public_key''"] by (simp add: serialize_channel_offer_def)
  obtain a where a: "dict_get e (str ''attestation'') = Some (JObj a)" and "carries (JObj ?a) (JObj a)"
    using get [of "str ''attestation''"] by (cases "dict_get e (str ''attestation'')") (auto simp: serialize_channel_offer_def)
  then have "dict_get a = dict_get ?a"
    by (intro carried_string_dict) (auto simp: serialize_report_def evidence_item_def split: option.splits if_splits)
  then have "parse_channel_offer L (JObj e) = parse_channel_offer L (JObj ?d)"
    by (simp add: parse_channel_offer_def parse_evidence_def parse_role_def key a) (simp add: serialize_channel_offer_def)
  then show ?thesis using w parse_serialized_offer [OF assms(1)] by simp
qed

lemma carried_proof:
  assumes "proof_wire_ok p" and "carries (JObj (hp_to_dict p)) w"
  shows "hp_from_dict w = Inr p"
proof -
  obtain e where w: "w = JObj e" using assms(2) by auto
  moreover have "dict_get e = dict_get (hp_to_dict p)"
    using assms(2) unfolding w by (rule carried_string_dict) (simp add: hp_to_dict_def)
  ultimately show ?thesis using assms(1) by (simp add: hp_from_dict_iff hp_to_dict_def)
qed

lemma carried_possession:
  assumes "possession_wire_ok p" and "carries (JObj (pos_to_dict p)) w"
  shows "parse_possession w = Inr p"
proof -
  obtain e where w: "w = JObj e" using assms(2) by auto
  moreover have "dict_get e = dict_get (pos_to_dict p)"
    using assms(2) unfolding w by (rule carried_string_dict) (simp add: pos_to_dict_def)
  ultimately show ?thesis using assms(1) unfolding parse_possession_def guard_simps pos_from_dict_iff
    by (simp add: pos_to_dict_def)
qed

lemma carried_chain:
  assumes "chain \<noteq> []" and "list_all cred_wire_ok chain" and "list_all cred_exact chain"
    and "list_all2 carries (map (\<lambda>c. JObj (cred_to_dict c)) chain) ws"
  shows "parse_hops (JList (map restore_credential ws)) = Inr chain"
proof -
  have obj: "\<exists>d. restore_credential w = JObj d" if "carries (JObj (cred_to_dict c)) w" for c w
    using that by (auto simp: restore_credential_def)
  have "traverseE parse_hop (enumerate n (map restore_credential ws)) = Inr chain" for n
    using assms(2-4)
  proof (induction chain arbitrary: ws n)
    case (Cons c chain)
    then obtain w vs where "ws = w # vs" and c: "carries (JObj (cred_to_dict c)) w"
      and "list_all2 carries (map (\<lambda>c. JObj (cred_to_dict c)) chain) vs" by (auto simp: list_all2_Cons1)
    moreover have "cred_from_dict (restore_credential w) = Inr c"
      using Cons.prems c by (intro restored_credential) simp_all
    ultimately show ?case using Cons.IH [of vs "Suc n"] Cons.prems obj [OF c] by (auto simp: parse_hop_def)
  qed simp
  from this [of 0] assms(1,4) show ?thesis
    by (cases ws) (auto simp: parse_hops_def list_all2_Cons2)
qed

lemma restore_chain_get:
  "dict_get (restore_chain d) k =
     (case dict_get d k of
        Some (JList vs) \<Rightarrow> Some (JList (if k = KEY_DELEGATION_CHAIN then map restore_credential vs else vs))
      | x \<Rightarrow> x)"
  by (auto simp: restore_chain_def dict_get_none_def split: option.splits json.splits)

lemma restore_chain_wf: "dict_wf d \<Longrightarrow> dict_wf (restore_chain d)"
  by (auto simp: restore_chain_def dict_wf_set split: json.splits)

lemma parse_optional_carried:
  assumes "rel_option carries (map_option enc x) (dict_get meta k)"
    and "\<And>y w. x = Some y \<Longrightarrow> carries (enc y) w \<Longrightarrow> w \<noteq> JNull \<and> f w = Inr y"
  shows "parse_optional meta k f = Inr x"
  using assms by (cases x; cases "dict_get meta k") (auto simp: parse_optional_def)

lemma restore_chain_kept: "k \<noteq> KEY_DELEGATION_CHAIN \<Longrightarrow> dict_get (restore_chain d) k = dict_get d k"
  by (auto simp: restore_chain_get split: option.splits json.splits)

lemma parse_carried:
  assumes ok: "request_wire_ok req" and exact: "list_all cred_exact (pr_chain req)"
    and carried: "carries (JObj (attach_fields req meta)) (JObj d)"
  shows "parse_peer_request L [(str ''metadata'', JObj (restore_chain d))] None = Inr (Some req)"
proof -
  define m where "m = dict_update [] (restore_chain d)"
  have wf: "dict_wf d" and get: "\<And>k. rel_option carries (dict_get (attach_fields req meta) k) (dict_get d k)"
    using carried by auto
  have m: "dict_get m k = dict_get (restore_chain d) k" for k
    using wf by (simp add: m_def dict_get_update_wf restore_chain_wf split: option.split)
  have kept: "rel_option carries (dict_get (attach_fields req meta) (ext_key k)) (dict_get m (ext_key k))"
    if "k \<noteq> ''delegation_chain''" for k
    using get [of "ext_key k"] that by (simp add: m restore_chain_kept)
  note facts = attach_fields_get request_wire_ok_def
  have sealed: "parse_optional m KEY_SEALED_PAYLOAD parse_sealed = Inr (pr_sealed_payload req)"
    by (rule parse_optional_carried [OF kept [of "''sealed_payload''", unfolded attach_fields_get]])
       (use ok in \<open>auto simp: facts parse_sealed_def\<close>)
  have offer: "parse_optional m KEY_CALLER_OFFER (parse_channel_offer L) = Inr (pr_caller_offer req)"
    by (rule parse_optional_carried [OF kept [of "''caller_offer''", unfolded attach_fields_get]])
       (use ok carried_offer [of _ _ L] in \<open>auto simp: facts\<close>)
  have possession: "parse_optional m KEY_CALLER_POSSESSION parse_possession = Inr (pr_possession req)"
    by (rule parse_optional_carried [OF kept [of "''caller_possession''", unfolded attach_fields_get]])
       (use ok carried_possession in \<open>auto simp: facts\<close>)
  have proof_: "parse_optional m KEY_HOLDER_PROOF hp_from_dict = Inr (pr_holder_proof req)"
    by (rule parse_optional_carried [OF kept [of "''holder_proof''", unfolded attach_fields_get]])
       (use ok carried_proof in \<open>auto simp: facts\<close>)
  have parent: "parse_parent m = Inr (pr_parent_hash req)"
    using kept [of "''parent_record_hash''"] by (cases "pr_parent_hash req") (simp_all add: parse_parent_def attach_fields_get)
  have strs: "nonempty_str (dict_get_none m KEY_REQUESTED_CAPABILITY) = Some (pr_capability req)"
    "nonempty_str (dict_get_none m KEY_RECORD_ID) = Some (pr_record_id req)"
    using ok kept [of "''requested_capability''"] kept [of "''record_id''"]
    by (simp_all add: dict_get_none_def attach_fields_get request_wire_ok_def)
  obtain ws where "dict_get d KEY_DELEGATION_CHAIN = Some (JList ws)"
    and "list_all2 carries (map (\<lambda>c. JObj (cred_to_dict c)) (pr_chain req)) ws"
    using get [of KEY_DELEGATION_CHAIN] by (cases "dict_get d KEY_DELEGATION_CHAIN") (auto simp: attach_fields_get)
  then have hops: "parse_hops (dict_get_none m KEY_DELEGATION_CHAIN) = Inr (pr_chain req)"
    using ok exact by (simp add: dict_get_none_def m restore_chain_get carried_chain request_wire_ok_def)
  have has: "has_ca2a_metadata (Some m)"
    using kept [of "''record_id''"] by (auto simp: has_ca2a_metadata_def attach_fields_get CA2A_METADATA_KEYS_def has_key_def)
  have "collect_metadata [(str ''metadata'', JObj (restore_chain d))] None = m"
    by (simp add: collect_metadata_def add_metadata_def dict_get_none_def m_def)
  then show ?thesis
    unfolding parse_peer_request_def Let_def using has by (simp add: sealed offer possession proof_ parent strs hops)
qed

lemma attach_to_sdk_message_parsed:
  assumes "pb_available P" and "sm_metadata message = Some s" and "pb_to_dict P s = Inr d"
    and "pb_parse P (attach_fields req (restore_chain d)) = (s', Inr ())"
  shows "attach_to_sdk_message P message req =
     (message\<lparr>sm_metadata := Some s', sm_extensions := add_extension (sm_extensions message)\<rparr>, Inr ())"
  using assms
  by (simp add: attach_to_sdk_message_def metadata_from_sdk_message_def require_protobuf_def attach_ca2a_metadata_def
      attach_target_def write_target_def attach_place_def place_container_def dict_get_none_def dict_item_def)

section \<open>Merging a declaration\<close>

lemma delete_at_append: "delete_at (length pre) (pre @ x # ys) = pre @ ys"
  by (simp add: delete_at_def)

lemma delete_matching:
  "fold delete_at (rev (map fst (filter (\<lambda>(i, e). Q e) (enumerate (length pre) ys)))) (pre @ ys) =
     pre @ filter (\<lambda>e. \<not> Q e) ys"
proof (induction ys arbitrary: pre)
  case (Cons y ys)
  from Cons.IH [of "pre @ [y]"] show ?case by (simp add: delete_at_append)
qed simp

text \<open>The declaration takes the place of the first one, and the later ones go.\<close>

lemma merge_extensions_split:
  "list_all (\<lambda>e. ax_uri e \<noteq> profile_uri) xs \<Longrightarrow> merge_extensions g xs = xs @ [g]"
  "list_all (\<lambda>e. ax_uri e \<noteq> profile_uri) xs \<Longrightarrow> ax_uri x = profile_uri \<Longrightarrow>
     merge_extensions g (xs @ x # ys) = xs @ g # filter (\<lambda>e. ax_uri e \<noteq> profile_uri) ys"
proof -
  let ?Q = "\<lambda>e. ax_uri e = profile_uri"
  have none: "filter (\<lambda>(i, e). ?Q e) (enumerate n xs) = []" if "list_all (\<lambda>e. \<not> ?Q e) xs" for n and xs :: "'a agent_extension list"
    using that by (induction xs arbitrary: n) auto
  show "merge_extensions g xs = xs @ [g]" if "list_all (\<lambda>e. \<not> ?Q e) xs"
    by (simp add: merge_extensions_def none [OF that])
  show "merge_extensions g (xs @ x # ys) = xs @ g # filter (\<lambda>e. \<not> ?Q e) ys" if "list_all (\<lambda>e. \<not> ?Q e) xs" "?Q x"
    using delete_matching [of ?Q "xs @ [g]" ys] that
    by (simp add: merge_extensions_def none enumerate_append_eq list_update_append)
qed

lemma merge_extensions_cases:
  obtains (fresh) "list_all (\<lambda>e. ax_uri e \<noteq> profile_uri) es" "merge_extensions g es = es @ [g]"
  | (replaced) xs x ys where "es = xs @ x # ys" "list_all (\<lambda>e. ax_uri e \<noteq> profile_uri) xs" "ax_uri x = profile_uri"
      "merge_extensions g es = xs @ g # filter (\<lambda>e. ax_uri e \<noteq> profile_uri) ys"
proof (cases "list_all (\<lambda>e. ax_uri e \<noteq> profile_uri) es")
  case False
  then obtain xs x ys where "es = xs @ x # ys" "ax_uri x = profile_uri" "\<forall>y\<in>set xs. ax_uri y \<noteq> profile_uri"
    using split_list_first_prop [of es "\<lambda>e. ax_uri e = profile_uri"] by (auto simp: list_all_iff)
  then show ?thesis using replaced merge_extensions_split(2) [of xs x g ys] by (simp add: list_all_iff)
qed (use fresh merge_extensions_split(1) in blast)

lemma find_after: "list_all (\<lambda>e. \<not> Q e) xs \<Longrightarrow> Q g \<Longrightarrow> find Q (xs @ g # ys) = Some g"
  by (induction xs) auto

lemma merge_extensions_result:
  assumes "ax_uri g = profile_uri"
  shows "find (\<lambda>e. ax_uri e = profile_uri) (merge_extensions g es) = Some g"
    and "filter (\<lambda>e. ax_uri e = profile_uri) (merge_extensions g es) = [g]"
    and "filter (\<lambda>e. ax_uri e \<noteq> profile_uri) (merge_extensions g es) = filter (\<lambda>e. ax_uri e \<noteq> profile_uri) es"
    and "merge_extensions g (merge_extensions g es) = merge_extensions g es"
  using assms by (cases rule: merge_extensions_cases [of es g];
      simp add: find_after merge_extensions_split filter_empty_conv list_all_iff)+

section \<open>A sample Struct\<close>

text \<open>A Struct as a dict whose numbers are floats; other objects are refused.\<close>

fun struct_value :: "json \<Rightarrow> json option" where
  "struct_value JNull = Some JNull"
| "struct_value (JBool b) = Some (JBool b)"
| "struct_value (JInt i) = Some (JFloat (Some (of_int i)))"
| "struct_value (JFloat None) = None"
| "struct_value (JFloat (Some q)) = Some (JFloat (Some q))"
| "struct_value (JStr s) = Some (JStr s)"
| "struct_value (JList vs) = map_option JList (those (map struct_value vs))"
| "struct_value (JObj d) =
     map_option (\<lambda>e. JObj (AList.clearjunk e)) (those (map (\<lambda>kv. map_option (Pair (fst kv)) (struct_value (snd kv))) d))"
| "struct_value (JOther _) = None"

definition sample_protobuf :: "jdict protobuf" where
  "sample_protobuf =
     \<lparr>pb_available = True, pb_to_dict = Inr,
      pb_parse = (\<lambda>d. case struct_value (JObj d) of Some (JObj e) \<Rightarrow> (e, Inr ()) | _ \<Rightarrow> ([], Inl (PyExn ValueError))),
      sk_available = True, sk_find = (\<lambda>xs u. find (\<lambda>x. ax_uri x = u) xs)\<rparr>"

lemma those_list_all2: "those xs = Some ys \<longleftrightarrow> list_all2 (\<lambda>x y. x = Some y) xs ys"
  by (induction xs arbitrary: ys) (auto simp: list_all2_Cons1 split: option.splits)

lemma struct_value_carries: "struct_value v = Some w \<Longrightarrow> carries v w"
proof (induction v arbitrary: w rule: struct_value.induct)
  case (3 i)
  then show ?case by (cases "\<bar>i\<bar> \<le> 2 ^ 53") (auto intro: carries.intros)
next
  case (7 vs)
  then show ?case by (auto simp: those_list_all2 list_all2_map1 elim!: list_all2_mono intro: list.rel_mono_strong)
next
  case (8 d)
  then obtain e where w: "w = JObj (AList.clearjunk e)"
    and e: "list_all2 (\<lambda>kv y. map_option (Pair (fst kv)) (struct_value (snd kv)) = Some y) d e"
    by (auto simp: those_list_all2 list_all2_map1)
  from e have "list_all2 (\<lambda>kv y. fst y = fst kv \<and> carries (snd kv) (snd y)) d e"
    by (rule list.rel_mono_strong) (use 8(1) in auto)
  then have "rel_option carries (dict_get d k) (dict_get e k)" for k
    unfolding dict_get_def by (induction rule: list_all2_induct) auto
  then show ?case by (simp add: w dict_get_def map_of_clearjunk distinct_clearjunk)
qed (auto intro: carries.intros)

lemma sample_struct_faithful: "struct_faithful sample_protobuf"
  unfolding struct_faithful_def
  by (auto simp: sample_protobuf_def simp del: struct_value.simps carries_simps split: option.splits json.splits
      dest!: struct_value_carries)

lemma those_total: "list_all (\<lambda>x. x \<noteq> None) xs \<Longrightarrow> \<exists>ys. those xs = Some ys"
  by (induction xs) auto

lemma struct_value_total: "plain v \<Longrightarrow> \<exists>w. struct_value v = Some w"
proof (induction v rule: struct_value.induct)
  case (7 vs)
  then show ?case by (auto simp: list_all_iff intro!: those_total)
next
  case (8 d)
  then show ?case by (fastforce simp: list_all_iff intro!: those_total)
qed simp_all

lemma sample_parses: "list_all (\<lambda>(k, v). plain v) d \<Longrightarrow> snd (pb_parse sample_protobuf d) = Inr ()"
  using struct_value_total [of "JObj d"] by (auto simp: sample_protobuf_def)

abbreviation plain_dict :: "jdict \<Rightarrow> bool" where
  "plain_dict d \<equiv> list_all (\<lambda>(k, v). plain v) d"

lemma plain_dict_set: "plain v \<Longrightarrow> plain_dict d \<Longrightarrow> plain_dict (dict_set k v d)"
  by (induction d) (auto simp: dict_set_def)

lemma plain_set_or_pop: "pred_option plain v \<Longrightarrow> plain_dict d \<Longrightarrow> plain_dict (set_or_pop k v d)"
  by (cases v) (simp_all add: set_or_pop_def plain_dict_set, auto simp: dict_pop_def AList.delete_eq list_all_iff)

lemma plain_offer: "plain_dict (serialize_channel_offer offer None)"
  by (simp add: serialize_channel_offer_def serialize_report_def evidence_item_def split: option.split)

lemma plain_cred_to_dict: "plain_dict (cred_to_dict c)"
  by (simp add: cred_to_dict_def cred_body_def opt_item_def plain_dict_set split: option.splits)

lemma plain_attach_fields: "plain_dict meta \<Longrightarrow> plain_dict (attach_fields req meta)"
  unfolding attach_fields_def Let_def
  by (intro plain_set_or_pop plain_dict_set)
     (simp_all add: list.pred_map comp_def plain_cred_to_dict plain_offer hp_to_dict_def pos_to_dict_def option.pred_map list.pred_True option.pred_True)

lemma sample_finds_first: "finds_first sample_protobuf"
  by (simp add: finds_first_def sample_protobuf_def)

section \<open>Properties\<close>

text \<open>
  C26: The metadata survives the SDK. When the Struct takes the merged mapping, attaching a request to
  an SDK message succeeds and parsing that message gives the same request, although the Struct
  turns every number into a double: for every request within the wire format whose numbers a
  double holds exactly. Fields left by an earlier request are gone, other metadata is carried over,
  the message opts in to the extension exactly once more than before and nothing else of it changes.
\<close>

theorem sdk_roundtrip:
  assumes "struct_faithful P" and "pb_available P" and "request_wire_ok req" and "list_all cred_exact (pr_chain req)"
    and "sm_metadata message = Some s" and "pb_to_dict P s = Inr d"
    and "snd (pb_parse P (attach_fields req (restore_chain d))) = Inr ()"
  shows "\<exists>message' s' d'. attach_to_sdk_message P message req = (message', Inr ()) \<and>
     parse_sdk_message L P message' = Inr (Some req) \<and>
     message' = message\<lparr>sm_metadata := Some s', sm_extensions := add_extension (sm_extensions message)\<rparr> \<and>
     pb_to_dict P s' = Inr d' \<and>
     (\<forall>k. k \<notin> set CA2A_METADATA_KEYS \<longrightarrow> rel_option carries (dict_get d k) (dict_get d' k)) \<and>
     (\<forall>es. sm_extensions message = Some es \<longrightarrow>
        (\<exists>es'. sm_extensions message' = Some es' \<and> set es' = insert profile_uri (set es) \<and>
           count_list es' profile_uri = max 1 (count_list es profile_uri)))"
proof -
  obtain s' where s': "pb_parse P (attach_fields req (restore_chain d)) = (s', Inr ())"
    using assms(7) by (cases "pb_parse P (attach_fields req (restore_chain d))") auto
  with assms(1) obtain d' where d': "pb_to_dict P s' = Inr d'" and c: "carries (JObj (attach_fields req (restore_chain d))) (JObj d')"
    unfolding struct_faithful_def by blast
  let ?m = "message\<lparr>sm_metadata := Some s', sm_extensions := add_extension (sm_extensions message)\<rparr>"
  have "parse_sdk_message L P ?m = Inr (Some req)"
    using assms(2) parse_carried [OF assms(3,4) c]
    by (simp add: parse_sdk_message_def metadata_from_sdk_message_def require_protobuf_def d')
  moreover have "rel_option carries (dict_get d k) (dict_get d' k)" if "k \<notin> set CA2A_METADATA_KEYS" for k
  proof -
    have "dict_get (attach_fields req (restore_chain d)) k = dict_get d k"
      using that by (subst attach_fields_get) (auto simp: CA2A_METADATA_KEYS_def restore_chain_kept)
    then show ?thesis using c by (auto dest: spec [of _ k])
  qed
  moreover have "\<exists>es'. add_extension (Some es) = Some es' \<and> set es' = insert profile_uri (set es) \<and>
      count_list es' profile_uri = max 1 (count_list es profile_uri)" for es
    by (auto simp: add_extension_def max_def count_list_0_iff Suc_le_eq dest: count_notin) 
  ultimately show ?thesis using attach_to_sdk_message_parsed [OF assms(2,5,6) s'] d' by auto
qed

theorem sdk_roundtrip_witness:
  "\<exists>(message' :: jdict sdk_message) s'. attach_to_sdk_message sample_protobuf
       \<lparr>sm_metadata = Some [(str ''trace'', JStr (str ''t''))], sm_extensions = Some []\<rparr> (sample_request (str ''read'')) = (message', Inr ()) \<and>
     parse_sdk_message sample_lib sample_protobuf message' = Inr (Some (sample_request (str ''read''))) \<and>
     message' = \<lparr>sm_metadata = Some s', sm_extensions = Some [profile_uri]\<rparr> \<and>
     dict_get s' (str ''trace'') = Some (JStr (str ''t''))"
proof -
  let ?m = "\<lparr>sm_metadata = Some [(str ''trace'', JStr (str ''t''))], sm_extensions = Some []\<rparr>" and ?r = "sample_request (str ''read'')"
  let ?d = "[(str ''trace'', JStr (str ''t''))]"
  have k: "str ''trace'' \<notin> set CA2A_METADATA_KEYS" by (simp add: CA2A_METADATA_KEYS_def ext_key_def EXTENSION_URI_def)
  have "restore_chain ?d = ?d" by (simp add: restore_chain_def dict_get_none_def ext_key_def EXTENSION_URI_def)
  moreover have "plain_dict (attach_fields ?r ?d)" by (rule plain_attach_fields) simp
  ultimately have "snd (pb_parse sample_protobuf (attach_fields ?r (restore_chain ?d))) = Inr ()"
    by (simp only: sample_parses)
  moreover have "list_all cred_exact (pr_chain ?r)"
    by (simp add: sample_request_fields cred_exact_def)
  moreover have "pb_available sample_protobuf" and "pb_to_dict sample_protobuf = Inr" by (simp_all add: sample_protobuf_def)
  ultimately obtain message' s' d' where a: "attach_to_sdk_message sample_protobuf ?m ?r = (message', Inr ())"
    "parse_sdk_message sample_lib sample_protobuf message' = Inr (Some ?r)"
    "message' = ?m\<lparr>sm_metadata := Some s', sm_extensions := add_extension (sm_extensions ?m)\<rparr>"
    and d: "s' = d'" "rel_option carries (dict_get ?d (str ''trace'')) (dict_get d' (str ''trace''))"
    using sdk_roundtrip [OF sample_struct_faithful _ sample_request_wire_ok, of "str ''read''" "str ''callee''" ?m ?d ?d sample_lib] k
    by auto
  then show ?thesis by (intro exI [of _ message'] exI [of _ s']) (simp add: add_extension_def)
qed

text \<open>
  The card says what the node enforces. Merging a node's declaration into an unsigned card, and
  inspecting the result, gives exactly the requirement that the node applies to its callers, marked
  optional and without a warning. The card then has one declaration of the profile, every
  other extension in its order and every other field unchanged, and merging again changes nothing.
\<close>

theorem card_declares_requirement:
  assumes "struct_faithful P" and "finds_first P" and "pn_requirement node |\<in>| REQUIREMENT_VALUES"
    and "merge_agent_card P ag_card node = Inr merged"
  shows "inspect_agent_card L P merged =
       Inr \<lparr>cd_advertised = True, cd_required = Some False, cd_requirement = Some (pn_requirement node), cd_warnings = []\<rparr> \<and>
     length (filter (\<lambda>e. ax_uri e = profile_uri) (ac_extensions merged)) = 1 \<and>
     filter (\<lambda>e. ax_uri e \<noteq> profile_uri) (ac_extensions merged) = filter (\<lambda>e. ax_uri e \<noteq> profile_uri) (ac_extensions ag_card) \<and>
     merged = ag_card\<lparr>ac_extensions := ac_extensions merged\<rparr> \<and> merge_agent_card P merged node = Inr merged"
proof -
  obtain g where sig: "ac_signatures ag_card = []" and P: "pb_available P" "sk_available P"
    and g: "agent_extension_for_node P node = Inr g"
    and m: "merged = ag_card\<lparr>ac_extensions := merge_extensions g (ac_extensions ag_card)\<rparr>"
    using assms(4) by (auto simp: merge_agent_card_def agent_extension_for_node_def require_protobuf_def load_a2a_sdk_def guard_simps)
  have uri: "ax_uri g = profile_uri" "\<not> ax_required g"
    and "pb_parse P [(KEY_REQUIREMENT, JStr (pn_requirement node))] = (ax_params g, Inr ())"
    using g by (auto simp: agent_extension_for_node_def guard_simps split: prod.splits sum.splits)
  then obtain e where e: "pb_to_dict P (ax_params g) = Inr e"
    and c: "carries (JObj [(KEY_REQUIREMENT, JStr (pn_requirement node))]) (JObj e)"
    using assms(1) unfolding struct_faithful_def by blast
  have get: "dict_get e = dict_get [(KEY_REQUIREMENT, JStr (pn_requirement node))]"
    using c by (rule carried_string_dict) simp
  then have "dict_keys e = {KEY_REQUIREMENT}" by (auto simp: dict_keys_iff split: if_splits)
  then have "inspect_agent_card L P merged =
      Inr \<lparr>cd_advertised = True, cd_required = Some False, cd_requirement = Some (pn_requirement node), cd_warnings = []\<rparr>"
    using P uri assms(2,3) merge_extensions_result [OF uri(1), of "ac_extensions ag_card"]
    by (simp add: inspect_agent_card_def require_protobuf_def load_a2a_sdk_def finds_first_def m e read_requirement_def
        dict_get_none_def get card_warnings_def unknown_params_def)
  moreover have "merge_agent_card P merged node = Inr merged"
    using sig P g merge_extensions_result(4) [OF uri(1), of "ac_extensions ag_card"]
    by (simp add: merge_agent_card_def load_a2a_sdk_def m)
  ultimately show ?thesis using merge_extensions_result [OF uri(1), of "ac_extensions ag_card"] by (simp add: m)
qed

theorem card_declares_requirement_witness:
  "\<exists>merged :: (jdict, unit) agent_card. merge_agent_card sample_protobuf \<lparr>ac_signatures = [], ac_extensions = []\<rparr> sample_node = Inr merged \<and>
     inspect_agent_card sample_lib sample_protobuf merged =
       Inr \<lparr>cd_advertised = True, cd_required = Some False, cd_requirement = Some REQUIRE_NONE, cd_warnings = []\<rparr>"
proof -
  have "is_ok (merge_agent_card sample_protobuf \<lparr>ac_signatures = [] :: unit list, ac_extensions = []\<rparr> sample_node)"
    by (simp add: merge_agent_card_def agent_extension_for_node_def require_protobuf_def load_a2a_sdk_def is_ok_def sample_protobuf_def)
  then obtain merged where m: "merge_agent_card sample_protobuf \<lparr>ac_signatures = [] :: unit list, ac_extensions = []\<rparr> sample_node = Inr merged"
    by (auto simp: is_ok_def split: sum.splits)
  then show ?thesis
    using card_declares_requirement [OF sample_struct_faithful sample_finds_first _ m, of sample_lib]
    by (simp add: sample_node_def REQUIREMENT_VALUES_def)
qed

end
