(* ===== verification/Json_Dump.thy ===== *)
theory Json_Dump
  imports Json_Text
begin

text \<open>
  The JSON texts that go over HTTP: \<open>json.dumps\<close> with its defaults (ASCII output, \<open>", "\<close> and \<open>": "\<close> as
  separators) and \<open>json.loads\<close> on a bytes object, which detects the encoding of the bytes before it
  parses. The model has one value for the non-finite floats, printed as \<open>NaN\<close>; the text of the others is
  the interpreter's \<open>repr\<close>. Every document of plain values without lone surrogates reads back as
  itself.
\<close>

section \<open>Printing\<close>

text \<open>\<open>py_encode_basestring_ascii\<close>: what is not between space and tilde is escaped, beyond the basic plane as a pair.\<close>

definition escape_unit :: "nat \<Rightarrow> ustr" where
  "escape_unit c = [92, 117] @ hex4 c"

definition dump_char :: "nat \<Rightarrow> ustr" where
  "dump_char c =
     (case SHORT_ESCAPES c of
        Some e \<Rightarrow> [92, e]
      | None \<Rightarrow>
          if 32 \<le> c \<and> c \<le> 126 then [c]
          else if c < 65536 then escape_unit c
          else escape_unit (55296 + (c - 65536) div 1024 mod 1024) @ escape_unit (56320 + (c - 65536) mod 1024))"

definition dump_string :: "ustr \<Rightarrow> ustr" where
  "dump_string s = [34] @ concat (map dump_char s) @ [34]"

fun json_dumps :: "lib \<Rightarrow> json \<Rightarrow> ustr res" where
  "json_dumps L JNull = Inr (str ''null'')"
| "json_dumps L (JBool b) = Inr (if b then str ''true'' else str ''false'')"
| "json_dumps L (JInt i) = (if \<bar>i\<bar> < 10 ^ INT_MAX_STR_DIGITS then Inr (int_str i) else Inl (PyExn ValueError))"
| "json_dumps L (JFloat None) = Inr (str ''NaN'')"
| "json_dumps L (JFloat (Some q)) = Inr (py_repr L (JFloat (Some q)))"
| "json_dumps L (JStr s) = Inr (dump_string s)"
| "json_dumps L (JList vs) = bindE (traverseE (json_dumps L) vs) (\<lambda>ts. Inr ([91] @ join [44, 32] ts @ [93]))"
| "json_dumps L (JObj kvs) =
     bindE (traverseE (\<lambda>kv. bindE (json_dumps L (snd kv)) (\<lambda>t. Inr (dump_string (fst kv) @ [58, 32] @ t))) kvs) (\<lambda>ts.
     Inr ([123] @ join [44, 32] ts @ [125]))"
| "json_dumps L (JOther _) = Inl (PyExn TypeError)"

section \<open>Reading bytes\<close>

datatype codec = UTF8 | UTF16 bool | UTF32 bool

text \<open>
  \<open>json.detect_encoding\<close>: the codec, with \<open>True\<close> for big endian, and the length of the byte order mark
  that it drops.
\<close>

definition detect_encoding :: "nat list \<Rightarrow> codec \<times> nat" where
  "detect_encoding b =
     (if take 4 b = [0, 0, 254, 255] then (UTF32 True, 4)
      else if take 4 b = [255, 254, 0, 0] then (UTF32 False, 4)
      else if take 2 b = [254, 255] then (UTF16 True, 2)
      else if take 2 b = [255, 254] then (UTF16 False, 2)
      else if take 3 b = [239, 187, 191] then (UTF8, 3)
      else if 4 \<le> length b then
        (if b ! 0 = 0 then (if b ! 1 \<noteq> 0 then (UTF16 True, 0) else (UTF32 True, 0))
         else if b ! 1 = 0 then (if b ! 2 \<noteq> 0 \<or> b ! 3 \<noteq> 0 then (UTF16 False, 0) else (UTF32 False, 0))
         else (UTF8, 0))
      else if length b = 2 then
        (if b ! 0 = 0 then (UTF16 True, 0) else if b ! 1 = 0 then (UTF16 False, 0) else (UTF8, 0))
      else (UTF8, 0))"

text \<open>The decoders with \<open>errors="surrogatepass"\<close>: as the strict ones, but a lone surrogate is kept.\<close>

function utf8_pass :: "nat list \<Rightarrow> ustr option" where
  "utf8_pass bs =
     (if bs = [] then Some []
      else let c = utf8_next bs; k = length (utf8_units c) in
        if c < 1114112 \<and> take k bs = utf8_units c then map_option (\<lambda>s. c # s) (utf8_pass (drop k bs)) else None)"
  by pat_completeness auto
termination
proof (relation "measure length")
  fix bs :: "nat list" and c k :: nat
  assume "bs \<noteq> []" "c = utf8_next bs" "k = length (utf8_units c)"
  then show "(drop k bs, bs) \<in> measure length" by (simp add: utf8_units_length)
qed simp

declare utf8_pass.simps [simp del]

fun units16 :: "bool \<Rightarrow> nat list \<Rightarrow> nat list option" where
  "units16 be [] = Some []"
| "units16 be [a] = None"
| "units16 be (a # b # r) = map_option (Cons (if be then a * 256 + b else b * 256 + a)) (units16 be r)"

fun join_surrogates :: "nat list \<Rightarrow> ustr" where
  "join_surrogates [] = []"
| "join_surrogates [h] = [h]"
| "join_surrogates (h # l # r) =
     (if 55296 \<le> h \<and> h \<le> 56319 \<and> 56320 \<le> l \<and> l \<le> 57343
      then (65536 + (h - 55296) * 1024 + (l - 56320)) # join_surrogates r
      else h # join_surrogates (l # r))"

fun utf32_pass :: "bool \<Rightarrow> nat list \<Rightarrow> ustr option" where
  "utf32_pass be [] = Some []"
| "utf32_pass be (a # b # c # d # r) =
     (let v = (if be then ((a * 256 + b) * 256 + c) * 256 + d else ((d * 256 + c) * 256 + b) * 256 + a) in
      if v < 1114112 then map_option (Cons v) (utf32_pass be r) else None)"
| "utf32_pass be _ = None"

definition decode_detected :: "bytes \<Rightarrow> ustr option" where
  "decode_detected raw =
     (let b = map unat raw; (codec, bom) = detect_encoding b; r = drop bom b in
      case codec of
        UTF8 \<Rightarrow> utf8_pass r
      | UTF16 be \<Rightarrow> map_option join_surrogates (units16 be r)
      | UTF32 be \<Rightarrow> utf32_pass be r)"

definition loads_bytes :: "lib \<Rightarrow> bytes \<Rightarrow> json option" where
  "loads_bytes L raw = (case decode_detected raw of None \<Rightarrow> None | Some s \<Rightarrow> json_loads L default_hook s)"

section \<open>Characters\<close>

lemma read_hex4_hex4:
  assumes "c < 65536"
  shows "read_hex4 (hex4 c @ r) = Some (c, r)"
proof -
  have d: "c div 256 = c div 16 div 16" "c div 4096 = c div 16 div 16 div 16" by (simp_all add: div_mult2_eq [symmetric])
  have "c div 16 div 16 div 16 < 16" using assms by (simp add: div_mult2_eq [symmetric] less_mult_imp_div_less)
  then have "((c div 4096 mod 16 * 16 + c div 256 mod 16) * 16 + c div 16 mod 16) * 16 + c mod 16 = c"
    unfolding d by (simp only: mod_less div_mult_mod_eq)
  moreover have digits: "read_hex4 ([hex_digit x, hex_digit y, hex_digit z, hex_digit w] @ r) = Some (((x * 16 + y) * 16 + z) * 16 + w, r)"
    if "x < 16" "y < 16" "z < 16" "w < 16" for x y z w
    using that by (simp add: unhex_hex_digit)
  have "read_hex4 (hex4 c @ r) = Some (((c div 4096 mod 16 * 16 + c div 256 mod 16) * 16 + c div 16 mod 16) * 16 + c mod 16, r)"
    unfolding hex4_def by (rule digits) simp_all
  ultimately show ?thesis by (simp only:)
qed

lemma scan_step_dump:
  assumes "encodable c"
  shows "scan_step (dump_char c @ r) = Some (Some c, r)"
proof (cases "SHORT_ESCAPES c")
  case None
  then have n: "c \<noteq> 34" "c \<noteq> 92" by (auto simp: SHORT_ESCAPES_def split: if_splits)
  show ?thesis
  proof (cases "c < 65536")
    case True
    have "\<not> (55296 \<le> c \<and> c \<le> 56319)" using assms by (auto simp: encodable_def is_surrogate_def)
    with True n None show ?thesis
      by (auto simp: dump_char_def escape_unit_def scan_step_def read_escape_def read_escape_u_def read_hex4_hex4)
  next
    case False
    define h l where "h = (c - 65536) div 1024" and "l = (c - 65536) mod 1024"
    have "c - 65536 < 1024 * 1024" using assms False unfolding encodable_def by linarith
    then have h: "h < 1024" unfolding h_def by (rule less_mult_imp_div_less)
    have l: "l < 1024" and c: "65536 + h * 1024 + l = c" using False by (simp_all add: h_def l_def)
    have "dump_char c = escape_unit (55296 + h) @ escape_unit (56320 + l)"
      using None False h by (simp add: dump_char_def h_def l_def)
    then show ?thesis using h l c
      by (simp add: escape_unit_def scan_step_def read_escape_def read_escape_u_def read_hex4_hex4)
  qed
next
  case (Some e)
  then show ?thesis
    by (auto simp: dump_char_def scan_step_def read_escape_def SHORT_ESCAPES_def UNESCAPES_def split: if_splits)
qed

lemma scan_chars_dump: "list_all encodable t \<Longrightarrow> scan_chars (concat (map dump_char t) @ 34 # r) = Some (t, r)"
proof (induction t)
  case Nil
  show ?case by (simp add: scan_chars.simps scan_step_def)
next
  case (Cons c t)
  then show ?case by (simp add: scan_chars.simps [of "dump_char c @ _"] scan_step_dump)
qed

text \<open>The output is printable ASCII.\<close>

definition printable :: "nat \<Rightarrow> bool" where
  "printable c \<longleftrightarrow> 32 \<le> c \<and> c \<le> 126"

lemma hex_digit_printable: "n < 16 \<Longrightarrow> printable (hex_digit n)"
  by (simp add: hex_digit_def printable_def)

lemma dump_char_printable: "list_all printable (dump_char c)"
proof (cases "SHORT_ESCAPES c")
  case None
  then show ?thesis
    by (auto simp: dump_char_def escape_unit_def hex4_def hex_digit_printable printable_def [of c])
       (simp_all add: printable_def)
next
  case (Some e)
  then show ?thesis by (auto simp: dump_char_def SHORT_ESCAPES_def printable_def split: if_splits)
qed

section \<open>Reading back\<close>

definition reads_as :: "lib \<Rightarrow> pairs_hook \<Rightarrow> ustr \<Rightarrow> json \<Rightarrow> bool" where
  "reads_as L hook t v \<longleftrightarrow> t \<noteq> [] \<and> \<not> json_ws (hd t) \<and> hd t \<noteq> 93 \<and>
     (\<forall>n r. 2 * length t \<le> n \<longrightarrow> delim r \<longrightarrow> parse_value L hook n (t @ r) = Some (v, r))"

lemma reads_asD:
  "reads_as L hook t v \<Longrightarrow> 2 * length t \<le> n \<Longrightarrow> delim r \<Longrightarrow> parse_value L hook n (t @ r) = Some (v, r)"
  by (simp add: reads_as_def)

lemma reads_render: "reads L hook v \<Longrightarrow> reads_as L hook (render v) v"
  by (simp add: reads_def reads_as_def)

text \<open>The layouts differ in the white space after a comma and before a closing bracket.\<close>

abbreviation blank :: "ustr \<Rightarrow> bool" where
  "blank w \<equiv> list_all json_ws w"

lemma skip_blank: "blank w \<Longrightarrow> skip_ws (w @ s) = skip_ws s"
  by (induction w) (simp_all add: skip_ws_def)

lemma skip_space [simp]: "skip_ws (32 # s) = skip_ws s"
  by (simp add: skip_ws_def json_ws_def)

lemma delim_blank: "blank e \<Longrightarrow> c \<in> {44, 93, 125} \<Longrightarrow> delim (e @ c # r)"
  by (cases e) (auto simp: json_ws_def)

lemma elements_dump:
  assumes "list_all2 (reads_as L hook) ts vs" and "ts \<noteq> []" and "blank w" and "blank e" and "2 * length (join (44 # w) ts) < n"
  shows "parse_elements L hook n (join (44 # w) ts @ e @ 93 # r) = Some (vs, r)"
  using assms
proof (induction ts vs arbitrary: n rule: list_all2_induct)
  case (Cons t ts v vs)
  then obtain m where n: "n = Suc m" by (cases n) auto
  show ?case
  proof (cases ts)
    case Nil
    with Cons n reads_asD [of L hook t v m "e @ 93 # r"] delim_blank [of e 93 r] show ?thesis
      by (simp add: skip_blank json_ws_punct del: parse_value.simps)
  next
    case ts: (Cons u us)
    let ?rest = "join (44 # w) ts @ e @ 93 # r"
    have v: "parse_value L hook m (t @ 44 # w @ ?rest) = Some (v, 44 # w @ ?rest)"
      using Cons n ts by (intro reads_asD) simp_all
    have "reads_as L hook u (hd vs)" using Cons.hyps(2) ts by (auto simp: list_all2_Cons1)
    then have "skip_ws ?rest = ?rest" using ts by (intro skip_ws_other) (auto simp: reads_as_def join_Cons)
    moreover have "parse_elements L hook m ?rest = Some (vs, r)" using Cons.IH [of m] Cons.prems ts n by simp
    ultimately show ?thesis using v n ts Cons.prems(2) by (simp add: json_ws_punct join_Cons skip_blank del: parse_value.simps)
  qed
qed simp

definition reads_member :: "lib \<Rightarrow> pairs_hook \<Rightarrow> ustr \<Rightarrow> ustr \<times> json \<Rightarrow> bool" where
  "reads_member L hook x kv \<longleftrightarrow>
     list_all encodable (fst kv) \<and> (\<exists>t. x = dump_string (fst kv) @ [58, 32] @ t \<and> reads_as L hook t (snd kv))"

lemma members_dump:
  assumes "list_all2 (reads_member L hook) xs kvs" and "xs \<noteq> []" and "blank w" and "blank e" and "2 * length (join (44 # w) xs) < n"
  shows "parse_members L hook n (tl (join (44 # w) xs) @ e @ 125 # r) = Some (kvs, r)"
  using assms
proof (induction xs kvs arbitrary: n rule: list_all2_induct)
  case (Cons x xs kv kvs)
  then obtain m where n: "n = Suc m" by (cases n) auto
  obtain k v where kv: "kv = (k, v)" by force
  with Cons.hyps(1) obtain t where k: "list_all encodable k" and x: "x = dump_string k @ [58, 32] @ t" and t: "reads_as L hook t v"
    by (auto simp: reads_member_def)
  have ws: "skip_ws (t @ q) = t @ q" for q using t by (intro skip_ws_other) (auto simp: reads_as_def)
  have len: "2 * length t \<le> m" using Cons.prems n by (simp add: x join_Cons dump_string_def split: if_splits)
  have split: "tl (join (44 # w) (x # xs)) =
      concat (map dump_char k) @ 34 # 58 # 32 # t @ (if xs = [] then [] else 44 # w @ join (44 # w) xs)"
    by (simp add: join_Cons x dump_string_def)
  show ?case
  proof (cases "xs = []")
    case True
    with Cons.hyps(2) have "kvs = []" by simp
    then show ?thesis unfolding split n using True reads_asD [OF t len, of "e @ 125 # r"] delim_blank [of e 125 r] Cons.prems(3)
      by (simp add: scan_chars_dump [OF k] ws skip_blank json_ws_punct kv del: parse_value.simps)
  next
    case False
    then obtain y ys where y: "xs = y # ys" by (cases xs) auto
    define J where "J = tl (join (44 # w) xs)"
    have j: "join (44 # w) xs = 34 # J"
      using Cons.hyps(2) by (auto simp: J_def y list_all2_Cons1 reads_member_def dump_string_def join_Cons)
    have "parse_members L hook m (J @ e @ 125 # r) = Some (kvs, r)"
      unfolding J_def using Cons.IH [of m] Cons.prems False n by (simp add: join_Cons)
    moreover have "parse_value L hook m (t @ 44 # w @ 34 # J @ e @ 125 # r) = Some (v, 44 # w @ 34 # J @ e @ 125 # r)"
      by (rule reads_asD [OF t len]) simp
    ultimately show ?thesis unfolding split n using False Cons.prems(2)
      by (simp add: scan_chars_dump [OF k] ws skip_blank json_ws_punct kv j del: parse_value.simps)
  qed
qed simp

text \<open>A list and an object in any of the layouts.\<close>

lemma list_reads_as:
  assumes ts: "list_all2 (reads_as L default_hook) ts vs" and "blank b" and "blank w" and "blank e"
  shows "reads_as L default_hook ([91] @ b @ join (44 # w) ts @ e @ [93]) (JList vs)"
proof -
  have "parse_value L default_hook n (([91] @ b @ join (44 # w) ts @ e @ [93]) @ r) = Some (JList vs, r)"
    if n: "2 * length ([91] @ b @ join (44 # w) ts @ e @ [93]) \<le> n" for n r
  proof (cases "ts = []")
    case True
    with n assms show ?thesis by (cases n) (auto simp: skip_blank json_ws_punct)
  next
    case False
    from n obtain m where m: "n = Suc m" "2 * length (join (44 # w) ts) < m" by (cases n) auto
    obtain u us where u: "ts = u # us" using False by (cases ts) auto
    with ts have "u \<noteq> []" "\<not> json_ws (hd u)" "hd u \<noteq> 93" by (auto simp: reads_as_def list_all2_Cons1)
    then obtain d q where dq: "join (44 # w) ts @ e @ 93 # r = d # q" "\<not> json_ws d" "d \<noteq> 93"
      by (cases u) (auto simp: u join_Cons)
    have "parse_elements L default_hook m (d # q) = Some (vs, r)"
      using elements_dump [OF ts False assms(3,4) m(2), of r] unfolding dq(1) .
    with dq m show ?thesis by (simp add: skip_blank [OF assms(2)] skip_ws_Cons del: parse_elements.simps)
  qed
  then show ?thesis by (simp add: reads_as_def json_ws_def)
qed

lemma object_reads_as:
  assumes "list_all2 (reads_member L default_hook) xs kvs" and "dict_wf kvs" and "blank b" and "blank w" and "blank e"
  shows "reads_as L default_hook ([123] @ b @ join (44 # w) xs @ e @ [125]) (JObj kvs)"
proof -
  have h: "default_hook kvs = Some (JObj kvs)" by (rule default_hook_ok [OF assms(2)])
  have "parse_value L default_hook n (([123] @ b @ join (44 # w) xs @ e @ [125]) @ r) = Some (JObj kvs, r)"
    if n: "2 * length ([123] @ b @ join (44 # w) xs @ e @ [125]) \<le> n" for n r
  proof (cases "xs = []")
    case True
    with n h assms show ?thesis by (cases n) (auto simp: skip_blank json_ws_punct)
  next
    case False
    from n obtain m where m: "n = Suc m" "2 * length (join (44 # w) xs) < m" by (cases n) auto
    define J where "J = tl (join (44 # w) xs)"
    obtain u us where u: "xs = u # us" using False by (cases xs) auto
    have j: "join (44 # w) xs = 34 # J"
      using assms(1) by (auto simp: J_def u list_all2_Cons1 reads_member_def dump_string_def join_Cons)
    have "parse_members L default_hook m (J @ e @ 125 # r) = Some (kvs, r)"
      using members_dump [OF assms(1) False assms(4,5) m(2), of r] by (simp add: J_def)
    then show ?thesis unfolding j m(1) by (simp add: h skip_blank [OF assms(3)] json_ws_punct del: parse_members.simps)
  qed
  then show ?thesis by (simp add: reads_as_def json_ws_def)
qed

lemma traverseE_ex:
  assumes "\<And>x. x \<in> set xs \<Longrightarrow> \<exists>y. f x = Inr y \<and> P y x"
  shows "\<exists>ys. traverseE f xs = Inr ys \<and> list_all2 P ys xs"
  using assms by (induction xs) fastforce+

lemma int_str_printable: "list_all printable (int_str i)"
  using nat_str_digits [of "nat i"] nat_str_digits [of "nat (- i)"]
  by (auto simp: int_str_def is_digit_def printable_def list_all_iff)

lemma dump_string_printable: "list_all printable (dump_string s)"
  using dump_char_printable by (auto simp: dump_string_def list_all_iff printable_def)

lemma join_printable: "list_all printable sep \<Longrightarrow> list_all (list_all printable) xs \<Longrightarrow> list_all printable (join sep xs)"
  using join_set [of sep xs] by (fastforce simp: list_all_iff)

abbreviation dumps_as :: "lib \<Rightarrow> ustr \<Rightarrow> json \<Rightarrow> bool" where
  "dumps_as L t v \<equiv> reads_as L default_hook t v \<and> list_all printable t"

lemma list_dumps_as:
  assumes "list_all2 (dumps_as L) ts vs"
  shows "dumps_as L ([91] @ join [44, 32] ts @ [93]) (JList vs)"
proof
  have "list_all2 (reads_as L default_hook) ts vs" using assms by (auto elim: list_all2_mono)
  from list_reads_as [OF this, of "[]" "[32]" "[]"]
  show "reads_as L default_hook ([91] @ join [44, 32] ts @ [93]) (JList vs)" by (simp add: json_ws_def)
  have "list_all (list_all printable) ts" using assms by (auto simp: list_all2_conv_all_nth list_all_length)
  then show "list_all printable ([91] @ join [44, 32] ts @ [93])" by (simp add: join_printable) (simp add: printable_def join_printable)
qed

lemma object_dumps_as:
  assumes "list_all2 (reads_member L default_hook) xs kvs" and "dict_wf kvs" and "list_all (list_all printable) xs"
  shows "dumps_as L ([123] @ join [44, 32] xs @ [125]) (JObj kvs)"
proof
  from object_reads_as [OF assms(1,2), of "[]" "[32]" "[]"]
  show "reads_as L default_hook ([123] @ join [44, 32] xs @ [125]) (JObj kvs)" by (simp add: json_ws_def)
  show "list_all printable ([123] @ join [44, 32] xs @ [125])"
    using assms(3) by (simp add: join_printable) (simp add: printable_def join_printable)
qed

lemma json_dumps_reads: "json_ok v \<Longrightarrow> json_wf v \<Longrightarrow> \<exists>t. json_dumps L v = Inr t \<and> dumps_as L t v"
proof (induction v)
  case JNull
  have "reads_as L default_hook (render JNull) JNull" by (intro reads_render parses_back_reads) simp
  then show ?case by (simp add: printable_def str_simps)
next
  case (JBool b)
  have "reads_as L default_hook (render (JBool b)) (JBool b)" by (intro reads_render parses_back_reads) simp
  then show ?case by (simp add: printable_def str_simps)
next
  case (JInt i)
  then have s: "\<bar>i\<bar> < 10 ^ INT_MAX_STR_DIGITS" by (simp add: safe_int_small)
  then have "reads_as L default_hook (render (JInt i)) (JInt i)" by (intro reads_render parses_back_reads) simp
  with s int_str_printable show ?case by simp
next
  case (JStr s)
  have "parse_value L default_hook n (dump_string s @ r) = Some (JStr s, r)" if "2 * length (dump_string s) \<le> n" for n r
    using that JStr scan_chars_dump [of s r] by (cases n) (auto simp: dump_string_def)
  then show ?case using dump_string_printable by (simp add: reads_as_def) (simp add: dump_string_def json_ws_def)
next
  case (JList vs)
  have "\<exists>ts. traverseE (json_dumps L) vs = Inr ts \<and> list_all2 (dumps_as L) ts vs"
    by (rule traverseE_ex) (use JList in \<open>auto simp: list_all_iff\<close>)
  then show ?case using list_dumps_as [of L] by fastforce
next
  case (JObj kvs)
  let ?f = "\<lambda>kv. bindE (json_dumps L (snd kv)) (\<lambda>t. Inr (dump_string (fst kv) @ [58, 32] @ t))"
  have "\<exists>xs. traverseE ?f kvs = Inr xs \<and> list_all2 (\<lambda>x kv. reads_member L default_hook x kv \<and> list_all printable x) xs kvs"
  proof (rule traverseE_ex)
    fix kv assume kv: "kv \<in> set kvs"
    obtain k v where p: "kv = (k, v)" by force
    with kv JObj obtain t where t: "json_dumps L v = Inr t" "dumps_as L t v" and k: "list_all encodable k"
      by (fastforce simp: list_all_iff)
    have "list_all printable (dump_string k @ [58, 32] @ t)"
      using dump_string_printable t(2) by simp (simp add: printable_def)
    with t k show "\<exists>x. ?f kv = Inr x \<and> reads_member L default_hook x kv \<and> list_all printable x"
      by (auto simp: p reads_member_def)
  qed
  then obtain xs where xs: "traverseE ?f kvs = Inr xs" "list_all2 (reads_member L default_hook) xs kvs" "list_all (list_all printable) xs"
    by (fastforce simp: list_all2_conv_all_nth list_all_length)
  from object_dumps_as [OF xs(2) _ xs(3)] JObj.prems xs(1) show ?case by simp
qed simp_all

section \<open>Over the wire as bytes\<close>

lemma json_loads_reads_as:
  assumes "dumps_as L t v"
  shows "json_loads L default_hook t = Some v"
proof -
  from assms have t: "t \<noteq> []" "\<not> json_ws (hd t)" by (simp_all add: reads_as_def)
  then have "hd t \<noteq> 65279" using assms by (cases t) (auto simp: printable_def)
  moreover have "skip_ws t = t" using skip_ws_other [OF t, of "[]"] by simp
  moreover have "parse_value L default_hook (2 * length t) t = Some (v, [])"
    using assms reads_asD [of L default_hook t v "2 * length t" "[]"] by simp
  ultimately show ?thesis by (simp add: json_loads_def skip_ws_def)
qed

lemma utf8_pass_ascii: "list_all (\<lambda>c. c < 128) t \<Longrightarrow> utf8_pass t = Some t"
proof (induction t)
  case Nil
  then show ?case by (simp add: utf8_pass.simps)
next
  case (Cons c t)
  then show ?case
    by (subst utf8_pass.simps) (simp add: Let_def utf8_next_def unit_at_def utf8_units_def)
qed

lemma detect_printable: "list_all printable t \<Longrightarrow> detect_encoding t = (UTF8, 0)"
proof -
  assume p: "list_all printable t"
  then have nth: "32 \<le> t ! i \<and> t ! i \<le> 126" if "i < length t" for i using that by (simp add: list_all_length printable_def)
  have hd: "take n t \<noteq> b # bs" if "b < 32 \<or> 126 < b" for n b bs
    using that p by (cases t; cases n) (auto simp: printable_def)
  have "t ! i \<noteq> 0" if "i < 2" "2 \<le> length t" for i using nth [of i] that by auto
  then have "t ! 0 \<noteq> 0" "t ! 1 \<noteq> 0" if "2 \<le> length t" using that by simp_all
  then show ?thesis by (auto simp: detect_encoding_def hd)
qed

theorem dumped_bytes_load:
  assumes "json_ok v" and "json_wf v"
  shows "\<exists>t raw. json_dumps L v = Inr t \<and> utf8 t = Some raw \<and> length raw = length t \<and> loads_bytes L raw = Some v"
proof -
  obtain t where t: "json_dumps L v = Inr t" "dumps_as L t v" using json_dumps_reads [OF assms] by blast
  then have a: "list_all (\<lambda>c. c < 128) t" by (auto simp: list_all_iff printable_def)
  have "map unat (map of_nat t :: bytes) = t" using a by (induction t) (simp_all add: unat_of_nat)
  then have "decode_detected (map of_nat t) = Some t"
    using t(2) by (simp add: decode_detected_def Let_def detect_printable utf8_pass_ascii [OF a] del: map_map)
  with t json_loads_reads_as [OF t(2)] utf8_ascii [OF a] show ?thesis by (auto simp: loads_bytes_def)
qed

end
