(* ===== verification/Http.thy ===== *)
theory Http
  imports Client Json_Dump
begin

text \<open>
  The HTTP edges of the reference transport: the functions of \<open>transport/client.py\<close> that open a URL and
  the writer of \<open>transport/server.py\<close>. Opening a URL belongs to \<open>urllib\<close> and is a field of \<open>network\<close>: it
  answers with a status and a body to read, raises \<open>HTTPError\<close> with both, or raises otherwise. The
  scheme of a URL is computed as \<open>urlsplit\<close> does; \<open>nw_split_ok\<close> says that \<open>urlsplit\<close> does not refuse its
  network location. Client and server are composed at the end: a task that is posted as bytes
  is answered as if the message itself had been handed over.
\<close>

section \<open>Opening URLs\<close>

record http_request =
  rq_url :: ustr
  rq_body :: "bytes option"
  rq_direct :: bool

datatype http_reply = Answered int "nat \<Rightarrow> bytes res" | Http_error int "nat \<Rightarrow> bytes res" | Not_answered exn

record network =
  nw_split_ok :: "ustr \<Rightarrow> bool"
  nw_open :: "http_request \<Rightarrow> http_reply"

definition ALLOWED_SCHEMES :: "ustr list" where
  "ALLOWED_SCHEMES = [str ''http'', str ''https'']"

definition MAX_RESPONSE :: nat where
  "MAX_RESPONSE = 1048576"

definition ascii_alpha :: "nat \<Rightarrow> bool" where
  "ascii_alpha c \<longleftrightarrow> (65 \<le> c \<and> c \<le> 90) \<or> (97 \<le> c \<and> c \<le> 122)"

definition ascii_lower :: "nat \<Rightarrow> nat" where
  "ascii_lower c = (if 65 \<le> c \<and> c \<le> 90 then c + 32 else c)"

text \<open>\<open>urlparse(url).scheme\<close>: leading control characters and blanks and all tabs and newlines are dropped first.\<close>

definition url_scheme :: "ustr \<Rightarrow> ustr" where
  "url_scheme url =
     (let u = filter (\<lambda>c. c \<noteq> 9 \<and> c \<noteq> 10 \<and> c \<noteq> 13) (dropWhile (\<lambda>c. c \<le> 32) url);
          s = takeWhile (\<lambda>c. c \<noteq> 58) u in
      if 58 \<in> set u \<and> s \<noteq> [] \<and> ascii_alpha (hd s) \<and> list_all (\<lambda>c. ascii_alpha c \<or> is_digit c \<or> c = 43 \<or> c = 45 \<or> c = 46) s
      then map ascii_lower s else [])"

definition require_http_url :: "network \<Rightarrow> ustr \<Rightarrow> unit res" where
  "require_http_url N url =
     bindE (require (nw_split_ok N url) (PyExn ValueError)) (\<lambda>_.
     require (url_scheme url \<in> set ALLOWED_SCHEMES) (transport_error ''refusing to open a non-HTTP(S) URL''))"

definition read_bounded :: "(nat \<Rightarrow> bytes res) \<Rightarrow> bytes res" where
  "read_bounded resp =
     bindE (resp (MAX_RESPONSE + 1)) (\<lambda>body.
     if length body > MAX_RESPONSE then Inl (transport_error ''peer response exceeds the maximum allowed size'')
     else Inr body)"

definition loads_response :: "lib \<Rightarrow> (nat \<Rightarrow> bytes res) \<Rightarrow> json res" where
  "loads_response L resp = bindE (read_bounded resp) (\<lambda>body. expect (loads_bytes L body) (PyExn ValueError))"

definition get_json :: "lib \<Rightarrow> network \<Rightarrow> ustr \<Rightarrow> json res" where
  "get_json L N url =
     bindE (require_http_url N url) (\<lambda>_.
     case nw_open N \<lparr>rq_url = url, rq_body = None, rq_direct = False\<rparr> of
       Answered _ resp \<Rightarrow> loads_response L resp
     | Http_error _ _ \<Rightarrow> Inl (PyExn OSError)
     | Not_answered e \<Rightarrow> Inl e)"

text \<open>\<open>json.dumps(body).encode("utf-8")\<close>.\<close>

definition json_bytes :: "lib \<Rightarrow> jdict \<Rightarrow> bytes res" where
  "json_bytes L body = bindE (json_dumps L (JObj body)) (\<lambda>t. expect (utf8 t) (PyExn UnicodeEncodeError))"

definition post_json :: "lib \<Rightarrow> network \<Rightarrow> ustr \<Rightarrow> jdict \<Rightarrow> (int \<times> json) res" where
  "post_json L N url body =
     bindE (require_http_url N url) (\<lambda>_.
     bindE (json_bytes L body) (\<lambda>data.
     case nw_open N \<lparr>rq_url = url, rq_body = Some data, rq_direct = False\<rparr> of
       Answered status resp \<Rightarrow> bindE (loads_response L resp) (\<lambda>v. Inr (status, v))
     | Http_error code resp \<Rightarrow> bindE (loads_response L resp) (\<lambda>v. Inr (code, v))
     | Not_answered e \<Rightarrow> Inl e))"

text \<open>No proxy and no redirect: a redirect is an error status like any other.\<close>

definition post_authenticated :: "network \<Rightarrow> ustr \<Rightarrow> bytes \<Rightarrow> (int \<times> bytes) res" where
  "post_authenticated N url raw =
     bindE (require_http_url N url) (\<lambda>_.
     case nw_open N \<lparr>rq_url = url, rq_body = Some raw, rq_direct = True\<rparr> of
       Answered status resp \<Rightarrow> bindE (read_bounded resp) (\<lambda>b. Inr (status, b))
     | Http_error code resp \<Rightarrow> bindE (read_bounded resp) (\<lambda>b. Inr (code, b))
     | Not_answered e \<Rightarrow> Inl e)"

text \<open>The caller with its network: the three addresses below the peer's base URL.\<close>

definition send_task_to :: "lib \<Rightarrow> network \<Rightarrow> ustr \<Rightarrow> task_args \<Rightarrow> task_random \<Rightarrow> client_exn + jdict" where
  "send_task_to L N base_url a rnd =
     send_task L a rnd
       (\<lambda>nonce. get_json L N (base_url @ CHANNEL_PATH @ str ''?nonce='' @ nonce))
       (post_json L N (base_url @ TASK_PATH))
       (post_authenticated N (base_url @ AUTHENTICATED_TASK_PATH))"

section \<open>The server's side\<close>

definition send_json :: "lib \<Rightarrow> int \<times> jdict \<Rightarrow> (int \<times> bytes) res" where
  "send_json L r = bindE (json_bytes L (snd r)) (\<lambda>data. Inr (fst r, data))"

text \<open>A whole POST: the length that the client announces is that of the body it sends.\<close>

definition serve_post :: "lib \<Rightarrow> peer_node \<Rightarrow> call_env \<Rightarrow> ustr \<Rightarrow> bytes \<Rightarrow> (int \<times> bytes) res" where
  "serve_post L node env path raw =
     bindE (do_POST L (loads_bytes L) node env path (nat_str (length raw)) (\<lambda>n. Some (take (nat n) raw))) (send_json L)"

definition serve_get :: "lib \<Rightarrow> peer_node \<Rightarrow> call_env \<Rightarrow> ustr \<Rightarrow> ustr list \<Rightarrow> (int \<times> bytes) res" where
  "serve_get L node env path nonces = bindE (do_GET node env path nonces) (send_json L)"

text \<open>The network between a caller and one node: what is not a success status arrives as \<open>HTTPError\<close>.\<close>

definition reply_of :: "(int \<times> bytes) res \<Rightarrow> http_reply" where
  "reply_of r =
     (case r of
        Inl _ \<Rightarrow> Not_answered (PyExn OSError)
      | Inr (status, data) \<Rightarrow>
          (if 200 \<le> status \<and> status < 300 then Answered else Http_error) status (\<lambda>n. Inr (take n data)))"

definition node_network :: "lib \<Rightarrow> peer_node \<Rightarrow> call_env \<Rightarrow> ustr \<Rightarrow> network" where
  "node_network L node env base_url =
     \<lparr>nw_split_ok = (\<lambda>_. True),
      nw_open = (\<lambda>rq.
        let target = drop (length base_url) (rq_url rq); path = takeWhile (\<lambda>c. c \<noteq> 63) target in
        reply_of (case rq_body rq of
            Some raw \<Rightarrow> serve_post L node env path raw
          | None \<Rightarrow> serve_get L node env path [drop (length path + length (str ''?nonce='')) target]))\<rparr>"

section \<open>Composition\<close>

definition http_base :: "ustr \<Rightarrow> bool" where
  "http_base base_url \<longleftrightarrow> (\<forall>p. url_scheme (base_url @ p) \<in> set ALLOWED_SCHEMES)"

lemma http_base_http: "http_base (str ''http://'' @ host)"
proof -
  have "url_scheme (str ''http:'' @ r) = str ''http''" for r
    by (simp add: url_scheme_def str_simps Let_def ascii_alpha_def ascii_lower_def)
  from this [of "str ''//'' @ host @ _"] show ?thesis
    by (simp add: http_base_def ALLOWED_SCHEMES_def str_simps)
qed

text \<open>What the task endpoint answers to a message, as status and body.\<close>

definition task_answer :: "lib \<Rightarrow> peer_node \<Rightarrow> call_env \<Rightarrow> jdict \<Rightarrow> (int \<times> jdict) res" where
  "task_answer L node env message =
     (case node_handle L node env message of
        Inl e \<Rightarrow> error_response env e
      | Inr result \<Rightarrow> bindE (serialize_peer_result result) (\<lambda>body. Inr (200, body)))"

lemma json_bytes_load:
  assumes "json_ok (JObj d)" and "json_wf (JObj d)" and "json_bytes L d = Inr raw"
  shows "loads_bytes L raw = Some (JObj d) \<and> raw \<noteq> []"
proof -
  obtain t raw' where t: "json_dumps L (JObj d) = Inr t" "utf8 t = Some raw'" "length raw' = length t" "loads_bytes L raw' = Some (JObj d)"
    using dumped_bytes_load [OF assms(1,2), of L] by blast
  then have "raw' = raw" using assms(3) by (simp add: json_bytes_def del: json_dumps.simps)
  moreover have "t \<noteq> []" using t(1) by (auto simp: guard_simps)
  ultimately show ?thesis using t by auto
qed

lemma read_whole:
  assumes "length raw \<le> MAX_RESPONSE"
  shows "read_bounded (\<lambda>n. Inr (take n raw)) = Inr raw"
  using assms by (simp add: read_bounded_def)

lemma reply_loads:
  assumes "json_ok (JObj body)" and "json_wf (JObj body)" and "json_bytes L body = Inr out" and "length out \<le> MAX_RESPONSE"
  shows "loads_response L (\<lambda>n. Inr (take n out)) = Inr (JObj body)"
  using assms json_bytes_load [OF assms(1-3)] by (simp add: loads_response_def read_whole)

lemma content_length:
  assumes "raw \<noteq> []" and "int (length raw) \<le> MAX_BODY"
  shows "py_int L (nat_str (length raw)) = Some (int (length raw))" and "list_all is_digit (nat_str (length raw))"
    and "nat_str (length raw) \<noteq> []"
proof -
  have "int (length raw) \<le> 10 ^ 7" using assms(2) by (simp add: MAX_BODY_def)
  also have "(10 :: int) ^ 7 < 10 ^ INT_MAX_STR_DIGITS" by (rule power_strict_increasing) (simp_all add: INT_MAX_STR_DIGITS_def)
  finally have "\<bar>int (length raw)\<bar> < 10 ^ INT_MAX_STR_DIGITS" by simp
  from py_int_int_str [OF this] show "py_int L (nat_str (length raw)) = Some (int (length raw))" by (simp add: int_str_def)
  show "list_all is_digit (nat_str (length raw))" using nat_str_digits by (auto simp: list_all_iff)
qed (rule nat_str_nonempty)

lemma serve_post_task:
  assumes "json_ok (JObj m)" and "json_wf (JObj m)" and "json_bytes L m = Inr data" and "int (length data) \<le> MAX_BODY"
  shows "serve_post L node env TASK_PATH data = bindE (task_answer L node env m) (send_json L)"
proof -
  have l: "loads_bytes L data = Some (JObj m)" and ne: "data \<noteq> []" using json_bytes_load [OF assms(1-3)] by simp_all
  note len = content_length [OF ne assms(4)]
  have "TASK_PATH \<noteq> AUTHENTICATED_TASK_PATH" by (simp add: TASK_PATH_def AUTHENTICATED_TASK_PATH_def)
  then show ?thesis
    using len ne assms(4) l by (simp add: serve_post_def do_POST_def read_message_def task_answer_def)
qed

lemma task_target: "takeWhile (\<lambda>c. c \<noteq> 63) TASK_PATH = TASK_PATH"
  by (simp add: TASK_PATH_def str_simps)

lemma channel_target: "takeWhile (\<lambda>c. c \<noteq> 63) (CHANNEL_PATH @ str ''?nonce='' @ n) = CHANNEL_PATH"
  by (simp add: CHANNEL_PATH_def str_simps)

section \<open>Properties\<close>

text \<open>
  C22: The HTTP edge is transparent. A message that a caller posts as JSON text to a node reaches the node's
  pipeline unchanged, whatever its strings hold short of lone surrogates, and the status and body that
  the node answers reach the caller unchanged, as long as both texts are within the two size
  limits.
\<close>

theorem http_post_transparent:
  assumes "http_base base_url" and "json_ok (JObj m)" and "json_wf (JObj m)" and "json_bytes L m = Inr data"
    and "int (length data) \<le> MAX_BODY" and "task_answer L node env m = Inr (status, body)"
    and "json_ok (JObj body)" and "json_wf (JObj body)" and "json_bytes L body = Inr out" and "length out \<le> MAX_RESPONSE"
  shows "post_json L (node_network L node env base_url) (base_url @ TASK_PATH) m = Inr (status, JObj body)"
proof -
  have "nw_open (node_network L node env base_url) \<lparr>rq_url = base_url @ TASK_PATH, rq_body = Some data, rq_direct = False\<rparr> =
      reply_of (Inr (status, out))"
    using serve_post_task [OF assms(2-5), of node env] assms(6,9)
    by (simp add: node_network_def Let_def task_target send_json_def)
  moreover have "require_http_url (node_network L node env base_url) (base_url @ TASK_PATH) = Inr ()"
    using assms(1) by (simp add: require_http_url_def node_network_def http_base_def)
  ultimately show ?thesis using reply_loads [OF assms(7-10)] by (simp add: post_json_def assms(4) reply_of_def)
qed

lemma dump_char_length: "length (dump_char c) \<le> 12"
  by (simp add: dump_char_def escape_unit_def hex4_def split: option.split)

lemma dump_string_length: "length (dump_string s) \<le> 12 * length s + 2"
proof -
  have "length (concat (map dump_char s)) \<le> 12 * length s"
  proof (induction s)
    case (Cons c s)
    then show ?case using dump_char_length [of c] by simp
  qed simp
  then show ?thesis by (simp add: dump_string_def)
qed

lemma sample_refusal:
  "\<exists>body out. task_answer sample_lib sample_node sample_env [] = Inr (400, body) \<and> json_ok (JObj body) \<and> json_wf (JObj body) \<and>
     json_bytes sample_lib body = Inr out \<and> length out \<le> MAX_RESPONSE"
proof -
  let ?m = "str ''message carries no cA2A extension metadata''"
  let ?b = "serialize_error TransportError ?m JNull"
  have a: "task_answer sample_lib sample_node sample_env [] = Inr (400, ?b)"
    by (simp add: task_answer_def node_handle_def parse_peer_request_def collect_metadata_def add_metadata_def dict_get_none_def
        has_ca2a_metadata_def error_response_def sample_env_def)
  have ok: "json_ok (JObj ?b)" "json_wf (JObj ?b)" by (simp_all add: serialize_error_def MAX_SAFE_INTEGER_def)
  obtain t raw where t: "json_dumps sample_lib (JObj ?b) = Inr t" "utf8 t = Some raw" "length raw = length t"
    using dumped_bytes_load [OF ok] by blast
  have digits: "int_str 400 = [52, 48, 48]" by (simp add: int_str_def nat_str.simps)
  have limit: "\<bar>400 :: int\<bar> < 10 ^ INT_MAX_STR_DIGITS"
    by (rule less_le_trans [of _ "10 ^ 3"], simp, rule power_increasing) (simp_all add: INT_MAX_STR_DIGITS_def)
  have "length t \<le> 2000"
    using t(1) limit dump_string_length [of ?m] dump_string_length [of "str ''TRANSPORT_ERROR''"] dump_string_length [of "str ''error''"]
      dump_string_length [of "str ''code''"] dump_string_length [of "str ''message''"] dump_string_length [of "str ''detail''"]
      dump_string_length [of "str ''http_status''"]
    by (auto simp: serialize_error_def digits)
  then have "length raw \<le> MAX_RESPONSE" using t(3) by (simp add: MAX_RESPONSE_def)
  moreover have "json_bytes sample_lib ?b = Inr raw" using t by (simp add: json_bytes_def del: json_dumps.simps)
  ultimately show ?thesis using a ok by blast
qed

theorem http_post_transparent_witness:
  "\<exists>body. post_json sample_lib (node_network sample_lib sample_node sample_env (str ''http://h'')) (str ''http://h'' @ TASK_PATH) [] =
     Inr (400, JObj body)"
proof -
  obtain body out where b: "task_answer sample_lib sample_node sample_env [] = Inr (400, body)" "json_ok (JObj body)" "json_wf (JObj body)"
    "json_bytes sample_lib body = Inr out" "length out \<le> MAX_RESPONSE" using sample_refusal by blast
  have "str ''http://h'' = str ''http://'' @ str ''h''" by (simp add: str_simps)
  then have base: "http_base (str ''http://h'')" using http_base_http [of "str ''h''"] by simp
  have "list_all (\<lambda>c. c < 128) [123 :: nat, 125]" by simp
  from utf8_ascii [OF this] have "json_bytes sample_lib [] = Inr [123, 125]" by (simp add: json_bytes_def)
  from http_post_transparent [OF base _ _ this _ b] show ?thesis by (simp add: MAX_BODY_def)
qed

section \<open>Confinement\<close>

text \<open>No more than the size limit is taken in, and only from an HTTP address.\<close>

lemma authenticated_body_bounded:
  assumes "post_authenticated N url raw = Inr (status, body)"
  shows "length body \<le> MAX_RESPONSE \<and> url_scheme url \<in> set ALLOWED_SCHEMES"
  using assms by (auto simp: post_authenticated_def read_bounded_def require_http_url_def guard_simps split: http_reply.splits if_splits)

text \<open>For another scheme nothing is opened: the result does not depend on what opening would give.\<close>

lemma other_scheme_not_opened:
  assumes "url_scheme url \<notin> set ALLOWED_SCHEMES" and "nw_split_ok N' = nw_split_ok N"
  shows "get_json L N' url = get_json L N url \<and> post_json L N' url m = post_json L N url m \<and>
    post_authenticated N' url raw = post_authenticated N url raw"
  using assms by (auto simp: get_json_def post_json_def post_authenticated_def require_http_url_def require_def)

text \<open>The handshake endpoint over HTTP gives what the caller's model of it gives.\<close>

lemma http_get_transparent:
  assumes "http_base base_url" and "do_GET node env CHANNEL_PATH [nonce] = Inr (status, body)" and "json_ok (JObj body)"
    and "json_wf (JObj body)" and "json_bytes L body = Inr out" and "length out \<le> MAX_RESPONSE" and "status = 200 \<or> 300 \<le> status"
  shows "get_json L (node_network L node env base_url) (base_url @ CHANNEL_PATH @ str ''?nonce='' @ nonce) = node_get node env nonce"
proof -
  have "nw_open (node_network L node env base_url) \<lparr>rq_url = base_url @ CHANNEL_PATH @ str ''?nonce='' @ nonce, rq_body = None, rq_direct = False\<rparr> =
      reply_of (Inr (status, out))"
    using assms(2,5) by (simp add: node_network_def Let_def channel_target serve_get_def send_json_def)
  moreover have "require_http_url (node_network L node env base_url) (base_url @ q) = Inr ()" for q
    using assms(1) by (simp add: require_http_url_def node_network_def http_base_def)
  ultimately show ?thesis using reply_loads [OF assms(3-6)] assms(2,7)
    by (auto simp: get_json_def reply_of_def node_get_def)
qed

end
