(* ===== verification/Acceptance.thy ===== *)
theory Acceptance
  imports Bootstrap Client
begin

text \<open>
  The hardware acceptance run, \<open>ca2a_runtime/hardware_acceptance.py\<close>: the receipt log with its spans, the
  observed provider, verifier and node, and the two modes of a run. An action extends the log and may
  raise; the entries it wrote stay when it does. Clock texts, elapsed times, operation ids and whether
  the receipt file takes a line are functions of a counter in \<open>receipt_log\<close>. The node's pipeline, its
  server loop and \<open>client.send_task\<close>, which run the observed provider and verifier in turn, are actions
  passed as arguments. The lemmas show that the log is well nested, that observation changes no
  verdict, and when a run exits with 0.
\<close>

section \<open>Receipts\<close>

record receipt_env =
  re_run_id :: ustr
  re_time :: "nat \<Rightarrow> ustr"
  re_elapsed :: "nat \<Rightarrow> nat \<Rightarrow> rat"
  re_token :: "nat \<Rightarrow> ustr"
  re_writable :: "nat \<Rightarrow> bool"
  re_type_name :: "client_exn \<Rightarrow> ustr"

record receipt_log =
  rl_entries :: "jdict list"
  rl_step :: nat

type_synonym 'a action = "receipt_log \<Rightarrow> receipt_log \<times> (client_exn + 'a)"

definition lift_res :: "'a res \<Rightarrow> 'a action" where
  "lift_res m lg = (lg, local_exn m)"

definition bindA :: "'a action \<Rightarrow> ('a \<Rightarrow> 'b action) \<Rightarrow> 'b action" where
  "bindA m f lg = (case m lg of (lg', Inl e) \<Rightarrow> (lg', Inl e) | (lg', Inr x) \<Rightarrow> f x lg')"

text \<open>\<open>except P as exc: h; raise\<close>: the handler may raise itself, otherwise the exception goes on.\<close>

definition re_raise :: "'a action \<Rightarrow> (client_exn \<Rightarrow> bool) \<Rightarrow> (client_exn \<Rightarrow> unit action) \<Rightarrow> 'a action" where
  "re_raise m caught h lg =
     (case m lg of
        (lg', Inl e) \<Rightarrow> if caught e then bindA (h e) (\<lambda>_ lg. (lg, Inl e)) lg' else (lg', Inl e)
      | r \<Rightarrow> r)"

definition receipt_entry :: "receipt_env \<Rightarrow> nat \<Rightarrow> string \<Rightarrow> jdict \<Rightarrow> jdict" where
  "receipt_entry env n event values =
     dict_update
       [(str ''schema'', JStr (str ''ca2a-mutual-hardware-observation-v1'')), (str ''run_id'', JStr (re_run_id env)),
        (str ''time'', JStr (re_time env n)), (str ''event'', JStr (str event)),
        (str ''evidence_scope'', JStr (str ''local observation; unsigned''))] values"

definition write_receipt :: "receipt_env \<Rightarrow> string \<Rightarrow> jdict \<Rightarrow> unit action" where
  "write_receipt env event values lg =
     (let n = rl_step lg; lg' = lg\<lparr>rl_step := Suc n\<rparr> in
      if re_writable env n then (lg'\<lparr>rl_entries := rl_entries lg @ [receipt_entry env n event values]\<rparr>, Inr ())
      else (lg', Inl (Raised (PyExn OSError))))"

text \<open>\<open>time.monotonic()\<close> as the step it is read at; \<open>secrets.token_hex(8)\<close>.\<close>

definition read_clock :: "nat action" where
  "read_clock lg = (lg\<lparr>rl_step := Suc (rl_step lg)\<rparr>, Inr (rl_step lg))"

definition token_hex :: "receipt_env \<Rightarrow> ustr action" where
  "token_hex env lg = (lg\<lparr>rl_step := Suc (rl_step lg)\<rparr>, Inr (re_token env (rl_step lg)))"

text \<open>The fields of the three entries of a span.\<close>

definition span_started :: "string \<Rightarrow> jdict \<Rightarrow> jdict" where
  "span_started stage values = (str ''stage'', JStr (str stage)) # values"

definition span_failed :: "receipt_env \<Rightarrow> string \<Rightarrow> rat \<Rightarrow> client_exn \<Rightarrow> jdict \<Rightarrow> jdict" where
  "span_failed env stage elapsed exc values =
     [(str ''stage'', JStr (str stage)), (str ''elapsed_seconds'', JFloat (Some elapsed)),
      (str ''error_type'', JStr (re_type_name env exc))] @ values"

definition span_completed :: "string \<Rightarrow> rat \<Rightarrow> jdict \<Rightarrow> jdict" where
  "span_completed stage elapsed values =
     [(str ''stage'', JStr (str stage)), (str ''elapsed_seconds'', JFloat (Some elapsed))] @ values"

definition span :: "receipt_env \<Rightarrow> string \<Rightarrow> jdict \<Rightarrow> 'a action \<Rightarrow> 'a action" where
  "span env stage values body =
     bindA read_clock (\<lambda>started.
     bindA (token_hex env) (\<lambda>operation_id.
     let values = dict_set (str ''operation_id'') (JStr operation_id) values in
     bindA (write_receipt env ''operation_started'' (span_started stage values)) (\<lambda>_.
     bindA (re_raise body (\<lambda>_. True) (\<lambda>exc.
        bindA read_clock (\<lambda>now. write_receipt env ''operation_failed''
          (span_failed env stage (re_elapsed env started now) exc values)))) (\<lambda>result.
     bindA read_clock (\<lambda>now.
     bindA (write_receipt env ''operation_completed'' (span_completed stage (re_elapsed env started now) values)) (\<lambda>_.
     lift_res (Inr result)))))))"

section \<open>The observed provider\<close>

definition nonce_hash :: "ustr \<Rightarrow> ustr res" where
  "nonce_hash nonce = bindE (encode nonce) (\<lambda>b. Inr (sha256_hex b))"

definition observed_attest :: "receipt_env \<Rightarrow> attest_fn \<Rightarrow> ustr \<Rightarrow> ustr \<Rightarrow> ustr \<Rightarrow> attestation_report action" where
  "observed_attest env inner public_key nonce role =
     bindA (lift_res (nonce_hash nonce)) (\<lambda>h.
     span env ''local_quote_collection'' [(str ''nonce_sha256'', JStr h)]
       (lift_res (if role = ROLE_CALLEE then inner public_key nonce ROLE_CALLEE else inner public_key nonce role)))"

definition real_provider :: "lib \<Rightarrow> ('c, 'k) host \<Rightarrow> attest_fn res" where
  "real_provider L h =
     bindE (require (snp_detect (ho_tsm h) (ho_sev_device h))
       (Ca2a AttestationUnsupported (str ''acceptance run requires a real non-paravisor SNP guest'') None)) (\<lambda>_.
     Inr (snp_attest L (ho_snp_lib h) (ho_tsm h) (ho_sev_device h)))"

section \<open>The pinned verifier\<close>

text \<open>\<open>(base / config[k]).read_bytes()\<close> and \<open>read_text\<close>.\<close>

definition read_under :: "(ustr \<Rightarrow> file_read) \<Rightarrow> ustr \<Rightarrow> jdict \<Rightarrow> string \<Rightarrow> bytes res" where
  "read_under fs base config k =
     bindE (dict_item config (str k)) (\<lambda>v.
     bindE (expect (as_str v) (PyExn TypeError)) (\<lambda>p.
     case fs (resolve (Some base) p) of Contents raw \<Rightarrow> Inr raw | _ \<Rightarrow> Inl (PyExn OSError)))"

definition decode_text :: "bytes \<Rightarrow> ustr res" where
  "decode_text raw = bindE (expect (utf8_decode raw) (PyExn ValueError)) (\<lambda>t. Inr (universal_newlines t))"

fun as_bool :: "json \<Rightarrow> bool option" where
  "as_bool (JBool b) = Some b"
| "as_bool _ = None"

definition platform_fields :: "json \<Rightarrow> ustr list res" where
  "platform_fields v = expect (case as_list v of None \<Rightarrow> None | Some vs \<Rightarrow> those (map as_str vs)) (PyExn ValueError)"

text \<open>Everything an appraisal needs comes from the configuration and nothing from the peer.\<close>

definition read_pins :: "('c, 'k) x509_ops \<Rightarrow> (ustr \<Rightarrow> file_read) \<Rightarrow> ustr \<Rightarrow> jdict \<Rightarrow> 'c snp_requirements res" where
  "read_pins X fs base config =
     bindE (read_under fs base config ''trusted_roots'') (\<lambda>raw.
     bindE (expect (xo_load_pem X raw) (PyExn ValueError)) (\<lambda>roots.
     bindE (read_under fs base config ''vcek_chain'') (\<lambda>raw.
     bindE (expect (xo_load_pem X raw) (PyExn ValueError)) (\<lambda>chain.
     bindE (require (roots \<noteq> [] \<and> chain \<noteq> []) (PyExn ValueError)) (\<lambda>_.
     bindE (dict_item config (str ''require_platform'')) (\<lambda>required.
     bindE (dict_item config (str ''forbid_platform'')) (\<lambda>forbidden.
     bindE (platform_fields required) (\<lambda>required.
     bindE (platform_fields forbidden) (\<lambda>forbidden.
     bindE (dict_item config (str ''reject_unrecognized_platform_bits'')) (\<lambda>v.
     bindE (expect (as_bool v) (PyExn ValueError)) (\<lambda>reject_unknown.
     bindE (dict_item config (str ''expected_measurement'')) (\<lambda>v.
     bindE (expect (as_str v) (PyExn TypeError)) (\<lambda>m.
     bindE (expect (fromhex m) (PyExn ValueError)) (\<lambda>measurement.
     bindE (dict_item config (str ''min_guest_svn'')) (\<lambda>v.
     bindE (expect (as_int v) (PyExn ValueError)) (\<lambda>svn.
     Inr \<lparr>sq_trusted_roots = roots, sq_vcek_chain = chain, sq_measurement = measurement, sq_min_guest_svn = svn,
       sq_require = set required, sq_forbid = set forbidden, sq_reject_unrecognized = reject_unknown\<rparr>))))))))))))))))"

definition policy_entry :: "('c \<Rightarrow> bytes) \<Rightarrow> jdict \<Rightarrow> 'c snp_requirements \<Rightarrow> jdict" where
  "policy_entry fingerprint config pins =
     [(str ''expected_measurement'', dict_get_none config (str ''expected_measurement'')),
      (str ''min_guest_svn'', dict_get_none config (str ''min_guest_svn'')),
      (str ''debug_allowed'', JBool False), (str ''required_vmpl'', JInt 0),
      (str ''root_sha256'', JList (map (\<lambda>root. JStr (hex (fingerprint root))) (sq_trusted_roots pins))),
      (str ''require_platform'', dict_get_none config (str ''require_platform'')),
      (str ''forbid_platform'', dict_get_none config (str ''forbid_platform'')),
      (str ''reject_unrecognized_platform_bits'', dict_get_none config (str ''reject_unrecognized_platform_bits''))]"

text \<open>The verifier that \<open>recorded\<close> wraps, after the policy is on the log; \<open>fingerprint\<close> is SHA-256 of a certificate.\<close>

definition build_verifier ::
  "snp_lib \<Rightarrow> ('c, 'k) x509_ops \<Rightarrow> ('c \<Rightarrow> bytes) \<Rightarrow> (ustr \<Rightarrow> file_read) \<Rightarrow> receipt_env \<Rightarrow> ustr \<Rightarrow> json \<Rightarrow> verifier action" where
  "build_verifier S X fingerprint fs env base config =
     bindA (lift_res (expect (as_obj config) (PyExn TypeError))) (\<lambda>config.
     bindA (lift_res (read_pins X fs base config)) (\<lambda>pins.
     bindA (lift_res (sev_snp_verifier S X pins)) (\<lambda>verify.
     bindA (write_receipt env ''verification_policy'' (policy_entry fingerprint config pins)) (\<lambda>_.
     lift_res (Inr verify)))))"

definition is_attestation_failed :: "client_exn \<Rightarrow> bool" where
  "is_attestation_failed e = (case e of Raised x \<Rightarrow> is_class AttestationFailed x | _ \<Rightarrow> False)"

definition appraisal_entry :: "attestation_report \<Rightarrow> ustr \<Rightarrow> ustr \<Rightarrow> jdict res" where
  "appraisal_entry report nonce measurement =
     bindE (encode (ar_public_key report)) (\<lambda>key.
     bindE (encode nonce) (\<lambda>n.
     Inr [(str ''accepted'', JBool True), (str ''measurement'', JStr measurement),
       (str ''report_sha256'', JStr (sha256_hex (case ar_raw_evidence report of Some b \<Rightarrow> b | None \<Rightarrow> []))),
       (str ''channel_key_sha256'', JStr (sha256_hex key)), (str ''nonce_sha256'', JStr (sha256_hex n))]))"

definition recorded :: "receipt_env \<Rightarrow> verifier \<Rightarrow> attestation_report \<Rightarrow> ustr \<Rightarrow> ustr action" where
  "recorded env verify report nonce =
     bindA (re_raise
       (bindA (lift_res (nonce_hash nonce)) (\<lambda>h.
        span env ''peer_quote_verification'' [(str ''nonce_sha256'', JStr h)] (lift_res (verify report nonce))))
       is_attestation_failed
       (\<lambda>_. write_receipt env ''peer_appraisal'' [(str ''accepted'', JBool False)])) (\<lambda>measurement.
     bindA (lift_res (appraisal_entry report nonce measurement)) (\<lambda>values.
     bindA (write_receipt env ''peer_appraisal'' values) (\<lambda>_.
     lift_res (Inr measurement))))"

section \<open>The observed node\<close>

text \<open>\<open>super().offer(nonce)\<close> is \<open>attest_channel\<close> on the report that the observed provider returns.\<close>

definition observed_offer :: "receipt_env \<Rightarrow> attest_fn \<Rightarrow> ustr \<Rightarrow> ustr \<Rightarrow> channel_offer action" where
  "observed_offer env inner public_key nonce =
     bindA (lift_res (nonce_hash nonce)) (\<lambda>h.
     span env ''receiver_offer'' [(str ''nonce_sha256'', JStr h)]
       (bindA (observed_attest env inner public_key nonce ROLE_CALLEE) (\<lambda>report.
        lift_res (attest_channel (\<lambda>_ _ _. Inr report) public_key nonce ROLE_CALLEE))))"

text \<open>\<open>exc.code\<close> for the exceptions that \<open>except CA2AError\<close> catches.\<close>

definition ca2a_code :: "client_exn \<Rightarrow> ustr option" where
  "ca2a_code e =
     (case e of
        Raised x \<Rightarrow> map_option (\<lambda>c. str (err_code c)) (exn_class x)
      | PeerError c _ _ \<Rightarrow> Some c
      | PeerDenial c _ _ _ \<Rightarrow> Some c)"

definition task_entry :: "peer_result \<Rightarrow> jdict res" where
  "task_entry result =
     bindE (record_hash (res_record result)) (\<lambda>h.
     Inr [(str ''accepted'', JBool True), (str ''caller_attestation'', JStr (res_caller_attestation result)),
       (str ''payload_sha256'', JStr (sha256_hex (case res_payload result of Some b \<Rightarrow> b | None \<Rightarrow> []))),
       (str ''record_hash'', JStr h)])"

definition observed_handle :: "receipt_env \<Rightarrow> peer_result action \<Rightarrow> peer_result action" where
  "observed_handle env inner =
     bindA (re_raise (span env ''receiver_task_processing'' [] inner) (\<lambda>e. ca2a_code e \<noteq> None)
       (\<lambda>e. write_receipt env ''receiver_task''
         [(str ''accepted'', JBool False), (str ''error_code'', opt_str (ca2a_code e))])) (\<lambda>result.
     bindA (lift_res (task_entry result)) (\<lambda>values.
     bindA (write_receipt env ''receiver_task'' values) (\<lambda>_.
     lift_res (Inr result))))"

section \<open>Runs\<close>

text \<open>
  \<open>frozenset(v)\<close> of a JSON value, as far as membership of strings can tell: a string is iterated by
  characters, a dict by its keys; a list or dict inside is not hashable.
\<close>

definition frozenset_strs :: "json \<Rightarrow> ustr fset res" where
  "frozenset_strs v =
     (case v of
        JList vs \<Rightarrow>
          bindE (require (list_all (\<lambda>x. as_list x = None \<and> as_obj x = None) vs) (PyExn TypeError)) (\<lambda>_.
          Inr (fset_of_list (List.map_filter as_str vs)))
      | JStr s \<Rightarrow> Inr (fset_of_list (map (\<lambda>c. [c]) s))
      | JObj d \<Rightarrow> Inr (fset_of_list (map fst d))
      | _ \<Rightarrow> Inl (PyExn TypeError))"

definition iter_json :: "json \<Rightarrow> json list res" where
  "iter_json v =
     (case v of
        JList vs \<Rightarrow> Inr vs
      | JStr s \<Rightarrow> Inr (map (\<lambda>c. JStr [c]) s)
      | JObj d \<Rightarrow> Inr (map (\<lambda>kv. JStr (fst kv)) d)
      | _ \<Rightarrow> Inl (PyExn TypeError))"

definition loads_text :: "lib \<Rightarrow> bytes \<Rightarrow> json res" where
  "loads_text L raw = bindE (decode_text raw) (\<lambda>t. expect (json_loads L default_hook t) (PyExn ValueError))"

text \<open>
  What a run is given: the host and packages, files, the base directory, the channel key and
  challenge secret a node generates, binding a socket, the loop of the server on a node, and
  \<open>client.send_task\<close> with the recorded verifier, the observed provider and \<open>require_hardware=True\<close>.
\<close>

record ('c, 'k) run_env =
  rn_host :: "('c, 'k) host"
  rn_x509 :: "('c, 'k) x509_ops"
  rn_fingerprint :: "'c \<Rightarrow> bytes"
  rn_fs :: "ustr \<Rightarrow> file_read"
  rn_base :: ustr
  rn_private :: bytes
  rn_secret :: bytes
  rn_bind :: "json \<Rightarrow> json \<Rightarrow> unit res"
  rn_serve_forever :: "peer_node \<Rightarrow> unit action"
  rn_send_task :: "attest_fn \<Rightarrow> verifier \<Rightarrow> json \<Rightarrow> delegation_credential list \<Rightarrow> json \<Rightarrow> json \<Rightarrow> bytes \<Rightarrow> bytes \<Rightarrow> jdict action"

definition run_serve :: "lib \<Rightarrow> ('c, 'k) run_env \<Rightarrow> receipt_env \<Rightarrow> attest_fn \<Rightarrow> verifier \<Rightarrow> jdict \<Rightarrow> unit action" where
  "run_serve L R env provider verify config =
     bindA (lift_res (dict_item config (str ''trusted_root_issuers''))) (\<lambda>issuers.
     bindA (lift_res (require (truthy issuers) (PyExn ValueError))) (\<lambda>_.
     bindA (lift_res (dict_item config (str ''capabilities''))) (\<lambda>caps.
     bindA (lift_res (frozenset_strs caps)) (\<lambda>allow.
     bindA (lift_res (frozenset_strs issuers)) (\<lambda>trusted.
     bindA (lift_res (mk_node L \<lparr>na_policy = LocalPolicy allow, na_provider = Some provider, na_max_depth = 8,
         na_requirement = REQUIRE_HARDWARE, na_caller_verifier = Some verify, na_ttl = DEFAULT_TTL_SECONDS,
         na_require_holder = True, na_trusted = fset trusted, na_has_source = False, na_max_staleness = None\<rparr>
         (rn_private R) (rn_secret R))) (\<lambda>node.
     bindA (lift_res (dict_item config (str ''host''))) (\<lambda>host.
     bindA (lift_res (dict_item config (str ''port''))) (\<lambda>port.
     bindA (lift_res (rn_bind R host port)) (\<lambda>_.
     bindA (write_receipt env ''receiver_ready'' [(str ''provider'', JStr (str ''sev-snp''))]) (\<lambda>_.
     rn_serve_forever R node))))))))))"

definition is_os_error :: "client_exn \<Rightarrow> bool" where
  "is_os_error e \<longleftrightarrow> e = Raised (PyExn OSError)"

definition read_holder_key :: "lib \<Rightarrow> bytes \<Rightarrow> bytes res" where
  "read_holder_key L raw =
     bindE (decode_text raw) (\<lambda>t.
     bindE (expect (fromhex (py_strip L t)) (PyExn ValueError)) (\<lambda>key.
     bindE (require (length key = 32) (PyExn ValueError)) (\<lambda>_. Inr key)))"

definition sender_call ::
  "('c, 'k) run_env \<Rightarrow> receipt_env \<Rightarrow> attest_fn \<Rightarrow> verifier \<Rightarrow> jdict \<Rightarrow> delegation_credential list \<Rightarrow> bytes \<Rightarrow> bytes \<Rightarrow> jdict action" where
  "sender_call R env provider verify config chain key payload =
     re_raise (span env ''sender_call'' []
         (bindA (lift_res (dict_item config (str ''peer_url''))) (\<lambda>url.
          bindA (lift_res (dict_item config (str ''capability''))) (\<lambda>capability.
          bindA (lift_res (dict_item config (str ''record_id''))) (\<lambda>record_id.
          rn_send_task R provider verify url chain capability record_id key payload)))))
       is_os_error
       (\<lambda>_. write_receipt env ''sender_transport_failure''
         [(str ''receiver_outcome'', JStr (str ''unknown'')), (str ''retried'', JBool False)])"

definition reports_hardware :: "jdict \<Rightarrow> bool" where
  "reports_hardware result \<longleftrightarrow>
     dict_get_none result (str ''accepted'') = JBool True \<and>
     dict_get_none result (str ''caller_attestation'') = JStr (str ''hardware'')"

definition sender_entry :: "bytes \<Rightarrow> jdict \<Rightarrow> jdict" where
  "sender_entry payload result =
     [(str ''payload_sha256'', JStr (sha256_hex payload)),
      (str ''peer_reported_accepted'', dict_get_none result (str ''accepted'')),
      (str ''peer_reported_caller_attestation'', dict_get_none result (str ''caller_attestation'')),
      (str ''response_authenticated'', JBool False)]"

definition run_call :: "lib \<Rightarrow> ('c, 'k) run_env \<Rightarrow> receipt_env \<Rightarrow> attest_fn \<Rightarrow> verifier \<Rightarrow> jdict \<Rightarrow> unit action" where
  "run_call L R env provider verify config =
     bindA (lift_res (read_under (rn_fs R) (rn_base R) config ''chain'')) (\<lambda>raw.
     bindA (lift_res (bindE (loads_text L raw) iter_json)) (\<lambda>items.
     bindA (lift_res (traverseE cred_from_dict items)) (\<lambda>chain.
     bindA (lift_res (read_under (rn_fs R) (rn_base R) config ''holder_key'')) (\<lambda>raw.
     bindA (lift_res (read_holder_key L raw)) (\<lambda>key.
     bindA (lift_res (read_under (rn_fs R) (rn_base R) config ''payload'')) (\<lambda>payload.
     bindA (sender_call R env provider verify config chain key payload) (\<lambda>result.
     bindA (lift_res (require (reports_hardware result)
       (Ca2a AttestationFailed (str ''peer response does not report successful mutual hardware appraisal'') None))) (\<lambda>_.
     write_receipt env ''sender_task'' (sender_entry payload result)))))))))"

datatype run_mode = Serve | Call

definition run :: "lib \<Rightarrow> ('c, 'k) run_env \<Rightarrow> receipt_env \<Rightarrow> run_mode \<Rightarrow> json \<Rightarrow> unit action" where
  "run L R env mode config =
     bindA (lift_res (real_provider L (rn_host R))) (\<lambda>provider.
     bindA (lift_res (expect (as_obj config) (PyExn TypeError))) (\<lambda>config.
     bindA (lift_res (dict_item config (str ''peer''))) (\<lambda>peer.
     bindA (build_verifier (ho_snp_lib (rn_host R)) (rn_x509 R) (rn_fingerprint R) (rn_fs R) env (rn_base R) peer) (\<lambda>verify.
     case mode of
       Serve \<Rightarrow> run_serve L R env provider verify config
     | Call \<Rightarrow> run_call L R env provider verify config))))"

text \<open>\<open>except (CA2AError, ValueError, KeyError, OSError)\<close>; another exception leaves the program.\<close>

definition run_catches :: "client_exn \<Rightarrow> bool" where
  "run_catches e \<longleftrightarrow> ca2a_code e \<noteq> None \<or>
     (case e of Raised x \<Rightarrow> is_value_error x \<or> x = PyExn KeyError \<or> x = PyExn OSError | _ \<Rightarrow> False)"

definition acceptance_main :: "lib \<Rightarrow> ('c, 'k) run_env \<Rightarrow> receipt_env \<Rightarrow> run_mode \<Rightarrow> ustr \<Rightarrow> int action" where
  "acceptance_main L R env mode path lg =
     (case bindA (lift_res (bindE (case rn_fs R (path_str (to_path path)) of Contents raw \<Rightarrow> Inr raw | _ \<Rightarrow> Inl (PyExn OSError))
              (loads_text L))) (run L R env mode) lg of
        (lg', Inr _) \<Rightarrow> (lg', Inr 0)
      | (lg', Inl e) \<Rightarrow>
          if run_catches e
          then bindA (write_receipt env ''run_failed'' [(str ''error_type'', JStr (re_type_name env e))]) (\<lambda>_. lift_res (Inr 1)) lg'
          else (lg', Inl e))"

section \<open>Nesting\<close>

text \<open>
  A reader of the log pairs every end of an operation with the innermost open start: the stage and the
  operation id have to agree. \<open>None\<close> is a log that does not pair up.
\<close>

definition entry_event :: "jdict \<Rightarrow> json" where
  "entry_event e = dict_get_none e (str ''event'')"

definition entry_operation :: "jdict \<Rightarrow> json \<times> json" where
  "entry_operation e = (dict_get_none e (str ''stage''), dict_get_none e (str ''operation_id''))"

fun pair_up :: "(json \<times> json) list \<Rightarrow> jdict list \<Rightarrow> (json \<times> json) list option" where
  "pair_up st [] = Some st"
| "pair_up st (e # es) =
     (if entry_event e = JStr (str ''operation_started'') then pair_up (entry_operation e # st) es
      else if entry_event e = JStr (str ''operation_completed'') \<or> entry_event e = JStr (str ''operation_failed'')
      then (case st of [] \<Rightarrow> None | op # st \<Rightarrow> if op = entry_operation e then pair_up st es else None)
      else pair_up st es)"

lemma pair_up_append: "pair_up st (es @ fs) = (case pair_up st es of None \<Rightarrow> None | Some st' \<Rightarrow> pair_up st' fs)"
  by (induction st es rule: pair_up.induct) (auto split: list.splits)

definition closed_log :: "jdict list \<Rightarrow> bool" where
  "closed_log es \<longleftrightarrow> (\<forall>st. pair_up st es = Some st)"

lemma closed_log_Nil [simp]: "closed_log []"
  by (simp add: closed_log_def)

lemma closed_log_append: "closed_log es \<Longrightarrow> closed_log fs \<Longrightarrow> closed_log (es @ fs)"
  by (simp add: closed_log_def pair_up_append)

lemma closed_log_operation:
  assumes "closed_log es" and "entry_event b = JStr (str ''operation_started'')"
    and "entry_event e = JStr (str ''operation_completed'') \<or> entry_event e = JStr (str ''operation_failed'')"
    and "entry_operation b = entry_operation e"
  shows "closed_log (b # es @ [e])"
  using assms by (auto simp: closed_log_def pair_up_append)

text \<open>An action whose entries pair up among themselves, whatever was open before.\<close>

definition nested :: "'a action \<Rightarrow> bool" where
  "nested m \<longleftrightarrow> (\<forall>lg. \<exists>es. rl_entries (fst (m lg)) = rl_entries lg @ es \<and> closed_log es)"

lemma nestedE:
  assumes "nested m" and "m lg = (lg', r)"
  obtains es where "rl_entries lg' = rl_entries lg @ es" and "closed_log es"
  using assms unfolding nested_def by (metis fst_conv)

lemma nestedI:
  assumes "\<And>lg lg' r. m lg = (lg', r) \<Longrightarrow> \<exists>es. rl_entries lg' = rl_entries lg @ es \<and> closed_log es"
  shows "nested m"
  unfolding nested_def using assms by (metis prod.collapse)

lemma nested_lift [intro!]: "nested (lift_res m)"
  by (simp add: nested_def lift_res_def)

lemma nested_bind [intro]:
  assumes "nested m" and "\<And>x. nested (f x)"
  shows "nested (bindA m f)"
proof (rule nestedI)
  fix lg lg' r assume run: "bindA m f lg = (lg', r)"
  obtain lg1 r1 where m: "m lg = (lg1, r1)" by (cases "m lg")
  from nestedE [OF assms(1) m] obtain es where es: "rl_entries lg1 = rl_entries lg @ es" "closed_log es" .
  show "\<exists>es. rl_entries lg' = rl_entries lg @ es \<and> closed_log es"
  proof (cases r1)
    case (Inl e)
    with run m es show ?thesis by (auto simp: bindA_def)
  next
    case (Inr x)
    with run m have "f x lg1 = (lg', r)" by (simp add: bindA_def)
    from nestedE [OF assms(2) this] obtain fs where "rl_entries lg' = rl_entries lg1 @ fs" "closed_log fs" .
    with es show ?thesis by (auto intro!: exI [of _ "es @ fs"] closed_log_append)
  qed
qed

lemma nested_raise: "nested (\<lambda>lg. (lg, Inl e))"
  by (simp add: nested_def)

lemma nested_re_raise [intro]:
  assumes "nested m" and "\<And>e. nested (h e)"
  shows "nested (re_raise m caught h)"
proof (rule nestedI)
  fix lg lg' r assume run: "re_raise m caught h lg = (lg', r)"
  obtain lg1 r1 where m: "m lg = (lg1, r1)" by (cases "m lg")
  from nestedE [OF assms(1) m] obtain es where es: "rl_entries lg1 = rl_entries lg @ es" "closed_log es" .
  show "\<exists>es. rl_entries lg' = rl_entries lg @ es \<and> closed_log es"
  proof (cases "\<exists>e. r1 = Inl e \<and> caught e")
    case False
    with run m have "lg' = lg1" by (cases r1) (auto simp: re_raise_def)
    with es show ?thesis by blast
  next
    case True
    then obtain e where h: "bindA (h e) (\<lambda>_ lg. (lg, Inl e :: client_exn + 'a)) lg1 = (lg', r)" using run m by (auto simp: re_raise_def)
    from nestedE [OF nested_bind [OF assms(2) nested_raise] h]
    obtain fs where "rl_entries lg' = rl_entries lg1 @ fs" "closed_log fs" .
    with es show ?thesis by (auto intro!: exI [of _ "es @ fs"] closed_log_append)
  qed
qed

lemma receipt_entry_get:
  "dict_get (receipt_entry env n event values) k =
     (case dict_get (rev values) k of
        Some v \<Rightarrow> Some v
      | None \<Rightarrow> dict_get
          [(str ''schema'', JStr (str ''ca2a-mutual-hardware-observation-v1'')), (str ''run_id'', JStr (re_run_id env)),
           (str ''time'', JStr (re_time env n)), (str ''event'', JStr (str event)),
           (str ''evidence_scope'', JStr (str ''local observation; unsigned''))] k)"
  unfolding receipt_entry_def dict_get_update by (rule refl)

lemma dict_get_rev_None: "k \<notin> dict_keys d \<Longrightarrow> dict_get (rev d) k = None"
  by (simp add: dict_get_def map_of_eq_None_iff dict_keys_def)

lemma entry_event_receipt:
  assumes "str ''event'' \<notin> dict_keys values"
  shows "entry_event (receipt_entry env n event values) = JStr (str event)"
  by (simp add: entry_event_def dict_get_none_def receipt_entry_get dict_get_rev_None [OF assms])

text \<open>An entry of any other event leaves the open operations alone.\<close>

lemma nested_write [intro]:
  assumes "str ''event'' \<notin> dict_keys values"
    and "event \<notin> {''operation_started'', ''operation_completed'', ''operation_failed''}"
  shows "nested (write_receipt env event values)"
proof -
  from assms have "closed_log [receipt_entry env n event values]" for n
    by (simp add: closed_log_def entry_event_receipt)
  then show ?thesis by (auto simp: nested_def write_receipt_def Let_def)
qed

text \<open>The values of a span: distinct keys, none of them one that the log or the span writes itself.\<close>

definition span_values :: "jdict \<Rightarrow> bool" where
  "span_values values \<longleftrightarrow> dict_wf values \<and>
     dict_keys values \<inter> {str ''event'', str ''stage'', str ''elapsed_seconds'', str ''error_type''} = {}"

lemma span_values_set: "span_values values \<Longrightarrow> span_values (dict_set (str ''operation_id'') v values)"
  by (auto simp: span_values_def dict_wf_set dict_keys_iff split: if_splits)

lemma entry_operation_receipt:
  assumes "dict_wf values" and "dict_get values (str ''stage'') = Some s" and "dict_get values (str ''operation_id'') = Some i"
  shows "entry_operation (receipt_entry env n event values) = (s, i)"
  using assms by (simp add: entry_operation_def dict_get_none_def receipt_entry_get dict_get_rev)

lemma span_entries:
  assumes "span_values values" and "dict_get values (str ''operation_id'') = Some i"
  shows "entry_event (receipt_entry env n ''operation_started'' (span_started stage values)) = JStr (str ''operation_started'')"
    and "entry_event (receipt_entry env n ''operation_failed'' (span_failed env stage t exc values)) = JStr (str ''operation_failed'')"
    and "entry_event (receipt_entry env n ''operation_completed'' (span_completed stage t values)) = JStr (str ''operation_completed'')"
    and "entry_operation (receipt_entry env n ''operation_started'' (span_started stage values)) = (JStr (str stage), i)"
    and "entry_operation (receipt_entry env n ''operation_failed'' (span_failed env stage t exc values)) = (JStr (str stage), i)"
    and "entry_operation (receipt_entry env n ''operation_completed'' (span_completed stage t values)) = (JStr (str stage), i)"
proof -
  from assms(1) have w: "dict_wf values" and k: "str ''event'' \<notin> dict_keys values" "str ''stage'' \<notin> dict_keys values"
    "str ''elapsed_seconds'' \<notin> dict_keys values" "str ''error_type'' \<notin> dict_keys values"
    by (auto simp: span_values_def)
  note defs = span_started_def span_failed_def span_completed_def
  show "entry_event (receipt_entry env n ''operation_started'' (span_started stage values)) = JStr (str ''operation_started'')"
    "entry_event (receipt_entry env n ''operation_failed'' (span_failed env stage t exc values)) = JStr (str ''operation_failed'')"
    "entry_event (receipt_entry env n ''operation_completed'' (span_completed stage t values)) = JStr (str ''operation_completed'')"
    using k by (simp_all add: entry_event_receipt defs)
  show "entry_operation (receipt_entry env n ''operation_started'' (span_started stage values)) = (JStr (str stage), i)"
    "entry_operation (receipt_entry env n ''operation_failed'' (span_failed env stage t exc values)) = (JStr (str stage), i)"
    "entry_operation (receipt_entry env n ''operation_completed'' (span_completed stage t values)) = (JStr (str stage), i)"
    using w k assms(2) by (auto intro!: entry_operation_receipt simp: defs dict_keys_def)
qed

abbreviation writable :: "receipt_env \<Rightarrow> bool" where
  "writable env \<equiv> \<forall>n. re_writable env n"

text \<open>What a span does when the log takes every line: one start, the body, one end, and the body's outcome.\<close>

lemma span_run:
  assumes "writable env" and "span_values values" and body: "\<And>lg. \<exists>es. rl_entries (fst (body lg)) = rl_entries lg @ es \<and> P es"
  shows "\<exists>b e es lg1. rl_entries (fst (span env stage values body lg)) = rl_entries lg @ b # es @ [e] \<and> P es \<and>
    snd (span env stage values body lg) = snd (body lg1) \<and>
    entry_event b = JStr (str ''operation_started'') \<and> entry_operation b = entry_operation e \<and>
    (entry_event e = JStr (str ''operation_completed'') \<or> entry_event e = JStr (str ''operation_failed''))"
proof -
  define n where "n = rl_step lg"
  define vals where "vals = dict_set (str ''operation_id'') (JStr (re_token env (Suc n))) values"
  define b where "b = receipt_entry env (Suc (Suc n)) ''operation_started'' (span_started stage vals)"
  define lg1 where "lg1 = lg\<lparr>rl_step := Suc (Suc (Suc n)), rl_entries := rl_entries lg @ [b]\<rparr>"
  have v: "span_values vals" "dict_get vals (str ''operation_id'') = Some (JStr (re_token env (Suc n)))"
    using assms(2) by (simp_all add: vals_def span_values_set)
  obtain lg2 r where run: "body lg1 = (lg2, r)" by (cases "body lg1")
  with body [of lg1] obtain es where es: "rl_entries lg2 = rl_entries lg @ b # es" "P es" by (auto simp: lg1_def)
  note defs = span_def bindA_def read_clock_def token_hex_def write_receipt_def re_raise_def lift_res_def local_exn_def Let_def
  have start: "span env stage values body lg =
     (case r of Inl x \<Rightarrow> (lg2\<lparr>rl_step := Suc (Suc (rl_step lg2)), rl_entries := rl_entries lg2 @
         [receipt_entry env (Suc (rl_step lg2)) ''operation_failed'' (span_failed env stage (re_elapsed env n (rl_step lg2)) x vals)]\<rparr>, Inl x)
      | Inr y \<Rightarrow> (lg2\<lparr>rl_step := Suc (Suc (rl_step lg2)), rl_entries := rl_entries lg2 @
         [receipt_entry env (Suc (rl_step lg2)) ''operation_completed'' (span_completed stage (re_elapsed env n (rl_step lg2)) vals)]\<rparr>, Inr y))"
    using assms(1) run [unfolded lg1_def b_def vals_def n_def] by (simp add: defs vals_def n_def split: sum.split)
  define e where "e = (case r of
      Inl x \<Rightarrow> receipt_entry env (Suc (rl_step lg2)) ''operation_failed'' (span_failed env stage (re_elapsed env n (rl_step lg2)) x vals)
    | Inr y \<Rightarrow> receipt_entry env (Suc (rl_step lg2)) ''operation_completed'' (span_completed stage (re_elapsed env n (rl_step lg2)) vals))"
  have "entry_operation b = entry_operation e"
    "entry_event e = JStr (str ''operation_completed'') \<or> entry_event e = JStr (str ''operation_failed'')"
    by (simp_all add: e_def b_def span_entries [OF v] split: sum.split)
  moreover have "entry_event b = JStr (str ''operation_started'')" by (simp add: b_def span_entries [OF v])
  moreover have "rl_entries (fst (span env stage values body lg)) = rl_entries lg @ b # es @ [e]"
    "snd (span env stage values body lg) = snd (body lg1)"
    by (simp_all add: start e_def es run split: sum.split)
  ultimately show ?thesis using es(2) by blast
qed

lemma span_runE:
  assumes "writable env" and "span_values values" and "\<And>lg. \<exists>es. rl_entries (fst (body lg)) = rl_entries lg @ es \<and> P es"
  obtains b e es lg1 where "rl_entries (fst (span env stage values body lg)) = rl_entries lg @ b # es @ [e]" and "P es"
    and "snd (span env stage values body lg) = snd (body lg1)"
    and "entry_event b = JStr (str ''operation_started'')" and "entry_operation b = entry_operation e"
    and "entry_event e = JStr (str ''operation_completed'') \<or> entry_event e = JStr (str ''operation_failed'')"
  using span_run [OF assms, of stage lg] by (elim exE conjE) (rule that)

lemma nested_span:
  assumes "writable env" and "span_values values" and "nested body"
  shows "nested (span env stage values body)"
  unfolding nested_def
proof
  fix lg
  from assms(3) have "\<exists>es. rl_entries (fst (body lg)) = rl_entries lg @ es \<and> closed_log es" for lg by (simp add: nested_def)
  then show "\<exists>es. rl_entries (fst (span env stage values body lg)) = rl_entries lg @ es \<and> closed_log es"
  proof (rule span_runE [OF assms(1,2), where stage = stage and lg = lg])
    fix b e es
    assume run: "rl_entries (fst (span env stage values body lg)) = rl_entries lg @ b # es @ [e]" and es: "closed_log es"
      and b: "entry_event b = JStr (str ''operation_started'')" and op: "entry_operation b = entry_operation e"
      and e: "entry_event e = JStr (str ''operation_completed'') \<or> entry_event e = JStr (str ''operation_failed'')"
    from run closed_log_operation [OF es b e op] show ?thesis by blast
  qed
qed

lemma span_values_simps [simp]: "span_values []" "span_values [(str ''nonce_sha256'', v)]"
  by (simp_all add: span_values_def)

lemma span_liftE:
  assumes "writable env" and "span_values values"
  obtains b e where "rl_entries (fst (span env stage values (lift_res m) lg)) = rl_entries lg @ [b, e]"
    and "snd (span env stage values (lift_res m) lg) = local_exn m"
    and "closed_log [b, e]"
proof -
  have "\<exists>es. rl_entries (fst (lift_res m lg)) = rl_entries lg @ es \<and> es = []" for lg by (simp add: lift_res_def)
  then show ?thesis
  proof (rule span_runE [OF assms, where stage = stage and lg = lg])
    fix b e es lg1
    assume run: "rl_entries (fst (span env stage values (lift_res m) lg)) = rl_entries lg @ b # es @ [e]" and es: "es = []"
      and out: "snd (span env stage values (lift_res m) lg) = snd (lift_res m lg1)"
      and b: "entry_event b = JStr (str ''operation_started'')" and op: "entry_operation b = entry_operation e"
      and e: "entry_event e = JStr (str ''operation_completed'') \<or> entry_event e = JStr (str ''operation_failed'')"
    show ?thesis
    proof (rule that)
      show "rl_entries (fst (span env stage values (lift_res m) lg)) = rl_entries lg @ [b, e]" using run es by simp
      show "snd (span env stage values (lift_res m) lg) = local_exn m" using out by (simp add: lift_res_def)
      show "closed_log [b, e]" using closed_log_operation [OF closed_log_Nil b e op] by simp
    qed
  qed
qed

lemma bindA_lift [simp]:
  "bindA (lift_res (Inr x)) f = f x"
  "bindA (lift_res (Inl e)) f = lift_res (Inl e)"
  by (simp_all add: fun_eq_iff bindA_def lift_res_def local_exn_def)

text \<open>A value computed without the log, and what is done with it.\<close>

lemma nested_lift_bind:
  assumes "\<And>x. m = Inr x \<Longrightarrow> nested (f x)"
  shows "nested (bindA (lift_res m) f)"
  using assms by (cases m) auto

lemmas nested_ops = nested_lift_bind nested_bind nested_lift nested_write nested_re_raise nested_span

lemma nested_observed_attest: "writable env \<Longrightarrow> nested (observed_attest env inner public_key nonce role)"
  unfolding observed_attest_def by (intro nested_ops) simp_all

lemma nested_recorded: "writable env \<Longrightarrow> nested (recorded env verify report nonce)"
  unfolding recorded_def by (intro nested_ops) (auto simp: appraisal_entry_def guard_simps)

lemma nested_observed_offer: "writable env \<Longrightarrow> nested (observed_offer env inner public_key nonce)"
  unfolding observed_offer_def by (intro nested_ops nested_observed_attest) simp_all

lemma nested_observed_handle: "writable env \<Longrightarrow> nested inner \<Longrightarrow> nested (observed_handle env inner)"
  unfolding observed_handle_def by (intro nested_ops) (auto simp: task_entry_def guard_simps)

lemma nested_build_verifier: "nested (build_verifier S X fingerprint fs env base config)"
  unfolding build_verifier_def by (intro nested_ops) (simp_all add: policy_entry_def)

lemma nested_run:
  assumes "writable env" and "\<And>node. nested (rn_serve_forever R node)"
    and "\<And>p v url chain cap rid key payload. nested (rn_send_task R p v url chain cap rid key payload)"
  shows "nested (run L R env mode config)"
proof -
  have "nested (run_serve L R env p v c)" for p v c
    unfolding run_serve_def by (intro nested_ops assms(2)) simp_all
  moreover have "nested (run_call L R env p v c)" for p v c
    unfolding run_call_def sender_call_def using assms(1) by (intro nested_ops assms(3)) (simp_all add: sender_entry_def)
  ultimately show ?thesis unfolding run_def
    by (intro nested_ops nested_build_verifier) (simp_all split: run_mode.split)
qed

text \<open>\<open>try: m except P: h else: v\<close>.\<close>

lemma nested_recover:
  assumes "nested m" and "\<And>e. nested (h e)"
  shows "nested (\<lambda>lg. case m lg of (lg', Inr _) \<Rightarrow> (lg', Inr v) | (lg', Inl e) \<Rightarrow> if P e then h e lg' else (lg', Inl e))"
proof (rule nestedI)
  fix lg lg' r
  assume run: "(case m lg of (lg', Inr _) \<Rightarrow> (lg', Inr v) | (lg', Inl e) \<Rightarrow> if P e then h e lg' else (lg', Inl e)) = (lg', r)"
  obtain lg1 r1 where m: "m lg = (lg1, r1)" by (cases "m lg")
  from nestedE [OF assms(1) m] obtain es where es: "rl_entries lg1 = rl_entries lg @ es" "closed_log es" .
  show "\<exists>es. rl_entries lg' = rl_entries lg @ es \<and> closed_log es"
  proof (cases "\<exists>e. r1 = Inl e \<and> P e")
    case False
    with run m have "lg' = lg1" by (cases r1) auto
    with es show ?thesis by blast
  next
    case True
    then obtain e where h: "h e lg1 = (lg', r)" using run m by auto
    from nestedE [OF assms(2) h] obtain fs where "rl_entries lg' = rl_entries lg1 @ fs" "closed_log fs" .
    with es show ?thesis by (auto intro!: exI [of _ "es @ fs"] closed_log_append)
  qed
qed

text \<open>Runs that return.\<close>

lemma bindA_Inr_iff: "bindA m f lg = (lg', Inr y) \<longleftrightarrow> (\<exists>x lg1. m lg = (lg1, Inr x) \<and> f x lg1 = (lg', Inr y))"
  by (auto simp: bindA_def split: prod.splits sum.splits)

lemma lift_res_Inr_iff: "lift_res m lg = (lg', Inr x) \<longleftrightarrow> lg' = lg \<and> m = Inr x"
  by (cases m) (auto simp: lift_res_def local_exn_def)

lemma re_raise_Inr_iff: "re_raise m caught h lg = (lg', Inr x) \<longleftrightarrow> m lg = (lg', Inr x)"
  by (auto simp: re_raise_def bindA_def split: prod.splits sum.splits if_splits)

lemma write_receipt_Inr: "write_receipt env event vs lg = (lg', Inr x) \<Longrightarrow>
    last (rl_entries lg') = receipt_entry env (rl_step lg) event vs"
  by (auto simp: write_receipt_def Let_def split: if_splits)

lemmas action_iffs = bindA_Inr_iff lift_res_Inr_iff re_raise_Inr_iff

lemma span_Inr: "span env stage vs body lg = (lg', Inr x) \<Longrightarrow> \<exists>lg1 lg2. body lg1 = (lg2, Inr x)"
  by (auto simp: span_def Let_def action_iffs)

lemma build_verifier_Inr:
  assumes "build_verifier S X fingerprint fs env base config lg = (lg', Inr verify)"
  shows "\<exists>pins. sq_trusted_roots pins \<noteq> [] \<and> sq_vcek_chain pins \<noteq> [] \<and> sev_snp_verifier S X pins = Inr verify"
proof -
  from assms obtain d pins where "read_pins X fs base d = Inr pins" and v: "sev_snp_verifier S X pins = Inr verify"
    by (auto simp: build_verifier_def action_iffs)
  then have "sq_trusted_roots pins \<noteq> []" "sq_vcek_chain pins \<noteq> []" by (auto simp: read_pins_def guard_simps)
  with v show ?thesis by blast
qed

lemma run_call_Inr:
  assumes "run_call L R env provider verify config lg = (lg', Inr u)"
  shows "\<exists>url chain capability record_id key payload lg1 lg2 result n. length key = 32 \<and>
    rn_send_task R provider verify url chain capability record_id key payload lg1 = (lg2, Inr result) \<and> reports_hardware result \<and>
    last (rl_entries lg') = receipt_entry env n ''sender_task'' (sender_entry payload result)"
proof -
  from assms obtain raw chain key payload lg0 lg3 result where key: "read_holder_key L raw = Inr key"
    and call: "sender_call R env provider verify config chain key payload lg0 = (lg3, Inr result)" and hw: "reports_hardware result"
    and w: "write_receipt env ''sender_task'' (sender_entry payload result) lg3 = (lg', Inr u)"
    by (auto simp: run_call_def action_iffs guard_simps)
  from key have "length key = 32" by (auto simp: read_holder_key_def guard_simps)
  moreover obtain url capability record_id lg1 lg2 where
    "rn_send_task R provider verify url chain capability record_id key payload lg1 = (lg2, Inr result)"
    using call unfolding sender_call_def re_raise_Inr_iff by (auto dest!: span_Inr simp: action_iffs)
  ultimately show ?thesis using hw write_receipt_Inr [OF w] by blast
qed

lemma acceptance_main_eq:
  "acceptance_main L R env mode path =
     (\<lambda>lg. case bindA (lift_res (bindE (case rn_fs R (path_str (to_path path)) of Contents raw \<Rightarrow> Inr raw | _ \<Rightarrow> Inl (PyExn OSError))
              (loads_text L))) (run L R env mode) lg of
        (lg', Inr _) \<Rightarrow> (lg', Inr 0)
      | (lg', Inl e) \<Rightarrow>
          if run_catches e
          then bindA (write_receipt env ''run_failed'' [(str ''error_type'', JStr (re_type_name env e))]) (\<lambda>_. lift_res (Inr 1)) lg'
          else (lg', Inl e))"
  by (rule ext) (rule acceptance_main_def)

lemma acceptance_exit_zero:
  "acceptance_main L R env mode path lg = (lg', Inr 0) \<longleftrightarrow>
     (\<exists>raw config. rn_fs R (path_str (to_path path)) = Contents raw \<and> loads_text L raw = Inr config \<and> run L R env mode config lg = (lg', Inr ()))"
proof -
  have "bindA m f lg \<noteq> (lg', Inr 0)" if "\<And>x lg. f x lg = (lg, Inr 1)" for m :: "unit action" and f :: "unit \<Rightarrow> int action" and lg
    using that by (auto simp: bindA_Inr_iff)
  then show ?thesis
    by (auto simp: acceptance_main_def bindA_Inr_iff lift_res_Inr_iff lift_res_def local_exn_def guard_simps split: prod.splits sum.splits if_splits file_read.splits)
qed

lemma receipt_entry_simps [simp]: "re_writable env (rl_step lg) \<Longrightarrow> write_receipt env event vs lg =
    (lg\<lparr>rl_step := Suc (rl_step lg), rl_entries := rl_entries lg @ [receipt_entry env (rl_step lg) event vs]\<rparr>, Inr ())"
  by (simp add: write_receipt_def Let_def)

section \<open>Properties\<close>

text \<open>
  Observation changes no verdict. When the receipt file takes every line and the key and the nonce can be
  encoded, the recorded verifier returns or raises exactly what the pinned verifier does, and appends
  the two entries of its span and then the appraisal: accepted with the measurement that the
  verifier returned and hashes of the evidence, the channel key and the nonce; refused when attestation
  failed; and no appraisal at all when anything else went wrong.
\<close>

theorem observation_transparent:
  assumes "\<forall>n. re_writable env n" and "encode nonce = Inr b" and "encode (ar_public_key report) = Inr k"
  shows "snd (recorded env verify report nonce lg) = local_exn (verify report nonce) \<and>
    (\<exists>started ended n. closed_log [started, ended] \<and> rl_entries (fst (recorded env verify report nonce lg)) = rl_entries lg @ [started, ended] @
       (case verify report nonce of
          Inr m \<Rightarrow> [receipt_entry env n ''peer_appraisal''
            [(str ''accepted'', JBool True), (str ''measurement'', JStr m),
             (str ''report_sha256'', JStr (sha256_hex (case ar_raw_evidence report of Some r \<Rightarrow> r | None \<Rightarrow> []))),
             (str ''channel_key_sha256'', JStr (sha256_hex k)), (str ''nonce_sha256'', JStr (sha256_hex b))]]
        | Inl e \<Rightarrow> if is_class AttestationFailed e
            then [receipt_entry env n ''peer_appraisal'' [(str ''accepted'', JBool False)]] else []))"
proof -
  let ?s = "span env ''peer_quote_verification'' [(str ''nonce_sha256'', JStr (sha256_hex b))] (lift_res (verify report nonce)) lg"
  obtain lg1 r where s: "?s = (lg1, r)" by (cases ?s)
  obtain started ended where run: "rl_entries (fst ?s) = rl_entries lg @ [started, ended]" "snd ?s = local_exn (verify report nonce)"
    and closed: "closed_log [started, ended]"
    using span_liftE [OF assms(1) span_values_simps(2), where m = "verify report nonce" and lg = lg and stage = "''peer_quote_verification''"] .
  note defs = recorded_def nonce_hash_def assms(2,3) re_raise_def bindA_def [of "re_raise _ _ _"] bindA_def [of "write_receipt _ _ _"] appraisal_entry_def
  show ?thesis
  proof (cases "verify report nonce")
    case (Inl e)
    with run s have "rl_entries lg1 = rl_entries lg @ [started, ended]" "r = Inl (Raised e)" by (simp_all add: local_exn_def)
    with s Inl closed assms(1) show ?thesis
      by (intro conjI exI [of _ started] exI [of _ ended]) (auto simp: defs is_attestation_failed_def local_exn_def)
  next
    case (Inr m)
    with run s have "rl_entries lg1 = rl_entries lg @ [started, ended]" "r = Inr m" by (simp_all add: local_exn_def)
    with s Inr closed assms(1) show ?thesis by (auto simp: defs lift_res_def local_exn_def)
  qed
qed

definition sample_receipts :: receipt_env where
  "sample_receipts = \<lparr>re_run_id = str ''run'', re_time = (\<lambda>n. nat_str n), re_elapsed = (\<lambda>a b. of_nat (b - a)),
     re_token = (\<lambda>n. nat_str n), re_writable = (\<lambda>n. True), re_type_name = (\<lambda>e. str ''Exception'')\<rparr>"

definition sample_report :: attestation_report where
  "sample_report = \<lparr>ar_platform = str ''sev-snp'', ar_measurement = [], ar_public_key = str ''k'', ar_nonce = str ''n'',
     ar_raw_evidence = None, ar_quote_signature = None, ar_key_pem = None, ar_key_chain_pem = None, ar_role = ROLE_CALLER\<rparr>"

theorem observation_transparent_witness:
  "snd (recorded sample_receipts (snp_verify sample_snp sample_x509 sample_requirements) sample_report (str ''n'') \<lparr>rl_entries = [], rl_step = 0\<rparr>) =
     Inl (Raised (Ca2a AttestationFailed (str ''SEV-SNP channel verification requires signed SNP evidence'') None)) \<and>
   (\<exists>started ended n. rl_entries (fst (recorded sample_receipts (snp_verify sample_snp sample_x509 sample_requirements) sample_report (str ''n'')
       \<lparr>rl_entries = [], rl_step = 0\<rparr>)) =
     [started, ended, receipt_entry sample_receipts n ''peer_appraisal'' [(str ''accepted'', JBool False)]])"
proof -
  let ?v = "snp_verify sample_snp sample_x509 sample_requirements"
  have w: "\<forall>n. re_writable sample_receipts n" by (simp add: sample_receipts_def)
  have n: "encode (str ''n'') = Inr [110]" by (simp add: encode_def utf8_def utf8_units_def encodable_def is_surrogate_def str_simps guard_simps)
  have k: "encode (ar_public_key sample_report) = Inr [107]" by (simp add: sample_report_def encode_def utf8_def utf8_units_def encodable_def is_surrogate_def str_simps guard_simps)
  have v: "?v sample_report (str ''n'') =
    Inl (Ca2a AttestationFailed (str ''SEV-SNP channel verification requires signed SNP evidence'') None)"
    by (simp add: snp_verify_def sample_report_def)
  from observation_transparent [OF w n k, of ?v "\<lparr>rl_entries = [], rl_step = 0\<rparr>"] show ?thesis
    by (auto simp: v local_exn_def)
qed

text \<open>
  The receipts of an acceptance run pair up. When the receipt file takes every line, and the server loop and
  the client keep it so, the log that a run leaves, whatever the mode and however it ends, is well
  nested: every end of an operation closes the innermost open start of the same stage and operation id, and no
  operation stays open.
\<close>

theorem receipts_nested:
  assumes "\<forall>n. re_writable env n" and "\<And>node. nested (rn_serve_forever R node)"
    and "\<And>p v url chain cap rid key payload. nested (rn_send_task R p v url chain cap rid key payload)"
    and "rl_entries lg = []"
  shows "pair_up [] (rl_entries (fst (acceptance_main L R env mode path lg))) = Some []"
proof -
  let ?m = "bindA (lift_res (bindE (case rn_fs R (path_str (to_path path)) of Contents raw \<Rightarrow> Inr raw | _ \<Rightarrow> Inl (PyExn OSError))
              (loads_text L))) (run L R env mode)"
  have "nested ?m" by (intro nested_ops nested_run [OF assms(1-3)])
  moreover have "nested (bindA (write_receipt env ''run_failed'' [(str ''error_type'', JStr t)]) (\<lambda>_. lift_res (Inr (1 :: int))))" for t
    by (intro nested_ops) simp_all
  ultimately have "nested (acceptance_main L R env mode path)" unfolding acceptance_main_eq by (intro nested_recover)
  then obtain es where "rl_entries (fst (acceptance_main L R env mode path lg)) = rl_entries lg @ es" "closed_log es"
    unfolding nested_def by blast
  with assms(4) show ?thesis by (simp add: closed_log_def)
qed

lemma read_holder_key_hex:
  assumes "length k = 32"
  shows "read_holder_key L (map of_nat (hex k)) = Inr k"
proof -
  have c: "c \<noteq> 13 \<and> c < 128 \<and> \<not> py_space L c" if "c \<in> set (hex k)" for c
    using that hex_lower [of k] by (auto simp: list_all_iff is_lower_hex_def py_space_def is_space_def)
  then have "utf8 (hex k) = Some (map of_nat (hex k))" by (intro utf8_ascii) (auto simp: list_all_iff)
  then have "utf8_decode (map of_nat (hex k)) = Some (hex k)" by (rule utf8_decode_encode)
  moreover have "universal_newlines (hex k) = hex k" using c by (auto intro!: universal_newlines_id)
  moreover have "dropWhile (py_space L) s = s" if "set s = set (hex k)" for s using that c by (cases s) auto
  then have "py_strip L (hex k) = hex k" by (simp add: py_strip_def)
  ultimately show ?thesis using assms by (simp add: read_holder_key_def decode_text_def)
qed

text \<open>A sending run on a sample guest, with an empty chain and a peer that answers in one line.\<close>

definition sample_pins :: jdict where
  "sample_pins = [(str ''trusted_roots'', JStr (str ''r'')), (str ''vcek_chain'', JStr (str ''v'')),
     (str ''require_platform'', JList []), (str ''forbid_platform'', JList [JStr (str ''smt_enabled'')]),
     (str ''reject_unrecognized_platform_bits'', JBool True),
     (str ''expected_measurement'', JStr (hex (replicate 48 7))), (str ''min_guest_svn'', JInt 3)]"

definition sample_run_config :: jdict where
  "sample_run_config = [(str ''peer'', JObj sample_pins), (str ''chain'', JStr (str ''c'')), (str ''holder_key'', JStr (str ''h'')),
     (str ''payload'', JStr (str ''v'')), (str ''peer_url'', JStr (str ''http://b'')), (str ''capability'', JStr (str ''read'')),
     (str ''record_id'', JStr (str ''r1''))]"

definition sample_run :: "bytes \<Rightarrow> (nat, bytes) run_env" where
  "sample_run chain = \<lparr>rn_host = sample_host [], rn_x509 = sample_x509, rn_fingerprint = (\<lambda>c. [of_nat c]),
     rn_fs = (\<lambda>p. if p = str ''/b/c'' then Contents chain else if p = str ''/b/h'' then Contents (map of_nat (hex (replicate 32 7)))
        else if p = str ''/b/r'' then Contents [2] else if p = str ''/b/v'' then Contents [1, 2] else Absent),
     rn_base = str ''/b'', rn_private = [1], rn_secret = [2], rn_bind = (\<lambda>h p. Inr ()), rn_serve_forever = (\<lambda>node. lift_res (Inr ())),
     rn_send_task = (\<lambda>p v url chain cap rid key payload. lift_res (Inr
        [(str ''accepted'', JBool True), (str ''caller_attestation'', JStr (str ''hardware''))]))\<rparr>"

lemma sample_run_paths:
  "resolve (Some (str ''/b'')) (str ''c'') = str ''/b/c''" "resolve (Some (str ''/b'')) (str ''h'') = str ''/b/h''"
  "resolve (Some (str ''/b'')) (str ''r'') = str ''/b/r''" "resolve (Some (str ''/b'')) (str ''v'') = str ''/b/v''"
  by (simp_all add: resolve_def to_path_def path_str_def str_simps Let_def)

lemma sample_run_files:
  "read_under (rn_fs (sample_run chain)) (rn_base (sample_run chain)) sample_pins ''trusted_roots'' = Inr [2]"
  "read_under (rn_fs (sample_run chain)) (rn_base (sample_run chain)) sample_pins ''vcek_chain'' = Inr [1, 2]"
  "read_under (rn_fs (sample_run chain)) (rn_base (sample_run chain)) sample_run_config ''chain'' = Inr chain"
  "read_under (rn_fs (sample_run chain)) (rn_base (sample_run chain)) sample_run_config ''holder_key'' = Inr (map of_nat (hex (replicate 32 7)))"
  "read_under (rn_fs (sample_run chain)) (rn_base (sample_run chain)) sample_run_config ''payload'' = Inr [1, 2]"
  by (simp_all add: read_under_def dict_item_def sample_pins_def sample_run_config_def sample_run_def sample_run_paths)

lemma sample_pins_read:
  "read_pins sample_x509 (rn_fs (sample_run chain)) (rn_base (sample_run chain)) sample_pins = Inr sample_requirements"
  by (simp add: read_pins_def sample_run_files)
    (simp add: sample_x509_def sample_pins_def dict_item_def platform_fields_def sample_requirements_def)

lemma sample_run_returns:
  assumes "loads_text L chain = Inr (JList [])"
  shows "\<exists>lg'. run L (sample_run chain) sample_receipts Call (JObj sample_run_config) lg = (lg', Inr ())"
proof -
  let ?R = "sample_run chain"
  have w: "write_receipt sample_receipts event vs lg = (lg\<lparr>rl_step := Suc (rl_step lg),
      rl_entries := rl_entries lg @ [receipt_entry sample_receipts (rl_step lg) event vs]\<rparr>, Inr ())" for event vs lg
    by (simp add: sample_receipts_def)
  have h: "rn_host ?R = sample_host []" "rn_x509 ?R = sample_x509" by (simp_all add: sample_run_def)
  have p: "real_provider L (sample_host []) = Inr (snp_attest L (ho_snp_lib (sample_host [])) (ho_tsm (sample_host [])) (ho_sev_device (sample_host [])))"
    by (simp add: real_provider_def snp_detect_def tsm_available_def sample_host_def sample_tsm_def)
  have v: "sev_snp_verifier (ho_snp_lib (sample_host [])) sample_x509 sample_requirements =
      Inr (snp_verify (ho_snp_lib (sample_host [])) sample_x509 sample_requirements)"
    by (simp add: sev_snp_verifier_def sample_requirements_def)
  have k: "read_holder_key L (map of_nat (hex (replicate 32 7))) = Inr (replicate 32 7)" by (rule read_holder_key_hex) simp
  have items: "dict_item sample_run_config (str ''peer'') = Inr (JObj sample_pins)"
    "dict_item sample_run_config (str ''peer_url'') = Inr (JStr (str ''http://b''))"
    "dict_item sample_run_config (str ''capability'') = Inr (JStr (str ''read''))"
    "dict_item sample_run_config (str ''record_id'') = Inr (JStr (str ''r1''))"
    by (simp_all add: sample_run_config_def dict_item_def)
  let ?r = "[(str ''accepted'', JBool True), (str ''caller_attestation'', JStr (str ''hardware''))]"
  have send: "rn_send_task ?R a b c d e f g i = lift_res (Inr ?r)" for a b c d e f g i by (simp add: sample_run_def)
  have call: "\<exists>lg'. sender_call ?R sample_receipts a b sample_run_config c d e lg = (lg', Inr ?r)" for a b c d e lg
  proof -
    let ?s = "span sample_receipts ''sender_call'' [] (lift_res (Inr ?r)) lg"
    have "snd ?s = Inr ?r"
      using span_liftE [of sample_receipts "[]" "''sender_call''" "Inr ?r" lg] by (fastforce simp: sample_receipts_def local_exn_def)
    then obtain lg' where "?s = (lg', Inr ?r)" by (cases ?s) auto
    then show ?thesis by (simp add: sender_call_def items send re_raise_Inr_iff)
  qed
  have "\<exists>lg'. run_call L ?R sample_receipts a b sample_run_config lg = (lg', Inr ())" for a b lg
    using call [of a b "[]" "replicate 32 7" "[1, 2]" lg]
    by (auto simp: run_call_def sample_run_files assms iter_json_def k bindA_Inr_iff reports_hardware_def dict_get_none_def w lift_res_Inr_iff)
  then show ?thesis
    by (simp add: run_def h p items build_verifier_def sample_pins_read v bindA_Inr_iff w lift_res_Inr_iff)
qed

lemma sample_chain_loads: "\<exists>chain. loads_text L chain = Inr (JList [])"
proof -
  have "json_ok (JList [])" by simp
  then obtain raw where raw: "canonicalize (JList []) = Inr raw" using canonicalize_ok by blast
  have "json_wf (JList [])" by simp
  from read_json_canonical [OF this raw, of L "\<lambda>s. True" ConfigError "[]" "[]"] have "loads_text L raw = Inr (JList [])"
    by (auto simp: read_json_def loads_text_def decode_text_def guard_simps Let_def)
  then show ?thesis by blast
qed

theorem receipts_nested_witness:
  "pair_up [] (rl_entries (fst (acceptance_main sample_lib (sample_run []) sample_receipts Call (str ''/b/c'') \<lparr>rl_entries = [], rl_step = 0\<rparr>)))
     = Some []"
proof -
  have "\<forall>n. re_writable sample_receipts n" by (simp add: sample_receipts_def)
  moreover have "nested (rn_serve_forever (sample_run []) node)" for node by (simp add: sample_run_def nested_lift)
  moreover have "nested (rn_send_task (sample_run []) p v url chain cap rid key payload)" for p v url chain cap rid key payload
    by (simp add: sample_run_def nested_lift)
  ultimately show ?thesis by (intro receipts_nested) simp_all
qed



end
