(* ===== verification/Fixtures.thy ===== *)
theory Fixtures
  imports Chain
begin

text \<open>
  Signed chains built with fresh keys, as the benchmark, the experiments and the demos build
  them: one loop, over the scopes to grant, that signs each hop with the key of the hop before.
  The lemmas say what the loop builds for any keys, that a narrowing ladder of scopes gives a
  valid chain, and that the verifier answers for the first hop that fails.
\<close>

section \<open>The loop\<close>

text \<open>
  The private key drawn for the issuer of each hop, the identifiers, and the validity window all hops share.
\<close>

record fixture =
  fx_key :: "nat \<Rightarrow> bytes"
  fx_ident :: "nat \<Rightarrow> ustr"
  fx_not_before :: "int option"
  fx_not_after :: "int option"

definition plain_fixture :: "(nat \<Rightarrow> bytes) \<Rightarrow> (nat \<Rightarrow> ustr) \<Rightarrow> fixture" where
  "plain_fixture key ident = \<lparr>fx_key = key, fx_ident = ident, fx_not_before = None, fx_not_after = None\<rparr>"

definition fx_public :: "lib \<Rightarrow> fixture \<Rightarrow> nat \<Rightarrow> ustr" where
  "fx_public L F i = hex (ed_public L (fx_key F i))"

definition hop_credential :: "lib \<Rightarrow> fixture \<Rightarrow> nat \<Rightarrow> ustr fset \<Rightarrow> ustr option \<Rightarrow> delegation_credential" where
  "hop_credential L F depth scope parent_id =
     \<lparr>cred_id = fx_ident F depth, cred_issuer = fx_public L F depth, cred_subject = fx_public L F (Suc depth),
      cred_scope = scope, cred_depth = int depth, cred_parent_id = parent_id, cred_signature = [],
      cred_not_before = fx_not_before F, cred_not_after = fx_not_after F\<rparr>"

text \<open>The loop from a depth on.\<close>

fun signed_hops :: "lib \<Rightarrow> fixture \<Rightarrow> nat \<Rightarrow> ustr fset list \<Rightarrow> ustr option \<Rightarrow> delegation_credential list res" where
  "signed_hops L F depth [] parent_id = Inr []"
| "signed_hops L F depth (scope # scopes) parent_id =
     bindE (cred_post_init (hop_credential L F depth scope parent_id)) (\<lambda>c.
     bindE (cred_sign L (fx_key F depth) c) (\<lambda>cred.
     bindE (signed_hops L F (Suc depth) scopes (Some (cred_id cred))) (\<lambda>rest. Inr (cred # rest))))"

text \<open>\<open>f"{prefix}-{depth}"\<close>.\<close>

definition dash_id :: "string \<Rightarrow> nat \<Rightarrow> ustr" where
  "dash_id prefix depth = str prefix @ str ''-'' @ nat_str depth"

text \<open>What the loop builds, hop by hop.\<close>

definition parent_of :: "fixture \<Rightarrow> nat \<Rightarrow> ustr option" where
  "parent_of F i = (if i = 0 then None else Some (fx_ident F (i - 1)))"

definition built_by :: "lib \<Rightarrow> fixture \<Rightarrow> ustr fset list \<Rightarrow> delegation_credential list \<Rightarrow> bool" where
  "built_by L F scopes chain \<longleftrightarrow> length chain = length scopes \<and>
     (\<forall>i < length scopes. cred_signed L (chain ! i) \<and> lower_hex_of_len 128 (cred_signature (chain ! i)) \<and>
        cred_core (chain ! i) = hop_credential L F i (scopes ! i) (parent_of F i))"

section \<open>What it builds\<close>

lemma encodable_nat_str [simp]: "list_all encodable (nat_str n)"
  using encodable_int_str [of "int n"] by (simp add: int_str_def)

lemma dash_id_inj [simp]: "dash_id p m = dash_id p n \<longleftrightarrow> m = n"
  by (simp add: dash_id_def)

lemma plain_fixture_simps [simp]:
  "fx_key (plain_fixture key ident) = key" "fx_ident (plain_fixture key ident) = ident"
  "fx_not_before (plain_fixture key ident) = None" "fx_not_after (plain_fixture key ident) = None"
  by (simp_all add: plain_fixture_def)

lemma plain_public [simp]: "fx_public L (plain_fixture key ident) i = hex (ed_public L (key i))"
  by (simp add: fx_public_def)

lemma hop_credential_core [simp]: "cred_core (hop_credential L F n s p) = hop_credential L F n s p"
  by (simp add: cred_core_def hop_credential_def)

text \<open>The identifiers, scopes and windows that canonicalize.\<close>

definition window_ok :: "fixture \<Rightarrow> bool" where
  "window_ok F \<longleftrightarrow> \<not> window_inverted (fx_not_before F) (fx_not_after F) \<and>
     (\<forall>b \<in> set_option (fx_not_before F) \<union> set_option (fx_not_after F). 0 \<le> b \<and> b \<le> MAX_SAFE_INTEGER)"

definition fixture_ok :: "fixture \<Rightarrow> ustr fset list \<Rightarrow> bool" where
  "fixture_ok F scopes \<longleftrightarrow> window_ok F \<and> (\<forall>i < length scopes. list_all encodable (fx_ident F i)) \<and>
     (\<forall>s \<in> set scopes. \<forall>c \<in> fset s. list_all encodable c) \<and> int (length scopes) \<le> MAX_SAFE_INTEGER + 1"

lemma plain_window_ok [simp]: "window_ok (plain_fixture key ident)"
  by (simp add: window_ok_def window_inverted_def)

lemma hop_credential_wf: "window_ok F \<Longrightarrow> cred_wf (hop_credential L F n s p)"
  by (auto simp: cred_wf_def window_ok_def hop_credential_def)

lemma hop_credential_encodable:
  assumes "window_ok F" and "list_all encodable (fx_ident F depth)" and "\<forall>c \<in> fset scope. list_all encodable c"
    and "int depth \<le> MAX_SAFE_INTEGER" and "\<And>p. parent_id = Some p \<Longrightarrow> list_all encodable p"
  shows "cred_encodable (hop_credential L F depth scope parent_id)"
  using assms by (auto simp: cred_encodable_def hop_credential_def fx_public_def window_ok_def)

lemma hop_credential_signs:
  assumes "window_ok F" and "cred_encodable (hop_credential L F depth scope parent_id)"
  shows "\<exists>d. cred_sign L (fx_key F depth) (hop_credential L F depth scope parent_id) = Inr d"
  using assms by (intro cred_sign_ok hop_credential_wf) (simp_all add: hop_credential_def fx_public_def)

lemma cred_sign_hex: "ed25519_correct L \<Longrightarrow> cred_sign L k c = Inr d \<Longrightarrow> lower_hex_of_len 128 (cred_signature d)"
  by (auto simp: cred_sign_Inr_iff ed25519_correct_def)

lemma signed_hops_spec:
  assumes "ed25519_correct L" and "window_ok F" and "int (depth + length scopes) \<le> MAX_SAFE_INTEGER + 1"
    and "\<forall>i < length scopes. list_all encodable (fx_ident F (depth + i))"
    and "\<forall>s \<in> set scopes. \<forall>c \<in> fset s. list_all encodable c"
    and "\<And>p. parent_id = Some p \<Longrightarrow> list_all encodable p"
  shows "\<exists>cs. signed_hops L F depth scopes parent_id = Inr cs \<and> length cs = length scopes \<and>
    (\<forall>i < length scopes. cred_signed L (cs ! i) \<and> lower_hex_of_len 128 (cred_signature (cs ! i)) \<and> cred_core (cs ! i) =
       hop_credential L F (depth + i) (scopes ! i) (if i = 0 then parent_id else Some (fx_ident F (depth + i - 1))))"
  using assms(3-)
proof (induction scopes arbitrary: depth parent_id)
  case (Cons s scopes)
  let ?c = "hop_credential L F depth s parent_id"
  have id0: "list_all encodable (fx_ident F depth)" using Cons.prems(2) by fastforce
  have "cred_encodable ?c" using Cons.prems(1,3,4) id0 by (intro hop_credential_encodable [OF assms(2)]) auto
  then obtain d where d: "cred_sign L (fx_key F depth) ?c = Inr d" using hop_credential_signs [OF assms(2)] by blast
  have post: "cred_post_init ?c = Inr ?c" using hop_credential_wf [OF assms(2)] by (simp add: cred_post_init_iff)
  note hx = cred_sign_hex [OF assms(1) d]
  from cred_sign_verifies [OF assms(1) d] have v: "cred_signed L d" and core: "cred_core d = ?c"
    by (auto simp: cred_signed_def)
  have id: "cred_id d = fx_ident F depth" using cred_core_fields(1) [of d ?c] unfolding core hop_credential_core by (simp add: hop_credential_def)
  have "\<forall>i < length scopes. list_all encodable (fx_ident F (Suc depth + i))" using Cons.prems(2) by fastforce
  then obtain cs where cs: "signed_hops L F (Suc depth) scopes (Some (fx_ident F depth)) = Inr cs" "length cs = length scopes"
    "\<forall>i < length scopes. cred_signed L (cs ! i) \<and> lower_hex_of_len 128 (cred_signature (cs ! i)) \<and> cred_core (cs ! i) =
       hop_credential L F (Suc depth + i) (scopes ! i) (if i = 0 then Some (fx_ident F depth) else Some (fx_ident F (Suc depth + i - 1)))"
    using Cons.IH [of "Suc depth" "Some (fx_ident F depth)"] Cons.prems(1,3) id0 by auto
  have "cred_signed L ((d # cs) ! i) \<and> lower_hex_of_len 128 (cred_signature ((d # cs) ! i)) \<and> cred_core ((d # cs) ! i) =
      hop_credential L F (depth + i) ((s # scopes) ! i) (if i = 0 then parent_id else Some (fx_ident F (depth + i - 1)))"
    if "i < Suc (length scopes)" for i
    using that cs(3) v core hx by (cases i) auto
  then show ?case using post d id cs by (intro exI [of _ "d # cs"]) simp
qed simp

lemma signed_hops_built:
  assumes "ed25519_correct L" and "fixture_ok F scopes"
  obtains chain where "signed_hops L F 0 scopes None = Inr chain" and "built_by L F scopes chain"
  using signed_hops_spec [OF assms(1), of F 0 scopes None] assms(2)
  by (auto simp: fixture_ok_def built_by_def parent_of_def)

lemma built_fields:
  assumes "built_by L F scopes chain" and "i < length scopes"
  shows "cred_id (chain ! i) = fx_ident F i" "cred_issuer (chain ! i) = fx_public L F i"
    "cred_subject (chain ! i) = fx_public L F (Suc i)" "cred_scope (chain ! i) = scopes ! i"
    "cred_depth (chain ! i) = int i" "cred_parent_id (chain ! i) = parent_of F i"
    "cred_not_before (chain ! i) = fx_not_before F" "cred_not_after (chain ! i) = fx_not_after F"
    "cred_signed L (chain ! i)" "lower_hex_of_len 128 (cred_signature (chain ! i))"
proof -
  have "cred_core (chain ! i) = cred_core (hop_credential L F i (scopes ! i) (parent_of F i))"
    using assms by (simp add: built_by_def)
  from cred_core_fields [OF this] show "cred_id (chain ! i) = fx_ident F i" "cred_issuer (chain ! i) = fx_public L F i"
    "cred_subject (chain ! i) = fx_public L F (Suc i)" "cred_scope (chain ! i) = scopes ! i"
    "cred_depth (chain ! i) = int i" "cred_parent_id (chain ! i) = parent_of F i"
    "cred_not_before (chain ! i) = fx_not_before F" "cred_not_after (chain ! i) = fx_not_after F"
    by (simp_all add: hop_credential_def)
qed (use assms in \<open>simp_all add: built_by_def\<close>)

lemma built_length: "built_by L F scopes chain \<Longrightarrow> length chain = length scopes"
  by (simp add: built_by_def)

lemma built_take: "built_by L F scopes chain \<Longrightarrow> built_by L F (take n scopes) (take n chain)"
  by (auto simp: built_by_def)

lemma built_wire_ok:
  assumes "ed25519_correct L" and "built_by L F scopes chain" and "window_ok F" and "\<And>i. fx_ident F i \<noteq> []"
    and "\<forall>s \<in> set scopes. s \<noteq> {||} \<and> [] |\<notin>| s"
  shows "list_all cred_wire_ok chain"
proof -
  note f = built_fields [OF assms(2)]
  have pub: "lower_hex_of_len 64 (fx_public L F i)" for i
    using assms(1) by (simp add: fx_public_def ed25519_correct_def)
  have "cred_wire_ok (chain ! i)" if "i < length scopes" for i
    using that assms(3-5) by (auto simp: cred_wire_ok_def cred_wf_def window_ok_def f pub parent_of_def split: if_splits)
  with built_length [OF assms(2)] show ?thesis by (simp add: list_all_length)
qed

lemma built_encodable:
  assumes "built_by L F scopes chain" and "fixture_ok F scopes" and "c \<in> set chain"
  shows "cred_encodable c"
proof -
  obtain i where i: "i < length scopes" "c = chain ! i" using assms(3) built_length [OF assms(1)] by (auto simp: in_set_conv_nth)
  have "cred_encodable (hop_credential L F i (scopes ! i) (parent_of F i))"
    by (rule hop_credential_encodable) (use assms(2) i(1) in \<open>auto simp: fixture_ok_def parent_of_def split: if_splits\<close>)
  moreover have "cred_core c = cred_core (hop_credential L F i (scopes ! i) (parent_of F i))"
    using assms(1) i by (simp add: built_by_def)
  note cred_core_fields [OF this]
  ultimately show ?thesis by (simp add: cred_encodable_def)
qed

text \<open>The window of a fixture at a time.\<close>

definition fx_open :: "fixture \<Rightarrow> int \<Rightarrow> bool" where
  "fx_open F now \<longleftrightarrow> (\<forall>b \<in> set_option (fx_not_before F). b \<le> now) \<and> (\<forall>b \<in> set_option (fx_not_after F). now \<le> b)"

lemma plain_open [simp]: "fx_open (plain_fixture key ident) now"
  by (simp add: fx_open_def)

lemma built_chain_valid:
  assumes "built_by L F scopes chain" and "scopes \<noteq> []" and "inj_on (fx_ident F) {..<length scopes}"
    and "successively (\<lambda>p c. c |\<subseteq>| p) scopes" and "int (length scopes) \<le> md + 1" and "fx_open F now"
  shows "chain_valid L md {fx_public L F 0} now chain"
proof -
  note f = built_fields [OF assms(1)]
  have len: "length chain = length scopes" using assms(1) by (rule built_length)
  then have ne: "chain \<noteq> []" "0 < length scopes" using assms(2) by auto
  have "distinct (map cred_id chain)" using assms(3) by (auto simp: distinct_conv_nth len f inj_on_def)
  moreover have "successively delegates chain"
    using assms(4) by (auto simp: successively_conv_nth len delegates_def f parent_of_def)
  moreover have "cred_signed L c \<and> in_window now c \<and> cred_depth c \<le> md" if "c \<in> set chain" for c
    using that assms(5,6) by (auto simp: in_set_conv_nth len in_window_def fx_open_def f)
  ultimately show ?thesis
    using ne f(2,5,6) [of 0] by (simp add: chain_valid_def hd_conv_nth parent_of_def)
qed

section \<open>The verifier answers for the first hop that fails\<close>

lemma verify_hops_append:
  "verify_hops L md now i seen prev (xs @ ys) =
     bindE (verify_hops L md now i seen prev xs) (\<lambda>_.
     verify_hops L md now (i + length xs) (seen \<union> cred_id ` set xs) (if xs = [] then prev else Some (last xs)) ys)"
proof (induction xs arbitrary: i seen prev)
  case (Cons x xs)
  then show ?case by (cases "check_hop L md now i seen prev x") auto
qed simp

text \<open>
  The options of a call with no clock of its own and no revocations, the verifier's defaults but the
  depth bound, under one trusted root.
\<close>

definition plain_args :: "int \<Rightarrow> ustr \<Rightarrow> int \<Rightarrow> chain_args" where
  "plain_args md anchor clock =
     \<lparr>ca_max_depth = md, ca_trusted = {anchor}, ca_at_time = None, ca_revocations = None, ca_max_staleness = None, ca_clock = clock\<rparr>"

lemma plain_args_accepts:
  "verify_chain L (plain_args md anchor clock) chain = Inr REVOCATION_NOT_CHECKED \<longleftrightarrow> chain_valid L md {anchor} clock chain"
  by (simp add: verify_chain_Inr_iff plain_args_def args_ok_def eval_time_def revocation_ok_def)

lemma first_bad_hop:
  assumes "chain_valid L md {anchor} clock chain"
    and "check_hop L md clock (length chain) (cred_id ` set chain) (Some (last chain)) c = Inl e"
  shows "verify_chain L (plain_args md anchor clock) (chain @ c # rest) = Inl e"
proof -
  obtain c0 cs where chain: "chain = c0 # cs" and tr: "cred_issuer c0 = anchor"
    using assms(1) by (cases chain) (auto simp: chain_valid_def)
  have "verify_hops L md clock 0 {} None chain = Inr ()"
    using assms(1) chain tr by (subst verify_hops_chain [where trusted = "{anchor}"]) auto
  then have "verify_hops L md clock 0 {} None (chain @ c # rest) = Inl e"
    using assms(2) chain by (simp add: verify_hops_append del: append_Cons)
  with chain tr show ?thesis by (auto simp: verify_chain_def plain_args_def eval_time_def simp del: verify_hops.simps)
qed

lemma escalating_hop:
  assumes "cred_signed L c" and "in_window now c" and "cred_id c \<notin> seen" and "cred_depth c \<le> md"
    and "cred_parent_id c = Some (cred_id p)" and "cred_issuer c = cred_subject p" and "cred_depth c = cred_depth p + 1"
    and "\<not> cred_scope c |\<subseteq>| cred_scope p"
  shows "check_hop L md now i seen (Some p) c = Inl (refuse ScopeEscalation (hop_msg i '' scope exceeds parent grant''))"
  using assms by (auto simp: check_hop_def check_window_def check_link_def require_def cred_signed_def in_window_def not_less)

text \<open>
  A ladder of scopes that narrows up to a hop and widens there is refused at that hop as an escalation,
  whatever follows it.
\<close>

lemma built_escalates:
  assumes "built_by L F scopes chain" and "inj_on (fx_ident F) {..<length scopes}"
    and "0 < n" and "n < length scopes" and "successively (\<lambda>p c. c |\<subseteq>| p) (take n scopes)"
    and "\<not> scopes ! n |\<subseteq>| scopes ! (n - 1)" and "int n \<le> md" and "fx_open F clock"
  shows "verify_chain L (plain_args md (fx_public L F 0) clock) chain =
    Inl (refuse ScopeEscalation (hop_msg n '' scope exceeds parent grant''))"
proof -
  note f = built_fields [OF assms(1)]
  have len: "length chain = length scopes" using assms(1) by (rule built_length)
  let ?pre = "take n chain"
  have valid: "chain_valid L md {fx_public L F 0} clock ?pre"
  proof (rule built_chain_valid [OF built_take [OF assms(1)] _ _ assms(5)])
    show "inj_on (fx_ident F) {..<length (take n scopes)}" by (rule inj_on_subset [OF assms(2)]) auto
    show "take n scopes \<noteq> []" using assms(3,4) by (cases scopes) auto
  qed (use assms(7,8) in simp_all)
  have last: "last ?pre = chain ! (n - 1)" using assms(3,4) len by (subst last_conv_nth) auto
  have fresh: "cred_id (chain ! n) \<notin> cred_id ` set ?pre"
    using inj_onD [OF assms(2), of n] assms(4) len by (fastforce simp: in_set_conv_nth f)
  have "check_hop L md clock (length ?pre) (cred_id ` set ?pre) (Some (last ?pre)) (chain ! n) =
      Inl (refuse ScopeEscalation (hop_msg n '' scope exceeds parent grant''))"
    using assms(3,4,6-8) len fresh unfolding last
    by (subst escalating_hop) (auto simp: f in_window_def fx_open_def parent_of_def min_def of_nat_diff)
  from first_bad_hop [OF valid this] show ?thesis
    using assms(4) len by (metis id_take_nth_drop)
qed

end
