(* ===== verification/Benchmark.thy ===== *)
theory Benchmark
  imports Fixtures
begin

text \<open>
  The chain-verification benchmark, \<open>ca2a_runtime/benchmarks.py\<close>: the chain it builds, the rounds it measures and the
  exit code. Fresh keys, the clock of the verifier, the measured times and the float arithmetic on
  them are arguments. The lemmas show that a round never measures a refusal, for chains of any
  length, and that a run of no rounds raises.
\<close>

section \<open>The benchmark\<close>

definition bench_scope :: "ustr fset" where
  "bench_scope = fset_of_list (map (\<lambda>i. str ''cap:'' @ nat_str i) [0..<16])"

definition build_chain :: "lib \<Rightarrow> (nat \<Rightarrow> bytes) \<Rightarrow> nat \<Rightarrow> delegation_credential list res" where
  "build_chain L key hops = signed_hops L (plain_fixture key (dash_id ''cred'')) 0 (replicate hops bench_scope) None"

text \<open>
  The keys, clock and elapsed milliseconds of each round; \<open>int(n * 0.99)\<close> and the mean in floats.
\<close>

record bench_env =
  be_keys :: "nat \<Rightarrow> nat \<Rightarrow> bytes"
  be_clock :: "nat \<Rightarrow> int"
  be_latency :: "nat \<Rightarrow> rat"
  be_index :: "nat \<Rightarrow> nat"
  be_mean :: "rat list \<Rightarrow> rat"

definition bench_args :: "bench_env \<Rightarrow> nat \<Rightarrow> delegation_credential list \<Rightarrow> chain_args" where
  "bench_args env i chain =
     \<lparr>ca_max_depth = 64, ca_trusted = {cred_issuer (chain ! 0)}, ca_at_time = None, ca_revocations = None, ca_max_staleness = None,
      ca_clock = be_clock env i\<rparr>"

definition bench_round :: "lib \<Rightarrow> bench_env \<Rightarrow> nat \<Rightarrow> rat res" where
  "bench_round L env i =
     bindE (build_chain L (be_keys env i) 2) (\<lambda>chain.
     bindE (require (chain \<noteq> []) (PyExn IndexError)) (\<lambda>_.
     bindE (verify_chain L (bench_args env i chain) chain) (\<lambda>_. Inr (be_latency env i))))"

record bench_result =
  br_hops :: int
  br_p99_ms :: rat
  br_mean_ms :: rat

text \<open>\<open>run\<close>; the result is written when an output directory is given, and \<open>latencies[-1]\<close> of no rounds raises.\<close>

definition bench_run :: "lib \<Rightarrow> bench_env \<Rightarrow> int \<Rightarrow> (bench_result \<Rightarrow> unit res) option \<Rightarrow> bench_result res" where
  "bench_run L env hops out =
     bindE (traverseE (bench_round L env) [0..<nat hops]) (\<lambda>measured.
     let latencies = sort measured in
     bindE (require (latencies \<noteq> []) (PyExn IndexError)) (\<lambda>_.
     let result = \<lparr>br_hops = hops, br_p99_ms = latencies ! min (length latencies - 1) (be_index env (length latencies)),
        br_mean_ms = be_mean env latencies\<rparr> in
     bindE (case out of None \<Rightarrow> Inr () | Some write \<Rightarrow> write result) (\<lambda>_. Inr result)))"

definition bench_main :: "lib \<Rightarrow> bench_env \<Rightarrow> int \<Rightarrow> (bench_result \<Rightarrow> unit res) option \<Rightarrow> int res" where
  "bench_main L env hops out =
     bindE (bench_run L env hops out) (\<lambda>result. Inr (if 5 \<le> br_p99_ms result then 1 else 0))"

section \<open>Lemmas\<close>

lemma bench_scope_encodable: "\<forall>c \<in> fset bench_scope. list_all encodable c"
  by (auto simp: bench_scope_def fset_of_list.rep_eq)

lemma build_chain_valid:
  assumes "ed25519_correct L" and "0 < hops" and "int hops \<le> md + 1" and "md \<le> MAX_SAFE_INTEGER"
  shows "\<exists>cs. build_chain L key hops = Inr cs \<and> length cs = hops \<and> chain_valid L md {cred_issuer (cs ! 0)} now cs"
proof -
  have "fixture_ok (plain_fixture key (dash_id ''cred'')) (replicate hops bench_scope)"
    using assms(3,4) bench_scope_encodable by (simp add: fixture_ok_def dash_id_def)
  then obtain cs where cs: "build_chain L key hops = Inr cs" and b: "built_by L (plain_fixture key (dash_id ''cred'')) (replicate hops bench_scope) cs"
    unfolding build_chain_def by (rule signed_hops_built [OF assms(1)])
  have "chain_valid L md {fx_public L (plain_fixture key (dash_id ''cred'')) 0} now cs"
    by (rule built_chain_valid [OF b]) (use assms in \<open>auto simp: successively_conv_nth inj_on_def\<close>)
  with cs built_length [OF b] built_fields(2) [OF b, of 0] assms(2) show ?thesis by simp
qed

section \<open>What a run measures\<close>

text \<open>
  The chains the benchmark builds, of any length up to the depth bound, are accepted by the verifier
  when the root it builds them under is trusted.
\<close>

theorem built_chain_verifies:
  assumes "ed25519_correct L" and "0 < hops" and "hops \<le> 65"
  shows "\<exists>chain. build_chain L key hops = Inr chain \<and> length chain = hops \<and>
    verify_chain L (bench_args env i chain) chain = Inr REVOCATION_NOT_CHECKED"
proof -
  obtain cs where cs: "build_chain L key hops = Inr cs" "length cs = hops"
    and v: "chain_valid L 64 {cred_issuer (cs ! 0)} (be_clock env i) cs"
    using build_chain_valid [OF assms(1,2), of 64 key "be_clock env i"] assms(3) by (auto simp: MAX_SAFE_INTEGER_def)
  from v have "verify_chain L (bench_args env i cs) cs = Inr REVOCATION_NOT_CHECKED"
    by (simp add: verify_chain_Inr_iff bench_args_def args_ok_def eval_time_def revocation_ok_def)
  with cs show ?thesis by blast
qed

lemma bench_round_returns: "ed25519_correct L \<Longrightarrow> bench_round L env i = Inr (be_latency env i)"
proof -
  assume "ed25519_correct L"
  then obtain cs where "build_chain L (be_keys env i) 2 = Inr cs" "length cs = 2"
    "verify_chain L (bench_args env i cs) cs = Inr REVOCATION_NOT_CHECKED"
    using built_chain_verifies [of L 2] by fastforce
  moreover from this(2) have "cs \<noteq> []" by auto
  ultimately show ?thesis by (simp add: bench_round_def)
qed

text \<open>
  A run with at least one round returns: it measures accepted verifications only, its p99 is one of the
  measured times, and the exit code compares that time with the gate. A run of no rounds
  raises \<open>IndexError\<close>.
\<close>

theorem benchmark_returns:
  assumes "ed25519_correct L"
  shows "if 0 < hops
    then \<exists>result. bench_run L env hops None = Inr result \<and> br_hops result = hops \<and>
      (\<exists>i < nat hops. br_p99_ms result = be_latency env i) \<and> bench_main L env hops None = Inr (if 5 \<le> br_p99_ms result then 1 else 0)
    else bench_run L env hops None = Inl (PyExn IndexError)"
proof -
  let ?lat = "sort (map (be_latency env) [0..<nat hops])"
  have t: "traverseE (bench_round L env) xs = Inr (map (be_latency env) xs)" for xs
    by (induction xs) (simp_all add: bench_round_returns [OF assms])
  show ?thesis
  proof (cases "0 < hops")
    case True
    then have len: "0 < length ?lat" by simp
    then have ne: "?lat \<noteq> []" by (rule length_greater_0_conv [THEN iffD1])
    from len have "?lat ! min (length ?lat - 1) k \<in> set ?lat" for k by (intro nth_mem) linarith
    then have "\<exists>i < nat hops. ?lat ! min (length ?lat - 1) k = be_latency env i" for k by fastforce
    with True ne show ?thesis by (simp add: bench_main_def bench_run_def t Let_def)
  next
    case False
    then show ?thesis by (simp add: bench_run_def t Let_def)
  qed
qed

theorem built_chain_verifies_witness:
  "\<exists>chain. build_chain sample_lib (\<lambda>n. [of_nat n]) 3 = Inr chain \<and> length chain = 3"
  using built_chain_verifies [OF sample_ed25519, of 3] by fastforce

end
