(* ===== verification/Fuzz.thy ===== *)
theory Fuzz
  imports Http Tdx Offline Trace
begin

text \<open>
  The fuzz targets of \<open>.clusterfuzzlite\<close>: each reads a value out of random bytes, runs it through the code and
  asserts a property. \<open>FuzzedDataProvider\<close> belongs to \<open>atheris\<close>; it is the record \<open>data_provider\<close> over an
  abstract stream, and \<open>provider_correct\<close> is what its documentation promises. A target ends well,
  fails one of its assertions, or lets an exception escape, which the fuzzer reports as a crash. The
  theorems say for all inputs what the fuzzer can only sample.
\<close>

section \<open>The data provider\<close>

record 's data_provider =
  open_data :: "bytes \<Rightarrow> 's"
  remaining_bytes :: "'s \<Rightarrow> nat"
  consume_int :: "int \<Rightarrow> int \<Rightarrow> 's \<Rightarrow> int \<times> 's"
  consume_bool :: "'s \<Rightarrow> bool \<times> 's"
  consume_text :: "nat \<Rightarrow> 's \<Rightarrow> ustr \<times> 's"
  consume_unicode :: "nat \<Rightarrow> 's \<Rightarrow> ustr \<times> 's"
  consume_bytes :: "nat \<Rightarrow> 's \<Rightarrow> bytes \<times> 's"

text \<open>Integers are in the range asked for; \<open>ConsumeUnicodeNoSurrogates\<close> returns text without surrogates.\<close>

definition provider_correct :: "'s data_provider \<Rightarrow> bool" where
  "provider_correct P \<longleftrightarrow>
     (\<forall>lo hi s. lo \<le> hi \<longrightarrow> lo \<le> fst (consume_int P lo hi s) \<and> fst (consume_int P lo hi s) \<le> hi) \<and>
     (\<forall>n s. list_all encodable (fst (consume_text P n s)))"

datatype fuzz_outcome = Fuzz_ok | Assertion_failed ustr | Escaped exn

section \<open>Canonical JSON\<close>

definition FUZZ_MAX_DEPTH :: nat where
  "FUZZ_MAX_DEPTH = 4"

definition FUZZ_MAX_ITEMS :: int where
  "FUZZ_MAX_ITEMS = 6"

definition FUZZ_SAFE :: int where
  "FUZZ_SAFE = 2 ^ 53 - 1"

text \<open>\<open>[f() for _ in range(n)]\<close> over the stream.\<close>

fun comprehension :: "nat \<Rightarrow> ('s \<Rightarrow> 'a \<times> 's) \<Rightarrow> 's \<Rightarrow> 'a list \<times> 's" where
  "comprehension 0 f s = ([], s)"
| "comprehension (Suc n) f s = (let (x, s) = f s; (xs, s) = comprehension n f s in (x # xs, s))"

text \<open>\<open>_build\<close> with the number of levels still allowed, \<open>_MAX_DEPTH - depth\<close>.\<close>

fun build_value :: "'s data_provider \<Rightarrow> nat \<Rightarrow> 's \<Rightarrow> json \<times> 's" where
  "build_value P 0 s = (let (t, s) = consume_text P 16 s in (JStr t, s))"
| "build_value P (Suc n) s =
     (if remaining_bytes P s = 0 then (let (t, s) = consume_text P 16 s in (JStr t, s))
      else
        let (kind, s) = consume_int P 0 6 s in
        if kind = 0 then (JNull, s)
        else if kind = 1 then (let (b, s) = consume_bool P s in (JBool b, s))
        else if kind = 2 then (let (i, s) = consume_int P (- (2 ^ 54)) (2 ^ 54) s in (JInt i, s))
        else if kind = 3 then (let (t, s) = consume_text P 64 s in (JStr t, s))
        else if kind = 4 then
          (let (k, s) = consume_int P 0 FUZZ_MAX_ITEMS s; (vs, s) = comprehension (nat k) (build_value P n) s in (JList vs, s))
        else
          (let (k, s) = consume_int P 0 FUZZ_MAX_ITEMS s;
               (kvs, s) = comprehension (nat k) (\<lambda>s. let (t, s) = consume_text P 24 s; (v, s) = build_value P n s in ((t, v), s)) s
           in (JObj (dict_update [] kvs), s)))"

fun has_unsafe_int :: "json \<Rightarrow> bool" where
  "has_unsafe_int (JInt i) = (\<not> (- FUZZ_SAFE \<le> i \<and> i \<le> FUZZ_SAFE))"
| "has_unsafe_int (JObj d) = list_ex (\<lambda>(k, v). has_unsafe_int v) d"
| "has_unsafe_int (JList vs) = list_ex has_unsafe_int vs"
| "has_unsafe_int _ = False"

text \<open>
  Python's \<open>==\<close>: a bool equals the integer it counts as, numbers compare by value, dicts regardless of order. A value
  that is not finite or not JSON is taken to equal nothing.
\<close>

definition number_value :: "json \<Rightarrow> rat option" where
  "number_value v = (case v of JFloat q \<Rightarrow> q | _ \<Rightarrow> map_option of_int (as_int_or_bool v))"

function (sequential) py_eq :: "json \<Rightarrow> json \<Rightarrow> bool" where
  "py_eq JNull w = (w = JNull)"
| "py_eq (JStr s) w = (w = JStr s)"
| "py_eq (JList vs) w =
     (case w of
        JList ws \<Rightarrow> length vs = length ws \<and> list_all (\<lambda>x. py_eq (fst x) (snd x)) (zip vs ws)
      | _ \<Rightarrow> False)"
| "py_eq (JObj d) w =
     (case w of
        JObj e \<Rightarrow> length d = length e \<and>
          list_all (\<lambda>kv. case dict_get e (fst kv) of None \<Rightarrow> False | Some u \<Rightarrow> py_eq (snd kv) u) d
      | _ \<Rightarrow> False)"
| "py_eq v w = (number_value v \<noteq> None \<and> number_value v = number_value w)"
  by pat_completeness auto
termination
proof (relation "measure (\<lambda>(v, w). size v)")
  fix d e :: jdict and w kv u
  assume "kv \<in> set d"
  then show "((snd kv, u), (JObj d, w)) \<in> measure (\<lambda>(v, w). size v)"
    by (induction d) (auto simp: less_Suc_eq)
next
  fix vs ws :: "json list" and w x
  assume "x \<in> set (zip vs ws)"
  then have "fst x \<in> set vs" using set_zip_leftD [of "fst x" "snd x" vs ws] by simp
  then have "size (fst x) \<le> size_list size vs" by (rule size_list_estimation') simp
  then show "((fst x, snd x), (JList vs, w)) \<in> measure (\<lambda>(v, w). size v)" by (simp add: case_prod_unfold)
qed auto

definition fuzz_canonical_json :: "lib \<Rightarrow> 's data_provider \<Rightarrow> bytes \<Rightarrow> fuzz_outcome" where
  "fuzz_canonical_json L P data =
     (let value = fst (build_value P FUZZ_MAX_DEPTH (open_data P data)) in
      case canonicalize value of
        Inl e \<Rightarrow>
          if \<not> is_value_error e then Escaped e
          else if has_unsafe_int value then Fuzz_ok else Assertion_failed (str ''canonicalize() refused an in-domain value'')
      | Inr out \<Rightarrow>
          if has_unsafe_int value then Assertion_failed (str ''an out-of-domain integer was serialized'')
          else (case loads_bytes L out of
              None \<Rightarrow> Escaped (PyExn ValueError)
            | Some again \<Rightarrow>
                if \<not> py_eq again value then Assertion_failed (str ''canonical bytes did not round-trip'')
                else (case canonicalize again of
                    Inl e \<Rightarrow> Escaped e
                  | Inr out' \<Rightarrow> if out' = out then Fuzz_ok else Assertion_failed (str ''canonical form is not a fixed point''))))"

section \<open>Attestation parsers\<close>

definition suppress :: "(exn \<Rightarrow> bool) \<Rightarrow> 'a res \<Rightarrow> fuzz_outcome" where
  "suppress caught m = (case m of Inr _ \<Rightarrow> Fuzz_ok | Inl e \<Rightarrow> if caught e then Fuzz_ok else Escaped e)"

definition FUZZ_SECRET :: bytes where
  "FUZZ_SECRET = replicate 32 0"

definition fuzz_attestation_parsers ::
  "lib \<Rightarrow> ('c, 'k) x509_ops \<Rightarrow> snp_lib \<Rightarrow> tpm_verify_lib \<Rightarrow> int \<Rightarrow> 's data_provider \<Rightarrow> bytes \<Rightarrow> fuzz_outcome" where
  "fuzz_attestation_parsers L X S V now P data =
     (if data = [] then Fuzz_ok
      else
        let (choice, s) = consume_int P 0 4 (open_data P data);
            blob = fst (consume_bytes P (remaining_bytes P s) s) in
        if choice = 4
        then suppress (is_class AttestationFailed) (verify_challenge L FUZZ_SECRET (fst (consume_unicode P (remaining_bytes P s) s)) now)
        else if choice = 0 then suppress (is_class AttestationFailed) (tdx_parse X blob)
        else if choice = 1 then suppress (is_class AttestationFailed) (snp_parse S blob)
        else if choice = 2 then suppress (is_class AttestationFailed) (tpm_quote_parse blob)
        else suppress (is_class AttestationFailed) (parse_tpmt_signature V blob))"

section \<open>Wire documents\<close>

definition FUZZ_ROOT :: "lib \<Rightarrow> ustr" where
  "FUZZ_ROOT L = hex (ed_public L (replicate 32 1))"

definition fuzz_node :: "lib \<Rightarrow> bytes \<Rightarrow> bytes \<Rightarrow> peer_node res" where
  "fuzz_node L private secret =
     mk_node L \<lparr>na_policy = LocalPolicy {|str ''read'', str ''write''|}, na_provider = None, na_max_depth = 8,
       na_requirement = REQUIRE_NONE, na_caller_verifier = None, na_ttl = DEFAULT_TTL_SECONDS, na_require_holder = True,
       na_trusted = {FUZZ_ROOT L}, na_has_source = False, na_max_staleness = None\<rparr> private secret"

definition fuzz_handle :: "lib \<Rightarrow> peer_node \<Rightarrow> call_env \<Rightarrow> json \<Rightarrow> unit res" where
  "fuzz_handle L node env doc =
     (case as_obj doc of None \<Rightarrow> Inr () | Some d \<Rightarrow> bindE (node_handle L node env d) (\<lambda>_. Inr ()))"

definition fuzz_revocations :: "lib \<Rightarrow> json \<Rightarrow> unit res" where
  "fuzz_revocations L doc = bindE (snap_from_dict L doc) (\<lambda>_. Inr ())"

definition fuzz_chain :: "lib \<Rightarrow> int \<Rightarrow> json \<Rightarrow> unit res" where
  "fuzz_chain L clock doc =
     bindE (parse_chain doc) (\<lambda>chain.
     bindE (verify_delegation_chain L \<lparr>ca_max_depth = 8, ca_trusted = {FUZZ_ROOT L}, ca_at_time = None, ca_revocations = None,
       ca_max_staleness = None, ca_clock = clock\<rparr> chain) (\<lambda>_. Inr ()))"

definition fuzz_dag :: "trace_lib \<Rightarrow> (nat \<Rightarrow> int) \<Rightarrow> json \<Rightarrow> unit res" where
  "fuzz_dag T clock doc =
     (let doc = (case as_obj doc of None \<Rightarrow> doc | Some d \<Rightarrow> dict_get_or d ''records'' doc) in
      case as_list doc of
        Some (r # rs) \<Rightarrow> bindE (verify_trace_dag T clock [] None (r # rs)) (\<lambda>_. Inr ())
      | _ \<Rightarrow> Inr ())"

text \<open>The parts of the target that it builds once, and the readings of its clocks.\<close>

record fuzz_env =
  fz_node :: peer_node
  fz_call :: call_env
  fz_trace :: trace_lib
  fz_trace_clock :: "nat \<Rightarrow> int"

definition fuzz_target :: "lib \<Rightarrow> fuzz_env \<Rightarrow> int \<Rightarrow> json \<Rightarrow> unit res" where
  "fuzz_target L F choice doc =
     (if choice = 0 then fuzz_handle L (fz_node F) (fz_call F) doc
      else if choice = 1 then fuzz_revocations L doc
      else if choice = 2 then fuzz_chain L (env_chain_clock (fz_call F)) doc
      else fuzz_dag (fz_trace F) (fz_trace_clock F) doc)"

definition fuzz_wire_documents :: "lib \<Rightarrow> fuzz_env \<Rightarrow> 's data_provider \<Rightarrow> bytes \<Rightarrow> fuzz_outcome" where
  "fuzz_wire_documents L F P data =
     (if data = [] then Fuzz_ok
      else
        let (choice, s) = consume_int P 0 4 (open_data P data);
            raw = fst (consume_bytes P (remaining_bytes P s) s) in
        if choice = 4 then suppress is_ca2a (decode_body L raw)
        else (case loads_bytes L raw of
            None \<Rightarrow> Fuzz_ok
          | Some doc \<Rightarrow> suppress is_ca2a (fuzz_target L F choice doc)))"

section \<open>Canonical bytes read back\<close>

lemma utf8_pass_dec: "utf8_dec bs = Some s \<Longrightarrow> utf8_pass bs = Some s"
proof (induction bs arbitrary: s rule: utf8_dec.induct)
  case (1 bs)
  show ?case
  proof (cases "bs = []")
    case True
    with "1.prems" show ?thesis by (simp add: utf8_dec.simps utf8_pass.simps)
  next
    case False
    let ?c = "utf8_next bs" and ?k = "length (utf8_units (utf8_next bs))"
    from False "1.prems" obtain t where t: "utf8_dec (drop ?k bs) = Some t" and s: "s = ?c # t"
      and ok: "encodable ?c" "take ?k bs = utf8_units ?c"
      by (auto simp: utf8_dec.simps [of bs] Let_def split: if_splits)
    have "utf8_pass (drop ?k bs) = Some t" by (rule "1.IH" [OF False refl refl _ t]) (use ok in simp)
    with False s ok show ?thesis by (subst utf8_pass.simps) (simp add: Let_def encodable_def)
  qed
qed

lemma escape_no_control: "c \<in> set (escape_string s) \<Longrightarrow> 32 \<le> c"
proof -
  have "32 \<le> c" if "c \<in> set (escape_char d)" for d
  proof -
    have h: "32 \<le> hex_digit n" if "n < 16" for n using hex_digit_lower [OF that] by (auto simp: is_lower_hex_def)
    show ?thesis using that
      by (auto simp: escape_char_def hex4_def SHORT_ESCAPES_cases h split: option.splits if_splits)
  qed
  then show "c \<in> set (escape_string s) \<Longrightarrow> 32 \<le> c" by (auto simp: escape_string_def)
qed

lemma render_no_control: "c \<in> set (render v) \<Longrightarrow> 32 \<le> c"
proof (induction v arbitrary: c)
  case (JInt i)
  then show ?case by (auto simp: int_str_def is_digit_def dest!: nat_str_digits [unfolded list_all_iff, rule_format] split: if_splits)
next
  case (JList vs)
  then show ?case using join_set [of "[44]" "map render vs"] by fastforce
next
  case (JObj kvs)
  have "32 \<le> c" if "c \<in> set (escape_string k @ [58] @ render w)" "(k, w) \<in> set kvs" for k w c
    using JObj.IH [OF that(2), of w c] that escape_no_control [of c k] by auto
  then show ?case using JObj.prems join_set [of "[44]" "map (\<lambda>(k, v). escape_string k @ [58] @ render v) kvs"] by fastforce
qed (auto simp: escape_no_control str_def split: if_splits)

lemma render_ne: "json_ok v \<Longrightarrow> render v \<noteq> [] \<and> hd (render v) < 128"
  using int_str_start [of "case v of JInt i \<Rightarrow> i | _ \<Rightarrow> 0"]
  by (cases v) (auto simp: str_simps escape_string_def is_digit_def)

lemma utf8_units_nonzero: "c \<noteq> 0 \<Longrightarrow> 0 \<notin> set (utf8_units c)"
  by (auto simp: utf8_units_def split: if_splits)

lemma detect_nonzero:
  assumes "0 \<notin> set b" and "b \<noteq> []" and "hd b < 128"
  shows "detect_encoding b = (UTF8, 0)"
proof -
  have "take n b \<noteq> x # xs" if "x = 0 \<or> 128 \<le> x" for n x xs
    using that assms by (cases b; cases n) auto
  moreover have n: "b ! i \<noteq> 0" if "i < length b" for i using that assms(1) nth_mem [of i b] by metis
  have "b ! 0 \<noteq> 0" "b ! 1 \<noteq> 0" if "2 \<le> length b" using that n [of 0] n [of 1] by linarith+
  ultimately show ?thesis by (auto simp: detect_encoding_def)
qed

text \<open>Canonical bytes read back, as bytes, to the normal form of the value.\<close>

lemma loads_canonical_bytes:
  assumes "json_wf v" and "canonicalize v = Inr raw"
  shows "loads_bytes L raw = Some (jnorm v)"
proof -
  obtain s where s: "utf8_decode raw = Some s" "json_loads L default_hook s = Some (jnorm v)"
    using json_loads_canonical [OF default_hook_ok assms] by blast
  from assms(2) obtain t where t: "serialize v = Inr t" "utf8 t = Some raw" by (auto simp: canonicalize_Inr_iff)
  with serialize_render [OF t(1)] s(1) utf8_decode_encode [OF t(2)] have r: "s = render (jnorm v)" by simp
  have bytes: "map unat raw = concat (map utf8_units s)"
    using s(1) utf8_dec_Some by (fastforce simp: utf8_decode_def)
  have ne: "s \<noteq> []" "hd s < 128" using render_ne [of "jnorm v"] canonicalize_json_ok [OF assms(2)] r by simp_all
  have "0 \<notin> set (map unat raw)"
    using render_no_control [of _ "jnorm v"] utf8_units_nonzero by (fastforce simp: bytes r)
  moreover have "map unat raw \<noteq> [] \<and> hd (map unat raw) < 128"
    using ne by (cases s) (auto simp: bytes utf8_units_def)
  ultimately have "detect_encoding (map unat raw) = (UTF8, 0)" by (intro detect_nonzero) auto
  moreover have "utf8_pass (map unat raw) = Some s" using s(1) by (intro utf8_pass_dec) (simp add: utf8_decode_def)
  ultimately show ?thesis using s(2) by (simp add: loads_bytes_def decode_detected_def)
qed

section \<open>Values the fuzzer builds\<close>

fun fuzz_value :: "json \<Rightarrow> bool" where
  "fuzz_value (JStr s) \<longleftrightarrow> list_all encodable s"
| "fuzz_value (JList vs) \<longleftrightarrow> list_all fuzz_value vs"
| "fuzz_value (JObj d) \<longleftrightarrow> dict_wf d \<and> list_all (\<lambda>(k, v). list_all encodable k \<and> fuzz_value v) d"
| "fuzz_value (JFloat _) \<longleftrightarrow> False"
| "fuzz_value (JOther _) \<longleftrightarrow> False"
| "fuzz_value _ \<longleftrightarrow> True"

lemma comprehension_all:
  assumes "\<And>s. Q (fst (f s))"
  shows "list_all Q (fst (comprehension n f s))"
  using assms by (induction n f s rule: comprehension.induct) (auto simp: Let_def split: prod.splits, metis fst_conv)

lemma dict_update_values: "set (dict_update d e) \<subseteq> set d \<union> set e"
proof (induction d e rule: dict_update.induct)
  case (2 d k v kvs)
  have "set (dict_set k v d) \<subseteq> insert (k, v) (set d)" by (induction d) (auto simp: dict_set_def)
  with 2 show ?case by auto
qed simp

lemma dict_wf_update: "dict_wf d \<Longrightarrow> dict_wf (dict_update d e)"
  by (induction d e rule: dict_update.induct) (simp_all add: dict_wf_set)

lemma build_value_shape:
  assumes "provider_correct P"
  shows "fuzz_value (fst (build_value P n s))"
proof (induction n arbitrary: s)
  case 0
  then show ?case using assms by (auto simp: provider_correct_def split: prod.splits) (metis fst_conv)
next
  case (Suc n)
  have tx: "list_all encodable (fst (consume_text P k s))" for k s using assms by (simp add: provider_correct_def)
  let ?item = "\<lambda>s. let (t, s) = consume_text P 24 s; (v, s) = build_value P n s in ((t, v), s)"
  have "case fst (?item s) of (k, v) \<Rightarrow> list_all encodable k \<and> fuzz_value v" for s
    using tx [of 24 s] Suc.IH by (auto simp: Let_def split: prod.splits) (metis fst_conv)
  then have items: "list_all (\<lambda>(k, v). list_all encodable k \<and> fuzz_value v) (fst (comprehension k ?item s))" for k s
    by (rule comprehension_all)
  have obj: "fuzz_value (JObj (dict_update [] (fst (comprehension k ?item s))))" for k s
    using items [of k s] dict_update_values [of "[]" "fst (comprehension k ?item s)"] dict_wf_update [of "[]"]
    by (auto simp: list_all_iff)
  have list: "fuzz_value (JList (fst (comprehension k (build_value P n) s)))" for k s
    using comprehension_all [where Q = fuzz_value and f = "build_value P n"] Suc.IH by simp
  show ?case using tx obj list by (simp add: case_prod_unfold Let_def)
qed

lemma fuzz_value_ok: "fuzz_value v \<Longrightarrow> json_ok v \<longleftrightarrow> \<not> has_unsafe_int v"
proof (induction v)
  case (JObj d)
  then have "json_ok v \<longleftrightarrow> \<not> has_unsafe_int v" "list_all encodable k" if "(k, v) \<in> set d" for k v
    using that by (fastforce simp: list_all_iff)+
  then show ?case by (fastforce simp: list_all_iff list_ex_iff)
qed (auto simp: list_all_iff list_ex_iff MAX_SAFE_INTEGER_def FUZZ_SAFE_def)

lemma fuzz_value_plain: "fuzz_value v \<Longrightarrow> plain v"
  by (induction v) (auto simp: list_all_iff)

lemma fuzz_value_wf: "fuzz_value v \<Longrightarrow> json_wf v"
  by (induction v) (auto simp: list_all_iff)

text \<open>A value equals its normal form.\<close>

lemma py_eq_jnorm: "fuzz_value v \<Longrightarrow> py_eq (jnorm v) v"
proof (induction v)
  case (JList vs)
  then show ?case by (auto simp: list_all_iff zip_map1 zip_same_conv_map)
next
  case (JObj d)
  then have wf: "dict_wf d" by simp
  have "case dict_get d (fst kv) of None \<Rightarrow> False | Some u \<Rightarrow> py_eq (jnorm (snd kv)) u" if "kv \<in> set d" for kv
  proof -
    obtain k v where kv: "kv = (k, v)" by (rule prod.exhaust)
    with that JObj.prems have "fuzz_value v" by (auto simp: list_all_iff)
    with JObj.IH [of "(k, v)" v] that kv have "py_eq (jnorm v) v" by simp
    moreover have "dict_get d k = Some v" using wf that kv by (simp add: dict_get_def)
    ultimately show ?thesis by (simp add: kv)
  qed
  then show ?case unfolding jnorm_JObj by (simp add: list_all_iff del: jnorm.simps cong: option.case_cong)
qed (auto simp: number_value_def as_int_or_bool_def)

section \<open>Refusals of the pipeline\<close>

lemma verify_caller_holds_leaf_exn:
  assumes "pr_chain req \<noteq> []" and "verify_caller_holds_leaf L cfg req = Inl e"
  shows "is_ca2a e \<or> is_value_error e"
  using assms by (auto simp: verify_caller_holds_leaf_def dest: verify_holder_proof_exn split: option.splits)

lemma appraise_exn:
  assumes "pr_chain req \<noteq> []" and "verifier_contract (cfg_caller_verifier cfg)" and "appraise_caller_runtime L cfg req eff = Inl e"
  shows "is_ca2a e \<or> is_value_error e"
  using assms(1,3)
  by (auto simp: appraise_caller_runtime_def split: option.splits if_splits
      dest!: refuse_caller_InlD appraise_offer_exn [OF assms(1,2)])

lemma open_payload_exn: "open_payload L cfg req = Inl e \<Longrightarrow> is_ca2a e"
  by (auto simp: open_payload_def bindE_Inl_iff dest: open_sealed_exn split: option.splits)

text \<open>
  The inbound pipeline refuses with a \<open>CA2AError\<close>. The only other exception is a ValueError of a text that cannot be
  encoded, and only behind a chain that verified.
\<close>

lemma handle_peer_request_exn:
  assumes "verifier_contract (cfg_caller_verifier cfg)" and "args_ok (chain_args_of cfg)" and "handle_peer_request L cfg req = Inl e"
  shows "is_ca2a e \<or> is_value_error e \<and> (\<exists>s. verify_chain L (chain_args_of cfg) (pr_chain req) = Inr s)"
proof (cases "verify_chain L (chain_args_of cfg) (pr_chain req)")
  case (Inl e')
  with assms(3) verify_chain_exn [OF assms(2) Inl] show ?thesis by (simp add: handle_peer_request_def)
next
  case (Inr s)
  note ne = verify_chain_ne [OF Inr]
  have "is_ca2a e \<or> is_value_error e"
    using assms(3) Inr ne
    by (auto simp: handle_peer_request_def Let_def bindE_Inl_iff split: if_splits simp del: exn_kinds
        dest!: verify_caller_holds_leaf_exn [OF ne] appraise_exn [OF ne assms(1)] open_payload_exn
          decide_capability_exn [OF ne appraise_caller_runtime_value [OF ne]]) simp_all
  with Inr show ?thesis by blast
qed
lemma node_handle_escapes:
  assumes "verifier_contract (cfg_caller_verifier (node_config node env))" and "args_ok (chain_args_of (node_config node env))"
    and "node_handle L node env d = Inl e" and "\<not> is_ca2a e"
  shows "is_value_error e \<and> (\<exists>request s. parse_peer_request L d None = Inr (Some request) \<and>
    verify_chain L (chain_args_of (node_config node env)) (pr_chain request) = Inr s)"
proof -
  have "parse_peer_request L d None \<noteq> Inl e"
    using raises_onlyD [OF parse_peer_request_raises, of L d None e] assms(4) by (auto simp: refusal_of_def)
  with assms(3,4) obtain request where "parse_peer_request L d None = Inr (Some request)"
    "handle_peer_request L (node_config node env) request = Inl e"
    by (auto simp: node_handle_def guard_simps)
  with handle_peer_request_exn [OF assms(1,2)] assms(4) show ?thesis by blast
qed

lemma st_from_dict_raises: "raises_only is_ca2a (st_from_dict v)"
proof -
  have "raises_only is_ca2a (dict_item d (str k))" if "dict_keys d = STATEMENT_FIELDS" "str k \<in> STATEMENT_FIELDS" for d k
    using that dict_keys_iff [of "str k" d] by (auto simp: raises_only_def dict_item_def)
  then show ?thesis unfolding st_from_dict_def
    by (intro raises_intro) (auto simp: STATEMENT_FIELDS_def mk_statement_def raises_only_def guard_simps)
qed

lemma snap_from_dict_raises: "raises_only is_ca2a (snap_from_dict L v)"
proof -
  have i: "raises_only is_ca2a (dict_item d (str k))" if "dict_keys d = SNAPSHOT_FIELDS" "str k \<in> SNAPSHOT_FIELDS" for d k
    using that dict_keys_iff [of "str k" d] by (auto simp: raises_only_def dict_item_def)
  have "raises_only is_ca2a (build_index L n ss idx)" for n ss idx
    by (induction L n ss idx rule: build_index.induct) (auto simp: raises_only_def guard_simps dest: st_verify_signature_exn)
  then have "raises_only is_ca2a (mk_snapshot L as_of ss)" for as_of ss
    unfolding mk_snapshot_def by (intro raises_intro) simp_all
  then show ?thesis unfolding snap_from_dict_def
    by (intro raises_intro st_from_dict_raises i) (auto simp: SNAPSHOT_FIELDS_def guard_simps)
qed

lemma parse_chain_raises: "raises_only is_ca2a (parse_chain v)"
  unfolding parse_chain_def Let_def
  by (intro raises_intro raises_only_mono [OF cred_from_dict_raises]) (auto simp: refusal_of_def)

text \<open>What the TRACE schema requires of the key of a record it accepts: an object inside an object.\<close>

definition trace_schema_shape :: "trace_lib \<Rightarrow> bool" where
  "trace_schema_shape T \<longleftrightarrow>
     (\<forall>r. validate_json T r = Inr () \<longrightarrow>
        (\<exists>cnf jwk. dict_get r (str ''cnf'') = Some (JObj cnf) \<and> dict_get cnf (str ''jwk'') = Some (JObj jwk)))"
lemma authenticate_untrusted:
  assumes "trace_schema_shape T"
  shows "\<exists>e. authenticate_record T now {} max_age i r = Inl e \<and> is_ca2a e"
proof (cases "validate_json T (base_record r)")
  case (Inl e)
  then show ?thesis by (simp add: authenticate_record_def)
next
  case (Inr u)
  have absent: "k \<notin> dict_keys x" if "dict_get x k = None" for x k using that by (simp add: dict_keys_iff)
  have block: "is_ca2a e" if "validate_delegation_block v n = Inl e" for v n e
    using that by (auto simp: validate_delegation_block_def dict_item_def guard_simps split: if_splits dest!: absent)
  have jwk: "is_ca2a e" if "jwk_raw (JObj d) = Inl e" for d e using that by (auto simp: jwk_raw_def guard_simps)
  obtain cnf d where "dict_get (base_record r) (str ''cnf'') = Some (JObj cnf)" "dict_get cnf (str ''jwk'') = Some (JObj d)"
    using Inr assms unfolding trace_schema_shape_def by fastforce
  then have "embedded_jwk r = Inr (JObj d)" by (simp add: embedded_jwk_def get_or_empty_def)
  then show ?thesis using Inr block jwk
    by (cases "validate_delegation_block (dict_get_none r (str ''delegation'')) i"; cases "jwk_raw (JObj d)")
      (auto simp: authenticate_record_def simp del: exn_kinds, simp)
qed

lemma fuzz_dag_raises:
  assumes "trace_schema_shape T"
  shows "raises_only is_ca2a (fuzz_dag T clock v)"
proof -
  have "is_ca2a e" if "verify_trace_dag T clock [] None (r # rs) = Inl e" for r rs e
  proof (cases "as_obj r")
    case None
    with that show ?thesis by (auto simp: verify_trace_dag_def trusted_raw_keys_def)
  next
    case (Some d)
    obtain x where "authenticate_record T (clock 0) {} None 0 d = Inl x" "is_ca2a x"
      using authenticate_untrusted [OF assms] by blast
    with Some that show ?thesis by (simp add: verify_trace_dag_def trusted_raw_keys_def del: exn_kinds)
  qed
  then show ?thesis by (auto simp: fuzz_dag_def Let_def raises_only_def guard_simps simp del: exn_kinds split: option.splits list.splits)
qed

lemma fuzz_chain_raises: "raises_only is_ca2a (fuzz_chain L clock v)"
proof -
  have "raises_only is_ca2a (verify_delegation_chain L \<lparr>ca_max_depth = md, ca_trusted = tr, ca_at_time = None, ca_revocations = None,
       ca_max_staleness = None, ca_clock = clock\<rparr> cs)" for md tr cs
    unfolding verify_delegation_chain_def
    by (intro raises_intro) (auto simp: raises_only_def args_ok_def simp del: exn_kinds intro!: verify_chain_exn [rotated])
  then show ?thesis unfolding fuzz_chain_def by (intro raises_intro parse_chain_raises)
qed

text \<open>Splitting a text that can be encoded leaves parts that can be.\<close>

lemma split_on_encodable: "list_all encodable s \<Longrightarrow> p \<in> set (split_on c s) \<Longrightarrow> list_all encodable p"
  by (induction s arbitrary: p) (auto split: if_splits list.splits)

lemma verify_challenge_encodable:
  assumes "list_all encodable ch" and "verify_challenge L secret ch now = Inl e"
  shows "is_class AttestationFailed e"
proof -
  have "mac secret i r \<noteq> Inl x" if "list_all encodable r" for i r x
    using that by (auto simp: mac_def challenge_text_def utf8_def encodable_int_str encodable_ascii challenge_prefix_def)
  moreover have "list_all encodable r" if "split_on 46 ch = [p, x, r, m]" for p x r m
    using split_on_encodable [OF assms(1), of r 46] that by simp
  ultimately show ?thesis using assms(2) by (auto simp: verify_challenge_def guard_simps split: list.splits option.splits if_splits)
qed

section \<open>A sample provider\<close>

definition sample_provider :: "bytes data_provider" where
  "sample_provider = \<lparr>open_data = (\<lambda>b. b), remaining_bytes = length,
     consume_int = (\<lambda>lo hi s. case s of [] \<Rightarrow> (lo, []) | b # s \<Rightarrow> (lo + int (unat b) mod (hi - lo + 1), s)),
     consume_bool = (\<lambda>s. case s of [] \<Rightarrow> (False, []) | b # s \<Rightarrow> (odd (unat b), s)),
     consume_text = (\<lambda>n s. (map (\<lambda>b. unat b mod 128) (take n s), drop n s)),
     consume_unicode = (\<lambda>n s. (map unat (take n s), drop n s)),
     consume_bytes = (\<lambda>n s. (take n s, drop n s))\<rparr>"

lemma sample_provider_correct: "provider_correct sample_provider"
proof -
  have "lo \<le> fst (consume_int sample_provider lo hi s) \<and> fst (consume_int sample_provider lo hi s) \<le> hi" if "lo \<le> hi" for lo hi s
  proof (cases s)
    case (Cons b r)
    define x where "x = int (unat b)"
    from that have "0 \<le> x mod (hi - lo + 1)" "x mod (hi - lo + 1) < hi - lo + 1"
      using pos_mod_sign [of "hi - lo + 1" x] pos_mod_bound [of "hi - lo + 1" x] by linarith+
    then show ?thesis unfolding Cons by (simp add: sample_provider_def x_def)
  qed (use that in \<open>simp add: sample_provider_def\<close>)
  then show ?thesis by (auto simp: provider_correct_def sample_provider_def list_all_iff intro!: encodable_ascii)
qed

section \<open>Theorems\<close>

text \<open>
  C39: The canonicalizer fuzz target never fails. Whatever bytes the fuzzer feeds it, the value built from them is either
  refused with ValueError, exactly when it holds an integer outside the safe range, or its canonical bytes load
  back, as bytes, to an equal value whose canonical form is the same bytes.
\<close>

theorem fuzz_canonical_json_ok:
  assumes "provider_correct P"
  shows "fuzz_canonical_json L P data = Fuzz_ok"
proof -
  define v where "v = fst (build_value P FUZZ_MAX_DEPTH (open_data P data))"
  have v: "fuzz_value v" unfolding v_def by (rule build_value_shape [OF assms])
  show ?thesis
  proof (cases "canonicalize v")
    case (Inl e)
    then have "has_unsafe_int v" using canonicalize_ok [of v] fuzz_value_ok [OF v] by auto
    with Inl canonicalize_exn [OF fuzz_value_plain [OF v] Inl] show ?thesis
      by (simp add: fuzz_canonical_json_def v_def [symmetric] Let_def)
  next
    case (Inr out)
    then have "\<not> has_unsafe_int v" using canonicalize_json_ok fuzz_value_ok [OF v] by blast
    with Inr loads_canonical_bytes [OF fuzz_value_wf [OF v] Inr, of L] py_eq_jnorm [OF v] canonicalize_jnorm [OF Inr]
    show ?thesis by (simp add: fuzz_canonical_json_def v_def [symmetric] Let_def)
  qed
qed


text \<open>
  On any input the attestation target returns, or stops with the declared \<open>AttestationFailed\<close>, with one exception: a
  challenge text with a lone surrogate can raise \<open>UnicodeEncodeError\<close>, which escapes.
\<close>

theorem fuzz_attestation_outcome:
  "fuzz_attestation_parsers L X S V now P data = Fuzz_ok \<or>
   fuzz_attestation_parsers L X S V now P data = Escaped (PyExn UnicodeEncodeError) \<and>
     (\<exists>n s. \<not> list_all encodable (fst (consume_unicode P n s)))"
proof -
  have closed: "suppress (is_class AttestationFailed) m = Fuzz_ok" if "fails_closed m" for m :: "'z res"
    using that by (auto simp: suppress_def raises_only_def refusal_of_def split: sum.splits)
  have "fails_closed (snp_parse S blob)" "fails_closed (parse_tpmt_signature V blob)" for blob
    by (auto simp: snp_parse_def parse_tpmt_signature_def raises_only_def refusal_of_def guard_simps split: sum.splits)
  then have parsers: "suppress (is_class AttestationFailed) (tdx_parse X blob) = Fuzz_ok" "suppress (is_class AttestationFailed) (snp_parse S blob) = Fuzz_ok"
    "suppress (is_class AttestationFailed) (tpm_quote_parse blob) = Fuzz_ok"
    "suppress (is_class AttestationFailed) (parse_tpmt_signature V blob) = Fuzz_ok" for blob
    by (simp_all only: closed tdx_parse_raises tpm_quote_parse_raises)
  have challenge: "suppress (is_class AttestationFailed) (verify_challenge L FUZZ_SECRET ch now) = Fuzz_ok \<or>
      suppress (is_class AttestationFailed) (verify_challenge L FUZZ_SECRET ch now) = Escaped (PyExn UnicodeEncodeError) \<and>
      \<not> list_all encodable ch" for ch
  proof (cases "verify_challenge L FUZZ_SECRET ch now")
    case (Inl e)
    with verify_challenge_exn [OF Inl] verify_challenge_encodable [OF _ Inl] show ?thesis by (auto simp: suppress_def)
  qed (simp add: suppress_def)
  let ?s = "snd (consume_int P 0 4 (open_data P data))"
  show ?thesis
    using parsers challenge [of "fst (consume_unicode P (remaining_bytes P ?s) ?s)"]
    by (auto simp: fuzz_attestation_parsers_def Let_def case_prod_unfold)
qed


theorem fuzz_canonical_json_ok_witness:
  "fst (build_value sample_provider FUZZ_MAX_DEPTH [4, 2, 1, 1, 2, 5]) = JList [JBool True, JInt (5 - 2 ^ 54)] \<and>
   fuzz_canonical_json sample_lib sample_provider [4, 2, 1, 1, 2, 5] = Fuzz_ok"
proof
  show "fst (build_value sample_provider FUZZ_MAX_DEPTH [4, 2, 1, 1, 2, 5]) = JList [JBool True, JInt (5 - 2 ^ 54)]"
    by code_simp
qed (rule fuzz_canonical_json_ok [OF sample_provider_correct])

text \<open>The escape is real: a well-formed challenge with a surrogate as its random part.\<close>

definition surrogate_challenge :: ustr where
  "surrogate_challenge = challenge_prefix @ [46, 48, 46, 55296, 46] @ replicate 64 48"

lemma surrogate_challenge_escapes: "verify_challenge L secret surrogate_challenge now = Inl (PyExn UnicodeEncodeError)"
proof -
  have "46 \<notin> set challenge_prefix" by (simp add: challenge_prefix_def str_simps)
  then have "split_on 46 surrogate_challenge = [challenge_prefix, [48], [55296], replicate 64 48]"
    unfolding surrogate_challenge_def by (simp add: split_on_sep split_on_none)
  moreover have "lower_hex_of_len 64 (replicate 64 48)" by (simp add: lower_hex_of_len_def list_all_iff is_lower_hex_def)
  moreover have "py_int L [48] = Some 0" using py_int_int_str [of 0 L] by (simp add: int_str_def nat_str.simps)
  moreover have "mac secret 0 [55296] = Inl (PyExn UnicodeEncodeError)"
    by (simp add: mac_def challenge_text_def utf8_def encodable_def is_surrogate_def)
  ultimately show ?thesis by (simp add: verify_challenge_def)
qed

theorem fuzz_attestation_crash:
  "fuzz_attestation_parsers sample_lib sample_x509 sample_snp V now
     (sample_provider\<lparr>consume_int := \<lambda>lo hi s. (4, s), consume_unicode := \<lambda>n s. (surrogate_challenge, s)\<rparr>) [0] =
   Escaped (PyExn UnicodeEncodeError)"
  by (simp add: fuzz_attestation_parsers_def surrogate_challenge_escapes suppress_def)

text \<open>A schema check as strict as the hypothesis asks, for the sample node.\<close>

definition strict_trace :: trace_lib where
  "strict_trace = sample_trace\<lparr>validate_json := \<lambda>r.
     case dict_get_none r (str ''cnf'') of
       JObj cnf \<Rightarrow> (case dict_get_none cnf (str ''jwk'') of JObj jwk \<Rightarrow> Inr () | _ \<Rightarrow> Inl (PyExn ValueError))
     | _ \<Rightarrow> Inl (PyExn ValueError)\<rparr>"

lemma strict_trace_shape: "trace_schema_shape strict_trace"
  unfolding trace_schema_shape_def strict_trace_def
  by (auto simp: dict_get_none_def split: json.splits option.splits)


end
