(* ===== verification/Json_Pretty.thy ===== *)
theory Json_Pretty
  imports Json_Dump Offline
begin

text \<open>
  \<open>json.dumps(value, indent=2)\<close>, the layout of the files that the scripts and the demos write, and the
  files read back: what was printed in this layout, with or without a final newline, loads as the value.
\<close>

section \<open>Printing\<close>

definition newline :: "nat \<Rightarrow> ustr" where
  "newline level = 10 # replicate (2 * level) 32"

text \<open>An array or object with its items on lines of their own, one level further in.\<close>

definition layout :: "nat \<Rightarrow> nat \<Rightarrow> nat \<Rightarrow> ustr list \<Rightarrow> ustr" where
  "layout level opening closing items =
     (if items = [] then [opening, closing]
      else [opening] @ newline (Suc level) @ join (44 # newline (Suc level)) items @ newline level @ [closing])"

fun dump_indented :: "lib \<Rightarrow> nat \<Rightarrow> json \<Rightarrow> ustr res" where
  "dump_indented L level (JList vs) = bindE (traverseE (dump_indented L (Suc level)) vs) (\<lambda>ts. Inr (layout level 91 93 ts))"
| "dump_indented L level (JObj kvs) =
     bindE (traverseE (\<lambda>kv. bindE (dump_indented L (Suc level) (snd kv)) (\<lambda>t. Inr (dump_string (fst kv) @ [58, 32] @ t))) kvs) (\<lambda>ts.
     Inr (layout level 123 125 ts))"
| "dump_indented L level v = json_dumps L v"

section \<open>Reading back\<close>

definition file_char :: "nat \<Rightarrow> bool" where
  "file_char c \<longleftrightarrow> c = 10 \<or> printable c"

abbreviation pretty_as :: "lib \<Rightarrow> ustr \<Rightarrow> json \<Rightarrow> bool" where
  "pretty_as L t v \<equiv> reads_as L default_hook t v \<and> list_all file_char t"

lemma blank_newline: "blank (newline n)"
  by (simp add: newline_def list_all_iff) (simp add: json_ws_def)

lemma file_newline [simp]: "list_all file_char (newline n)"
  by (simp add: newline_def list_all_iff) (simp add: file_char_def printable_def)

lemma file_printable: "list_all printable t \<Longrightarrow> list_all file_char t"
  by (simp add: list_all_iff file_char_def)

lemma layout_file:
  assumes "list_all (list_all file_char) ts" and "file_char a" and "file_char b"
  shows "list_all file_char (layout level a b ts)"
proof -
  have "file_char 44" by (simp add: file_char_def printable_def)
  with assms have "list_all file_char (join (44 # newline (Suc level)) ts)"
    using join_set [of "44 # newline (Suc level)" ts] file_newline [of "Suc level"] by (fastforce simp: list_all_iff)
  with assms show ?thesis by (simp add: layout_def)
qed

lemma brackets_file [simp]: "file_char 91" "file_char 93" "file_char 123" "file_char 125" "file_char 58" "file_char 32"
  by (simp_all add: file_char_def printable_def)

lemma list_pretty_as:
  assumes "list_all2 (pretty_as L) ts vs"
  shows "pretty_as L (layout level 91 93 ts) (JList vs)"
proof
  have r: "list_all2 (reads_as L default_hook) ts vs" using assms by (auto elim: list_all2_mono)
  have "list_all (list_all file_char) ts" using assms by (auto simp: list_all2_conv_all_nth list_all_length)
  then show "list_all file_char (layout level 91 93 ts)" by (simp add: layout_file)
  show "reads_as L default_hook (layout level 91 93 ts) (JList vs)"
    using list_reads_as [OF r, of "newline (Suc level)" "newline (Suc level)" "newline level"] list_reads_as [OF r, of "[]" "[]" "[]"] blank_newline
    by (cases "ts = []") (simp_all add: layout_def)
qed

lemma object_pretty_as:
  assumes "list_all2 (reads_member L default_hook) xs kvs" and "dict_wf kvs" and "list_all (list_all file_char) xs"
  shows "pretty_as L (layout level 123 125 xs) (JObj kvs)"
proof
  show "list_all file_char (layout level 123 125 xs)" by (simp add: layout_file assms(3))
  show "reads_as L default_hook (layout level 123 125 xs) (JObj kvs)"
    using object_reads_as [OF assms(1,2), of "newline (Suc level)" "newline (Suc level)" "newline level"]
      object_reads_as [OF assms(1,2), of "[]" "[]" "[]"] blank_newline
    by (cases "xs = []") (simp_all add: layout_def)
qed

lemma dump_indented_reads: "json_ok v \<Longrightarrow> json_wf v \<Longrightarrow> \<exists>t. dump_indented L level v = Inr t \<and> pretty_as L t v"
proof (induction v arbitrary: level)
  case (JList vs)
  have "\<exists>ts. traverseE (dump_indented L (Suc level)) vs = Inr ts \<and> list_all2 (pretty_as L) ts vs"
    by (rule traverseE_ex) (use JList in \<open>auto simp: list_all_iff\<close>)
  then show ?case using list_pretty_as [of L _ vs level] by fastforce
next
  case (JObj kvs)
  let ?f = "\<lambda>kv. bindE (dump_indented L (Suc level) (snd kv)) (\<lambda>t. Inr (dump_string (fst kv) @ [58, 32] @ t))"
  have "\<exists>xs. traverseE ?f kvs = Inr xs \<and> list_all2 (\<lambda>x kv. reads_member L default_hook x kv \<and> list_all file_char x) xs kvs"
  proof (rule traverseE_ex)
    fix kv assume kv: "kv \<in> set kvs"
    obtain k v where p: "kv = (k, v)" by force
    with kv JObj obtain t where t: "dump_indented L (Suc level) v = Inr t" "pretty_as L t v" and k: "list_all encodable k"
      by (fastforce simp: list_all_iff)
    have "list_all file_char (dump_string k @ [58, 32] @ t)" using file_printable [OF dump_string_printable] t(2) by simp
    with t k show "\<exists>x. ?f kv = Inr x \<and> reads_member L default_hook x kv \<and> list_all file_char x"
      by (auto simp: p reads_member_def)
  qed
  then obtain xs where xs: "traverseE ?f kvs = Inr xs" "list_all2 (reads_member L default_hook) xs kvs" "list_all (list_all file_char) xs"
    by (fastforce simp: list_all2_conv_all_nth list_all_length)
  from object_pretty_as [OF xs(2) _ xs(3)] JObj.prems xs(1) show ?case by simp
qed (use json_dumps_reads [of _ L] file_printable in \<open>fastforce simp del: json_dumps.simps\<close>)+

text \<open>
  What a script prints in this layout and writes as UTF-8 is what the offline verifier reads, with or without
  the newline some of them add.
\<close>

lemma pretty_file_reads:
  assumes "json_ok v" and "json_wf v" and "blank e" and "list_all file_char e"
  obtains t raw where "dump_indented L 0 v = Inr t" and "utf8 (t @ e) = Some raw" and "universal_newlines (t @ e) = t @ e"
    and "\<forall>d c name path. read_json L d c name path (Contents raw) = Inr v"
proof -
  obtain t where t: "dump_indented L 0 v = Inr t" "pretty_as L t v" using dump_indented_reads [OF assms(1,2)] by blast
  then have c: "list_all file_char (t @ e)" using assms(4) by simp
  then have a: "list_all (\<lambda>c. c < 128) (t @ e)" by (rule list.pred_mono_strong) (auto simp: file_char_def printable_def)
  have "\<not> file_char 13" by (simp add: file_char_def printable_def)
  then have "13 \<notin> set (t @ e)" using c by (metis list_all_iff)
  then have nl: "universal_newlines (t @ e) = t @ e" by (rule universal_newlines_id)
  have ne: "t \<noteq> []" "\<not> json_ws (hd t)" "hd t \<noteq> 65279"
    using t(2) by (cases t; auto simp: reads_as_def file_char_def printable_def)+
  have "delim e" using assms(3) by (cases e) (auto simp: json_ws_def)
  then have "parse_value L default_hook (2 * length (t @ e)) (t @ e) = Some (v, e)"
    using t(2) by (intro reads_asD) auto
  moreover have "skip_ws e = []" using skip_blank [OF assms(3), of "[]"] by (simp add: skip_ws_def)
  moreover have "skip_ws (t @ e) = t @ e" using ne by (intro skip_ws_other)
  ultimately have "json_loads L default_hook (t @ e) = Some v" using ne by (simp add: json_loads_def)
  with utf8_ascii [OF a] nl utf8_decode_encode have "\<exists>raw. utf8 (t @ e) = Some raw \<and> (\<forall>d c name path. read_json L d c name path (Contents raw) = Inr v)"
    by (auto simp: read_json_def)
  with t(1) nl that show thesis by blast
qed

end
