(* ===== verification/Artifacts.thy ===== *)
theory Artifacts
  imports Fixtures Json_Pretty Cli
begin

text \<open>
  The files that the scripts, demos and experiments write and the command line reads back: the chain document,
  the record document, and the records emitted for a chain, one per hop, each naming the hash of the one
  before. The lemmas carry a chain and its records through the files: what is loaded is what was written.
\<close>

section \<open>Writing files\<close>

text \<open>The files and the paths that can be written.\<close>

record disk =
  dk_files :: "ustr \<Rightarrow> file_read"
  dk_writable :: "ustr \<Rightarrow> bool"

definition write_text :: "ustr \<Rightarrow> ustr \<Rightarrow> disk \<Rightarrow> disk res" where
  "write_text path txt D =
     bindE (require (dk_writable D path) (PyExn OSError)) (\<lambda>_.
     bindE (expect (utf8 txt) (PyExn UnicodeEncodeError)) (\<lambda>raw.
     Inr (D\<lparr>dk_files := (dk_files D)(path := Contents raw)\<rparr>)))"

definition chain_doc :: "delegation_credential list \<Rightarrow> json" where
  "chain_doc chain = JObj [(str ''chain'', chain_document chain)]"

definition dag_doc :: "delegation_record list \<Rightarrow> json" where
  "dag_doc records = JObj [(str ''records'', JList (map (\<lambda>r. JObj (rec_body r)) records))]"

section \<open>Records of a chain\<close>

text \<open>The loop over the hops, from a depth on, with the hash of the record before.\<close>

fun emit_records ::
  "(nat \<Rightarrow> ustr) \<Rightarrow> nat \<Rightarrow> ustr option \<Rightarrow> delegation_credential list \<Rightarrow> delegation_record list res" where
  "emit_records ident depth parent_hash [] = Inr []"
| "emit_records ident depth parent_hash (cred # chain) =
     bindE (record_for cred (ident depth) parent_hash CALLER_NOT_OFFERED) (\<lambda>rec.
     bindE (record_hash rec) (\<lambda>h.
     bindE (emit_records ident (Suc depth) (Some h) chain) (\<lambda>rest. Inr (rec # rest))))"

definition hop_record :: "delegation_credential \<Rightarrow> ustr \<Rightarrow> ustr option \<Rightarrow> delegation_record" where
  "hop_record cred record_id parent_hash =
     \<lparr>rec_id = record_id, rec_credential_id = cred_id cred, rec_subject = cred_subject cred, rec_scope = cred_scope cred,
      rec_parent_hash = parent_hash, rec_decision = ALLOW, rec_requested = None, rec_effective = None, rec_reason = None,
      rec_caller_attestation = CALLER_NOT_OFFERED\<rparr>"

section \<open>Lemmas on records\<close>

definition rec_encodable :: "delegation_record \<Rightarrow> bool" where
  "rec_encodable r \<longleftrightarrow> list_all encodable (rec_id r) \<and> list_all encodable (rec_credential_id r) \<and> list_all encodable (rec_subject r) \<and>
     (\<forall>c \<in> fset (rec_scope r). list_all encodable c) \<and> (\<forall>h. rec_parent_hash r = Some h \<longrightarrow> list_all encodable h) \<and>
     list_all encodable (rec_caller_attestation r) \<and> list_all encodable (rec_decision r) \<and>
     (\<forall>c. rec_requested r = Some c \<longrightarrow> list_all encodable c) \<and> (\<forall>s. rec_effective r = Some s \<longrightarrow> (\<forall>c \<in> fset s. list_all encodable c)) \<and>
     (\<forall>c. rec_reason r = Some c \<longrightarrow> list_all encodable c)"

lemma rec_body_ok: "rec_encodable r \<Longrightarrow> json_ok (JObj (rec_body r))"
  by (auto simp: rec_encodable_def rec_body_def split: option.splits)

lemma rec_encodable_hash: "rec_encodable r \<Longrightarrow> \<exists>h. record_hash r = Inr h \<and> lower_hex_of_len 64 h"
  using canonicalize_ok [OF rec_body_ok, of r] by (auto simp: record_hash_def)

lemma encodable_not_offered [simp]: "list_all encodable CALLER_NOT_OFFERED" "list_all encodable ALLOW" "list_all encodable DENY"
  by (simp_all add: CALLER_NOT_OFFERED_def ALLOW_def DENY_def)

lemma record_for_hop [simp]: "record_for cred i p CALLER_NOT_OFFERED = Inr (hop_record cred i p)"
  by (simp add: record_for_def hop_record_def rec_post_init_def)

lemma hop_record_simps [simp]:
  "rec_id (hop_record c i p) = i" "rec_credential_id (hop_record c i p) = cred_id c" "rec_subject (hop_record c i p) = cred_subject c"
  "rec_scope (hop_record c i p) = cred_scope c" "rec_parent_hash (hop_record c i p) = p" "\<not> rec_denied (hop_record c i p)"
  "rec_caller_attestation (hop_record c i p) = CALLER_NOT_OFFERED" "rec_decision (hop_record c i p) = ALLOW"
  by (simp_all add: hop_record_def rec_denied_def ALLOW_def DENY_def)

lemma hop_record_encodable:
  assumes "cred_encodable c" and "list_all encodable i" and "\<And>h. p = Some h \<Longrightarrow> list_all encodable h"
  shows "rec_encodable (hop_record c i p)"
  using assms by (simp add: rec_encodable_def cred_encodable_def) (simp add: hop_record_def)

text \<open>What the loop emits.\<close>

definition records_of :: "(nat \<Rightarrow> ustr) \<Rightarrow> delegation_credential list \<Rightarrow> delegation_record list \<Rightarrow> bool" where
  "records_of ident chain rs \<longleftrightarrow> length rs = length chain \<and> list_all rec_encodable rs \<and>
     (\<forall>i < length chain. \<exists>p. rs ! i = hop_record (chain ! i) (ident i) p) \<and>
     (chain \<noteq> [] \<longrightarrow> linked_by record_hash rec_parent_hash rs)"

lemma emit_records_spec:
  assumes "\<forall>c \<in> set chain. cred_encodable c" and "\<And>i. list_all encodable (ident i)" and "\<And>h. parent = Some h \<Longrightarrow> list_all encodable h"
  shows "\<exists>rs. emit_records ident depth parent chain = Inr rs \<and> length rs = length chain \<and> list_all rec_encodable rs \<and>
    (\<forall>i < length chain. \<exists>p. rs ! i = hop_record (chain ! i) (ident (depth + i)) p) \<and>
    (chain \<noteq> [] \<longrightarrow> rec_parent_hash (hd rs) = parent) \<and> successively (\<lambda>p r. \<exists>h. record_hash p = Inr h \<and> rec_parent_hash r = Some h) rs"
  using assms(1,3)
proof (induction chain arbitrary: depth parent)
  case (Cons c chain)
  let ?r = "hop_record c (ident depth) parent"
  have enc: "rec_encodable ?r" using Cons.prems assms(2) by (intro hop_record_encodable) auto
  obtain h where h: "record_hash ?r = Inr h" "list_all encodable h" using rec_encodable_hash [OF enc] encodable_lower_hex by blast
  obtain rs where rs: "emit_records ident (Suc depth) (Some h) chain = Inr rs" "length rs = length chain" "list_all rec_encodable rs"
    "\<forall>i < length chain. \<exists>p. rs ! i = hop_record (chain ! i) (ident (Suc depth + i)) p" "chain \<noteq> [] \<longrightarrow> rec_parent_hash (hd rs) = Some h"
    "successively (\<lambda>p r. \<exists>h. record_hash p = Inr h \<and> rec_parent_hash r = Some h) rs"
    using Cons.IH [of "Some h" "Suc depth"] Cons.prems h(2) by auto
  have "\<exists>p. (?r # rs) ! i = hop_record ((c # chain) ! i) (ident (depth + i)) p" if "i < Suc (length chain)" for i
    using that rs(4) by (cases i) auto
  moreover have "successively (\<lambda>p r. \<exists>h. record_hash p = Inr h \<and> rec_parent_hash r = Some h) (?r # rs)"
    using rs(2,5,6) h(1) by (cases rs) auto
  ultimately show ?case using h rs enc by (intro exI [of _ "?r # rs"]) simp
qed simp

lemma emit_records_emitted:
  assumes "\<forall>c \<in> set chain. cred_encodable c" and "\<And>i. list_all encodable (ident i)"
  obtains rs where "emit_records ident 0 None chain = Inr rs" and "records_of ident chain rs"
proof -
  obtain rs where rs: "emit_records ident 0 None chain = Inr rs" "length rs = length chain" "list_all rec_encodable rs"
    "\<forall>i < length chain. \<exists>p. rs ! i = hop_record (chain ! i) (ident i) p"
    "chain \<noteq> [] \<longrightarrow> rec_parent_hash (hd rs) = None" "successively (\<lambda>p r. \<exists>h. record_hash p = Inr h \<and> rec_parent_hash r = Some h) rs"
    using emit_records_spec [OF assms(1), of ident None 0] assms(2) by auto
  then have "records_of ident chain rs" by (auto simp: records_of_def linked_by_def)
  with rs(1) show thesis by (rule that)
qed

lemma emitted_nth:
  assumes "records_of ident chain rs" and "i < length chain"
  shows "rec_id (rs ! i) = ident i" "rec_credential_id (rs ! i) = cred_id (chain ! i)" "rec_subject (rs ! i) = cred_subject (chain ! i)"
    "rec_scope (rs ! i) = cred_scope (chain ! i)" "\<not> rec_denied (rs ! i)" "rec_caller_attestation (rs ! i) = CALLER_NOT_OFFERED"
proof -
  obtain p where "rs ! i = hop_record (chain ! i) (ident i) p" using assms by (auto simp: records_of_def)
  then show "rec_id (rs ! i) = ident i" "rec_credential_id (rs ! i) = cred_id (chain ! i)" "rec_subject (rs ! i) = cred_subject (chain ! i)"
    "rec_scope (rs ! i) = cred_scope (chain ! i)" "\<not> rec_denied (rs ! i)" "rec_caller_attestation (rs ! i) = CALLER_NOT_OFFERED"
    by simp_all
qed

lemma emitted_last:
  assumes "records_of ident chain rs" and "chain \<noteq> []"
  obtains p where "last rs = hop_record (last chain) (ident (length chain - 1)) p" and "rs \<noteq> []"
proof -
  have len: "length rs = length chain" using assms(1) by (simp add: records_of_def)
  moreover from this have "rs \<noteq> []" using assms(2) by auto
  moreover have "length chain - 1 < length chain" using assms(2) by simp
  moreover from this obtain p where "rs ! (length chain - 1) = hop_record (chain ! (length chain - 1)) (ident (length chain - 1)) p"
    using assms(1) unfolding records_of_def by blast
  ultimately show thesis using that assms(2) by (simp add: last_conv_nth)
qed

lemma emitted_allowed: "records_of ident chain rs \<Longrightarrow> r \<in> set rs \<Longrightarrow> \<not> rec_denied r"
  using emitted_nth(5) by (metis records_of_def in_set_conv_nth)

lemma emitted_dag_valid:
  assumes "records_of ident chain rs" and "chain \<noteq> []" and "inj_on ident {..<length chain}"
  shows "dag_valid rs"
proof -
  have len: "length rs = length chain" using assms(1) by (simp add: records_of_def)
  have "distinct (map rec_id rs)" using assms(3) by (auto simp: distinct_conv_nth len emitted_nth [OF assms(1)] inj_on_def)
  moreover have "\<forall>r \<in> set (butlast rs). \<not> rec_denied r" using emitted_allowed [OF assms(1)] by (auto dest: in_set_butlastD)
  ultimately show ?thesis using assms(1,2) by (simp add: dag_valid_def records_of_def)
qed

lemma emitted_cross_check:
  assumes "records_of ident chain rs"
  shows "cross_check_chain L rs chain = Inr ()"
proof -
  have "filter (\<lambda>r. \<not> rec_denied r) rs = rs" using emitted_allowed [OF assms] by simp
  then show ?thesis
    using assms emitted_nth [OF assms] emitted_allowed [OF assms] unfolding cross_check_iff
    by (auto simp: list_all2_conv_all_nth records_of_def)
qed

text \<open>A denial at the leaf, linked to the last record of the chain.\<close>

lemma denial_extends:
  assumes "records_of ident chain rs" and "chain \<noteq> []" and "inj_on ident {..<length chain}" and "\<And>i. rec_id d \<noteq> ident i"
    and "record_hash (last rs) = Inr h" and "rec_parent_hash d = Some h" and "rec_denied d"
    and "rec_credential_id d = cred_id (last chain)" and "rec_subject d = cred_subject (last chain)"
  shows "dag_valid (rs @ [d])" "cross_check_chain L (rs @ [d]) chain = Inr ()"
proof -
  have v: "dag_valid rs" by (rule emitted_dag_valid [OF assms(1-3)])
  have "rec_id ` set rs \<subseteq> range ident" using assms(1) emitted_nth(1) [OF assms(1)] by (auto simp: in_set_conv_nth records_of_def)
  then have "rec_id d \<notin> rec_id ` set rs" using assms(4) by blast
  moreover have "rs \<noteq> []" using assms(1,2) by (auto simp: records_of_def)
  ultimately show "dag_valid (rs @ [d])"
    using v assms(5,6) emitted_allowed [OF assms(1)] by (auto simp: dag_valid_def records.linked_snoc)
  have "cred_by_id chain (cred_id (last chain)) = Some (last chain)"
    using assms(2) by (cases chain rule: rev_cases) (simp_all add: cred_by_id_def)
  then show "cross_check_chain L (rs @ [d]) chain = Inr ()"
    using emitted_cross_check [OF assms(1), of L] assms(7-9) unfolding cross_check_iff by auto
qed

section \<open>Through the files\<close>

lemma cred_dict_ok:
  assumes "cred_encodable c" and "cred_wire_ok c"
  shows "json_ok (JObj (cred_to_dict c))"
  unfolding cred_to_dict_def using assms
  by (intro json_ok_set cred_body_ok) (auto simp: cred_wire_ok_def intro: encodable_lower_hex)

lemma chain_doc_ok:
  assumes "\<forall>c \<in> set chain. cred_encodable c \<and> cred_wire_ok c"
  shows "json_ok (chain_doc chain)" "json_wf (chain_doc chain)" "parse_chain (chain_doc chain) = Inr chain"
proof -
  have "\<forall>c \<in> set chain. json_ok (JObj (cred_to_dict c))" using assms cred_dict_ok by blast
  then have "json_ok (chain_document chain)" unfolding chain_document_def json_ok.simps(3) by (simp add: list_all_iff del: json_ok.simps)
  then show "json_ok (chain_doc chain)" by (simp add: chain_doc_def)
  show "json_wf (chain_doc chain)" using chain_document_wf by (simp add: chain_doc_def)
  have "traverseE cred_from_dict (map (\<lambda>c. JObj (cred_to_dict c)) chain) = Inr chain"
    using assms by (induction chain) (simp_all add: cred_to_dict_parses)
  then show "parse_chain (chain_doc chain) = Inr chain" by (simp add: parse_chain_def chain_doc_def chain_document_def)
qed

lemma record_from_body:
  assumes "rec_caller_attestation r \<in> CALLER_ATTESTATION_VALUES"
  shows "record_from_item L (JObj (rec_body r)) = Inr r"
  using assms
  by (cases "rec_requested r"; cases "rec_effective r"; cases "rec_reason r"; cases "rec_parent_hash r")
     (simp_all add: record_from_item_def dict_item_def rec_body_get opt_text_def dict_get_none_def dict_get_or_def str_list_def
       iter_strs_def rec_post_init_def Let_def o_def)

lemma dag_doc_ok:
  assumes "list_all rec_encodable rs"
  shows "json_ok (dag_doc rs)" "json_wf (dag_doc rs)"
proof -
  have "\<forall>r \<in> set rs. json_ok (JObj (rec_body r)) \<and> json_wf (JObj (rec_body r))" 
    using assms rec_body_ok rec_body_wf unfolding list_all_iff by blast
  then have "json_ok (JList (map (\<lambda>r. JObj (rec_body r)) rs))" "json_wf (JList (map (\<lambda>r. JObj (rec_body r)) rs))"
    unfolding json_ok.simps(3) json_wf.simps(1) by (simp_all add: list_all_iff del: json_ok.simps json_wf.simps)
  then show "json_ok (dag_doc rs)" "json_wf (dag_doc rs)" by (simp_all add: dag_doc_def)
qed

text \<open>A file holds a document: the indented text of it, perhaps with a final newline.\<close>

definition holds_doc :: "lib \<Rightarrow> file_read \<Rightarrow> json \<Rightarrow> bool" where
  "holds_doc L file v \<longleftrightarrow> (\<exists>raw. file = Contents raw \<and> (\<forall>d c name path. read_json L d c name path (Contents raw) = Inr v))"

lemma written_doc:
  assumes "json_ok v" and "json_wf v" and "e \<in> {[], [10]}" and "dk_writable D path"
  obtains t D' where "dump_indented L 0 v = Inr t" and "write_text path (t @ e) D = Inr D'"
    and "holds_doc L (dk_files D' path) v" and "\<And>q. q \<noteq> path \<Longrightarrow> dk_files D' q = dk_files D q" and "dk_writable D' = dk_writable D"
proof -
  have "blank e" "list_all file_char e" using assms(3) by (auto simp: json_ws_def file_char_def)
  then obtain t raw where t: "dump_indented L 0 v = Inr t" "utf8 (t @ e) = Some raw" "universal_newlines (t @ e) = t @ e"
    and r: "\<forall>d c name path. read_json L d c name path (Contents raw) = Inr v"
    by (rule pretty_file_reads [where L = L, OF assms(1,2)])
  have "write_text path (t @ e) D = Inr (D\<lparr>dk_files := (dk_files D)(path := Contents raw)\<rparr>)"
    using t(2) assms(4) by (simp add: write_text_def require_def)
  from that [OF t(1) this] r show thesis by (simp add: holds_doc_def)
qed

lemma load_chain_doc:
  assumes "holds_doc L (cl_fs env (path_text path)) (chain_doc chain)" and "\<forall>c \<in> set chain. cred_encodable c \<and> cred_wire_ok c"
  shows "load_chain L env path = Inr chain"
    "verify_chain_file L d a p (open_file env path) = verify_delegation_chain L a chain"
  using assms(1) chain_doc_ok(3) [OF assms(2)]
  by (auto simp: load_chain_def verify_chain_file_def holds_doc_def open_file_def)

lemma load_dag_doc:
  assumes "holds_doc L (cl_fs env (path_text path)) (dag_doc rs)" and "\<forall>r \<in> set rs. rec_caller_attestation r \<in> CALLER_ATTESTATION_VALUES"
  shows "load_records L env path = Inr rs"
proof -
  have "traverseE (\<lambda>item. catchE (record_from_item L item) is_item_error (\<lambda>_. Inl (link_broken (str ''malformed provenance record''))))
      (map (\<lambda>r. JObj (rec_body r)) rs) = Inr rs"
    using assms(2) by (induction rs) (simp_all add: record_from_body catchE_def)
  with assms(1) show ?thesis by (auto simp: load_records_def holds_doc_def open_file_def dag_doc_def Let_def)
qed

end
