(* ===== verification/Loopback.thy ===== *)
theory Loopback
  imports Artifacts Sdk_Bridge
begin

text \<open>
  The loopback example on the official SDK, \<open>examples/a2a-sdk/loopback.py\<close>: the credentials it mints, the executor
  that guards the inventory, the channel endpoint, the delegated message and the run that puts them together. What
  the SDK and the HTTP stack do between the two ends is the record \<open>sdk_link\<close>; starting and stopping the server
  is left out. Drawn keys, identifiers, nonces and the clocks are arguments.
\<close>

section \<open>Credentials\<close>

definition INVENTORY_READ :: ustr where
  "INVENTORY_READ = str ''inventory.read''"

definition INVENTORY_WRITE :: ustr where
  "INVENTORY_WRITE = str ''inventory.write''"

definition demo_fixture :: "(nat \<Rightarrow> bytes) \<Rightarrow> (nat \<Rightarrow> bytes) \<Rightarrow> int \<Rightarrow> fixture" where
  "demo_fixture key ident now =
     \<lparr>fx_key = key, fx_ident = (\<lambda>depth. hex (ident depth)), fx_not_before = Some (now - 1), fx_not_after = Some (now + 300)\<rparr>"

text \<open>The chain and the private key of its leaf.\<close>

definition demo_credentials ::
  "lib \<Rightarrow> (nat \<Rightarrow> bytes) \<Rightarrow> (nat \<Rightarrow> bytes) \<Rightarrow> int \<Rightarrow> (delegation_credential list \<times> bytes) res" where
  "demo_credentials L key ident now =
     bindE (signed_hops L (demo_fixture key ident now) 0 (replicate 2 {|INVENTORY_READ, INVENTORY_WRITE|}) None) (\<lambda>chain.
     Inr (chain, key 2))"

section \<open>The executor\<close>

record inventory_executor =
  ie_node :: peer_node
  ie_invocations :: nat

definition not_accepted :: "string \<Rightarrow> jdict" where
  "not_accepted code = [(str ''accepted'', JBool False), (str ''error'', JStr (str code))]"

definition ORDINARY_REPLY :: jdict where
  "ORDINARY_REPLY = [(str ''mode'', JStr (str ''ordinary'')), (str ''message'', JStr (str ''Public demo information; no inventory access.''))]"

definition inventory_lookup :: "inventory_executor \<Rightarrow> inventory_executor \<times> json" where
  "inventory_lookup ex =
     (ex\<lparr>ie_invocations := Suc (ie_invocations ex)\<rparr>,
      JObj [(str ''item'', JStr (str ''widget'')), (str ''quantity'', JInt 3)])"

text \<open>What follows an accepted call.\<close>

definition inventory_answer :: "inventory_executor \<Rightarrow> peer_result \<Rightarrow> inventory_executor \<times> jdict res" where
  "inventory_answer ex result =
     (if res_granted result \<noteq> INVENTORY_READ \<or> res_payload result \<noteq> Some (ascii_bytes ''widget'')
      then (ex, Inr (not_accepted ''UNSUPPORTED_DEMO_INPUT''))
      else (case serialize_peer_result result of
              Inl e \<Rightarrow> (ex, Inl e)
            | Inr body \<Rightarrow> (let (ex', found) = inventory_lookup ex in (ex', Inr (dict_set (str ''inventory'') found body)))))"

text \<open>\<open>except CA2AError as exc: return {"accepted": False, "error": exc.code}\<close>.\<close>

definition inventory_protected :: "lib \<Rightarrow> call_env \<Rightarrow> inventory_executor \<Rightarrow> jdict \<Rightarrow> inventory_executor \<times> jdict res" where
  "inventory_protected L env ex meta =
     (case node_handle L (ie_node ex) env [(str ''metadata'', JObj meta)] of
        Inr result \<Rightarrow> inventory_answer ex result
      | Inl e \<Rightarrow> (ex, case exn_class e of None \<Rightarrow> Inl e | Some c \<Rightarrow> Inr (not_accepted (err_code c))))"

definition inventory_reply ::
  "lib \<Rightarrow> 's protobuf \<Rightarrow> call_env \<Rightarrow> inventory_executor \<Rightarrow> ('s, 'm) sdk_message_scheme \<Rightarrow> ustr set \<Rightarrow>
   inventory_executor \<times> jdict res" where
  "inventory_reply L P env ex message requested_extensions =
     (case bindE (metadata_from_sdk_message P message) (\<lambda>meta.
           bindE (expect (sm_extensions message) (PyExn AttributeError)) (\<lambda>extensions. Inr (meta, extensions))) of
        Inl e \<Rightarrow> (ex, Inl e)
      | Inr (meta, extensions) \<Rightarrow>
          let declared = profile_uri \<in> set extensions;
              requested = profile_uri \<in> requested_extensions;
              carries_ca2a = has_ca2a_metadata (Some meta) in
          if \<not> carries_ca2a \<and> \<not> declared \<and> \<not> requested then (ex, Inr ORDINARY_REPLY)
          else if \<not> declared \<or> \<not> requested then (ex, Inr (not_accepted ''CA2A_OPT_IN_REQUIRED''))
          else if \<not> carries_ca2a then (ex, Inr (not_accepted ''CA2A_METADATA_REQUIRED''))
          else inventory_protected L env ex meta)"

text \<open>The body that is enqueued for a request.\<close>

definition inventory_execute ::
  "lib \<Rightarrow> 's protobuf \<Rightarrow> call_env \<Rightarrow> inventory_executor \<Rightarrow> ('s, 'm) sdk_message_scheme option \<Rightarrow> ustr set \<Rightarrow>
   inventory_executor \<times> jdict res" where
  "inventory_execute L P env ex message requested_extensions =
     (case message of
        None \<Rightarrow> (ex, Inr (not_accepted ''MESSAGE_REQUIRED''))
      | Some m \<Rightarrow> inventory_reply L P env ex m requested_extensions)"

section \<open>The server\<close>

record 's operator_card = "('s, unit) agent_card" +
  oc_name :: ustr
  oc_description :: ustr
  oc_version :: ustr
  oc_interface :: "ustr \<times> ustr \<times> ustr"
  oc_streaming :: bool
  oc_input_modes :: "ustr list"
  oc_output_modes :: "ustr list"
  oc_skill :: "ustr \<times> ustr \<times> ustr \<times> ustr list"

definition operator_card :: "'s protobuf \<Rightarrow> ustr \<Rightarrow> peer_node \<Rightarrow> 's operator_card res" where
  "operator_card P base_url node =
     merge_agent_card P
       \<lparr>ac_signatures = [], ac_extensions = [], oc_name = str ''SDK inventory example'',
        oc_description = str ''Public information plus cA2A-authorized demo inventory reads'', oc_version = str ''1.0.0'',
        oc_interface = (base_url @ str ''/a2a'', str ''JSONRPC'', str ''1.0''), oc_streaming = False,
        oc_input_modes = [str ''text/plain''], oc_output_modes = [str ''application/json''],
        oc_skill = (str ''inventory'', str ''Demo inventory'', str ''Read widget stock'', [str ''inventory'', str ''example''])\<rparr> node"

text \<open>The bootstrap endpoint, from the query parameter to status and body.\<close>

definition demo_channel :: "peer_node \<Rightarrow> call_env \<Rightarrow> ustr option \<Rightarrow> (int \<times> jdict) res" where
  "demo_channel node env param =
     (let nonce = (case param of None \<Rightarrow> [] | Some n \<Rightarrow> n) in
      if nonce = [] \<or> 128 < length nonce then Inr (400, [(str ''error'', JStr (str ''NONCE_REQUIRED''))])
      else bindE (node_offer node nonce) (\<lambda>offer.
           bindE (node_issue_challenge node env) (\<lambda>challenge.
           Inr (200, serialize_channel_offer offer (Some challenge)))))"

definition demo_node :: "lib \<Rightarrow> ustr \<Rightarrow> bytes \<Rightarrow> bytes \<Rightarrow> peer_node res" where
  "demo_node L issuer private secret =
     mk_node L \<lparr>na_policy = LocalPolicy (local_of [INVENTORY_READ]), na_provider = None, na_max_depth = 8,
       na_requirement = REQUIRE_NONE, na_caller_verifier = None, na_ttl = DEFAULT_TTL_SECONDS, na_require_holder = True,
       na_trusted = {issuer}, na_has_source = False, na_max_staleness = None\<rparr> private secret"

section \<open>The client\<close>

datatype loop_exn = Library exn | Http_status int | Runtime_error ustr

definition from_library :: "'a res \<Rightarrow> loop_exn + 'a" where
  "from_library m = (case m of Inl e \<Rightarrow> Inl (Library e) | Inr x \<Rightarrow> Inr x)"

text \<open>What a call yields: a task, or a message with its parts and the data each of them has.\<close>

datatype sdk_response = Sdk_task | Sdk_message "json option list"

text \<open>
  \<open>new_text_message\<close>, the message and the extensions that reach the handler, the responses the client sees
  for what the handler enqueued or raised, the card the resolver fetches and the JSON the HTTP client decodes.
\<close>

record 's sdk_link =
  lk_text :: "ustr \<Rightarrow> 's sdk_message"
  lk_request :: "'s sdk_message \<Rightarrow> 's sdk_message"
  lk_requested :: "ustr list \<Rightarrow> ustr set"
  lk_responses :: "jdict res \<Rightarrow> sdk_response list res"
  lk_card :: "'s operator_card \<Rightarrow> 's operator_card res"
  lk_json :: "jdict \<Rightarrow> json res"

definition connect :: "lib \<Rightarrow> 's protobuf \<Rightarrow> 's sdk_link \<Rightarrow> 's operator_card \<Rightarrow> loop_exn + 's operator_card" where
  "connect L P link served =
     bindE (from_library (lk_card link served)) (\<lambda>ag_card.
     bindE (from_library (inspect_agent_card L P ag_card)) (\<lambda>discovery.
     if \<not> cd_advertised discovery \<or> cd_warnings discovery \<noteq> []
     then Inl (Runtime_error (str ''The demo requires an unambiguous cA2A declaration''))
     else Inr ag_card))"

text \<open>\<open>http.get\<close> on the endpoint, \<open>raise_for_status\<close> and \<open>json\<close>; an unhandled exception is answered with 500.\<close>

definition demo_get :: "'s sdk_link \<Rightarrow> peer_node \<Rightarrow> call_env \<Rightarrow> ustr \<Rightarrow> loop_exn + json" where
  "demo_get link node env nonce =
     (case demo_channel node env (Some nonce) of
        Inl _ \<Rightarrow> Inl (Http_status 500)
      | Inr (status, body) \<Rightarrow> if status \<noteq> 200 then Inl (Http_status status) else from_library (lk_json link body))"

record delegated_random =
  dr_nonce :: bytes
  dr_record :: bytes
  dr_seal_key :: bytes
  dr_seal_nonce :: bytes

definition delegated_request ::
  "lib \<Rightarrow> delegated_random \<Rightarrow> verified_peer \<Rightarrow> ustr \<Rightarrow> delegation_credential list \<Rightarrow> bytes \<Rightarrow> ustr \<Rightarrow> peer_request res" where
  "delegated_request L rnd peer challenge chain holder_key capability =
     bindE (seal_to_peer L peer (dr_seal_key rnd) (dr_seal_nonce rnd) (ascii_bytes ''widget'') []) (\<lambda>sealed.
     let record_id = hex (dr_record rnd) in
     bindE (leaf_of chain) (\<lambda>leaf.
     bindE (build_holder_proof L holder_key leaf challenge
              \<lparr>rf_audience = vp_public_key peer, rf_capability = capability, rf_record_id = record_id,
               rf_sealed_payload = Some sealed, rf_caller_key = None, rf_parent_hash = None\<rparr>) (\<lambda>hproof.
     Inr \<lparr>pr_chain = chain, pr_capability = capability, pr_record_id = record_id, pr_sealed_payload = Some sealed,
          pr_parent_hash = None, pr_caller_offer = None, pr_holder_proof = Some hproof, pr_possession = None\<rparr>)))"

definition delegated_message ::
  "lib \<Rightarrow> 's protobuf \<Rightarrow> 's sdk_link \<Rightarrow> (ustr \<Rightarrow> loop_exn + json) \<Rightarrow> delegated_random \<Rightarrow> delegation_credential list \<Rightarrow> bytes \<Rightarrow>
   ustr \<Rightarrow> loop_exn + 's sdk_message" where
  "delegated_message L P link get rnd chain holder_key capability =
     (let nonce = hex (dr_nonce rnd) in
      bindE (get nonce) (\<lambda>exchange.
      bindE (from_library (parse_channel_offer L exchange)) (\<lambda>offer.
      bindE (from_library (verify_offer L offer nonce None False ROLE_CALLEE)) (\<lambda>peer.
      if vp_assurance peer \<noteq> str ''none'' then Inl (Runtime_error (str ''This example intentionally uses software-only assurance''))
      else
      bindE (from_library (expect (as_obj exchange) (PyExn TypeError))) (\<lambda>data.
      bindE (from_library (parse_challenge data)) (\<lambda>issued.
      (case issued of
         None \<Rightarrow> Inl (Runtime_error (str ''The demo server did not issue a holder challenge''))
       | Some challenge \<Rightarrow>
           bindE (from_library (delegated_request L rnd peer challenge chain holder_key capability)) (\<lambda>request.
           let (message, written) = attach_to_sdk_message P (lk_text link (str ''Use only the bound sealed payload'')) request in
           bindE (from_library written) (\<lambda>_. Inr message)))))))))"

definition read_replies :: "sdk_response list \<Rightarrow> loop_exn + json" where
  "read_replies responses =
     bindE (traverseE (\<lambda>r. case r of
              Sdk_task \<Rightarrow> Inl (Runtime_error (str ''Expected an immediate SDK message, not a task''))
            | Sdk_message parts \<Rightarrow> Inr parts) responses) (\<lambda>replies.
     (case replies of
        [[Some data]] \<Rightarrow> Inr data
      | _ \<Rightarrow> Inl (Runtime_error (str ''Expected exactly one structured SDK reply''))))"

definition sdk_send ::
  "lib \<Rightarrow> 's protobuf \<Rightarrow> 's sdk_link \<Rightarrow> call_env \<Rightarrow> inventory_executor \<Rightarrow> 's sdk_message \<Rightarrow> bool \<Rightarrow>
   inventory_executor \<times> (loop_exn + json)" where
  "sdk_send L P link env ex message ca2a =
     (let (ex', body) = inventory_execute L P env ex (Some (lk_request link message))
                          (lk_requested link (if ca2a then [profile_uri] else [])) in
      (ex', bindE (from_library (lk_responses link body)) read_replies))"

section \<open>The run\<close>

record loop_env =
  lo_key :: "nat \<Rightarrow> bytes"
  lo_ident :: "nat \<Rightarrow> bytes"
  lo_now :: int
  lo_private :: bytes
  lo_secret :: bytes
  lo_base_url :: ustr
  lo_channel_env :: "ustr \<Rightarrow> call_env"
  lo_handle_env :: "ustr \<Rightarrow> call_env"
  lo_ordinary_env :: call_env
  lo_random :: "ustr \<Rightarrow> delegated_random"

definition call_failed :: loop_exn where
  "call_failed = Runtime_error (str ''Ordinary or delegated SDK call failed'')"

text \<open>The checks of the replies and of the counter, and the summary.\<close>

definition loop_report :: "'s operator_card \<Rightarrow> inventory_executor \<Rightarrow> json \<Rightarrow> json \<Rightarrow> json \<Rightarrow> loop_exn + jdict" where
  "loop_report ag_card ex ordinary allowed denied =
     bindE (from_library (expect (as_obj ordinary) (PyExn AttributeError))) (\<lambda>ordinary.
     if dict_get_none ordinary (str ''mode'') \<noteq> JStr (str ''ordinary'') then Inl call_failed
     else
     bindE (from_library (expect (as_obj allowed) (PyExn AttributeError))) (\<lambda>allowed.
     if dict_get_none allowed (str ''accepted'') \<noteq> JBool True then Inl call_failed
     else
     bindE (from_library (expect (as_obj denied) (PyExn AttributeError))) (\<lambda>denied.
     if dict_get_none denied (str ''error'') \<noteq> JStr (str ''SCOPE_NOT_PERMITTED'') \<or> ie_invocations ex \<noteq> 1
     then Inl (Runtime_error (str ''Local policy refusal did not preserve the handler boundary''))
     else
     bindE (from_library (dict_item allowed (str ''caller_attestation''))) (\<lambda>attestation.
     bindE (from_library (dict_item ordinary (str ''mode''))) (\<lambda>mode.
     bindE (from_library (dict_item allowed (str ''inventory''))) (\<lambda>inventory.
     bindE (from_library (dict_item denied (str ''error''))) (\<lambda>err.
     Inr [(str ''agent'', JStr (oc_name ag_card)), (str ''transport'', JStr (str ''a2a-sdk JSON-RPC loopback'')),
          (str ''callee_assurance'', JStr (str ''none'')), (str ''caller_attestation'', attestation), (str ''ordinary'', mode),
          (str ''allowed'', inventory), (str ''denied'', err),
          (str ''protected_handler_invocations'', JInt (int (ie_invocations ex)))])))))))"

text \<open>One delegated call: the message is built, then sent.\<close>

definition delegated_call ::
  "lib \<Rightarrow> 's protobuf \<Rightarrow> 's sdk_link \<Rightarrow> loop_env \<Rightarrow> delegation_credential list \<times> bytes \<Rightarrow> inventory_executor \<Rightarrow> ustr \<Rightarrow>
   loop_exn + (inventory_executor \<times> json)" where
  "delegated_call L P link E creds ex capability =
     bindE (delegated_message L P link (demo_get link (ie_node ex) (lo_channel_env E capability)) (lo_random E capability)
              (fst creds) (snd creds) capability) (\<lambda>message.
     let (ex', reply) = sdk_send L P link (lo_handle_env E capability) ex message True in
     bindE reply (\<lambda>data. Inr (ex', data)))"

definition loopback_run :: "lib \<Rightarrow> 's protobuf \<Rightarrow> 's sdk_link \<Rightarrow> loop_env \<Rightarrow> loop_exn + jdict" where
  "loopback_run L P link E =
     bindE (from_library (demo_credentials L (lo_key E) (lo_ident E) (lo_now E))) (\<lambda>creds.
     bindE (from_library (demo_node L (cred_issuer (hd (fst creds))) (lo_private E) (lo_secret E))) (\<lambda>node.
     bindE (from_library (operator_card P (lo_base_url E) node)) (\<lambda>served.
     bindE (connect L P link served) (\<lambda>ag_card.
     let (ex1, reply) = sdk_send L P link (lo_ordinary_env E) \<lparr>ie_node = node, ie_invocations = 0\<rparr> (lk_text link (str ''Hello'')) False in
     bindE reply (\<lambda>ordinary.
     bindE (delegated_call L P link E creds ex1 INVENTORY_READ) (\<lambda>(ex2, allowed).
     bindE (delegated_call L P link E creds ex2 INVENTORY_WRITE) (\<lambda>(ex3, denied).
     loop_report ag_card ex3 ordinary allowed denied)))))))"

section \<open>The boundary\<close>

text \<open>Requests served one after the other by one executor, and the replies.\<close>

record 's inventory_call =
  ic_env :: call_env
  ic_message :: "'s sdk_message option"
  ic_requested :: "ustr set"

fun inventory_serve ::
  "lib \<Rightarrow> 's protobuf \<Rightarrow> inventory_executor \<Rightarrow> 's inventory_call list \<Rightarrow> inventory_executor \<times> jdict res list" where
  "inventory_serve L P ex [] = (ex, [])"
| "inventory_serve L P ex (c # cs) =
     (let (ex', reply) = inventory_execute L P (ic_env c) ex (ic_message c) (ic_requested c);
          (ex'', replies) = inventory_serve L P ex' cs in (ex'', reply # replies))"

definition reads_inventory :: "jdict res \<Rightarrow> bool" where
  "reads_inventory reply = (case reply of Inl _ \<Rightarrow> False | Inr body \<Rightarrow> has_key body (str ''inventory''))"

text \<open>What entitles a request to the inventory.\<close>

definition inventory_authorized :: "lib \<Rightarrow> 's protobuf \<Rightarrow> peer_node \<Rightarrow> 's inventory_call \<Rightarrow> bool" where
  "inventory_authorized L P node c \<longleftrightarrow>
     (\<exists>message extensions req. ic_message c = Some message \<and> sm_extensions message = Some extensions \<and>
        profile_uri \<in> set extensions \<and> profile_uri \<in> ic_requested c \<and> parse_sdk_message L P message = Inr (Some req) \<and>
        (let cfg = node_config node (ic_env c) in
          is_ok (verify_chain L (chain_args_of cfg) (pr_chain req)) \<and> (pn_require_holder node \<longrightarrow> holder_verified L cfg req) \<and>
          pr_capability req = INVENTORY_READ \<and> INVENTORY_READ |\<in>| effective_of L cfg req \<and>
          open_payload L cfg req = Inr (Some (ascii_bytes ''widget''))))"

lemma no_inventory [simp]:
  "\<not> reads_inventory (Inl e)" "\<not> reads_inventory (Inr ORDINARY_REPLY)" "\<not> reads_inventory (Inr (not_accepted code))"
  by (simp_all add: reads_inventory_def ORDINARY_REPLY_def not_accepted_def has_key_def)

lemma inventory_answer_cases:
  obtains (found) body where "res_granted result = INVENTORY_READ" "res_payload result = Some (ascii_bytes ''widget'')"
      "serialize_peer_result result = Inr body" "inventory_answer ex result =
        (ex\<lparr>ie_invocations := Suc (ie_invocations ex)\<rparr>, Inr (dict_set (str ''inventory'') (snd (inventory_lookup ex)) body))"
  | (refused) reply where "inventory_answer ex result = (ex, reply)" "\<not> reads_inventory reply"
proof (cases "res_granted result = INVENTORY_READ \<and> res_payload result = Some (ascii_bytes ''widget'')")
  case True
  then show ?thesis
    using found refused by (cases "serialize_peer_result result") (auto simp: inventory_answer_def inventory_lookup_def)
next
  case False
  then have "inventory_answer ex result = (ex, Inr (not_accepted ''UNSUPPORTED_DEMO_INPUT''))" by (auto simp: inventory_answer_def)
  then show ?thesis by (rule refused) simp
qed

lemma node_handle_Inr_iff:
  "node_handle L node env message = Inr res \<longleftrightarrow>
     (\<exists>req. parse_peer_request L message None = Inr (Some req) \<and> handle_peer_request L (node_config node env) req = Inr res)"
  by (auto simp: node_handle_def guard_simps)

lemma execute_step:
  assumes "inventory_execute L P (ic_env c) ex (ic_message c) (ic_requested c) = (ex', reply)"
  shows "if reads_inventory reply then ex' = ex\<lparr>ie_invocations := Suc (ie_invocations ex)\<rparr> \<and> inventory_authorized L P (ie_node ex) c
    else ex' = ex"
proof (cases "reads_inventory reply")
  case True
  with assms obtain message extensions meta res where m: "ic_message c = Some message" "sm_extensions message = Some extensions"
    "metadata_from_sdk_message P message = Inr meta" "profile_uri \<in> set extensions" "profile_uri \<in> ic_requested c"
    and h: "node_handle L (ie_node ex) (ic_env c) [(str ''metadata'', JObj meta)] = Inr res" and a: "inventory_answer ex res = (ex', reply)"
    by (auto simp: inventory_execute_def inventory_reply_def inventory_protected_def Let_def guard_simps
        split: option.splits sum.splits if_splits)
  from h obtain req where "parse_peer_request L [(str ''metadata'', JObj meta)] None = Inr (Some req)"
    and r: "handle_peer_request L (node_config (ie_node ex) (ic_env c)) req = Inr res" by (auto simp: node_handle_Inr_iff)
  then have p: "parse_sdk_message L P message = Inr (Some req)" by (simp add: parse_sdk_message_def m)
  from a True show ?thesis
  proof (cases rule: inventory_answer_cases [of res ex])
    case (found body)
    have "inventory_authorized L P (ie_node ex) c"
      unfolding inventory_authorized_def Let_def
      using m p r found(1,2) unfolding handle_Inr_iff by (auto simp: is_ok_def node_config_def)
    with a found True show ?thesis by simp
  qed auto
next
  case False
  have "ex' = ex" if "inventory_answer ex res = (ex', reply)" for res
    using that False by (cases rule: inventory_answer_cases [of res ex]) (auto simp: reads_inventory_def has_key_def)
  with assms False show ?thesis
    by (auto simp: inventory_execute_def inventory_reply_def inventory_protected_def Let_def split: option.splits sum.splits if_splits prod.splits)
qed

text \<open>
  C21: The inventory has one door. Over any sequence of requests the counter of the protected handler rises by
  exactly the number of replies that carry an inventory, and each of those answers a request that opted in on
  both surfaces, whose message parses to a profile request with a valid chain, a verified holder where the node
  demands one, the read capability in the effective scope and the bound payload. An ordinary message, a refused
  call and an error leave the executor as it was.
\<close>

theorem inventory_boundary:
  assumes "inventory_serve L P ex calls = (ex', replies)"
  shows "ie_invocations ex' = ie_invocations ex + length (filter reads_inventory replies) \<and> ie_node ex' = ie_node ex \<and>
    list_all2 (\<lambda>c reply. reads_inventory reply \<longrightarrow> inventory_authorized L P (ie_node ex) c) calls replies"
  using assms
proof (induction calls arbitrary: ex replies)
  case (Cons c calls)
  obtain ex1 reply where e: "inventory_execute L P (ic_env c) ex (ic_message c) (ic_requested c) = (ex1, reply)" by fastforce
  with Cons.prems obtain rs where s: "inventory_serve L P ex1 calls = (ex', rs)" and r: "replies = reply # rs"
    by (auto simp: Let_def split: prod.splits)
  have step: "ie_node ex1 = ie_node ex \<and> ie_invocations ex1 = ie_invocations ex + (if reads_inventory reply then 1 else 0) \<and>
      (reads_inventory reply \<longrightarrow> inventory_authorized L P (ie_node ex) c)"
    using execute_step [OF e] by (auto split: if_splits)
  with Cons.IH [OF s] show ?case unfolding r by (simp split: if_splits)
qed simp

section \<open>The run succeeds\<close>

text \<open>What the run relies on: a Struct takes plain values, messages arrive as sent and the data of a reply as a Struct carries it.\<close>

definition takes_plain :: "'s protobuf \<Rightarrow> bool" where
  "takes_plain P \<longleftrightarrow> (\<forall>d. plain_dict d \<longrightarrow> snd (pb_parse P d) = Inr ())"

definition link_faithful :: "'s protobuf \<Rightarrow> 's sdk_link \<Rightarrow> bool" where
  "link_faithful P link \<longleftrightarrow>
     (\<forall>t. \<exists>s. lk_text link t = \<lparr>sm_metadata = Some s, sm_extensions = Some []\<rparr> \<and> pb_to_dict P s = Inr []) \<and>
     (\<forall>m. lk_request link m = m) \<and> (\<forall>es. lk_requested link es = set es) \<and>
     (\<forall>body. plain_dict body \<longrightarrow> (\<exists>d. lk_responses link (Inr body) = Inr [Sdk_message [Some (JObj d)]] \<and> carries (JObj body) (JObj d))) \<and>
     (\<forall>c. lk_card link c = Inr c) \<and> (\<forall>b. plain_dict b \<longrightarrow> lk_json link b = Inr (JObj b))"

text \<open>Identifiers that differ, nonces of the sizes drawn, and clocks within the window and the life of a challenge.\<close>

definition call_timely :: "lib \<Rightarrow> loop_env \<Rightarrow> ustr \<Rightarrow> bool" where
  "call_timely L E cap \<longleftrightarrow>
     (let rnd = lo_random E cap; issued = env_issue_clock (lo_channel_env E cap); handled = lo_handle_env E cap in
      dr_nonce rnd \<noteq> [] \<and> length (dr_nonce rnd) \<le> 64 \<and> dr_record rnd \<noteq> [] \<and> length (dr_seal_nonce rnd) = NONCE_LEN \<and>
      x_exchange L (dr_seal_key rnd) (x_public L (lo_private E)) \<noteq> None \<and>
      lo_now E - 1 \<le> env_chain_clock handled \<and> env_chain_clock handled \<le> lo_now E + 300 \<and>
      env_holder_clock handled < issued + DEFAULT_TTL_SECONDS \<and> \<bar>issued + DEFAULT_TTL_SECONDS\<bar> < 10 ^ INT_MAX_STR_DIGITS)"

definition loop_env_ok :: "lib \<Rightarrow> loop_env \<Rightarrow> bool" where
  "loop_env_ok L E \<longleftrightarrow> 1 \<le> lo_now E \<and> lo_now E + 300 \<le> MAX_SAFE_INTEGER \<and> (\<forall>i. lo_ident E i \<noteq> []) \<and>
     lo_ident E 0 \<noteq> lo_ident E 1 \<and> call_timely L E INVENTORY_READ \<and> call_timely L E INVENTORY_WRITE"

text \<open>The credentials.\<close>

definition demo_chain_ok :: "lib \<Rightarrow> loop_env \<Rightarrow> delegation_credential list \<Rightarrow> bool" where
  "demo_chain_ok L E chain \<longleftrightarrow> chain \<noteq> [] \<and> list_all cred_wire_ok chain \<and> list_all cred_exact chain \<and> cred_encodable (last chain) \<and>
     cred_subject (last chain) = hex (ed_public L (lo_key E 2)) \<and> cred_scope (last chain) = {|INVENTORY_READ, INVENTORY_WRITE|} \<and>
     (\<forall>clock. lo_now E - 1 \<le> clock \<and> clock \<le> lo_now E + 300 \<longrightarrow> chain_valid L 8 {cred_issuer (hd chain)} clock chain)"

lemma inventory_names [simp]:
  "list_all encodable INVENTORY_READ" "list_all encodable INVENTORY_WRITE" "INVENTORY_READ \<noteq> []" "INVENTORY_WRITE \<noteq> []"
  "[] \<noteq> INVENTORY_READ" "[] \<noteq> INVENTORY_WRITE"
  "INVENTORY_READ \<noteq> INVENTORY_WRITE" "INVENTORY_WRITE \<noteq> INVENTORY_READ"
  by (simp_all add: INVENTORY_READ_def INVENTORY_WRITE_def)

lemma hex_Nil_iff [simp]: "hex b = [] \<longleftrightarrow> b = []"
  by (metis length_0_conv length_hex mult_eq_0_iff zero_neq_numeral)

lemma demo_credentials_ok:
  assumes "ed25519_correct L" and "loop_env_ok L E"
  shows "\<exists>chain. demo_credentials L (lo_key E) (lo_ident E) (lo_now E) = Inr (chain, lo_key E 2) \<and> demo_chain_ok L E chain"
proof -
  let ?F = "demo_fixture (lo_key E) (lo_ident E) (lo_now E)" and ?s = "replicate 2 {|INVENTORY_READ, INVENTORY_WRITE|}"
  have env: "1 \<le> lo_now E" "lo_now E + 300 \<le> MAX_SAFE_INTEGER" "\<And>i. lo_ident E i \<noteq> []" "lo_ident E 0 \<noteq> lo_ident E 1"
    using assms(2) by (simp_all add: loop_env_ok_def)
  then have w: "window_ok ?F" by (simp add: window_ok_def demo_fixture_def window_inverted_def)
  then have fx: "fixture_ok ?F ?s" by (auto simp: fixture_ok_def MAX_SAFE_INTEGER_def) (simp add: demo_fixture_def)
  obtain chain where c: "signed_hops L ?F 0 ?s None = Inr chain" and b: "built_by L ?F ?s chain" by (rule signed_hops_built [OF assms(1) fx])
  note f = built_fields [OF b]
  have len: "length chain = 2" using built_length [OF b] by simp
  then have last: "last chain = chain ! 1" "hd chain = chain ! 0" "chain \<noteq> []"
    by (auto simp: numeral_2_eq_2 length_Suc_conv)
  have "list_all cred_wire_ok chain"
    by (rule built_wire_ok [OF assms(1) b w]) (use env in \<open>auto simp: demo_fixture_def\<close>)
  moreover have "list_all cred_exact chain"
    unfolding list_all_length cred_exact_def using env f(5,7,8) len by (auto simp: demo_fixture_def MAX_SAFE_INTEGER_def)
  moreover have "cred_encodable (last chain)" using built_encodable [OF b fx] last(3) by simp
  moreover have "chain_valid L 8 {cred_issuer (hd chain)} clock chain" if "lo_now E - 1 \<le> clock" "clock \<le> lo_now E + 300" for clock
  proof -
    have "inj_on (fx_ident ?F) {..<2}" using env by (auto simp: inj_on_def demo_fixture_def less_Suc_eq numeral_2_eq_2)
    then have "chain_valid L 8 {fx_public L ?F 0} clock chain"
      using that by (intro built_chain_valid [OF b]) (simp_all add: fx_open_def demo_fixture_def numeral_2_eq_2)
    then show ?thesis using f(2) [of 0] by (simp add: last)
  qed
  ultimately have "demo_chain_ok L E chain"
    using f(3,4) [of 1] last by (simp add: demo_chain_ok_def fx_public_def demo_fixture_def numeral_2_eq_2)
  with c show ?thesis by (auto simp: demo_credentials_def)
qed

text \<open>The channel endpoint.\<close>

abbreviation demo_peer_node :: "lib \<Rightarrow> loop_env \<Rightarrow> ustr \<Rightarrow> peer_node" where
  "demo_peer_node L E issuer \<equiv>
     \<lparr>pn_policy = LocalPolicy (local_of [INVENTORY_READ]), pn_provider = software_attest, pn_max_depth = 8,
      pn_requirement = REQUIRE_NONE, pn_caller_verifier = None, pn_ttl = DEFAULT_TTL_SECONDS, pn_require_holder = True,
      pn_trusted = {issuer}, pn_has_source = False, pn_max_staleness = None, pn_private_key = lo_private E,
      pn_channel_public_key = hex (x_public L (lo_private E)), pn_challenge_secret = lo_secret E\<rparr>"

lemma demo_node_ok: "demo_node L issuer (lo_private E) (lo_secret E) = Inr (demo_peer_node L E issuer)"
  by (simp add: demo_node_def mk_node_def REQUIREMENT_VALUES_def) (simp add: REQUIRE_NONE_def REQUIRE_HARDWARE_def)

lemma demo_challenge_ok:
  assumes "0 < ttl"
  shows "\<exists>ch. issue_challenge secret ttl clock rnd = Inr ch \<and> ch \<noteq> [] \<and> list_all encodable ch"
proof -
  have "list_all (\<lambda>c. c < 128) (hex rnd)"
    using hex_lower [of rnd] by (rule list.pred_mono_strong) (auto simp: is_lower_hex_def is_digit_def)
  from challenge_text_ascii [OF this, of "clock + ttl"] obtain m where m: "mac secret (clock + ttl) (hex rnd) = Inr m"
    by (auto simp: mac_Inr_iff)
  have "list_all encodable (challenge_text (clock + ttl) (hex rnd))"
    unfolding challenge_text_def challenge_prefix_def list_all_append
    by (intro conjI encodable_str encodable_int_str encodable_hex) (simp_all add: encodable_ascii)
  moreover have "list_all encodable m" using mac_lower [OF m] by (rule encodable_lower_hex)
  ultimately show ?thesis using assms m by (simp add: issue_challenge_def Let_def encodable_ascii)
qed

lemma plain_offer_challenge: "plain_dict (serialize_channel_offer offer (Some ch))"
  by (simp add: serialize_channel_offer_def serialize_report_def evidence_item_def split: option.split)

lemma demo_get_ok:
  assumes "link_faithful P link" and "dr_nonce rnd \<noteq> []" and "length (dr_nonce rnd) \<le> 64"
  shows "\<exists>ch. node_issue_challenge (demo_peer_node L E issuer) env = Inr ch \<and> ch \<noteq> [] \<and> list_all encodable ch \<and>
    demo_get link (demo_peer_node L E issuer) env (hex (dr_nonce rnd)) =
      Inr (JObj (serialize_channel_offer (sample_offer (hex (x_public L (lo_private E))) (hex (dr_nonce rnd)) ROLE_CALLEE) (Some ch)))"
proof -
  obtain ch where ch: "node_issue_challenge (demo_peer_node L E issuer) env = Inr ch" "ch \<noteq> []" "list_all encodable ch"
    using demo_challenge_ok [of DEFAULT_TTL_SECONDS "lo_secret E" "env_issue_clock env" "env_issue_random env"]
    by (auto simp: node_issue_challenge_def DEFAULT_TTL_SECONDS_def)
  then show ?thesis
    using assms plain_offer_challenge
    by (intro exI [of _ ch]) (simp add: demo_get_def demo_channel_def node_offer_def software_offer link_faithful_def from_library_def)
qed

text \<open>The request built from an exchange, and its message.\<close>

abbreviation demo_peer :: "lib \<Rightarrow> loop_env \<Rightarrow> verified_peer" where
  "demo_peer L E \<equiv> \<lparr>vp_public_key = hex (x_public L (lo_private E)), vp_assurance = str ''none'', vp_measurement = SOFTWARE_MEASUREMENT\<rparr>"

definition honest_request :: "lib \<Rightarrow> loop_env \<Rightarrow> delegation_credential list \<Rightarrow> ustr \<Rightarrow> peer_request \<Rightarrow> bool" where
  "honest_request L E chain cap req \<longleftrightarrow> request_wire_ok req \<and> pr_chain req = chain \<and> pr_capability req = cap \<and>
     pr_record_id req = hex (dr_record (lo_random E cap)) \<and> pr_parent_hash req = None \<and> pr_caller_offer req = None \<and> pr_possession req = None \<and>
     (let cfg = node_config (demo_peer_node L E (cred_issuer (hd chain))) (lo_handle_env E cap) in
      holder_verified L cfg req \<and> open_payload L cfg req = Inr (Some (ascii_bytes ''widget'')))"

lemma delegated_request_ok:
  assumes laws: "ed25519_correct L" "x25519_correct L" "aead_correct L" and "demo_chain_ok L E chain" and t: "call_timely L E cap"
    and cap: "cap \<noteq> []" "list_all encodable cap"
    and ch: "node_issue_challenge (demo_peer_node L E (cred_issuer (hd chain))) (lo_channel_env E cap) = Inr ch" "ch \<noteq> []" "list_all encodable ch"
  shows "\<exists>req. delegated_request L (lo_random E cap) (demo_peer L E) ch chain (lo_key E 2) cap = Inr req \<and> honest_request L E chain cap req"
proof -
  let ?rnd = "lo_random E cap" and ?leaf = "last chain"
  have c: "chain \<noteq> []" "list_all cred_wire_ok chain" "cred_encodable ?leaf" "cred_subject ?leaf = hex (ed_public L (lo_key E 2))"
    using assms(4) by (simp_all add: demo_chain_ok_def)
  from t obtain shared where x: "x_exchange L (dr_seal_key ?rnd) (x_public L (lo_private E)) = Some shared"
    and r: "dr_record ?rnd \<noteq> []" "length (dr_seal_nonce ?rnd) = NONCE_LEN" by (auto simp: call_timely_def Let_def)
  obtain sealed where s: "seal_to_key L (hex (x_public L (lo_private E))) (dr_seal_key ?rnd) (dr_seal_nonce ?rnd) (ascii_bytes ''widget'') [] = Inr sealed"
    using laws(2) x by (auto simp: seal_to_key_def sealed_channel_init_def seal_def Let_def)
  define f where "f = \<lparr>rf_audience = hex (x_public L (lo_private E)), rf_capability = cap, rf_record_id = hex (dr_record ?rnd),
    rf_sealed_payload = Some sealed, rf_caller_key = None, rf_parent_hash = None\<rparr>"
  have "json_ok (JObj (proof_body ch (cred_id ?leaf) (cred_subject ?leaf) f))"
    using c(3) cap(2) ch(3) by (simp add: proof_body_def f_def PROOF_DOMAIN_def payload_sha256_def sha256_hex_def cred_encodable_def)
  from canonicalize_ok [OF this] c(4) obtain hp where hp: "build_holder_proof L (lo_key E 2) ?leaf ch f = Inr hp"
    by (auto simp: build_holder_proof_def)
  note signs = build_holder_proof_signs [OF laws(1) hp]
  have "verify_challenge L (lo_secret E) ch (env_holder_clock (lo_handle_env E cap)) = Inr ()"
    using issued_verifies_iff [OF ch(1) [unfolded node_issue_challenge_def]] t by (simp add: call_timely_def Let_def)
  with signs have "holder_verified L (node_config (demo_peer_node L E (cred_issuer (hd chain))) (lo_handle_env E cap))
      \<lparr>pr_chain = chain, pr_capability = cap, pr_record_id = hex (dr_record ?rnd), pr_sealed_payload = Some sealed, pr_parent_hash = None,
       pr_caller_offer = None, pr_holder_proof = Some hp, pr_possession = None\<rparr>"
    by (simp add: holder_verified_def node_config_def facts_of_def f_def)
  moreover have "open_sealed L sealed (lo_private E) [] = Inr (ascii_bytes ''widget'')" by (rule open_seal [OF laws(2,3) r(2) s])
  moreover have "proof_wire_ok hp" using signs ch(2) by (auto simp: proof_wire_ok_def)
  ultimately show ?thesis
    using c(1,2) cap(1) r(1) hp s seal_to_key_ne [OF s]
    by (simp add: delegated_request_def seal_to_peer_def Let_def f_def [symmetric] honest_request_def request_wire_ok_def open_payload_def node_config_def)
qed

lemma sdk_attach_ok:
  assumes P: "struct_faithful P" "pb_available P" "takes_plain P" and link: "link_faithful P link"
    and req: "request_wire_ok req" "list_all cred_exact (pr_chain req)"
  shows "\<exists>message meta. attach_to_sdk_message P (lk_text link t) req = (message, Inr ()) \<and> sm_extensions message = Some [profile_uri] \<and>
    metadata_from_sdk_message P message = Inr meta \<and> has_ca2a_metadata (Some meta) \<and>
    parse_peer_request L [(str ''metadata'', JObj meta)] None = Inr (Some req)"
proof -
  obtain s where m: "lk_text link t = \<lparr>sm_metadata = Some s, sm_extensions = Some []\<rparr>" and d: "pb_to_dict P s = Inr []"
    using link unfolding link_faithful_def by blast
  have nil: "restore_chain [] = []" by (simp add: restore_chain_def dict_get_none_def)
  have "snd (pb_parse P (attach_fields req [])) = Inr ()" using P(3) plain_attach_fields [of "[]" req] by (simp add: takes_plain_def)
  then obtain s' where s': "pb_parse P (attach_fields req []) = (s', Inr ())" by (metis prod.collapse)
  with P(1) obtain e where e: "pb_to_dict P s' = Inr e" and c: "carries (JObj (attach_fields req [])) (JObj e)"
    unfolding struct_faithful_def by blast
  have "rel_option carries (dict_get (attach_fields req []) KEY_RECORD_ID) (dict_get e KEY_RECORD_ID)" using c by simp
  then have "dict_get e KEY_RECORD_ID = Some (JStr (pr_record_id req))" by (simp add: attach_fields_get)
  then have "has_key (restore_chain e) KEY_RECORD_ID" by (simp add: has_key_def restore_chain_get)
  then have "has_ca2a_metadata (Some (restore_chain e))"
    by (auto simp: has_ca2a_metadata_def CA2A_METADATA_KEYS_def has_key_def)
  moreover have "attach_to_sdk_message P (lk_text link t) req = (\<lparr>sm_metadata = Some s', sm_extensions = Some [profile_uri]\<rparr>, Inr ())"
    using attach_to_sdk_message_parsed [OF P(2), of "lk_text link t" s "[]" req s'] m d s' by (simp add: nil add_extension_def)
  ultimately show ?thesis
    using parse_carried [OF req c, of L] P(2) e
    by (intro exI [of _ "\<lparr>sm_metadata = Some s', sm_extensions = Some [profile_uri]\<rparr>"] exI [of _ "restore_chain e"])
       (simp add: metadata_from_sdk_message_def require_protobuf_def)
qed

lemma delegated_message_ok:
  assumes laws: "ed25519_correct L" "x25519_correct L" "aead_correct L"
    and P: "struct_faithful P" "pb_available P" "takes_plain P" and link: "link_faithful P link"
    and chain: "demo_chain_ok L E chain" and t: "call_timely L E cap" and cap: "cap \<noteq> []" "list_all encodable cap"
    and node: "node = demo_peer_node L E (cred_issuer (hd chain))"
  obtains message meta req where
    "delegated_message L P link (demo_get link node (lo_channel_env E cap)) (lo_random E cap) chain (lo_key E 2) cap = Inr message"
    and "sm_extensions message = Some [profile_uri]" and "metadata_from_sdk_message P message = Inr meta"
    and "has_ca2a_metadata (Some meta)" and "parse_peer_request L [(str ''metadata'', JObj meta)] None = Inr (Some req)"
    and "honest_request L E chain cap req"
proof -
  let ?n = "hex (dr_nonce (lo_random E cap))"
  let ?off = "sample_offer (hex (x_public L (lo_private E))) ?n ROLE_CALLEE"
  from t obtain ch where ch: "node_issue_challenge node (lo_channel_env E cap) = Inr ch" "ch \<noteq> []" "list_all encodable ch"
    and get: "demo_get link node (lo_channel_env E cap) ?n = Inr (JObj (serialize_channel_offer ?off (Some ch)))"
    using demo_get_ok [OF link] unfolding node call_timely_def Let_def by blast
  obtain req where r: "delegated_request L (lo_random E cap) (demo_peer L E) ch chain (lo_key E 2) cap = Inr req"
    and h: "honest_request L E chain cap req"
    using delegated_request_ok [OF laws chain t cap ch [unfolded node]] by blast
  have "request_wire_ok req" "list_all cred_exact (pr_chain req)"
    using h chain by (simp_all add: honest_request_def demo_chain_ok_def)
  from sdk_attach_ok [OF P link this, of "str ''Use only the bound sealed payload''" L] obtain message meta
    where m: "attach_to_sdk_message P (lk_text link (str ''Use only the bound sealed payload'')) req = (message, Inr ())"
      and rest: "sm_extensions message = Some [profile_uri]" "metadata_from_sdk_message P message = Inr meta"
      "has_ca2a_metadata (Some meta)" "parse_peer_request L [(str ''metadata'', JObj meta)] None = Inr (Some req)" by blast
  have "offer_wire_ok ?off" by (simp add: offer_wire_ok_def sample_offer_def evidence_of_def)
  moreover have "verify_offer L ?off ?n None False ROLE_CALLEE = Inr (demo_peer L E)" by (simp add: verify_offer_def sample_offer_def)
  ultimately have "delegated_message L P link (demo_get link node (lo_channel_env E cap)) (lo_random E cap) chain (lo_key E 2) cap = Inr message"
    using get ch(2) r m
    by (simp add: delegated_message_def from_library_def Let_def parse_serialized_offer parse_serialized_challenge)
  from that [OF this rest h] show thesis .
qed

text \<open>The two decisions.\<close>

lemma demo_chain_verifies:
  assumes "demo_chain_ok L E chain" and "call_timely L E cap" and "node = demo_peer_node L E (cred_issuer (hd chain))"
  shows "verify_chain L (chain_args_of (node_config node (lo_handle_env E cap))) chain = Inr REVOCATION_NOT_CHECKED"
proof -
  have "chain_args_of (node_config node (lo_handle_env E cap)) = plain_args 8 (cred_issuer (hd chain)) (env_chain_clock (lo_handle_env E cap))"
    by (simp add: chain_args_of_def node_config_def plain_args_def assms(3))
  then show ?thesis using assms(1,2) by (simp add: plain_args_accepts demo_chain_ok_def call_timely_def Let_def)
qed

lemma handle_honest:
  assumes "demo_chain_ok L E chain" and "call_timely L E cap" and "honest_request L E chain cap req"
    and node: "node = demo_peer_node L E (cred_issuer (hd chain))"
  shows "cap = INVENTORY_READ \<Longrightarrow> \<exists>res body. handle_peer_request L (node_config node (lo_handle_env E cap)) req = Inr res \<and>
      res_granted res = INVENTORY_READ \<and> res_payload res = Some (ascii_bytes ''widget'') \<and>
      res_caller_attestation res = CALLER_NOT_OFFERED \<and> serialize_peer_result res = Inr body"
    and "cap = INVENTORY_WRITE \<Longrightarrow> \<exists>m r. handle_peer_request L (node_config node (lo_handle_env E cap)) req = Inl (Ca2a ScopeNotPermitted m r)"
proof -
  let ?cfg = "node_config node (lo_handle_env E cap)" and ?id = "hex (dr_record (lo_random E cap))"
  note v = demo_chain_verifies [OF assms(1,2) node]
  have r: "pr_chain req = chain" "pr_capability req = cap" "pr_record_id req = ?id" "pr_parent_hash req = None" "pr_caller_offer req = None"
    "pr_possession req = None" "holder_verified L ?cfg req" "open_payload L ?cfg req = Inr (Some (ascii_bytes ''widget''))"
    using assms(3) by (simp_all add: honest_request_def node Let_def)
  have c: "chain \<noteq> []" "cred_encodable (last chain)" "cred_scope (last chain) = {|INVENTORY_READ, INVENTORY_WRITE|}"
    using assms(1) by (simp_all add: demo_chain_ok_def)
  have eff: "effective_of L ?cfg req = {|INVENTORY_READ|}"
    by (auto simp: effective_of_def r(1) c(3) node node_config_def local_intersect_def local_of_def)
  have app: "appraise_caller_runtime L ?cfg req (effective_of L ?cfg req) = Inr CALLER_NOT_OFFERED"
    using r c(1) by (simp add: appraise_caller_runtime_Inr_iff) (simp add: node node_config_def REQUIREMENT_VALUES_def)
  have enc: "rec_encodable (hop_record (last chain) ?id None)" using c(2) by (intro hop_record_encodable) simp_all
  then obtain h where "record_hash (hop_record (last chain) ?id None) = Inr h" using rec_encodable_hash by blast
  then show "\<exists>res body. handle_peer_request L ?cfg req = Inr res \<and> res_granted res = INVENTORY_READ \<and>
      res_payload res = Some (ascii_bytes ''widget'') \<and> res_caller_attestation res = CALLER_NOT_OFFERED \<and> serialize_peer_result res = Inr body"
    if "cap = INVENTORY_READ"
    unfolding handle_Inr_iff using that v r eff app
    by (intro exI [of _ "\<lparr>res_effective = {|INVENTORY_READ|}, res_granted = INVENTORY_READ, res_record = hop_record (last chain) ?id None,
          res_payload = Some (ascii_bytes ''widget''), res_caller_attestation = CALLER_NOT_OFFERED, res_revocation = REVOCATION_NOT_CHECKED\<rparr>"])
       (simp add: serialize_peer_result_def record_to_dict_def)
  show "\<exists>m r. handle_peer_request L ?cfg req = Inl (Ca2a ScopeNotPermitted m r)" if "cap = INVENTORY_WRITE"
  proof -
    have "verify_caller_holds_leaf L ?cfg req = Inr ()" using r c(1) by (simp add: verify_caller_holds_leaf_iff)
    moreover have "policy_intersect L (cfg_policy ?cfg) (cred_scope (last chain)) = {|INVENTORY_READ|}" using eff by (simp add: effective_of_def r(1))
    ultimately show ?thesis
      using v app eff r c(1) that
      by (simp add: handle_peer_request_def decide_capability_def denial_record_for_def rec_post_init_def Let_def)
  qed
qed

lemma serialize_peer_result_fields:
  assumes "serialize_peer_result res = Inr body"
  shows "plain_dict body" and "dict_get body (str ''accepted'') = Some (JBool True)"
    and "dict_get body (str ''caller_attestation'') = Some (JStr (res_caller_attestation res))"
proof -
  obtain r where r: "record_to_dict (res_record res) = Inr r" and b: "body = [(str ''accepted'', JBool True),
      (str ''effective_scope'', str_list (res_effective res)), (str ''granted_capability'', JStr (res_granted res)),
      (str ''caller_attestation'', JStr (res_caller_attestation res)), (str ''record'', JObj r)]"
    using assms by (auto simp: serialize_peer_result_def guard_simps)
  have "plain_dict (rec_body q)" for q by (simp add: rec_body_def str_list_def list.pred_map comp_def list.pred_True split: option.split)
  then have "plain_dict r" using r by (auto simp: record_to_dict_def guard_simps intro!: plain_dict_set)
  then show "plain_dict body" by (simp add: b str_list_def list.pred_map comp_def list.pred_True)
qed (use assms in \<open>auto simp: serialize_peer_result_def guard_simps\<close>)

lemma sdk_send_reply:
  assumes "link_faithful P link" and "inventory_execute L P env ex (Some message) (if ca2a then {profile_uri} else {}) = (ex', Inr body)"
    and "plain_dict body"
  obtains d where "sdk_send L P link env ex message ca2a = (ex', Inr (JObj d))" and "carries (JObj body) (JObj d)"
proof -
  from assms(1,3) obtain d where "lk_responses link (Inr body) = Inr [Sdk_message [Some (JObj d)]]" "carries (JObj body) (JObj d)"
    unfolding link_faithful_def by blast
  moreover have "lk_request link message = message" "\<And>es. lk_requested link es = set es" using assms(1) by (simp_all add: link_faithful_def)
  ultimately show thesis
    using assms(2) that by (cases ca2a) (simp_all add: sdk_send_def from_library_def read_replies_def)
qed

lemma carried_get: "carries (JObj b) (JObj d) \<Longrightarrow> rel_option carries (dict_get b k) (dict_get d k)"
  by simp

abbreviation WIDGET_STOCK :: jdict where
  "WIDGET_STOCK \<equiv> [(str ''item'', JStr (str ''widget'')), (str ''quantity'', JInt 3)]"

text \<open>A delegated call reaches the protected branch, and its reply comes back as a Struct carries it.\<close>

lemma delegated_call_reaches:
  assumes laws: "ed25519_correct L" "x25519_correct L" "aead_correct L"
    and P: "struct_faithful P" "pb_available P" "takes_plain P" and link: "link_faithful P link" and chain: "demo_chain_ok L E chain"
    and node: "ie_node ex = demo_peer_node L E (cred_issuer (hd chain))"
    and t: "call_timely L E cap" and cap: "cap \<noteq> []" "list_all encodable cap"
  obtains meta req where "parse_peer_request L [(str ''metadata'', JObj meta)] None = Inr (Some req)" and "honest_request L E chain cap req"
    and "\<And>ex' body. inventory_protected L (lo_handle_env E cap) ex meta = (ex', Inr body) \<Longrightarrow> plain_dict body \<Longrightarrow>
      \<exists>d. delegated_call L P link E (chain, lo_key E 2) ex cap = Inr (ex', JObj d) \<and> carries (JObj body) (JObj d)"
proof -
  let ?env = "lo_handle_env E cap"
  obtain message meta req where m: "delegated_message L P link (demo_get link (ie_node ex) (lo_channel_env E cap))
      (lo_random E cap) chain (lo_key E 2) cap = Inr message"
    and s: "sm_extensions message = Some [profile_uri]" "metadata_from_sdk_message P message = Inr meta" "has_ca2a_metadata (Some meta)"
    and p: "parse_peer_request L [(str ''metadata'', JObj meta)] None = Inr (Some req)" and h: "honest_request L E chain cap req"
    by (rule delegated_message_ok [OF laws P link chain t cap node])
  have "\<exists>d. delegated_call L P link E (chain, lo_key E 2) ex cap = Inr (ex', JObj d) \<and> carries (JObj body) (JObj d)"
    if r: "inventory_protected L ?env ex meta = (ex', Inr body)" and b: "plain_dict body" for ex' body
  proof -
    have "inventory_execute L P ?env ex (Some message) (if True then {profile_uri} else {}) = (ex', Inr body)"
      using s r by (simp add: inventory_execute_def inventory_reply_def)
    from sdk_send_reply [OF link this b] obtain d where "sdk_send L P link ?env ex message True = (ex', Inr (JObj d))"
      and "carries (JObj body) (JObj d)" .
    with m show ?thesis by (auto simp: delegated_call_def simp del: carries_simps)
  qed
  from that [OF p h this] show thesis .
qed

lemma delegated_read:
  assumes laws: "ed25519_correct L" "x25519_correct L" "aead_correct L"
    and P: "struct_faithful P" "pb_available P" "takes_plain P" and link: "link_faithful P link" and chain: "demo_chain_ok L E chain"
    and node: "ie_node ex = demo_peer_node L E (cred_issuer (hd chain))" and t: "call_timely L E INVENTORY_READ"
  shows "\<exists>d inv. delegated_call L P link E (chain, lo_key E 2) ex INVENTORY_READ = Inr (ex\<lparr>ie_invocations := Suc (ie_invocations ex)\<rparr>, JObj d) \<and>
    dict_get d (str ''accepted'') = Some (JBool True) \<and> dict_get d (str ''caller_attestation'') = Some (JStr CALLER_NOT_OFFERED) \<and>
    dict_get d (str ''inventory'') = Some (JObj inv) \<and> carries (JObj WIDGET_STOCK) (JObj inv)"
proof -
  let ?ex = "ex\<lparr>ie_invocations := Suc (ie_invocations ex)\<rparr>"
  obtain meta req where p: "parse_peer_request L [(str ''metadata'', JObj meta)] None = Inr (Some req)" and h: "honest_request L E chain INVENTORY_READ req"
    and sent: "\<And>ex' body. inventory_protected L (lo_handle_env E INVENTORY_READ) ex meta = (ex', Inr body) \<Longrightarrow> plain_dict body \<Longrightarrow>
      \<exists>d. delegated_call L P link E (chain, lo_key E 2) ex INVENTORY_READ = Inr (ex', JObj d) \<and> carries (JObj body) (JObj d)"
    by (rule delegated_call_reaches [OF laws P link chain node t]) simp_all
  obtain res body where r: "handle_peer_request L (node_config (ie_node ex) (lo_handle_env E INVENTORY_READ)) req = Inr res"
    "res_granted res = INVENTORY_READ" "res_payload res = Some (ascii_bytes ''widget'')" "res_caller_attestation res = CALLER_NOT_OFFERED"
    and b: "serialize_peer_result res = Inr body" using handle_honest(1) [OF chain t h node] by blast
  note f = serialize_peer_result_fields [OF b]
  have "inventory_protected L (lo_handle_env E INVENTORY_READ) ex meta = (?ex, Inr (dict_set (str ''inventory'') (JObj WIDGET_STOCK) body))"
    using p r b by (simp add: inventory_protected_def inventory_answer_def inventory_lookup_def node_handle_def)
  moreover have "plain_dict (dict_set (str ''inventory'') (JObj WIDGET_STOCK) body)" using f(1) by (intro plain_dict_set) simp_all
  ultimately obtain d where d: "delegated_call L P link E (chain, lo_key E 2) ex INVENTORY_READ = Inr (?ex, JObj d)"
    and c: "carries (JObj (dict_set (str ''inventory'') (JObj WIDGET_STOCK) body)) (JObj d)" using sent by blast
  have "rel_option carries (Some (JObj WIDGET_STOCK)) (dict_get d (str ''inventory''))" using carried_get [OF c, of "str ''inventory''"] by simp
  then obtain inv where "dict_get d (str ''inventory'') = Some (JObj inv)" "carries (JObj WIDGET_STOCK) (JObj inv)"
    by (cases "dict_get d (str ''inventory'')") auto
  moreover have "dict_get d (str ''accepted'') = Some (JBool True)"
    using carried_get [OF c, of "str ''accepted''"] f(2) by (cases "dict_get d (str ''accepted'')") (auto elim: carries.cases)
  moreover have "dict_get d (str ''caller_attestation'') = Some (JStr CALLER_NOT_OFFERED)"
    using carried_get [OF c, of "str ''caller_attestation''"] f(3) r(4) by simp
  ultimately show ?thesis using d by blast
qed

lemma delegated_write:
  assumes laws: "ed25519_correct L" "x25519_correct L" "aead_correct L"
    and P: "struct_faithful P" "pb_available P" "takes_plain P" and link: "link_faithful P link" and chain: "demo_chain_ok L E chain"
    and node: "ie_node ex = demo_peer_node L E (cred_issuer (hd chain))" and t: "call_timely L E INVENTORY_WRITE"
  shows "\<exists>d. delegated_call L P link E (chain, lo_key E 2) ex INVENTORY_WRITE = Inr (ex, JObj d) \<and>
    dict_get d (str ''error'') = Some (JStr (str ''SCOPE_NOT_PERMITTED''))"
proof -
  obtain meta req where p: "parse_peer_request L [(str ''metadata'', JObj meta)] None = Inr (Some req)" and h: "honest_request L E chain INVENTORY_WRITE req"
    and sent: "\<And>ex' body. inventory_protected L (lo_handle_env E INVENTORY_WRITE) ex meta = (ex', Inr body) \<Longrightarrow> plain_dict body \<Longrightarrow>
      \<exists>d. delegated_call L P link E (chain, lo_key E 2) ex INVENTORY_WRITE = Inr (ex', JObj d) \<and> carries (JObj body) (JObj d)"
    by (rule delegated_call_reaches [OF laws P link chain node t]) simp_all
  have "inventory_protected L (lo_handle_env E INVENTORY_WRITE) ex meta = (ex, Inr (not_accepted ''SCOPE_NOT_PERMITTED''))"
    using p handle_honest(2) [OF chain t h node] by (auto simp: inventory_protected_def node_handle_def)
  moreover have "plain_dict (not_accepted ''SCOPE_NOT_PERMITTED'')" by (simp add: not_accepted_def)
  ultimately obtain d where "delegated_call L P link E (chain, lo_key E 2) ex INVENTORY_WRITE = Inr (ex, JObj d)"
    and c: "carries (JObj (not_accepted ''SCOPE_NOT_PERMITTED'')) (JObj d)" using sent by blast
  then show ?thesis using carried_get [OF c, of "str ''error''"] by (simp add: not_accepted_def)
qed

lemma ordinary_sent:
  assumes link: "link_faithful P link" and P: "pb_available P"
  shows "\<exists>d. sdk_send L P link env ex (lk_text link t) False = (ex, Inr (JObj d)) \<and> dict_get d (str ''mode'') = Some (JStr (str ''ordinary''))"
proof -
  obtain s where m: "lk_text link t = \<lparr>sm_metadata = Some s, sm_extensions = Some []\<rparr>" and d: "pb_to_dict P s = Inr []"
    using link unfolding link_faithful_def by blast
  have "restore_chain [] = []" by (simp add: restore_chain_def dict_get_none_def)
  then have "inventory_execute L P env ex (Some (lk_text link t)) (if False then {profile_uri} else {}) = (ex, Inr ORDINARY_REPLY)"
    using P d by (simp add: m inventory_execute_def inventory_reply_def metadata_from_sdk_message_def require_protobuf_def has_ca2a_metadata_def)
  moreover have "plain_dict ORDINARY_REPLY" by (simp add: ORDINARY_REPLY_def)
  ultimately obtain d where "sdk_send L P link env ex (lk_text link t) False = (ex, Inr (JObj d))" and c: "carries (JObj ORDINARY_REPLY) (JObj d)"
    by (rule sdk_send_reply [OF link])
  then show ?thesis using carried_get [OF c, of "str ''mode''"] by (simp add: ORDINARY_REPLY_def)
qed

lemma card_served:
  assumes P: "struct_faithful P" "pb_available P" "takes_plain P" "sk_available P" "finds_first P" and link: "link_faithful P link"
    and node: "pn_requirement node = REQUIRE_NONE"
  shows "\<exists>served. operator_card P url node = Inr served \<and> connect L P link served = Inr served \<and> oc_name served = str ''SDK inventory example''"
proof -
  have "snd (pb_parse P [(KEY_REQUIREMENT, JStr (pn_requirement node))]) = Inr ()" using P(3) by (simp add: takes_plain_def)
  then obtain s where s: "pb_parse P [(KEY_REQUIREMENT, JStr (pn_requirement node))] = (s, Inr ())" by (metis prod.collapse)
  obtain e where e: "pb_to_dict P s = Inr e" and c: "carries (JObj [(KEY_REQUIREMENT, JStr (pn_requirement node))]) (JObj e)"
    using P(1) s unfolding struct_faithful_def by blast
  have get: "dict_get e = dict_get [(KEY_REQUIREMENT, JStr (pn_requirement node))]" using c by (rule carried_string_dict) simp
  then have "dict_keys e = {KEY_REQUIREMENT}" by (auto simp: dict_keys_iff split: if_splits)
  then show ?thesis
    using P(2,4,5) link s e node
    by (auto simp: operator_card_def merge_agent_card_def agent_extension_for_node_def require_protobuf_def load_a2a_sdk_def merge_extensions_def
        connect_def from_library_def link_faithful_def inspect_agent_card_def finds_first_def read_requirement_def dict_get_none_def get
        card_warnings_def unknown_params_def REQUIREMENT_VALUES_def)
qed

text \<open>
  C5: The SDK example does what it demonstrates. Whatever keys and identifiers it draws, when the SDK delivers messages and
  replies as a Struct carries them and the calls are timely, the run ends with its summary: the ordinary message is
  answered on the public branch, the read call passes the card, the channel, the sealed payload, the holder proof and
  the policy and returns the widget stock, the write call is refused as SCOPE_NOT_PERMITTED, and the protected handler
  has been invoked exactly once.
\<close>

theorem loopback_run_succeeds:
  assumes "ed25519_correct L" "x25519_correct L" "aead_correct L"
    and "struct_faithful P" "pb_available P" "takes_plain P" "sk_available P" "finds_first P" "link_faithful P link"
    and "loop_env_ok L E"
  shows "\<exists>inv. carries (JObj WIDGET_STOCK) (JObj inv) \<and> loopback_run L P link E = Inr
    [(str ''agent'', JStr (str ''SDK inventory example'')), (str ''transport'', JStr (str ''a2a-sdk JSON-RPC loopback'')),
     (str ''callee_assurance'', JStr (str ''none'')), (str ''caller_attestation'', JStr CALLER_NOT_OFFERED),
     (str ''ordinary'', JStr (str ''ordinary'')), (str ''allowed'', JObj inv), (str ''denied'', JStr (str ''SCOPE_NOT_PERMITTED'')),
     (str ''protected_handler_invocations'', JInt 1)]"
proof -
  obtain chain where c: "demo_credentials L (lo_key E) (lo_ident E) (lo_now E) = Inr (chain, lo_key E 2)" and ok: "demo_chain_ok L E chain"
    using demo_credentials_ok [OF assms(1,10)] by blast
  have t: "call_timely L E INVENTORY_READ" "call_timely L E INVENTORY_WRITE" using assms(10) by (simp_all add: loop_env_ok_def)
  let ?node = "demo_peer_node L E (cred_issuer (hd chain))"
  let ?ex = "\<lparr>ie_node = ?node, ie_invocations = 0\<rparr>" and ?ex1 = "\<lparr>ie_node = ?node, ie_invocations = Suc 0\<rparr>"
  obtain served where k: "operator_card P (lo_base_url E) ?node = Inr served" "connect L P link served = Inr served"
    "oc_name served = str ''SDK inventory example''" using card_served [OF assms(4-9), of ?node] by auto
  obtain pub where pub: "sdk_send L P link (lo_ordinary_env E) ?ex (lk_text link (str ''Hello'')) False = (?ex, Inr (JObj pub))"
    "dict_get pub (str ''mode'') = Some (JStr (str ''ordinary''))" using ordinary_sent [OF assms(9,5)] by blast
  obtain a inv where a: "delegated_call L P link E (chain, lo_key E 2) ?ex INVENTORY_READ = Inr (?ex1, JObj a)"
    "dict_get a (str ''accepted'') = Some (JBool True)" "dict_get a (str ''caller_attestation'') = Some (JStr CALLER_NOT_OFFERED)"
    "dict_get a (str ''inventory'') = Some (JObj inv)" and inv: "carries (JObj WIDGET_STOCK) (JObj inv)"
    using delegated_read [OF assms(1-6,9) ok _ t(1), of ?ex] by auto
  obtain d where d: "delegated_call L P link E (chain, lo_key E 2) ?ex1 INVENTORY_WRITE = Inr (?ex1, JObj d)"
    "dict_get d (str ''error'') = Some (JStr (str ''SCOPE_NOT_PERMITTED''))"
    using delegated_write [OF assms(1-6,9) ok _ t(2), of ?ex1] by auto
  have "loopback_run L P link E = loop_report served ?ex1 (JObj pub) (JObj a) (JObj d)"
    using c k(1,2) pub(1) a(1) d(1) by (simp add: loopback_run_def from_library_def demo_node_ok)
  moreover have "loop_report served ?ex1 (JObj pub) (JObj a) (JObj d) = Inr
    [(str ''agent'', JStr (str ''SDK inventory example'')), (str ''transport'', JStr (str ''a2a-sdk JSON-RPC loopback'')),
     (str ''callee_assurance'', JStr (str ''none'')), (str ''caller_attestation'', JStr CALLER_NOT_OFFERED),
     (str ''ordinary'', JStr (str ''ordinary'')), (str ''allowed'', JObj inv), (str ''denied'', JStr (str ''SCOPE_NOT_PERMITTED'')),
     (str ''protected_handler_invocations'', JInt 1)]"
    using k(3) pub(2) a(2-4) d(2) by (simp add: loop_report_def from_library_def dict_get_none_def dict_item_def)
  ultimately show ?thesis using inv by (intro exI [of _ inv]) (simp del: carries_simps)
qed

section \<open>A sample run\<close>

definition sample_link :: "jdict sdk_link" where
  "sample_link =
     \<lparr>lk_text = (\<lambda>_. \<lparr>sm_metadata = Some [], sm_extensions = Some []\<rparr>), lk_request = id, lk_requested = set,
      lk_responses = (\<lambda>m. bindE m (\<lambda>body.
        bindE (expect (struct_value (JObj body)) (PyExn ValueError)) (\<lambda>v. Inr [Sdk_message [Some v]]))),
      lk_card = Inr, lk_json = (\<lambda>b. Inr (JObj b))\<rparr>"

definition sample_loop_env :: loop_env where
  "sample_loop_env =
     \<lparr>lo_key = (\<lambda>i. [of_nat i]), lo_ident = (\<lambda>i. [of_nat i]), lo_now = 100, lo_private = [5], lo_secret = [1], lo_base_url = [],
      lo_channel_env = (\<lambda>_. sample_env), lo_handle_env = (\<lambda>_. sample_env), lo_ordinary_env = sample_env,
      lo_random = (\<lambda>_. \<lparr>dr_nonce = [1, 2], dr_record = [3], dr_seal_key = [9], dr_seal_nonce = replicate 12 0\<rparr>)\<rparr>"

lemma sample_takes_plain: "takes_plain sample_protobuf"
  by (simp add: takes_plain_def sample_parses)

lemma sample_link_faithful: "link_faithful sample_protobuf sample_link"
proof -
  have "\<exists>d. lk_responses sample_link (Inr body) = Inr [Sdk_message [Some (JObj d)]] \<and> carries (JObj body) (JObj d)" if "plain_dict body" for body
  proof -
    from that obtain w where w: "struct_value (JObj body) = Some w" using struct_value_total [of "JObj body"] by auto
    then obtain d where "w = JObj d" by auto
    with w struct_value_carries [OF w] show ?thesis by (intro exI [of _ d]) (simp add: sample_link_def del: carries_simps struct_value.simps)
  qed
  then show ?thesis by (simp add: link_faithful_def sample_link_def sample_protobuf_def del: carries_simps)
qed

lemma sample_loop_env_ok: "loop_env_ok sample_lib sample_loop_env"
proof -
  have "call_timely sample_lib sample_loop_env cap" for cap
    using sample_expiry_readable
    by (simp add: call_timely_def sample_loop_env_def sample_env_def DEFAULT_TTL_SECONDS_def NONCE_LEN_def sample_lib_def)
  then show ?thesis by (simp add: loop_env_ok_def) (simp add: sample_loop_env_def MAX_SAFE_INTEGER_def)
qed

lemmas sample_sdk = sample_struct_faithful sample_takes_plain sample_finds_first sample_link_faithful sample_loop_env_ok

theorem loopback_run_succeeds_witness:
  "\<exists>out. loopback_run sample_lib sample_protobuf sample_link sample_loop_env = Inr out \<and>
    dict_get out (str ''denied'') = Some (JStr (str ''SCOPE_NOT_PERMITTED'')) \<and> dict_get out (str ''protected_handler_invocations'') = Some (JInt 1)"
proof -
  have "pb_available sample_protobuf" "sk_available sample_protobuf" by (simp_all add: sample_protobuf_def)
  from loopback_run_succeeds [OF sample_laws sample_sdk(1) this(1) sample_sdk(2) this(2) sample_sdk(3-5)] show ?thesis by fastforce
qed

theorem inventory_boundary_witness:
  "\<exists>issuer message reply. let ex = \<lparr>ie_node = demo_peer_node sample_lib sample_loop_env issuer, ie_invocations = 0\<rparr>;
      c = \<lparr>ic_env = sample_env, ic_message = Some message, ic_requested = {profile_uri}\<rparr> in
    reads_inventory reply \<and> inventory_authorized sample_lib sample_protobuf (ie_node ex) c \<and>
    inventory_serve sample_lib sample_protobuf ex [c] = (ex\<lparr>ie_invocations := 1\<rparr>, [reply])"
proof -
  let ?E = sample_loop_env and ?L = sample_lib and ?P = sample_protobuf
  have P: "pb_available ?P" by (simp add: sample_protobuf_def)
  obtain chain where ok: "demo_chain_ok ?L ?E chain" using demo_credentials_ok [OF sample_laws(1) sample_sdk(5)] by blast
  have t: "call_timely ?L ?E INVENTORY_READ" using sample_sdk(5) by (simp add: loop_env_ok_def)
  define node where "node = demo_peer_node ?L ?E (cred_issuer (hd chain))"
  obtain message :: "jdict sdk_message" and meta req where m: "sm_extensions message = Some [profile_uri]" "metadata_from_sdk_message ?P message = Inr meta"
    "has_ca2a_metadata (Some meta)" "parse_peer_request ?L [(str ''metadata'', JObj meta)] None = Inr (Some req)"
    and h: "honest_request ?L ?E chain INVENTORY_READ req"
    by (rule delegated_message_ok [OF sample_laws sample_sdk(1) P sample_sdk(2,4) ok t inventory_names(3,1) node_def]) blast
  let ?ex = "\<lparr>ie_node = node, ie_invocations = 0\<rparr>" and ?c = "\<lparr>ic_env = sample_env, ic_message = Some message, ic_requested = {profile_uri}\<rparr>"
  have env: "lo_handle_env ?E INVENTORY_READ = sample_env" by (simp add: sample_loop_env_def)
  obtain body where e: "inventory_execute ?L ?P sample_env ?ex (Some message) {profile_uri} = (?ex\<lparr>ie_invocations := 1\<rparr>, Inr body)"
    and r: "reads_inventory (Inr body)"
    using m handle_honest(1) [OF ok t h node_def, unfolded env]
    by (auto simp: inventory_execute_def inventory_reply_def inventory_protected_def inventory_answer_def inventory_lookup_def node_handle_def
        reads_inventory_def has_key_def)
  then have s: "inventory_serve ?L ?P ?ex [?c] = (?ex\<lparr>ie_invocations := 1\<rparr>, [Inr body])" by simp
  from inventory_boundary [OF this] r have "inventory_authorized ?L ?P (ie_node ?ex) ?c" by simp
  with r s show ?thesis
    unfolding Let_def node_def [symmetric] by (intro exI [of _ "cred_issuer (hd chain)"] exI [of _ message] exI [of _ "Inr body"]) (simp add: node_def)
qed

end
