(* ===== verification/Handoff.thy ===== *)
theory Handoff
  imports Bootstrap Evidence
begin

text \<open>
  The response-authentication experiments under \<open>papers/handoff-response-authentication/experiments\<close>: the race of
  concurrent verifications and the MAC the caller makes itself (\<open>race_and_caller_mac.py\<close>), and the peer, relay,
  caller and restarted caller of \<open>transport_cut.py\<close>. A journal is the list of the records its lines hold; a
  connection is the list of chunks it delivers, after which it is closed and \<open>recv\<close> returns no bytes. Starting and
  killing the processes is left out.
\<close>

section \<open>Race and caller-made MAC\<close>

datatype race_exn = Race_raised exn | Race_assertion

definition lift_race :: "'a res \<Rightarrow> race_exn + 'a" where
  "lift_race m = (case m of Inl e \<Rightarrow> Inl (Race_raised e) | Inr x \<Rightarrow> Inr x)"

text \<open>The attempts on one pending response in the order the lock lets them in, each with its two clock reads.\<close>

fun consume_all :: "lib \<Rightarrow> pending_response \<Rightarrow> bytes \<Rightarrow> (rat option \<times> rat option) list \<Rightarrow> bool list res" where
  "consume_all L pending raw [] = Inr []"
| "consume_all L pending raw ((t1, t2) # ts) =
     (let (pending', r) = verify_response L pending 200 raw t1 t2 in
      bindE (case r of Inr _ \<Rightarrow> Inr True | Inl e \<Rightarrow> if is_class ResponseAuthenticationFailed e then Inr False else Inl e) (\<lambda>ok.
      bindE (consume_all L pending' raw ts) (\<lambda>oks. Inr (ok # oks))))"

record race_draw =
  rd_private :: bytes
  rd_session :: bytes
  rd_started :: "rat option"
  rd_clocks :: "(rat option \<times> rat option) list"

definition synthetic_peer :: "lib \<Rightarrow> bytes \<Rightarrow> verified_peer" where
  "synthetic_peer L private =
     \<lparr>vp_public_key = hex (x_public L private), vp_assurance = str ''none'', vp_measurement = str ''synthetic''\<rparr>"

definition race_pending :: "lib \<Rightarrow> bytes \<Rightarrow> string \<Rightarrow> race_draw \<Rightarrow> pending_response res" where
  "race_pending L private task d =
     mk_pending L (synthetic_peer L private) [(str ''task'', JStr (str task))] (Some 30) (rd_private d) (rd_session d) (rd_started d)"

definition race_response :: "lib \<Rightarrow> bytes \<Rightarrow> pending_response \<Rightarrow> bytes res" where
  "race_response L private pending =
     bindE (decode_body L (pd_request pending)) (\<lambda>envelope.
     bindE (mk_producer L private envelope) (\<lambda>producer.
     bindE (producer_finish producer 200 [(str ''accepted'', JBool True)]) (\<lambda>result. encode_body result)))"

definition race_round :: "lib \<Rightarrow> bytes \<Rightarrow> race_draw \<Rightarrow> race_exn + nat" where
  "race_round L private d =
     bindE (lift_race (race_pending L private ''synthetic'' d)) (\<lambda>pending.
     bindE (lift_race (race_response L private pending)) (\<lambda>raw.
     bindE (lift_race (consume_all L pending raw (rd_clocks d))) (\<lambda>oks.
     let count = length (filter id oks) in if count = 1 then Inr count else Inl Race_assertion)))"

text \<open>The statement the caller makes with its own key, and the response that carries it.\<close>

definition caller_statement :: "lib \<Rightarrow> pending_response \<Rightarrow> jdict \<Rightarrow> jdict res" where
  "caller_statement L pending body =
     bindE (decode_body L (pd_request pending)) (\<lambda>envelope.
     bindE (dict_item envelope (str ''profile'')) (\<lambda>profile.
     Inr [(str ''profile'', profile), (str ''request_sha256'', JStr (pd_request_sha256 pending)), (str ''status'', JInt 200),
          (str ''kind'', JStr (str ''provenance'')), (str ''body'', JObj body)]))"

definition caller_response :: "lib \<Rightarrow> pending_response \<Rightarrow> jdict \<Rightarrow> bytes res" where
  "caller_response L pending body =
     bindE (caller_statement L pending body) (\<lambda>statement.
     bindE (response_mac (pd_key pending) statement) (\<lambda>tag.
     encode_body (statement @ [(str ''mac'', JStr tag)])))"

definition CALLER_BODY :: jdict where
  "CALLER_BODY = [(str ''accepted'', JBool True), (str ''note'', JStr (str ''constructed locally by caller''))]"

text \<open>\<open>assert pending.verify(200, ...).body["accepted"]\<close>.\<close>

definition caller_mac_accepted :: "lib \<Rightarrow> bytes \<Rightarrow> race_draw \<Rightarrow> race_exn + unit" where
  "caller_mac_accepted L private d =
     bindE (lift_race (race_pending L private ''synthetic forgery demonstration'' d)) (\<lambda>pending.
     bindE (lift_race (caller_response L pending CALLER_BODY)) (\<lambda>raw.
     bindE (lift_race (snd (verify_response L pending 200 raw (fst (hd (rd_clocks d))) (snd (hd (rd_clocks d)))))) (\<lambda>r.
     bindE (lift_race (dict_item (vr_body r) (str ''accepted''))) (\<lambda>v. if truthy v then Inr () else Inl Race_assertion))))"

definition race_experiment :: "lib \<Rightarrow> bytes \<Rightarrow> (nat \<Rightarrow> race_draw) \<Rightarrow> race_exn + nat list" where
  "race_experiment L private draw =
     bindE (traverseE (\<lambda>i. race_round L private (draw i)) [0..<20]) (\<lambda>counts.
     bindE (caller_mac_accepted L private (draw 20)) (\<lambda>_. Inr counts))"

section \<open>The peer\<close>

text \<open>The wrapped handler: the execution is journaled after the pipeline accepted the message.\<close>

definition journaled_handle :: "lib \<Rightarrow> peer_node \<Rightarrow> call_env \<Rightarrow> jdict \<Rightarrow> ustr list \<Rightarrow> ustr list \<times> peer_result res" where
  "journaled_handle L node env message journal =
     (case node_handle L node env message of
        Inl e \<Rightarrow> (journal, Inl e)
      | Inr result \<Rightarrow>
          (case parse_peer_request L message None of
             Inl e \<Rightarrow> (journal, Inl e)
           | Inr None \<Rightarrow> (journal, Inl (PyExn AttributeError))
           | Inr (Some req) \<Rightarrow> (journal @ [pr_record_id req], Inr result)))"

section \<open>The relay\<close>

text \<open>\<open>bytes.partition\<close>, when the separator is there.\<close>

fun partition_at :: "'a list \<Rightarrow> 'a list \<Rightarrow> ('a list \<times> 'a list) option" where
  "partition_at sep [] = (if sep = [] then Some ([], []) else None)"
| "partition_at sep (x # xs) =
     (if take (length sep) (x # xs) = sep then Some ([], drop (length sep) (x # xs))
      else map_option (\<lambda>(a, b). (x # a, b)) (partition_at sep xs))"

definition BLANK_LINE :: bytes where
  "BLANK_LINE = [13, 10, 13, 10]"

fun split_crlf :: "bytes \<Rightarrow> bytes list" where
  "split_crlf [] = [[]]"
| "split_crlf (x # xs) =
     (if x = 13 \<and> xs \<noteq> [] \<and> hd xs = 10 then [] # split_crlf (tl xs)
      else (case split_crlf xs of [] \<Rightarrow> [[x]] | l # ls \<Rightarrow> (x # l) # ls))"

definition bytes_lower :: "bytes \<Rightarrow> bytes" where
  "bytes_lower = map (\<lambda>b. if 65 \<le> b \<and> b \<le> 90 then b + 32 else b)"

text \<open>\<open>int\<close> on bytes.\<close>

definition bytes_int :: "lib \<Rightarrow> bytes \<Rightarrow> int res" where
  "bytes_int L b =
     (if list_all (\<lambda>x. x < 128) b then expect (py_int L (map unat b)) (PyExn ValueError) else Inl (PyExn ValueError))"

text \<open>The loop over the header lines; the last \<open>Content-Length\<close> counts.\<close>

fun content_length_of :: "lib \<Rightarrow> int \<Rightarrow> bytes list \<Rightarrow> int res" where
  "content_length_of L len [] = Inr len"
| "content_length_of L len (line # lines) =
     (let (k, v) = (case partition_at [58] line of None \<Rightarrow> (line, []) | Some kv \<Rightarrow> kv) in
      if bytes_lower (bytes_strip k) = ascii_bytes ''content-length''
      then bindE (bytes_int L (bytes_strip v)) (\<lambda>n. content_length_of L n lines)
      else content_length_of L len lines)"

text \<open>The first loop: either the connection closed and what came so far is returned, or the blank line is there.\<close>

fun read_head :: "bytes \<Rightarrow> bytes list \<Rightarrow> bytes + (bytes \<times> bytes list)" where
  "read_head data [] = (if partition_at BLANK_LINE data = None then Inl data else Inr (data, []))"
| "read_head data (chunk # chunks) =
     (if partition_at BLANK_LINE data \<noteq> None then Inr (data, chunk # chunks)
      else if chunk = [] then Inl data
      else read_head (data @ chunk) chunks)"

text \<open>The second loop does not look for a closed connection.\<close>

partial_function (option) read_rest :: "int \<Rightarrow> bytes \<Rightarrow> bytes list \<Rightarrow> bytes option" where
  "read_rest len rest chunks =
     (if int (length rest) < len
      then (case chunks of [] \<Rightarrow> read_rest len rest [] | chunk # later \<Rightarrow> read_rest len (rest @ chunk) later)
      else Some rest)"

definition read_request :: "lib \<Rightarrow> bytes list \<Rightarrow> bytes res option" where
  "read_request L chunks =
     (case read_head [] chunks of
        Inl data \<Rightarrow> Some (Inr data)
      | Inr (data, later) \<Rightarrow>
          (case partition_at BLANK_LINE data of
             None \<Rightarrow> Some (Inr data)
           | Some (hd_part, rest) \<Rightarrow>
               (case content_length_of L 0 (tl (split_crlf hd_part)) of
                  Inl e \<Rightarrow> Some (Inl e)
                | Inr len \<Rightarrow> map_option (\<lambda>body. Inr (hd_part @ BLANK_LINE @ body)) (read_rest len rest later))))"

datatype relay_mode = Pass | Cut_before_dispatch | Cut_after_dispatch | Hold | Truncate

text \<open>What one connection leaves: a log entry for a POST, whether the peer got the request, the capture, and what is sent back.\<close>

record relay_trace =
  rt_logged :: bool
  rt_dispatched :: bool
  rt_capture :: bytes
  rt_reply :: "bytes option"

definition relay_serve :: "relay_mode \<Rightarrow> (bytes \<Rightarrow> bytes) \<Rightarrow> bytes \<Rightarrow> bytes \<Rightarrow> relay_trace" where
  "relay_serve mode up capture request =
     (let is_post = (take 4 request = ascii_bytes ''POST'') in
      if is_post \<and> mode = Cut_before_dispatch
      then \<lparr>rt_logged = True, rt_dispatched = False, rt_capture = capture, rt_reply = None\<rparr>
      else
        let response = up request;
            capture' = (if is_post then capture @ to_be 4 (length response) @ response else capture) in
        \<lparr>rt_logged = is_post, rt_dispatched = True, rt_capture = capture',
         rt_reply =
           (if is_post \<and> mode = Cut_after_dispatch then None
            else if is_post \<and> mode = Hold then None
            else if is_post \<and> mode = Truncate
            then (let (hd_part, body) = (case partition_at BLANK_LINE response of None \<Rightarrow> (response, []) | Some hb \<Rightarrow> hb) in
                  Some (hd_part @ BLANK_LINE @ take (length body div 2) body))
            else Some response)\<rparr>)"

section \<open>The caller\<close>

type_synonym caller_journal = "(ustr \<times> ustr) list"

definition handoff_task :: "delegation_credential list \<Rightarrow> bytes \<Rightarrow> ustr \<Rightarrow> task_args" where
  "handoff_task chain holder record_id =
     \<lparr>ta_chain = chain, ta_capability = str ''read'', ta_record_id = record_id, ta_holder_key = holder,
      ta_payload = Some (ascii_bytes ''synthetic-task''), ta_verifier = None, ta_require_hardware = False,
      ta_parent_hash = None, ta_provider = None, ta_authenticated = True\<rparr>"

definition caller_outcome :: "client_exn + jdict \<Rightarrow> client_exn + ustr" where
  "caller_outcome r =
     (case r of
        Inr result \<Rightarrow> Inr (if truthy (dict_get_none result (str ''accepted'')) then str ''accepted'' else str ''unexpected'')
      | Inl (Raised e) \<Rightarrow> if is_class ResponseAuthenticationFailed e then Inr (str ''unknown'') else Inl (Raised e)
      | Inl (PeerDenial c m s d) \<Rightarrow> Inr (str ''authenticated-denial'')
      | Inl e \<Rightarrow> Inl e)"

definition handoff_caller ::
  "lib \<Rightarrow> task_random \<Rightarrow> (ustr \<Rightarrow> json res) \<Rightarrow> (jdict \<Rightarrow> (int \<times> json) res) \<Rightarrow> (bytes \<Rightarrow> (int \<times> bytes) res) \<Rightarrow>
   delegation_credential list \<Rightarrow> bytes \<Rightarrow> ustr \<Rightarrow> caller_journal \<Rightarrow> caller_journal \<times> (client_exn + ustr)" where
  "handoff_caller L rnd get post post_auth chain holder record_id journal =
     (let submitted = journal @ [(record_id, str ''submitted'')] in
      case caller_outcome (send_task L (handoff_task chain holder record_id) rnd get post post_auth) of
        Inl e \<Rightarrow> (submitted, Inl e)
      | Inr outcome \<Rightarrow> (submitted @ [(record_id, outcome)], Inr outcome))"

section \<open>The restarted caller\<close>

definition journal_states :: "caller_journal \<Rightarrow> (ustr \<times> ustr) list" where
  "journal_states journal = foldl (\<lambda>states (k, v). AList.update k v states) [] journal"

definition after_restart :: "caller_journal \<Rightarrow> (ustr \<times> ustr) list" where
  "after_restart journal =
     map (\<lambda>(k, v). (k, if v = str ''submitted'' \<or> v = str ''unknown'' then str ''unknown'' else v)) (journal_states journal)"

text \<open>Status and body of the first response in a capture.\<close>

definition captured_response :: "lib \<Rightarrow> bytes \<Rightarrow> (int \<times> bytes) res" where
  "captured_response L data =
     (let frame = slice data 4 (from_be (take 4 data));
          (hd_part, body) = (case partition_at BLANK_LINE frame of None \<Rightarrow> (frame, []) | Some hb \<Rightarrow> hb) in
      (case split_on 32 (map unat hd_part) of
         _ # code # _ \<Rightarrow> bindE (bytes_int L (map of_nat code)) (\<lambda>status. Inr (status, body))
       | _ \<Rightarrow> Inl (PyExn IndexError)))"

definition RESTART_MESSAGE :: jdict where
  "RESTART_MESSAGE = [(str ''record_id'', JStr (str ''restart''))]"

definition replay_outcome :: "lib \<Rightarrow> pending_response \<Rightarrow> int \<Rightarrow> bytes \<Rightarrow> rat option \<Rightarrow> rat option \<Rightarrow> ustr res" where
  "replay_outcome L pending status body t1 t2 =
     (case snd (verify_response L pending status body t1 t2) of
        Inr _ \<Rightarrow> Inr (str ''accepted'')
      | Inl e \<Rightarrow> if is_class ResponseAuthenticationFailed e then Inr (str ''refused'') else Inl e)"

definition recover ::
  "lib \<Rightarrow> task_random \<Rightarrow> (ustr \<Rightarrow> json res) \<Rightarrow> caller_journal \<Rightarrow> bytes option \<Rightarrow> ((ustr \<times> ustr) list \<times> ustr) res" where
  "recover L rnd get journal capture =
     (let data = (case capture of None \<Rightarrow> [] | Some b \<Rightarrow> b) in
      if data = [] then Inr (after_restart journal, str ''no-capture'')
      else
        bindE (captured_response L data) (\<lambda>(status, body).
        bindE (fetch_verified_peer L get (tr_nonce rnd) None False) (\<lambda>peer.
        bindE (mk_pending L peer RESTART_MESSAGE (Some 30) (tr_session_key rnd) (tr_session rnd) (tr_started rnd)) (\<lambda>pending.
        bindE (replay_outcome L pending status body (tr_first_check rnd) (tr_second_check rnd)) (\<lambda>replay.
        Inr (after_restart journal, replay))))))"

section \<open>The verdict on a case\<close>

definition expected_case :: "relay_mode \<Rightarrow> ustr \<times> nat" where
  "expected_case mode =
     (case mode of
        Pass \<Rightarrow> (str ''accepted'', 1)
      | Cut_before_dispatch \<Rightarrow> (str ''unknown'', 0)
      | Cut_after_dispatch \<Rightarrow> (str ''unknown'', 1)
      | Truncate \<Rightarrow> (str ''unknown'', 1)
      | Hold \<Rightarrow> (str ''caller-killed'', 1))"

definition peer_executions :: "ustr list \<Rightarrow> ustr \<Rightarrow> nat" where
  "peer_executions journal rid = length (filter (\<lambda>e. e = rid) journal)"

definition case_ok :: "relay_mode \<Rightarrow> ustr \<Rightarrow> ustr \<Rightarrow> ustr list \<Rightarrow> nat \<Rightarrow> (ustr \<times> ustr) list \<times> ustr \<Rightarrow> bool" where
  "case_ok mode rid outcome peer_journal posts recovered =
     (let want_replay = (if mode = Cut_before_dispatch then str ''no-capture'' else str ''refused'') in
      outcome = fst (expected_case mode) \<and> peer_executions peer_journal rid = snd (expected_case mode) \<and> posts = 1 \<and>
      snd recovered = want_replay \<and> (mode = Pass \<or> map_of (fst recovered) rid = Some (str ''unknown'')))"

section \<open>The relay's second loop\<close>

lemma read_rest_closed: "int (length rest) < len \<Longrightarrow> read_rest len rest [] = None"
proof -
  have "read_rest n r cs = Some out \<Longrightarrow> cs = [] \<longrightarrow> int (length r) < n \<longrightarrow> False" for n r cs out
    by (erule read_rest.raw_induct [rotated]) (intro impI, simp split: if_splits)
  then show "int (length rest) < len \<Longrightarrow> read_rest len rest [] = None" by (cases "read_rest len rest []") auto
qed

text \<open>
  The loop returns exactly when the connection delivers the announced length; a connection that closes
  early keeps it running.
\<close>

theorem read_rest_returns_iff: "(\<exists>out. read_rest len rest chunks = Some out) \<longleftrightarrow> len \<le> int (length (rest @ concat chunks))"
proof (induction chunks arbitrary: rest)
  case Nil
  show ?case
  proof (cases "int (length rest) < len")
    case True
    then show ?thesis using read_rest_closed [OF True] by simp
  next
    case False
    then show ?thesis by (subst read_rest.simps) simp
  qed
next
  case (Cons c cs)
  show ?case
  proof (cases "int (length rest) < len")
    case True
    then have "read_rest len rest (c # cs) = read_rest len (rest @ c) cs" by (subst read_rest.simps) simp
    then show ?thesis using Cons.IH [of "rest @ c"] by (simp add: add.assoc)
  next
    case False
    then show ?thesis by (subst read_rest.simps) simp
  qed
qed

section \<open>Pending requests and their answers\<close>

definition race_draw_ok :: "lib \<Rightarrow> bytes \<Rightarrow> race_draw \<Rightarrow> bool" where
  "race_draw_ok L private d \<longleftrightarrow> x_exchange L (rd_private d) (x_public L private) \<noteq> None \<and> length (rd_session d) = 32 \<and> rd_clocks d \<noteq> [] \<and>
     (\<exists>s. rd_started d = Some s \<and>
        list_all (\<lambda>(t1, t2). \<exists>x y. t1 = Some x \<and> t2 = Some y \<and> s \<le> x \<and> x < s + 30 \<and> s \<le> y \<and> y < s + 30) (rd_clocks d))"

lemma race_pending_ok:
  assumes "x25519_correct L" and "race_draw_ok L private d" and "length task \<le> 100"
  obtains p where "race_pending L private task d = Inr p" and "\<not> pd_used p" and "\<forall>(t1, t2) \<in> set (rd_clocks d). in_time p t1 \<and> in_time p t2"
proof -
  let ?e = "request_envelope L (synthetic_peer L private) [(str ''task'', JStr (str task))] (rd_private d) (rd_session d)"
  from assms(2) obtain s shared where s: "rd_started d = Some s" "x_exchange L (rd_private d) (x_public L private) = Some shared"
    and len: "length (rd_session d) = 32"
    and t: "list_all (\<lambda>(t1, t2). \<exists>x y. t1 = Some x \<and> t2 = Some y \<and> s \<le> x \<and> x < s + 30 \<and> s \<le> y \<and> y < s + 30) (rd_clocks d)"
    by (auto simp: race_draw_ok_def)
  have "length (x_public L k) = 32" for k using assms(1) by (simp add: x25519_correct_def)
  then obtain raw where "encode_body ?e = Inr raw"
    using encode_small [of ?e] len assms(3) by (auto simp: request_envelope_def synthetic_peer_def PROFILE_def MAX_BYTES_def)
  then have "race_pending L private task d = Inr \<lparr>pd_request = raw, pd_request_sha256 = sha256_hex raw,
      pd_key = hkdf L (Some (sha256 raw)) RESPONSE_KEY_INFO shared, pd_assurance = str ''none'', pd_started = s, pd_deadline = s + 30, pd_used = False\<rparr>"
    using response_key_own [OF assms(1) s(2)] s(1) by (simp add: race_pending_def mk_pending_def synthetic_peer_def)
  then show thesis by (rule that) (use t in \<open>auto simp: in_time_def list_all_iff\<close>)
qed

text \<open>A statement with the pending request's own digest and key verifies, whoever made it.\<close>

lemma own_statement_verifies:
  assumes "producer_finish \<lparr>rp_envelope = env, rp_request_sha256 = pd_request_sha256 p, rp_key = pd_key p\<rparr> 200 body = Inr result"
    and "encode_body result = Inr raw" and "json_wf (JObj body)" and "response_ok 200 body" and "\<not> pd_used p" and "in_time p t1" and "in_time p t2"
  shows "\<exists>r. snd (verify_response L p 200 raw t1 t2) = Inr r \<and> vr_status r = 200 \<and> jnorm (JObj (vr_body r)) = jnorm (JObj body)"
proof -
  have "json_wf (JObj result)"
    using assms(1,3) by (auto simp: producer_finish_def Let_def bindE_Inr_iff response_statement_def)
  moreover obtain env' where e: "jnorm (JObj result) = JObj env'" by simp
  ultimately have "decode_body L raw = Inr env'" "jnorm (JObj env') = jnorm (JObj result)"
    using decode_encode [OF _ assms(2) e, of L] jnorm_idem [of "JObj result"] e by simp_all
  then show ?thesis using finished_verifies [OF assms(1,3) _ _ assms(4-7), of L raw env'] by simp
qed

lemma race_response_ok:
  assumes "x25519_correct L" and "race_pending L private task d = Inr p" and "length (rd_session d) = 32" and "\<not> pd_used p"
  obtains raw where "race_response L private p = Inr raw"
    and "\<And>t1 t2. in_time p t1 \<Longrightarrow> in_time p t2 \<Longrightarrow> \<exists>r. snd (verify_response L p 200 raw t1 t2) = Inr r"
proof -
  let ?m = "[(str ''task'', JStr (str task))]" and ?b = "[(str ''accepted'', JBool True)]"
  obtain env where env: "jnorm (JObj (request_envelope L (synthetic_peer L private) ?m (rd_private d) (rd_session d))) = JObj env" by simp
  let ?pr = "\<lparr>rp_envelope = env, rp_request_sha256 = pd_request_sha256 p, rp_key = pd_key p\<rparr>"
  note mk = assms(2) [unfolded race_pending_def]
  have pr: "decode_body L (pd_request p) = Inr env" "mk_producer L private env = Inr ?pr"
    using producer_of_pending [OF assms(1) mk _ _ assms(3) env] by (simp_all add: synthetic_peer_def)
  have "lower_hex_of_len 64 (rp_request_sha256 ?pr)" using mk by (auto simp: mk_pending_def bindE_Inr_iff)
  from finish_small [OF this, of 200 ?b] obtain result raw
    where fin: "producer_finish ?pr 200 ?b = Inr result" and enc: "encode_body result = Inr raw" by auto
  have "race_response L private p = Inr raw" by (simp add: race_response_def pr fin enc)
  moreover have "response_ok 200 ?b" by (simp add: response_ok_def dict_get_none_def)
  ultimately show thesis using that own_statement_verifies [OF fin enc _ _ assms(4), of _ _ L] by fastforce
qed

section \<open>The race and the caller's MAC\<close>

lemma consume_spent: "pd_used p \<Longrightarrow> consume_all L p raw ts = Inr (map (\<lambda>_. False) ts)"
  by (induction ts arbitrary: p) (auto simp: verify_response_def)

lemma consume_first:
  assumes "snd (verify_response L p 200 raw t1 t2) = Inr r"
  shows "consume_all L p raw ((t1, t2) # ts) = Inr (True # map (\<lambda>_. False) ts)"
proof -
  have "pd_used (fst (verify_response L p 200 raw t1 t2))" by (simp add: verify_response_def)
  from consume_spent [OF this] assms show ?thesis by (simp add: split_beta)
qed

lemma race_round_ok:
  assumes "x25519_correct L" and "race_draw_ok L private d"
  shows "race_round L private d = Inr 1"
proof -
  obtain p where p: "race_pending L private ''synthetic'' d = Inr p" "\<not> pd_used p" and t: "\<forall>(t1, t2) \<in> set (rd_clocks d). in_time p t1 \<and> in_time p t2"
    by (rule race_pending_ok [OF assms]) auto
  have len: "length (rd_session d) = 32" and ne: "rd_clocks d \<noteq> []" using assms(2) by (simp_all add: race_draw_ok_def)
  obtain raw where raw: "race_response L private p = Inr raw" and ok: "\<And>t1 t2. in_time p t1 \<Longrightarrow> in_time p t2 \<Longrightarrow> \<exists>r. snd (verify_response L p 200 raw t1 t2) = Inr r"
    by (rule race_response_ok [OF assms(1) p(1) len p(2)]) blast
  obtain t1 t2 ts where c: "rd_clocks d = (t1, t2) # ts" using ne by (cases "rd_clocks d") auto
  with t ok obtain r where "snd (verify_response L p 200 raw t1 t2) = Inr r" by fastforce
  from consume_first [OF this] show ?thesis by (simp add: race_round_def lift_race_def p raw c)
qed

text \<open>What the caller makes is what the peer's producer would make.\<close>

lemma caller_response_eq:
  assumes "x25519_correct L" and "mk_pending L peer message timeout e session clock = Inr p" and "vp_public_key peer = hex (x_public L k)"
    and "json_wf (JObj message)" and "length session = 32"
  obtains env where "\<And>body. caller_response L p body =
    bindE (producer_finish \<lparr>rp_envelope = env, rp_request_sha256 = pd_request_sha256 p, rp_key = pd_key p\<rparr> 200 body) encode_body"
proof -
  obtain env where env: "jnorm (JObj (request_envelope L peer message e session)) = JObj env" by simp
  have dec: "decode_body L (pd_request p) = Inr env" using producer_of_pending [OF assms env] by simp
  have "dict_wf env" using decode_body_wf [OF dec] by simp
  moreover have "jnorm (JObj env) = jnorm (JObj (request_envelope L peer message e session))"
    using env jnorm_idem [of "JObj (request_envelope L peer message e session)"] by simp
  ultimately have "map_option jnorm (dict_get env (str ''profile'')) = Some (JStr PROFILE)"
    using jnorm_obj_get [of env "request_envelope L peer message e session" "str ''profile''"] by (simp add: request_envelope_def)
  then have "caller_statement L p body = Inr (response_statement (pd_request_sha256 p) 200 body)" for body
    using dec by (auto simp: caller_statement_def dict_item_def response_statement_def response_kind_def)
  then show thesis by (intro that [of env]) (simp add: caller_response_def producer_finish_def Let_def bindE_def split: sum.split)
qed

text \<open>
  The MAC convinces the caller only. For every pending request and every accepted body, a response that the
  caller makes with its own copy of the session key passes its own verifier in time: an authenticated response is no
  evidence of authorship for anyone else.
\<close>

theorem caller_made_response_verifies:
  assumes "x25519_correct L" and "mk_pending L peer message timeout e session clock = Inr p" and "vp_public_key peer = hex (x_public L k)"
    and "json_wf (JObj message)" and "length session = 32"
    and "caller_response L p body = Inr raw" and "json_wf (JObj body)" and "response_ok 200 body" and "in_time p t1" and "in_time p t2"
  shows "\<exists>r. snd (verify_response L p 200 raw t1 t2) = Inr r \<and> jnorm (JObj (vr_body r)) = jnorm (JObj body)"
proof -
  obtain env where "caller_response L p body =
      bindE (producer_finish \<lparr>rp_envelope = env, rp_request_sha256 = pd_request_sha256 p, rp_key = pd_key p\<rparr> 200 body) encode_body"
    by (rule caller_response_eq [OF assms(1-5)]) blast
  with assms(6) obtain result
    where fin: "producer_finish \<lparr>rp_envelope = env, rp_request_sha256 = pd_request_sha256 p, rp_key = pd_key p\<rparr> 200 body = Inr result"
      "encode_body result = Inr raw" by (auto simp: bindE_Inr_iff)
  have "\<not> pd_used p" using assms(2) by (auto simp: mk_pending_def bindE_Inr_iff)
  from own_statement_verifies [OF fin assms(7,8) this assms(9,10), of L] show ?thesis by blast
qed

lemma caller_mac_round_ok:
  assumes "x25519_correct L" and "race_draw_ok L private d"
  shows "caller_mac_accepted L private d = Inr ()"
proof -
  obtain p where p: "race_pending L private ''synthetic forgery demonstration'' d = Inr p" "\<not> pd_used p"
    and t: "\<forall>(t1, t2) \<in> set (rd_clocks d). in_time p t1 \<and> in_time p t2"
    by (rule race_pending_ok [OF assms]) auto
  have len: "length (rd_session d) = 32" and ne: "rd_clocks d \<noteq> []" using assms(2) by (simp_all add: race_draw_ok_def)
  then have t12: "in_time p (fst (hd (rd_clocks d)))" "in_time p (snd (hd (rd_clocks d)))" using t by (cases "rd_clocks d"; auto)+
  note mk = p(1) [unfolded race_pending_def]
  obtain env where eq: "caller_response L p CALLER_BODY =
      bindE (producer_finish \<lparr>rp_envelope = env, rp_request_sha256 = pd_request_sha256 p, rp_key = pd_key p\<rparr> 200 CALLER_BODY) encode_body"
    by (rule caller_response_eq [OF assms(1) mk]) (auto simp: synthetic_peer_def len)
  let ?pr = "\<lparr>rp_envelope = env, rp_request_sha256 = pd_request_sha256 p, rp_key = pd_key p\<rparr>"
  have "lower_hex_of_len 64 (rp_request_sha256 ?pr)" using mk by (auto simp: mk_pending_def bindE_Inr_iff)
  from finish_small [OF this, of 200 CALLER_BODY] obtain result raw
    where fin: "producer_finish ?pr 200 CALLER_BODY = Inr result" and enc: "encode_body result = Inr raw" by (auto simp: CALLER_BODY_def)
  have "response_ok 200 CALLER_BODY" "json_wf (JObj CALLER_BODY)" by (simp_all add: response_ok_def dict_get_none_def CALLER_BODY_def)
  from own_statement_verifies [OF fin enc this(2,1) p(2) t12, of L] obtain r
    where r: "snd (verify_response L p 200 raw (fst (hd (rd_clocks d))) (snd (hd (rd_clocks d)))) = Inr r"
    by blast
  then have "response_ok 200 (vr_body r)"
    by (auto simp: verify_response_def catchE_Inr_iff dest: verify_with_Inr split: if_splits)
  then have "dict_get (vr_body r) (str ''accepted'') = Some (JBool True)"
    by (auto simp: response_ok_def dict_get_none_def split: option.splits)
  then show ?thesis by (simp add: caller_mac_accepted_def lift_race_def p eq fin enc r dict_item_def)
qed

text \<open>
  The experiment succeeds on every draw: each of the twenty rounds accepts exactly one of its
  concurrent attempts, and the response the caller made itself is accepted.
\<close>

theorem race_experiment_succeeds:
  assumes "x25519_correct L" and "\<forall>i \<le> 20. race_draw_ok L private (draw i)"
  shows "race_experiment L private draw = Inr (replicate 20 1)"
proof -
  have "traverseE (\<lambda>i. race_round L private (draw i)) [0..<20] = Inr (map (\<lambda>_. 1) [0..<20])"
    using race_round_ok [OF assms(1)] assms(2) by (intro traverseE_all) simp
  moreover have "map (\<lambda>_. 1 :: nat) [0..<20] = replicate 20 1" by (simp add: map_replicate_const)
  ultimately show ?thesis using caller_mac_round_ok [OF assms(1), of _ "draw 20"] assms(2) by (simp add: race_experiment_def)
qed

section \<open>Restart\<close>

lemma journal_states_get: "map_of (journal_states journal) k = map_of (rev journal) k"
proof -
  have "map_of (foldl (\<lambda>states (k, v). AList.update k v states) acc js) k = (map_of acc ++ map_of (rev js)) k" for acc js
    by (induction js arbitrary: acc) (auto simp: update_conv' map_add_def split: option.splits)
  from this [of "[]" journal] show ?thesis by (simp add: journal_states_def)
qed

lemma after_restart_get:
  "map_of (after_restart journal) k =
     map_option (\<lambda>v. if v = str ''submitted'' \<or> v = str ''unknown'' then str ''unknown'' else v) (map_of (rev journal) k)"
  by (simp add: after_restart_def map_of_map journal_states_get [symmetric])

lemma verify_response_digest:
  assumes "snd (verify_response L q status raw t1 t2) = Inr r" and "decode_body L raw = Inr env"
  shows "dict_get_none env (str ''request_sha256'') = JStr (pd_request_sha256 q)"
  using assms
  by (auto simp: verify_response_def catchE_Inr_iff verify_with_def Let_def guard_simps dict_get_none_def split: if_splits)

lemma pending_digests_differ:
  assumes "mk_pending L peer message timeout e session clock = Inr p" and "mk_pending L peer' message' timeout' e' session' clock' = Inr q"
    and "json_wf (JObj message)" and "json_wf (JObj message')" and "jnorm (JObj message) \<noteq> jnorm (JObj message')"
    and "pd_request_sha256 p = pd_request_sha256 q"
  shows "sha256_collision (pd_request p) (pd_request q)"
proof -
  let ?d = "request_envelope L peer message e session" and ?d' = "request_envelope L peer' message' e' session'"
  have enc: "encode_body ?d = Inr (pd_request p)" "encode_body ?d' = Inr (pd_request q)"
    and sha: "pd_request_sha256 p = sha256_hex (pd_request p)" "pd_request_sha256 q = sha256_hex (pd_request q)"
    using assms(1,2) by (auto simp: mk_pending_def bindE_Inr_iff expect_iff require_iff)
  have "pd_request p \<noteq> pd_request q"
  proof
    assume eq: "pd_request p = pd_request q"
    have "jnorm (JObj ?d) = jnorm (JObj ?d')"
      using enc eq canonicalize_norm [of "JObj ?d" "pd_request p" "JObj ?d'"] by (simp add: guard_simps del: jnorm.simps)
    moreover have "dict_wf ?d" "dict_wf ?d'" by (simp_all add: request_envelope_def)
    ultimately have "map_option jnorm (dict_get ?d (str ''request'')) = map_option jnorm (dict_get ?d' (str ''request''))"
      by (rule jnorm_obj_get)
    with assms(5) show False by (simp add: request_envelope_def del: jnorm.simps)
  qed
  with sha assms(6) sha256_eqD [of "pd_request p" "pd_request q"] show ?thesis by simp
qed

lemma unresolved_after_restart:
  assumes "map_of (rev journal) k \<in> {Some (str ''submitted''), Some (str ''unknown'')}"
  shows "map_of (after_restart journal) k = Some (str ''unknown'')"
proof -
  from assms obtain v where "map_of (rev journal) k = Some v" and "v = str ''submitted'' \<or> v = str ''unknown''" by auto
  then show ?thesis unfolding after_restart_get by simp
qed

text \<open>A call that fails on the wire, or is cut off after its submission was journaled, stays unknown after a restart.\<close>

lemma failed_post_outcome:
  assumes "\<forall>raw. \<exists>e. post_auth raw = Inl e \<and> is_post_error e"
    and "caller_outcome (send_task L (handoff_task chain holder rid) rnd get post post_auth) = Inr outcome"
  shows "outcome = str ''unknown''"
proof -
  have "read_authenticated L rnd pending post_auth = Inl no_authenticated_response" for pending
    using spec [OF assms(1), of "pd_request pending"] by (auto simp: read_authenticated_def catchE_def)
  then have "\<exists>e. send_task L (handoff_task chain holder rid) rnd get post post_auth = Inl (Raised e)"
    by (auto simp: send_task_def handoff_task_def local_exn_def bindE_def split: sum.splits)
  then show ?thesis using assms(2) by (auto simp: caller_outcome_def split: if_splits)
qed

text \<open>
  C37: A caller whose authenticated POST fails on the wire, cut before or after the peer dispatched it, never reports
  another outcome than \<open>unknown\<close>, and the restarted caller keeps the operation unknown, whatever the journal held before.
\<close>

theorem cut_call_stays_unknown:
  assumes "\<forall>raw. \<exists>e. post_auth raw = Inl e \<and> is_post_error e"
    and "handoff_caller L rnd get post post_auth chain holder rid journal = (journal', r)"
  shows "map_of (after_restart journal') rid = Some (str ''unknown'') \<and> (\<forall>outcome. r = Inr outcome \<longrightarrow> outcome = str ''unknown'')"
proof -
  have r: "r = Inr outcome \<Longrightarrow> outcome = str ''unknown''" for outcome
    using assms(2) failed_post_outcome [OF assms(1), of L chain holder rid rnd get post outcome]
    by (auto simp: handoff_caller_def Let_def split: sum.splits)
  have "map_of (rev journal') rid = Some (case r of Inl _ \<Rightarrow> str ''submitted'' | Inr outcome \<Rightarrow> outcome)"
    using assms(2) by (auto simp: handoff_caller_def Let_def split: sum.splits)
  then have "map_of (after_restart journal') rid = Some (str ''unknown'')"
    using r by (intro unresolved_after_restart) (auto split: sum.splits)
  then show ?thesis using r by blast
qed

theorem cut_call_stays_unknown_witness:
  "map_of (after_restart (fst (handoff_caller sample_lib sample_random (node_get sample_node sample_env) (\<lambda>_. Inl (PyExn OSError))
      (\<lambda>_. Inl (PyExn OSError)) [sample_root, sample_leaf] [3] (str ''r1'') [(str ''r1'', str ''accepted'')]))) (str ''r1'') =
    Some (str ''unknown'')"
  by (rule cut_call_stays_unknown [THEN conjunct1, OF _ surjective_pairing]) (simp add: is_post_error_def)

text \<open>
  The restarted caller. A captured response that carries the digest of a request made before the restart is
  refused by the pending state made after it, unless the two requests collide under SHA-256; the journal's unresolved
  operations come back as unknown.
\<close>

theorem restart_replay_refused:
  assumes "mk_pending L peer message timeout e session clock = Inr p" and "json_wf (JObj message)"
    and "jnorm (JObj message) \<noteq> jnorm (JObj RESTART_MESSAGE)"
    and "captured_response L data = Inr (status, raw)" and "decode_body L raw = Inr env"
    and "dict_get_none env (str ''request_sha256'') = JStr (pd_request_sha256 p)"
    and "recover L rnd get journal (Some data) = Inr (states, replay)" and "data \<noteq> []"
    and "\<And>q. pd_request_sha256 p = sha256_hex q \<Longrightarrow> \<not> sha256_collision (pd_request p) q"
  shows "replay = str ''refused'' \<and>
    (\<forall>k. map_of (rev journal) k \<in> {Some (str ''submitted''), Some (str ''unknown'')} \<longrightarrow> map_of states k = Some (str ''unknown''))"
proof -
  obtain peer' q where q: "mk_pending L peer' RESTART_MESSAGE (Some 30) (tr_session_key rnd) (tr_session rnd) (tr_started rnd) = Inr q"
    and r: "replay_outcome L q status raw (tr_first_check rnd) (tr_second_check rnd) = Inr replay"
    and st: "states = after_restart journal"
    using assms(4,7,8) by (auto simp: recover_def bindE_Inr_iff)
  have "pd_request_sha256 q = sha256_hex (pd_request q)" using q by (auto simp: mk_pending_def bindE_Inr_iff)
  moreover have "json_wf (JObj RESTART_MESSAGE)" by (simp add: RESTART_MESSAGE_def)
  ultimately have "pd_request_sha256 p \<noteq> pd_request_sha256 q"
    using pending_digests_differ [OF assms(1) q assms(2) _ assms(3)] assms(9) by metis
  then have "snd (verify_response L q status raw (tr_first_check rnd) (tr_second_check rnd)) \<noteq> Inr v" for v
    using verify_response_digest [OF _ assms(5)] assms(6) by fastforce
  then have "replay = str ''refused''" using r by (auto simp: replay_outcome_def split: sum.splits if_splits)
  then show ?thesis using unresolved_after_restart st by blast
qed

end
