(* ===== verification/Experiments.thy ===== *)
theory Experiments
  imports Fixtures Peer
begin

text \<open>
  The claim experiments, \<open>experiments/claim1-attenuation-soundness/run.py\<close>,
  \<open>claim2-cross-chain-replay/run.py\<close>, \<open>claim3-scope-policy-intersection/run.py\<close> and
  \<open>papers/ca2a/experiments/c1_attenuation_scale.py\<close>: each builds chains with fresh keys, runs the
  verifier on honest and on attacked chains and returns an exit code. The keys drawn and the clock
  read are arguments; console output is left out. The theorems say that the exit code is zero for
  every choice of them.
\<close>

section \<open>Claim 1: attenuation\<close>

text \<open>The keys one trial draws, in order, and the clock its verification reads.\<close>

record trial_env =
  te_key :: "nat \<Rightarrow> bytes"
  te_clock :: int

definition CLAIM1_TRIALS :: nat where
  "CLAIM1_TRIALS = 200"

definition CLAIM1_ROOT_CAPS :: "ustr list" where
  "CLAIM1_ROOT_CAPS = map (\<lambda>c. str (''cap:'' @ [c])) ''abcdef''"

definition claim1_build_signed_chain :: "lib \<Rightarrow> (nat \<Rightarrow> bytes) \<Rightarrow> ustr fset list \<Rightarrow> (delegation_credential list \<times> ustr) res" where
  "claim1_build_signed_chain L key scopes =
     bindE (signed_hops L (plain_fixture key (dash_id ''cred'')) 0 scopes None) (\<lambda>chain. Inr (chain, hex (ed_public L (key 0))))"

definition claim1_narrowing_scopes :: "nat \<Rightarrow> ustr fset list" where
  "claim1_narrowing_scopes trial =
     [fset_of_list CLAIM1_ROOT_CAPS, fset_of_list (take 5 CLAIM1_ROOT_CAPS),
      fset_of_list (take 4 CLAIM1_ROOT_CAPS), fset_of_list (take 3 CLAIM1_ROOT_CAPS)]"

definition escalation :: "nat \<Rightarrow> ustr" where
  "escalation trial = str ''cap:escalate-'' @ nat_str trial"

definition claim1_escalating_scopes :: "nat \<Rightarrow> ustr fset list" where
  "claim1_escalating_scopes trial =
     (let ladder = claim1_narrowing_scopes trial; escalated = ladder ! 3 |\<union>| {|escalation trial|} in
      [ladder ! 0, ladder ! 1, ladder ! 2, escalated])"

text \<open>A trial: building may raise, the verdict of the verifier is caught.\<close>

definition claim1_trial :: "lib \<Rightarrow> trial_env \<Rightarrow> ustr fset list \<Rightarrow> revocation_status res res" where
  "claim1_trial L env scopes =
     bindE (claim1_build_signed_chain L (te_key env) scopes) (\<lambda>(chain, trusted_root).
     Inr (verify_chain L (plain_args 8 trusted_root (te_clock env)) chain))"

definition was_accepted :: "'a res \<Rightarrow> bool" where
  "was_accepted r \<longleftrightarrow> (case r of Inr _ \<Rightarrow> True | Inl _ \<Rightarrow> False)"

definition was_refused_as :: "err_class \<Rightarrow> 'a res \<Rightarrow> bool" where
  "was_refused_as c r \<longleftrightarrow> (case r of Inr _ \<Rightarrow> False | Inl e \<Rightarrow> is_class c e)"

definition claim1_main :: "lib \<Rightarrow> (nat \<Rightarrow> trial_env) \<Rightarrow> (nat \<Rightarrow> trial_env) \<Rightarrow> int res" where
  "claim1_main L first second =
     bindE (traverseE (\<lambda>trial. claim1_trial L (first trial) (claim1_narrowing_scopes trial)) [0..<CLAIM1_TRIALS]) (\<lambda>narrowing.
     let accepted = length (filter was_accepted narrowing) in
     bindE (traverseE (\<lambda>trial. claim1_trial L (second trial) (claim1_escalating_scopes trial)) [0..<CLAIM1_TRIALS]) (\<lambda>escalating.
     let rejected = length (filter (was_refused_as ScopeEscalation) escalating) in
     Inr (if accepted = CLAIM1_TRIALS \<and> rejected = CLAIM1_TRIALS then 0 else 1)))"

section \<open>Claim 1 at scale\<close>

definition C1_TRIALS :: nat where
  "C1_TRIALS = 500"

definition C1_DEPTHS :: "nat list" where
  "C1_DEPTHS = [2, 3, 4, 6, 8]"

definition C1_ROOT_CAPS :: "ustr list" where
  "C1_ROOT_CAPS = map (\<lambda>i. str ''cap:'' @ nat_str i) [0..<16]"

definition c1_build_signed_chain :: "lib \<Rightarrow> (nat \<Rightarrow> bytes) \<Rightarrow> ustr fset list \<Rightarrow> delegation_credential list res" where
  "c1_build_signed_chain L key scopes = signed_hops L (plain_fixture key (dash_id ''cred'')) 0 scopes None"

text \<open>\<open>xs[:k]\<close>, where a negative bound counts from the end.\<close>

definition py_prefix :: "'a list \<Rightarrow> int \<Rightarrow> 'a list" where
  "py_prefix xs k = take (nat (if k < 0 then int (length xs) + k else k)) xs"

definition c1_narrowing_scopes :: "nat \<Rightarrow> ustr fset list" where
  "c1_narrowing_scopes depth =
     map (\<lambda>i. fset_of_list (py_prefix C1_ROOT_CAPS (int (length C1_ROOT_CAPS) - int i))) [0..<depth]"

definition c1_escalating_scopes :: "nat \<Rightarrow> nat \<Rightarrow> ustr fset list res" where
  "c1_escalating_scopes depth trial =
     (let ladder = c1_narrowing_scopes depth; inject = (if depth > 1 then depth - 1 else 1) in
      bindE (require (inject < length ladder) (PyExn IndexError)) (\<lambda>_.
      Inr (ladder[inject := ladder ! inject |\<union>| {|escalation trial|}])))"

definition c1_trial :: "lib \<Rightarrow> trial_env \<Rightarrow> ustr fset list \<Rightarrow> revocation_status res res" where
  "c1_trial L env scopes =
     bindE (c1_build_signed_chain L (te_key env) scopes) (\<lambda>chain.
     Inr (bindE (require (chain \<noteq> []) (PyExn IndexError)) (\<lambda>_.
          verify_chain L (plain_args 64 (cred_issuer (chain ! 0)) (te_clock env)) chain)))"

record c1_row =
  c1_depth :: nat
  c1_narrowing_accepted :: nat
  c1_escalation_rejected :: nat
  c1_rejected_other :: nat

definition c1_depth_row :: "lib \<Rightarrow> (nat \<Rightarrow> trial_env) \<Rightarrow> (nat \<Rightarrow> trial_env) \<Rightarrow> nat \<Rightarrow> c1_row res" where
  "c1_depth_row L first second depth =
     bindE (traverseE (\<lambda>trial. c1_trial L (first trial) (c1_narrowing_scopes depth)) [0..<C1_TRIALS]) (\<lambda>good.
     bindE (traverseE (\<lambda>trial. bindE (c1_escalating_scopes depth trial) (c1_trial L (second trial))) [0..<C1_TRIALS]) (\<lambda>bad.
     Inr \<lparr>c1_depth = depth, c1_narrowing_accepted = length (filter was_accepted good),
          c1_escalation_rejected = length (filter (was_refused_as ScopeEscalation) bad),
          c1_rejected_other = length (filter (\<lambda>r. \<not> was_accepted r \<and> \<not> was_refused_as ScopeEscalation r) bad)\<rparr>))"

definition c1_row_ok :: "c1_row \<Rightarrow> bool" where
  "c1_row_ok row \<longleftrightarrow>
     c1_narrowing_accepted row = C1_TRIALS \<and> c1_escalation_rejected row = C1_TRIALS \<and> c1_rejected_other row = 0"

record c1_summary =
  c1_rows :: "c1_row list"
  c1_total_narrowing_accepted :: nat
  c1_total_escalation_rejected :: nat
  c1_total :: nat
  c1_all_ok :: bool

definition c1_summarize :: "c1_row list \<Rightarrow> c1_summary" where
  "c1_summarize rows =
     \<lparr>c1_rows = rows, c1_total_narrowing_accepted = sum_list (map c1_narrowing_accepted rows),
      c1_total_escalation_rejected = sum_list (map c1_escalation_rejected rows),
      c1_total = length C1_DEPTHS * C1_TRIALS, c1_all_ok = list_all c1_row_ok rows\<rparr>"

text \<open>\<open>main\<close>: the summary is written to a file and its verdict is the exit code.\<close>

definition c1_main :: "lib \<Rightarrow> (nat \<Rightarrow> nat \<Rightarrow> trial_env) \<Rightarrow> (nat \<Rightarrow> nat \<Rightarrow> trial_env) \<Rightarrow> (c1_summary \<Rightarrow> unit res) \<Rightarrow> int res" where
  "c1_main L first second write =
     bindE (traverseE (\<lambda>depth. c1_depth_row L (first depth) (second depth) depth) C1_DEPTHS) (\<lambda>rows.
     let summary = c1_summarize rows in
     bindE (write summary) (\<lambda>_. Inr (if c1_all_ok summary then 0 else 1)))"

section \<open>Claim 2: replay and splicing\<close>

definition claim2_build_chain ::
  "lib \<Rightarrow> (nat \<Rightarrow> bytes) \<Rightarrow> ustr fset list \<Rightarrow> string \<Rightarrow> (delegation_credential list \<times> ustr) res" where
  "claim2_build_chain L key scopes prefix =
     bindE (signed_hops L (plain_fixture key (dash_id prefix)) 0 scopes None) (\<lambda>chain. Inr (chain, hex (ed_public L (key 0))))"

text \<open>The failures a control adds, and the rejections and failures an attack adds; other exceptions end the run.\<close>

definition claim2_control :: "'a res \<Rightarrow> nat res" where
  "claim2_control r = (case r of Inr _ \<Rightarrow> Inr 0 | Inl e \<Rightarrow> if is_ca2a e then Inr 1 else Inl e)"

definition claim2_attack :: "err_class list \<Rightarrow> 'a res \<Rightarrow> (nat \<times> nat) res" where
  "claim2_attack expected r =
     (case r of
        Inr _ \<Rightarrow> Inr (0, 1)
      | Inl e \<Rightarrow> if list_ex (\<lambda>c. is_class c e) expected then Inr (1, 0) else if is_ca2a e then Inr (0, 1) else Inl e)"

definition claim2_scopes :: "string \<Rightarrow> ustr fset list" where
  "claim2_scopes caps =
     map (\<lambda>n. fset_of_list (map (\<lambda>c. str (''cap:'' @ [c])) (take n caps))) [3, 2, 1]"

definition nthE :: "'a list \<Rightarrow> nat \<Rightarrow> 'a res" where
  "nthE xs i = (if i < length xs then Inr (xs ! i) else Inl (PyExn IndexError))"

definition claim2_main :: "lib \<Rightarrow> (nat \<Rightarrow> bytes) \<Rightarrow> (nat \<Rightarrow> bytes) \<Rightarrow> (nat \<Rightarrow> int) \<Rightarrow> int res" where
  "claim2_main L key_a key_b clock =
     bindE (claim2_build_chain L key_a (claim2_scopes ''abc'') ''a'') (\<lambda>(chain_a, root_a).
     bindE (claim2_build_chain L key_b (claim2_scopes ''xyz'') ''b'') (\<lambda>(chain_b, root_b).
     bindE (claim2_control (verify_chain L (plain_args 8 root_a (clock 0)) chain_a)) (\<lambda>f1.
     bindE (claim2_control (verify_chain L (plain_args 8 root_b (clock 1)) chain_b)) (\<lambda>f2.
     bindE (nthE chain_a 0) (\<lambda>a0. bindE (nthE chain_a 1) (\<lambda>a1.
     bindE (claim2_attack [CredentialReplay] (verify_chain L (plain_args 8 root_a (clock 2)) [a0, a1, a1])) (\<lambda>(r3, f3).
     bindE (nthE chain_b 0) (\<lambda>b0. bindE (nthE chain_b 2) (\<lambda>b2.
     bindE (claim2_attack [BrokenDelegationLink, CredentialReplay]
              (verify_chain L (plain_args 8 root_b (clock 3)) [b0, a1, b2])) (\<lambda>(r4, f4).
     Inr (if f1 + f2 + f3 + f4 = 0 \<and> r3 + r4 = 2 then 0 else 1)))))))))))"

section \<open>Claim 3: intersection with the local policy\<close>

definition claim3_build_chain :: "lib \<Rightarrow> (nat \<Rightarrow> bytes) \<Rightarrow> ustr fset list \<Rightarrow> (delegation_credential list \<times> ustr) res" where
  "claim3_build_chain L key scopes =
     bindE (signed_hops L (plain_fixture key (dash_id ''cred'')) 0 scopes None) (\<lambda>chain. Inr (chain, hex (ed_public L (key 0))))"

definition claim3_cases :: "(ustr \<times> bool) list" where
  "claim3_cases = [(str ''read'', True), (str ''write'', False), (str ''audit'', False), (str ''admin'', False)]"

text \<open>One request: a refusal of the scope is a denial, any other exception ends the run.\<close>

definition claim3_request ::
  "lib \<Rightarrow> chain_args \<Rightarrow> policy \<Rightarrow> delegation_credential list \<Rightarrow> ustr \<Rightarrow> bool res" where
  "claim3_request L a policy chain cap =
     (case enforce_peer_call L a policy chain cap (str ''rec-0'') None CALLER_NOT_OFFERED of
        Inr _ \<Rightarrow> Inr True
      | Inl e \<Rightarrow> if is_class ScopeNotPermitted e then Inr False else Inl e)"

fun claim3_loop :: "(ustr \<Rightarrow> bool res) \<Rightarrow> (ustr \<times> bool) list \<Rightarrow> int res" where
  "claim3_loop request [] = Inr 0"
| "claim3_loop request ((cap, expect_allowed) # cases) =
     bindE (request cap) (\<lambda>got. if got \<noteq> expect_allowed then Inr 1 else claim3_loop request cases)"

definition claim3_main :: "lib \<Rightarrow> (nat \<Rightarrow> bytes) \<Rightarrow> int \<Rightarrow> (ustr \<Rightarrow> int) \<Rightarrow> int res" where
  "claim3_main L key clock0 clock =
     bindE (claim3_build_chain L key
       [{|str ''read'', str ''write'', str ''admin''|}, {|str ''read'', str ''write''|}]) (\<lambda>(chain, trusted_root).
     let policy = LocalPolicy (local_of [str ''read'', str ''audit'']) in
     bindE (effective_scope L (plain_args 8 trusted_root clock0) policy chain) (\<lambda>eff.
     claim3_loop (\<lambda>cap. claim3_request L (plain_args 8 trusted_root (clock cap)) policy chain cap) claim3_cases))"

section \<open>Lemmas\<close>

lemma dash_fixture:
  assumes "\<forall>s \<in> set scopes. \<forall>c \<in> fset s. list_all encodable c" and "int (length scopes) \<le> MAX_SAFE_INTEGER + 1"
  shows "fixture_ok (plain_fixture key (dash_id prefix)) scopes"
  using assms by (simp add: fixture_ok_def dash_id_def)

lemma inj_dash [simp]: "inj_on (dash_id prefix) A"
  by (simp add: inj_on_def)

lemma fset_of_take_mono: "m \<le> n \<Longrightarrow> fset_of_list (take m xs) |\<subseteq>| fset_of_list (take n xs)"
  by (simp add: less_eq_fset.rep_eq fset_of_list.rep_eq set_take_subset_set_take)

lemma take_sub: "fset_of_list (take m xs) |\<subseteq>| fset_of_list xs"
  by (simp add: less_eq_fset.rep_eq fset_of_list.rep_eq set_take_subset)

lemma encodable_escalation [simp]: "list_all encodable (escalation trial)"
  by (simp add: escalation_def)

text \<open>The two outcomes of a trial, on any ladder of scopes that narrows throughout or widens first at a hop.\<close>

definition ladder_ok :: "int \<Rightarrow> ustr fset list \<Rightarrow> bool" where
  "ladder_ok md scopes \<longleftrightarrow> (\<forall>s \<in> set scopes. \<forall>c \<in> fset s. list_all encodable c) \<and>
     int (length scopes) \<le> md + 1 \<and> md \<le> MAX_SAFE_INTEGER"

definition narrows :: "ustr fset list \<Rightarrow> bool" where
  "narrows scopes \<longleftrightarrow> scopes \<noteq> [] \<and> successively (\<lambda>p c. c |\<subseteq>| p) scopes"

definition widens_at :: "nat \<Rightarrow> ustr fset list \<Rightarrow> bool" where
  "widens_at n scopes \<longleftrightarrow> 0 < n \<and> n < length scopes \<and> narrows (take n scopes) \<and> \<not> scopes ! n |\<subseteq>| scopes ! (n - 1)"

lemma ladder_built:
  assumes "ed25519_correct L" and "ladder_ok md scopes"
  obtains chain where "signed_hops L (plain_fixture key (dash_id prefix)) 0 scopes None = Inr chain" and "built_by L (plain_fixture key (dash_id prefix)) scopes chain"
proof -
  have "fixture_ok (plain_fixture key (dash_id prefix)) scopes" using assms(2) by (intro dash_fixture) (auto simp: ladder_ok_def)
  then show thesis using that by (rule signed_hops_built [OF assms(1)])
qed

lemma narrow_accepted:
  assumes "built_by L (plain_fixture key (dash_id prefix)) scopes chain" and "ladder_ok md scopes" and "narrows scopes"
  shows "verify_chain L (plain_args md (hex (ed_public L (key 0))) clock) chain = Inr REVOCATION_NOT_CHECKED"
  using built_chain_valid [OF assms(1)] assms(2,3) by (simp add: plain_args_accepts ladder_ok_def narrows_def)

lemma wide_refused:
  assumes "built_by L (plain_fixture key (dash_id prefix)) scopes chain" and "ladder_ok md scopes" and "widens_at n scopes"
  shows "verify_chain L (plain_args md (hex (ed_public L (key 0))) clock) chain =
    Inl (refuse ScopeEscalation (hop_msg n '' scope exceeds parent grant''))"
  using built_escalates [OF assms(1), of n md clock] assms(2,3) by (simp add: widens_at_def narrows_def ladder_ok_def)

lemma count_all:
  assumes "\<And>x. x \<in> set xs \<Longrightarrow> f x = Inr (g x) \<and> P (g x)"
  shows "\<exists>ys. traverseE f xs = Inr ys \<and> length ys = length xs \<and> (\<forall>y \<in> set ys. P y)"
proof -
  have "traverseE f xs = Inr (map g xs)" using assms by (intro traverseE_all) blast
  with assms show ?thesis by auto
qed

lemma filter_all [simp]: "\<forall>y \<in> set ys. P y \<Longrightarrow> filter P ys = ys"
  by simp

lemma was_simps [simp]:
  "was_accepted (Inr x)" "\<not> was_accepted (Inl e)" "\<not> was_refused_as c (Inr x)" "was_refused_as c (Inl e) \<longleftrightarrow> is_class c e"
  by (simp_all add: was_accepted_def was_refused_as_def)

section \<open>Attenuation, for all keys\<close>

lemma claim1_caps: "fset_of_list CLAIM1_ROOT_CAPS = fset_of_list (take 6 CLAIM1_ROOT_CAPS)"
  by (simp add: CLAIM1_ROOT_CAPS_def)

lemma claim1_encodable: "\<forall>c \<in> fset (fset_of_list (take n CLAIM1_ROOT_CAPS)). list_all encodable c"
proof -
  have "list_all (list_all encodable) CLAIM1_ROOT_CAPS" by (simp add: CLAIM1_ROOT_CAPS_def)
  then show ?thesis by (auto simp: fset_of_list.rep_eq list_all_iff dest: in_set_takeD)
qed

lemma claim1_fresh: "escalation trial |\<notin>| fset_of_list CLAIM1_ROOT_CAPS"
  by (simp add: escalation_def CLAIM1_ROOT_CAPS_def str_def)

lemma claim1_narrowing:
  "ladder_ok 8 (claim1_narrowing_scopes trial)" "narrows (claim1_narrowing_scopes trial)"
  by (simp_all add: ladder_ok_def narrows_def claim1_narrowing_scopes_def claim1_caps claim1_encodable fset_of_take_mono
      MAX_SAFE_INTEGER_def)

lemma claim1_escalating:
  "ladder_ok 8 (claim1_escalating_scopes trial)" "widens_at 3 (claim1_escalating_scopes trial)"
proof -
  have e: "claim1_escalating_scopes trial = [fset_of_list (take 6 CLAIM1_ROOT_CAPS), fset_of_list (take 5 CLAIM1_ROOT_CAPS),
      fset_of_list (take 4 CLAIM1_ROOT_CAPS), fset_of_list (take 3 CLAIM1_ROOT_CAPS) |\<union>| {|escalation trial|}]"
    by (simp add: claim1_escalating_scopes_def claim1_narrowing_scopes_def claim1_caps)
  show "ladder_ok 8 (claim1_escalating_scopes trial)"
    by (simp add: e ladder_ok_def claim1_encodable MAX_SAFE_INTEGER_def)
  have "escalation trial |\<notin>| fset_of_list (take 4 CLAIM1_ROOT_CAPS)" 
    using claim1_fresh [of trial] fsubsetD [OF take_sub [of 4 CLAIM1_ROOT_CAPS]] by blast
  then show "widens_at 3 (claim1_escalating_scopes trial)"
    by (simp add: e widens_at_def narrows_def fset_of_take_mono numeral_nat)
qed

lemma claim1_trials:
  assumes "ed25519_correct L"
  shows "claim1_trial L env (claim1_narrowing_scopes trial) = Inr (Inr REVOCATION_NOT_CHECKED)"
    "claim1_trial L env (claim1_escalating_scopes trial) = Inr (Inl (refuse ScopeEscalation (hop_msg 3 '' scope exceeds parent grant'')))"
proof -
  obtain chain where "signed_hops L (plain_fixture (te_key env) (dash_id ''cred'')) 0 (claim1_narrowing_scopes trial) None = Inr chain"
    and b: "built_by L (plain_fixture (te_key env) (dash_id ''cred'')) (claim1_narrowing_scopes trial) chain"
    by (rule ladder_built [OF assms claim1_narrowing(1)])
  with narrow_accepted [OF b claim1_narrowing]
  show "claim1_trial L env (claim1_narrowing_scopes trial) = Inr (Inr REVOCATION_NOT_CHECKED)"
    by (simp add: claim1_trial_def claim1_build_signed_chain_def)
  obtain bad where "signed_hops L (plain_fixture (te_key env) (dash_id ''cred'')) 0 (claim1_escalating_scopes trial) None = Inr bad"
    and c: "built_by L (plain_fixture (te_key env) (dash_id ''cred'')) (claim1_escalating_scopes trial) bad"
    by (rule ladder_built [OF assms claim1_escalating(1)])
  with wide_refused [OF c claim1_escalating]
  show "claim1_trial L env (claim1_escalating_scopes trial) = Inr (Inl (refuse ScopeEscalation (hop_msg 3 '' scope exceeds parent grant'')))"
    by (simp add: claim1_trial_def claim1_build_signed_chain_def)
qed

text \<open>
  The attenuation experiment returns zero whatever keys it draws: every narrowing ladder is accepted
  and every escalating one refused as an escalation.
\<close>

theorem claim1_succeeds:
  assumes "ed25519_correct L"
  shows "claim1_main L first second = Inr 0"
proof -
  let ?n = "\<lambda>trial. claim1_trial L (first trial) (claim1_narrowing_scopes trial)"
  let ?e = "\<lambda>trial. claim1_trial L (second trial) (claim1_escalating_scopes trial)"
  obtain ys where "traverseE ?n [0..<CLAIM1_TRIALS] = Inr ys" "length ys = CLAIM1_TRIALS" "\<forall>y \<in> set ys. was_accepted y"
    using count_all [of "[0..<CLAIM1_TRIALS]" ?n _ was_accepted] claim1_trials(1) [OF assms] by fastforce
  moreover obtain zs where "traverseE ?e [0..<CLAIM1_TRIALS] = Inr zs" "length zs = CLAIM1_TRIALS"
    "\<forall>z \<in> set zs. was_refused_as ScopeEscalation z"
    using count_all [of "[0..<CLAIM1_TRIALS]" ?e _ "was_refused_as ScopeEscalation"] claim1_trials(2) [OF assms] by fastforce
  ultimately show ?thesis by (simp add: claim1_main_def)
qed

section \<open>Attenuation at scale\<close>

lemma escalation_not_numbered: "escalation trial \<noteq> str ''cap:'' @ nat_str i"
proof
  assume "escalation trial = str ''cap:'' @ nat_str i"
  then have "hd (nat_str i) = 101" by (cases "nat_str i") (auto simp: escalation_def str_def)
  with nat_str_hd [of i] show False by (simp add: is_digit_def)
qed

lemma c1_caps:
  "escalation trial |\<notin>| fset_of_list (take n C1_ROOT_CAPS)" "\<forall>c \<in> fset (fset_of_list (take n C1_ROOT_CAPS)). list_all encodable c"
  "length C1_ROOT_CAPS = 16"
  using escalation_not_numbered by (auto simp: C1_ROOT_CAPS_def fset_of_list.rep_eq fset_of_list_elem dest!: in_set_takeD)

lemma c1_ladder:
  assumes "depth \<le> 16"
  shows "c1_narrowing_scopes depth = map (\<lambda>i. fset_of_list (take (16 - i) C1_ROOT_CAPS)) [0..<depth]"
proof -
  have "py_prefix C1_ROOT_CAPS (16 - int i) = take (16 - i) C1_ROOT_CAPS" if "i < depth" for i
    using that assms by (simp add: py_prefix_def nat_diff_distrib')
  then show ?thesis by (simp add: c1_narrowing_scopes_def c1_caps(3))
qed

lemma c1_narrowing:
  assumes "0 < depth" and "depth \<le> 16"
  shows "ladder_ok 64 (c1_narrowing_scopes depth)" "narrows (c1_narrowing_scopes depth)"
  using assms by (auto simp: c1_ladder ladder_ok_def narrows_def c1_caps(2) MAX_SAFE_INTEGER_def successively_conv_nth
      intro!: fset_of_take_mono)

text \<open>The ladder widens at its last hop.\<close>

lemma c1_escalating:
  assumes "2 \<le> depth" and "depth \<le> 16"
  obtains scopes where "c1_escalating_scopes depth trial = Inr scopes" "ladder_ok 64 scopes" "widens_at (depth - 1) scopes"
    "scopes = (c1_narrowing_scopes depth)[depth - 1 := last (c1_narrowing_scopes depth) |\<union>| {|escalation trial|}]"
proof
  let ?l = "c1_narrowing_scopes depth" let ?s = "?l[depth - 1 := last ?l |\<union>| {|escalation trial|}]"
  have len: "length ?l = depth" by (simp add: c1_narrowing_scopes_def)
  have last: "last ?l = ?l ! (depth - 1)" using len assms(1) by (subst last_conv_nth) auto
  show "c1_escalating_scopes depth trial = Inr ?s"
    using assms(1) len by (simp add: c1_escalating_scopes_def last Let_def require_def)
  note nw = c1_narrowing [OF _ assms(2)]
  have "\<forall>c \<in> fset (last ?l). list_all encodable c" using nw(1) assms(1) len last by (auto simp: ladder_ok_def)
  then show "ladder_ok 64 ?s"
    using nw(1) assms(1) len by (auto simp: ladder_ok_def dest!: set_update_subset_insert [THEN subsetD])
  have "take (depth - 1) ?s = take (depth - 1) ?l" by simp
  moreover have "narrows (take (depth - 1) ?l)"
    using nw(2) assms(1) len by (auto simp: narrows_def successively_conv_nth)
  moreover have "escalation trial |\<notin>| ?l ! (depth - 2)" using assms by (simp add: c1_ladder c1_caps)
  ultimately show "widens_at (depth - 1) ?s"
    using assms(1) len by (auto simp: widens_at_def numeral_2_eq_2)
qed simp

lemma c1_trials:
  assumes "ed25519_correct L" and "ladder_ok 64 scopes" and "scopes \<noteq> []"
  obtains chain where "built_by L (plain_fixture (te_key env) (dash_id ''cred'')) scopes chain"
    and "c1_trial L env scopes = Inr (verify_chain L (plain_args 64 (hex (ed_public L (te_key env 0))) (te_clock env)) chain)"
proof -
  obtain chain where c: "signed_hops L (plain_fixture (te_key env) (dash_id ''cred'')) 0 scopes None = Inr chain"
    and b: "built_by L (plain_fixture (te_key env) (dash_id ''cred'')) scopes chain"
    by (rule ladder_built [OF assms(1,2)])
  from b have "cred_issuer (chain ! 0) = hex (ed_public L (te_key env 0))" "chain \<noteq> []"
    using built_fields(2) [OF b, of 0] built_length [OF b] assms(3) by auto
  with c b that show thesis by (simp add: c1_trial_def c1_build_signed_chain_def)
qed

lemma c1_depth_row_ok:
  assumes "ed25519_correct L" and "2 \<le> depth" and "depth \<le> 16"
  shows "\<exists>row. c1_depth_row L first second depth = Inr row \<and> c1_depth row = depth \<and> c1_row_ok row"
proof -
  let ?n = "\<lambda>trial. c1_trial L (first trial) (c1_narrowing_scopes depth)"
  let ?e = "\<lambda>trial. bindE (c1_escalating_scopes depth trial) (c1_trial L (second trial))"
  have nw: "ladder_ok 64 (c1_narrowing_scopes depth)" "narrows (c1_narrowing_scopes depth)"
    using c1_narrowing [OF _ assms(3)] assms(2) by auto
  have n: "?n trial = Inr (Inr REVOCATION_NOT_CHECKED)" for trial
    using c1_trials [OF assms(1) nw(1), of "first trial"] narrow_accepted [OF _ nw] nw(2) by (metis narrows_def)
  have e: "?e trial = Inr (Inl (refuse ScopeEscalation (hop_msg (depth - 1) '' scope exceeds parent grant'')))" for trial
  proof -
    obtain scopes where s: "c1_escalating_scopes depth trial = Inr scopes" "ladder_ok 64 scopes" "widens_at (depth - 1) scopes"
      using c1_escalating [OF assms(2,3)] by metis
    moreover from s(3) have "scopes \<noteq> []" by (auto simp: widens_at_def)
    ultimately show ?thesis
      using c1_trials [OF assms(1) s(2), of "second trial"] wide_refused [OF _ s(2,3)] by (metis bindE_simps(2))
  qed
  obtain ys where "traverseE ?n [0..<C1_TRIALS] = Inr ys" "length ys = C1_TRIALS" "\<forall>y \<in> set ys. was_accepted y"
    using count_all [of "[0..<C1_TRIALS]" ?n _ was_accepted] n by fastforce
  moreover obtain zs where "traverseE ?e [0..<C1_TRIALS] = Inr zs" "length zs = C1_TRIALS"
    "\<forall>z \<in> set zs. was_refused_as ScopeEscalation z"
    using count_all [of "[0..<C1_TRIALS]" ?e _ "was_refused_as ScopeEscalation"] e by fastforce
  ultimately show ?thesis by (simp add: c1_depth_row_def c1_row_ok_def)
qed

text \<open>
  The sweep reports what was written: whatever keys are drawn, its summary counts every trial of every
  depth as expected, and the exit code is zero when the summary could be written.
\<close>

theorem c1_succeeds:
  assumes "ed25519_correct L"
  shows "\<exists>summary. c1_main L first second write = bindE (write summary) (\<lambda>_. Inr 0) \<and>
    map c1_depth (c1_rows summary) = C1_DEPTHS \<and> c1_all_ok summary \<and>
    c1_total_narrowing_accepted summary = c1_total summary \<and> c1_total_escalation_rejected summary = c1_total summary"
proof -
  let ?f = "\<lambda>depth. c1_depth_row L (first depth) (second depth) depth"
  have "\<forall>depth \<in> set C1_DEPTHS. \<exists>row. ?f depth = Inr row \<and> c1_depth row = depth \<and> c1_row_ok row"
    using c1_depth_row_ok [OF assms] by (simp add: C1_DEPTHS_def)
  then obtain row where row: "\<And>depth. depth \<in> set C1_DEPTHS \<Longrightarrow> ?f depth = Inr (row depth) \<and> c1_depth (row depth) = depth \<and> c1_row_ok (row depth)"
    by metis
  then have t: "traverseE ?f C1_DEPTHS = Inr (map row C1_DEPTHS)" by (intro traverseE_all) blast
  let ?s = "c1_summarize (map row C1_DEPTHS)"
  have ok: "c1_all_ok ?s" using row by (simp add: c1_summarize_def list_all_iff)
  have "(\<Sum>d \<leftarrow> C1_DEPTHS. c1_narrowing_accepted (row d)) = (\<Sum>d \<leftarrow> C1_DEPTHS. C1_TRIALS)"
    "(\<Sum>d \<leftarrow> C1_DEPTHS. c1_escalation_rejected (row d)) = (\<Sum>d \<leftarrow> C1_DEPTHS. C1_TRIALS)"
    using row by (auto simp: c1_row_ok_def intro!: arg_cong [where f = sum_list])
  then have "c1_total_narrowing_accepted ?s = c1_total ?s" "c1_total_escalation_rejected ?s = c1_total ?s"
    by (simp_all add: c1_summarize_def o_def sum_list_triv)
  moreover have "map c1_depth (c1_rows ?s) = C1_DEPTHS" using row by (auto simp: c1_summarize_def intro: map_idI)
  moreover have "c1_main L first second write = bindE (write ?s) (\<lambda>_. Inr 0)" by (simp add: c1_main_def t ok Let_def)
  ultimately show ?thesis using ok by blast
qed

section \<open>Replay and splicing, for all keys\<close>

lemma claim2_ladder:
  assumes "length caps = 3"
  shows "ladder_ok 8 (claim2_scopes caps)" "narrows (claim2_scopes caps)" "length (claim2_scopes caps) = 3"
proof -
  obtain a b c where "caps = [a, b, c]" using assms by (auto simp: numeral_3_eq_3 length_Suc_conv)
  then show "ladder_ok 8 (claim2_scopes caps)" "narrows (claim2_scopes caps)" "length (claim2_scopes caps) = 3"
    by (auto simp: claim2_scopes_def ladder_ok_def narrows_def MAX_SAFE_INTEGER_def numeral_2_eq_2)
qed

lemma replayed_hop:
  assumes "cred_signed L c" and "in_window now c" and "cred_id c \<in> seen"
  shows "\<exists>m. check_hop L md now i seen prev c = Inl (refuse CredentialReplay m)"
  using assms by (auto simp: check_hop_def check_window_def require_def cred_signed_def in_window_def not_less)

lemma spliced_hop:
  assumes "cred_signed L c" and "in_window now c" and "cred_id c \<notin> seen" and "cred_depth c \<le> md"
    and "cred_parent_id c \<noteq> Some (cred_id p)"
  shows "\<exists>m. check_hop L md now i seen (Some p) c = Inl (refuse BrokenDelegationLink m)"
  using assms by (auto simp: check_hop_def check_window_def check_link_def require_def cred_signed_def in_window_def not_less)

lemma dash_prefix: "dash_id [a] m = dash_id [b] n \<longleftrightarrow> a = b \<and> m = n"
  by (auto simp: dash_id_def str_def)

text \<open>
  The replay experiment returns zero whatever keys it draws, even the same keys for both chains: a hop
  presented twice is refused as a replay, and a hop of another chain breaks the link by its parent
  identifier, before the issuer is compared.
\<close>

theorem claim2_succeeds:
  assumes "ed25519_correct L"
  shows "claim2_main L key_a key_b clock = Inr 0"
proof -
  note la = claim2_ladder [of "''abc''", simplified] and lb = claim2_ladder [of "''xyz''", simplified]
  obtain as where as: "signed_hops L (plain_fixture key_a (dash_id ''a'')) 0 (claim2_scopes ''abc'') None = Inr as"
    and ba: "built_by L (plain_fixture key_a (dash_id ''a'')) (claim2_scopes ''abc'') as" by (rule ladder_built [OF assms la(1)])
  obtain bs where bs: "signed_hops L (plain_fixture key_b (dash_id ''b'')) 0 (claim2_scopes ''xyz'') None = Inr bs"
    and bb: "built_by L (plain_fixture key_b (dash_id ''b'')) (claim2_scopes ''xyz'') bs" by (rule ladder_built [OF assms lb(1)])
  obtain a0 a1 a2 where a: "as = [a0, a1, a2]" using built_length [OF ba] la(3) by (auto simp: numeral_3_eq_3 length_Suc_conv)
  obtain b0 b1 b2 where b: "bs = [b0, b1, b2]" using built_length [OF bb] lb(3) by (auto simp: numeral_3_eq_3 length_Suc_conv)
  note f0 = built_fields [OF ba, unfolded la(3), of 1, unfolded a, simplified]
    and g0 = built_fields [OF bb, unfolded lb(3), of 0, unfolded b, simplified]
  have v: "chain_valid L 8 {hex (ed_public L (key_a 0))} now as" "chain_valid L 8 {hex (ed_public L (key_b 0))} now bs" for now
    using narrow_accepted [OF ba la(1,2)] narrow_accepted [OF bb lb(1,2)] by (simp_all add: plain_args_accepts)
  have pa: "chain_valid L 8 {hex (ed_public L (key_a 0))} now [a0, a1]" for now
    using chain_valid_prefix [OF v(1), of 2] by (simp add: a numeral_2_eq_2)
  have pb: "chain_valid L 8 {hex (ed_public L (key_b 0))} now [b0]" for now
    using chain_valid_prefix [OF v(2), of 1] by (simp add: b)
  have "\<exists>m. check_hop L 8 (clock 2) 2 {cred_id a0, cred_id a1} (Some a1) a1 = Inl (refuse CredentialReplay m)"
    by (rule replayed_hop) (simp_all add: f0 in_window_def)
  then obtain m3 where 3: "verify_chain L (plain_args 8 (hex (ed_public L (key_a 0))) (clock 2)) [a0, a1, a1] = Inl (refuse CredentialReplay m3)"
    using first_bad_hop [OF pa, of "clock 2" a1 _ "[]"] by (auto simp: numeral_2_eq_2)
  have "\<exists>m. check_hop L 8 (clock 3) 1 {cred_id b0} (Some b0) a1 = Inl (refuse BrokenDelegationLink m)"
    by (rule spliced_hop) (simp_all add: f0 g0 in_window_def parent_of_def dash_prefix)
  then obtain m4 where 4: "verify_chain L (plain_args 8 (hex (ed_public L (key_b 0))) (clock 3)) [b0, a1, b2] = Inl (refuse BrokenDelegationLink m4)"
    using first_bad_hop [OF pb, of "clock 3" a1 _ "[b2]"] by auto
  have "verify_chain L (plain_args 8 (hex (ed_public L (key_a 0))) now) as = Inr REVOCATION_NOT_CHECKED"
    "verify_chain L (plain_args 8 (hex (ed_public L (key_b 0))) now) bs = Inr REVOCATION_NOT_CHECKED" for now
    using v by (simp_all add: plain_args_accepts)
  then show ?thesis
    by (simp add: claim2_main_def claim2_build_chain_def as bs claim2_control_def claim2_attack_def nthE_def a b 3 4)
qed

section \<open>Intersection, for all keys\<close>

lemma claim3_loop_ok:
  assumes "\<forall>(cap, expect) \<in> set cases. request cap = Inr expect"
  shows "claim3_loop request cases = Inr 0"
  using assms by (induction cases) auto

lemma claim3_request_exact:
  assumes "verify_chain L a chain = Inr status"
  shows "claim3_request L a policy chain cap = Inr (cap |\<in>| policy_intersect L policy (cred_scope (last chain)))"
proof -
  have "chain \<noteq> []" using verify_chain_ne [OF assms] .
  then show ?thesis
    by (simp add: claim3_request_def enforce_peer_call_def effective_scope_def assms decide_capability_def record_for_def
        denial_record_for_def rec_post_init_def Let_def)
qed

text \<open>
  The intersection experiment returns zero whatever keys it draws: the one capability that is both
  delegated at the leaf and allowed locally is granted, the others are denied.
\<close>

theorem claim3_succeeds:
  assumes "ed25519_correct L"
  shows "claim3_main L key clock0 clock = Inr 0"
proof -
  let ?s = "[{|str ''read'', str ''write'', str ''admin''|}, {|str ''read'', str ''write''|}]"
  have l: "ladder_ok 8 ?s" "narrows ?s" by (auto simp: ladder_ok_def narrows_def MAX_SAFE_INTEGER_def)
  obtain chain where c: "signed_hops L (plain_fixture key (dash_id ''cred'')) 0 ?s None = Inr chain" and b: "built_by L (plain_fixture key (dash_id ''cred'')) ?s chain"
    by (rule ladder_built [OF assms l(1)])
  note v = narrow_accepted [OF b l]
  have "length chain = 2" using built_length [OF b] by simp
  then have "chain \<noteq> []" "last chain = chain ! 1" by (auto simp: numeral_2_eq_2 length_Suc_conv)
  with built_fields(4) [OF b, of 1] have scope: "cred_scope (last chain) = {|str ''read'', str ''write''|}" by simp
  have "claim3_loop (\<lambda>cap. claim3_request L (plain_args 8 (hex (ed_public L (key 0))) (clock cap))
      (LocalPolicy (local_of [str ''read'', str ''audit''])) chain cap) claim3_cases = Inr 0"
    by (rule claim3_loop_ok)
       (auto simp: claim3_cases_def claim3_request_exact [OF v] scope local_intersect_def local_of_def)
  with v \<open>chain \<noteq> []\<close> show ?thesis
    unfolding claim3_main_def claim3_build_chain_def c by (simp add: effective_scope_def Let_def)
qed

end
