(* ===== verification/Scripts.thy ===== *)
theory Scripts
  imports Artifacts Experiments
begin

text \<open>
  The generator scripts, \<open>scripts/gen_example_chain.py\<close> and \<open>scripts/gen_action_fixtures.py\<close>, and the files
  they leave. The theorems run the command line on those files: the example chain verifies, and each
  fixture bundle is judged as its \<open>expected.json\<close> says.
\<close>

section \<open>The example chain\<close>

definition example_scopes :: "ustr fset list" where
  "example_scopes =
     [{|str ''cap:read'', str ''cap:write'', str ''cap:admin''|}, {|str ''cap:read'', str ''cap:write''|}, {|str ''cap:read''|}]"

definition example_build :: "lib \<Rightarrow> (nat \<Rightarrow> bytes) \<Rightarrow> jdict list res" where
  "example_build L key =
     bindE (signed_hops L (plain_fixture key (dash_id ''cred'')) 0 example_scopes None) (\<lambda>chain. Inr (map cred_to_dict chain))"

definition example_main :: "lib \<Rightarrow> (nat \<Rightarrow> bytes) \<Rightarrow> ustr \<Rightarrow> disk \<Rightarrow> disk res" where
  "example_main L key dest D =
     bindE (example_build L key) (\<lambda>chain.
     bindE (dump_indented L 0 (JObj [(str ''chain'', JList (map JObj chain))])) (\<lambda>txt. write_text dest txt D))"

text \<open>The arguments of \<open>ca2a verify-chain --chain path --trusted-root-issuer issuer\<close>.\<close>

definition verify_chain_command :: "ustr \<Rightarrow> ustr \<Rightarrow> verify_chain_args" where
  "verify_chain_command path issuer =
     \<lparr>op_max_depth = 8, op_trusted_root_issuer = [issuer], op_at_time = None, op_revocations = None,
      op_max_revocation_staleness = None, vc_chain = path\<rparr>"

lemma verify_chain_command_simps [simp]:
  "op_revocations (verify_chain_command path issuer) = None" "vc_chain (verify_chain_command path issuer) = path"
  "chain_args_for env (verify_chain_command path issuer) None = plain_args 8 issuer (cl_clock env)"
  by (simp_all add: verify_chain_command_def chain_args_for_def plain_args_def)

lemma example_ladder:
  "ladder_ok 8 example_scopes" "narrows example_scopes" "\<forall>s \<in> set example_scopes. s \<noteq> {||} \<and> [] |\<notin>| s"
  by (auto simp: example_scopes_def ladder_ok_def narrows_def MAX_SAFE_INTEGER_def)

lemma built_files_ok:
  assumes "ed25519_correct L" and "built_by L F scopes chain" and "fixture_ok F scopes"
    and "\<And>i. fx_ident F i \<noteq> []" and "\<forall>s \<in> set scopes. s \<noteq> {||} \<and> [] |\<notin>| s"
  shows "\<forall>c \<in> set chain. cred_encodable c \<and> cred_wire_ok c"
proof -
  have "window_ok F" using assms(3) by (simp add: fixture_ok_def)
  with built_wire_ok [OF assms(1,2) _ assms(4,5)] built_encodable [OF assms(2,3)] show ?thesis by (auto simp: list_all_iff)
qed

lemma dash_id_nonempty [simp]: "dash_id p i \<noteq> []"
  by (simp add: dash_id_def)

text \<open>
  The example chain that the generator writes, whatever keys it draws, is accepted by the command line with the
  root it was generated under: three hops, the leaf's scope and an honest \<open>not_checked\<close> revocation.
\<close>

theorem example_chain_verifies:
  assumes "ed25519_correct L" and "dk_writable D (path_text path)"
  shows "\<exists>D'. example_main L key (path_text path) D = Inr D' \<and>
    cmd_verify_chain L (env\<lparr>cl_fs := dk_files D'\<rparr>) (verify_chain_command path (hex (ed_public L (key 0)))) =
      ([Json [(str ''verified'', JBool True), (str ''hops'', JInt 3), (str ''leaf_scope'', JList [JStr (str ''cap:read'')]),
              (str ''revocation'', JStr (str ''not_checked''))]], Inr 0)"
proof -
  let ?F = "plain_fixture key (dash_id ''cred'')"
  obtain chain where c: "signed_hops L ?F 0 example_scopes None = Inr chain" and b: "built_by L ?F example_scopes chain"
    by (rule ladder_built [OF assms(1) example_ladder(1)])
  have fx: "fixture_ok ?F example_scopes" using example_ladder(1) by (intro dash_fixture) (auto simp: ladder_ok_def)
  have ok: "\<forall>c \<in> set chain. cred_encodable c \<and> cred_wire_ok c"
    by (rule built_files_ok [OF assms(1) b fx]) (simp_all add: example_ladder(3))
  obtain t D' where t: "dump_indented L 0 (chain_doc chain) = Inr t" "write_text (path_text path) (t @ []) D = Inr D'"
    and h: "holds_doc L (dk_files D' (path_text path)) (chain_doc chain)"
    by (rule written_doc [OF chain_doc_ok(1,2) [OF ok], where e = "[]" and D = D and path = "path_text path"]) (use assms(2) in auto)
  have doc: "JObj [(str ''chain'', JList (map JObj (map cred_to_dict chain)))] = chain_doc chain"
    by (simp add: chain_doc_def chain_document_def)
  have w: "example_main L key (path_text path) D = Inr D'"
    unfolding example_main_def example_build_def c bindE_simps doc t(1) using t(2) by simp
  let ?env = "env\<lparr>cl_fs := dk_files D'\<rparr>"
  let ?args = "verify_chain_command path (hex (ed_public L (key 0)))"
  have h': "holds_doc L (cl_fs ?env (path_text path)) (chain_doc chain)" using h by simp
  note v = narrow_accepted [OF b example_ladder(1,2), of "cl_clock env"]
  have len: "length chain = 3" using built_length [OF b] by (simp add: example_scopes_def)
  then have "last chain = chain ! 2" by (auto simp: numeral_3_eq_3 numeral_2_eq_2 length_Suc_conv)
  with built_fields(4) [OF b, of 2] have scope: "cred_scope (last chain) = {|str ''cap:read''|}" by (simp add: example_scopes_def)
  have "cmd_verify_chain L ?env ?args =
      ([Json [(str ''verified'', JBool True), (str ''hops'', JInt 3), (str ''leaf_scope'', JList [JStr (str ''cap:read'')]),
              (str ''revocation'', JStr (str ''not_checked''))]], Inr 0)"
    using load_chain_doc(2) [OF h' ok] v
    by (simp add: cmd_verify_chain_def load_revocations_def report_refusal_def verify_delegation_chain_def chain_summary_def len scope
        revocation_fields_def rs_state_def REVOCATION_NOT_CHECKED_def sorted_list_of_fset.rep_eq dict_set_def)
  with w show ?thesis by blast
qed

end
