(* ===== verification/Action_Fixtures.thy ===== *)
theory Action_Fixtures
  imports Scripts
begin

text \<open>
  The generator of the offline fixture bundles, \<open>scripts/gen_action_fixtures.py\<close>: the five bundles, their
  files, and the two modes of the script. The theorems: a check after a write finds the bundles in sync,
  and the command line judges every bundle as its \<open>expected.json\<close> documents.
\<close>

section \<open>Bundles\<close>

definition WRONG_PARENT_HASH :: ustr where
  "WRONG_PARENT_HASH = replicate 64 48"

definition verdict_of :: "string \<Rightarrow> string \<Rightarrow> string \<Rightarrow> jdict" where
  "verdict_of provenance authorization controller =
     [(str ''provenance_status'', JStr (str provenance)), (str ''authorization_decision'', JStr (str authorization)),
      (str ''controller_outcome'', JStr (str controller))]"

definition VERIFIED :: jdict where
  "VERIFIED = verdict_of ''verified'' ''allowed'' ''accepted''"

definition INVALID :: jdict where
  "INVALID = verdict_of ''invalid'' ''not_evaluated'' ''not_evaluated''"

definition DENIED :: jdict where
  "DENIED = verdict_of ''verified'' ''denied'' ''not_evaluated''"

record action_bundle =
  bu_name :: ustr
  bu_chain :: "delegation_credential list"
  bu_records :: "delegation_record list"
  bu_verdict :: jdict
  bu_code :: "ustr option"
  bu_at_time :: "int option"

text \<open>The seed of a key is the digest of its label, an ASCII string.\<close>

definition action_key :: "string \<Rightarrow> nat \<Rightarrow> bytes" where
  "action_key label depth = sha256 (map of_nat (str label @ str ''::'' @ nat_str depth))"

definition action_fixture :: "string \<Rightarrow> int option \<Rightarrow> int option \<Rightarrow> fixture" where
  "action_fixture label not_before not_after =
     \<lparr>fx_key = action_key label, fx_ident = dash_id ''cred'', fx_not_before = not_before, fx_not_after = not_after\<rparr>"

definition action_chain ::
  "lib \<Rightarrow> string \<Rightarrow> ustr fset list \<Rightarrow> int option \<Rightarrow> int option \<Rightarrow> delegation_credential list res" where
  "action_chain L label scopes not_before not_after = signed_hops L (action_fixture label not_before not_after) 0 scopes None"

definition allow_records :: "delegation_credential list \<Rightarrow> delegation_record list res" where
  "allow_records chain = emit_records (dash_id ''rec'') 0 None chain"

definition robot_scopes :: "ustr fset list" where
  "robot_scopes = [{|str ''robot.move'', str ''robot.inspect'', str ''robot.stop''|}, {|str ''robot.move'', str ''robot.inspect''|}]"

definition purchase_scopes :: "ustr fset list" where
  "purchase_scopes =
     [{|str ''task:read'', str ''task:write'', str ''tool:search'', str ''tool:purchase''|},
      {|str ''task:read'', str ''tool:search'', str ''tool:purchase''|}, {|str ''tool:search''|}]"

definition fly_scopes :: "ustr fset list" where
  "fly_scopes = [{|str ''robot.move''|}, {|str ''robot.move'', str ''robot.fly''|}]"

definition bundle_verified :: "lib \<Rightarrow> action_bundle res" where
  "bundle_verified L =
     bindE (action_chain L ''action-001'' robot_scopes None None) (\<lambda>c.
     bindE (allow_records c) (\<lambda>recs.
     Inr \<lparr>bu_name = str ''action-001-verified'', bu_chain = c, bu_records = recs, bu_verdict = VERIFIED,
          bu_code = None, bu_at_time = None\<rparr>))"

definition bundle_parent_mismatch :: "lib \<Rightarrow> action_bundle res" where
  "bundle_parent_mismatch L =
     bindE (action_chain L ''action-002'' robot_scopes None None) (\<lambda>c.
     bindE (allow_records c) (\<lambda>recs.
     bindE (nthE recs 1) (\<lambda>second.
     bindE (rec_post_init (second\<lparr>rec_parent_hash := Some WRONG_PARENT_HASH\<rparr>)) (\<lambda>forged.
     Inr \<lparr>bu_name = str ''action-002-parent-hash-mismatch'', bu_chain = c, bu_records = recs[1 := forged], bu_verdict = INVALID,
          bu_code = Some (str ''PROVENANCE_LINK_BROKEN''), bu_at_time = None\<rparr>))))"

definition PURCHASE_REASON :: ustr where
  "PURCHASE_REASON = str ''capability 'tool:purchase' is not in the effective scope''"

definition bundle_denial :: "lib \<Rightarrow> action_bundle res" where
  "bundle_denial L =
     bindE (action_chain L ''action-006'' purchase_scopes None None) (\<lambda>c.
     bindE (allow_records c) (\<lambda>recs.
     bindE (leaf_of c) (\<lambda>leaf.
     bindE (require (recs \<noteq> []) (PyExn IndexError)) (\<lambda>_.
     bindE (record_hash (last recs)) (\<lambda>h.
     bindE (denial_record_for leaf (str ''rec-denied-purchase'') (Some h) (str ''tool:purchase'') (cred_scope leaf) PURCHASE_REASON
              CALLER_NOT_OFFERED) (\<lambda>denial.
     Inr \<lparr>bu_name = str ''action-006-policy-denial'', bu_chain = c, bu_records = recs @ [denial], bu_verdict = DENIED,
          bu_code = Some PURCHASE_REASON, bu_at_time = None\<rparr>))))))"

definition bundle_escalation :: "lib \<Rightarrow> action_bundle res" where
  "bundle_escalation L =
     bindE (action_chain L ''action-010'' fly_scopes None None) (\<lambda>c.
     bindE (allow_records c) (\<lambda>recs.
     Inr \<lparr>bu_name = str ''action-010-scope-escalation'', bu_chain = c, bu_records = recs, bu_verdict = INVALID,
          bu_code = Some (str ''SCOPE_ESCALATION''), bu_at_time = None\<rparr>))"

definition bundle_expired :: "lib \<Rightarrow> action_bundle res" where
  "bundle_expired L =
     bindE (action_chain L ''action-012'' robot_scopes (Some 1000) (Some 2000)) (\<lambda>c.
     bindE (allow_records c) (\<lambda>recs.
     Inr \<lparr>bu_name = str ''action-012-credential-expired'', bu_chain = c, bu_records = recs, bu_verdict = INVALID,
          bu_code = Some (str ''CREDENTIAL_EXPIRED''), bu_at_time = Some 3000\<rparr>))"

definition action_bundles :: "lib \<Rightarrow> action_bundle list res" where
  "action_bundles L =
     traverseE id [bundle_verified L, bundle_parent_mismatch L, bundle_denial L, bundle_escalation L, bundle_expired L]"

section \<open>Files\<close>

definition expected_doc :: "action_bundle \<Rightarrow> json" where
  "expected_doc b = JObj
     [(str ''trusted_root_issuer'', JStr (cred_issuer (hd (bu_chain b)))),
      (str ''at_time'', case bu_at_time b of None \<Rightarrow> JNull | Some t \<Rightarrow> JInt t),
      (str ''verdict'', JObj (bu_verdict b)), (str ''code'', opt_str (bu_code b))]"

text \<open>\<open>str(FIXTURE_DIR / b.name / file)\<close>.\<close>

definition action_path :: "path \<Rightarrow> ustr \<Rightarrow> string \<Rightarrow> ustr" where
  "action_path dir name file = path_str (fst dir, snd dir @ [name, str file])"

definition bundle_docs :: "path \<Rightarrow> action_bundle \<Rightarrow> (ustr \<times> json) list" where
  "bundle_docs dir b =
     [(action_path dir (bu_name b) ''chain.json'', chain_doc (bu_chain b)),
      (action_path dir (bu_name b) ''dag.json'', dag_doc (bu_records b)),
      (action_path dir (bu_name b) ''expected.json'', expected_doc b)]"

text \<open>The chain of a bundle is indexed for its issuer; the text of a document ends with a newline.\<close>

definition bundle_files :: "lib \<Rightarrow> path \<Rightarrow> (ustr \<times> ustr) list res" where
  "bundle_files L dir =
     bindE (action_bundles L) (\<lambda>bs.
     bindE (require (\<forall>b \<in> set bs. bu_chain b \<noteq> []) (PyExn IndexError)) (\<lambda>_.
     traverseE (\<lambda>(p, doc). bindE (dump_indented L 0 doc) (\<lambda>t. Inr (p, t @ [10]))) (concat (map (bundle_docs dir) bs))))"

text \<open>\<open>not path.is_file() or path.read_text(encoding="utf-8") != content\<close>.\<close>

definition stale :: "disk \<Rightarrow> ustr \<times> ustr \<Rightarrow> bool res" where
  "stale D = (\<lambda>(p, content).
     case dk_files D p of
       Absent \<Rightarrow> Inr True
     | Unreadable \<Rightarrow> Inl (PyExn OSError)
     | Contents raw \<Rightarrow> bindE (expect (utf8_decode raw) (PyExn ValueError)) (\<lambda>t. Inr (universal_newlines t \<noteq> content)))"

fun write_files :: "(ustr \<times> ustr) list \<Rightarrow> disk \<Rightarrow> disk res" where
  "write_files [] D = Inr D"
| "write_files ((p, content) # files) D = bindE (write_text p content D) (write_files files)"

definition action_main :: "lib \<Rightarrow> path \<Rightarrow> bool \<Rightarrow> disk \<Rightarrow> (int \<times> disk) res" where
  "action_main L dir check D =
     bindE (bundle_files L dir) (\<lambda>files.
     if check then bindE (traverseE (stale D) files) (\<lambda>flags. Inr (if list_ex id flags then 1 else 0, D))
     else bindE (write_files files D) (\<lambda>D'. Inr (0, D')))"

section \<open>What the bundles hold\<close>

lemma action_fixture_simps [simp]:
  "fx_ident (action_fixture label nb na) = dash_id ''cred''" "fx_not_before (action_fixture label nb na) = nb"
  "fx_not_after (action_fixture label nb na) = na"
  by (simp_all add: action_fixture_def)

definition scopes_ok :: "ustr fset list \<Rightarrow> bool" where
  "scopes_ok scopes \<longleftrightarrow> ladder_ok 8 scopes \<and> scopes \<noteq> [] \<and> (\<forall>s \<in> set scopes. s \<noteq> {||} \<and> [] |\<notin>| s)"

text \<open>A chain and its records that a file can carry.\<close>

definition files_ok :: "delegation_credential list \<Rightarrow> delegation_record list \<Rightarrow> bool" where
  "files_ok chain rs \<longleftrightarrow> (\<forall>c \<in> set chain. cred_encodable c \<and> cred_wire_ok c) \<and>
     list_all rec_encodable rs \<and> (\<forall>r \<in> set rs. rec_caller_attestation r \<in> CALLER_ATTESTATION_VALUES)"

lemma not_offered_value [simp]: "CALLER_NOT_OFFERED \<in> CALLER_ATTESTATION_VALUES"
  by (simp add: CALLER_ATTESTATION_VALUES_def)

lemma dash_id_encodable [simp]: "list_all encodable (dash_id p i)"
  by (simp add: dash_id_def)

lemma action_built:
  assumes "ed25519_correct L" and "scopes_ok scopes" and "window_ok (action_fixture label nb na)"
  obtains chain rs where "action_chain L label scopes nb na = Inr chain" and "built_by L (action_fixture label nb na) scopes chain"
    and "allow_records chain = Inr rs" and "records_of (dash_id ''rec'') chain rs" and "files_ok chain rs" and "chain \<noteq> []"
proof -
  let ?F = "action_fixture label nb na"
  have fx: "fixture_ok ?F scopes" using assms(2,3) by (auto simp: fixture_ok_def scopes_ok_def ladder_ok_def)
  then obtain chain where c: "signed_hops L ?F 0 scopes None = Inr chain" and b: "built_by L ?F scopes chain"
    by (rule signed_hops_built [OF assms(1)])
  have ok: "\<forall>c \<in> set chain. cred_encodable c \<and> cred_wire_ok c"
    by (rule built_files_ok [OF assms(1) b fx]) (use assms(2) in \<open>simp_all add: scopes_ok_def\<close>)
  then have enc: "\<forall>c \<in> set chain. cred_encodable c" by blast
  obtain rs where r: "emit_records (dash_id ''rec'') 0 None chain = Inr rs" and e: "records_of (dash_id ''rec'') chain rs"
    by (rule emit_records_emitted [OF enc dash_id_encodable])
  have "rec_caller_attestation r \<in> CALLER_ATTESTATION_VALUES" if "r \<in> set rs" for r
    using that e emitted_nth(6) [OF e] by (auto simp: records_of_def in_set_conv_nth)
  with e ok have "files_ok chain rs" by (simp add: files_ok_def records_of_def)
  moreover have "chain \<noteq> []" using built_length [OF b] assms(2) unfolding scopes_ok_def by (metis length_0_conv)
  ultimately show thesis using that c b r e unfolding action_chain_def allow_records_def by blast
qed

lemmas scopes_simps = scopes_ok_def ladder_ok_def narrows_def widens_at_def MAX_SAFE_INTEGER_def

lemma robot_scopes_ok: "scopes_ok robot_scopes" "narrows robot_scopes"
  by (simp_all add: robot_scopes_def scopes_simps)

lemma purchase_scopes_ok: "scopes_ok purchase_scopes" "narrows purchase_scopes"
  by (simp_all add: purchase_scopes_def scopes_simps)

lemma fly_scopes_ok: "scopes_ok fly_scopes" "widens_at 1 fly_scopes"
  by (simp_all add: fly_scopes_def scopes_simps)

section \<open>Judging a bundle\<close>

text \<open>\<open>ca2a verify-dag --structural-only --dag d --chain c --trusted-root-issuer i [--at-time t]\<close>, as the conformance test runs it.\<close>

definition verify_dag_command :: "ustr \<Rightarrow> ustr \<Rightarrow> ustr \<Rightarrow> int option \<Rightarrow> verify_dag_args" where
  "verify_dag_command dag chain issuer at_time =
     \<lparr>op_max_depth = 8, op_trusted_root_issuer = [issuer], op_at_time = at_time, op_revocations = None,
      op_max_revocation_staleness = None, vd_structural_only = True, vd_dag = dag, vd_chain = Some chain\<rparr>"

definition judge_bundle :: "lib \<Rightarrow> cli_env \<Rightarrow> action_bundle \<Rightarrow> ustr \<Rightarrow> ustr \<Rightarrow> outcome" where
  "judge_bundle L env b dag chain = cmd_verify_dag L env (verify_dag_command dag chain (cred_issuer (hd (bu_chain b))) (bu_at_time b))"

text \<open>The verdict that \<open>expected.json\<close> documents.\<close>

definition as_documented :: "action_bundle \<Rightarrow> outcome \<Rightarrow> bool" where
  "as_documented b out \<longleftrightarrow>
     (if bu_verdict b = INVALID
      then \<exists>m. out = ([Json [(str ''verified'', JBool False), (str ''code'', opt_str (bu_code b)), (str ''error'', JStr m)]], Inr 1)
      else \<exists>doc. out = ([Json doc], Inr 0) \<and> dict_get doc (str ''verified'') = Some (JBool False) \<and>
        dict_get doc (str ''structural_verified'') = Some (JBool True) \<and>
        (if bu_verdict b = DENIED
         then dict_get doc (str ''outcome'') = Some (JStr (str ''denied'')) \<and> dict_get doc (str ''denial_reason'') = Some (opt_str (bu_code b))
         else dict_get doc (str ''outcome'') = None))"

lemma verdicts_distinct [simp]: "VERIFIED \<noteq> INVALID" "DENIED \<noteq> INVALID" "VERIFIED \<noteq> DENIED"
  by (simp_all add: VERIFIED_def INVALID_def DENIED_def verdict_of_def)

lemma judge_files:
  assumes "holds_doc L (cl_fs env (path_text dag)) (dag_doc rs)" and "holds_doc L (cl_fs env (path_text path)) (chain_doc chain)"
    and "files_ok chain rs" and "path \<noteq> []"
  shows "check_dag L env (verify_dag_command dag path issuer at_time) =
    bindE (verify_dag rs) (\<lambda>records.
    bindE (verify_chain L ((plain_args 8 issuer (cl_clock env))\<lparr>ca_at_time := at_time\<rparr>) chain) (\<lambda>revocation.
    bindE (cross_check_chain L records chain) (\<lambda>_. Inr (records, Some revocation))))"
proof -
  have "load_records L env dag = Inr rs" by (rule load_dag_doc [OF assms(1)]) (use assms(3) in \<open>simp add: files_ok_def\<close>)
  moreover have "load_chain L env path = Inr chain" by (rule load_chain_doc [OF assms(2)]) (use assms(3) in \<open>simp add: files_ok_def\<close>)
  moreover have "given_chain (verify_dag_command dag path issuer at_time) = Some path"
    using assms(4) by (cases path) (simp_all add: given_chain_def verify_dag_command_def)
  ultimately show ?thesis
    by (simp add: check_dag_def verify_dag_command_def load_revocations_def chain_args_for_def plain_args_def)
qed

definition judged :: "lib \<Rightarrow> action_bundle \<Rightarrow> bool" where
  "judged L b \<longleftrightarrow> (\<forall>env dag path. holds_doc L (cl_fs env (path_text dag)) (dag_doc (bu_records b)) \<longrightarrow>
     holds_doc L (cl_fs env (path_text path)) (chain_doc (bu_chain b)) \<longrightarrow> path \<noteq> [] \<longrightarrow> as_documented b (judge_bundle L env b dag path))"

lemma judged_refused:
  assumes "files_ok (bu_chain b) (bu_records b)" and "bu_verdict b = INVALID" and "bu_code b = Some (str (err_code c))"
    and "\<And>issuer clock. issuer = cred_issuer (hd (bu_chain b)) \<Longrightarrow> \<exists>m. bindE (verify_dag (bu_records b)) (\<lambda>records.
      bindE (verify_chain L ((plain_args 8 issuer clock)\<lparr>ca_at_time := bu_at_time b\<rparr>) (bu_chain b)) (\<lambda>revocation.
      bindE (cross_check_chain L records (bu_chain b)) (\<lambda>_. Inr (records, Some revocation)))) = Inl (refuse c m)"
  shows "judged L b"
  unfolding judged_def
proof (intro allI impI)
  fix env :: cli_env and dag path
  assume h: "holds_doc L (cl_fs env (path_text dag)) (dag_doc (bu_records b))"
    "holds_doc L (cl_fs env (path_text path)) (chain_doc (bu_chain b))" "path \<noteq> []"
  obtain m where "check_dag L env (verify_dag_command dag path (cred_issuer (hd (bu_chain b))) (bu_at_time b)) = Inl (refuse c m)"
    using judge_files [OF h(1,2) assms(1) h(3)] assms(4) [OF refl] by fastforce
  then show "as_documented b (judge_bundle L env b dag path)"
    using assms(2,3) by (simp add: as_documented_def judge_bundle_def cmd_verify_dag_def report_refusal_def refused_def exn_str_def)
qed

lemma judged_accepted:
  assumes "files_ok (bu_chain b) (bu_records b)" and "bu_verdict b = (if rec_denied (last (bu_records b)) then DENIED else VERIFIED)"
    and "bu_code b = rec_reason (last (bu_records b))" and "bu_at_time b = None" and "dag_valid (bu_records b)"
    and "\<And>clock. verify_chain L (plain_args 8 (cred_issuer (hd (bu_chain b))) clock) (bu_chain b) = Inr REVOCATION_NOT_CHECKED"
    and "cross_check_chain L (bu_records b) (bu_chain b) = Inr ()"
  shows "judged L b"
  unfolding judged_def
proof (intro allI impI)
  fix env :: cli_env and dag path
  assume h: "holds_doc L (cl_fs env (path_text dag)) (dag_doc (bu_records b))"
    "holds_doc L (cl_fs env (path_text path)) (chain_doc (bu_chain b))" "path \<noteq> []"
  let ?args = "verify_dag_command dag path (cred_issuer (hd (bu_chain b))) (bu_at_time b)"
  have "verify_dag (bu_records b) = Inr (bu_records b)" using assms(5) by (simp add: verify_dag_Inr_iff)
  moreover have "(plain_args 8 i c)\<lparr>ca_at_time := None\<rparr> = plain_args 8 i c" for i c by (simp add: plain_args_def)
  ultimately have "check_dag L env ?args = Inr (bu_records b, Some REVOCATION_NOT_CHECKED)"
    using assms(4,6,7) by (simp add: judge_files [OF h(1,2) assms(1) h(3)])
  moreover have "vd_structural_only ?args" by (simp add: verify_dag_command_def)
  moreover have "rs_checked REVOCATION_NOT_CHECKED = False" by (simp add: REVOCATION_NOT_CHECKED_def)
  ultimately show "as_documented b (judge_bundle L env b dag path)"
    using assms(2,3) by (auto simp: as_documented_def judge_bundle_def cmd_verify_dag_def report_refusal_def dag_document_def Let_def
        revocation_fields_def)
qed

section \<open>The five bundles\<close>

lemma plain_action_window [simp]: "window_ok (action_fixture label None None)" "fx_open (action_fixture label None None) now"
  by (simp_all add: window_ok_def window_inverted_def fx_open_def)

lemma built_issuer: "built_by L F scopes chain \<Longrightarrow> chain \<noteq> [] \<Longrightarrow> cred_issuer (hd chain) = fx_public L F 0"
  using built_fields(2) [of L F scopes chain 0] built_length [of L F scopes chain] by (cases scopes) (auto simp: hd_conv_nth)

lemma action_accepted:
  assumes "built_by L (action_fixture label None None) scopes chain" and "scopes_ok scopes" and "narrows scopes"
  shows "verify_chain L (plain_args 8 (fx_public L (action_fixture label None None) 0) clock) chain = Inr REVOCATION_NOT_CHECKED"
  unfolding plain_args_accepts
  by (rule built_chain_valid [OF assms(1)]) (use assms(2,3) in \<open>auto simp: scopes_ok_def ladder_ok_def narrows_def\<close>)

definition bundle_ok :: "action_bundle \<Rightarrow> bool" where
  "bundle_ok b \<longleftrightarrow> bu_chain b \<noteq> [] \<and> files_ok (bu_chain b) (bu_records b) \<and> bu_verdict b \<in> {VERIFIED, INVALID, DENIED} \<and>
     (\<forall>m. bu_code b = Some m \<longrightarrow> list_all encodable m) \<and> (\<forall>t. bu_at_time b = Some t \<longrightarrow> \<bar>t\<bar> \<le> MAX_SAFE_INTEGER)"

lemma bundle_verified_ok:
  assumes "ed25519_correct L"
  shows "\<exists>b. bundle_verified L = Inr b \<and> bundle_ok b \<and> judged L b"
proof -
  obtain chain rs where c: "action_chain L ''action-001'' robot_scopes None None = Inr chain"
    "built_by L (action_fixture ''action-001'' None None) robot_scopes chain" and r: "allow_records chain = Inr rs"
    "records_of (dash_id ''rec'') chain rs" and f: "files_ok chain rs" and ne: "chain \<noteq> []"
    by (rule action_built [OF assms robot_scopes_ok(1) plain_action_window(1)])
  let ?b = "\<lparr>bu_name = str ''action-001-verified'', bu_chain = chain, bu_records = rs, bu_verdict = VERIFIED, bu_code = None, bu_at_time = None\<rparr>"
  obtain p where p: "last rs = hop_record (last chain) (dash_id ''rec'' (length chain - 1)) p" by (rule emitted_last [OF r(2) ne])
  then have "rec_reason (last rs) = None" by (simp add: hop_record_def)
  then have "judged L ?b"
    by (intro judged_accepted) (use f p emitted_dag_valid [OF r(2) ne] emitted_cross_check [OF r(2)]
        action_accepted [OF c(2) robot_scopes_ok] in \<open>simp_all add: built_issuer [OF c(2) ne]\<close>)
  moreover have "bundle_verified L = Inr ?b" by (simp add: bundle_verified_def c(1) r(1))
  ultimately show ?thesis using f ne by (auto simp: bundle_ok_def MAX_SAFE_INTEGER_def)
qed

lemma wrong_hash_encodable: "list_all encodable WRONG_PARENT_HASH"
  by (simp add: WRONG_PARENT_HASH_def list_all_iff encodable_def is_surrogate_def)

text \<open>The forged link is refused unless it happens to be the hash of the first record.\<close>

lemma bundle_parent_mismatch_ok:
  assumes "ed25519_correct L"
  shows "\<exists>b. bundle_parent_mismatch L = Inr b \<and> bundle_ok b \<and>
    (judged L b \<or> record_hash (hd (bu_records b)) = Inr WRONG_PARENT_HASH)"
proof -
  obtain chain rs where c: "action_chain L ''action-002'' robot_scopes None None = Inr chain"
    "built_by L (action_fixture ''action-002'' None None) robot_scopes chain" and r: "allow_records chain = Inr rs"
    "records_of (dash_id ''rec'') chain rs" and f: "files_ok chain rs" and ne: "chain \<noteq> []"
    by (rule action_built [OF assms robot_scopes_ok(1) plain_action_window(1)])
  have "length rs = 2" using built_length [OF c(2)] r(2) by (simp add: records_of_def robot_scopes_def)
  then obtain r0 r1 where rs: "rs = [r0, r1]" by (auto simp: numeral_2_eq_2 length_Suc_conv)
  let ?r1 = "r1\<lparr>rec_parent_hash := Some WRONG_PARENT_HASH\<rparr>"
  let ?b = "\<lparr>bu_name = str ''action-002-parent-hash-mismatch'', bu_chain = chain, bu_records = [r0, ?r1], bu_verdict = INVALID,
    bu_code = Some (str ''PROVENANCE_LINK_BROKEN''), bu_at_time = None\<rparr>"
  have v: "rec_caller_attestation r1 \<in> CALLER_ATTESTATION_VALUES" using f rs by (simp add: files_ok_def)
  have f': "files_ok chain [r0, ?r1]" using f rs by (auto simp: files_ok_def rec_encodable_def wrong_hash_encodable)
  have d: "rec_id r0 \<noteq> rec_id r1" "\<not> rec_denied r0" "rec_parent_hash r0 = None"
    using emitted_dag_valid [OF r(2) ne] by (auto simp: dag_valid_def linked_by_def rs inj_on_def)
  obtain h where h: "record_hash r0 = Inr h" using f rs rec_encodable_hash by (auto simp: files_ok_def)
  have "judged L ?b" if "h \<noteq> WRONG_PARENT_HASH"
  proof (rule judged_refused [where c = ProvenanceLinkBroken])
    have "\<exists>m. verify_dag [r0, ?r1] = Inl (refuse ProvenanceLinkBroken m)"
      using that d h by (simp add: verify_dag_def check_record_def require_def rec_denied_def)
    then show "\<exists>m. bindE (verify_dag (bu_records ?b)) (\<lambda>records.
        bindE (verify_chain L ((plain_args 8 issuer clock)\<lparr>ca_at_time := bu_at_time ?b\<rparr>) (bu_chain ?b)) (\<lambda>revocation.
        bindE (cross_check_chain L records (bu_chain ?b)) (\<lambda>_. Inr (records, Some revocation)))) = Inl (refuse ProvenanceLinkBroken m)"
      for issuer clock by auto
  qed (use f' in simp_all)
  moreover have "bundle_parent_mismatch L = Inr ?b"
    using v by (simp add: bundle_parent_mismatch_def c(1) r(1) rs nthE_def rec_post_init_def)
  ultimately show ?thesis using f' ne h by (auto simp: bundle_ok_def)
qed

lemma bundle_escalation_ok:
  assumes "ed25519_correct L"
  shows "\<exists>b. bundle_escalation L = Inr b \<and> bundle_ok b \<and> judged L b"
proof -
  obtain chain rs where c: "action_chain L ''action-010'' fly_scopes None None = Inr chain"
    "built_by L (action_fixture ''action-010'' None None) fly_scopes chain" and r: "allow_records chain = Inr rs"
    "records_of (dash_id ''rec'') chain rs" and f: "files_ok chain rs" and ne: "chain \<noteq> []"
    by (rule action_built [OF assms fly_scopes_ok(1) plain_action_window(1)])
  let ?b = "\<lparr>bu_name = str ''action-010-scope-escalation'', bu_chain = chain, bu_records = rs, bu_verdict = INVALID,
    bu_code = Some (str ''SCOPE_ESCALATION''), bu_at_time = None\<rparr>"
  have v: "verify_dag rs = Inr rs" using emitted_dag_valid [OF r(2) ne] by (simp add: verify_dag_Inr_iff inj_on_def)
  have e: "verify_chain L (plain_args 8 (fx_public L (action_fixture ''action-010'' None None) 0) clock) chain =
      Inl (refuse ScopeEscalation (hop_msg 1 '' scope exceeds parent grant''))" for clock
    by (rule built_escalates [OF c(2)]) (use fly_scopes_ok in \<open>auto simp: widens_at_def narrows_def fly_scopes_def inj_on_def\<close>)
  have at: "(plain_args 8 i now)\<lparr>ca_at_time := None\<rparr> = plain_args 8 i now" for i now by (simp add: plain_args_def)
  have "judged L ?b"
    by (rule judged_refused [where c = ScopeEscalation]) (use f in \<open>simp_all add: v e at built_issuer [OF c(2) ne]\<close>)
  moreover have "bundle_escalation L = Inr ?b" by (simp add: bundle_escalation_def c(1) r(1))
  ultimately show ?thesis using f ne by (auto simp: bundle_ok_def MAX_SAFE_INTEGER_def)
qed

lemma denied_id_fresh: "str ''rec-denied-purchase'' \<noteq> dash_id ''rec'' i"
proof
  assume "str ''rec-denied-purchase'' = dash_id ''rec'' i"
  then have "hd (nat_str i) = 100" by (auto simp: dash_id_def str_def dest: arg_cong [where f = hd] sym)
  with nat_str_hd [of i] show False by (simp add: is_digit_def)
qed

lemma bundle_denial_ok:
  assumes "ed25519_correct L"
  shows "\<exists>b. bundle_denial L = Inr b \<and> bundle_ok b \<and> judged L b"
proof -
  obtain chain rs where c: "action_chain L ''action-006'' purchase_scopes None None = Inr chain"
    "built_by L (action_fixture ''action-006'' None None) purchase_scopes chain" and r: "allow_records chain = Inr rs"
    "records_of (dash_id ''rec'') chain rs" and f: "files_ok chain rs" and ne: "chain \<noteq> []"
    by (rule action_built [OF assms purchase_scopes_ok(1) plain_action_window(1)])
  obtain p where p: "last rs = hop_record (last chain) (dash_id ''rec'' (length chain - 1)) p" "rs \<noteq> []" by (rule emitted_last [OF r(2) ne])
  have "rec_encodable (last rs)" using f p(2) by (simp add: files_ok_def list_all_iff)
  then obtain h where h: "record_hash (last rs) = Inr h" "list_all encodable h" using rec_encodable_hash encodable_lower_hex by blast
  let ?d = "\<lparr>rec_id = str ''rec-denied-purchase'', rec_credential_id = cred_id (last chain), rec_subject = cred_subject (last chain),
    rec_scope = cred_scope (last chain), rec_parent_hash = Some h, rec_decision = DENY, rec_requested = Some (str ''tool:purchase''),
    rec_effective = Some (cred_scope (last chain)), rec_reason = Some PURCHASE_REASON, rec_caller_attestation = CALLER_NOT_OFFERED\<rparr>"
  let ?b = "\<lparr>bu_name = str ''action-006-policy-denial'', bu_chain = chain, bu_records = rs @ [?d], bu_verdict = DENIED,
    bu_code = Some PURCHASE_REASON, bu_at_time = None\<rparr>"
  have "cred_encodable (last chain)" using f ne by (simp add: files_ok_def)
  then have "rec_encodable ?d" using h(2) by (simp add: rec_encodable_def cred_encodable_def PURCHASE_REASON_def)
  with f have f': "files_ok chain (rs @ [?d])" by (simp add: files_ok_def)
  have d: "dag_valid (rs @ [?d])" and x: "cross_check_chain L (rs @ [?d]) chain = Inr ()"
    by (rule denial_extends [OF r(2) ne]; use h(1) in \<open>simp add: denied_id_fresh rec_denied_def\<close>)+
  have "judged L ?b"
    by (rule judged_accepted) (use f' d x action_accepted [OF c(2) purchase_scopes_ok] in \<open>simp_all add: built_issuer [OF c(2) ne] rec_denied_def\<close>)
  moreover have "bundle_denial L = Inr ?b"
    using ne p(2) h(1) by (simp add: bundle_denial_def c(1) r(1) denial_record_for_def rec_post_init_def)
  ultimately show ?thesis using f' ne by (auto simp: bundle_ok_def PURCHASE_REASON_def)
qed

lemma bundle_expired_ok:
  assumes "ed25519_correct L"
  shows "\<exists>b. bundle_expired L = Inr b \<and> bundle_ok b \<and> judged L b"
proof -
  let ?F = "action_fixture ''action-012'' (Some 1000) (Some 2000)"
  have w: "window_ok ?F" by (simp add: window_ok_def window_inverted_def MAX_SAFE_INTEGER_def)
  obtain chain rs where c: "action_chain L ''action-012'' robot_scopes (Some 1000) (Some 2000) = Inr chain"
    "built_by L ?F robot_scopes chain" and r: "allow_records chain = Inr rs"
    "records_of (dash_id ''rec'') chain rs" and f: "files_ok chain rs" and ne: "chain \<noteq> []"
    by (rule action_built [OF assms robot_scopes_ok(1) w])
  let ?b = "\<lparr>bu_name = str ''action-012-credential-expired'', bu_chain = chain, bu_records = rs, bu_verdict = INVALID,
    bu_code = Some (str ''CREDENTIAL_EXPIRED''), bu_at_time = Some 3000\<rparr>"
  have v: "verify_dag rs = Inr rs" using emitted_dag_valid [OF r(2) ne] by (simp add: verify_dag_Inr_iff inj_on_def)
  obtain c0 cs where chain: "chain = c0 # cs" using ne by (cases chain) auto
  note b0 = built_fields [OF c(2), of 0, unfolded chain, simplified]
  have "robot_scopes \<noteq> []" by (simp add: robot_scopes_def)
  then have "cred_signed L c0" "cred_not_before c0 = Some 1000" "cred_not_after c0 = Some 2000" using b0 by auto
  then have e: "verify_chain L ((plain_args 8 (cred_issuer c0) clock)\<lparr>ca_at_time := Some 3000\<rparr>) chain =
      Inl (refuse CredentialExpired (hop_msg 0 '' credential has expired''))" for clock
    by (simp add: chain verify_chain_def plain_args_def eval_time_def check_hop_def check_window_def cred_signed_def require_def)
  have "judged L ?b"
    by (rule judged_refused [where c = CredentialExpired]) (use f in \<open>simp_all add: v chain\<close>, use e chain in auto)
  moreover have "bundle_expired L = Inr ?b" by (simp add: bundle_expired_def c(1) r(1))
  ultimately show ?thesis using f ne by (auto simp: bundle_ok_def MAX_SAFE_INTEGER_def)
qed

section \<open>The files\<close>

lemma join_two: "join sep (xs @ [a, b]) = (if xs = [] then [] else join sep xs @ sep) @ a @ sep @ b"
  by (induction xs) (auto simp: join_Cons)

lemma action_path_eq:
  "action_path dir n f = (fst dir @ (if snd dir = [] then [] else join (str ''/'') (snd dir) @ str ''/'')) @ n @ str ''/'' @ str f"
  by (simp add: action_path_def path_str_def join_two)

lemma expected_doc_ok:
  assumes "bundle_ok b"
  shows "json_ok (expected_doc b)" "json_wf (expected_doc b)"
proof -
  have "hd (bu_chain b) \<in> set (bu_chain b)" using assms by (simp add: bundle_ok_def)
  then have "list_all encodable (cred_issuer (hd (bu_chain b)))" using assms by (auto simp: bundle_ok_def files_ok_def cred_encodable_def)
  with assms show "json_ok (expected_doc b)"
    by (auto simp: expected_doc_def bundle_ok_def VERIFIED_def INVALID_def DENIED_def verdict_of_def opt_str_def abs_le_iff split: option.split)
  show "json_wf (expected_doc b)"
    using assms by (auto simp: expected_doc_def bundle_ok_def VERIFIED_def INVALID_def DENIED_def verdict_of_def opt_str_def split: option.split)
qed

lemma bundle_docs_ok:
  assumes "bundle_ok b" and "(p, doc) \<in> set (bundle_docs dir b)"
  shows "json_ok doc" "json_wf doc"
proof -
  note c = chain_doc_ok [of "bu_chain b"] and d = dag_doc_ok [of "bu_records b"] and e = expected_doc_ok [OF assms(1)]
  show "json_ok doc" "json_wf doc" using assms c(1,2) d e by (auto simp: bundle_docs_def bundle_ok_def files_ok_def)
qed

text \<open>A text that is written as it is read.\<close>

definition stable_text :: "ustr \<Rightarrow> bool" where
  "stable_text content \<longleftrightarrow> (\<exists>raw. utf8 content = Some raw) \<and> universal_newlines content = content"

lemma write_files_spec:
  assumes "distinct (map fst files)" and "\<forall>(p, content) \<in> set files. stable_text content" and "\<And>p. dk_writable D p"
  shows "\<exists>D'. write_files files D = Inr D' \<and> (\<forall>(p, content) \<in> set files. \<exists>raw. dk_files D' p = Contents raw \<and> utf8 content = Some raw) \<and>
    (\<forall>p. p \<notin> fst ` set files \<longrightarrow> dk_files D' p = dk_files D p)"
  using assms
proof (induction files arbitrary: D)
  case (Cons f files)
  obtain p content where f: "f = (p, content)" by force
  with Cons.prems obtain raw where raw: "utf8 content = Some raw" by (auto simp: stable_text_def)
  let ?D = "D\<lparr>dk_files := (dk_files D)(p := Contents raw)\<rparr>"
  have "write_text p content D = Inr ?D" using raw Cons.prems(3) by (simp add: write_text_def require_def)
  moreover obtain D' where D': "write_files files ?D = Inr D'"
    "\<forall>(p, content) \<in> set files. \<exists>raw. dk_files D' p = Contents raw \<and> utf8 content = Some raw"
    "\<forall>q. q \<notin> fst ` set files \<longrightarrow> dk_files D' q = dk_files ?D q"
    using Cons.IH [of ?D] Cons.prems by auto
  moreover have "dk_files D' p = Contents raw" using D'(3) Cons.prems(1) f by simp
  ultimately show ?case using f raw by (intro exI [of _ D']) auto
qed simp

lemma stale_false: "dk_files D p = Contents raw \<Longrightarrow> utf8 content = Some raw \<Longrightarrow> stable_text content \<Longrightarrow> stale D (p, content) = Inr False"
  by (simp add: stale_def stable_text_def utf8_decode_encode)

lemma first_slash: "47 \<notin> set n \<Longrightarrow> 47 \<notin> set m \<Longrightarrow> n @ 47 # f = m @ 47 # g \<longleftrightarrow> n = m \<and> f = g"
proof (induction n arbitrary: m)
  case Nil
  then show ?case by (cases m) auto
next
  case (Cons c n)
  then show ?case by (cases m) auto
qed

lemma action_path_inj:
  "47 \<notin> set n \<Longrightarrow> 47 \<notin> set m \<Longrightarrow> action_path dir n f = action_path dir m g \<longleftrightarrow> n = m \<and> f = g"
  using first_slash [of n m "str f" "str g"] by (simp add: action_path_eq str_simps)

definition ACTION_NAMES :: "ustr list" where
  "ACTION_NAMES = map str [''action-001-verified'', ''action-002-parent-hash-mismatch'', ''action-006-policy-denial'',
     ''action-010-scope-escalation'', ''action-012-credential-expired'']"

lemma action_names: "distinct ACTION_NAMES" "\<forall>n \<in> set ACTION_NAMES. 47 \<notin> set n"
  by (simp_all add: ACTION_NAMES_def) (simp add: str_def)

lemma action_bundles_ok:
  assumes "ed25519_correct L"
  obtains bs where "action_bundles L = Inr bs" and "map bu_name bs = ACTION_NAMES"
    and "\<forall>b \<in> set bs. bundle_ok b \<and> (judged L b \<or> record_hash (hd (bu_records b)) = Inr WRONG_PARENT_HASH)"
proof -
  obtain b1 b2 b3 b4 b5 where b: "bundle_verified L = Inr b1" "bundle_parent_mismatch L = Inr b2" "bundle_denial L = Inr b3"
    "bundle_escalation L = Inr b4" "bundle_expired L = Inr b5"
    and ok: "bundle_ok b1 \<and> judged L b1" "bundle_ok b2 \<and> (judged L b2 \<or> record_hash (hd (bu_records b2)) = Inr WRONG_PARENT_HASH)"
      "bundle_ok b3 \<and> judged L b3" "bundle_ok b4 \<and> judged L b4" "bundle_ok b5 \<and> judged L b5"
    using bundle_verified_ok [OF assms] bundle_parent_mismatch_ok [OF assms] bundle_denial_ok [OF assms] bundle_escalation_ok [OF assms]
      bundle_expired_ok [OF assms] by blast
  have "bu_name b1 = str ''action-001-verified''" "bu_name b2 = str ''action-002-parent-hash-mismatch''"
    "bu_name b3 = str ''action-006-policy-denial''" "bu_name b4 = str ''action-010-scope-escalation''"
    "bu_name b5 = str ''action-012-credential-expired''"
    using b by (auto simp: bundle_verified_def bundle_parent_mismatch_def bundle_denial_def bundle_escalation_def bundle_expired_def guard_simps)
  with b ok that [of "[b1, b2, b3, b4, b5]"] show thesis by (simp add: action_bundles_def ACTION_NAMES_def)
qed

lemma docs_distinct:
  assumes "distinct (map bu_name bs)" and "\<forall>b \<in> set bs. 47 \<notin> set (bu_name b)"
  shows "distinct (map fst (concat (map (bundle_docs dir) bs)))"
  using assms
proof (induction bs)
  case (Cons b bs)
  have "p \<notin> fst ` set (concat (map (bundle_docs dir) bs))" if "p \<in> fst ` set (bundle_docs dir b)" for p
    using that Cons.prems by (auto simp: bundle_docs_def action_path_inj dest: sym intro: rev_image_eqI)
  moreover have "distinct (map fst (bundle_docs dir b))" using Cons.prems by (simp add: bundle_docs_def action_path_inj)
  ultimately show ?case using Cons by (auto simp del: set_concat)
qed simp

lemma all2_members:
  assumes "list_all2 R ys xs"
  shows "\<forall>y \<in> set ys. \<exists>x \<in> set xs. R y x" "\<forall>x \<in> set xs. \<exists>y \<in> set ys. R y x"
  using assms by (induction rule: list_all2_induct) auto

lemma bundle_files_ok:
  assumes "ed25519_correct L"
  obtains bs files where "action_bundles L = Inr bs" and "bundle_files L dir = Inr files" and "distinct (map fst files)"
    and "\<forall>(p, content) \<in> set files. stable_text content"
    and "\<forall>b \<in> set bs. bundle_ok b \<and> (judged L b \<or> record_hash (hd (bu_records b)) = Inr WRONG_PARENT_HASH)"
    and "\<forall>b \<in> set bs. \<forall>(p, doc) \<in> set (bundle_docs dir b). \<exists>content. (p, content) \<in> set files \<and>
      (\<forall>raw. utf8 content = Some raw \<longrightarrow> holds_doc L (Contents raw) doc)"
proof -
  obtain bs where bs: "action_bundles L = Inr bs" "map bu_name bs = ACTION_NAMES"
    and ok: "\<forall>b \<in> set bs. bundle_ok b \<and> (judged L b \<or> record_hash (hd (bu_records b)) = Inr WRONG_PARENT_HASH)"
    by (rule action_bundles_ok [OF assms])
  let ?docs = "concat (map (bundle_docs dir) bs)"
  let ?f = "\<lambda>(p, doc). bindE (dump_indented L 0 doc) (\<lambda>t. Inr (p, t @ [10]))"
  have "\<exists>y. ?f x = Inr y \<and> (fst y = fst x \<and> stable_text (snd y) \<and> (\<forall>raw. utf8 (snd y) = Some raw \<longrightarrow> holds_doc L (Contents raw) (snd x)))"
    if "x \<in> set ?docs" for x
  proof -
    obtain p doc where x: "x = (p, doc)" by force
    with that ok obtain b where "bundle_ok b" "(p, doc) \<in> set (bundle_docs dir b)" by auto
    note j = bundle_docs_ok [OF this]
    have nl: "blank [10]" "list_all file_char [10]" by (simp_all add: json_ws_def file_char_def)
    obtain t raw where "dump_indented L 0 doc = Inr t" "utf8 (t @ [10]) = Some raw" "universal_newlines (t @ [10]) = t @ [10]"
      "\<forall>d c name path. read_json L d c name path (Contents raw) = Inr doc"
      by (rule pretty_file_reads [where L = L, OF j nl])
    then show ?thesis by (simp add: x stable_text_def holds_doc_def)
  qed
  from traverseE_ex [of ?docs ?f, OF this] obtain files where files: "traverseE ?f ?docs = Inr files"
    and all: "list_all2 (\<lambda>y x. fst y = fst x \<and> stable_text (snd y) \<and>
      (\<forall>raw. utf8 (snd y) = Some raw \<longrightarrow> holds_doc L (Contents raw) (snd x))) files ?docs" by blast
  have "list_all2 (\<lambda>y x. fst y = fst x) files ?docs" using all by (rule list_all2_mono) blast
  then have "map fst files = map fst ?docs" by (induction rule: list_all2_induct) simp_all
  moreover have "distinct (map bu_name bs)" "\<forall>b \<in> set bs. 47 \<notin> set (bu_name b)" using action_names unfolding bs(2) [symmetric] by auto
  ultimately have "distinct (map fst files)" using docs_distinct by metis
  moreover have "bundle_files L dir = Inr files" using bs(1) files ok by (auto simp: bundle_files_def require_def bundle_ok_def)
  moreover have "\<forall>(p, content) \<in> set files. stable_text content" using all2_members(1) [OF all] by auto
  moreover have "\<forall>b \<in> set bs. \<forall>(p, doc) \<in> set (bundle_docs dir b). \<exists>content. (p, content) \<in> set files \<and>
      (\<forall>raw. utf8 content = Some raw \<longrightarrow> holds_doc L (Contents raw) doc)"
  proof (intro ballI)
    fix b x assume "b \<in> set bs" "x \<in> set (bundle_docs dir b)"
    then have "x \<in> set ?docs" by auto
    with all2_members(2) [OF all] obtain y where "y \<in> set files" "fst y = fst x"
      "\<forall>raw. utf8 (snd y) = Some raw \<longrightarrow> holds_doc L (Contents raw) (snd x)" by blast
    then show "case x of (p, doc) \<Rightarrow> \<exists>content. (p, content) \<in> set files \<and> (\<forall>raw. utf8 content = Some raw \<longrightarrow> holds_doc L (Contents raw) doc)"
      unfolding split_beta by (metis prod.collapse)
  qed
  ultimately show thesis using that [OF bs(1)] ok by blast
qed

section \<open>Properties\<close>

text \<open>
  The offline fixtures are what they document. After the generator has written the bundles its check mode
  finds them in sync and changes nothing, and \<open>ca2a verify-dag\<close> run on the written files, with the arguments
  \<open>expected.json\<close> gives, answers every bundle with the documented exit code, error code and denial; the one
  exception would be a first record of the forged bundle that hashes to sixty-four zeros.
\<close>

theorem action_fixtures_documented:
  assumes "ed25519_correct L" and "\<And>p. dk_writable D p"
  shows "\<exists>bs D'. action_bundles L = Inr bs \<and> map bu_name bs = ACTION_NAMES \<and>
    action_main L dir False D = Inr (0, D') \<and> action_main L dir True D' = Inr (0, D') \<and>
    (\<forall>b \<in> set bs. \<forall>env dag path.
       cl_fs env = dk_files D' \<and> path \<noteq> [] \<and> path_text dag = action_path dir (bu_name b) ''dag.json'' \<and>
       path_text path = action_path dir (bu_name b) ''chain.json'' \<longrightarrow>
       as_documented b (judge_bundle L env b dag path) \<or> record_hash (hd (bu_records b)) = Inr WRONG_PARENT_HASH)"
proof -
  obtain bs files where bs: "action_bundles L = Inr bs" and files: "bundle_files L dir = Inr files" "distinct (map fst files)"
    "\<forall>(p, content) \<in> set files. stable_text content"
    and ok: "\<forall>b \<in> set bs. bundle_ok b \<and> (judged L b \<or> record_hash (hd (bu_records b)) = Inr WRONG_PARENT_HASH)"
    and docs: "\<forall>b \<in> set bs. \<forall>(p, doc) \<in> set (bundle_docs dir b). \<exists>content. (p, content) \<in> set files \<and>
      (\<forall>raw. utf8 content = Some raw \<longrightarrow> holds_doc L (Contents raw) doc)"
    by (rule bundle_files_ok [OF assms(1)])
  have names: "map bu_name bs = ACTION_NAMES" using action_bundles_ok [OF assms(1)] bs by (metis sum.inject(2))
  obtain D' where D': "write_files files D = Inr D'"
    "\<forall>(p, content) \<in> set files. \<exists>raw. dk_files D' p = Contents raw \<and> utf8 content = Some raw"
    using write_files_spec [OF files(2,3) assms(2)] by blast
  have held: "holds_doc L (dk_files D' p) doc" if a: "b \<in> set bs" "(p, doc) \<in> set (bundle_docs dir b)" for b p doc
  proof -
    obtain content where c: "(p, content) \<in> set files" "\<forall>raw. utf8 content = Some raw \<longrightarrow> holds_doc L (Contents raw) doc"
      using docs a by blast
    with D'(2) show ?thesis by fastforce
  qed
  have "traverseE (stale D') files = Inr (map (\<lambda>_. False) files)"
    using D'(2) files(3) stale_false by (intro traverseE_all) fastforce
  then have "action_main L dir True D' = Inr (0, D')" by (simp add: action_main_def files(1) list_ex_iff)
  moreover have "action_main L dir False D = Inr (0, D')" by (simp add: action_main_def files(1) D'(1))
  moreover have "as_documented b (judge_bundle L env b dag path) \<or> record_hash (hd (bu_records b)) = Inr WRONG_PARENT_HASH"
    if "b \<in> set bs" "cl_fs env = dk_files D'" "path \<noteq> []" "path_text dag = action_path dir (bu_name b) ''dag.json''"
      "path_text path = action_path dir (bu_name b) ''chain.json''" for b env dag path
    using that ok held [OF that(1)] by (auto simp: judged_def bundle_docs_def)
  ultimately show ?thesis using bs names by blast
qed

theorem action_fixtures_documented_witness:
  "\<exists>bs D'. action_main sample_lib (str ''/'', []) False \<lparr>dk_files = \<lambda>_. Absent, dk_writable = \<lambda>_. True\<rparr> = Inr (0, D') \<and>
    action_main sample_lib (str ''/'', []) True D' = Inr (0, D') \<and> action_bundles sample_lib = Inr bs \<and> map bu_name bs = ACTION_NAMES"
  using action_fixtures_documented [OF sample_ed25519, of "\<lparr>dk_files = \<lambda>_. Absent, dk_writable = \<lambda>_. True\<rparr>" "(str ''/'', [])"] by force

end
