(* ===== verification/Demos.thy ===== *)
theory Demos
  imports Action_Fixtures
begin

text \<open>
  Two runs over provenance records: the experiment \<open>experiments/claim5-provenance-dag-integrity/run.py\<close> and
  the demo \<open>examples/rejection-with-proof/demo.py\<close>, which refuses a call, writes the evidence and verifies it
  again through the command line. Keys, clocks and the interpreter's \<open>repr\<close> are arguments. The
  theorems say that the runs succeed for every choice of keys, and that the only way for the tampering
  to go unnoticed is a SHA-256 collision.
\<close>

section \<open>Claim 5: integrity of the record chain\<close>

definition claim5_build_chain :: "lib \<Rightarrow> (nat \<Rightarrow> bytes) \<Rightarrow> ustr fset list \<Rightarrow> delegation_credential list res" where
  "claim5_build_chain L key scopes = signed_hops L (plain_fixture key (dash_id ''cred'')) 0 scopes None"

definition records_from_chain :: "delegation_credential list \<Rightarrow> delegation_record list res" where
  "records_from_chain chain = emit_records (dash_id ''rec'') 0 None chain"

text \<open>\<open>bin(a ^ b).count("1")\<close> over the two digests; \<open>zip(strict=True)\<close> refuses different lengths.\<close>

definition byte_distance :: "byte \<Rightarrow> byte \<Rightarrow> nat" where
  "byte_distance a b = length (filter (\<lambda>i. bit a i \<noteq> bit b i) [0..<8])"

definition bits_different :: "ustr \<Rightarrow> ustr \<Rightarrow> nat res" where
  "bits_different h1 h2 =
     bindE (expect (fromhex h1) (PyExn ValueError)) (\<lambda>b1.
     bindE (expect (fromhex h2) (PyExn ValueError)) (\<lambda>b2.
     bindE (require (length b1 = length b2) (PyExn ValueError)) (\<lambda>_.
     Inr (sum_list (map2 byte_distance b1 b2)))))"

text \<open>\<open>DelegationRecord(...)\<close> with the given five fields and the defaults of the others.\<close>

definition plain_record :: "ustr \<Rightarrow> ustr \<Rightarrow> ustr \<Rightarrow> ustr fset \<Rightarrow> ustr option \<Rightarrow> delegation_record res" where
  "plain_record record_id credential_id subject scope parent_hash =
     rec_post_init \<lparr>rec_id = record_id, rec_credential_id = credential_id, rec_subject = subject, rec_scope = scope,
       rec_parent_hash = parent_hash, rec_decision = ALLOW, rec_requested = None, rec_effective = None, rec_reason = None,
       rec_caller_attestation = CALLER_NOT_OFFERED\<rparr>"

text \<open>\<open>try: ... except ProvenanceLinkBroken\<close>: whether it was raised.\<close>

definition link_break_caught :: "'a res \<Rightarrow> bool res" where
  "link_break_caught r = (case r of Inr _ \<Rightarrow> Inr False | Inl e \<Rightarrow> if is_class ProvenanceLinkBroken e then Inr True else Inl e)"

definition claim5_scopes :: "ustr fset list" where
  "claim5_scopes = [{|str ''cap:a'', str ''cap:b'', str ''cap:c''|}, {|str ''cap:a'', str ''cap:b''|}, {|str ''cap:a''|}]"

text \<open>The exit code and the number of changed bits that is printed.\<close>

definition claim5_main :: "lib \<Rightarrow> (nat \<Rightarrow> bytes) \<Rightarrow> (int \<times> nat) res" where
  "claim5_main L key =
     bindE (claim5_build_chain L key claim5_scopes) (\<lambda>chain.
     bindE (records_from_chain chain) (\<lambda>records.
     bindE (verify_dag records) (\<lambda>verified.
     let accepted = (verified = records) in
     bindE (nthE records 0) (\<lambda>root. bindE (nthE records 1) (\<lambda>original. bindE (nthE records 2) (\<lambda>leaf.
     bindE (record_hash original) (\<lambda>original_hash.
     bindE (plain_record (rec_id original) (rec_credential_id original) (rec_subject original)
              (rec_scope original |\<union>| {|str ''cap:injected''|}) (rec_parent_hash original)) (\<lambda>tampered.
     bindE (record_hash tampered) (\<lambda>tampered_hash.
     bindE (bits_different original_hash tampered_hash) (\<lambda>diff.
     bindE (link_break_caught (verify_dag (records[1 := tampered]))) (\<lambda>tamper_caught.
     bindE (record_hash root) (\<lambda>root_hash.
     bindE (plain_record (rec_id leaf) (rec_credential_id leaf) (rec_subject leaf) (rec_scope leaf) (Some root_hash)) (\<lambda>reparented.
     bindE (link_break_caught (verify_dag (records[2 := reparented]))) (\<lambda>reparent_caught.
     bindE (link_break_caught (cross_check_chain L records chain)) (\<lambda>misaligned.
     bindE (plain_record (rec_id root) (str ''FORGED-CRED-ID'') (rec_subject root) (rec_scope root) None) (\<lambda>forged.
     bindE (link_break_caught (cross_check_chain L (records[0 := forged]) chain)) (\<lambda>mismatch_caught.
     Inr (if accepted \<and> tamper_caught \<and> reparent_caught \<and> \<not> misaligned \<and> mismatch_caught then 0 else 1, diff))))))))))))))))))"

lemma byte_distance_le: "byte_distance a b \<le> 8"
  using length_filter_le [of "\<lambda>i. bit a i \<noteq> bit b i" "[0..<8]"] by (simp add: byte_distance_def)

lemma byte_distance_pos: "a \<noteq> b \<Longrightarrow> 0 < byte_distance a b"
proof (rule ccontr)
  assume "a \<noteq> b" and "\<not> 0 < byte_distance a b"
  then have "\<forall>i < 8. bit a i = bit b i" by (auto simp: byte_distance_def filter_empty_conv)
  then have "a = b" by (intro bit_word_eqI) simp
  with \<open>a \<noteq> b\<close> show False by blast
qed

lemma distance_le: "sum_list (map2 byte_distance xs ys) \<le> 8 * length xs"
proof (induction xs arbitrary: ys)
  case (Cons x xs)
  show ?case
  proof (cases ys)
    case (Cons y ys')
    then show ?thesis using Cons.IH [of ys'] byte_distance_le [of x y] by simp
  qed simp
qed simp

lemma distance_pos: "length xs = length ys \<Longrightarrow> xs \<noteq> ys \<Longrightarrow> 0 < sum_list (map2 byte_distance xs ys)"
proof (induction xs ys rule: list_induct2)
  case (Cons x xs y ys)
  then show ?case using byte_distance_pos [of x y] by (cases "x = y") auto
qed simp

text \<open>Two different digests differ in at least one and at most 256 bits.\<close>

lemma bits_different_bounds:
  assumes "record_hash r = Inr g" and "record_hash s = Inr h"
  obtains n where "bits_different g h = Inr n" and "n \<le> 256" and "g \<noteq> h \<longrightarrow> 0 < n"
proof -
  obtain a b where g: "g = hex (sha256 a)" and h: "h = hex (sha256 b)"
    using assms by (auto simp: record_hash_def sha256_hex_def bindE_Inr_iff)
  let ?n = "sum_list (map2 byte_distance (sha256 a) (sha256 b))"
  have "bits_different g h = Inr ?n" by (simp add: bits_different_def g h)
  moreover have "?n \<le> 256" using distance_le [of "sha256 a" "sha256 b"] by simp
  moreover have "g \<noteq> h \<longrightarrow> 0 < ?n" using distance_pos [of "sha256 a" "sha256 b"] g h by auto
  ultimately show thesis by (rule that)
qed

lemma claim5_ladder: "ladder_ok 8 claim5_scopes" "narrows claim5_scopes"
  by (simp_all add: claim5_scopes_def ladder_ok_def narrows_def MAX_SAFE_INTEGER_def)

text \<open>Three linked records, and what becomes of them when one is replaced.\<close>

lemma broken_second:
  assumes "dag_valid [r0, r1, r2]" and "rec_id r1' = rec_id r1" and "\<not> rec_denied r1'" and "rec_parent_hash r1' = rec_parent_hash r1"
    and "record_hash r1' = Inr h" and "rec_parent_hash r2 \<noteq> Some h"
  shows "link_break_caught (verify_dag [r0, r1', r2]) = Inr True"
proof -
  obtain g where "record_hash r0 = Inr g" "rec_parent_hash r1 = Some g" using assms(1) by (auto simp: dag_valid_def linked_by_def)
  then show ?thesis using assms
    by (auto simp: link_break_caught_def verify_dag_def check_record_def require_def dag_valid_def linked_by_def)
qed

lemma broken_third:
  assumes "dag_valid [r0, r1, r2]" and "rec_id r2' = rec_id r2" and "record_hash r1 = Inr h" and "rec_parent_hash r2' \<noteq> Some h"
  shows "link_break_caught (verify_dag [r0, r1, r2']) = Inr True"
proof -
  obtain g where "record_hash r0 = Inr g" "rec_parent_hash r1 = Some g" using assms(1) by (auto simp: dag_valid_def linked_by_def)
  then show ?thesis using assms
    by (auto simp: link_break_caught_def verify_dag_def check_record_def require_def dag_valid_def linked_by_def)
qed

lemma plain_record_ok: "plain_record i c s sc p = Inr \<lparr>rec_id = i, rec_credential_id = c, rec_subject = s, rec_scope = sc,
    rec_parent_hash = p, rec_decision = ALLOW, rec_requested = None, rec_effective = None, rec_reason = None,
    rec_caller_attestation = CALLER_NOT_OFFERED\<rparr>"
  by (simp add: plain_record_def rec_post_init_def)

lemma three_records:
  assumes "records_of ident [c0, c1, c2] rs" and "inj_on ident {..<3}"
  obtains h0 h1 where "rs = [hop_record c0 (ident 0) None, hop_record c1 (ident 1) (Some h0), hop_record c2 (ident 2) (Some h1)]"
    and "record_hash (hop_record c0 (ident 0) None) = Inr h0" and "record_hash (hop_record c1 (ident 1) (Some h0)) = Inr h1"
    and "dag_valid rs" and "list_all rec_encodable rs"
proof -
  have n: "\<exists>p. rs ! i = hop_record ([c0, c1, c2] ! i) (ident i) p" if "i < 3" for i using assms(1) that by (simp add: records_of_def)
  obtain p0 where p0: "rs ! 0 = hop_record c0 (ident 0) p0" using n [of 0] by auto
  obtain p1 where p1: "rs ! 1 = hop_record c1 (ident 1) p1" using n [of 1] by auto
  obtain p2 where p2: "rs ! 2 = hop_record c2 (ident 2) p2" using n [of 2] by auto
  have "length rs = 3" using assms(1) by (simp add: records_of_def)
  then have rs: "rs = [hop_record c0 (ident 0) p0, hop_record c1 (ident 1) p1, hop_record c2 (ident 2) p2]"
    using p0 p1 p2 by (auto simp: numeral_3_eq_3 numeral_2_eq_2 length_Suc_conv)
  have v: "dag_valid rs" using emitted_dag_valid [OF assms(1)] assms(2) by (simp add: numeral_3_eq_3)
  then obtain h0 h1 where "p0 = None" "p1 = Some h0" "p2 = Some h1" "record_hash (hop_record c0 (ident 0) p0) = Inr h0"
    "record_hash (hop_record c1 (ident 1) p1) = Inr h1" by (auto simp: dag_valid_def linked_by_def rs)
  with rs v assms(1) that show thesis by (simp add: records_of_def)
qed

lemma claim5_setup:
  assumes "ed25519_correct L"
  obtains c0 c1 c2 rs where "claim5_build_chain L key claim5_scopes = Inr [c0, c1, c2]" and "records_from_chain [c0, c1, c2] = Inr rs"
    and "records_of (dash_id ''rec'') [c0, c1, c2] rs" and "cred_scope c1 = {|str ''cap:a'', str ''cap:b''|}" and "cred_id c0 = dash_id ''cred'' 0"
proof -
  let ?F = "plain_fixture key (dash_id ''cred'')"
  obtain chain where c: "signed_hops L ?F 0 claim5_scopes None = Inr chain" and b: "built_by L ?F claim5_scopes chain"
    by (rule ladder_built [OF assms claim5_ladder(1)])
  have "fixture_ok ?F claim5_scopes" using claim5_ladder(1) by (intro dash_fixture) (auto simp: ladder_ok_def)
  then have enc: "\<forall>c \<in> set chain. cred_encodable c" using built_encodable [OF b] by blast
  obtain rs where r: "emit_records (dash_id ''rec'') 0 None chain = Inr rs" "records_of (dash_id ''rec'') chain rs"
    by (rule emit_records_emitted [OF enc dash_id_encodable])
  have "length chain = 3" using built_length [OF b] by (simp add: claim5_scopes_def)
  then obtain c0 c1 c2 where chain: "chain = [c0, c1, c2]" by (auto simp: numeral_3_eq_3 length_Suc_conv)
  have "cred_scope c1 = {|str ''cap:a'', str ''cap:b''|}" using built_fields(4) [OF b, of 1] by (simp add: chain claim5_scopes_def)
  moreover have "cred_id c0 = dash_id ''cred'' 0" using built_fields(1) [OF b, of 0] by (simp add: chain claim5_scopes_def)
  ultimately show thesis using that c r unfolding claim5_build_chain_def records_from_chain_def chain by blast
qed

text \<open>With distinct hashes every check of the run comes out as expected.\<close>

lemma claim5_detects:
  fixes h0 h1 :: ustr and c0 c1 c2 :: delegation_credential
  defines "r0 \<equiv> hop_record c0 (dash_id ''rec'' 0) None" and "r1 \<equiv> hop_record c1 (dash_id ''rec'' 1) (Some h0)"
    and "r2 \<equiv> hop_record c2 (dash_id ''rec'' 2) (Some h1)"
  defines "t \<equiv> r1\<lparr>rec_scope := finsert (str ''cap:injected'') (rec_scope r1)\<rparr>"
  assumes c: "claim5_build_chain L key claim5_scopes = Inr [c0, c1, c2]" and r: "records_from_chain [c0, c1, c2] = Inr [r0, r1, r2]"
    and e: "records_of (dash_id ''rec'') [c0, c1, c2] [r0, r1, r2]" and id0: "cred_id c0 = dash_id ''cred'' 0"
    and h: "record_hash r0 = Inr h0" "record_hash r1 = Inr h1" "record_hash t = Inr ht" and ne: "h1 \<noteq> ht" "h0 \<noteq> h1"
    and diff: "bits_different h1 ht = Inr diff"
  shows "claim5_main L key = Inr (0, diff)"
proof -
  define q f where qf: "q = r2\<lparr>rec_parent_hash := Some h0\<rparr>" "f = r0\<lparr>rec_credential_id := str ''FORGED-CRED-ID''\<rparr>"
  note defs = t_def qf r0_def r1_def r2_def
  have v: "dag_valid [r0, r1, r2]" using emitted_dag_valid [OF e] by simp
  have allowed: "\<not> rec_denied t" "\<not> rec_denied f" "\<not> rec_denied r1" "\<not> rec_denied r2"
    by (simp_all add: defs rec_denied_def) (simp_all add: ALLOW_def DENY_def)
  have k1: "link_break_caught (verify_dag [r0, t, r2]) = Inr True"
    by (rule broken_second [OF v _ _ _ h(3)]) (use ne allowed in \<open>simp_all add: defs\<close>)
  have k2: "link_break_caught (verify_dag [r0, r1, q]) = Inr True"
    by (rule broken_third [OF v _ h(2)]) (use ne in \<open>simp_all add: qf\<close>)
  have k3: "link_break_caught (cross_check_chain L [r0, r1, r2] [c0, c1, c2]) = Inr False"
    by (simp add: emitted_cross_check [OF e] link_break_caught_def)
  have "rec_credential_id f \<noteq> cred_id c0" by (simp add: qf id0 dash_id_def str_def)
  then have k4: "link_break_caught (cross_check_chain L [f, r1, r2] [c0, c1, c2]) = Inr True"
    using allowed by (simp add: cross_check_chain_def link_break_caught_def)
  have p: "plain_record (rec_id r1) (rec_credential_id r1) (rec_subject r1) (rec_scope r1 |\<union>| {|str ''cap:injected''|}) (rec_parent_hash r1) = Inr t"
    "plain_record (rec_id r2) (rec_credential_id r2) (rec_subject r2) (rec_scope r2) (Some h0) = Inr q"
    "plain_record (rec_id r0) (str ''FORGED-CRED-ID'') (rec_subject r0) (rec_scope r0) None = Inr f"
    by (simp_all add: plain_record_ok defs) (simp_all add: hop_record_def)
  have "verify_dag [r0, r1, r2] = Inr [r0, r1, r2]" using v by (simp add: verify_dag_Inr_iff)
  then show ?thesis using h diff k1 k2 k3 k4 p by (simp add: claim5_main_def c r nthE_def Let_def)
qed

text \<open>
  The integrity experiment succeeds whatever keys it draws, and between one and 256 bits of the digest change, unless
  two of its records, the tampered one included, collide under SHA-256.
\<close>

theorem claim5_succeeds:
  assumes "ed25519_correct L"
  shows "\<exists>chain records. claim5_build_chain L key claim5_scopes = Inr chain \<and> records_from_chain chain = Inr records \<and>
    ((\<exists>diff. claim5_main L key = Inr (0, diff) \<and> 0 < diff \<and> diff \<le> 256) \<or>
     colliding record_bytes ((records ! 1)\<lparr>rec_scope := finsert (str ''cap:injected'') (rec_scope (records ! 1))\<rparr> # records) records)"
proof -
  obtain c0 c1 c2 rs where c: "claim5_build_chain L key claim5_scopes = Inr [c0, c1, c2]" and r: "records_from_chain [c0, c1, c2] = Inr rs"
    and e: "records_of (dash_id ''rec'') [c0, c1, c2] rs" and scope: "cred_scope c1 = {|str ''cap:a'', str ''cap:b''|}"
    and id0: "cred_id c0 = dash_id ''cred'' 0" by (rule claim5_setup [OF assms])
  obtain h0 h1 where rs: "rs = [hop_record c0 (dash_id ''rec'' 0) None, hop_record c1 (dash_id ''rec'' 1) (Some h0), hop_record c2 (dash_id ''rec'' 2) (Some h1)]"
    and h: "record_hash (hop_record c0 (dash_id ''rec'' 0) None) = Inr h0" "record_hash (hop_record c1 (dash_id ''rec'' 1) (Some h0)) = Inr h1"
    and enc: "list_all rec_encodable rs" by (rule three_records [OF e inj_dash])
  let ?r0 = "hop_record c0 (dash_id ''rec'' 0) None" and ?r1 = "hop_record c1 (dash_id ''rec'' 1) (Some h0)"
  let ?t = "?r1\<lparr>rec_scope := finsert (str ''cap:injected'') (rec_scope ?r1)\<rparr>"
  have "rec_encodable ?t" using enc by (simp add: rs rec_encodable_def)
  then obtain ht where ht: "record_hash ?t = Inr ht" using rec_encodable_hash by blast
  obtain diff where diff: "bits_different h1 ht = Inr diff" "diff \<le> 256" "h1 \<noteq> ht \<longrightarrow> 0 < diff" by (rule bits_different_bounds [OF h(2) ht])
  show ?thesis
  proof (cases "h1 = ht \<or> h0 = h1")
    case True
    have "str ''cap:injected'' |\<notin>| rec_scope ?r1" by (simp add: scope)
    then have "rec_scope ?t \<noteq> rec_scope ?r1" using finsertI1 [of "str ''cap:injected''" "rec_scope ?r1"] by fastforce
    then have "?t \<noteq> ?r1" by (rule contrapos_nn) (rule arg_cong)
    moreover have "rec_id ?r0 \<noteq> rec_id ?r1" by simp
    then have "?r0 \<noteq> ?r1" by (rule contrapos_nn) (rule arg_cong)
    ultimately have "colliding record_bytes [?t] [?r1] \<or> colliding record_bytes [?r0] [?r1]"
      using True records.digest_content [of ?t ht ?r1] records.digest_content [of ?r0 h1 ?r1] h ht by blast
    then have "colliding record_bytes (?t # rs) rs" by (auto simp: rs intro: records.colliding_mono)
    with c r show ?thesis by (auto simp: rs)
  next
    case False
    then have "claim5_main L key = Inr (0, diff)" using claim5_detects [OF c r [unfolded rs] e [unfolded rs] id0 h ht _ _ diff(1)] by blast
    with c r diff False show ?thesis by blast
  qed
qed

section \<open>Rejection with proof\<close>

definition REJECTION_SCOPES :: "ustr fset list" where
  "REJECTION_SCOPES =
     [{|str ''task:read'', str ''task:write'', str ''tool:search'', str ''tool:purchase''|},
      {|str ''task:read'', str ''tool:search'', str ''tool:purchase''|}, {|str ''tool:search''|}]"

definition REJECTION_NAMES :: "string list" where
  "REJECTION_NAMES = [''orchestrator'', ''researcher'', ''retriever'']"

definition REJECTION_REQUESTED :: ustr where
  "REJECTION_REQUESTED = str ''tool:purchase''"

definition CALLEE_POLICY :: policy where
  "CALLEE_POLICY = LocalPolicy (local_of [str ''task:read'', str ''tool:search'', str ''tool:purchase''])"

text \<open>\<open>f"{prefix}-{depth}-{NAMES[depth]}"\<close>, for the three hops there are.\<close>

definition named_id :: "string \<Rightarrow> nat \<Rightarrow> ustr" where
  "named_id prefix depth = dash_id prefix depth @ str ''-'' @ (if depth < 3 then str (REJECTION_NAMES ! depth) else [])"

definition rejection_build_chain :: "lib \<Rightarrow> (nat \<Rightarrow> bytes) \<Rightarrow> ustr fset list \<Rightarrow> delegation_credential list res" where
  "rejection_build_chain L key scopes =
     bindE (require (length scopes \<le> 3) (PyExn IndexError)) (\<lambda>_. signed_hops L (plain_fixture key (named_id ''cred'')) 0 scopes None)"

definition rejection_dump :: "lib \<Rightarrow> json \<Rightarrow> ustr \<Rightarrow> disk \<Rightarrow> disk res" where
  "rejection_dump L obj path D = bindE (dump_indented L 0 obj) (\<lambda>t. write_text (path_text path) (t @ [10]) D)"

text \<open>The exit code of a subprocess: an uncaught exception ends it with 1.\<close>

definition returncode :: "outcome \<Rightarrow> int" where
  "returncode out = (case snd out of Inr c \<Rightarrow> c | Inl _ \<Rightarrow> 1)"

text \<open>What follows a refusal: the evidence is written, verified here and by the command line, and a forgery of it is tried.\<close>

definition rejection_evidence ::
  "lib \<Rightarrow> (nat \<Rightarrow> cli_env) \<Rightarrow> ustr \<Rightarrow> ustr \<Rightarrow> delegation_credential list \<Rightarrow> delegation_record list \<Rightarrow> disk \<Rightarrow> (int \<times> disk) res" where
  "rejection_evidence L env chain_file dag_file chain records D =
     bindE (rejection_dump L (chain_doc chain) chain_file D) (\<lambda>D1.
     bindE (rejection_dump L (dag_doc records) dag_file D1) (\<lambda>D2.
     bindE (verify_dag records) (\<lambda>_.
     let issuer = cred_issuer (hd chain);
         rc = returncode (cmd_verify_chain L ((env 0)\<lparr>cl_fs := dk_files D2\<rparr>) (verify_chain_command chain_file issuer)) in
     if rc \<noteq> 0 then Inr (rc, D2)
     else let rc = returncode (cmd_verify_dag L ((env 1)\<lparr>cl_fs := dk_files D2\<rparr>) (verify_dag_command dag_file chain_file issuer None)) in
     if rc \<noteq> 0 then Inr (rc, D2)
     else
       bindE (rec_post_init ((last records)\<lparr>rec_parent_hash := Some (replicate 64 48), rec_caller_attestation := CALLER_NOT_OFFERED\<rparr>)) (\<lambda>forged.
       (case verify_dag [hd records, forged] of Inl _ \<Rightarrow> Inr (0, D2) | Inr _ \<Rightarrow> Inr (1, D2))))))"

definition rejection_main ::
  "lib \<Rightarrow> (nat \<Rightarrow> bytes) \<Rightarrow> (nat \<Rightarrow> int) \<Rightarrow> (nat \<Rightarrow> cli_env) \<Rightarrow> ustr \<Rightarrow> ustr \<Rightarrow> disk \<Rightarrow> (int \<times> disk) res" where
  "rejection_main L key clock env chain_file dag_file D =
     bindE (rejection_build_chain L key REJECTION_SCOPES) (\<lambda>chain.
     bindE (emit_records (named_id ''rec'') 0 None chain) (\<lambda>records.
     bindE (require (chain \<noteq> []) (PyExn IndexError)) (\<lambda>_.
     bindE (record_hash (last records)) (\<lambda>parent_hash.
     let a = (\<lambda>i. plain_args 8 (cred_issuer (hd chain)) (clock i)) in
     bindE (enforce_peer_call L (a 0) CALLEE_POLICY chain (str ''tool:search'') (str ''rec-check'') (Some parent_hash) CALLER_NOT_OFFERED) (\<lambda>granted.
     (case enforce_peer_call L (a 1) CALLEE_POLICY chain REJECTION_REQUESTED (str ''rec-denied-purchase'') (Some parent_hash) CALLER_NOT_OFFERED of
        Inr _ \<Rightarrow> Inr (1, D)
      | Inl e \<Rightarrow>
          if \<not> is_class ScopeNotPermitted e then Inl e
          else (case exn_record e of
                  None \<Rightarrow> Inl (PyExn AttributeError)
                | Some denial \<Rightarrow> rejection_evidence L env chain_file dag_file chain (records @ [denial]) D)))))))"

text \<open>The two requests of the demo.\<close>

lemma enforce_verified:
  assumes "verify_chain L a chain = Inr status" and "policy_intersect L policy (cred_scope (last chain)) = eff"
  shows "enforce_peer_call L a policy chain cap rid p CALLER_NOT_OFFERED = decide_capability L chain cap eff rid p CALLER_NOT_OFFERED"
  using assms verify_chain_ne [OF assms(1)] by (simp add: enforce_peer_call_def effective_scope_def)

definition rejection_denial :: "lib \<Rightarrow> delegation_credential \<Rightarrow> ustr \<Rightarrow> delegation_record" where
  "rejection_denial L leaf h =
     \<lparr>rec_id = str ''rec-denied-purchase'', rec_credential_id = cred_id leaf, rec_subject = cred_subject leaf, rec_scope = cred_scope leaf,
      rec_parent_hash = Some h, rec_decision = DENY, rec_requested = Some REJECTION_REQUESTED, rec_effective = Some {|str ''tool:search''|},
      rec_reason = Some (str ''capability '' @ py_repr L (JStr REJECTION_REQUESTED) @ str '' is not in the effective scope''),
      rec_caller_attestation = CALLER_NOT_OFFERED\<rparr>"

lemma rejection_decisions:
  assumes "chain \<noteq> []"
  shows "\<exists>d. decide_capability L chain (str ''tool:search'') {|str ''tool:search''|} rid p CALLER_NOT_OFFERED = Inr d"
    "\<exists>m. decide_capability L chain REJECTION_REQUESTED {|str ''tool:search''|} (str ''rec-denied-purchase'') (Some h) CALLER_NOT_OFFERED =
      Inl (Ca2a ScopeNotPermitted m (Some (rejection_denial L (last chain) h)))"
  using assms
  by (simp_all add: decide_capability_def record_for_def denial_record_for_def rec_post_init_def rejection_denial_def REJECTION_REQUESTED_def Let_def)

lemma named_id_simps: "named_id p i \<noteq> []" "list_all encodable (named_id p i)" "inj_on (named_id p) {..<3}"
proof -
  show "named_id p i \<noteq> []" "list_all encodable (named_id p i)" by (simp_all add: named_id_def)
  have "hd (drop (length (str p @ str ''-'')) (named_id p i)) = hd (nat_str i)" for i by (simp add: named_id_def dash_id_def)
  moreover have "hd (nat_str i) = 48 + i" if "i < 3" for i using that by (simp add: nat_str.simps [of i])
  ultimately show "inj_on (named_id p) {..<3}" by (intro inj_onI) (metis lessThan_iff add_left_cancel)
qed

lemma denied_named_fresh: "str ''rec-denied-purchase'' \<noteq> named_id ''rec'' i"
proof
  assume "str ''rec-denied-purchase'' = named_id ''rec'' i"
  then have "hd (drop 4 (str ''rec-denied-purchase'')) = hd (drop 4 (named_id ''rec'' i))" by simp
  then have "hd (nat_str i) = 100" by (simp add: named_id_def dash_id_def str_def)
  with nat_str_hd [of i] show False by (simp add: is_digit_def)
qed

lemma rejection_scopes_ok: "ladder_ok 8 REJECTION_SCOPES" "narrows REJECTION_SCOPES" "\<forall>s \<in> set REJECTION_SCOPES. s \<noteq> {||} \<and> [] |\<notin>| s"
  by (simp_all add: REJECTION_SCOPES_def ladder_ok_def narrows_def MAX_SAFE_INTEGER_def)

lemma rejection_setup:
  assumes "ed25519_correct L"
  obtains chain rs h where "rejection_build_chain L key REJECTION_SCOPES = Inr chain" and "emit_records (named_id ''rec'') 0 None chain = Inr rs"
    and "records_of (named_id ''rec'') chain rs" and "files_ok chain rs" and "length chain = 3" and "record_hash (last rs) = Inr h"
    and "\<forall>clock. verify_chain L (plain_args 8 (cred_issuer (hd chain)) clock) chain = Inr REVOCATION_NOT_CHECKED"
    and "cred_scope (last chain) = {|str ''tool:search''|}"
proof -
  let ?F = "plain_fixture key (named_id ''cred'')"
  have fx: "fixture_ok ?F REJECTION_SCOPES"
    using rejection_scopes_ok(1) by (auto simp: fixture_ok_def ladder_ok_def named_id_simps)
  then obtain chain where c: "signed_hops L ?F 0 REJECTION_SCOPES None = Inr chain" and b: "built_by L ?F REJECTION_SCOPES chain"
    by (rule signed_hops_built [OF assms])
  have ok: "\<forall>c \<in> set chain. cred_encodable c \<and> cred_wire_ok c"
    by (rule built_files_ok [OF assms b fx]) (simp_all add: named_id_simps rejection_scopes_ok)
  then have enc: "\<forall>c \<in> set chain. cred_encodable c" by blast
  obtain rs where r: "emit_records (named_id ''rec'') 0 None chain = Inr rs" and e: "records_of (named_id ''rec'') chain rs"
    by (rule emit_records_emitted [OF enc named_id_simps(2)])
  have len: "length chain = 3" using built_length [OF b] by (simp add: REJECTION_SCOPES_def)
  then have ne: "chain \<noteq> []" by auto
  have "\<forall>r \<in> set rs. rec_caller_attestation r \<in> CALLER_ATTESTATION_VALUES"
    using e emitted_nth(6) [OF e] by (auto simp: records_of_def in_set_conv_nth)
  with e ok have f: "files_ok chain rs" by (simp add: files_ok_def records_of_def)
  moreover have "rs \<noteq> []" using e ne by (auto simp: records_of_def)
  ultimately have "rec_encodable (last rs)" by (simp add: files_ok_def list_all_iff)
  then obtain h where h: "record_hash (last rs) = Inr h" using rec_encodable_hash by blast
  have "chain_valid L 8 {fx_public L ?F 0} clock chain" for clock
    by (rule built_chain_valid [OF b]) (use rejection_scopes_ok in \<open>simp_all add: ladder_ok_def narrows_def REJECTION_SCOPES_def named_id_simps(3) [unfolded numeral_3_eq_3]\<close>)
  then have v: "verify_chain L (plain_args 8 (cred_issuer (hd chain)) clock) chain = Inr REVOCATION_NOT_CHECKED" for clock
    by (simp add: plain_args_accepts built_issuer [OF b ne])
  have "last chain = chain ! 2" using len by (auto simp: numeral_3_eq_3 numeral_2_eq_2 length_Suc_conv)
  then have s: "cred_scope (last chain) = {|str ''tool:search''|}" using built_fields(4) [OF b, of 2] by (simp add: REJECTION_SCOPES_def)
  have "rejection_build_chain L key REJECTION_SCOPES = Inr chain" using c by (simp add: rejection_build_chain_def require_def REJECTION_SCOPES_def)
  from that [OF this r e f len h _ s] v show thesis by blast
qed

text \<open>A chain and its records, written to two files, pass both commands.\<close>

lemma evidence_judged:
  assumes "files_ok chain rs" and "\<And>p. dk_writable D p" and "path_text chain_file \<noteq> path_text dag_file" and "chain_file \<noteq> []"
    and "dag_valid rs" and "cross_check_chain L rs chain = Inr ()"
    and v: "\<And>clock. verify_chain L (plain_args 8 (cred_issuer (hd chain)) clock) chain = Inr REVOCATION_NOT_CHECKED" and e: "e \<in> {[], [10]}"
  obtains t1 D1 t2 D2 where "dump_indented L 0 (chain_doc chain) = Inr t1" and "write_text (path_text chain_file) (t1 @ e) D = Inr D1"
    and "dump_indented L 0 (dag_doc rs) = Inr t2" and "write_text (path_text dag_file) (t2 @ e) D1 = Inr D2"
    and "\<And>env. returncode (cmd_verify_chain L (env\<lparr>cl_fs := dk_files D2\<rparr>) (verify_chain_command chain_file (cred_issuer (hd chain)))) = 0"
    and "\<And>env. returncode (cmd_verify_dag L (env\<lparr>cl_fs := dk_files D2\<rparr>) (verify_dag_command dag_file chain_file (cred_issuer (hd chain)) None)) = 0"
proof -
  have ok: "\<forall>c \<in> set chain. cred_encodable c \<and> cred_wire_ok c" and re: "list_all rec_encodable rs" using assms(1) by (simp_all add: files_ok_def)
  obtain t1 D1 where 1: "dump_indented L 0 (chain_doc chain) = Inr t1" "write_text (path_text chain_file) (t1 @ e) D = Inr D1"
    and h1: "holds_doc L (dk_files D1 (path_text chain_file)) (chain_doc chain)" and w: "dk_writable D1 = dk_writable D"
    by (rule written_doc [OF chain_doc_ok(1,2) [OF ok] e, where D = D and path = "path_text chain_file"]) (use assms(2) in auto)
  obtain t2 D2 where 2: "dump_indented L 0 (dag_doc rs) = Inr t2" "write_text (path_text dag_file) (t2 @ e) D1 = Inr D2"
    and h2: "holds_doc L (dk_files D2 (path_text dag_file)) (dag_doc rs)" and keep: "\<And>q. q \<noteq> path_text dag_file \<Longrightarrow> dk_files D2 q = dk_files D1 q"
    by (rule written_doc [OF dag_doc_ok [OF re] e, where D = D1 and path = "path_text dag_file"]) (use assms(2) w in auto)
  let ?e = "\<lambda>env. env\<lparr>cl_fs := dk_files D2\<rparr>"
  have f1: "holds_doc L (cl_fs (?e env) (path_text chain_file)) (chain_doc chain)" and f2: "holds_doc L (cl_fs (?e env) (path_text dag_file)) (dag_doc rs)"
    for env :: cli_env using h1 h2 keep [of "path_text chain_file"] assms(3) by simp_all
  have c: "returncode (cmd_verify_chain L (?e env) (verify_chain_command chain_file (cred_issuer (hd chain)))) = 0" for env
    using load_chain_doc(2) [OF f1 ok] v
    by (simp add: cmd_verify_chain_def load_revocations_def report_refusal_def verify_delegation_chain_def returncode_def)
  have "(plain_args 8 i c)\<lparr>ca_at_time := None\<rparr> = plain_args 8 i c" for i c by (simp add: plain_args_def)
  then have "check_dag L (?e env) (verify_dag_command dag_file chain_file (cred_issuer (hd chain)) None) = Inr (rs, Some REVOCATION_NOT_CHECKED)" for env
    using v assms(5,6) by (simp add: judge_files [OF f2 f1 assms(1,4)] verify_dag_Inr_iff [THEN iffD2])
  then have "returncode (cmd_verify_dag L (?e env) (verify_dag_command dag_file chain_file (cred_issuer (hd chain)) None)) = 0" for env
    by (simp add: cmd_verify_dag_def report_refusal_def returncode_def verify_dag_command_def)
  from that [OF 1 2 c this] show thesis .
qed

text \<open>The evidence, once written, passes every check; only a first record that hashes to zeros would let the forgery through.\<close>

lemma rejection_evidence_ok:
  assumes "files_ok chain rs" and "chain \<noteq> []" and "\<And>p. dk_writable D p" and "path_text chain_file \<noteq> path_text dag_file" and "chain_file \<noteq> []"
    and "dag_valid rs" and "cross_check_chain L rs chain = Inr ()" and "1 < length rs" and "rec_id (hd rs) \<noteq> rec_id (last rs)"
    and v: "\<And>clock. verify_chain L (plain_args 8 (cred_issuer (hd chain)) clock) chain = Inr REVOCATION_NOT_CHECKED"
    and "record_hash (hd rs) \<noteq> Inr (replicate 64 48)"
  shows "\<exists>D'. rejection_evidence L env chain_file dag_file chain rs D = Inr (0, D')"
proof -
  obtain t1 D1 t2 D2 where "dump_indented L 0 (chain_doc chain) = Inr t1" "write_text (path_text chain_file) (t1 @ [10]) D = Inr D1"
    "dump_indented L 0 (dag_doc rs) = Inr t2" "write_text (path_text dag_file) (t2 @ [10]) D1 = Inr D2"
    "\<And>env. returncode (cmd_verify_chain L (env\<lparr>cl_fs := dk_files D2\<rparr>) (verify_chain_command chain_file (cred_issuer (hd chain)))) = 0"
    "\<And>env. returncode (cmd_verify_dag L (env\<lparr>cl_fs := dk_files D2\<rparr>) (verify_dag_command dag_file chain_file (cred_issuer (hd chain)) None)) = 0"
    by (rule evidence_judged [OF assms(1,3-7) v, of "[10]"]) auto
  moreover have "verify_dag rs = Inr rs" using assms(6) by (simp add: verify_dag_Inr_iff)
  moreover have "\<exists>x. verify_dag [hd rs, (last rs)\<lparr>rec_parent_hash := Some (replicate 64 48), rec_caller_attestation := CALLER_NOT_OFFERED\<rparr>] = Inl x"
  proof (rule ccontr)
    assume "\<not> ?thesis"
    then obtain y where "verify_dag [hd rs, (last rs)\<lparr>rec_parent_hash := Some (replicate 64 48), rec_caller_attestation := CALLER_NOT_OFFERED\<rparr>] = Inr y"
      by (cases "verify_dag [hd rs, (last rs)\<lparr>rec_parent_hash := Some (replicate 64 48), rec_caller_attestation := CALLER_NOT_OFFERED\<rparr>]") auto
    with assms(11) show False by (auto simp: verify_dag_Inr_iff dag_valid_def linked_by_def)
  qed
  ultimately show ?thesis
    by (auto simp: rejection_evidence_def rejection_dump_def rec_post_init_def Let_def)
qed

text \<open>
  A refusal leaves evidence that a third party can check. Whatever keys the demo draws, the over-scoped call is
  refused, the denial it records is chained to the allowed hops, the two files it writes verify again through
  \<open>ca2a verify-chain\<close> and \<open>ca2a verify-dag\<close>, a reparented denial is rejected, and the run exits with 0; the one
  exception would be a first record that hashes to sixty-four zeros.
\<close>

theorem rejection_demo_succeeds:
  assumes "ed25519_correct L" and "list_all encodable (py_repr L (JStr REJECTION_REQUESTED))" and "\<And>p. dk_writable D p"
    and "path_text chain_file \<noteq> path_text dag_file" and "chain_file \<noteq> []"
  shows "\<exists>chain records. rejection_build_chain L key REJECTION_SCOPES = Inr chain \<and> emit_records (named_id ''rec'') 0 None chain = Inr records \<and>
    ((\<exists>D'. rejection_main L key clock env chain_file dag_file D = Inr (0, D')) \<or> record_hash (hd records) = Inr (replicate 64 48))"
proof -
  obtain chain rs h where c: "rejection_build_chain L key REJECTION_SCOPES = Inr chain" and r: "emit_records (named_id ''rec'') 0 None chain = Inr rs"
    and e: "records_of (named_id ''rec'') chain rs" and f: "files_ok chain rs" and len: "length chain = 3" and h: "record_hash (last rs) = Inr h"
    and v': "\<forall>clock. verify_chain L (plain_args 8 (cred_issuer (hd chain)) clock) chain = Inr REVOCATION_NOT_CHECKED"
    and s: "cred_scope (last chain) = {|str ''tool:search''|}" by (rule rejection_setup [OF assms(1)])
  note v = v' [rule_format]
  let ?d = "rejection_denial L (last chain) h"
  have ne: "chain \<noteq> []" "length rs = 3" "rs \<noteq> []" using len e by (auto simp: records_of_def)
  have d: "dag_valid (rs @ [?d])" "cross_check_chain L (rs @ [?d]) chain = Inr ()"
    by (rule denial_extends [OF e ne(1) _ _ h]; use denied_named_fresh named_id_simps(3) len in \<open>simp add: rejection_denial_def rec_denied_def\<close>)+
  have "cred_encodable (last chain)" using f ne by (simp add: files_ok_def)
  moreover have "list_all encodable h" using h by (auto simp: record_hash_def sha256_hex_def bindE_Inr_iff)
  ultimately have "rec_encodable ?d"
    using assms(2) by (simp add: rec_encodable_def rejection_denial_def cred_encodable_def) (simp add: REJECTION_REQUESTED_def)
  then have f': "files_ok chain (rs @ [?d])" using f by (simp add: files_ok_def) (simp add: rejection_denial_def)
  have pol: "policy_intersect L CALLEE_POLICY (cred_scope (last chain)) = {|str ''tool:search''|}"
    by (simp add: s CALLEE_POLICY_def local_intersect_def local_of_def)
  have hd: "hd (rs @ [?d]) = hd rs" using ne by simp
  have "rec_id (hd rs) = named_id ''rec'' 0" using emitted_nth(1) [OF e, of 0] ne len by (simp add: hd_conv_nth)
  then have ids: "rec_id (hd (rs @ [?d])) \<noteq> rec_id (last (rs @ [?d]))" using denied_named_fresh [of 0] hd by (simp add: rejection_denial_def)
  show ?thesis
  proof (cases "record_hash (hd rs) = Inr (replicate 64 48)")
    case False
    obtain D' where "rejection_evidence L env chain_file dag_file chain (rs @ [?d]) D = Inr (0, D')"
      using rejection_evidence_ok [OF f' ne(1) assms(3-5) d _ ids v, of env] False hd ne(2) by auto
    moreover obtain g m where "decide_capability L chain (str ''tool:search'') {|str ''tool:search''|} (str ''rec-check'') (Some h) CALLER_NOT_OFFERED = Inr g"
      "decide_capability L chain REJECTION_REQUESTED {|str ''tool:search''|} (str ''rec-denied-purchase'') (Some h) CALLER_NOT_OFFERED =
        Inl (Ca2a ScopeNotPermitted m (Some ?d))" using rejection_decisions [OF ne(1)] by blast
    ultimately have "rejection_main L key clock env chain_file dag_file D = Inr (0, D')"
      by (simp add: rejection_main_def c r h ne(1) enforce_verified [OF v pol] Let_def)
    with c r show ?thesis by blast
  qed (use c r in blast)
qed

theorem rejection_demo_succeeds_witness:
  "\<exists>chain records. rejection_build_chain sample_lib (\<lambda>i. replicate 32 (of_nat i)) REJECTION_SCOPES = Inr chain \<and>
    emit_records (named_id ''rec'') 0 None chain = Inr records \<and>
    ((\<exists>D'. rejection_main sample_lib (\<lambda>i. replicate 32 (of_nat i)) (\<lambda>i. int i) (\<lambda>_. sample_cli_env [] []) (str ''/c'') (str ''/d'')
        \<lparr>dk_files = \<lambda>_. Absent, dk_writable = \<lambda>_. True\<rparr> = Inr (0, D')) \<or> record_hash (hd records) = Inr (replicate 64 48))"
  by (rule rejection_demo_succeeds [OF sample_ed25519]) (simp_all add: sample_lib_def path_text_def path_str_def to_path_def str_def encodable_ascii)

end
