(* ===== verification/Operators.thy ===== *)
theory Operators
  imports Demos "HOL-Library.Sublist"
begin

text \<open>
  Sealing and attestation across operators: the experiments \<open>experiments/claim4-sealed-payload-confidentiality/run.py\<close> and
  \<open>experiments/claim6-cross-operator-attestation/run.py\<close>, and the demo \<open>examples/cross-operator-delegation/demo.py\<close>, which
  shares its attestation helpers with the latter. Keys, clocks, serial numbers and nonces are arguments; issuing a
  certificate and signing with an elliptic-curve key belong to \<open>cryptography\<close> (\<open>issuing\<close>), the layout of a report to
  \<open>agent_manifest\<close>. The theorems say which checks always pass and on what the others depend.
\<close>

section \<open>Certificates and synthetic reports\<close>

text \<open>What the certificate builder is given, with times in seconds.\<close>

record 'k cert_fields =
  cf_subject :: ustr
  cf_issuer :: ustr
  cf_public_key :: 'k
  cf_serial :: nat
  cf_not_before :: int
  cf_not_after :: int
  cf_ca :: bool

text \<open>
  Public half of a P-384 key, the pair \<open>(r, s)\<close> of a signature with SHA-384, the builder's \<open>sign\<close>, and the length of a
  report in the shared table.
\<close>

record ('c, 'k, 's) issuing =
  is_public :: "'s \<Rightarrow> 'k"
  is_sign :: "'s \<Rightarrow> bytes \<Rightarrow> nat \<times> nat"
  is_certificate :: "'k cert_fields \<Rightarrow> 's \<Rightarrow> 'c"
  is_report_size :: nat

datatype operator_exn = Call_failed exn | Struct_error | Unbound_local

definition lift_op :: "'a res \<Rightarrow> operator_exn + 'a" where
  "lift_op m = (case m of Inl e \<Rightarrow> Inl (Call_failed e) | Inr x \<Rightarrow> Inr x)"

lemma lift_op_simps [simp]: "lift_op (Inr x) = Inr x" "lift_op (Inl e) = Inl (Call_failed e)"
  by (simp_all add: lift_op_def)

definition make_cert :: "('c, 'k, 's) issuing \<Rightarrow> int \<Rightarrow> nat \<Rightarrow> ustr \<Rightarrow> ustr \<Rightarrow> 's \<Rightarrow> 's \<Rightarrow> 'c" where
  "make_cert I now serial subject issuer subj_key issuer_key =
     is_certificate I
       \<lparr>cf_subject = subject, cf_issuer = issuer, cf_public_key = is_public I subj_key, cf_serial = serial,
        cf_not_before = now - 86400, cf_not_after = now + 3650 * 86400, cf_ca = True\<rparr> issuer_key"

text \<open>\<open>b[i:j] = d\<close> on a bytearray, \<open>struct.pack_into\<close> of packed bytes, and \<open>n.to_bytes(w, "little")\<close>.\<close>

definition set_slice :: "bytes \<Rightarrow> nat \<Rightarrow> nat \<Rightarrow> bytes \<Rightarrow> bytes" where
  "set_slice b i j d = take i b @ d @ drop (max i j) b"

definition pack_into :: "bytes \<Rightarrow> nat \<Rightarrow> bytes \<Rightarrow> operator_exn + bytes" where
  "pack_into b i d = (if i + length d \<le> length b then Inr (set_slice b i (i + length d) d) else Inl Struct_error)"

definition to_bytes_le :: "nat \<Rightarrow> nat \<Rightarrow> bytes res" where
  "to_bytes_le w n = (if n < 256 ^ w then Inr (to_le w n) else Inl (PyExn OverflowError))"

definition report_body :: "snp_lib \<Rightarrow> bytes \<Rightarrow> bytes \<Rightarrow> operator_exn + bytes" where
  "report_body S measurement report_data =
     bindE (pack_into (replicate (sl_signature S) 0) 0 (to_le 4 2 @ to_le 4 1 @ to_le 8 0)) (\<lambda>body.
     bindE (pack_into body 0x30 (to_le 4 0)) (\<lambda>body.
     bindE (pack_into body 0x34 (to_le 4 1)) (\<lambda>body.
     let body = set_slice body 0x50 (0x50 + length report_data) report_data in
     Inr (set_slice body 0x90 (0x90 + length measurement) measurement))))"

definition make_report :: "snp_lib \<Rightarrow> ('c, 'k, 's) issuing \<Rightarrow> 's \<Rightarrow> bytes \<Rightarrow> bytes \<Rightarrow> operator_exn + bytes" where
  "make_report S I vcek_key measurement report_data =
     bindE (report_body S measurement report_data) (\<lambda>body.
     let (r, s) = is_sign I vcek_key body;
         full = set_slice (replicate (is_report_size I) 0) 0 (sl_signature S) body in
     bindE (lift_op (to_bytes_le 72 r)) (\<lambda>r_bytes.
     let full = set_slice full (sl_signature S) (sl_signature S + 72) r_bytes in
     bindE (lift_op (to_bytes_le 72 s)) (\<lambda>s_bytes.
     Inr (set_slice full (sl_signature S + 72) (sl_signature S + 144) s_bytes))))"

section \<open>Operators\<close>

text \<open>What an operator draws, and what it is.\<close>

record 's operator_draw =
  od_vcek_key :: 's
  od_channel_key :: bytes
  od_now :: int
  od_serial :: nat

record ('c, 's) operator =
  op_name :: ustr
  op_measurement :: bytes
  op_priv :: bytes
  op_pub :: ustr
  op_vcek_key :: 's
  op_vcek :: 'c
  op_report :: bytes

definition bound_key :: "ustr \<Rightarrow> operator_exn + bytes" where
  "bound_key pub = bindE (lift_op (expect (fromhex pub) (PyExn ValueError))) (\<lambda>raw. Inr (raw @ replicate 32 0))"

definition AMD_ROOT :: ustr where
  "AMD_ROOT = str ''amd-root''"

definition build_operator ::
  "lib \<Rightarrow> snp_lib \<Rightarrow> ('c, 'k, 's) issuing \<Rightarrow> 's operator_draw \<Rightarrow> ustr \<Rightarrow> bytes \<Rightarrow> 's \<Rightarrow> operator_exn + ('c, 's) operator" where
  "build_operator L S I d name measurement root_key =
     (let vcek = make_cert I (od_now d) (od_serial d) (name @ str ''-VCEK'') AMD_ROOT (od_vcek_key d) root_key;
          pub = hex (x_public L (od_channel_key d)) in
      bindE (bound_key pub) (\<lambda>data.
      bindE (make_report S I (od_vcek_key d) measurement data) (\<lambda>report.
      Inr \<lparr>op_name = name, op_measurement = measurement, op_priv = od_channel_key d, op_pub = pub,
           op_vcek_key = od_vcek_key d, op_vcek = vcek, op_report = report\<rparr>)))"

definition golden :: "bytes \<Rightarrow> snp_policy" where
  "golden measurement = \<lparr>sp_measurement = Some measurement, sp_report_data = None, sp_require = None, sp_forbid = None,
     sp_reject_unrecognized = False\<rparr>"

text \<open>The appraisal of one operator by the other: the channel key that its report commits.\<close>

definition attested_key :: "snp_lib \<Rightarrow> ('c, 'k) x509_ops \<Rightarrow> 'c \<Rightarrow> ('c, 's) operator \<Rightarrow> operator_exn + ustr" where
  "attested_key S X root_cert p =
     bindE (lift_op (verify_sev_snp_report S X (op_report p) [op_vcek p, root_cert] [root_cert] (golden (op_measurement p)))) (\<lambda>r.
     Inr (hex (take 32 (sr_report_data r))))"

text \<open>The task sealed to the attested key: whether the peer opens it and the blob hides it.\<close>

definition delivered :: "lib \<Rightarrow> bytes \<Rightarrow> bytes \<Rightarrow> bytes \<Rightarrow> ustr \<Rightarrow> bytes \<Rightarrow> operator_exn + bool" where
  "delivered L eph nonce payload peer_key priv =
     bindE (lift_op (seal_to_key L peer_key eph nonce payload [])) (\<lambda>sealed.
     bindE (lift_op (open_sealed L sealed priv [])) (\<lambda>opened.
     Inr (opened = payload \<and> \<not> sublist payload sealed)))"

text \<open>A report of another binary, signed by the same chip key.\<close>

definition swap_caught :: "snp_lib \<Rightarrow> ('c, 'k) x509_ops \<Rightarrow> ('c, 'k, 's) issuing \<Rightarrow> 'c \<Rightarrow> ('c, 's) operator \<Rightarrow> operator_exn + bool" where
  "swap_caught S X I root_cert p =
     bindE (bound_key (op_pub p)) (\<lambda>data.
     bindE (make_report S I (op_vcek_key p) (replicate 48 0xee) data) (\<lambda>swapped.
     (case verify_sev_snp_report S X swapped [op_vcek p, root_cert] [root_cert] (golden (op_measurement p)) of
        Inr _ \<Rightarrow> Inr False
      | Inl e \<Rightarrow> if is_class AttestationFailed e then Inr True else Inl (Call_failed e))))"

text \<open>Everything the two programs draw besides credentials.\<close>

record 's operator_env =
  oe_root_key :: 's
  oe_root_now :: int
  oe_root_serial :: nat
  oe_first :: "'s operator_draw"
  oe_second :: "'s operator_draw"
  oe_ephemeral :: bytes
  oe_nonce :: bytes

definition root_certificate :: "('c, 'k, 's) issuing \<Rightarrow> 's operator_env \<Rightarrow> 'c" where
  "root_certificate I E = make_cert I (oe_root_now E) (oe_root_serial E) AMD_ROOT AMD_ROOT (oe_root_key E) (oe_root_key E)"

text \<open>
  Both operators, each appraising the other, the second one first: the second operator, its attested key, whether the
  channel keys differ and whether each report commits its operator's key.
\<close>

definition mutual_attestation ::
  "lib \<Rightarrow> snp_lib \<Rightarrow> ('c, 'k) x509_ops \<Rightarrow> ('c, 'k, 's) issuing \<Rightarrow> 's operator_env \<Rightarrow> ustr \<Rightarrow> ustr \<Rightarrow>
   operator_exn + ('c, 's) operator \<times> ustr \<times> bool \<times> bool" where
  "mutual_attestation L S X I E name_a name_b =
     (let root_cert = root_certificate I E in
      bindE (build_operator L S I (oe_first E) name_a (replicate 48 0xaa) (oe_root_key E)) (\<lambda>a.
      bindE (build_operator L S I (oe_second E) name_b (replicate 48 0xbb) (oe_root_key E)) (\<lambda>b.
      bindE (attested_key S X root_cert b) (\<lambda>b_key.
      bindE (attested_key S X root_cert a) (\<lambda>a_key.
      Inr (b, b_key, op_pub a \<noteq> op_pub b, b_key = op_pub b \<and> a_key = op_pub a))))))"

section \<open>Claim 6\<close>

definition CLAIM6_PAYLOAD :: bytes where
  "CLAIM6_PAYLOAD = ascii_bytes ''delegated task across operators: reconcile ledger''"

definition claim6_main ::
  "lib \<Rightarrow> snp_lib \<Rightarrow> ('c, 'k) x509_ops \<Rightarrow> ('c, 'k, 's) issuing \<Rightarrow> 's operator_env \<Rightarrow> operator_exn + int" where
  "claim6_main L S X I E =
     bindE (mutual_attestation L S X I E (str ''A'') (str ''B'')) (\<lambda>(b, b_key, indep, mutual).
     bindE (delivered L (oe_ephemeral E) (oe_nonce E) CLAIM6_PAYLOAD b_key (op_priv b)) (\<lambda>sent.
     bindE (swap_caught S X I (root_certificate I E) b) (\<lambda>caught.
     Inr (if length (filter id [indep, mutual, sent, caught]) = 4 then 0 else 1))))"

section \<open>Claim 4\<close>

definition CLAIM4_SECRET :: bytes where
  "CLAIM4_SECRET = ascii_bytes ''confidential task payload: transfer 5000 to account 12345''"

text \<open>\<open>try: open_sealed(...) ... except SealedChannelError\<close>: whether it was refused.\<close>

definition refused_to_open :: "bytes res \<Rightarrow> bool res" where
  "refused_to_open r = (case r of Inr _ \<Rightarrow> Inr False | Inl e \<Rightarrow> if is_class SealedChannelError e then Inr True else Inl e)"

definition flip_last :: "bytes \<Rightarrow> bytes res" where
  "flip_last b = (if b = [] then Inl (PyExn IndexError) else Inr (butlast b @ [xor (last b) 0xFF]))"

definition claim4_main :: "lib \<Rightarrow> bytes \<Rightarrow> bytes \<Rightarrow> bytes \<Rightarrow> bytes \<Rightarrow> int res" where
  "claim4_main L peer_priv other eph nonce =
     bindE (seal_to_key L (hex (x_public L peer_priv)) eph nonce CLAIM4_SECRET []) (\<lambda>sealed.
     let hidden = (\<not> sublist CLAIM4_SECRET sealed) in
     bindE (open_sealed L sealed peer_priv []) (\<lambda>opened.
     let recovered = (opened = CLAIM4_SECRET) in
     bindE (refused_to_open (open_sealed L sealed other [])) (\<lambda>blocked.
     bindE (flip_last sealed) (\<lambda>tampered.
     bindE (refused_to_open (open_sealed L tampered peer_priv [])) (\<lambda>tamper_caught.
     Inr (if length (filter id [hidden, recovered, blocked, tamper_caught]) = 4 then 0 else 1))))))"

section \<open>The cross-operator demo\<close>

definition CROSS_SCOPES :: "ustr fset list" where
  "CROSS_SCOPES = [{|str ''task:read'', str ''task:write'', str ''task:admin''|}, {|str ''task:read'', str ''task:write''|}]"

definition CROSS_PAYLOAD :: bytes where
  "CROSS_PAYLOAD = ascii_bytes ''delegated task across operators: reconcile ledger (read-only)''"

text \<open>\<open>try: enforce_peer_call(...) ... except ScopeNotPermitted\<close>: the decision, if there is one.\<close>

definition scope_decision :: "peer_decision res \<Rightarrow> operator_exn + peer_decision option" where
  "scope_decision r =
     (case r of
        Inr d \<Rightarrow> Inr (Some d)
      | Inl e \<Rightarrow> if is_class ScopeNotPermitted e then Inr None else Inl (Call_failed e))"

definition child_call ::
  "lib \<Rightarrow> policy \<Rightarrow> delegation_credential list \<Rightarrow> int \<Rightarrow> string \<Rightarrow> string \<Rightarrow> operator_exn + peer_decision option" where
  "child_call L policy chain clock capability record_id =
     scope_decision (enforce_peer_call L (plain_args 8 (cred_issuer (hd chain)) clock) policy chain (str capability) (str record_id) None
       CALLER_NOT_OFFERED)"

text \<open>The evidence as written and judged again by the command line.\<close>

definition cross_artifacts ::
  "lib \<Rightarrow> (nat \<Rightarrow> cli_env) \<Rightarrow> ustr \<Rightarrow> ustr \<Rightarrow> delegation_credential list \<Rightarrow> delegation_record list \<Rightarrow> disk \<Rightarrow> ((bool \<times> bool) \<times> disk) res" where
  "cross_artifacts L env chain_file dag_file chain records D =
     bindE (dump_indented L 0 (chain_doc chain)) (\<lambda>chain_text.
     bindE (write_text (path_text chain_file) chain_text D) (\<lambda>D1.
     bindE (dump_indented L 0 (dag_doc records)) (\<lambda>dag_text.
     bindE (write_text (path_text dag_file) dag_text D1) (\<lambda>D2.
     let issuer = cred_issuer (hd chain) in
     Inr ((returncode (cmd_verify_chain L ((env 0)\<lparr>cl_fs := dk_files D2\<rparr>) (verify_chain_command chain_file issuer)) = 0,
           returncode (cmd_verify_dag L ((env 1)\<lparr>cl_fs := dk_files D2\<rparr>) (verify_dag_command dag_file chain_file issuer None)) = 0), D2)))))"

definition cross_operator_main ::
  "lib \<Rightarrow> snp_lib \<Rightarrow> ('c, 'k) x509_ops \<Rightarrow> ('c, 'k, 's) issuing \<Rightarrow> 's operator_env \<Rightarrow> (nat \<Rightarrow> bytes) \<Rightarrow> ustr \<Rightarrow> (nat \<Rightarrow> int) \<Rightarrow>
   (nat \<Rightarrow> cli_env) \<Rightarrow> ustr \<Rightarrow> ustr \<Rightarrow> disk \<Rightarrow> operator_exn + int \<times> disk" where
  "cross_operator_main L S X I E key policy_text clock env chain_file dag_file D =
     bindE (mutual_attestation L S X I E (str ''A-parent'') (str ''B-child'')) (\<lambda>(child_op, child_key, indep, mutual).
     bindE (lift_op (signed_hops L (plain_fixture key (dash_id ''cred'')) 0 CROSS_SCOPES None)) (\<lambda>chain.
     let leaf = last chain;
         narrowed = (cred_scope leaf = {|str ''task:read'', str ''task:write''|});
         policy = CedarPolicy (cedar_default policy_text) in
     bindE (lift_op (effective_scope L (plain_args 8 (cred_issuer (hd chain)) (clock 0)) policy chain)) (\<lambda>eff.
     let met = (eff = {|str ''task:read''|}) in
     bindE (child_call L policy chain (clock 1) ''task:read'' ''rec-1'') (\<lambda>decision.
     bindE (child_call L policy chain (clock 2) ''task:write'' ''rec-x'') (\<lambda>write_decision.
     bindE (delivered L (oe_ephemeral E) (oe_nonce E) CROSS_PAYLOAD child_key (op_priv child_op)) (\<lambda>sent.
     bindE (swap_caught S X I (root_certificate I E) child_op) (\<lambda>caught.
     bindE (lift_op (emit_records (dash_id ''rec'') 0 None chain)) (\<lambda>records.
     bindE (lift_op (verify_dag records)) (\<lambda>verified.
     bindE (lift_op (cross_check_chain L records chain)) (\<lambda>_.
     bindE (expect decision Unbound_local) (\<lambda>granted.
     let lined_up = (rec_credential_id (pd_record granted) = cred_id leaf) in
     bindE (lift_op (cross_artifacts L env chain_file dag_file chain records D)) (\<lambda>((chain_ok, dag_ok), D').
     Inr (if length (filter id [indep, mutual, narrowed, met, decision \<noteq> None, write_decision = None, sent, caught,
                                verified = records, lined_up, chain_ok, dag_ok]) = 12 then 0 else 1, D')))))))))))))"

section \<open>What the packages promise\<close>

text \<open>The published layout of a report: sizes, and the fields of a version 2 report of that size.\<close>

definition snp_layout :: "snp_lib \<Rightarrow> ('c, 'k, 's) issuing \<Rightarrow> bool" where
  "snp_layout S I \<longleftrightarrow> sl_signature S = 0x2A0 \<and> is_report_size I = 0x4A0 \<and>
     (\<forall>b. length b = 0x4A0 \<and> from_le (slice b 0 4) = 2 \<longrightarrow>
        (\<exists>r. sl_parse S b = Some r \<and> sr_signature_algo r = from_le (slice b 0x34 4) \<and> sr_measurement r = slice b 0x90 48 \<and>
           sr_report_data r = slice b 0x50 64 \<and> sr_raw r = b))"

text \<open>A signature verifies under the public half of the key that made it, and its two numbers fit in 72 bytes.\<close>

definition ecdsa_correct :: "('c, 'k) x509_ops \<Rightarrow> ('c, 'k, 's) issuing \<Rightarrow> bool" where
  "ecdsa_correct X I \<longleftrightarrow>
     (\<forall>k m. xo_ecdsa X 384 (is_public I k) (is_sign I k m) m = Inr () \<and> fst (is_sign I k m) < 256 ^ 72 \<and> snd (is_sign I k m) < 256 ^ 72)"

text \<open>
  A certificate carries the key it was built with, and a leaf signed by the key of a self-signed authority that it names
  chains to that authority while both are valid.
\<close>

definition valid_at :: "int \<Rightarrow> 'k cert_fields \<Rightarrow> bool" where
  "valid_at now f \<longleftrightarrow> cf_not_before f \<le> now \<and> now \<le> cf_not_after f"

definition issuing_correct :: "int \<Rightarrow> ('c, 'k) x509_ops \<Rightarrow> ('c, 'k, 's) issuing \<Rightarrow> bool" where
  "issuing_correct now X I \<longleftrightarrow> (\<forall>f k. xo_ec_key X (is_certificate I f k) = Some (cf_public_key f)) \<and>
     (\<forall>leaf authority k. cf_issuer leaf = cf_subject authority \<and> cf_issuer authority = cf_subject authority \<and>
        cf_public_key authority = is_public I k \<and> cf_ca authority \<and> valid_at now leaf \<and> valid_at now authority \<longrightarrow>
        xo_chain_ok X [is_certificate I leaf k, is_certificate I authority k] [is_certificate I authority k])"

section \<open>Reports\<close>

text \<open>Reading from a byte array after a field of it was written.\<close>

lemma length_set_slice: "j = i + length d \<Longrightarrow> j \<le> length b \<Longrightarrow> length (set_slice b i j d) = length b"
  by (simp add: set_slice_def)

lemma slice_written: "j = i + length d \<Longrightarrow> n = length d \<Longrightarrow> i \<le> length b \<Longrightarrow> slice (set_slice b i j d) i n = d"
  by (simp add: set_slice_def slice_def)

lemma slice_kept:
  assumes "j = i + length d" and "j \<le> length b" and "k + n \<le> i \<or> j \<le> k"
  shows "slice (set_slice b i j d) k n = slice b k n"
  using assms by (auto simp: set_slice_def slice_def take_drop min_def)

lemma report_body_fields:
  assumes "sl_signature S = 0x2A0" and "length report_data = 64" and "length measurement = 48"
  obtains body where "report_body S measurement report_data = Inr body" and "length body = 0x2A0" and "slice body 0 4 = to_le 4 2"
    and "slice body 0x34 4 = to_le 4 1" and "slice body 0x50 64 = report_data" and "slice body 0x90 48 = measurement"
proof -
  define b1 where "b1 = set_slice (replicate 0x2A0 0) 0 16 (to_le 4 2 @ to_le 4 1 @ to_le 8 0)"
  define b2 where "b2 = set_slice b1 0x30 0x34 (to_le 4 0)"
  define b3 where "b3 = set_slice b2 0x34 0x38 (to_le 4 1)"
  define b4 where "b4 = set_slice b3 0x50 0x90 report_data"
  define b5 where "b5 = set_slice b4 0x90 0xC0 measurement"
  have l: "length b1 = 0x2A0" by (simp add: b1_def length_set_slice)
  then have l2: "length b2 = 0x2A0" by (simp add: b2_def length_set_slice)
  then have l3: "length b3 = 0x2A0" by (simp add: b3_def length_set_slice)
  then have l4: "length b4 = 0x2A0" by (simp add: b4_def length_set_slice assms)
  then have l5: "length b5 = 0x2A0" by (simp add: b5_def length_set_slice assms)
  have "report_body S measurement report_data = Inr b5"
    by (simp add: report_body_def pack_into_def assms b5_def b4_def b3_def b2_def b1_def length_set_slice)
  moreover have "slice b1 0 4 = to_le 4 2" by (simp add: b1_def set_slice_def slice_all)
  then have "slice b2 0 4 = to_le 4 2" by (simp add: b2_def slice_kept l)
  then have "slice b3 0 4 = to_le 4 2" by (simp add: b3_def slice_kept l2)
  then have "slice b5 0 4 = to_le 4 2" by (simp add: b5_def slice_kept l4 assms) (simp add: b4_def slice_kept l3 assms)
  moreover have "slice b3 0x34 4 = to_le 4 1" by (simp add: b3_def slice_written l2)
  then have "slice b5 0x34 4 = to_le 4 1" by (simp add: b5_def slice_kept l4 assms) (simp add: b4_def slice_kept l3 assms)
  moreover have "slice b4 0x50 64 = report_data" by (simp add: b4_def slice_written l3 assms)
  then have "slice b5 0x50 64 = report_data" by (simp add: b5_def slice_kept l4 assms)
  moreover have "slice b5 0x90 48 = measurement" by (simp add: b5_def slice_written l4 assms)
  ultimately show thesis using that l5 by blast
qed

lemma make_report_fields:
  assumes "snp_layout S I" and "ecdsa_correct X I" and "length report_data = 64" and "length measurement = 48"
  obtains raw r where "make_report S I k measurement report_data = Inr raw" and "sl_parse S raw = Some r"
    and "sr_signature_algo r = SIG_ALGO_ECDSA_P384_SHA384" and "sr_measurement r = measurement" and "sr_report_data r = report_data"
    and "xo_ecdsa X 384 (is_public I k) (sr_signature_rs S r) (sr_signed_body S r) = Inr ()"
proof -
  have sz: "sl_signature S = 0x2A0" "is_report_size I = 0x4A0" using assms(1) by (simp_all add: snp_layout_def)
  obtain body where body: "report_body S measurement report_data = Inr body" "length body = 0x2A0" "slice body 0 4 = to_le 4 2"
    "slice body 0x34 4 = to_le 4 1" "slice body 0x50 64 = report_data" "slice body 0x90 48 = measurement"
    by (rule report_body_fields [OF sz(1) assms(3,4)])
  obtain x y where rs: "is_sign I k body = (x, y)" by (cases "is_sign I k body")
  then have xy: "x < 256 ^ 72" "y < 256 ^ 72" and ok: "xo_ecdsa X 384 (is_public I k) (x, y) body = Inr ()"
    using assms(2) unfolding ecdsa_correct_def by (metis fst_conv snd_conv)+
  define raw where "raw = body @ to_le 72 x @ to_le 72 y @ replicate 368 (0 :: byte)"
  have raw: "make_report S I k measurement report_data = Inr raw"
    using xy by (simp add: make_report_def body rs sz to_bytes_le_def raw_def set_slice_def)
  have "slice raw i n = slice body i n" if "i + n \<le> 0x2A0" for i n using that body(2) by (simp add: raw_def)
  note f = this [of 0 4] this [of "0x34" 4] this [of "0x50" 64] this [of "0x90" 48]
  have "length raw = 0x4A0" "from_le (slice raw 0 4) = 2" using f(1) by (simp_all add: raw_def body(2,3) from_to_le)
  then obtain r where r: "sl_parse S raw = Some r" "sr_signature_algo r = from_le (slice raw 0x34 4)" "sr_measurement r = slice raw 0x90 48"
    "sr_report_data r = slice raw 0x50 64" "sr_raw r = raw" using assms(1) unfolding snp_layout_def by blast
  have "sr_signature_rs S r = (x, y)" "sr_signed_body S r = body"
    using xy body(2) by (simp_all add: sr_signature_rs_def sr_signed_body_def r(5) sz SIG_COMPONENT_LEN_def raw_def slice_def from_to_le)
  with r f body(4-6) ok raw show thesis by (intro that [of raw r]) (simp_all add: SIG_ALGO_ECDSA_P384_SHA384_def from_to_le)
qed

section \<open>Operators that attest\<close>

definition in_force :: "int \<Rightarrow> int \<Rightarrow> bool" where
  "in_force now t \<longleftrightarrow> t - 86400 \<le> now \<and> now \<le> t + 3650 * 86400"

text \<open>What the runs need of the packages and of what they draw.\<close>

definition operators_ok ::
  "lib \<Rightarrow> snp_lib \<Rightarrow> ('c, 'k) x509_ops \<Rightarrow> ('c, 'k, 's) issuing \<Rightarrow> int \<Rightarrow> 's operator_env \<Rightarrow> bool" where
  "operators_ok L S X I now E \<longleftrightarrow> x25519_correct L \<and> aead_correct L \<and> snp_layout S I \<and> ecdsa_correct X I \<and> issuing_correct now X I \<and>
     in_force now (oe_root_now E) \<and> in_force now (od_now (oe_first E)) \<and> in_force now (od_now (oe_second E)) \<and>
     length (oe_nonce E) = NONCE_LEN \<and> x_exchange L (oe_ephemeral E) (x_public L (od_channel_key (oe_second E))) \<noteq> None"

text \<open>A report made with the chip's key passes with its own measurement, and is refused with any other.\<close>

lemma verify_made_report:
  assumes "operators_ok L S X I now E" and "in_force now t" and "length report_data = 64" and "length measurement = 48"
  obtains raw r where "make_report S I k measurement report_data = Inr raw" and "sr_report_data r = report_data"
    and "\<And>g. verify_sev_snp_report S X raw [make_cert I t n name AMD_ROOT k (oe_root_key E), root_certificate I E] [root_certificate I E] (golden g) =
      (if measurement = g then Inr r else Inl (attestation_failed ''measurement does not match the expected value''))"
proof -
  let ?c = "make_cert I t n name AMD_ROOT k (oe_root_key E)" and ?r = "root_certificate I E"
  have laws: "snp_layout S I" "ecdsa_correct X I" "issuing_correct now X I" "in_force now (oe_root_now E)"
    using assms(1) by (simp_all add: operators_ok_def)
  obtain raw r where raw: "make_report S I k measurement report_data = Inr raw" "sl_parse S raw = Some r"
    "sr_signature_algo r = SIG_ALGO_ECDSA_P384_SHA384" "sr_measurement r = measurement" "sr_report_data r = report_data"
    "xo_ecdsa X 384 (is_public I k) (sr_signature_rs S r) (sr_signed_body S r) = Inr ()"
    by (rule make_report_fields [OF laws(1,2) assms(3,4)])
  have key: "xo_ec_key X ?c = Some (is_public I k)" using laws(3) by (simp add: issuing_correct_def make_cert_def)
  have "xo_chain_ok X [?c, ?r] [?r]"
    using laws(3,4) assms(2) by (simp add: issuing_correct_def make_cert_def root_certificate_def valid_at_def in_force_def)
  then have "verify_sev_snp_report S X raw [?c, ?r] [?r] (golden g) =
      (if measurement = g then Inr r else Inl (attestation_failed ''measurement does not match the expected value''))" for g
    using raw(2-4,6) key
    by (simp add: verify_sev_snp_report_def snp_parse_def verify_cert_chain_def golden_def appraise_platform_def asks_def require_def)
  with raw(1,5) that show thesis by blast
qed

lemma bound_key_own:
  assumes "x25519_correct L"
  shows "bound_key (hex (x_public L k)) = Inr (x_public L k @ replicate 32 0)" "length (x_public L k @ replicate 32 0) = 64"
  using assms by (simp_all add: bound_key_def x25519_correct_def)

lemma built_operator_attests:
  assumes "operators_ok L S X I now E" and "in_force now (od_now d)" and "length measurement = 48"
  obtains p where "build_operator L S I d name measurement (oe_root_key E) = Inr p" and "op_pub p = hex (x_public L (od_channel_key d))"
    and "op_priv p = od_channel_key d" and "attested_key S X (root_certificate I E) p = Inr (op_pub p)"
    and "measurement \<noteq> replicate 48 0xee \<Longrightarrow> swap_caught S X I (root_certificate I E) p = Inr True"
proof -
  have x: "x25519_correct L" using assms(1) by (simp add: operators_ok_def)
  let ?pub = "x_public L (od_channel_key d)"
  let ?c = "make_cert I (od_now d) (od_serial d) (name @ str ''-VCEK'') AMD_ROOT (od_vcek_key d) (oe_root_key E)" and ?r = "root_certificate I E"
  note b = bound_key_own [OF x, of "od_channel_key d"]
  obtain raw r where raw: "make_report S I (od_vcek_key d) measurement (?pub @ replicate 32 0) = Inr raw" "sr_report_data r = ?pub @ replicate 32 0"
    "\<And>g. verify_sev_snp_report S X raw [?c, ?r] [?r] (golden g) =
      (if measurement = g then Inr r else Inl (attestation_failed ''measurement does not match the expected value''))"
    by (rule verify_made_report [OF assms(1,2) b(2) assms(3)]) blast
  obtain raw' r' where swap: "make_report S I (od_vcek_key d) (replicate 48 0xee) (?pub @ replicate 32 0) = Inr raw'"
    "\<And>g. verify_sev_snp_report S X raw' [?c, ?r] [?r] (golden g) =
      (if replicate 48 0xee = g then Inr r' else Inl (attestation_failed ''measurement does not match the expected value''))"
    by (rule verify_made_report [OF assms(1,2) b(2), of "replicate 48 0xee"]) auto
  let ?p = "\<lparr>op_name = name, op_measurement = measurement, op_priv = od_channel_key d, op_pub = hex ?pub, op_vcek_key = od_vcek_key d,
    op_vcek = ?c, op_report = raw\<rparr>"
  have "build_operator L S I d name measurement (oe_root_key E) = Inr ?p" using b raw(1) by (simp add: build_operator_def Let_def)
  moreover have "length ?pub = 32" using x by (simp add: x25519_correct_def)
  then have "attested_key S X ?r ?p = Inr (op_pub ?p)" using raw(2,3) by (simp add: attested_key_def)
  moreover have "swap_caught S X I ?r ?p = Inr True" if "measurement \<noteq> replicate 48 0xee"
    using swap b(1) that by (auto simp: swap_caught_def)
  ultimately show thesis by (intro that [of ?p]) simp_all
qed

lemma mutual_attestation_ok:
  assumes "operators_ok L S X I now E"
  obtains b where "mutual_attestation L S X I E na nb =
      Inr (b, op_pub b, x_public L (od_channel_key (oe_first E)) \<noteq> x_public L (od_channel_key (oe_second E)), True)"
    and "op_pub b = hex (x_public L (od_channel_key (oe_second E)))" and "op_priv b = od_channel_key (oe_second E)"
    and "swap_caught S X I (root_certificate I E) b = Inr True"
proof -
  have f: "in_force now (od_now (oe_first E))" "in_force now (od_now (oe_second E))" using assms by (simp_all add: operators_ok_def)
  obtain a where a: "build_operator L S I (oe_first E) na (replicate 48 0xaa) (oe_root_key E) = Inr a"
    "op_pub a = hex (x_public L (od_channel_key (oe_first E)))" "attested_key S X (root_certificate I E) a = Inr (op_pub a)"
    by (rule built_operator_attests [OF assms f(1), of "replicate 48 0xaa"]) auto
  obtain b where b: "build_operator L S I (oe_second E) nb (replicate 48 0xbb) (oe_root_key E) = Inr b"
    "op_pub b = hex (x_public L (od_channel_key (oe_second E)))" "op_priv b = od_channel_key (oe_second E)"
    "attested_key S X (root_certificate I E) b = Inr (op_pub b)" "swap_caught S X I (root_certificate I E) b = Inr True"
    by (rule built_operator_attests [OF assms f(2), of "replicate 48 0xbb"]) (auto simp: replicate_eq_replicate)
  have "mutual_attestation L S X I E na nb =
      Inr (b, op_pub b, x_public L (od_channel_key (oe_first E)) \<noteq> x_public L (od_channel_key (oe_second E)), True)"
    using a b by (simp add: mutual_attestation_def Let_def)
  from that [OF this b(2,3,5)] show thesis .
qed

lemma delivered_ok:
  assumes "operators_ok L S X I now E"
  obtains sealed where "seal_to_key L (hex (x_public L (od_channel_key (oe_second E)))) (oe_ephemeral E) (oe_nonce E) payload [] = Inr sealed"
    and "delivered L (oe_ephemeral E) (oe_nonce E) payload (hex (x_public L (od_channel_key (oe_second E)))) (od_channel_key (oe_second E)) =
      Inr (\<not> sublist payload sealed)"
proof -
  have laws: "x25519_correct L" "aead_correct L" "length (oe_nonce E) = NONCE_LEN"
    "x_exchange L (oe_ephemeral E) (x_public L (od_channel_key (oe_second E))) \<noteq> None" using assms by (simp_all add: operators_ok_def)
  then obtain sealed where s: "seal_to_key L (hex (x_public L (od_channel_key (oe_second E)))) (oe_ephemeral E) (oe_nonce E) payload [] = Inr sealed"
    by (auto simp: seal_to_key_def sealed_channel_init_def seal_def Let_def)
  with open_seal [OF laws(1-3) s] that show thesis by (simp add: delivered_def)
qed

text \<open>
  Claim 6. Whatever keys, times and nonces the two operators draw, each appraises the other's report and finds the other's
  channel key in it, the task sealed to that key opens under the peer's private key, and the report of another binary
  signed with the same chip key is refused; the exit code is 0 unless the two channel keys coincide or
  the sealed bytes contain the task.
\<close>

theorem claim6_exit:
  assumes "operators_ok L S X I now E"
  shows "\<exists>sealed. seal_to_key L (hex (x_public L (od_channel_key (oe_second E)))) (oe_ephemeral E) (oe_nonce E) CLAIM6_PAYLOAD [] = Inr sealed \<and>
    claim6_main L S X I E =
      Inr (if x_public L (od_channel_key (oe_first E)) \<noteq> x_public L (od_channel_key (oe_second E)) \<and> \<not> sublist CLAIM6_PAYLOAD sealed then 0 else 1)"
proof -
  obtain b where b: "mutual_attestation L S X I E (str ''A'') (str ''B'') =
      Inr (b, op_pub b, x_public L (od_channel_key (oe_first E)) \<noteq> x_public L (od_channel_key (oe_second E)), True)"
    "op_pub b = hex (x_public L (od_channel_key (oe_second E)))" "op_priv b = od_channel_key (oe_second E)"
    "swap_caught S X I (root_certificate I E) b = Inr True" by (rule mutual_attestation_ok [OF assms])
  obtain sealed where s: "seal_to_key L (hex (x_public L (od_channel_key (oe_second E)))) (oe_ephemeral E) (oe_nonce E) CLAIM6_PAYLOAD [] = Inr sealed"
    "delivered L (oe_ephemeral E) (oe_nonce E) CLAIM6_PAYLOAD (hex (x_public L (od_channel_key (oe_second E)))) (od_channel_key (oe_second E)) =
      Inr (\<not> sublist CLAIM6_PAYLOAD sealed)" by (rule delivered_ok [OF assms])
  with b show ?thesis by (simp add: claim6_main_def)
qed

text \<open>
  Claim 4. The peer always recovers what was sealed to it, and no check raises anything but the channel's own error; the
  exit code is 0 exactly when the sealed bytes do not contain the secret and the cipher refuses the other key
  and the altered last byte.
\<close>

theorem claim4_exit:
  assumes "x25519_correct L" and "aead_correct L" and "length nonce = NONCE_LEN" and "x_exchange L eph (x_public L peer) \<noteq> None"
  shows "\<exists>sealed. seal_to_key L (hex (x_public L peer)) eph nonce CLAIM4_SECRET [] = Inr sealed \<and> sealed \<noteq> [] \<and>
    open_sealed L sealed peer [] = Inr CLAIM4_SECRET \<and>
    claim4_main L peer other eph nonce =
      Inr (if \<not> sublist CLAIM4_SECRET sealed \<and> \<not> is_ok (open_sealed L sealed other []) \<and>
              \<not> is_ok (open_sealed L (butlast sealed @ [xor (last sealed) 0xFF]) peer []) then 0 else 1)"
proof -
  obtain sealed where s: "seal_to_key L (hex (x_public L peer)) eph nonce CLAIM4_SECRET [] = Inr sealed" and ne: "sealed \<noteq> []"
    using assms by (auto simp: seal_to_key_def sealed_channel_init_def seal_def Let_def)
  have "refused_to_open (open_sealed L b k []) = Inr (\<not> is_ok (open_sealed L b k []))" for b k
    using open_sealed_exn [of L b k "[]"] by (cases "open_sealed L b k []") (auto simp: refused_to_open_def)
  with open_seal [OF assms(1-3) s] s ne show ?thesis by (simp add: claim4_main_def flip_last_def Let_def)
qed

section \<open>The demo\<close>

lemma cross_scopes_ok: "ladder_ok 8 CROSS_SCOPES" "narrows CROSS_SCOPES" "\<forall>s \<in> set CROSS_SCOPES. s \<noteq> {||} \<and> [] |\<notin>| s"
  by (simp_all add: CROSS_SCOPES_def ladder_ok_def narrows_def MAX_SAFE_INTEGER_def)

text \<open>The chain and its records, with what the demo and the command line ask of them.\<close>

lemma cross_chain_ok:
  assumes "ed25519_correct L"
  obtains chain rs where "signed_hops L (plain_fixture key (dash_id ''cred'')) 0 CROSS_SCOPES None = Inr chain"
    and "emit_records (dash_id ''rec'') 0 None chain = Inr rs" and "files_ok chain rs" and "chain \<noteq> []" and "dag_valid rs"
    and "cross_check_chain L rs chain = Inr ()" and "cred_scope (last chain) = {|str ''task:read'', str ''task:write''|}"
    and "\<And>clock. verify_chain L (plain_args 8 (cred_issuer (hd chain)) clock) chain = Inr REVOCATION_NOT_CHECKED"
proof -
  let ?F = "plain_fixture key (dash_id ''cred'')"
  obtain chain where c: "signed_hops L ?F 0 CROSS_SCOPES None = Inr chain" and b: "built_by L ?F CROSS_SCOPES chain"
    by (rule ladder_built [OF assms cross_scopes_ok(1)])
  have "fixture_ok ?F CROSS_SCOPES" using cross_scopes_ok(1) by (intro dash_fixture) (auto simp: ladder_ok_def)
  then have ok: "\<forall>c \<in> set chain. cred_encodable c \<and> cred_wire_ok c"
    by (rule built_files_ok [OF assms b]) (simp_all add: cross_scopes_ok)
  obtain rs where r: "emit_records (dash_id ''rec'') 0 None chain = Inr rs" and e: "records_of (dash_id ''rec'') chain rs"
    by (rule emit_records_emitted [of chain "dash_id ''rec''"]) (use ok in auto)
  have len: "length chain = 2" using built_length [OF b] by (simp add: CROSS_SCOPES_def)
  then have ne: "chain \<noteq> []" by auto
  have "\<forall>r \<in> set rs. rec_caller_attestation r \<in> CALLER_ATTESTATION_VALUES"
    using e emitted_nth(6) [OF e] by (auto simp: records_of_def in_set_conv_nth)
  with e ok have f: "files_ok chain rs" by (simp add: files_ok_def records_of_def)
  have "last chain = chain ! 1" using len by (simp add: last_conv_nth ne)
  then have s: "cred_scope (last chain) = {|str ''task:read'', str ''task:write''|}"
    using built_fields(4) [OF b, of 1] by (simp add: CROSS_SCOPES_def)
  have "verify_chain L (plain_args 8 (cred_issuer (hd chain)) clock) chain = Inr REVOCATION_NOT_CHECKED" for clock
    using narrow_accepted [OF b cross_scopes_ok(1,2)] by (simp add: built_issuer [OF b ne])
  from that [OF c r f ne emitted_dag_valid [OF e ne inj_dash] emitted_cross_check [OF e] s this] show thesis .
qed

lemma cross_artifacts_ok:
  assumes "files_ok chain rs" and "\<And>p. dk_writable D p" and "path_text chain_file \<noteq> path_text dag_file" and "chain_file \<noteq> []"
    and "dag_valid rs" and "cross_check_chain L rs chain = Inr ()"
    and v: "\<And>clock. verify_chain L (plain_args 8 (cred_issuer (hd chain)) clock) chain = Inr REVOCATION_NOT_CHECKED"
  shows "\<exists>D'. cross_artifacts L env chain_file dag_file chain rs D = Inr ((True, True), D')"
  by (rule evidence_judged [OF assms, of "[]"]) (auto simp: cross_artifacts_def Let_def)

lemma cross_calls_ok:
  assumes "chain \<noteq> []" and "cred_scope (last chain) = {|str ''task:read'', str ''task:write''|}"
    and v: "\<And>clock. verify_chain L (plain_args 8 (cred_issuer (hd chain)) clock) chain = Inr REVOCATION_NOT_CHECKED"
    and "cedar_permits L (cedar_default t) (str ''task:read'')" and "\<not> cedar_permits L (cedar_default t) (str ''task:write'')"
  shows "effective_scope L (plain_args 8 (cred_issuer (hd chain)) clock) (CedarPolicy (cedar_default t)) chain = Inr {|str ''task:read''|}"
    "\<exists>d. child_call L (CedarPolicy (cedar_default t)) chain clock ''task:read'' ''rec-1'' = Inr (Some d) \<and> rec_credential_id (pd_record d) = cred_id (last chain)"
    "child_call L (CedarPolicy (cedar_default t)) chain clock ''task:write'' ''rec-x'' = Inr None"
proof -
  have "ffilter (cedar_permits L (cedar_default t)) {|str ''task:read'', str ''task:write''|} = {|str ''task:read''|}"
    using assms(4,5) by auto
  then have p: "policy_intersect L (CedarPolicy (cedar_default t)) (cred_scope (last chain)) = {|str ''task:read''|}"
    by (simp add: assms(2) cedar_intersect_def)
  then show "effective_scope L (plain_args 8 (cred_issuer (hd chain)) clock) (CedarPolicy (cedar_default t)) chain = Inr {|str ''task:read''|}"
    using v assms(1) by (simp add: effective_scope_def leaf_of_def)
  show "\<exists>d. child_call L (CedarPolicy (cedar_default t)) chain clock ''task:read'' ''rec-1'' = Inr (Some d) \<and> rec_credential_id (pd_record d) = cred_id (last chain)"
    "child_call L (CedarPolicy (cedar_default t)) chain clock ''task:write'' ''rec-x'' = Inr None"
    using assms(1)
    by (simp_all add: child_call_def enforce_verified [OF v p] decide_capability_def scope_decision_def record_for_def denial_record_for_def
        rec_post_init_def leaf_of_def Let_def)
qed

text \<open>
  C17: The cross-operator demo succeeds for whatever keys, times and nonces are drawn. Each operator's report commits its
  channel key to the other, the delegated scope meets the child's policy in exactly \<open>task:read\<close>, the read call is
  granted and recorded under the leaf credential, the write call is refused, the task sealed to the attested key opens
  under the child's private key, the report of a swapped binary is refused although the chip signed it, and the chain and
  the records verify again from the written files through the command line. The exit code is 0 unless the two channel
  keys coincide or the sealed bytes contain the task.
\<close>

theorem cross_operator_exit:
  assumes "operators_ok L S X I now E" and "ed25519_correct L"
    and "cedar_permits L (cedar_default policy_text) (str ''task:read'')" and "\<not> cedar_permits L (cedar_default policy_text) (str ''task:write'')"
    and "\<And>p. dk_writable D p" and "path_text chain_file \<noteq> path_text dag_file" and "chain_file \<noteq> []"
  shows "\<exists>sealed D'. seal_to_key L (hex (x_public L (od_channel_key (oe_second E)))) (oe_ephemeral E) (oe_nonce E) CROSS_PAYLOAD [] = Inr sealed \<and>
    cross_operator_main L S X I E key policy_text clock env chain_file dag_file D =
      Inr (if x_public L (od_channel_key (oe_first E)) \<noteq> x_public L (od_channel_key (oe_second E)) \<and> \<not> sublist CROSS_PAYLOAD sealed then 0 else 1, D')"
proof -
  obtain b where b: "mutual_attestation L S X I E (str ''A-parent'') (str ''B-child'') =
      Inr (b, op_pub b, x_public L (od_channel_key (oe_first E)) \<noteq> x_public L (od_channel_key (oe_second E)), True)"
    "op_pub b = hex (x_public L (od_channel_key (oe_second E)))" "op_priv b = od_channel_key (oe_second E)"
    "swap_caught S X I (root_certificate I E) b = Inr True" by (rule mutual_attestation_ok [OF assms(1)])
  obtain sealed where s: "seal_to_key L (hex (x_public L (od_channel_key (oe_second E)))) (oe_ephemeral E) (oe_nonce E) CROSS_PAYLOAD [] = Inr sealed"
    "delivered L (oe_ephemeral E) (oe_nonce E) CROSS_PAYLOAD (hex (x_public L (od_channel_key (oe_second E)))) (od_channel_key (oe_second E)) =
      Inr (\<not> sublist CROSS_PAYLOAD sealed)" by (rule delivered_ok [OF assms(1)])
  obtain chain rs where c: "signed_hops L (plain_fixture key (dash_id ''cred'')) 0 CROSS_SCOPES None = Inr chain"
    "emit_records (dash_id ''rec'') 0 None chain = Inr rs" "files_ok chain rs" "chain \<noteq> []" "dag_valid rs"
    "cross_check_chain L rs chain = Inr ()" "cred_scope (last chain) = {|str ''task:read'', str ''task:write''|}"
    and v: "\<And>clock. verify_chain L (plain_args 8 (cred_issuer (hd chain)) clock) chain = Inr REVOCATION_NOT_CHECKED"
    by (rule cross_chain_ok [OF assms(2)]) blast
  note calls = cross_calls_ok [OF c(4,7) v assms(3,4)]
  obtain d where d: "child_call L (CedarPolicy (cedar_default policy_text)) chain (clock 1) ''task:read'' ''rec-1'' = Inr (Some d)"
    "rec_credential_id (pd_record d) = cred_id (last chain)" using calls(2) by blast
  obtain D' where a: "cross_artifacts L env chain_file dag_file chain rs D = Inr ((True, True), D')"
    using cross_artifacts_ok [OF c(3) assms(5-7) c(5,6) v, of env] by blast
  have "verify_dag rs = Inr rs" using c(5) by (simp add: verify_dag_Inr_iff)
  then have "cross_operator_main L S X I E key policy_text clock env chain_file dag_file D =
      Inr (if x_public L (od_channel_key (oe_first E)) \<noteq> x_public L (od_channel_key (oe_second E)) \<and> \<not> sublist CROSS_PAYLOAD sealed then 0 else 1, D')"
    using b s c(1,2,6,7) calls(1,3) d a by (simp add: cross_operator_main_def Let_def)
  with s(1) show ?thesis by blast
qed

section \<open>An instance\<close>

text \<open>Certificates that are what they say, a signature that is the length of the message, and the layout as a parser.\<close>

definition layout_snp :: snp_lib where
  "layout_snp = \<lparr>sl_parse = (\<lambda>b. if length b \<noteq> 0x4A0 then None
       else Some \<lparr>sr_version = from_le (slice b 0 4), sr_guest_svn = from_le (slice b 4 4), sr_policy = from_le (slice b 8 8),
         sr_vmpl = from_le (slice b 0x30 4), sr_signature_algo = from_le (slice b 0x34 4), sr_measurement = slice b 0x90 48,
         sr_report_data = slice b 0x50 64, sr_raw = b\<rparr>),
     sl_signature = 0x2A0, sl_platform_info = 0x40, sl_appraise = (\<lambda>info req forb rej. Inr ())\<rparr>"

definition sample_issuing :: "(nat cert_fields \<times> nat, nat, nat) issuing" where
  "sample_issuing = \<lparr>is_public = (\<lambda>k. k), is_sign = (\<lambda>k m. (length m mod 256, k mod 256)), is_certificate = Pair, is_report_size = 0x4A0\<rparr>"

definition issued_x509 :: "(nat cert_fields \<times> nat, nat) x509_ops" where
  "issued_x509 = \<lparr>xo_load_pem = (\<lambda>b. None), xo_to_pem = (\<lambda>c. []),
     xo_chain_ok = (\<lambda>chain roots. case chain of [leaf, authority] \<Rightarrow> authority \<in> set roots \<and> cf_issuer (fst leaf) = cf_subject (fst authority) \<and>
         cf_ca (fst authority) \<and> snd leaf = cf_public_key (fst authority) | _ \<Rightarrow> False),
     xo_ec_key = (\<lambda>c. Some (cf_public_key (fst c))), xo_p256 = (\<lambda>b. None),
     xo_ecdsa = (\<lambda>n k rs m. if rs = (length m mod 256, k mod 256) then Inr () else Inl (PyExn InvalidSignature))\<rparr>"

definition sample_operators :: "nat operator_env" where
  "sample_operators = \<lparr>oe_root_key = 9, oe_root_now = 1000, oe_root_serial = 1,
     oe_first = \<lparr>od_vcek_key = 3, od_channel_key = [4], od_now = 1000, od_serial = 2\<rparr>,
     oe_second = \<lparr>od_vcek_key = 5, od_channel_key = [6], od_now = 1001, od_serial = 3\<rparr>,
     oe_ephemeral = [7], oe_nonce = replicate 12 0\<rparr>"

text \<open>
  A library whose policy engine permits reading only, and whose cipher sets the high bit of every byte it writes.
\<close>

definition demo_lib :: lib where
  "demo_lib = sample_lib\<lparr>
     aead_encrypt := (\<lambda>k n p a. map (\<lambda>b. xor b 128) p @ [or (sum_list k + sum_list n + sum_list a) 128]),
     aead_decrypt := (\<lambda>k n c a.
       if c \<noteq> [] \<and> last c = or (sum_list k + sum_list n + sum_list a) 128 then Some (map (\<lambda>b. xor b 128) (butlast c)) else None),
     cedar_allows := (\<lambda>request policies. request = cedar_request (cedar_default policies) (str ''task:read''))\<rparr>"

lemma demo_laws: "ed25519_correct demo_lib" "x25519_correct demo_lib" "aead_correct demo_lib"
proof -
  show "ed25519_correct demo_lib" using sample_ed25519 by (simp add: ed25519_correct_def demo_lib_def)
  show "x25519_correct demo_lib" using sample_x25519 by (simp add: x25519_correct_def demo_lib_def)
  have "map ((\<lambda>b :: byte. xor b 128) \<circ> (\<lambda>b. xor b 128)) p = p" for p by (rule map_idI) (simp add: xor.assoc)
  then show "aead_correct demo_lib" by (simp add: aead_correct_def demo_lib_def)
qed

lemma demo_operators_ok: "operators_ok demo_lib layout_snp issued_x509 sample_issuing 1002 sample_operators"
proof -
  have m: "(n :: nat) mod 256 < 256 ^ 72" for n by (rule less_le_trans [of _ 256]) (simp_all add: self_le_power)
  have "snp_layout layout_snp sample_issuing" by (simp add: snp_layout_def layout_snp_def sample_issuing_def)
  moreover have "ecdsa_correct issued_x509 sample_issuing" using m by (simp add: ecdsa_correct_def issued_x509_def sample_issuing_def)
  moreover have "issuing_correct 1002 issued_x509 sample_issuing" by (simp add: issuing_correct_def issued_x509_def sample_issuing_def)
  moreover have "x_exchange demo_lib k (x_public demo_lib q) \<noteq> None" for k q by (simp add: demo_lib_def sample_lib_def)
  ultimately show ?thesis
    by (simp add: operators_ok_def demo_laws sample_operators_def in_force_def NONCE_LEN_def)
qed

lemma demo_hides:
  assumes "seal_to_key demo_lib (hex (x_public demo_lib [6])) [7] (replicate 12 0) CROSS_PAYLOAD [] = Inr sealed"
  shows "\<not> sublist CROSS_PAYLOAD sealed"
proof
  assume "sublist CROSS_PAYLOAD sealed"
  then have "set CROSS_PAYLOAD \<subseteq> set sealed" by (rule set_mono_sublist)
  moreover have "100 \<in> set CROSS_PAYLOAD" by (simp add: CROSS_PAYLOAD_def ascii_bytes_def str_def)
  ultimately have "100 \<in> set sealed" by blast
  moreover have "(100 :: byte) \<noteq> or x 128" for x
  proof
    assume "(100 :: byte) = or x 128"
    then have "bit (100 :: byte) 7 = bit (or x 128) 7" by simp
    then show False by (simp add: bit_or_iff)
  qed
  moreover have "100 \<notin> (\<lambda>b. xor b 128) ` set CROSS_PAYLOAD" by (simp add: CROSS_PAYLOAD_def ascii_bytes_def str_def)
  ultimately show False
    using assms demo_laws(2) by (auto simp: seal_to_key_def sealed_channel_init_def seal_def Let_def guard_simps SEALED_VERSION_def demo_lib_def sample_lib_def pad32_def)
qed

theorem cross_operator_exit_witness:
  "\<exists>D'. cross_operator_main demo_lib layout_snp issued_x509 sample_issuing sample_operators (\<lambda>i. replicate 32 (of_nat i)) (str ''policy'') int
      (\<lambda>_. sample_cli_env [] []) (str ''/c'') (str ''/d'') \<lparr>dk_files = \<lambda>_. Absent, dk_writable = \<lambda>_. True\<rparr> = Inr (0, D')"
proof -
  have k: "od_channel_key (oe_first sample_operators) = [4]" "od_channel_key (oe_second sample_operators) = [6]"
    "oe_ephemeral sample_operators = [7]" "oe_nonce sample_operators = replicate 12 0" by (simp_all add: sample_operators_def)
  have "cedar_permits demo_lib (cedar_default (str ''policy'')) (str ''task:read'')"
    "\<not> cedar_permits demo_lib (cedar_default (str ''policy'')) (str ''task:write'')"
    by (simp_all add: cedar_permits_def demo_lib_def cedar_request_def cedar_default_def)
  note t = cross_operator_exit [OF demo_operators_ok demo_laws(1) this, of "\<lparr>dk_files = \<lambda>_. Absent, dk_writable = \<lambda>_. True\<rparr>" "str ''/c''" "str ''/d''"]
  have "x_public demo_lib [4] \<noteq> x_public demo_lib [6]" by (simp add: demo_lib_def sample_lib_def pad32_def)
  then show ?thesis
    using t [unfolded k] demo_hides by (fastforce simp: path_text_def path_str_def to_path_def str_def)
qed

end
