(* ===== verification/Spec2Isabelle.thy ===== *)
theory Spec2Isabelle
  imports Cli Sdk_Bridge Http Acceptance Benchmark Fuzz Loopback Handoff Operators
begin

text \<open>
  \<^bold>\<open>cA2A: confidential agent-to-agent calls.\<close>

  The repository implements a profile on top of A2A in which one agent calls another under a chain of
  signed, attenuated delegation credentials. A callee verifies the chain, checks that the caller
  holds the leaf key, appraises the caller's runtime, intersects the delegated scope with its own
  policy, opens the payload sealed to its attested channel key and emits a provenance record linked to
  the record before it. Auditors verify chains, records and hardware evidence offline. This
  development models that code as executable HOL functions and proves what makes it correct.

  \<^bold>\<open>How the code is represented.\<close> A Python string is the list of its code points (\<open>ustr\<close>), a bytes
  object a list of 8-bit words, a dict an association list in insertion order, a JSON value the
  datatype \<open>json\<close>. A function that may raise returns \<open>exn + 'a\<close>: a class of the registry with its
  message (and the provenance record some refusals carry), or an exception of the interpreter. Clock
  readings, random bytes, file contents and the answers of devices and peers are arguments. Code
  outside the repository is a record of functions: \<open>lib\<close> (Ed25519, X25519, HKDF, ChaCha20-Poly1305,
  \<open>repr\<close>, \<open>float\<close>, Unicode tables, the Cedar verdict), \<open>trace_lib\<close> (agentrust_trace, rfc8785),
  \<open>cert_ops\<close>, \<open>x509_ops\<close>, \<open>snp_lib\<close>, \<open>tpm_device\<close>, \<open>tpm_verify_lib\<close>, \<open>tsm_host\<close>,
  \<open>manifest_sdk\<close>, \<open>protobuf\<close>. What their documentation promises is stated as named laws (\<open>ed25519_correct\<close>,
  \<open>x25519_correct\<close>, \<open>aead_correct\<close>, \<open>rfc8785_canonical\<close>, \<open>trace_sign_correct\<close>, \<open>tpm_verify_binds\<close>,
  \<open>host_tpm_returns\<close>, \<open>struct_faithful\<close>), which appear as hypotheses where they are used and hold of the sample instances.
  SHA-256 and HMAC are defined, so a statement about digests names the two byte strings that would
  have to collide.

  \<^bold>\<open>Foundations.\<close> \<open>Prelude\<close> (the error monad, hex, integers as text), \<open>Errors\<close> (\<open>errors.py\<close>), \<open>Json\<close>
  (values and dicts), \<open>Text_Encoding\<close> (UTF-8, UTF-16), \<open>Hashes\<close>, \<open>Canonical\<close> (\<open>canonical.py\<close>,
  RFC 8785), \<open>Json_Text\<close> (\<open>json.loads\<close> and UTF-8 decoding; the parser takes fuel, and twice the
  length of the text is enough for every text), \<open>Json_Dump\<close> (\<open>json.dumps\<close>, and \<open>json.loads\<close> on bytes
  with its encoding detection), \<open>B64url\<close> (\<open>transport/_b64url.py\<close>), \<open>Extern\<close>, and
  \<open>Documents\<close>, the contract of a signed or hashed document.

  \<^bold>\<open>Delegation.\<close> \<open>Credential\<close> (\<open>delegation/credential.py\<close>), \<open>Revocation\<close> (\<open>delegation/revocation.py\<close>),
  \<open>Chain\<close> (\<open>verify_chain\<close>), \<open>Challenge\<close> (\<open>challenge.py\<close>), \<open>Holder\<close> (\<open>delegation/holder.py\<close>). Shown:
  \<open>verify_chain\<close> accepts exactly the declaratively valid chains; scopes only shrink along a chain;
  revocation hits exactly the hops a statement reaches; a challenge is authentic and expires; a
  holder proof commits every fact of the request; the three kinds of signed object never share
  their bytes.

  \<^bold>\<open>Attestation.\<close> \<open>Tee\<close> (\<open>tee/base.py\<close>, \<open>binding.py\<close>, \<open>software.py\<close>), \<open>Sealed_Channel\<close>
  (\<open>channel/sealed.py\<close>), \<open>Attestation\<close> (\<open>attestation.py\<close>), \<open>Evidence\<close> (\<open>tee/tsm.py\<close>), \<open>Tpm\<close>, \<open>Sev_Snp\<close>
  and \<open>Tdx\<close> (collector and verifier of each platform). Shown: the binding digest commits role, key and
  nonce; an accepted offer is bound to the expected role, key and nonce; the parsers of
  unauthenticated evidence stay inside the blob and raise only \<open>AttestationFailed\<close>; accepted hardware
  evidence links the channel key to a trusted root without a gap; the kernel is asked to sign only
  for the expected provider. \<open>nv_loop\<close>, whose end depends on the device, is a partial function into
  option; it returns when the device answers each read with the bytes asked for, and diverges on an empty buffer.

  \<^bold>\<open>The call.\<close> \<open>Policy\<close> (\<open>policy.py\<close>, \<open>cedar.py\<close>), \<open>Provenance\<close> (\<open>provenance.py\<close>), \<open>Peer\<close> (\<open>peer.py\<close>),
  \<open>Wire\<close> (\<open>transport/wire.py\<close>), \<open>Adapter\<close> (\<open>transport/a2a_adapter.py\<close>), \<open>Response\<close> (\<open>response.py\<close>), \<open>Node\<close>
  (\<open>node.py\<close>, \<open>transport/server.py\<close>), \<open>Client\<close> (\<open>transport/client.py\<close>). Shown: what acceptance
  implies (authority, possession of the leaf key, an earned attestation outcome); that a refusal
  is reached without decrypting and its record is accurate; that an honest call between the modelled
  caller and node is served; that a metadata message parses back to the request attached to it and
  fails closed otherwise; that an authenticated response is fresh, bound to its request and verified once.
  \<open>Sdk_Bridge\<close> (\<open>transport/a2a_sdk.py\<close>) carries the same metadata on messages of the official SDK and
  declares the profile on an Agent Card; a protobuf Struct is a parameter, and the relation \<open>carries\<close> says
  what it may lose. Shown: a request survives the Struct, and a card states what the node enforces.
  \<open>Http\<close> adds the functions of \<open>client.py\<close> that open URLs, the scheme guard and bounded reads among them, and the
  writer of \<open>server.py\<close>; what \<open>urlopen\<close> answers is a parameter (\<open>network\<close>). Shown: a task posted as bytes to
  the modelled server is answered as if the message itself had been handed to the node.

  \<^bold>\<open>Audit and start-up.\<close> \<open>Trace\<close> (\<open>trace_binding.py\<close>, \<open>ca2a_verify/dag.py\<close>), \<open>Offline\<close>
  (\<open>ca2a_verify/verify.py\<close>), \<open>Config\<close> (\<open>config.py\<close>), \<open>Agent_Manifest\<close> (\<open>agent_manifest.py\<close>), \<open>Bootstrap\<close>
  (\<open>bootstrap.py\<close>), \<open>Cli\<close> (\<open>cli.py\<close>, from the parsed arguments to the printed lines and the exit code),
  \<open>Acceptance\<close> (\<open>hardware_acceptance.py\<close>: an action extends the receipt log and may raise; the node's
  pipeline, the server loop and \<open>send_task\<close> are actions it is given), \<open>Benchmark\<close> (\<open>benchmarks.py\<close>). Shown: the DAG verifier accepts exactly the valid, linked
  and trusted record lists, is tamper evident and accepts what the emitter makes; an audit ties each record to its credential; the
  offline verifier gives the runtime's verdict; a loaded configuration is well-formed; start-up
  never downgrades its provider, and the node it builds enforces its configuration and identity;
  \<open>verify-lineage\<close> exits with 0 exactly for an authentic lineage, \<open>verify-dag\<close> never claims one, and no
  command ignores a revocation option; receipts are well nested, observing an appraisal does not change
  it, and a sending run succeeds only when \<open>send_task\<close>, given a verifier built from provisioned pins,
  returned a body that reports acceptance under hardware attestation; the chains the benchmark builds,
  of any length up to the depth bound, are accepted.

  \<^bold>\<open>Scripts, experiments, examples and fuzz targets.\<close> These programs call the library and check its answers; they
  are modelled as compositions of the definitions above, with drawn keys, clocks and fuzzed bytes as arguments and
  without the text they print. \<open>Fixtures\<close> (the loop that signs a chain, which \<open>benchmarks.py\<close> and most of the others
  share), \<open>Json_Pretty\<close> (\<open>json.dumps\<close> with an indent), \<open>Artifacts\<close> (the files written and read back),
  \<open>Experiments\<close> (claims 1, 2 and 3 and \<open>c1_attenuation_scale.py\<close>), \<open>Scripts\<close> (\<open>gen_example_chain.py\<close>),
  \<open>Action_Fixtures\<close> (\<open>gen_action_fixtures.py\<close>), \<open>Demos\<close> (claim 5, \<open>rejection-with-proof/demo.py\<close>), \<open>Fuzz\<close> (the
  targets under \<open>.clusterfuzzlite\<close>), \<open>Loopback\<close> (\<open>a2a-sdk/loopback.py\<close>), \<open>Operators\<close> (claims 4 and 6
  and \<open>cross-operator-delegation/demo.py\<close>) and \<open>Handoff\<close> (the race, the relay, the
  caller and its recovery of the handoff experiments under \<open>papers\<close>). Shown: claims 1, 2, 3 and 5 end with
  exit code 0 for whatever keys they draw, the last up to a hash collision; the generated files verify again through the command line with the documented
  verdicts, up to the one hash that would have to be all zeros; the canonicalizer target never fails, and no wire
  document makes a parser raise outside its contract but for the exceptions the statement names; the loopback run
  serves the read call, refuses the write call, and its protected handler is reached through authorized calls only;
  one of any number of concurrent verifications succeeds, a call cut on the wire stays unknown over a restart, and a
  response captured before the restart is refused after it; the cross-operator runs end with exit code 0 unless the
  two channel keys coincide or the sealed bytes contain the task (claim 4 also asks the cipher to refuse a wrong key
  and an altered byte), under stated laws for certificates, ECDSA and the
  layout of a report.

  \<^bold>\<open>Interfaces.\<close> \<open>policy_contract\<close> (allow set, Cedar), \<open>attestation_provider\<close> (software, SNP, TDX and
  whatever start-up selects), \<open>byte_codec\<close> (hex and three base64url decoders), the document contract
  of \<open>Documents\<close> (credentials, revocations, records, proofs), \<open>hash_chain\<close> (provenance and TRACE
  records) and the one-use contract of \<open>Response\<close> are locales, each interpreted on the definitions above.

  \<^bold>\<open>Not modelled.\<close> Sockets, the parsing of request lines and queries, \<open>urlopen\<close> and the argument parser
  (arguments of the handlers); the free-text detail of an error; logging; the copy and pickle guards of
  \<open>PendingResponse\<close>; the constant PEM roots of \<open>ca2a_verify/tpm_roots.py\<close>; the remaining
  examples, experiments and scripts (\<open>trace-dag\<close>, the timing sweeps and
  the process control of the handoff experiments under \<open>papers\<close>, the hardware bridges and the paper builders), which call the modelled code or
  format documents.
\<close>

end
